(* ===== verification/RF_Prelude.thy ===== *)
theory RF_Prelude
  imports Main "HOL-Library.Word" "HOL-Library.Sublist" "HOL-Library.AList"
begin

text \<open>
  Shared vocabulary of the development: machine integer types, the error codes of
  \<^verbatim>\<open>include/rflow/librflow_common.h\<close>, the parts of the C and C++ standard library the
  sources use on byte strings (\<^verbatim>\<open>std::string::find\<close>, \<^verbatim>\<open>rfind\<close>, \<^verbatim>\<open>std::to_string\<close>,
  \<^verbatim>\<open>strtol\<close>, \<^verbatim>\<open>atoi\<close>, \<^verbatim>\<open>isspace\<close>), and the generic lemmas on lists, substring search and
  association lists that the component theories use.

  A \<^verbatim>\<open>std::string\<close> is a HOL string (a list of 8-bit characters, so its length is the
  number of bytes). A \<^verbatim>\<open>const char*\<close> argument is a string option: None is the null
  pointer, and Some s is the NUL-terminated text without its terminator.
\<close>

named_theorems rf_defs \<open>unfolding equations of the operations of the current component\<close>
named_theorems rf_scan \<open>facts that skip text in which a search token cannot start\<close>

section \<open>Machine integers and error codes\<close>

type_synonym u8 = "8 word"
type_synonym u16 = "16 word"
type_synonym u32 = "32 word"
type_synonym u64 = "64 word"

text \<open>The value of a 32-bit signed integer after a narrowing conversion.\<close>

definition to_int32 :: "int \<Rightarrow> int" where
  "to_int32 v = sint (word_of_int v :: u32)"

definition int32_range :: "int \<Rightarrow> bool" where
  "int32_range v \<longleftrightarrow> - (2 ^ 31) \<le> v \<and> v < 2 ^ 31"

lemma to_int32_id [simp]:
  assumes "int32_range v"
  shows "to_int32 v = v"
proof -
  have "signed_take_bit 31 v = v"
    using assms by (simp add: int32_range_def signed_take_bit_int_eq_self)
  then show ?thesis
    by (simp add: to_int32_def sint_sbintrunc')
qed

lemma to_int32_range: "int32_range (to_int32 v)"
proof -
  have "- (2 ^ 31) \<le> sint (word_of_int v :: u32)"
    using sint_ge [of "word_of_int v :: u32"] by simp
  moreover have "sint (word_of_int v :: u32) < 2 ^ 31"
    using sint_lt [of "word_of_int v :: u32"] by simp
  ultimately show ?thesis by (simp add: to_int32_def int32_range_def)
qed

lemma u32_bound [simp]: "unat (w :: u32) < 4294967296"
  using unsigned_less [of w, where 'a = nat] by simp

datatype rflow_err_t =
    RFLOW_OK
  | RFLOW_ERR_FAIL | RFLOW_ERR_PARAM | RFLOW_ERR_NOT_SUPPORT | RFLOW_ERR_STATE
  | RFLOW_ERR_NO_MEM | RFLOW_ERR_TIMEOUT | RFLOW_ERR_BUSY | RFLOW_ERR_NOT_FOUND
  | RFLOW_ERR_TRUNCATED
  | RFLOW_ERR_CONN_FAIL | RFLOW_ERR_CONN_AUTH | RFLOW_ERR_CONN_LICENSE
  | RFLOW_ERR_CONN_NETWORK | RFLOW_ERR_CONN_KICKED
  | RFLOW_ERR_STREAM_NOT_EXIST | RFLOW_ERR_STREAM_ALREADY_OPEN
  | RFLOW_ERR_STREAM_CODEC_UNSUPP | RFLOW_ERR_STREAM_ENCODER_FAIL
  | RFLOW_ERR_STREAM_NO_SUBSCRIBER

definition RFLOW_LIMIT_MAX_STREAMS :: nat where
  "RFLOW_LIMIT_MAX_STREAMS = 16"

definition RFLOW_LIMIT_MAX_PAYLOAD_BYTES :: nat where
  "RFLOW_LIMIT_MAX_PAYLOAD_BYTES = 2 ^ 20"

definition RFLOW_DEFAULT_DEVICE_ID :: string where
  "RFLOW_DEFAULT_DEVICE_ID = ''demo_device''"

lemma default_device_id_nonempty [simp]: "RFLOW_DEFAULT_DEVICE_ID \<noteq> []"
  by (simp add: RFLOW_DEFAULT_DEVICE_ID_def)

section \<open>Characters\<close>

abbreviation DQ :: char where "DQ \<equiv> CHR 0x22"
abbreviation BSL :: char where "BSL \<equiv> CHR 0x5C"
abbreviation LF :: char where "LF \<equiv> CHR 0x0A"
abbreviation CR :: char where "CR \<equiv> CHR 0x0D"

definition isspace :: "char \<Rightarrow> bool" where
  "isspace c \<longleftrightarrow> c \<in> {CHR '' '', CHR 0x09, CHR 0x0A, CHR 0x0B, CHR 0x0C, CHR 0x0D}"

definition isdigit :: "char \<Rightarrow> bool" where
  "isdigit c \<longleftrightarrow> (of_char c :: nat) \<in> {48..57}"

definition digit_val :: "char \<Rightarrow> nat" where
  "digit_val c = of_char c - 48"

definition digit_char :: "nat \<Rightarrow> char" where
  "digit_char n = char_of (48 + n)"

lemma isdigit_digit_char [simp]: "n < 10 \<Longrightarrow> isdigit (digit_char n)"
  by (simp add: isdigit_def digit_char_def)

lemma digit_val_digit_char [simp]: "n < 10 \<Longrightarrow> digit_val (digit_char n) = n"
  by (simp add: digit_val_def digit_char_def)

lemma digit_not_special:
  "isdigit c \<Longrightarrow> c \<noteq> DQ \<and> c \<noteq> BSL \<and> c \<noteq> LF \<and> c \<noteq> CR \<and> c \<noteq> CHR ''-'' \<and> c \<noteq> CHR ''+''
     \<and> c \<noteq> CHR '':'' \<and> c \<noteq> CHR '','' \<and> c \<noteq> CHR ''{'' \<and> c \<noteq> CHR ''}'' \<and> \<not> isspace c"
  by (auto simp: isdigit_def isspace_def)

section \<open>Decimal printing and parsing\<close>

text \<open>\<^verbatim>\<open>std::to_string\<close> on an integer.\<close>

fun show_nat :: "nat \<Rightarrow> string" where
  "show_nat n = (if n < 10 then [digit_char n] else show_nat (n div 10) @ [digit_char (n mod 10)])"

declare show_nat.simps [simp del]

definition to_string :: "int \<Rightarrow> string" where
  "to_string i = (if i < 0 then CHR ''-'' # show_nat (nat (- i)) else show_nat (nat i))"

text \<open>
  The integer prefix of a string as \<^verbatim>\<open>strtol(s, &end, 10)\<close> reads it: leading white space,
  one optional sign, decimal digits. With no digit the value is 0 and \<^verbatim>\<open>end\<close> stays at the
  start of the string. The value saturates at the limits of \<^verbatim>\<open>long\<close> (64 bits on the
  supported targets).
\<close>

fun digits_value :: "nat \<Rightarrow> string \<Rightarrow> nat" where
  "digits_value acc [] = acc"
| "digits_value acc (c # cs) = (if isdigit c then digits_value (10 * acc + digit_val c) cs else acc)"

definition LONG_MAX :: int where "LONG_MAX = 2 ^ 63 - 1"
definition LONG_MIN :: int where "LONG_MIN = - (2 ^ 63)"

definition strip_sign :: "string \<Rightarrow> bool \<times> string" where
  "strip_sign s = (case s of
      [] \<Rightarrow> (False, [])
    | c # cs \<Rightarrow> if c = CHR ''-'' then (True, cs) else if c = CHR ''+'' then (False, cs) else (False, s))"

definition strtol10 :: "string \<Rightarrow> int \<times> string" where
  "strtol10 s =
     (let t = dropWhile isspace s;
          (neg, d) = strip_sign t
      in if d = [] \<or> \<not> isdigit (hd d) then (0, s)
         else (let v = int (digits_value 0 d); w = (if neg then - v else v)
               in (max LONG_MIN (min LONG_MAX w), dropWhile isdigit d)))"

text \<open>
  \<^verbatim>\<open>std::atoi\<close>: the C library computes \<^verbatim>\<open>(int) strtol(s, NULL, 10)\<close>. ISO C leaves a value
  outside \<^verbatim>\<open>int\<close> undefined; the model takes the value glibc and bionic return.
\<close>

definition atoi :: "string \<Rightarrow> int" where
  "atoi s = to_int32 (fst (strtol10 s))"

lemma show_nat_digits: "\<forall>c \<in> set (show_nat n). isdigit c"
proof (induction n rule: show_nat.induct)
  case (1 n)
  then show ?case by (subst show_nat.simps) auto
qed

lemma show_nat_nonempty [simp]: "show_nat n \<noteq> []"
  by (subst show_nat.simps) simp

lemma isdigit_hd_show_nat [simp]: "isdigit (hd (show_nat n))"
  by (rule show_nat_digits [of n, rule_format]) simp

lemma digits_value_append:
  "\<forall>c \<in> set ds. isdigit c \<Longrightarrow> digits_value acc (ds @ r) = digits_value (digits_value acc ds) r"
  by (induction ds arbitrary: acc) auto

lemma digits_value_stop: "r = [] \<or> \<not> isdigit (hd r) \<Longrightarrow> digits_value acc r = acc"
  by (cases r) auto

lemma digits_value_show_nat: "digits_value 0 (show_nat n) = n"
proof (induction n rule: show_nat.induct)
  case (1 n)
  show ?case
  proof (cases "n < 10")
    case True
    then show ?thesis by (subst show_nat.simps) simp
  next
    case False
    have "digits_value 0 (show_nat (n div 10) @ [digit_char (n mod 10)])
            = digits_value (digits_value 0 (show_nat (n div 10))) [digit_char (n mod 10)]"
      by (rule digits_value_append) (rule show_nat_digits)
    also have "\<dots> = 10 * (n div 10) + n mod 10"
      using "1.IH" False by simp
    finally show ?thesis using False by (subst show_nat.simps) simp
  qed
qed

lemma show_nat_no_space: "dropWhile isspace (show_nat n @ r) = show_nat n @ r"
proof -
  obtain c cs where s: "show_nat n = c # cs" by (cases "show_nat n") auto
  then have "isdigit c" using isdigit_hd_show_nat [of n] by simp
  then show ?thesis using s digit_not_special by simp
qed

lemma strip_sign_show_nat: "strip_sign (show_nat n @ r) = (False, show_nat n @ r)"
proof -
  obtain c cs where s: "show_nat n = c # cs" by (cases "show_nat n") auto
  then have "isdigit c" using isdigit_hd_show_nat [of n] by simp
  then show ?thesis using s digit_not_special [of c] by (simp add: strip_sign_def)
qed

lemma dropWhile_show_nat:
  assumes "r = [] \<or> \<not> isdigit (hd r)"
  shows "dropWhile isdigit (show_nat n @ r) = r"
  using assms show_nat_digits [of n] by (cases r) (auto simp: dropWhile_append2)

lemma strtol10_to_string:
  assumes "LONG_MIN \<le> i" "i \<le> LONG_MAX" "r = [] \<or> \<not> isdigit (hd r)"
  shows "strtol10 (to_string i @ r) = (i, r)"
proof (cases "i < 0")
  case True
  have [simp]: "\<not> isspace (CHR ''-'')" by (simp add: isspace_def)
  have "digits_value 0 (show_nat (nat (- i)) @ r) = nat (- i)"
    using assms(3) by (simp add: digits_value_append show_nat_digits digits_value_show_nat digits_value_stop)
  then show ?thesis
    using True assms dropWhile_show_nat [OF assms(3), of "nat (- i)"]
    by (simp add: strtol10_def to_string_def strip_sign_def Let_def)
next
  case False
  have "digits_value 0 (show_nat (nat i) @ r) = nat i"
    using assms(3) by (simp add: digits_value_append show_nat_digits digits_value_show_nat digits_value_stop)
  then show ?thesis
    using False assms dropWhile_show_nat [OF assms(3), of "nat i"]
    by (simp add: strtol10_def to_string_def show_nat_no_space strip_sign_show_nat Let_def)
qed

lemma atoi_to_string:
  assumes "int32_range i" "r = [] \<or> \<not> isdigit (hd r)"
  shows "atoi (to_string i @ r) = i"
proof -
  have "LONG_MIN \<le> i" "i \<le> LONG_MAX"
    using assms(1) by (auto simp: int32_range_def LONG_MIN_def LONG_MAX_def)
  then show ?thesis using assms by (simp add: atoi_def strtol10_to_string)
qed

lemma to_string_chars:
  "c \<in> set (to_string i) \<Longrightarrow> isdigit c \<or> c = CHR ''-''"
  using show_nat_digits by (auto simp: to_string_def split: if_splits)

lemma to_string_avoids:
  "\<not> isdigit c \<Longrightarrow> c \<noteq> CHR ''-'' \<Longrightarrow> c \<notin> set (to_string i)"
  using to_string_chars by blast

lemma to_string_no_special:
  shows "DQ \<notin> set (to_string i)" and "BSL \<notin> set (to_string i)"
    and "LF \<notin> set (to_string i)" and "CR \<notin> set (to_string i)"
  by (rule to_string_avoids; simp add: isdigit_def)+

lemma to_string_nonempty [simp]: "to_string i \<noteq> []"
  by (simp add: to_string_def)

lemma to_string_inj:
  assumes "to_string i = to_string j"
  shows "i = j"
proof -
  have nat_inj: "m = n" if "show_nat m = show_nat n" for m n
    using digits_value_show_nat that by metis
  have neq: "show_nat m \<noteq> CHR ''-'' # xs" for m xs
  proof
    assume "show_nat m = CHR ''-'' # xs"
    then have "isdigit (CHR ''-'')" using isdigit_hd_show_nat [of m] by simp
    then show False by (simp add: isdigit_def)
  qed
  show ?thesis
  proof (cases "i < 0")
    case True
    with assms neq have "j < 0" by (metis to_string_def)
    with True assms have "nat (- i) = nat (- j)" by (simp add: to_string_def nat_inj)
    with True \<open>j < 0\<close> show ?thesis by simp
  next
    case False
    with assms neq have "\<not> j < 0" by (metis to_string_def)
    with False assms have "nat i = nat j" by (simp add: to_string_def nat_inj)
    with False \<open>\<not> j < 0\<close> show ?thesis by simp
  qed
qed

section \<open>Substring search\<close>

text \<open>\<^verbatim>\<open>s.find(pat)\<close>: the least offset at which the pattern occurs, None for \<^verbatim>\<open>npos\<close>.\<close>

fun find_sub :: "string \<Rightarrow> string \<Rightarrow> nat option" where
  "find_sub pat [] = (if pat = [] then Some 0 else None)"
| "find_sub pat (c # cs) =
     (if prefix pat (c # cs) then Some 0 else map_option Suc (find_sub pat cs))"

definition contains_sub :: "string \<Rightarrow> string \<Rightarrow> bool" where
  "contains_sub pat s \<longleftrightarrow> find_sub pat s \<noteq> None"

text \<open>\<^verbatim>\<open>s.find(c)\<close> and \<^verbatim>\<open>s.rfind(c)\<close> for a single character.\<close>

fun find_char :: "char \<Rightarrow> string \<Rightarrow> nat option" where
  "find_char c [] = None"
| "find_char c (x # xs) = (if x = c then Some 0 else map_option Suc (find_char c xs))"

definition rfind_char :: "char \<Rightarrow> string \<Rightarrow> nat option" where
  "rfind_char c s = map_option (\<lambda>i. length s - 1 - i) (find_char c (rev s))"

text \<open>\<^verbatim>\<open>s.find(c, off)\<close>.\<close>

definition find_char_from :: "char \<Rightarrow> string \<Rightarrow> nat \<Rightarrow> nat option" where
  "find_char_from c s off = map_option (\<lambda>i. off + i) (find_char c (drop off s))"

lemma find_sub_prefix [simp]: "find_sub pat (pat @ r) = Some 0"
proof (cases "pat @ r")
  case (Cons a as)
  then have "prefix pat (a # as)" by (metis prefixI)
  with Cons show ?thesis by simp
qed simp

lemma find_sub_Some_iff:
  "find_sub pat s = Some i \<longleftrightarrow>
     i \<le> length s \<and> prefix pat (drop i s) \<and> (\<forall>j<i. \<not> prefix pat (drop j s))"
proof (induction s arbitrary: i)
  case Nil
  then show ?case by (auto simp: prefix_def)
next
  case (Cons c cs)
  show ?case
  proof (cases i)
    case 0
    then show ?thesis by (auto split: if_splits)
  next
    case (Suc k)
    then show ?thesis using Cons.IH [of k] by (auto simp: less_Suc_eq_0_disj split: if_splits)
  qed
qed

text \<open>A block of text in which no occurrence of the pattern starts is skipped as a whole.\<close>

definition no_start :: "string \<Rightarrow> string \<Rightarrow> string \<Rightarrow> bool" where
  "no_start pat x r \<longleftrightarrow> find_sub pat (x @ r) = map_option (\<lambda>i. length x + i) (find_sub pat r)"

lemma no_start_Nil [simp]: "no_start pat [] r"
  by (cases "find_sub pat r") (simp_all add: no_start_def)

lemma no_start_Cons:
  "\<not> prefix pat (c # x @ r) \<Longrightarrow> no_start pat x r \<Longrightarrow> no_start pat (c # x) r"
  by (simp add: no_start_def option.map_comp comp_def)

lemma no_start_append:
  "no_start pat x (y @ r) \<Longrightarrow> no_start pat y r \<Longrightarrow> no_start pat (x @ y) r"
  by (simp add: no_start_def option.map_comp comp_def add.assoc)

lemma no_start_other_chars:
  assumes "pat = d # p" and "d \<notin> set x"
  shows "no_start pat x r"
  using assms by (induction x) (auto intro!: no_start_Cons)

lemma no_start_find: "no_start pat x (pat @ r) \<Longrightarrow> find_sub pat (x @ pat @ r) = Some (length x)"
  by (simp add: no_start_def)

lemma no_start_none: "no_start pat x r \<Longrightarrow> find_sub pat r = None \<Longrightarrow> find_sub pat (x @ r) = None"
  by (simp add: no_start_def)

lemma find_char_None_iff: "find_char c s = None \<longleftrightarrow> c \<notin> set s"
  by (induction s) auto

lemma find_char_absent [simp]: "c \<notin> set s \<Longrightarrow> find_char c s = None"
  by (simp add: find_char_None_iff)

lemma find_char_first: "c \<notin> set x \<Longrightarrow> find_char c (x @ c # r) = Some (length x)"
  by (induction x) auto

lemma find_char_SomeD:
  "find_char c s = Some i \<Longrightarrow> i < length s \<and> s ! i = c \<and> c \<notin> set (take i s)"
  by (induction s arbitrary: i) (auto split: if_splits)

lemma find_char_Some_split:
  assumes "find_char c s = Some i"
  shows "s = take i s @ c # drop (Suc i) s"
  using find_char_SomeD [OF assms] id_take_nth_drop by metis

lemma rfind_char_last: "c \<notin> set r \<Longrightarrow> rfind_char c (x @ c # r) = Some (length x)"
  by (simp add: rfind_char_def find_char_first)

section \<open>Association lists\<close>

text \<open>
  \<^verbatim>\<open>std::unordered_map\<close> is an association list with distinct keys; \<open>map_of\<close> is
  \<^verbatim>\<open>find\<close>, \<open>AList.update\<close> is \<^verbatim>\<open>m[k] = v\<close>, \<open>AList.delete\<close> is \<^verbatim>\<open>erase\<close>. The order of the
  list stands for the unspecified iteration order; no theorem depends on it.
\<close>

abbreviation keys :: "('k \<times> 'v) list \<Rightarrow> 'k list" where
  "keys m \<equiv> map fst m"

lemma map_of_update [simp]: "map_of (AList.update k v m) k' = (if k' = k then Some v else map_of m k')"
  by (simp add: update_conv')

lemma map_of_delete [simp]: "map_of (AList.delete k m) k' = (if k' = k then None else map_of m k')"
  by (simp add: delete_conv')

lemma distinct_keys_update [simp]: "distinct (keys m) \<Longrightarrow> distinct (keys (AList.update k v m))"
  by (rule distinct_update)

lemma distinct_keys_delete [simp]: "distinct (keys m) \<Longrightarrow> distinct (keys (AList.delete k m))"
  by (rule distinct_delete)

lemma alist_empty_iff: "m = [] \<longleftrightarrow> (\<forall>k. map_of m k = None)"
  by (metis map_of_eq_empty_iff map_of.simps(1) ext)

end
