(* ===== verification/Signal_Protocol.thy ===== *)
theory Signal_Protocol
  imports RF_Prelude
begin

text \<open>
  The signaling wire protocol of \<^verbatim>\<open>src/core/signal/protocol.h\<close> and \<^verbatim>\<open>protocol.cpp\<close>: message
  and registration records, the JSON line builder and the textual field extractor, and the
  server address parser. The main results are that a line built from a message is parsed
  back to the same message, field contents being arbitrary byte strings, and that a built
  line never contains the line terminator of the transport.
\<close>

section \<open>Data\<close>

definition kSignalingProtocolVersion :: int where
  "kSignalingProtocolVersion = 2"

datatype PeerRole = RoleUnknown | RolePublisher | RoleSubscriber

datatype MessageType =
    kUnknown | kRegister | kWelcome | kOffer | kAnswer | kIce | kSubscriberJoin | kSubscriberLeave

record Endpoint =
  ep_host :: string
  ep_port :: u16

record RegisterRequest =
  reg_role :: PeerRole
  reg_stream_id :: string
  reg_device_id :: string
  reg_stream_index :: int

record Message =
  m_type :: MessageType
  m_from :: string
  m_to :: string
  m_peer_id :: string
  m_sdp :: string
  m_mid :: string
  m_mline_index :: int
  m_candidate :: string
  m_registration :: RegisterRequest
  m_protocol_version :: int

definition default_endpoint :: Endpoint where
  "default_endpoint = \<lparr>ep_host = [], ep_port = 8765\<rparr>"

definition default_registration :: RegisterRequest where
  "default_registration =
     \<lparr>reg_role = RoleUnknown, reg_stream_id = [], reg_device_id = [], reg_stream_index = -1\<rparr>"

definition default_message :: Message where
  "default_message =
     \<lparr>m_type = kUnknown, m_from = [], m_to = [], m_peer_id = [], m_sdp = [], m_mid = [],
      m_mline_index = 0, m_candidate = [], m_registration = default_registration,
      m_protocol_version = 1\<rparr>"

section \<open>Names of roles and message types\<close>

fun PeerRole_ToString :: "PeerRole \<Rightarrow> string" where
  "PeerRole_ToString RolePublisher = ''publisher''"
| "PeerRole_ToString RoleSubscriber = ''subscriber''"
| "PeerRole_ToString RoleUnknown = ''unknown''"

definition PeerRoleFromString :: "string \<Rightarrow> PeerRole" where
  "PeerRoleFromString role =
     (if role = ''publisher'' then RolePublisher
      else if role = ''subscriber'' then RoleSubscriber else RoleUnknown)"

fun MessageType_ToString :: "MessageType \<Rightarrow> string" where
  "MessageType_ToString kRegister = ''register''"
| "MessageType_ToString kWelcome = ''welcome''"
| "MessageType_ToString kOffer = ''offer''"
| "MessageType_ToString kAnswer = ''answer''"
| "MessageType_ToString kIce = ''ice''"
| "MessageType_ToString kSubscriberJoin = ''subscriber_join''"
| "MessageType_ToString kSubscriberLeave = ''subscriber_leave''"
| "MessageType_ToString kUnknown = ''unknown''"

definition MessageTypeFromString :: "string \<Rightarrow> MessageType" where
  "MessageTypeFromString t =
     (if t = ''register'' then kRegister
      else if t = ''welcome'' then kWelcome
      else if t = ''offer'' then kOffer
      else if t = ''answer'' then kAnswer
      else if t = ''ice'' then kIce
      else if t = ''subscriber_join'' then kSubscriberJoin
      else if t = ''subscriber_leave'' then kSubscriberLeave
      else kUnknown)"

lemma PeerRoleFromString_ToString [simp]: "PeerRoleFromString (PeerRole_ToString r) = r"
  by (cases r) (simp_all add: PeerRoleFromString_def)

lemma MessageTypeFromString_ToString [simp]: "MessageTypeFromString (MessageType_ToString t) = t"
  by (cases t) (simp_all add: MessageTypeFromString_def)

section \<open>Server address\<close>

text \<open>
  The out parameter is None for a null pointer and otherwise the record it points to; the
  result is the returned flag and the record after the call. The host and the port are
  written even when the call returns false.
\<close>

definition strip_scheme :: "string \<Rightarrow> string" where
  "strip_scheme addr =
     (if prefix ''ws://'' addr then drop 5 addr
      else if prefix ''tcp://'' addr then drop 6 addr else addr)"

definition ParseEndpoint :: "string \<Rightarrow> Endpoint option \<Rightarrow> bool \<times> Endpoint option" where
  "ParseEndpoint addr out =
     (case out of None \<Rightarrow> (False, None)
      | Some ep \<Rightarrow>
         (let s = strip_scheme addr
          in case find_char (CHR '':'') s of
               None \<Rightarrow> (s \<noteq> [], Some (ep\<lparr>ep_host := s, ep_port := 8765\<rparr>))
             | Some colon \<Rightarrow>
                 (take colon s \<noteq> [],
                  Some (ep\<lparr>ep_host := take colon s,
                           ep_port := word_of_int (atoi (drop (colon + 1) s))\<rparr>))))"

section \<open>Escaping and field extraction\<close>

fun EscapeJsonString :: "string \<Rightarrow> string" where
  "EscapeJsonString [] = []"
| "EscapeJsonString (c # cs) =
     (if c = DQ then [BSL, DQ]
      else if c = BSL then [BSL, BSL]
      else if c = LF then [BSL, CHR ''n'']
      else if c = CR then [BSL, CHR ''r'']
      else [c]) @ EscapeJsonString cs"

text \<open>The loop of \<^verbatim>\<open>ExtractJsonString\<close> from offset \<^verbatim>\<open>p\<close> to the closing quote.\<close>

fun unescape_until_quote :: "string \<Rightarrow> string" where
  "unescape_until_quote [] = []"
| "unescape_until_quote [c] = (if c = DQ then [] else [c])"
| "unescape_until_quote (c # n # cs) =
     (if c = BSL then
        (if n = CHR ''n'' then LF else if n = CHR ''r'' then CR else n) # unescape_until_quote cs
      else if c = DQ then []
      else c # unescape_until_quote (n # cs))"

definition str_token :: "string \<Rightarrow> string" where
  "str_token key = DQ # key @ [DQ, CHR '':'', DQ]"

definition int_token :: "string \<Rightarrow> string" where
  "int_token key = DQ # key @ [DQ, CHR '':'']"

definition ExtractJsonString :: "string \<Rightarrow> string \<Rightarrow> string" where
  "ExtractJsonString line key =
     (case find_sub (str_token key) line of
        None \<Rightarrow> []
      | Some p \<Rightarrow> unescape_until_quote (drop (p + length (str_token key)) line))"

definition ExtractJsonInt :: "string \<Rightarrow> string \<Rightarrow> int \<Rightarrow> int" where
  "ExtractJsonInt line key fallback =
     (case find_sub (int_token key) line of
        None \<Rightarrow> fallback
      | Some p \<Rightarrow> atoi (drop (p + length (int_token key)) line))"

section \<open>Parsing a line\<close>

definition parse_body :: "string \<Rightarrow> Message \<Rightarrow> Message" where
  "parse_body line msg =
     (case m_type msg of
        kRegister \<Rightarrow>
          msg\<lparr>m_registration :=
                \<lparr>reg_role = PeerRoleFromString (ExtractJsonString line ''role''),
                 reg_stream_id = ExtractJsonString line ''stream_id'',
                 reg_device_id = ExtractJsonString line ''device_id'',
                 reg_stream_index = ExtractJsonInt line ''stream_index'' (-1)\<rparr>\<rparr>
      | kWelcome \<Rightarrow> msg\<lparr>m_peer_id := ExtractJsonString line ''id''\<rparr>
      | kOffer \<Rightarrow> msg\<lparr>m_sdp := ExtractJsonString line ''sdp''\<rparr>
      | kAnswer \<Rightarrow> msg\<lparr>m_sdp := ExtractJsonString line ''sdp''\<rparr>
      | kIce \<Rightarrow> msg\<lparr>m_mid := ExtractJsonString line ''mid'',
                    m_mline_index := ExtractJsonInt line ''mlineIndex'' 0,
                    m_candidate := ExtractJsonString line ''candidate''\<rparr>
      | _ \<Rightarrow> msg)"

definition ParseMessage :: "string \<Rightarrow> Message option \<Rightarrow> bool \<times> Message option" where
  "ParseMessage line out =
     (if out = None \<or> line = [] then (False, out)
      else let t = MessageTypeFromString (ExtractJsonString line ''type'')
           in if t = kUnknown then (False, out)
              else let msg = default_message
                     \<lparr>m_type := t,
                      m_from := ExtractJsonString line ''from'',
                      m_to := ExtractJsonString line ''to'',
                      m_protocol_version := ExtractJsonInt line ''v'' 1\<rparr>
                   in (True, Some (parse_body line msg)))"

text \<open>The way every caller uses it: a fresh message object, read only when the call succeeds.\<close>

definition parse_line :: "string \<Rightarrow> Message option" where
  "parse_line line =
     (case ParseMessage line (Some default_message) of
        (True, Some m) \<Rightarrow> Some m
      | _ \<Rightarrow> None)"

section \<open>Building a line\<close>

text \<open>The builder state: the output stream so far and the \<^verbatim>\<open>first_field\<close> flag.\<close>

type_synonym json_out = "string \<times> bool"

definition AppendJsonStringField :: "string \<Rightarrow> string \<Rightarrow> json_out \<Rightarrow> json_out" where
  "AppendJsonStringField key val st =
     (case st of (oss, first_field) \<Rightarrow>
        (oss @ (if first_field then [] else [CHR '','']) @
         DQ # key @ [DQ, CHR '':'', DQ] @ EscapeJsonString val @ [DQ], False))"

definition AppendJsonIntField :: "string \<Rightarrow> int \<Rightarrow> json_out \<Rightarrow> json_out" where
  "AppendJsonIntField key val st =
     (case st of (oss, first_field) \<Rightarrow>
        (oss @ (if first_field then [] else [CHR '','']) @
         DQ # key @ [DQ, CHR '':''] @ to_string val, False))"

definition append_registration :: "RegisterRequest \<Rightarrow> json_out \<Rightarrow> json_out" where
  "append_registration r st =
     (let st = (if reg_role r \<noteq> RoleUnknown
                then AppendJsonStringField ''role'' (PeerRole_ToString (reg_role r)) st else st);
          st = (if reg_stream_id r \<noteq> []
                then AppendJsonStringField ''stream_id'' (reg_stream_id r) st else st);
          st = (if reg_device_id r \<noteq> []
                then AppendJsonStringField ''device_id'' (reg_device_id r) st else st)
      in (if reg_stream_index r \<ge> 0
          then AppendJsonIntField ''stream_index'' (reg_stream_index r) st else st))"

definition BuildRegisterLine :: "RegisterRequest \<Rightarrow> string" where
  "BuildRegisterLine req =
     (let r = (if reg_stream_id req = [] \<and> reg_stream_index req \<ge> 0
               then req\<lparr>reg_stream_id :=
                      (if reg_device_id req = [] then RFLOW_DEFAULT_DEVICE_ID else reg_device_id req)
                      @ '':'' @ to_string (reg_stream_index req)\<rparr>
               else req);
          st = AppendJsonStringField ''type'' ''register'' ([CHR ''{''], True);
          st = AppendJsonIntField ''v'' kSignalingProtocolVersion st
      in fst (append_registration r st) @ ''}'')"

definition BuildMessageLine :: "Message \<Rightarrow> string" where
  "BuildMessageLine msg =
     (let st = AppendJsonStringField ''type'' (MessageType_ToString (m_type msg)) ([CHR ''{''], True);
          st = AppendJsonIntField ''v'' kSignalingProtocolVersion st;
          st = (if m_from msg \<noteq> [] then AppendJsonStringField ''from'' (m_from msg) st else st);
          st = (if m_to msg \<noteq> [] then AppendJsonStringField ''to'' (m_to msg) st else st);
          st = (case m_type msg of
                  kRegister \<Rightarrow> append_registration (m_registration msg) st
                | kWelcome \<Rightarrow> (if m_peer_id msg \<noteq> []
                               then AppendJsonStringField ''id'' (m_peer_id msg) st else st)
                | kOffer \<Rightarrow> AppendJsonStringField ''sdp'' (m_sdp msg) st
                | kAnswer \<Rightarrow> AppendJsonStringField ''sdp'' (m_sdp msg) st
                | kIce \<Rightarrow> AppendJsonStringField ''candidate'' (m_candidate msg)
                           (AppendJsonIntField ''mlineIndex'' (m_mline_index msg)
                             (AppendJsonStringField ''mid'' (m_mid msg) st))
                | _ \<Rightarrow> st)
      in fst st @ ''}'')"

section \<open>The structure of a built line\<close>

text \<open>
  A built line is a comma separated list of fields between braces. The field list is only a
  device of the proofs: it names the fields whose text the builder has appended so far.
\<close>

datatype jfield = JStr (jkey: string) (jstr: string) | JInt (jkey: string) (jint: int)

fun jtext :: "jfield \<Rightarrow> string" where
  "jtext (JStr k v) = DQ # k @ [DQ, CHR '':'', DQ] @ EscapeJsonString v @ [DQ]"
| "jtext (JInt k i) = DQ # k @ [DQ, CHR '':''] @ to_string i"

definition jtail :: "jfield list \<Rightarrow> string" where
  "jtail fs = concat (map (\<lambda>f. CHR '','' # jtext f) fs) @ ''}''"

fun jopen :: "jfield list \<Rightarrow> string" where
  "jopen [] = [CHR ''{'']"
| "jopen (f # fs) = CHR ''{'' # jtext f @ concat (map (\<lambda>g. CHR '','' # jtext g) fs)"

definition jstate :: "jfield list \<Rightarrow> json_out" where
  "jstate fs = (jopen fs, fs = [])"

abbreviation jline :: "jfield list \<Rightarrow> string" where
  "jline fs \<equiv> jopen fs @ ''}''"

lemma jline_Cons: "jline (f # fs) = CHR ''{'' # jtext f @ jtail fs"
  by (simp add: jtail_def)

lemma append_string_jstate [simp]:
  "AppendJsonStringField k v (jstate fs) = jstate (fs @ [JStr k v])"
  by (cases fs) (simp_all add: AppendJsonStringField_def jstate_def)

lemma append_int_jstate [simp]:
  "AppendJsonIntField k i (jstate fs) = jstate (fs @ [JInt k i])"
  by (cases fs) (simp_all add: AppendJsonIntField_def jstate_def)

lemma fst_jstate [simp]: "fst (jstate fs) = jopen fs"
  by (simp add: jstate_def)

definition registration_fields :: "RegisterRequest \<Rightarrow> jfield list" where
  "registration_fields r =
     (if reg_role r \<noteq> RoleUnknown then [JStr ''role'' (PeerRole_ToString (reg_role r))] else [])
     @ (if reg_stream_id r \<noteq> [] then [JStr ''stream_id'' (reg_stream_id r)] else [])
     @ (if reg_device_id r \<noteq> [] then [JStr ''device_id'' (reg_device_id r)] else [])
     @ (if reg_stream_index r \<ge> 0 then [JInt ''stream_index'' (reg_stream_index r)] else [])"

definition message_fields :: "Message \<Rightarrow> jfield list" where
  "message_fields m =
     [JStr ''type'' (MessageType_ToString (m_type m)), JInt ''v'' kSignalingProtocolVersion]
     @ (if m_from m \<noteq> [] then [JStr ''from'' (m_from m)] else [])
     @ (if m_to m \<noteq> [] then [JStr ''to'' (m_to m)] else [])
     @ (case m_type m of
          kRegister \<Rightarrow> registration_fields (m_registration m)
        | kWelcome \<Rightarrow> (if m_peer_id m \<noteq> [] then [JStr ''id'' (m_peer_id m)] else [])
        | kOffer \<Rightarrow> [JStr ''sdp'' (m_sdp m)]
        | kAnswer \<Rightarrow> [JStr ''sdp'' (m_sdp m)]
        | kIce \<Rightarrow> [JStr ''mid'' (m_mid m), JInt ''mlineIndex'' (m_mline_index m),
                   JStr ''candidate'' (m_candidate m)]
        | _ \<Rightarrow> [])"

lemma append_registration_jstate:
  "append_registration r (jstate fs) = jstate (fs @ registration_fields r)"
  by (simp add: append_registration_def registration_fields_def Let_def)

lemma jstate_start: "([CHR ''{''], True) = jstate []"
  by (simp add: jstate_def)

lemma BuildMessageLine_fields: "BuildMessageLine m = jline (message_fields m)"
  unfolding BuildMessageLine_def message_fields_def jstate_start append_string_jstate
    append_int_jstate Let_def
  by (cases "m_type m") (simp_all add: append_registration_jstate)

text \<open>The registration after the default stream id has been filled in.\<close>

definition wire_registration :: "RegisterRequest \<Rightarrow> RegisterRequest" where
  "wire_registration req =
     (if reg_stream_id req = [] \<and> reg_stream_index req \<ge> 0
      then req\<lparr>reg_stream_id :=
             (if reg_device_id req = [] then RFLOW_DEFAULT_DEVICE_ID else reg_device_id req)
             @ '':'' @ to_string (reg_stream_index req)\<rparr>
      else req)"

lemma BuildRegisterLine_fields:
  "BuildRegisterLine req =
     jline ([JStr ''type'' ''register'', JInt ''v'' kSignalingProtocolVersion]
            @ registration_fields (wire_registration req))"
  unfolding BuildRegisterLine_def jstate_start append_string_jstate append_int_jstate Let_def
    append_registration_jstate wire_registration_def [symmetric]
  by simp

section \<open>Searching a built line\<close>

definition good_key :: "string \<Rightarrow> bool" where
  "good_key k \<longleftrightarrow> k \<noteq> [] \<and> (\<forall>c \<in> set k. c \<notin> {DQ, BSL, CHR '':'', CHR '','', CHR ''}''})"

lemma jtail_head: "\<exists>c r. jtail fs = c # r \<and> c \<in> {CHR '','', CHR ''}''}"
  by (cases fs) (auto simp: jtail_def)

text \<open>A quote-free key followed by a quote and a colon is no prefix of escaped text.\<close>

lemma key_not_in_escaped:
  assumes "\<forall>c \<in> set k. c \<notin> {DQ, BSL}" and "c \<noteq> CHR '':''"
  shows "\<not> prefix (k @ DQ # CHR '':'' # p) (EscapeJsonString v @ DQ # c # r)"
  using assms(1)
proof (induction v arbitrary: k)
  case Nil
  then show ?case using assms(2) by (cases k) auto
next
  case (Cons x v)
  then show ?case by (cases k) auto
qed

lemma no_start_escaped:
  assumes "\<forall>c \<in> set k. c \<notin> {DQ, BSL}" and "c \<noteq> CHR '':''"
  shows "no_start (DQ # k @ DQ # CHR '':'' # p) (EscapeJsonString v) (DQ # c # r)"
proof (induction v)
  case (Cons x v)
  have "\<not> prefix (k @ DQ # CHR '':'' # p) (EscapeJsonString v @ DQ # c # r)"
    using assms by (rule key_not_in_escaped)
  with Cons show ?case by (auto intro!: no_start_Cons)
qed simp

lemma key_mismatch:
  assumes "DQ \<notin> set k" "DQ \<notin> set k'" "k \<noteq> k'"
  shows "\<not> prefix (k @ DQ # p) (k' @ DQ # r)"
  using assms
proof (induction k arbitrary: k')
  case Nil
  then show ?case by (cases k') auto
next
  case (Cons x k)
  then show ?case by (cases k') auto
qed

text \<open>The two search tokens share their shape: key, closing quote, colon, and a remainder.\<close>

abbreviation key_token :: "string \<Rightarrow> string \<Rightarrow> string" where
  "key_token k p \<equiv> DQ # k @ DQ # CHR '':'' # p"

lemma no_start_quote:
  assumes "good_key k" and "c \<notin> set k"
  shows "no_start (key_token k p) [DQ] (c # r)"
proof (rule no_start_Cons)
  show "\<not> prefix (key_token k p) (DQ # [] @ c # r)"
    using assms by (cases k) (auto simp: good_key_def)
qed simp

lemma no_start_other_key:
  assumes "good_key k" "good_key k'" "k \<noteq> k'"
  shows "no_start (key_token k p) (DQ # k') (DQ # r)"
proof (rule no_start_Cons)
  show "\<not> prefix (key_token k p) (DQ # k' @ DQ # r)"
    using assms key_mismatch [of k k' "CHR '':'' # p" r] by (auto simp: good_key_def)
  show "no_start (key_token k p) k' (DQ # r)"
    using assms(2) by (intro no_start_other_chars [where d = DQ and p = "k @ DQ # CHR '':'' # p"])
      (auto simp: good_key_def)
qed

lemma no_start_key_end:
  assumes "good_key k" "good_key k'" "k \<noteq> k'"
  shows "no_start (key_token k p) (DQ # k' @ [DQ, CHR '':'']) r"
proof -
  have "no_start (key_token k p) [CHR '':''] r"
    by (auto intro!: no_start_Cons)
  moreover have "no_start (key_token k p) [DQ] (CHR '':'' # r)"
    using assms(1) by (intro no_start_quote) (auto simp: good_key_def)
  ultimately have "no_start (key_token k p) [DQ, CHR '':''] r"
    using no_start_append [of "key_token k p" "[DQ]" "[CHR '':'']" r] by simp
  with assms show ?thesis
    using no_start_append [of "key_token k p" "DQ # k'" "[DQ, CHR '':'']" r] no_start_other_key
    by simp
qed

lemma no_start_value:
  assumes "good_key k"
  shows "no_start (key_token k p) (DQ # EscapeJsonString v @ [DQ]) (jtail fs)"
proof -
  obtain c r where t: "jtail fs = c # r" and c: "c \<in> {CHR '','', CHR ''}''}"
    using jtail_head by blast
  have k: "\<forall>c \<in> set k. c \<notin> {DQ, BSL}" and ck: "c \<notin> set k" and col: "c \<noteq> CHR '':''"
    using assms c by (auto simp: good_key_def)
  have "\<not> prefix (key_token k p) (DQ # EscapeJsonString v @ DQ # c # r)"
    using key_not_in_escaped [OF k col] by simp
  moreover have "no_start (key_token k p) (EscapeJsonString v @ [DQ]) (c # r)"
    using no_start_append [of "key_token k p" "EscapeJsonString v" "[DQ]" "c # r"]
      no_start_escaped [OF k col] no_start_quote [OF assms ck] by simp
  ultimately show ?thesis by (auto simp: t intro!: no_start_Cons)
qed

lemma no_start_field:
  assumes "good_key k" "good_key (jkey f)" "jkey f \<noteq> k"
  shows "no_start (key_token k p) (jtext f) (jtail fs)"
proof (cases f)
  case (JStr k' v)
  then show ?thesis
    using assms no_start_value [OF assms(1)] no_start_key_end [of k k' p]
      no_start_append [of "key_token k p" "DQ # k' @ [DQ, CHR '':'']" "DQ # EscapeJsonString v @ [DQ]" "jtail fs"]
    by simp
next
  case (JInt k' i)
  have "no_start (key_token k p) (to_string i) (jtail fs)"
    using to_string_no_special by (intro no_start_other_chars) auto
  then show ?thesis
    using JInt assms no_start_key_end [of k k' p]
      no_start_append [of "key_token k p" "DQ # k' @ [DQ, CHR '':'']" "to_string i" "jtail fs"]
    by simp
qed

lemma no_start_int_field_for_string:
  assumes "good_key k"
  shows "no_start (str_token k) (jtext (JInt k i)) (jtail fs)"
proof -
  have dq: "DQ \<notin> set (k @ [])" using assms by (auto simp: good_key_def)
  have hd: "\<exists>c r'. to_string i @ r = c # r' \<and> c \<noteq> DQ" for r
    using to_string_no_special(1) [of i] to_string_nonempty [of i] by (cases "to_string i") auto
  have "no_start (str_token k) (to_string i) (jtail fs)"
    using to_string_no_special by (intro no_start_other_chars) (auto simp: str_token_def)
  moreover have "no_start (str_token k) [CHR '':''] r" for r
    by (auto simp: str_token_def intro!: no_start_Cons)
  moreover have "no_start (str_token k) [DQ] (CHR '':'' # r)" for r
    using no_start_quote [OF assms, of "CHR '':''" "[DQ]"] assms
    by (auto simp: str_token_def good_key_def)
  moreover have "no_start (str_token k) k (DQ # r)" for r
    using dq by (intro no_start_other_chars) (auto simp: str_token_def)
  moreover have "\<not> prefix (str_token k) (DQ # k @ DQ # CHR '':'' # to_string i @ jtail fs)"
    using hd [of "jtail fs"] by (auto simp: str_token_def)
  ultimately show ?thesis
    using no_start_append [of "str_token k" "[CHR '':'']" "to_string i" "jtail fs"]
      no_start_append [of "str_token k" "[DQ]" "CHR '':'' # to_string i" "jtail fs"]
      no_start_append [of "str_token k" "k" "DQ # CHR '':'' # to_string i" "jtail fs"]
    by (auto intro!: no_start_Cons)
qed

lemma str_token_key_token: "str_token k = key_token k [DQ]"
  by (simp add: str_token_def)

lemma int_token_key_token: "int_token k = key_token k []"
  by (simp add: int_token_def)

text \<open>Both extractors skip a block in which their token cannot start.\<close>

lemma ExtractJsonString_skip:
  "no_start (str_token k) x r \<Longrightarrow> ExtractJsonString (x @ r) k = ExtractJsonString r k"
  by (auto simp: ExtractJsonString_def no_start_def add.assoc split: option.splits)

lemma ExtractJsonInt_skip:
  "no_start (int_token k) x r \<Longrightarrow> ExtractJsonInt (x @ r) k d = ExtractJsonInt r k d"
  by (auto simp: ExtractJsonInt_def no_start_def add.assoc split: option.splits)

lemma ExtractJsonString_skip_char:
  "c \<noteq> DQ \<Longrightarrow> ExtractJsonString (c # r) k = ExtractJsonString r k"
  using ExtractJsonString_skip [of k "[c]" r] no_start_other_chars [of "str_token k" DQ _ "[c]" r]
  by (simp add: str_token_def)

lemma ExtractJsonInt_skip_char:
  "c \<noteq> DQ \<Longrightarrow> ExtractJsonInt (c # r) k d = ExtractJsonInt r k d"
  using ExtractJsonInt_skip [of k "[c]" r] no_start_other_chars [of "int_token k" DQ _ "[c]" r]
  by (simp add: int_token_def)

lemma unescape_escape: "unescape_until_quote (EscapeJsonString v @ DQ # r) = v"
proof (induction v)
  case Nil
  then show ?case by (cases r) auto
next
  case (Cons c v)
  obtain d t where t: "EscapeJsonString v @ DQ # r = d # t"
    by (cases "EscapeJsonString v @ DQ # r") auto
  with Cons show ?case by auto
qed

lemma ExtractJsonString_here:
  "ExtractJsonString (jtext (JStr k v) @ r) k = v"
proof -
  have "jtext (JStr k v) @ r = str_token k @ EscapeJsonString v @ DQ # r"
    by (simp add: str_token_def)
  then show ?thesis by (simp only: ExtractJsonString_def find_sub_prefix) (simp add: unescape_escape)
qed

lemma ExtractJsonInt_here:
  assumes "int32_range i"
  shows "ExtractJsonInt (jtext (JInt k i) @ jtail fs) k d = i"
proof -
  have e: "jtext (JInt k i) @ jtail fs = int_token k @ to_string i @ jtail fs"
    by (simp add: int_token_def)
  obtain c r where "jtail fs = c # r" and "c \<in> {CHR '','', CHR ''}''}"
    using jtail_head by blast
  then have "\<not> isdigit (hd (jtail fs))" by (auto simp: isdigit_def)
  then show ?thesis
    unfolding e ExtractJsonInt_def find_sub_prefix by (simp add: atoi_to_string assms)
qed

text \<open>The value of the first field of a given kind and key.\<close>

fun lookup_str :: "string \<Rightarrow> jfield list \<Rightarrow> string" where
  "lookup_str k [] = []"
| "lookup_str k (JStr k' v # fs) = (if k' = k then v else lookup_str k fs)"
| "lookup_str k (JInt k' i # fs) = lookup_str k fs"

fun lookup_int :: "string \<Rightarrow> int \<Rightarrow> jfield list \<Rightarrow> int" where
  "lookup_int k d [] = d"
| "lookup_int k d (JInt k' i # fs) = (if k' = k then i else lookup_int k d fs)"
| "lookup_int k d (JStr k' v # fs) = lookup_int k d fs"

definition good_fields :: "jfield list \<Rightarrow> bool" where
  "good_fields fs \<longleftrightarrow> (\<forall>f \<in> set fs. good_key (jkey f) \<and> (\<forall>k i. f = JInt k i \<longrightarrow> int32_range i))"

lemma good_fields_Cons [simp]:
  "good_fields (f # fs) \<longleftrightarrow>
     good_key (jkey f) \<and> (\<forall>k i. f = JInt k i \<longrightarrow> int32_range i) \<and> good_fields fs"
  by (auto simp: good_fields_def)

lemma good_fields_Nil [simp]: "good_fields []"
  by (simp add: good_fields_def)

lemma good_fields_append [simp]: "good_fields (xs @ ys) \<longleftrightarrow> good_fields xs \<and> good_fields ys"
  by (auto simp: good_fields_def)

lemma jtail_Cons: "jtail (f # fs) = CHR '','' # jtext f @ jtail fs"
  by (simp add: jtail_def)

lemma extract_str_jtail:
  assumes "good_key k" "good_fields fs"
  shows "ExtractJsonString (jtail fs) k = lookup_str k fs"
  using assms(2)
proof (induction fs)
  case Nil
  have "ExtractJsonString [CHR ''}''] k = ExtractJsonString [] k"
    by (rule ExtractJsonString_skip_char) simp
  then show ?case by (simp add: jtail_def ExtractJsonString_def str_token_def)
next
  case (Cons f fs)
  have "ExtractJsonString (jtext f @ jtail fs) k = lookup_str k (f # fs)"
  proof (cases f)
    case (JStr k' v)
    show ?thesis
    proof (cases "k' = k")
      case True
      then show ?thesis using ExtractJsonString_here [of k v "jtail fs"] JStr by simp
    next
      case False
      then have "no_start (str_token k) (jtext f) (jtail fs)"
        using no_start_field [of k f "[DQ]" fs] assms(1) Cons.prems JStr
        by (simp add: str_token_key_token)
      then have "ExtractJsonString (jtext f @ jtail fs) k = ExtractJsonString (jtail fs) k"
        by (rule ExtractJsonString_skip)
      also have "\<dots> = lookup_str k (f # fs)" using Cons JStr False by simp
      finally show ?thesis .
    qed
  next
    case (JInt k' i)
    have "no_start (str_token k) (jtext f) (jtail fs)"
      using no_start_field [of k f "[DQ]" fs] no_start_int_field_for_string [of k i fs]
        assms(1) Cons.prems JInt by (cases "k' = k") (simp_all add: str_token_key_token)
    then have "ExtractJsonString (jtext f @ jtail fs) k = ExtractJsonString (jtail fs) k"
      by (rule ExtractJsonString_skip)
    also have "\<dots> = lookup_str k (f # fs)" using Cons JInt by simp
    finally show ?thesis .
  qed
  then show ?case by (simp add: jtail_Cons ExtractJsonString_skip_char)
qed

lemma extract_int_jtail:
  assumes "good_key k" "good_fields fs" "\<forall>v. JStr k v \<notin> set fs"
  shows "ExtractJsonInt (jtail fs) k d = lookup_int k d fs"
  using assms(2,3)
proof (induction fs)
  case Nil
  have "ExtractJsonInt [CHR ''}''] k d = ExtractJsonInt [] k d"
    by (rule ExtractJsonInt_skip_char) simp
  then show ?case by (simp add: jtail_def ExtractJsonInt_def int_token_def)
next
  case (Cons f fs)
  have "ExtractJsonInt (jtext f @ jtail fs) k d = lookup_int k d (f # fs)"
  proof (cases "jkey f = k")
    case True
    then obtain i where f: "f = JInt k i" using Cons.prems by (cases f) auto
    then have "ExtractJsonInt (jtext (JInt k i) @ jtail fs) k d = i"
      using Cons.prems by (intro ExtractJsonInt_here) simp
    then show ?thesis using f by simp
  next
    case False
    then have "no_start (int_token k) (jtext f) (jtail fs)"
      using no_start_field [of k f "[]" fs] assms(1) Cons.prems by (simp add: int_token_key_token)
    moreover have "lookup_int k d (f # fs) = lookup_int k d fs"
      using False by (cases f) auto
    ultimately show ?thesis using Cons by (simp add: ExtractJsonInt_skip)
  qed
  then show ?case by (simp add: jtail_Cons ExtractJsonInt_skip_char)
qed

lemma jline_as_jtail:
  assumes "fs \<noteq> []"
  shows "ExtractJsonString (jline fs) k = ExtractJsonString (jtail fs) k"
    and "ExtractJsonInt (jline fs) k d = ExtractJsonInt (jtail fs) k d"
proof -
  obtain f gs where "fs = f # gs" using assms by (cases fs) auto
  then have l: "jline fs = CHR ''{'' # jtext f @ jtail gs" "jtail fs = CHR '','' # jtext f @ jtail gs"
    by (simp_all add: jtail_def)
  show "ExtractJsonString (jline fs) k = ExtractJsonString (jtail fs) k"
    and "ExtractJsonInt (jline fs) k d = ExtractJsonInt (jtail fs) k d"
    unfolding l by (simp_all add: ExtractJsonString_skip_char ExtractJsonInt_skip_char)
qed

lemma extract_str_jline:
  "good_key k \<Longrightarrow> good_fields fs \<Longrightarrow> fs \<noteq> [] \<Longrightarrow> ExtractJsonString (jline fs) k = lookup_str k fs"
  using jline_as_jtail(1) extract_str_jtail by metis

lemma extract_int_jline:
  "good_key k \<Longrightarrow> good_fields fs \<Longrightarrow> fs \<noteq> [] \<Longrightarrow> \<forall>v. JStr k v \<notin> set fs
    \<Longrightarrow> ExtractJsonInt (jline fs) k d = lookup_int k d fs"
  using jline_as_jtail(2) extract_int_jtail by metis

section \<open>Round trips\<close>

text \<open>
  What the receiver reconstructs: the fields its message type carries, defaults for the
  others, the protocol version of the builder, and -1 for an absent stream index.
\<close>

definition seen_registration :: "RegisterRequest \<Rightarrow> RegisterRequest" where
  "seen_registration r = r\<lparr>reg_stream_index := (if reg_stream_index r \<ge> 0 then reg_stream_index r else -1)\<rparr>"

definition wire_message :: "Message \<Rightarrow> Message" where
  "wire_message m =
     (let b = default_message\<lparr>m_type := m_type m, m_from := m_from m, m_to := m_to m,
                m_protocol_version := kSignalingProtocolVersion\<rparr>
      in case m_type m of
           kRegister \<Rightarrow> b\<lparr>m_registration := seen_registration (m_registration m)\<rparr>
         | kWelcome \<Rightarrow> b\<lparr>m_peer_id := m_peer_id m\<rparr>
         | kOffer \<Rightarrow> b\<lparr>m_sdp := m_sdp m\<rparr>
         | kAnswer \<Rightarrow> b\<lparr>m_sdp := m_sdp m\<rparr>
         | kIce \<Rightarrow> b\<lparr>m_mid := m_mid m, m_mline_index := m_mline_index m, m_candidate := m_candidate m\<rparr>
         | _ \<Rightarrow> b)"

text \<open>The integers of the message fit their C type.\<close>

definition message_ints_ok :: "Message \<Rightarrow> bool" where
  "message_ints_ok m \<longleftrightarrow>
     int32_range (m_mline_index m) \<and> int32_range (reg_stream_index (m_registration m))"

lemma good_keys [simp]:
  "good_key ''type''" "good_key ''v''" "good_key ''from''" "good_key ''to''" "good_key ''role''"
  "good_key ''stream_id''" "good_key ''device_id''" "good_key ''stream_index''" "good_key ''id''"
  "good_key ''sdp''" "good_key ''mid''" "good_key ''mlineIndex''" "good_key ''candidate''"
  by (simp_all add: good_key_def)

lemma int32_range_numerals [simp]: "int32_range kSignalingProtocolVersion" "int32_range (-1)" "int32_range 0"
  by (simp_all add: int32_range_def kSignalingProtocolVersion_def)

lemma good_registration_fields:
  "int32_range (reg_stream_index r) \<Longrightarrow> good_fields (registration_fields r)"
  by (simp add: registration_fields_def)

lemma good_message_fields: "message_ints_ok m \<Longrightarrow> good_fields (message_fields m)"
  by (cases "m_type m") (auto simp: message_fields_def message_ints_ok_def good_registration_fields)

lemma message_fields_nonempty [simp]: "message_fields m \<noteq> []"
  by (simp add: message_fields_def)

lemma int_keys_not_strings:
  assumes "k \<in> {''v'', ''stream_index'', ''mlineIndex''}"
  shows "\<forall>v. JStr k v \<notin> set (message_fields m)"
  using assms by (cases "m_type m") (auto simp: message_fields_def registration_fields_def)

lemma jline_nonempty [simp]: "jline fs \<noteq> []"
  by simp

lemma parse_registration_fields:
  "\<lparr>reg_role = PeerRoleFromString (lookup_str ''role'' (registration_fields r)),
    reg_stream_id = lookup_str ''stream_id'' (registration_fields r),
    reg_device_id = lookup_str ''device_id'' (registration_fields r),
    reg_stream_index = lookup_int ''stream_index'' (- 1) (registration_fields r)\<rparr> = seen_registration r"
  by (cases "reg_role r") (auto simp: registration_fields_def seen_registration_def PeerRoleFromString_def)

lemma lookup_message_common:
  "lookup_str ''type'' (message_fields m) = MessageType_ToString (m_type m)"
  "lookup_str ''from'' (message_fields m) = m_from m"
  "lookup_str ''to'' (message_fields m) = m_to m"
  "lookup_int ''v'' d (message_fields m) = kSignalingProtocolVersion"
  by (cases "m_type m"; auto simp: message_fields_def registration_fields_def)+

lemma lookup_registration_in_message:
  assumes "m_type m = kRegister"
  shows "lookup_str ''role'' (message_fields m) = lookup_str ''role'' (registration_fields (m_registration m))"
    and "lookup_str ''stream_id'' (message_fields m) = lookup_str ''stream_id'' (registration_fields (m_registration m))"
    and "lookup_str ''device_id'' (message_fields m) = lookup_str ''device_id'' (registration_fields (m_registration m))"
    and "lookup_int ''stream_index'' d (message_fields m) = lookup_int ''stream_index'' d (registration_fields (m_registration m))"
  using assms by (simp_all add: message_fields_def)

lemma lookup_message_body:
  "m_type m = kWelcome \<Longrightarrow> lookup_str ''id'' (message_fields m) = m_peer_id m"
  "m_type m = kOffer \<or> m_type m = kAnswer \<Longrightarrow> lookup_str ''sdp'' (message_fields m) = m_sdp m"
  "m_type m = kIce \<Longrightarrow> lookup_str ''mid'' (message_fields m) = m_mid m"
  "m_type m = kIce \<Longrightarrow> lookup_str ''candidate'' (message_fields m) = m_candidate m"
  "m_type m = kIce \<Longrightarrow> lookup_int ''mlineIndex'' d (message_fields m) = m_mline_index m"
  by (auto simp: message_fields_def)

lemma parse_message_fields:
  assumes "message_ints_ok m" "m_type m \<noteq> kUnknown"
  shows "parse_body (jline (message_fields m))
           (default_message\<lparr>m_type := m_type m, m_from := m_from m, m_to := m_to m,
              m_protocol_version := kSignalingProtocolVersion\<rparr>) = wire_message m"
proof -
  have str: "ExtractJsonString (jline (message_fields m)) k = lookup_str k (message_fields m)"
    if "good_key k" for k
    using that good_message_fields [OF assms(1)] by (intro extract_str_jline) auto
  have int: "ExtractJsonInt (jline (message_fields m)) k d = lookup_int k d (message_fields m)"
    if "k \<in> {''v'', ''stream_index'', ''mlineIndex''}" for k d
    using that good_message_fields [OF assms(1)] int_keys_not_strings [OF that, of m]
    by (intro extract_int_jline) auto
  show ?thesis
  proof (cases "m_type m")
    case kRegister
    then show ?thesis
      using parse_registration_fields [of "m_registration m"]
      by (simp add: parse_body_def str int lookup_registration_in_message wire_message_def)
  qed (use assms(2) in \<open>simp_all add: parse_body_def str int wire_message_def lookup_message_body\<close>)
qed

lemma ParseMessage_BuildMessageLine:
  assumes "message_ints_ok m" and "m_type m \<noteq> kUnknown"
  shows "ParseMessage (BuildMessageLine m) (Some old) = (True, Some (wire_message m))"
proof -
  have str: "ExtractJsonString (jline (message_fields m)) k = lookup_str k (message_fields m)"
    if "good_key k" for k
    using that good_message_fields [OF assms(1)] by (intro extract_str_jline) auto
  have int: "ExtractJsonInt (jline (message_fields m)) ''v'' d = kSignalingProtocolVersion" for d
    using good_message_fields [OF assms(1)] int_keys_not_strings [of "''v''" m]
    by (subst extract_int_jline) (auto simp: lookup_message_common)
  show ?thesis
    unfolding ParseMessage_def BuildMessageLine_fields
    using assms parse_message_fields
    by (simp add: str int lookup_message_common Let_def)
qed

lemma parse_line_BuildMessageLine:
  "message_ints_ok m \<Longrightarrow> m_type m \<noteq> kUnknown \<Longrightarrow> parse_line (BuildMessageLine m) = Some (wire_message m)"
  by (simp add: parse_line_def ParseMessage_BuildMessageLine)

text \<open>
  C1: Building the line of any message of a known type and parsing it returns the message as
  the wire carries it, whatever bytes the string fields hold (quotes, backslashes, line
  breaks and texts that look like other fields included), and overwrites the out parameter.
\<close>

theorem message_roundtrip:
  assumes "message_ints_ok m" and "m_type m \<noteq> kUnknown"
  shows "ParseMessage (BuildMessageLine m) (Some old) = (True, Some (wire_message m))"
  using assms by (rule ParseMessage_BuildMessageLine)

definition sample_ice :: Message where
  "sample_ice = default_message
     \<lparr>m_type := kIce, m_from := ''pub-1'', m_to := [], m_mid := [DQ, CHR ''x'', BSL, LF],
      m_mline_index := -3, m_candidate := ''cand''\<rparr>"

theorem message_roundtrip_witness:
  "message_ints_ok sample_ice \<and> m_type sample_ice \<noteq> kUnknown \<and>
   ParseMessage (BuildMessageLine sample_ice) (Some default_message)
     = (True, Some (wire_message sample_ice))"
proof -
  have h: "message_ints_ok sample_ice" "m_type sample_ice \<noteq> kUnknown"
    by (simp_all add: sample_ice_def message_ints_ok_def int32_range_def default_message_def
        default_registration_def)
  show ?thesis using h message_roundtrip [OF h, of default_message] by simp
qed

section \<open>Registration lines\<close>

definition register_message :: "RegisterRequest \<Rightarrow> Message" where
  "register_message req = default_message\<lparr>m_type := kRegister, m_registration := wire_registration req\<rparr>"

lemma BuildRegisterLine_as_message: "BuildRegisterLine req = BuildMessageLine (register_message req)"
  unfolding BuildRegisterLine_fields BuildMessageLine_fields
  by (simp add: register_message_def message_fields_def default_message_def)

lemma register_message_ints:
  "int32_range (reg_stream_index req) \<Longrightarrow> message_ints_ok (register_message req)"
  by (simp add: register_message_def message_ints_ok_def wire_registration_def default_message_def)

lemma wire_register_message:
  "m_registration (wire_message (register_message req)) = seen_registration (wire_registration req)"
  "m_type (wire_message (register_message req)) = kRegister"
  by (simp_all add: wire_message_def register_message_def Let_def)

text \<open>
  The registration line carries the stream id the server keys its room by: the explicit
  one, or device id, colon and index (with the default device id when none is set).
\<close>

theorem register_line_room:
  assumes "int32_range (reg_stream_index req)" and "reg_stream_index req \<ge> 0"
    and "reg_stream_id req = []"
    and room: "room = (if reg_device_id req = [] then ''demo_device'' else reg_device_id req)
                 @ '':'' @ to_string (reg_stream_index req)"
  shows "ExtractJsonString (BuildRegisterLine req) ''stream_id'' = room
       \<and> parse_line (BuildRegisterLine req)
           = Some (default_message\<lparr>m_type := kRegister, m_protocol_version := 2,
                     m_registration := req\<lparr>reg_stream_id := room\<rparr>\<rparr>)"
proof
  have ok: "message_ints_ok (register_message req)"
    using assms(1) by (rule register_message_ints)
  have "ExtractJsonString (jline (message_fields (register_message req))) ''stream_id''
          = lookup_str ''stream_id'' (message_fields (register_message req))"
    using good_message_fields [OF ok] by (intro extract_str_jline) auto
  then show "ExtractJsonString (BuildRegisterLine req) ''stream_id'' = room"
    unfolding BuildRegisterLine_as_message BuildMessageLine_fields
    using assms by (simp add: message_fields_def register_message_def registration_fields_def
        wire_registration_def RFLOW_DEFAULT_DEVICE_ID_def default_message_def)
  show "parse_line (BuildRegisterLine req)
           = Some (default_message\<lparr>m_type := kRegister, m_protocol_version := 2,
                     m_registration := req\<lparr>reg_stream_id := room\<rparr>\<rparr>)"
    unfolding BuildRegisterLine_as_message
    using assms parse_line_BuildMessageLine [OF ok]
    by (simp add: register_message_def wire_message_def seen_registration_def wire_registration_def
        RFLOW_DEFAULT_DEVICE_ID_def kSignalingProtocolVersion_def default_message_def Let_def)
qed

definition sample_register :: RegisterRequest where
  "sample_register = \<lparr>reg_role = RoleSubscriber, reg_stream_id = [], reg_device_id = ''dev1'',
                      reg_stream_index = 0\<rparr>"

theorem register_line_room_witness:
  "ExtractJsonString (BuildRegisterLine sample_register) ''stream_id'' = ''dev1'' @ '':'' @ to_string 0"
  using register_line_room [of sample_register "''dev1'' @ '':'' @ to_string 0"]
  by (simp add: int32_range_def sample_register_def)

section \<open>Framing safety\<close>

lemma escape_no_break:
  "LF \<notin> set (EscapeJsonString v)" "CR \<notin> set (EscapeJsonString v)"
  by (induction v) auto

lemma jtext_no_break:
  "c \<in> {LF, CR} \<Longrightarrow> c \<notin> set (jkey f) \<Longrightarrow> c \<notin> set (jtext f)"
  using escape_no_break to_string_no_special by (cases f) auto

lemma jline_no_break:
  assumes "c \<in> {LF, CR}" "\<forall>f \<in> set fs. c \<notin> set (jkey f)"
  shows "c \<notin> set (jline fs)"
proof -
  have "\<forall>f \<in> set fs. c \<notin> set (jtext f)" using assms jtext_no_break by blast
  moreover have "c \<noteq> CHR ''{''" "c \<noteq> CHR ''}''" "c \<noteq> CHR '',''" using assms(1) by auto
  ultimately show ?thesis by (cases fs) simp_all
qed

lemma message_fields_keys:
  "f \<in> set (message_fields m) \<Longrightarrow> jkey f \<in> {''type'', ''v'', ''from'', ''to'', ''role'', ''stream_id'',
     ''device_id'', ''stream_index'', ''id'', ''sdp'', ''mid'', ''mlineIndex'', ''candidate''}"
  by (cases "m_type m") (auto simp: message_fields_def registration_fields_def split: if_splits)

lemma BuildMessageLine_no_break: "c \<in> {LF, CR} \<Longrightarrow> c \<notin> set (BuildMessageLine x)"
  unfolding BuildMessageLine_fields
proof (rule jline_no_break, assumption, rule ballI)
  fix f assume c: "c \<in> {LF, CR}" and "f \<in> set (message_fields x)"
  from message_fields_keys [OF this(2)] show "c \<notin> set (jkey f)" using c by fastforce
qed

text \<open>
  A built line contains neither a line feed nor a carriage return, so on the newline
  delimited transport one message is exactly one line.
\<close>

theorem build_line_single_line:
  "LF \<notin> set (BuildMessageLine m) \<and> CR \<notin> set (BuildMessageLine m)
   \<and> LF \<notin> set (BuildRegisterLine req) \<and> CR \<notin> set (BuildRegisterLine req)"
  by (simp add: BuildRegisterLine_as_message BuildMessageLine_no_break)

section \<open>Field texts searched verbatim\<close>

text \<open>
  The server looks for whole fields such as \<^verbatim>\<open>"role":"publisher"\<close> as plain text. On built
  lines this finds exactly the field with that value.
\<close>

definition field_text :: "string \<Rightarrow> string \<Rightarrow> string" where
  "field_text k v = key_token k (DQ # v @ [DQ])"

definition plain :: "string \<Rightarrow> bool" where
  "plain v \<longleftrightarrow> (\<forall>c \<in> set v. c \<notin> {DQ, BSL, LF, CR})"

lemma plain_escape [simp]: "plain v \<Longrightarrow> EscapeJsonString v = v"
  by (induction v) (auto simp: plain_def)

lemma plain_value_prefix:
  "plain v' \<Longrightarrow> prefix (v' @ [DQ]) (EscapeJsonString v @ DQ # r) \<longleftrightarrow> v = v'"
proof (induction v arbitrary: v')
  case Nil
  then show ?case by (cases v') (auto simp: plain_def)
next
  case (Cons c v)
  show ?case
  proof (cases v')
    case Nil
    then show ?thesis by auto
  next
    case (Cons d w)
    with Cons.prems have "plain w" "d \<notin> {DQ, BSL, LF, CR}" by (auto simp: plain_def)
    with Cons Cons.IH [of w] show ?thesis by auto
  qed
qed

lemma no_start_same_key:
  assumes "good_key k" "plain v'" "v \<noteq> v'"
  shows "no_start (field_text k v') (jtext (JStr k v)) (jtail fs)"
proof -
  let ?t = "field_text k v'" and ?val = "DQ # EscapeJsonString v @ [DQ]"
  have "\<not> prefix ?t (DQ # k @ DQ # CHR '':'' # ?val @ jtail fs)"
    using assms plain_value_prefix by (auto simp: field_text_def)
  moreover have "no_start ?t (k @ [DQ, CHR '':'']) r" for r
  proof -
    have "no_start ?t [DQ] (CHR '':'' # r)"
      using assms(1) unfolding field_text_def by (intro no_start_quote) (auto simp: good_key_def)
    moreover have "no_start ?t [CHR '':''] r"
      by (auto simp: field_text_def intro!: no_start_Cons)
    moreover have "no_start ?t k (DQ # CHR '':'' # r)"
      using assms(1) by (intro no_start_other_chars) (auto simp: field_text_def good_key_def)
    ultimately show ?thesis
      using no_start_append [of ?t "[DQ]" "[CHR '':'']" r]
        no_start_append [of ?t k "[DQ, CHR '':'']" r] by simp
  qed
  moreover have "no_start ?t ?val (jtail fs)"
    unfolding field_text_def using assms(1) by (rule no_start_value)
  ultimately show ?thesis
    using no_start_append [of ?t "k @ [DQ, CHR '':'']" ?val "jtail fs"]
    by (auto intro!: no_start_Cons)
qed

lemma no_start_same_key_int:
  assumes "good_key k"
  shows "no_start (field_text k v') (jtext (JInt k i)) (jtail fs)"
proof -
  let ?t = "field_text k v'"
  obtain c r' where "to_string i @ jtail fs = c # r'" "c \<noteq> DQ"
    using to_string_no_special(1) [of i] to_string_nonempty [of i] by (cases "to_string i") auto
  then have "\<not> prefix ?t (DQ # k @ DQ # CHR '':'' # to_string i @ jtail fs)"
    by (auto simp: field_text_def)
  moreover have "no_start ?t (to_string i) (jtail fs)"
    using to_string_no_special by (intro no_start_other_chars) (auto simp: field_text_def)
  moreover have "no_start ?t [DQ] (CHR '':'' # to_string i @ jtail fs)"
    using assms unfolding field_text_def by (intro no_start_quote) (auto simp: good_key_def)
  moreover have "no_start ?t [CHR '':''] (to_string i @ jtail fs)"
    by (auto simp: field_text_def intro!: no_start_Cons)
  moreover have "no_start ?t k (DQ # CHR '':'' # to_string i @ jtail fs)"
    using assms by (intro no_start_other_chars) (auto simp: field_text_def good_key_def)
  ultimately show ?thesis
    using no_start_append [of ?t "[CHR '':'']" "to_string i" "jtail fs"]
      no_start_append [of ?t "[DQ]" "CHR '':'' # to_string i" "jtail fs"]
      no_start_append [of ?t k "DQ # CHR '':'' # to_string i" "jtail fs"]
    by (auto intro!: no_start_Cons)
qed

lemma contains_sub_skip: "no_start t x r \<Longrightarrow> contains_sub t (x @ r) = contains_sub t r"
  by (simp add: contains_sub_def no_start_def)

lemma contains_sub_skip_char: "c \<noteq> DQ \<Longrightarrow> contains_sub (field_text k v) (c # r) = contains_sub (field_text k v) r"
  by (simp add: contains_sub_def field_text_def)

lemma contains_field_jtail:
  assumes "good_key k" "plain v" "good_fields fs"
  shows "contains_sub (field_text k v) (jtail fs) \<longleftrightarrow> JStr k v \<in> set fs"
  using assms(3)
proof (induction fs)
  case Nil
  then show ?case by (simp add: contains_sub_def jtail_def field_text_def)
next
  case (Cons f fs)
  have "contains_sub (field_text k v) (jtext f @ jtail fs) \<longleftrightarrow> JStr k v \<in> set (f # fs)"
  proof (cases "f = JStr k v")
    case True
    then have "jtext f @ jtail fs = field_text k v @ jtail fs"
      using assms(2) by (simp add: field_text_def)
    then show ?thesis using True by (simp only: contains_sub_def find_sub_prefix) simp
  next
    case False
    have "no_start (field_text k v) (jtext f) (jtail fs)"
    proof (cases "jkey f = k")
      case True
      then show ?thesis
        using False assms no_start_same_key [of k v] no_start_same_key_int [of k v]
        by (cases f) auto
    next
      case diff: False
      then show ?thesis
        unfolding field_text_def using no_start_field assms(1) Cons.prems by simp
    qed
    then show ?thesis using False Cons by (auto simp only: contains_sub_skip) auto
  qed
  then show ?case by (simp add: jtail_Cons contains_sub_skip_char)
qed

lemma contains_field_jline:
  assumes "good_key k" "plain v" "good_fields fs" "fs \<noteq> []"
  shows "contains_sub (field_text k v) (jline fs) \<longleftrightarrow> JStr k v \<in> set fs"
proof -
  obtain f gs where fs: "fs = f # gs" using assms(4) by (cases fs) auto
  then have "jline fs = CHR ''{'' # jtext f @ jtail gs" "jtail fs = CHR '','' # jtext f @ jtail gs"
    by (simp_all add: jtail_def)
  then have "contains_sub (field_text k v) (jline fs) = contains_sub (field_text k v) (jtail fs)"
    by (simp add: contains_sub_skip_char)
  then show ?thesis using contains_field_jtail [OF assms(1-3)] by simp
qed

section \<open>Server addresses\<close>

lemma host_has_no_scheme:
  assumes "CHR '':'' \<notin> set host" "CHR '':'' \<notin> set p"
    and "r = [] \<or> (\<exists>q. r = CHR '':'' # q \<and> CHR ''/'' \<notin> set q)"
  shows "\<not> prefix (p @ ''://'') (host @ r)"
proof
  assume "prefix (p @ ''://'') (host @ r)"
  then obtain z where z: "host @ r = p @ ''://'' @ z" by (auto simp: prefix_def)
  show False
  proof (cases "r = []")
    case True
    then have "CHR '':'' \<in> set host" using z by simp
    with assms(1) show False by simp
  next
    case False
    then obtain q where q: "r = CHR '':'' # q" "CHR ''/'' \<notin> set q" using assms(3) by auto
    have "takeWhile (\<lambda>c. c \<noteq> CHR '':'') (host @ r) = host"
      using assms(1) q by (subst takeWhile_append2) auto
    moreover have "takeWhile (\<lambda>c. c \<noteq> CHR '':'') (host @ r) = p"
      unfolding z using assms(2) by (subst takeWhile_append2) auto
    ultimately have "q = ''//'' @ z" using z q by simp
    then show False using q(2) by simp
  qed
qed

lemma strip_scheme_known:
  assumes "scheme \<in> {''ws://'', ''tcp://'', []}" "CHR '':'' \<notin> set host"
    and "r = [] \<or> (\<exists>q. r = CHR '':'' # q \<and> CHR ''/'' \<notin> set q)"
  shows "strip_scheme (scheme @ host @ r) = host @ r"
  using assms host_has_no_scheme [OF assms(2) _ assms(3), of "''ws''"]
    host_has_no_scheme [OF assms(2) _ assms(3), of "''tcp''"]
  by (auto simp: strip_scheme_def)

text \<open>
  An address with an optional scheme, a non-empty host without a colon and a decimal port
  below 65536 is parsed to that host and port; without a port the default 8765 is taken.
\<close>

theorem parse_endpoint_roundtrip:
  assumes "scheme \<in> {''ws://'', ''tcp://'', []}" and "host \<noteq> []" and "CHR '':'' \<notin> set host"
    and "port < 65536"
  shows "ParseEndpoint (scheme @ host @ '':'' @ to_string (int port)) (Some ep)
           = (True, Some \<lparr>ep_host = host, ep_port = of_nat port\<rparr>)
       \<and> ParseEndpoint (scheme @ host) (Some ep) = (True, Some \<lparr>ep_host = host, ep_port = 8765\<rparr>)"
proof
  have "CHR ''/'' \<notin> set (to_string (int port))" by (rule to_string_avoids) (auto simp: isdigit_def)
  then have strip: "strip_scheme (scheme @ host @ CHR '':'' # to_string (int port))
                      = host @ CHR '':'' # to_string (int port)"
    using assms by (intro strip_scheme_known) auto
  have "atoi (to_string (int port)) = int port"
    using atoi_to_string [of "int port" "[]"] assms(4) by (simp add: int32_range_def)
  moreover have "find_char (CHR '':'') (host @ CHR '':'' # to_string (int port)) = Some (length host)"
    using assms(3) by (rule find_char_first)
  ultimately show "ParseEndpoint (scheme @ host @ '':'' @ to_string (int port)) (Some ep)
           = (True, Some \<lparr>ep_host = host, ep_port = of_nat port\<rparr>)"
    unfolding ParseEndpoint_def using assms(2) strip by simp
  show "ParseEndpoint (scheme @ host) (Some ep) = (True, Some \<lparr>ep_host = host, ep_port = 8765\<rparr>)"
    using strip_scheme_known [OF assms(1,3), of "[]"] assms(2,3) by (simp add: ParseEndpoint_def)
qed

theorem parse_endpoint_roundtrip_witness:
  "ParseEndpoint (''ws://'' @ ''127.0.0.1'' @ '':'' @ to_string (int 9000)) (Some default_endpoint)
     = (True, Some \<lparr>ep_host = ''127.0.0.1'', ep_port = of_nat 9000\<rparr>)"
  using parse_endpoint_roundtrip [of "''ws://''" "''127.0.0.1''" 9000 default_endpoint] by simp

end
