(* ===== verification/Signal_Framing.thy ===== *)
theory Signal_Framing
  imports Signal_Protocol
begin

text \<open>
  Byte-stream framing. The read side of a signaling connection appends received chunks to a
  buffer, cuts complete lines at a parse offset and compacts the buffer now and then
  (\<^verbatim>\<open>HandleReadable\<close> in \<^verbatim>\<open>shared_signaling_io_manager.h\<close> and \<^verbatim>\<open>DrainCompleteLines\<close> in
  \<^verbatim>\<open>server.cpp\<close> share this code). The write side and the blocking first read are the loops of
  \<^verbatim>\<open>src/core/net/posix_io.cpp\<close> and \<^verbatim>\<open>SendLine\<close> of \<^verbatim>\<open>session_transport.cpp\<close>. The operating
  system's answers to \<^verbatim>\<open>send\<close>, \<^verbatim>\<open>recv\<close> and \<^verbatim>\<open>poll\<close> are inputs of the model.
\<close>

section \<open>Reference: splitting a text at line feeds\<close>

text \<open>The complete lines of a text and the unterminated rest.\<close>

function split_lines :: "string \<Rightarrow> string list \<times> string" where
  "split_lines s = (case find_char LF s of
      None \<Rightarrow> ([], s)
    | Some i \<Rightarrow> (case split_lines (drop (Suc i) s) of (ls, r) \<Rightarrow> (take i s # ls, r)))"
  by pat_completeness auto
termination
  by (relation "measure length") (auto dest: find_char_SomeD)

declare split_lines.simps [simp del]

lemma split_lines_none: "LF \<notin> set s \<Longrightarrow> split_lines s = ([], s)"
  by (subst split_lines.simps) simp

lemma split_lines_line:
  "LF \<notin> set l \<Longrightarrow> split_lines (l @ LF # r) = (l # fst (split_lines r), snd (split_lines r))"
  by (subst split_lines.simps) (simp add: find_char_first split: prod.split)

lemma split_lines_rest: "LF \<notin> set (snd (split_lines s))"
proof (induction s rule: split_lines.induct)
  case (1 s)
  show ?case
  proof (cases "find_char LF s")
    case None
    then show ?thesis by (subst split_lines.simps) (simp add: find_char_None_iff)
  next
    case (Some i)
    with 1 show ?thesis by (subst split_lines.simps) (auto split: prod.split)
  qed
qed

text \<open>Splitting what remains together with more input continues where the first split stopped.\<close>

lemma split_lines_append:
  "split_lines (s @ t) =
     (fst (split_lines s) @ fst (split_lines (snd (split_lines s) @ t)),
      snd (split_lines (snd (split_lines s) @ t)))"
proof (induction s rule: split_lines.induct)
  case (1 s)
  show ?case
  proof (cases "find_char LF s")
    case None
    then have "split_lines s = ([], s)" by (simp add: split_lines_none find_char_None_iff)
    then show ?thesis by simp
  next
    case (Some i)
    have s: "s = take i s @ LF # drop (Suc i) s" and l: "LF \<notin> set (take i s)"
      using find_char_Some_split [OF Some] find_char_SomeD [OF Some] by auto
    have "split_lines s = (take i s # fst (split_lines (drop (Suc i) s)), snd (split_lines (drop (Suc i) s)))"
      using split_lines_line [OF l, of "drop (Suc i) s"] s by simp
    moreover have "split_lines (s @ t) =
        (take i s # fst (split_lines (drop (Suc i) s @ t)), snd (split_lines (drop (Suc i) s @ t)))"
      using split_lines_line [OF l, of "drop (Suc i) s @ t"] s by (metis append.assoc append_Cons)
    ultimately show ?thesis using 1 [OF Some] by simp
  qed
qed

section \<open>The read buffer\<close>

text \<open>The loop that cuts lines: each round searches the next line feed from the parse offset.\<close>

function drain_lines :: "string \<Rightarrow> nat \<Rightarrow> string list \<times> nat" where
  "drain_lines buf off = (case find_char_from LF buf off of
      None \<Rightarrow> ([], off)
    | Some pos \<Rightarrow> (case drain_lines buf (pos + 1) of
                    (ls, off') \<Rightarrow> (take (pos - off) (drop off buf) # ls, off')))"
  by pat_completeness auto
termination
  by (relation "measure (\<lambda>(buf, off). length buf - off)")
    (auto simp: find_char_from_def dest!: find_char_SomeD)

declare drain_lines.simps [simp del]

text \<open>The compaction after the loop.\<close>

definition compact_buffer :: "string \<Rightarrow> nat \<Rightarrow> string \<times> nat" where
  "compact_buffer buf off =
     (if off > 0 \<and> (off = length buf \<or> off \<ge> length buf div 2) then (drop off buf, 0) else (buf, off))"

lemma drain_lines_refines:
  "fst (drain_lines buf off) = fst (split_lines (drop off buf))
   \<and> drop (snd (drain_lines buf off)) buf = snd (split_lines (drop off buf))"
proof (induction buf off rule: drain_lines.induct)
  case (1 buf off)
  show ?case
  proof (cases "find_char LF (drop off buf)")
    case None
    then show ?thesis
      by (subst (1 2) drain_lines.simps, subst (1 2) split_lines.simps) (simp add: find_char_from_def)
  next
    case (Some i)
    then have pos: "find_char_from LF buf off = Some (off + i)" by (simp add: find_char_from_def)
    have dr: "drop (Suc i) (drop off buf) = drop (off + i + 1) buf" by (simp add: add.commute)
    show ?thesis
      using 1 [OF pos] pos Some dr
      by (subst (1 2) drain_lines.simps, subst (1 2) split_lines.simps) (auto split: prod.split)
  qed
qed

lemma drain_lines_offset:
  "off \<le> length buf \<Longrightarrow> off \<le> snd (drain_lines buf off) \<and> snd (drain_lines buf off) \<le> length buf"
proof (induction buf off rule: drain_lines.induct)
  case (1 buf off)
  show ?case
  proof (cases "find_char_from LF buf off")
    case None
    with 1 show ?thesis by (subst (1 2) drain_lines.simps) simp
  next
    case (Some pos)
    then have "off \<le> pos" "pos < length buf"
      by (auto simp: find_char_from_def dest!: find_char_SomeD)
    with 1(1) [OF Some] Some show ?thesis
      by (subst (1 2) drain_lines.simps) (auto split: prod.split)
  qed
qed

lemma compact_buffer_pending:
  "drop (snd (compact_buffer buf off)) (fst (compact_buffer buf off)) = drop off buf"
  by (simp add: compact_buffer_def)

lemma compact_buffer_offset:
  "off \<le> length buf \<Longrightarrow> snd (compact_buffer buf off) \<le> length (fst (compact_buffer buf off))"
  by (simp add: compact_buffer_def)

text \<open>
  One round of the reader: append a chunk, cut the complete lines, compact. The result is the
  list of lines handed on and the new buffer.
\<close>

definition feed_chunk :: "string \<times> nat \<Rightarrow> string \<Rightarrow> string list \<times> (string \<times> nat)" where
  "feed_chunk b chunk =
     (case b of (buf, off) \<Rightarrow>
        let buf' = buf @ chunk
        in case drain_lines buf' off of (ls, off') \<Rightarrow> (ls, compact_buffer buf' off'))"

fun feed_chunks :: "string \<times> nat \<Rightarrow> string list \<Rightarrow> string list \<times> (string \<times> nat)" where
  "feed_chunks b [] = ([], b)"
| "feed_chunks b (c # cs) =
     (case feed_chunk b c of (ls, b') \<Rightarrow> (case feed_chunks b' cs of (ms, b'') \<Rightarrow> (ls @ ms, b'')))"

text \<open>The abstraction of a buffer: the bytes not yet handed on.\<close>

definition pending :: "string \<times> nat \<Rightarrow> string" where
  "pending b = drop (snd b) (fst b)"

definition buffer_ok :: "string \<times> nat \<Rightarrow> bool" where
  "buffer_ok b \<longleftrightarrow> snd b \<le> length (fst b)"

lemma feed_chunk_refines:
  assumes "buffer_ok b" "feed_chunk b c = (ls, b')"
  shows "buffer_ok b' \<and> ls = fst (split_lines (pending b @ c)) \<and> pending b' = snd (split_lines (pending b @ c))"
proof -
  obtain buf off where b: "b = (buf, off)" by (cases b)
  have d: "drop off (buf @ c) = pending b @ c" using assms(1) by (simp add: b buffer_ok_def pending_def)
  obtain ls' off' where dl: "drain_lines (buf @ c) off = (ls', off')" by fastforce
  have "off' \<le> length (buf @ c)"
    using drain_lines_offset [of off "buf @ c"] assms(1) dl by (simp add: b buffer_ok_def)
  then show ?thesis
    using drain_lines_refines [of "buf @ c" off] dl d assms(2) compact_buffer_pending [of "buf @ c" off']
      compact_buffer_offset [of off' "buf @ c"]
    by (auto simp: feed_chunk_def b Let_def pending_def buffer_ok_def)
qed

lemma feed_chunks_from:
  "LF \<notin> set (pending b0) \<Longrightarrow> buffer_ok b0 \<Longrightarrow> feed_chunks b0 cs = (ls, b) \<Longrightarrow>
     ls = fst (split_lines (pending b0 @ concat cs)) \<and> pending b = snd (split_lines (pending b0 @ concat cs))"
proof (induction cs arbitrary: b0 ls b)
  case Nil
  then show ?case by (simp add: split_lines_none)
next
  case (Cons c cs)
  obtain l1 b1 where f1: "feed_chunk b0 c = (l1, b1)" by (cases "feed_chunk b0 c")
  obtain l2 where f2: "feed_chunks b1 cs = (l2, b)" and ls: "ls = l1 @ l2"
    using Cons.prems f1 by (auto split: prod.splits)
  from feed_chunk_refines [OF Cons.prems(2) f1]
  have b1: "buffer_ok b1" "l1 = fst (split_lines (pending b0 @ c))" "pending b1 = snd (split_lines (pending b0 @ c))"
    by auto
  have "LF \<notin> set (pending b1)" using b1(3) split_lines_rest by simp
  from Cons.IH [OF this b1(1) f2] b1 ls show ?case
    using split_lines_append [of "pending b0 @ c" "concat cs"] by simp
qed

lemma feed_chunks_from_empty:
  assumes "feed_chunks ([], 0) cs = (ls, b)"
  shows "(ls, pending b) = split_lines (concat cs)"
  using feed_chunks_from [of "([], 0)" cs ls b] assms
  by (simp add: pending_def buffer_ok_def prod_eq_iff)



section \<open>Interface: a message codec on lines\<close>

text \<open>
  What the framing layer needs of a codec: an encoded message is one line, and decoding it
  yields what the receiver is to see. The wire protocol provides it.
\<close>

locale line_codec =
  fixes enc :: "'m \<Rightarrow> string"
    and dec :: "string \<Rightarrow> 'm option"
    and seen :: "'m \<Rightarrow> 'm"
    and ok :: "'m \<Rightarrow> bool"
  assumes dec_enc: "ok m \<Longrightarrow> dec (enc m) = Some (seen m)"
    and enc_line: "LF \<notin> set (enc m)"
begin

lemma split_stream: "split_lines (concat (map (\<lambda>m. enc m @ [LF]) ms)) = (map enc ms, [])"
proof (induction ms)
  case Nil
  then show ?case by (simp add: split_lines_none)
next
  case (Cons m ms)
  then show ?case
    using split_lines_line [OF enc_line, of m "concat (map (\<lambda>m. enc m @ [LF]) ms)"] by simp
qed

lemma stream_decodes:
  assumes "\<forall>m \<in> set ms. ok m" "concat cs = concat (map (\<lambda>m. enc m @ [LF]) ms)"
    and "feed_chunks ([], 0) cs = (ls, b)"
  shows "map dec ls = map (\<lambda>m. Some (seen m)) ms \<and> pending b = []"
  using feed_chunks_from_empty [OF assms(3)] split_stream [of ms] assms(1,2) dec_enc by simp

end

interpretation msg_codec: line_codec BuildMessageLine parse_line wire_message
  "\<lambda>m. message_ints_ok m \<and> m_type m \<noteq> kUnknown"
  by unfold_locales (auto simp: parse_line_BuildMessageLine BuildMessageLine_no_break)


definition join_message :: Message where
  "join_message = default_message\<lparr>m_type := kSubscriberJoin\<rparr>"


section \<open>Writing a block and reading the first line\<close>

text \<open>One answer of the system to \<^verbatim>\<open>send\<close>; for \<^verbatim>\<open>EAGAIN\<close> with the outcome of the \<^verbatim>\<open>poll\<close> that follows.\<close>

datatype send_answer = SendBytes nat | SendIntr | SendAgain bool | SendError

text \<open>
  The loops return None while the given answers leave them waiting, Some of the returned
  flag otherwise, and the bytes handed to the system so far.
\<close>

fun WriteAllWithPoll :: "string \<Rightarrow> send_answer list \<Rightarrow> bool option \<times> string" where
  "WriteAllWithPoll [] as = (Some True, [])"
| "WriteAllWithPoll data [] = (None, [])"
| "WriteAllWithPoll data (SendBytes w # as) =
     (if w = 0 then (Some False, [])
      else case WriteAllWithPoll (drop w data) as of (r, out) \<Rightarrow> (r, take w data @ out))"
| "WriteAllWithPoll data (SendIntr # as) = WriteAllWithPoll data as"
| "WriteAllWithPoll data (SendAgain ready # as) =
     (if ready then WriteAllWithPoll data as else (Some False, []))"
| "WriteAllWithPoll data (SendError # as) = (Some False, [])"

fun send_loop :: "string \<Rightarrow> send_answer list \<Rightarrow> bool option \<times> string" where
  "send_loop [] as = (Some True, [])"
| "send_loop data [] = (None, [])"
| "send_loop data (SendBytes w # as) =
     (if w = 0 then (Some False, [])
      else case send_loop (drop w data) as of (r, out) \<Rightarrow> (r, take w data @ out))"
| "send_loop data (SendIntr # as) = send_loop data as"
| "send_loop data (SendAgain ready # as) = (Some False, [])"
| "send_loop data (SendError # as) = (Some False, [])"

definition transport_SendLine :: "int \<Rightarrow> string \<Rightarrow> send_answer list \<Rightarrow> bool option \<times> string" where
  "transport_SendLine fd line as = (if fd < 0 then (Some False, []) else send_loop (line @ [LF]) as)"

lemma WriteAllWithPoll_prefix:
  "WriteAllWithPoll data as = (r, out) \<Longrightarrow> prefix out data \<and> (r = Some True \<longleftrightarrow> out = data)"
proof (induction data as arbitrary: r out rule: WriteAllWithPoll.induct)
  case (3 c cs w as)
  then show ?case
    by (auto split: if_splits prod.splits)
      (metis append_take_drop_id same_prefix_prefix, metis append_take_drop_id same_append_eq)
qed (auto split: if_splits)

lemma send_loop_prefix:
  "send_loop data as = (r, out) \<Longrightarrow> prefix out data \<and> (r = Some True \<longleftrightarrow> out = data)"
proof (induction data as arbitrary: r out rule: send_loop.induct)
  case (3 c cs w as)
  then show ?case
    by (auto split: if_splits prod.splits)
      (metis append_take_drop_id same_prefix_prefix, metis append_take_drop_id same_append_eq)
qed (auto split: if_splits)

text \<open>
  A send never puts anything but a prefix of the line and its terminating line feed on
  the wire, and returns true exactly when the whole of it was handed over; an unconnected
  socket sends nothing.
\<close>

theorem transport_SendLine_sound:
  "case transport_SendLine fd line as of (r, out) \<Rightarrow>
     prefix out (line @ [LF])
     \<and> (r = Some True \<longleftrightarrow> out = line @ [LF])
     \<and> (0 \<le> fd \<or> (r, out) = (Some False, []))"
proof (cases "fd < 0")
  case True
  then show ?thesis by (simp add: transport_SendLine_def)
next
  case False
  then show ?thesis
    using send_loop_prefix [of "line @ [LF]" as]
    by (cases "send_loop (line @ [LF]) as") (auto simp: transport_SendLine_def)
qed

text \<open>
  One round of the blocking first read: the deadline check, then \<^verbatim>\<open>poll\<close>, then \<^verbatim>\<open>recv\<close>. The
  wall clock enters as \<open>RecvDeadline\<close>, the round in which \<^verbatim>\<open>now >= deadline\<close> holds.
\<close>

datatype recv_answer = RecvDeadline | PollIdle | RecvData string | RecvClosed | RecvRetry | RecvFail

definition FIRST_LINE_LIMIT :: nat where "FIRST_LINE_LIMIT = 65536"

text \<open>None: the given rounds leave the loop waiting. Some None: it returned false.\<close>

fun RecvUntilNewline :: "string \<Rightarrow> recv_answer list \<Rightarrow> (string \<times> string) option option" where
  "RecvUntilNewline acc [] =
     (case find_char LF acc of
        Some nl \<Rightarrow> Some (Some (take nl acc, drop (Suc nl) acc))
      | None \<Rightarrow> if length acc > FIRST_LINE_LIMIT then Some None else None)"
| "RecvUntilNewline acc (a # as) =
     (case find_char LF acc of
        Some nl \<Rightarrow> Some (Some (take nl acc, drop (Suc nl) acc))
      | None \<Rightarrow>
          if length acc > FIRST_LINE_LIMIT then Some None
          else case a of
                 RecvDeadline \<Rightarrow> Some None
               | PollIdle \<Rightarrow> RecvUntilNewline acc as
               | RecvData d \<Rightarrow> RecvUntilNewline (acc @ d) as
               | RecvClosed \<Rightarrow> Some None
               | RecvRetry \<Rightarrow> RecvUntilNewline acc as
               | RecvFail \<Rightarrow> Some None)"

text \<open>The bytes the rounds deliver.\<close>

fun recv_bytes :: "recv_answer list \<Rightarrow> string" where
  "recv_bytes [] = []"
| "recv_bytes (RecvData d # as) = d @ recv_bytes as"
| "recv_bytes (_ # as) = recv_bytes as"

lemma RecvUntilNewline_split:
  "RecvUntilNewline acc as = Some (Some (l, r)) \<Longrightarrow>
     LF \<notin> set l \<and> prefix (l @ LF # r) (acc @ recv_bytes as)"
proof (induction as arbitrary: acc)
  case Nil
  then obtain nl where nl: "find_char LF acc = Some nl" "l = take nl acc" "r = drop (Suc nl) acc"
    by (auto split: option.splits if_splits)
  then show ?case
    using find_char_Some_split [OF nl(1)] find_char_SomeD [OF nl(1)] by simp
next
  case (Cons a as)
  show ?case
  proof (cases "find_char LF acc")
    case (Some nl)
    then have "l = take nl acc" "r = drop (Suc nl) acc" using Cons.prems by auto
    then show ?thesis
      using find_char_Some_split [OF Some] find_char_SomeD [OF Some]
      by (metis append.assoc append_Cons prefixI)
  next
    case None
    show ?thesis
    proof (cases a)
      case (RecvData d)
      then show ?thesis using None Cons.prems Cons.IH [of "acc @ d"] by (simp split: if_splits)
    qed (use None Cons in \<open>auto split: if_splits\<close>)
  qed
qed

lemma RecvUntilNewline_bound:
  "RecvUntilNewline acc as = Some (Some (l, r)) \<Longrightarrow> \<forall>d. RecvData d \<in> set as \<longrightarrow> length d \<le> n \<Longrightarrow>
     length acc \<le> FIRST_LINE_LIMIT + n \<Longrightarrow> length (l @ LF # r) \<le> FIRST_LINE_LIMIT + n"
proof (induction as arbitrary: acc)
  case Nil
  then show ?case
    using find_char_SomeD [of LF acc] by (auto split: option.splits if_splits)
next
  case (Cons a as)
  show ?case
  proof (cases "find_char LF acc")
    case (Some nl)
    then show ?thesis using Cons.prems find_char_SomeD [OF Some] by auto
  next
    case None
    show ?thesis
    proof (cases a)
      case (RecvData d)
      then have "length (acc @ d) \<le> FIRST_LINE_LIMIT + n" "RecvUntilNewline (acc @ d) as = Some (Some (l, r))"
        using Cons.prems None by (auto split: if_splits intro: add_mono)
      then show ?thesis using Cons.IH Cons.prems(2) by auto
    qed (use None Cons in \<open>auto split: if_splits\<close>)
  qed
qed

text \<open>
  The blocking read of the first line and the buffered reader that takes over from its
  leftover together deliver exactly the lines of the byte stream: the first line is the
  stream's first line, no byte between the two readers is lost, and with reads of at most
  \<open>n\<close> bytes the first read never holds more than 65536 + n bytes.
\<close>

theorem first_line_then_stream:
  assumes "RecvUntilNewline [] as = Some (Some (l, r))"
    and "\<forall>d. RecvData d \<in> set as \<longrightarrow> length d \<le> n"
    and "feed_chunks ([], 0) (r # chunks) = (ls, b)"
  shows "(l # ls, pending b) = split_lines (l @ LF # r @ concat chunks)
         \<and> prefix (l @ LF # r) (recv_bytes as)
         \<and> length (l @ LF # r) \<le> 65536 + n"
proof -
  have l: "LF \<notin> set l" "prefix (l @ LF # r) (recv_bytes as)"
    using RecvUntilNewline_split [OF assms(1)] by auto
  have "(ls, pending b) = split_lines (r @ concat chunks)"
    using feed_chunks_from_empty [OF assms(3)] by simp
  then have "(l # ls, pending b) = split_lines (l @ LF # r @ concat chunks)"
    using split_lines_line [OF l(1), of "r @ concat chunks"] by (metis fst_conv snd_conv)
  moreover have "length (l @ LF # r) \<le> 65536 + n"
    using RecvUntilNewline_bound [OF assms(1,2)] by (simp add: FIRST_LINE_LIMIT_def)
  ultimately show ?thesis using l(2) by simp
qed

theorem first_line_then_stream_witness:
  "RecvUntilNewline [] [PollIdle, RecvData ''re'', RecvRetry, RecvData [CHR ''g'', LF, CHR ''x'']]
     = Some (Some (''reg'', ''x''))
   \<and> ([''reg'', ''xy''], []) = split_lines (''reg'' @ LF # ''x'' @ concat [''y'', [LF]])"
proof -
  have r: "RecvUntilNewline [] [PollIdle, RecvData ''re'', RecvRetry, RecvData [CHR ''g'', LF, CHR ''x'']]
     = Some (Some (''reg'', ''x''))"
    by (simp add: FIRST_LINE_LIMIT_def)
  have f: "feed_chunks ([], 0) (''x'' # [''y'', [LF]]) = ([''xy''], ([], 0))"
    by (simp add: feed_chunk_def drain_lines.simps find_char_from_def compact_buffer_def)
  show ?thesis
    using first_line_then_stream [OF r _ f, of 3] r by (simp add: pending_def)
qed

section \<open>The address parser of the network layer\<close>

definition ParseHostPort :: "string \<Rightarrow> string \<times> u16" where
  "ParseHostPort addr =
     (let s = strip_scheme addr
      in case find_char (CHR '':'') s of
           Some colon \<Rightarrow> (take colon s, word_of_int (atoi (drop (colon + 1) s)))
         | None \<Rightarrow> (s, 8765))"

lemma ParseHostPort_ParseEndpoint:
  "snd (ParseEndpoint addr (Some ep))
     = Some (ep\<lparr>ep_host := fst (ParseHostPort addr), ep_port := snd (ParseHostPort addr)\<rparr>)"
  by (simp add: ParseEndpoint_def ParseHostPort_def Let_def split: option.split)

end
