(* ===== verification/Signal_Server.thy ===== *)
theory Signal_Server
  imports Signal_Framing
begin

text \<open>
  The signaling relay of \<^verbatim>\<open>src/core/signal/server.cpp\<close>: client objects and their read
  buffers, the publisher, subscriber and descriptor tables, the sharded line queues with their
  limits, registration, routing and disconnection. The relay is modelled as a state with one
  operation per function and a step relation for the event loop and the queue workers; a
  handler of the event loop and one round of a worker are atomic steps.

  A \<^verbatim>\<open>shared_ptr<Client>\<close> is an address of the client heap. The only owners between two steps
  are the entries of \<^verbatim>\<open>g_clients\<close>, so \<^verbatim>\<open>weak_ptr::lock\<close> succeeds exactly for the addresses in
  that table. Lines handed to the sockets and closed descriptors are recorded in a log; no
  function of the server looks at the outcome of a write, whose bytes are
  \<open>SendJsonLine_bytes\<close>.
\<close>

section \<open>State\<close>

record Client =
  c_fd :: int
  c_read_buf :: string
  c_parse_off :: nat
  c_registered :: bool
  c_stream_id :: string
  c_peer_id :: string
  c_role :: string
  c_dead :: bool

definition new_client :: Client where
  "new_client = \<lparr>c_fd = -1, c_read_buf = [], c_parse_off = 0, c_registered = False,
     c_stream_id = ''livestream'', c_peer_id = [], c_role = [], c_dead = False\<rparr>"

record LineTask =
  t_client :: nat
  t_line :: string

datatype server_event = Sent int string | Closed int

record ShardedLineWorkers =
  queues :: "LineTask list list"
  queue_bytes :: "nat list"
  max_queue_lines :: nat
  max_queue_bytes :: nat

record Server =
  g_publishers :: "(string \<times> (int \<times> string)) list"
  g_subscribers :: "(string \<times> (string \<times> int) list) list"
  g_fd_to_info :: "(int \<times> (string \<times> string \<times> string)) list"
  g_peer_seq :: u64
  g_clients :: "(int \<times> nat) list"
  g_workers :: ShardedLineWorkers
  client_heap :: "nat \<Rightarrow> Client option"
  next_client :: nat
  open_fds :: "int set"
  max_read_buf :: nat
  sv_log :: "server_event list"

definition make_workers :: "nat \<Rightarrow> nat \<Rightarrow> nat \<Rightarrow> ShardedLineWorkers" where
  "make_workers num_threads lines bytes =
     (let n = (if num_threads > 0 then num_threads else 1)
      in \<lparr>queues = replicate n [], queue_bytes = replicate n 0,
          max_queue_lines = lines, max_queue_bytes = bytes\<rparr>)"

definition init_server :: "nat \<Rightarrow> nat \<Rightarrow> nat \<Rightarrow> nat \<Rightarrow> Server" where
  "init_server threads lines bytes rbuf =
     \<lparr>g_publishers = [], g_subscribers = [], g_fd_to_info = [], g_peer_seq = 1, g_clients = [],
      g_workers = make_workers threads lines bytes, client_heap = (\<lambda>_. None), next_client = 0,
      open_fds = {}, max_read_buf = rbuf, sv_log = []\<rparr>"

section \<open>Sending\<close>

definition NextPeerId :: "string \<Rightarrow> Server \<Rightarrow> string \<times> Server" where
  "NextPeerId role s =
     ((if role = ''publisher'' then ''pub'' else ''sub'') @ ''-'' @ to_string (uint (g_peer_seq s)),
      s\<lparr>g_peer_seq := g_peer_seq s + 1\<rparr>)"

text \<open>The bytes one call puts on the socket, given the answers to the two writes.\<close>

definition SendJsonLine_bytes :: "string \<Rightarrow> send_answer list \<Rightarrow> send_answer list \<Rightarrow> string" where
  "SendJsonLine_bytes line as bs =
     (case WriteAllWithPoll line as of (r, out) \<Rightarrow>
        if r = Some True then out @ snd (WriteAllWithPoll [LF] bs) else out)"

definition SendJsonLine :: "int \<Rightarrow> string \<Rightarrow> Server \<Rightarrow> Server" where
  "SendJsonLine fd line s = (if fd < 0 then s else s\<lparr>sv_log := sv_log s @ [Sent fd line]\<rparr>)"

definition with_from :: "string \<Rightarrow> string \<Rightarrow> string option" where
  "with_from line from_id =
     (if find_sub (str_token ''from'') line \<noteq> None then Some line
      else case rfind_char (CHR ''}'') line of
             None \<Rightarrow> None
           | Some pos \<Rightarrow> Some (take pos line @ CHR '','' # str_token ''from'' @ from_id @ [DQ, CHR ''}'']))"

definition ForwardLineWithFrom :: "int \<Rightarrow> string \<Rightarrow> string \<Rightarrow> Server \<Rightarrow> Server" where
  "ForwardLineWithFrom target_fd line from_id s =
     (if target_fd < 0 then s
      else case with_from line from_id of None \<Rightarrow> s | Some out \<Rightarrow> SendJsonLine target_fd out s)"

definition CloseClientFd :: "int \<Rightarrow> Server \<Rightarrow> Server" where
  "CloseClientFd fd s =
     (if fd < 0 then s else s\<lparr>open_fds := open_fds s - {fd}, sv_log := sv_log s @ [Closed fd]\<rparr>)"

definition json_welcome :: "string \<Rightarrow> string" where
  "json_welcome pid =
     CHR ''{'' # str_token ''type'' @ ''welcome'' @ DQ # CHR '','' # int_token ''v''
     @ to_string kSignalingProtocolVersion @ CHR '','' # str_token ''id'' @ pid @ [DQ, CHR ''}'']"

definition json_event :: "string \<Rightarrow> string \<Rightarrow> string" where
  "json_event type sub_id =
     CHR ''{'' # str_token ''type'' @ type @ DQ # CHR '','' # int_token ''v''
     @ to_string kSignalingProtocolVersion @ CHR '','' # str_token ''from'' @ sub_id @ [DQ, CHR ''}'']"

definition publisher_fd :: "string \<Rightarrow> Server \<Rightarrow> int" where
  "publisher_fd stream_id s =
     (case map_of (g_publishers s) stream_id of None \<Rightarrow> -1 | Some (fd, _) \<Rightarrow> fd)"

definition NotifyPublisherSubscriberEvent :: "string \<Rightarrow> string \<Rightarrow> string \<Rightarrow> Server \<Rightarrow> Server" where
  "NotifyPublisherSubscriberEvent stream_id type sub_id s =
     (let pub = publisher_fd stream_id s
      in if pub \<ge> 0 then SendJsonLine pub (json_event type sub_id) s else s)"

section \<open>Routing\<close>

definition subscriber_fd :: "string \<Rightarrow> string \<Rightarrow> Server \<Rightarrow> int" where
  "subscriber_fd stream_id target_id s =
     (case map_of (g_subscribers s) stream_id of
        None \<Rightarrow> -1
      | Some subs \<Rightarrow> (case map_of subs target_id of None \<Rightarrow> -1 | Some fd \<Rightarrow> fd))"

definition RoutePublisherMessage :: "string \<Rightarrow> string \<Rightarrow> string \<Rightarrow> Server \<Rightarrow> Server" where
  "RoutePublisherMessage stream_id line from_id s =
     (let target_id = ExtractJsonString line ''to''
      in if target_id = [] then s
         else let target_fd = subscriber_fd stream_id target_id s
              in if target_fd < 0 then s else ForwardLineWithFrom target_fd line from_id s)"

definition RouteSubscriberMessage :: "string \<Rightarrow> string \<Rightarrow> string \<Rightarrow> Server \<Rightarrow> Server" where
  "RouteSubscriberMessage stream_id line from_id s =
     (let pub = publisher_fd stream_id s
      in if pub < 0 then s else ForwardLineWithFrom pub line from_id s)"

section \<open>The sharded queues\<close>

definition shard_of :: "ShardedLineWorkers \<Rightarrow> int \<Rightarrow> nat" where
  "shard_of w source_fd = nat (if source_fd \<ge> 0 then source_fd else 0) mod length (queues w)"

definition Enqueue :: "int \<Rightarrow> LineTask \<Rightarrow> ShardedLineWorkers \<Rightarrow> bool \<times> ShardedLineWorkers" where
  "Enqueue source_fd task w =
     (let shard = shard_of w source_fd; task_bytes = length (t_line task)
      in if length (queues w ! shard) \<ge> max_queue_lines w
            \<or> queue_bytes w ! shard + task_bytes > max_queue_bytes w
         then (False, w)
         else (True, w\<lparr>queues := (queues w)[shard := queues w ! shard @ [task]],
                       queue_bytes := (queue_bytes w)[shard := queue_bytes w ! shard + task_bytes]\<rparr>))"

text \<open>The head of a shard's queue and the queues without it.\<close>

definition Dequeue :: "nat \<Rightarrow> ShardedLineWorkers \<Rightarrow> (LineTask \<times> ShardedLineWorkers) option" where
  "Dequeue shard w =
     (case queues w ! shard of
        [] \<Rightarrow> None
      | task # rest \<Rightarrow>
          (let task_bytes = length (t_line task);
               bytes = queue_bytes w ! shard
           in Some (task, w\<lparr>queues := (queues w)[shard := rest],
                            queue_bytes := (queue_bytes w)[shard := if bytes \<ge> task_bytes then bytes - task_bytes else 0]\<rparr>)))"

text \<open>\<^verbatim>\<open>weak_ptr<Client>::lock\<close>.\<close>

definition lock_client :: "Server \<Rightarrow> nat \<Rightarrow> Client option" where
  "lock_client s i =
     (if \<exists>fd \<in> set (keys (g_clients s)). map_of (g_clients s) fd = Some i then client_heap s i else None)"

text \<open>One round of the loop of \<^verbatim>\<open>RunShard\<close> with a non-empty queue; with an empty one it waits.\<close>

definition RunShard_round :: "nat \<Rightarrow> Server \<Rightarrow> Server" where
  "RunShard_round shard s =
     (case Dequeue shard (g_workers s) of
        None \<Rightarrow> s
      | Some (task, w) \<Rightarrow>
          (let s = s\<lparr>g_workers := w\<rparr>
           in case lock_client s (t_client task) of
                None \<Rightarrow> s
              | Some c \<Rightarrow>
                  if c_dead c then s
                  else if c_role c = ''publisher''
                  then RoutePublisherMessage (c_stream_id c) (t_line task) (c_peer_id c) s
                  else if c_role c = ''subscriber''
                  then RouteSubscriberMessage (c_stream_id c) (t_line task) (c_peer_id c) s
                  else s))"

section \<open>Disconnection\<close>

definition update_client :: "nat \<Rightarrow> (Client \<Rightarrow> Client) \<Rightarrow> Server \<Rightarrow> Server" where
  "update_client i f s = s\<lparr>client_heap := (client_heap s)(i := map_option f (client_heap s i))\<rparr>"

definition mark_dead :: "nat \<Rightarrow> Server \<Rightarrow> Server" where
  "mark_dead i s = update_client i (c_dead_update (\<lambda>_. True)) s"

text \<open>The table updates of \<^verbatim>\<open>RemoveClientResources\<close>, done under \<^verbatim>\<open>g_mutex\<close>.\<close>

definition remove_subscriber :: "string \<Rightarrow> string \<Rightarrow> Server \<Rightarrow> Server" where
  "remove_subscriber stream_id sub_id s =
     (case map_of (g_subscribers s) stream_id of
        None \<Rightarrow> s
      | Some subs \<Rightarrow>
          (let subs' = AList.delete sub_id subs
           in s\<lparr>g_subscribers := (if subs' = [] then AList.delete stream_id (g_subscribers s)
                                  else AList.update stream_id subs' (g_subscribers s))\<rparr>))"

definition remove_publisher :: "string \<Rightarrow> int \<Rightarrow> Server \<Rightarrow> Server" where
  "remove_publisher stream_id fd s =
     (case map_of (g_publishers s) stream_id of
        None \<Rightarrow> s
      | Some (pfd, _) \<Rightarrow>
          if pfd = fd then s\<lparr>g_publishers := AList.delete stream_id (g_publishers s)\<rparr> else s)"

definition RemoveClientResources :: "int \<Rightarrow> Server \<Rightarrow> Server" where
  "RemoveClientResources fd s =
     (case map_of (g_fd_to_info s) fd of
        None \<Rightarrow> s
      | Some (stream_id, pid, role) \<Rightarrow>
          (let s = s\<lparr>g_fd_to_info := AList.delete fd (g_fd_to_info s)\<rparr>;
               s = (if role = ''publisher'' then remove_publisher stream_id fd s
                    else if role = ''subscriber'' then remove_subscriber stream_id pid s
                    else s)
           in if stream_id \<noteq> [] \<and> pid \<noteq> []
              then NotifyPublisherSubscriberEvent stream_id ''subscriber_leave'' pid s else s))"

definition DisconnectClient :: "int \<Rightarrow> nat option \<Rightarrow> Server \<Rightarrow> Server" where
  "DisconnectClient fd client s =
     (let s = (case client of Some i \<Rightarrow> mark_dead i s | None \<Rightarrow> s);
          s = CloseClientFd fd s;
          s = s\<lparr>g_clients := AList.delete fd (g_clients s)\<rparr>
      in case client of Some i \<Rightarrow> RemoveClientResources fd s | None \<Rightarrow> s)"

section \<open>Reading\<close>

text \<open>
  The loop of \<^verbatim>\<open>DrainCompleteLines\<close>: the result is the overflow flag, the new parse offset
  and the queues.
\<close>

definition register_token :: string where
  "register_token = str_token ''type'' @ ''register'' @ [DQ]"

function drain_loop ::
  "nat \<Rightarrow> int \<Rightarrow> bool \<Rightarrow> string \<Rightarrow> nat \<Rightarrow> ShardedLineWorkers \<Rightarrow> bool \<times> nat \<times> ShardedLineWorkers" where
  "drain_loop i fd registered buf off w =
     (case find_char_from LF buf off of
        None \<Rightarrow> (False, off, w)
      | Some pos \<Rightarrow>
          (let line = take (pos - off) (drop off buf); off' = pos + 1
           in if line = [] \<or> contains_sub register_token line \<or> \<not> registered
              then drain_loop i fd registered buf off' w
              else (case Enqueue fd \<lparr>t_client = i, t_line = line\<rparr> w of
                      (True, w') \<Rightarrow> drain_loop i fd registered buf off' w'
                    | (False, w') \<Rightarrow> (True, off', w'))))"
  by pat_completeness auto
termination
  by (relation "measure (\<lambda>(i, fd, registered, buf, off, w). length buf - off)")
    (auto simp: find_char_from_def dest!: find_char_SomeD)

declare drain_loop.simps [simp del]

definition DrainCompleteLines :: "nat \<Rightarrow> int \<Rightarrow> Server \<Rightarrow> Server" where
  "DrainCompleteLines i fd s =
     (case client_heap s i of
        None \<Rightarrow> s
      | Some c \<Rightarrow>
          (case drain_loop i fd (c_registered c) (c_read_buf c) (c_parse_off c) (g_workers s) of
             (overflow, off, w) \<Rightarrow>
               (case compact_buffer (c_read_buf c) off of
                  (buf', off') \<Rightarrow>
                    (let s = update_client i (\<lambda>c. c\<lparr>c_read_buf := buf', c_parse_off := off'\<rparr>)
                               (s\<lparr>g_workers := w\<rparr>)
                     in if overflow then DisconnectClient fd (Some i) s else s))))"

text \<open>One answer of \<^verbatim>\<open>recv\<close>; when the list of answers is used up, the next one is \<^verbatim>\<open>EAGAIN\<close>.\<close>

datatype server_recv = SData string | SClosed | SError

definition client_dead :: "Server \<Rightarrow> nat \<Rightarrow> bool" where
  "client_dead s i = (case client_heap s i of None \<Rightarrow> True | Some c \<Rightarrow> c_dead c)"

definition read_buf_len :: "Server \<Rightarrow> nat \<Rightarrow> nat" where
  "read_buf_len s i = (case client_heap s i of None \<Rightarrow> 0 | Some c \<Rightarrow> length (c_read_buf c))"

fun read_loop :: "nat \<Rightarrow> int \<Rightarrow> server_recv list \<Rightarrow> Server \<Rightarrow> Server" where
  "read_loop i fd [] s = s"
| "read_loop i fd (SData d # as) s =
     (let s = update_client i (\<lambda>c. c\<lparr>c_read_buf := c_read_buf c @ d\<rparr>) s
      in if read_buf_len s i > max_read_buf s then DisconnectClient fd (Some i) s
         else let s = DrainCompleteLines i fd s
              in if client_dead s i then s else read_loop i fd as s)"
| "read_loop i fd (SClosed # as) s = DisconnectClient fd (Some i) s"
| "read_loop i fd (SError # as) s = DisconnectClient fd (Some i) s"

definition ProcessClientRead :: "int \<Rightarrow> server_recv list \<Rightarrow> Server \<Rightarrow> Server" where
  "ProcessClientRead fd as s =
     (case map_of (g_clients s) fd of
        None \<Rightarrow> s
      | Some i \<Rightarrow> read_loop i fd as (DrainCompleteLines i fd s))"

section \<open>Registration\<close>

definition role_token :: "string \<Rightarrow> string" where
  "role_token r = str_token ''role'' @ r @ [DQ]"

definition register_stream :: "string \<Rightarrow> string" where
  "register_stream msg =
     (let stream_id = ExtractJsonString msg ''stream_id''
      in if stream_id = [] then ''livestream'' else stream_id)"

text \<open>The eviction of the previous publisher of the stream.\<close>

definition replace_publisher :: "string \<Rightarrow> Server \<Rightarrow> Server" where
  "replace_publisher stream_id s =
     (case map_of (g_publishers s) stream_id of
        None \<Rightarrow> s
      | Some (old_fd, _) \<Rightarrow>
          if old_fd \<ge> 0 then
            (let s = s\<lparr>g_fd_to_info := AList.delete old_fd (g_fd_to_info s)\<rparr>;
                 s = (case map_of (g_clients s) old_fd of
                        None \<Rightarrow> s
                      | Some i \<Rightarrow> (mark_dead i s)\<lparr>g_clients := AList.delete old_fd (g_clients s)\<rparr>)
             in CloseClientFd old_fd s)
          else s)"

definition add_client :: "int \<Rightarrow> string \<Rightarrow> string \<Rightarrow> string \<Rightarrow> Server \<Rightarrow> Server" where
  "add_client fd stream_id pid role s =
     s\<lparr>client_heap := (client_heap s)(next_client s \<mapsto>
          new_client\<lparr>c_fd := fd, c_registered := True, c_stream_id := stream_id,
                     c_peer_id := pid, c_role := role\<rparr>),
       next_client := next_client s + 1,
       g_clients := AList.update fd (next_client s) (g_clients s)\<rparr>"

definition stream_subs :: "string \<Rightarrow> Server \<Rightarrow> (string \<times> int) list" where
  "stream_subs stream_id s = (case map_of (g_subscribers s) stream_id of None \<Rightarrow> [] | Some m \<Rightarrow> m)"

definition register_publisher :: "int \<Rightarrow> string \<Rightarrow> Server \<Rightarrow> Server" where
  "register_publisher fd stream_id s =
     (case NextPeerId ''publisher'' s of (pub_id, s) \<Rightarrow>
        let s = replace_publisher stream_id s;
            s = s\<lparr>g_publishers := AList.update stream_id (fd, pub_id) (g_publishers s),
                  g_fd_to_info := AList.update fd (stream_id, pub_id, ''publisher'') (g_fd_to_info s)\<rparr>;
            s = add_client fd stream_id pub_id ''publisher'' s;
            s = SendJsonLine fd (json_welcome pub_id) s
        in fold (\<lambda>kv. SendJsonLine fd (json_event ''subscriber_join'' (fst kv))) (stream_subs stream_id s) s)"

definition register_subscriber :: "int \<Rightarrow> string \<Rightarrow> Server \<Rightarrow> Server" where
  "register_subscriber fd stream_id s =
     (case NextPeerId ''subscriber'' s of (sub_id, s) \<Rightarrow>
        let s = s\<lparr>g_subscribers := AList.update stream_id (AList.update sub_id fd (stream_subs stream_id s))
                                     (g_subscribers s),
                  g_fd_to_info := AList.update fd (stream_id, sub_id, ''subscriber'') (g_fd_to_info s)\<rparr>;
            s = add_client fd stream_id sub_id ''subscriber'' s;
            s = SendJsonLine fd (json_welcome sub_id) s
        in NotifyPublisherSubscriberEvent stream_id ''subscriber_join'' sub_id s)"

definition HandleInitialRegister :: "int \<Rightarrow> string \<Rightarrow> Server \<Rightarrow> bool \<times> Server" where
  "HandleInitialRegister fd msg s =
     (if contains_sub (role_token ''publisher'') msg
      then (True, register_publisher fd (register_stream msg) s)
      else if contains_sub (role_token ''subscriber'') msg
      then (True, register_subscriber fd (register_stream msg) s)
      else (False, s))"

section \<open>The event loop\<close>

text \<open>
  Accepting a connection: the descriptor the system returned, the outcome of the blocking
  read of the first line, whether adding the descriptor to epoll succeeds, and the answers
  of the reads that follow.
\<close>

definition close_raw :: "int \<Rightarrow> Server \<Rightarrow> Server" where
  "close_raw fd s = s\<lparr>open_fds := open_fds s - {fd}, sv_log := sv_log s @ [Closed fd]\<rparr>"

definition accept_client ::
  "int \<Rightarrow> (string \<times> string) option \<Rightarrow> bool \<Rightarrow> server_recv list \<Rightarrow> Server \<Rightarrow> Server" where
  "accept_client cfd first epoll_ok as s =
     (let s = s\<lparr>open_fds := insert cfd (open_fds s)\<rparr>
      in case first of
           None \<Rightarrow> close_raw cfd s
         | Some (reg_line, leftover) \<Rightarrow>
             (case HandleInitialRegister cfd reg_line s of
                (False, s) \<Rightarrow> close_raw cfd s
              | (True, s) \<Rightarrow>
                  (case map_of (g_clients s) cfd of
                     None \<Rightarrow> if epoll_ok then ProcessClientRead cfd as s else close_raw cfd s
                   | Some i \<Rightarrow>
                       (let s = update_client i (\<lambda>c. c\<lparr>c_read_buf := leftover, c_parse_off := 0\<rparr>) s
                        in if length leftover > max_read_buf s then
                             RemoveClientResources cfd
                               (CloseClientFd cfd
                                 ((mark_dead i s)\<lparr>g_clients := AList.delete cfd (g_clients s)\<rparr>))
                           else if epoll_ok then ProcessClientRead cfd as s else close_raw cfd s))))"

text \<open>An error or hang-up event on a client descriptor.\<close>

definition handle_hangup :: "int \<Rightarrow> Server \<Rightarrow> Server" where
  "handle_hangup fd s =
     (case map_of (g_clients s) fd of
        None \<Rightarrow> CloseClientFd fd s
      | Some i \<Rightarrow>
          RemoveClientResources fd
            (CloseClientFd fd ((mark_dead i s)\<lparr>g_clients := AList.delete fd (g_clients s)\<rparr>)))"

section \<open>The tables as maps, and the invariant\<close>

definition info_of :: "Server \<Rightarrow> int \<Rightarrow> (string \<times> string \<times> string) option" where
  "info_of s = map_of (g_fd_to_info s)"

definition pub_of :: "Server \<Rightarrow> string \<Rightarrow> (int \<times> string) option" where
  "pub_of s = map_of (g_publishers s)"

definition sub_of :: "Server \<Rightarrow> string \<Rightarrow> string \<Rightarrow> int option" where
  "sub_of s st pid = map_of (stream_subs st s) pid"

definition client_of :: "Server \<Rightarrow> int \<Rightarrow> nat option" where
  "client_of s = map_of (g_clients s)"

text \<open>
  The three tables agree: the descriptor table determines the publisher table (so a stream
  has at most one publisher) and the subscriber table.
\<close>

definition tables_ok ::
  "(int \<Rightarrow> (string \<times> string \<times> string) option) \<Rightarrow> (string \<Rightarrow> (int \<times> string) option)
   \<Rightarrow> (string \<Rightarrow> string \<Rightarrow> int option) \<Rightarrow> bool" where
  "tables_ok I P S \<longleftrightarrow>
     (\<forall>st fd pid. P st = Some (fd, pid) \<longleftrightarrow> I fd = Some (st, pid, ''publisher''))
     \<and> (\<forall>st fd pid. S st pid = Some fd \<longleftrightarrow> I fd = Some (st, pid, ''subscriber''))
     \<and> (\<forall>fd st pid r. I fd = Some (st, pid, r) \<longrightarrow>
          r \<in> {''publisher'', ''subscriber''} \<and> st \<noteq> [] \<and> pid \<noteq> [])"

text \<open>Every registered descriptor has a live client object that agrees with the table.\<close>

definition client_ok :: "nat \<Rightarrow> int \<Rightarrow> (string \<times> string \<times> string) option \<Rightarrow> Client \<Rightarrow> bool" where
  "client_ok rb fd x c \<longleftrightarrow>
     c_fd c = fd \<and> c_registered c \<and> \<not> c_dead c \<and> x = Some (c_stream_id c, c_peer_id c, c_role c)
     \<and> c_parse_off c \<le> length (c_read_buf c) \<and> length (c_read_buf c) \<le> rb"

definition clients_ok ::
  "(int \<Rightarrow> (string \<times> string \<times> string) option) \<Rightarrow> (int \<Rightarrow> nat option) \<Rightarrow> (nat \<Rightarrow> Client option)
   \<Rightarrow> nat \<Rightarrow> nat \<Rightarrow> bool" where
  "clients_ok I C H n rb \<longleftrightarrow>
     (\<forall>fd. C fd = None \<longleftrightarrow> I fd = None)
     \<and> (\<forall>fd i. C fd = Some i \<longrightarrow> i < n \<and> (\<exists>c. H i = Some c \<and> client_ok rb fd (I fd) c))"

text \<open>Registered descriptors are open sockets, and peer ids are distinct issued names.\<close>

definition peer_name :: "string \<Rightarrow> int \<Rightarrow> string" where
  "peer_name role n = (if role = ''publisher'' then ''pub'' else ''sub'') @ ''-'' @ to_string n"

definition ids_ok ::
  "(int \<Rightarrow> (string \<times> string \<times> string) option) \<Rightarrow> int set \<Rightarrow> u64 \<Rightarrow> bool" where
  "ids_ok I F q \<longleftrightarrow>
     (\<forall>fd st pid r. I fd = Some (st, pid, r) \<longrightarrow>
        0 \<le> fd \<and> fd \<in> F \<and> (\<exists>n. n < uint q \<and> pid = peer_name r n))
     \<and> (\<forall>fd fd' st st' pid r r'. I fd = Some (st, pid, r) \<longrightarrow> I fd' = Some (st', pid, r') \<longrightarrow> fd = fd')"

definition shard_bytes :: "LineTask list \<Rightarrow> nat" where
  "shard_bytes q = sum_list (map (\<lambda>t. length (t_line t)) q)"

definition workers_ok :: "ShardedLineWorkers \<Rightarrow> bool" where
  "workers_ok w \<longleftrightarrow>
     0 < length (queues w) \<and> length (queue_bytes w) = length (queues w)
     \<and> (\<forall>k < length (queues w).
          queue_bytes w ! k = shard_bytes (queues w ! k)
          \<and> length (queues w ! k) \<le> max_queue_lines w
          \<and> queue_bytes w ! k \<le> max_queue_bytes w)"

definition subs_ok :: "Server \<Rightarrow> bool" where
  "subs_ok s \<longleftrightarrow> (\<forall>st m. map_of (g_subscribers s) st = Some m \<longrightarrow> m \<noteq> [] \<and> distinct (keys m))"

definition server_ok :: "Server \<Rightarrow> bool" where
  "server_ok s \<longleftrightarrow>
     tables_ok (info_of s) (pub_of s) (sub_of s)
     \<and> clients_ok (info_of s) (client_of s) (client_heap s) (next_client s) (max_read_buf s)
     \<and> ids_ok (info_of s) (open_fds s) (g_peer_seq s)
     \<and> workers_ok (g_workers s)
     \<and> subs_ok s"

section \<open>Removing and adding an entry\<close>

definition drop_pub :: "int \<Rightarrow> (string \<Rightarrow> (int \<times> string) option) \<Rightarrow> string \<Rightarrow> (int \<times> string) option" where
  "drop_pub fd P st = (case P st of Some (f, x) \<Rightarrow> if f = fd then None else Some (f, x) | None \<Rightarrow> None)"

definition drop_sub :: "int \<Rightarrow> (string \<Rightarrow> string \<Rightarrow> int option) \<Rightarrow> string \<Rightarrow> string \<Rightarrow> int option" where
  "drop_sub fd S st pid = (if S st pid = Some fd then None else S st pid)"

lemma drop_pub_Some [simp]: "drop_pub fd P st = Some (f, x) \<longleftrightarrow> P st = Some (f, x) \<and> f \<noteq> fd"
  by (auto simp: drop_pub_def split: option.splits)

lemma drop_sub_Some [simp]: "drop_sub fd S st pid = Some f \<longleftrightarrow> S st pid = Some f \<and> f \<noteq> fd"
  by (auto simp: drop_sub_def)

lemma tables_ok_drop:
  "tables_ok I P S \<Longrightarrow> tables_ok (I(fd := None)) (drop_pub fd P) (drop_sub fd S)"
  by (auto simp: tables_ok_def)

lemma drop_unregistered:
  assumes "tables_ok I P S" "I fd = None"
  shows "drop_pub fd P = P" and "drop_sub fd S = S"
proof -
  have "drop_pub fd P st = P st" for st
    using assms by (cases "P st") (auto simp: drop_pub_def tables_ok_def)
  then show "drop_pub fd P = P" by auto
  have "drop_sub fd S st pid = S st pid" for st pid
    using assms by (auto simp: drop_sub_def tables_ok_def)
  then show "drop_sub fd S = S" by auto
qed

lemma drop_publisher:
  assumes "tables_ok I P S" "I fd = Some (st, pid, ''publisher'')"
  shows "drop_pub fd P = P(st := None)" and "drop_sub fd S = S"
proof -
  have p: "P st = Some (fd, pid)" using assms by (simp add: tables_ok_def)
  have "drop_pub fd P st' = (P(st := None)) st'" for st'
    using assms p by (cases "P st'"; cases "st' = st") (auto simp: drop_pub_def tables_ok_def)
  then show "drop_pub fd P = P(st := None)" by auto
  have "drop_sub fd S st' p = S st' p" for st' p
    using assms by (auto simp: drop_sub_def tables_ok_def)
  then show "drop_sub fd S = S" by auto
qed

lemma drop_subscriber:
  assumes "tables_ok I P S" "I fd = Some (st, pid, ''subscriber'')"
  shows "drop_pub fd P = P" and "drop_sub fd S = (\<lambda>st' p. if st' = st \<and> p = pid then None else S st' p)"
proof -
  have "drop_pub fd P st' = P st'" for st'
    using assms by (cases "P st'") (auto simp: drop_pub_def tables_ok_def)
  then show "drop_pub fd P = P" by auto
  have "drop_sub fd S st' p = (if st' = st \<and> p = pid then None else S st' p)" for st' p
    using assms by (auto simp: drop_sub_def tables_ok_def)
  then show "drop_sub fd S = (\<lambda>st' p. if st' = st \<and> p = pid then None else S st' p)" by auto
qed

lemma tables_ok_publisher:
  assumes "tables_ok I P S" "I fd = None" "P st = None" "st \<noteq> []" "pid \<noteq> []"
  shows "tables_ok (I(fd \<mapsto> (st, pid, ''publisher''))) (P(st \<mapsto> (fd, pid))) S"
  using assms unfolding tables_ok_def by (auto; metis option.distinct(1))

lemma tables_ok_subscriber:
  assumes "tables_ok I P S" "I fd = None" "S st pid = None" "st \<noteq> []" "pid \<noteq> []"
  shows "tables_ok (I(fd \<mapsto> (st, pid, ''subscriber''))) P (S(st := (S st)(pid \<mapsto> fd)))"
  using assms unfolding tables_ok_def by (auto; metis option.distinct(1))

lemma clients_ok_drop:
  assumes "clients_ok I C H n rb" "C fd = None \<or> C fd = Some i" "\<forall>f. C f = Some i \<longrightarrow> f = fd"
  shows "clients_ok (I(fd := None)) (C(fd := None)) (H(i := x)) n rb"
  using assms unfolding clients_ok_def by auto

lemma clients_ok_address:
  assumes "clients_ok I C H n rb" "C fd = Some i" "C f = Some i"
  shows "f = fd"
proof -
  obtain c c' where "H i = Some c" "client_ok rb fd (I fd) c" "H i = Some c'" "client_ok rb f (I f) c'"
    using assms unfolding clients_ok_def by metis
  then show ?thesis by (simp add: client_ok_def)
qed

lemma clients_ok_add:
  assumes "clients_ok I C H n rb" "I fd = None" "client_ok rb fd (Some x) c"
  shows "clients_ok (I(fd \<mapsto> x)) (C(fd \<mapsto> n)) (H(n \<mapsto> c)) (n + 1) rb"
  using assms unfolding clients_ok_def by (auto simp: less_Suc_eq)

lemma ids_ok_drop: "ids_ok I F q \<Longrightarrow> F - {fd} \<subseteq> F' \<Longrightarrow> ids_ok (I(fd := None)) F' q"
  unfolding ids_ok_def by (auto dest: subsetD)

lemma ids_ok_close: "ids_ok I F q \<Longrightarrow> I fd = None \<Longrightarrow> ids_ok I (F - {fd}) q"
  unfolding ids_ok_def by (metis DiffI option.distinct(1) singletonD)

lemma peer_name_inj: "peer_name r n = peer_name r' n' \<Longrightarrow> n = n'"
  by (auto simp: peer_name_def to_string_inj split: if_splits)

lemma peer_name_nonempty [simp]: "peer_name r n \<noteq> []"
  by (simp add: peer_name_def)

text \<open>The counter does not wrap on a registration that it can still number.\<close>

lemma seq_next:
  assumes "uint q < 2 ^ 64 - 1"
  shows "uint (q + 1) = uint (q :: u64) + 1"
proof -
  have "uint q + 1 < 2 ^ 64" "0 \<le> uint q" using assms by simp_all
  then show ?thesis by (simp add: uint_word_ariths(1))
qed

lemma ids_ok_add:
  assumes "ids_ok I F q" "0 \<le> fd" "fd \<in> F" "uint q < 2 ^ 64 - 1"
  shows "ids_ok (I(fd \<mapsto> (st, peer_name r (uint q), r))) F (q + 1)"
proof -
  have q: "uint (q + 1) = uint q + 1" using assms(4) by (rule seq_next)
  have fresh: "pid \<noteq> peer_name r (uint q)" if "I f = Some (st', pid, r')" for f st' pid r'
    using assms(1) that peer_name_inj unfolding ids_ok_def by (metis less_irrefl)
  have old: "\<exists>n. n < uint q + 1 \<and> pid = peer_name r' n" if "I f = Some (st', pid, r')" for f st' pid r'
    using assms(1) that unfolding ids_ok_def by (meson add_increasing2 less_le_trans less_add_one less_trans)
  have new: "\<exists>n. n < uint q + 1 \<and> peer_name r (uint q) = peer_name r n"
    by (intro exI [of _ "uint q"]) simp
  have inj: "f = f'" if "I f = Some (st', pid, r')" "I f' = Some (st'', pid, r'')" for f f' st' st'' pid r' r''
    using assms(1) that unfolding ids_ok_def by blast
  have fds: "0 \<le> f \<and> f \<in> F" if "I f = Some (st', pid, r')" for f st' pid r'
    using assms(1) that unfolding ids_ok_def by blast
  show ?thesis
    unfolding ids_ok_def q fun_upd_apply
    using assms(2,3) fresh old new inj fds by (simp split: if_splits) blast
qed

section \<open>Operations that only write to the log\<close>

definition log_step :: "Server \<Rightarrow> Server \<Rightarrow> bool" where
  "log_step s s' \<longleftrightarrow> (\<exists>l. s' = s\<lparr>sv_log := sv_log s @ l\<rparr>)"

lemma log_step_refl [simp]: "log_step s s"
  by (auto simp: log_step_def intro: exI [of _ "[]"])

lemma log_step_trans: "log_step s t \<Longrightarrow> log_step t u \<Longrightarrow> log_step s u"
  by (auto simp: log_step_def)

lemma SendJsonLine_log [simp]: "log_step s (SendJsonLine fd line s)"
  by (auto simp: log_step_def SendJsonLine_def intro: exI [of _ "[]"])

lemma ForwardLineWithFrom_log [simp]: "log_step s (ForwardLineWithFrom fd line pid s)"
  by (auto simp: ForwardLineWithFrom_def split: option.split)

lemma Notify_log [simp]: "log_step s (NotifyPublisherSubscriberEvent st type pid s)"
  by (auto simp: NotifyPublisherSubscriberEvent_def Let_def)

lemma RoutePublisher_log [simp]: "log_step s (RoutePublisherMessage st line pid s)"
  by (auto simp: RoutePublisherMessage_def Let_def)

lemma RouteSubscriber_log [simp]: "log_step s (RouteSubscriberMessage st line pid s)"
  by (auto simp: RouteSubscriberMessage_def Let_def)

lemma fold_SendJsonLine_log [simp]: "log_step s (fold (\<lambda>kv. SendJsonLine fd (f kv)) kvs s)"
proof (induction kvs arbitrary: s)
  case (Cons kv kvs)
  then show ?case using log_step_trans [OF SendJsonLine_log Cons.IH] by simp
qed simp

lemma log_views [simp]:
  "info_of (s\<lparr>sv_log := l\<rparr>) = info_of s" "pub_of (s\<lparr>sv_log := l\<rparr>) = pub_of s"
  "sub_of (s\<lparr>sv_log := l\<rparr>) = sub_of s" "client_of (s\<lparr>sv_log := l\<rparr>) = client_of s"
  "subs_ok (s\<lparr>sv_log := l\<rparr>) = subs_ok s"
  by (auto simp: info_of_def pub_of_def sub_of_def client_of_def subs_ok_def stream_subs_def fun_eq_iff)

lemma server_ok_log [simp]: "server_ok (s\<lparr>sv_log := l\<rparr>) = server_ok s"
  by (simp add: server_ok_def)

lemma log_step_server_ok: "log_step s s' \<Longrightarrow> server_ok s' = server_ok s"
  by (auto simp: log_step_def)

lemma log_step_views:
  assumes "log_step s s'"
  shows "info_of s' = info_of s" "pub_of s' = pub_of s" "sub_of s' = sub_of s"
    "client_of s' = client_of s" "client_heap s' = client_heap s" "g_workers s' = g_workers s"
    "open_fds s' = open_fds s" "g_peer_seq s' = g_peer_seq s" "next_client s' = next_client s"
    "max_read_buf s' = max_read_buf s" "g_clients s' = g_clients s" "subs_ok s' = subs_ok s"
  using assms by (auto simp: log_step_def)

section \<open>Disconnection keeps the invariant\<close>

text \<open>The state components outside the three tables and the log.\<close>

definition frame :: "Server \<Rightarrow> (int \<times> nat) list \<times> (nat \<Rightarrow> Client option) \<times> nat \<times> int set \<times> u64 \<times> ShardedLineWorkers \<times> nat" where
  "frame s = (g_clients s, client_heap s, next_client s, open_fds s, g_peer_seq s, g_workers s, max_read_buf s)"

lemma log_step_frame: "log_step s s' \<Longrightarrow> frame s' = frame s"
  by (auto simp: log_step_def frame_def)

lemma frame_eqD:
  assumes "frame s' = frame s"
  shows "client_of s' = client_of s" "client_heap s' = client_heap s" "next_client s' = next_client s"
    "open_fds s' = open_fds s" "g_peer_seq s' = g_peer_seq s" "g_workers s' = g_workers s"
    "max_read_buf s' = max_read_buf s" "g_clients s' = g_clients s"
  using assms by (simp_all add: frame_def client_of_def)

lemma remove_publisher_views:
  assumes "pub_of s st = Some (fd, pid)"
  shows "info_of (remove_publisher st fd s) = info_of s"
    "pub_of (remove_publisher st fd s) = (pub_of s)(st := None)"
    "sub_of (remove_publisher st fd s) = sub_of s"
    "frame (remove_publisher st fd s) = frame s"
    "subs_ok (remove_publisher st fd s) = subs_ok s"
  using assms
  by (auto simp: remove_publisher_def info_of_def pub_of_def sub_of_def stream_subs_def frame_def
      subs_ok_def fun_eq_iff split: option.splits)

lemma delete_empty_lookup: "AList.delete k m = [] \<Longrightarrow> k' \<noteq> k \<Longrightarrow> map_of m k' = None"
  using map_of_delete [of k m k'] by simp

lemma remove_subscriber_frame:
  "info_of (remove_subscriber st pid s) = info_of s"
  "pub_of (remove_subscriber st pid s) = pub_of s"
  "frame (remove_subscriber st pid s) = frame s"
  by (simp_all add: remove_subscriber_def info_of_def pub_of_def frame_def Let_def split: option.split)

lemma remove_subscriber_sub:
  "sub_of (remove_subscriber st pid s) st' p = (if st' = st \<and> p = pid then None else sub_of s st' p)"
proof (cases "map_of (g_subscribers s) st")
  case (Some m)
  then show ?thesis
    using delete_empty_lookup [of pid m p]
    by (cases "AList.delete pid m = []") (auto simp: remove_subscriber_def sub_of_def stream_subs_def)
qed (simp add: remove_subscriber_def sub_of_def stream_subs_def)

lemma remove_subscriber_subs_ok:
  assumes "subs_ok s"
  shows "subs_ok (remove_subscriber st pid s)"
proof (cases "map_of (g_subscribers s) st")
  case (Some m)
  then have "distinct (keys (AList.delete pid m))" using assms by (simp add: subs_ok_def)
  with Some assms show ?thesis by (auto simp: remove_subscriber_def subs_ok_def Let_def)
qed (use assms in \<open>simp add: remove_subscriber_def\<close>)

lemmas remove_subscriber_views = remove_subscriber_frame remove_subscriber_sub remove_subscriber_subs_ok

text \<open>\<^verbatim>\<open>RemoveClientResources\<close> removes exactly the entries of the descriptor from the three tables.\<close>

lemma RemoveClientResources_views:
  assumes "tables_ok (info_of s) (pub_of s) (sub_of s)" "subs_ok s"
  shows "info_of (RemoveClientResources fd s) = (info_of s)(fd := None)
    \<and> pub_of (RemoveClientResources fd s) = drop_pub fd (pub_of s)
    \<and> sub_of (RemoveClientResources fd s) = drop_sub fd (sub_of s)
    \<and> frame (RemoveClientResources fd s) = frame s
    \<and> subs_ok (RemoveClientResources fd s)"
proof (cases "info_of s fd")
  case None
  then have "RemoveClientResources fd s = s" by (simp add: RemoveClientResources_def info_of_def)
  then show ?thesis using None assms drop_unregistered [OF assms(1) None] by (simp add: fun_upd_idem)
next
  case (Some x)
  obtain st pid r where x: "x = (st, pid, r)" by (cases x)
  define u where "u = s\<lparr>g_fd_to_info := AList.delete fd (g_fd_to_info s)\<rparr>"
  have u: "info_of u = (info_of s)(fd := None)" "pub_of u = pub_of s" "sub_of u = sub_of s"
    "frame u = frame s" "subs_ok u"
    using assms(2)
    by (auto simp: u_def info_of_def pub_of_def sub_of_def stream_subs_def frame_def subs_ok_def fun_eq_iff)
  define v where "v = (if r = ''publisher'' then remove_publisher st fd u
      else if r = ''subscriber'' then remove_subscriber st pid u else u)"
  have log: "log_step v (RemoveClientResources fd s)"
    using Some x by (simp add: RemoveClientResources_def info_of_def u_def [symmetric] v_def [symmetric] Let_def)
  have role: "r = ''publisher'' \<or> r = ''subscriber''"
    using assms(1) Some x unfolding tables_ok_def by blast
  have "info_of v = (info_of s)(fd := None) \<and> pub_of v = drop_pub fd (pub_of s)
    \<and> sub_of v = drop_sub fd (sub_of s) \<and> frame v = frame s \<and> subs_ok v"
  proof (cases "r = ''publisher''")
    case True
    then have "pub_of u st = Some (fd, pid)" using assms(1) Some x u by (simp add: tables_ok_def)
    from remove_publisher_views [OF this] show ?thesis
      using True u drop_publisher [OF assms(1), of fd st pid] Some x by (simp add: v_def)
  next
    case False
    then have r: "r = ''subscriber''" using role by simp
    then show ?thesis
      using u drop_subscriber [OF assms(1), of fd st pid] Some x
      by (simp add: v_def remove_subscriber_views fun_eq_iff)
  qed
  then show ?thesis using log_step_views [OF log] log_step_frame [OF log] by simp
qed

text \<open>
  Disconnecting restores the invariant even when the client's own object (its oversized read
  buffer) is what violates it: the hypothesis is on the state with that object replaced.
\<close>

lemma heap_views [simp]:
  "info_of (s\<lparr>client_heap := h\<rparr>) = info_of s" "pub_of (s\<lparr>client_heap := h\<rparr>) = pub_of s"
  "sub_of (s\<lparr>client_heap := h\<rparr>) = sub_of s" "client_of (s\<lparr>client_heap := h\<rparr>) = client_of s"
  "subs_ok (s\<lparr>client_heap := h\<rparr>) = subs_ok s"
  by (auto simp: info_of_def pub_of_def sub_of_def client_of_def subs_ok_def stream_subs_def fun_eq_iff)

lemma DisconnectClient_except:
  assumes "server_ok (s\<lparr>client_heap := (client_heap s)(i := x)\<rparr>)" "client_of s fd = Some i \<or> client_of s fd = None \<and> i \<notin> ran (client_of s)"
  shows "server_ok (DisconnectClient fd (Some i) s)
    \<and> info_of (DisconnectClient fd (Some i) s) = (info_of s)(fd := None)
    \<and> client_of (DisconnectClient fd (Some i) s) = (client_of s)(fd := None)
    \<and> client_dead (DisconnectClient fd (Some i) s) i"
proof -
  define u where "u = (CloseClientFd fd (mark_dead i s))\<lparr>g_clients := AList.delete fd (g_clients s)\<rparr>"
  have eq: "DisconnectClient fd (Some i) s = RemoveClientResources fd u"
    by (simp add: DisconnectClient_def u_def CloseClientFd_def mark_dead_def update_client_def Let_def)
  have u: "info_of u = info_of s" "pub_of u = pub_of s" "sub_of u = sub_of s" "subs_ok u = subs_ok s"
    "client_of u = (client_of s)(fd := None)"
    "client_heap u = (client_heap s)(i := map_option (c_dead_update (\<lambda>_. True)) (client_heap s i))"
    "next_client u = next_client s" "g_peer_seq u = g_peer_seq s" "g_workers u = g_workers s"
    "max_read_buf u = max_read_buf s" "open_fds u = open_fds s - {fd} \<or> (fd < 0 \<and> open_fds u = open_fds s)"
    by (auto simp: u_def CloseClientFd_def mark_dead_def update_client_def info_of_def pub_of_def
        sub_of_def stream_subs_def subs_ok_def client_of_def fun_eq_iff)
  have t: "tables_ok (info_of u) (pub_of u) (sub_of u)" "subs_ok u"
    using assms(1) u by (simp_all add: server_ok_def)
  note r = RemoveClientResources_views [OF t, of fd]
  have "clients_ok ((info_of s)(fd := None)) ((client_of s)(fd := None)) (client_heap u) (next_client s) (max_read_buf s)"
  proof -
    have cl: "clients_ok (info_of s) (client_of s) ((client_heap s)(i := x)) (next_client s) (max_read_buf s)"
      using assms(1) by (simp add: server_ok_def)
    have "\<forall>f. client_of s f = Some i \<longrightarrow> f = fd"
      using assms(2) clients_ok_address [OF cl] by (auto simp: ran_def)
    then show ?thesis
      using clients_ok_drop [OF cl, of fd i "map_option (c_dead_update (\<lambda>_. True)) (client_heap s i)"] assms(2)
      by (auto simp: u(6))
  qed
  moreover have "ids_ok ((info_of s)(fd := None)) (open_fds u) (g_peer_seq s)"
    using assms(1) u(11) by (intro ids_ok_drop [of _ "open_fds s"]) (auto simp: server_ok_def)
  moreover have "tables_ok ((info_of s)(fd := None)) (drop_pub fd (pub_of s)) (drop_sub fd (sub_of s))"
    using assms(1) tables_ok_drop by (simp add: server_ok_def)
  moreover have "workers_ok (g_workers s)" using assms(1) by (simp add: server_ok_def)
  moreover have f: "frame (RemoveClientResources fd u) = frame u" using r by simp
  ultimately have "server_ok (RemoveClientResources fd u)"
    unfolding server_ok_def frame_eqD [OF f] using r by (simp add: u(1,2,3,5,7-10))
  moreover have "client_dead (RemoveClientResources fd u) i"
    by (cases "client_heap s i") (simp_all add: client_dead_def frame_eqD [OF f] u(6))
  ultimately show ?thesis
    unfolding eq using r frame_eqD(1) [OF f] u(1,5) by simp
qed

lemma DisconnectClient_ok:
  assumes "server_ok s" "client_of s fd = Some i \<or> client_of s fd = None \<and> i \<notin> ran (client_of s)"
  shows "server_ok (DisconnectClient fd (Some i) s)
    \<and> info_of (DisconnectClient fd (Some i) s) = (info_of s)(fd := None)
    \<and> client_of (DisconnectClient fd (Some i) s) = (client_of s)(fd := None)
    \<and> client_dead (DisconnectClient fd (Some i) s) i"
  using assms by (intro DisconnectClient_except [of s i "client_heap s i"]) auto

section \<open>The queues keep their bounds\<close>

lemma shard_of_less: "workers_ok w \<Longrightarrow> shard_of w fd < length (queues w)"
  by (simp add: workers_ok_def shard_of_def)

lemma shard_bytes_simps [simp]:
  "shard_bytes [] = 0" "shard_bytes (t # q) = length (t_line t) + shard_bytes q"
  "shard_bytes (q @ q') = shard_bytes q + shard_bytes q'"
  by (simp_all add: shard_bytes_def)

lemma Enqueue_ok:
  assumes "workers_ok w" "Enqueue fd t w = (r, w')"
  shows "workers_ok w'"
proof -
  have k: "shard_of w fd < length (queues w)" using assms(1) by (rule shard_of_less)
  have b: "shard_bytes (queues w ! k) \<le> max_queue_bytes w" if "k < length (queues w)" for k
    using assms(1) that unfolding workers_ok_def by metis
  show ?thesis
    using k b assms by (auto simp: Enqueue_def workers_ok_def Let_def nth_list_update split: if_splits)
qed

lemma Dequeue_ok:
  assumes "workers_ok w" "Dequeue k w = Some (t, w')" "k < length (queues w)"
  shows "workers_ok w'"
proof -
  obtain rest where q: "queues w ! k = t # rest"
    and w': "w' = w\<lparr>queues := (queues w)[k := rest],
      queue_bytes := (queue_bytes w)[k := if queue_bytes w ! k \<ge> length (t_line t)
                                          then queue_bytes w ! k - length (t_line t) else 0]\<rparr>"
    using assms(2) by (auto simp: Dequeue_def Let_def split: list.splits)
  have "queue_bytes w ! k = length (t_line t) + shard_bytes rest"
    "length (queues w ! k) \<le> max_queue_lines w" "queue_bytes w ! k \<le> max_queue_bytes w"
    using assms(1,3) q unfolding workers_ok_def by (metis shard_bytes_simps(2))+
  then show ?thesis using assms(1,3) q by (auto simp: w' workers_ok_def nth_list_update)
qed

lemma drain_loop_ok:
  "workers_ok w \<Longrightarrow> drain_loop i fd g buf off w = (ovf, off', w') \<Longrightarrow>
     workers_ok w' \<and> (off \<le> length buf \<longrightarrow> off' \<le> length buf)"
proof (induction i fd g buf off w rule: drain_loop.induct)
  case (1 i fd g buf off w)
  show ?case
  proof (cases "find_char_from LF buf off")
    case None
    then show ?thesis using "1.prems" by (simp add: drain_loop.simps [of i fd g buf off w])
  next
    case (Some pos)
    let ?line = "take (pos - off) (drop off buf)"
    have pos: "pos + 1 \<le> length buf"
      using Some by (auto simp: find_char_from_def dest!: find_char_SomeD)
    show ?thesis
    proof (cases "?line = [] \<or> contains_sub register_token ?line \<or> \<not> g")
      case True
      then show ?thesis
        using "1.IH"(1) [OF Some refl refl True] "1.prems" pos Some
        by (simp add: drain_loop.simps [of i fd g buf off w])
    next
      case False
      obtain r w1 where e: "Enqueue fd \<lparr>t_client = i, t_line = ?line\<rparr> w = (r, w1)"
        by (cases "Enqueue fd \<lparr>t_client = i, t_line = ?line\<rparr> w")
      then have w1: "workers_ok w1" using "1.prems"(1) Enqueue_ok by blast
      show ?thesis
        using "1.IH"(2) [OF Some refl refl False e [symmetric]] "1.prems" pos Some False e w1
        by (cases r) (auto simp: drain_loop.simps [of i fd g buf off w])
    qed
  qed
qed

section \<open>Reading keeps the invariant\<close>

text \<open>
  The handler keeps a reference to the client for the whole call: the object is either still
  registered for the descriptor, or no longer registered at all.
\<close>

definition held :: "int \<Rightarrow> nat \<Rightarrow> Server \<Rightarrow> bool" where
  "held fd i s \<longleftrightarrow> client_of s fd = Some i \<or> client_of s fd = None \<and> i \<notin> ran (client_of s)"

lemma workers_views [simp]:
  "info_of (s\<lparr>g_workers := w\<rparr>) = info_of s" "pub_of (s\<lparr>g_workers := w\<rparr>) = pub_of s"
  "sub_of (s\<lparr>g_workers := w\<rparr>) = sub_of s" "client_of (s\<lparr>g_workers := w\<rparr>) = client_of s"
  "subs_ok (s\<lparr>g_workers := w\<rparr>) = subs_ok s"
  by (auto simp: info_of_def pub_of_def sub_of_def client_of_def subs_ok_def stream_subs_def fun_eq_iff)

lemma workers_server_ok: "server_ok s \<Longrightarrow> workers_ok w \<Longrightarrow> server_ok (s\<lparr>g_workers := w\<rparr>)"
  by (simp add: server_ok_def)

lemma update_client_client_of [simp]: "client_of (update_client i f s) = client_of s"
  "max_read_buf (update_client i f s) = max_read_buf s" "info_of (update_client i f s) = info_of s"
  by (simp_all add: update_client_def)

lemma held_live:
  assumes "server_ok s" "client_of s fd = Some i"
  obtains c where "client_heap s i = Some c" "client_ok (max_read_buf s) fd (info_of s fd) c"
  using assms unfolding server_ok_def clients_ok_def by blast

lemma buffer_update_ok:
  assumes "server_ok s" "held fd i s"
    and "\<And>c. client_heap s i = Some c \<Longrightarrow> client_ok (max_read_buf s) fd (info_of s fd) c \<Longrightarrow>
           client_ok (max_read_buf s) fd (info_of s fd) (f c)"
  shows "server_ok (update_client i f s)"
proof -
  have cl: "clients_ok (info_of s) (client_of s) (client_heap s) (next_client s) (max_read_buf s)"
    using assms(1) by (simp add: server_ok_def)
  have "\<exists>c. ((client_heap s)(i := map_option f (client_heap s i))) j = Some c \<and> client_ok (max_read_buf s) fd' (info_of s fd') c"
    if j: "client_of s fd' = Some j" for fd' j
  proof (cases "j = i")
    case True
    then have "fd' = fd" using assms(2) j clients_ok_address [OF cl, of fd i fd'] by (auto simp: held_def ran_def)
    then show ?thesis using held_live [OF assms(1)] j True assms(3) by (metis fun_upd_same option.simps(9))
  next
    case False
    then show ?thesis using held_live [OF assms(1) j] by auto
  qed
  then have "clients_ok (info_of s) (client_of s) ((client_heap s)(i := map_option f (client_heap s i)))
      (next_client s) (max_read_buf s)"
    using cl unfolding clients_ok_def by blast
  then show ?thesis using assms(1) by (simp add: server_ok_def update_client_def)
qed

lemma held_dropped: "held fd i s \<Longrightarrow> clients_ok (info_of s) (client_of s) H n rb \<Longrightarrow> client_of t = (client_of s)(fd := None) \<Longrightarrow> held fd i t"
  using clients_ok_address [of "info_of s" "client_of s" H n rb fd i] by (auto simp: held_def ran_def)

lemma DrainCompleteLines_ok:
  assumes "server_ok s" "held fd i s"
  shows "server_ok (DrainCompleteLines i fd s) \<and> held fd i (DrainCompleteLines i fd s)"
proof (cases "client_heap s i")
  case None
  then show ?thesis using assms by (simp add: DrainCompleteLines_def)
next
  case (Some c)
  obtain ovf off w where d:
    "drain_loop i fd (c_registered c) (c_read_buf c) (c_parse_off c) (g_workers s) = (ovf, off, w)"
    by (cases "drain_loop i fd (c_registered c) (c_read_buf c) (c_parse_off c) (g_workers s)")
  obtain buf' off' where b: "compact_buffer (c_read_buf c) off = (buf', off')" by fastforce
  define t where "t = update_client i (\<lambda>c. c\<lparr>c_read_buf := buf', c_parse_off := off'\<rparr>) (s\<lparr>g_workers := w\<rparr>)"
  have w: "workers_ok w" and off: "c_parse_off c \<le> length (c_read_buf c) \<longrightarrow> off \<le> length (c_read_buf c)"
    using drain_loop_ok [OF _ d] assms(1) by (auto simp: server_ok_def)
  have buf: "length buf' \<le> length (c_read_buf c)"
    using b by (auto simp: compact_buffer_def split: if_splits)
  have held': "held fd i (s\<lparr>g_workers := w\<rparr>)" using assms(2) by (simp add: held_def)
  have "server_ok t" unfolding t_def
  proof (rule buffer_update_ok [OF workers_server_ok [OF assms(1) w] held'])
    fix c' assume "client_heap (s\<lparr>g_workers := w\<rparr>) i = Some c'"
      and ok: "client_ok (max_read_buf (s\<lparr>g_workers := w\<rparr>)) fd (info_of (s\<lparr>g_workers := w\<rparr>) fd) c'"
    then have c': "c' = c" using Some by simp
    then have "off \<le> length (c_read_buf c)" using ok off by (simp add: client_ok_def)
    then have "off' \<le> length buf'" using compact_buffer_offset [of off "c_read_buf c"] b by simp
    then show "client_ok (max_read_buf (s\<lparr>g_workers := w\<rparr>)) fd (info_of (s\<lparr>g_workers := w\<rparr>) fd)
        (c'\<lparr>c_read_buf := buf', c_parse_off := off'\<rparr>)"
      using ok buf c' by (simp add: client_ok_def)
  qed
  moreover have "held fd i t" using assms(2) by (simp add: t_def held_def)
  moreover have "DrainCompleteLines i fd s = (if ovf then DisconnectClient fd (Some i) t else t)"
    using Some d b by (simp add: DrainCompleteLines_def t_def Let_def)
  ultimately show ?thesis
    using DisconnectClient_ok [of t fd i] held_dropped [of fd i t]
    by (auto simp: held_def server_ok_def)
qed

lemma read_loop_ok:
  "server_ok s \<Longrightarrow> held fd i s \<Longrightarrow> server_ok (read_loop i fd as s)"
proof (induction i fd as s rule: read_loop.induct)
  case (2 i fd d as s)
  define t where "t = update_client i (\<lambda>c. c\<lparr>c_read_buf := c_read_buf c @ d\<rparr>) s"
  have ht: "held fd i t" using "2.prems"(2) by (simp add: t_def held_def)
  show ?case
  proof (cases "read_buf_len t i > max_read_buf t")
    case True
    have "t\<lparr>client_heap := (client_heap t)(i := client_heap s i)\<rparr> = s"
      by (simp add: t_def update_client_def)
    then have "server_ok (DisconnectClient fd (Some i) t)"
      using DisconnectClient_except [of t i "client_heap s i" fd] "2.prems"(1) ht by (simp add: held_def)
    then show ?thesis using True by (simp add: t_def [symmetric] Let_def)
  next
    case False
    have "server_ok t" unfolding t_def
    proof (rule buffer_update_ok [OF "2.prems"])
      fix c assume "client_heap s i = Some c" "client_ok (max_read_buf s) fd (info_of s fd) c"
      then show "client_ok (max_read_buf s) fd (info_of s fd) (c\<lparr>c_read_buf := c_read_buf c @ d\<rparr>)"
        using False by (simp add: client_ok_def t_def read_buf_len_def update_client_def)
    qed
    then have "server_ok (DrainCompleteLines i fd t)" "held fd i (DrainCompleteLines i fd t)"
      using DrainCompleteLines_ok ht by auto
    then show ?thesis using False 2(1) [OF t_def False refl] by (simp add: t_def [symmetric] Let_def)
  qed
qed (use DisconnectClient_ok in \<open>auto simp: held_def\<close>)

lemma ProcessClientRead_ok: "server_ok s \<Longrightarrow> server_ok (ProcessClientRead fd as s)"
proof (cases "client_of s fd")
  case (Some i)
  assume "server_ok s"
  moreover have "held fd i s" using Some by (simp add: held_def)
  ultimately show ?thesis
    using DrainCompleteLines_ok [of s fd i] read_loop_ok Some
    by (simp add: ProcessClientRead_def client_of_def)
qed (simp add: ProcessClientRead_def client_of_def)

lemma RunShard_round_ok:
  assumes "server_ok s" "k < length (queues (g_workers s))"
  shows "server_ok (RunShard_round k s)"
proof (cases "Dequeue k (g_workers s)")
  case (Some tw)
  obtain t w where tw: "tw = (t, w)" by (cases tw)
  have "server_ok (s\<lparr>g_workers := w\<rparr>)"
    using assms Some tw Dequeue_ok by (auto simp: server_ok_def)
  moreover have "log_step (s\<lparr>g_workers := w\<rparr>) (RunShard_round k s)"
    using Some tw by (simp add: RunShard_round_def Let_def split: option.split)
  ultimately show ?thesis using log_step_server_ok by blast
qed (use assms in \<open>simp add: RunShard_round_def\<close>)

lemma handle_hangup_disconnect:
  "client_of s fd = Some i \<Longrightarrow> handle_hangup fd s = DisconnectClient fd (Some i) s"
  by (cases s) (simp add: handle_hangup_def DisconnectClient_def client_of_def CloseClientFd_def
      mark_dead_def update_client_def Let_def)

lemma fds_views [simp]:
  "info_of (s\<lparr>open_fds := F\<rparr>) = info_of s" "pub_of (s\<lparr>open_fds := F\<rparr>) = pub_of s"
  "sub_of (s\<lparr>open_fds := F\<rparr>) = sub_of s" "client_of (s\<lparr>open_fds := F\<rparr>) = client_of s"
  "subs_ok (s\<lparr>open_fds := F\<rparr>) = subs_ok s"
  by (auto simp: info_of_def pub_of_def sub_of_def client_of_def subs_ok_def stream_subs_def fun_eq_iff)

lemma CloseClientFd_ok: "server_ok s \<Longrightarrow> info_of s fd = None \<Longrightarrow> server_ok (CloseClientFd fd s)"
  using ids_ok_close [of "info_of s" "open_fds s" "g_peer_seq s" fd]
  by (simp add: CloseClientFd_def server_ok_def)

lemma handle_hangup_ok: "server_ok s \<Longrightarrow> server_ok (handle_hangup fd s)"
proof (cases "client_of s fd")
  case None
  assume ok: "server_ok s"
  then have "info_of s fd = None" using None by (simp add: server_ok_def clients_ok_def)
  then show ?thesis using None ok CloseClientFd_ok by (simp add: handle_hangup_def client_of_def)
next
  case (Some i)
  assume "server_ok s"
  then show ?thesis using Some DisconnectClient_ok handle_hangup_disconnect by simp
qed

section \<open>Registration keeps the invariant\<close>

lemma NextPeerId_name:
  "NextPeerId r s = (peer_name r (uint (g_peer_seq s)), s\<lparr>g_peer_seq := g_peer_seq s + 1\<rparr>)"
  by (simp add: NextPeerId_def peer_name_def)

text \<open>Evicting the previous publisher is disconnecting it.\<close>

lemma replace_publisher_disconnect:
  assumes "server_ok s" "pub_of s st = Some (old, pid)" "client_of s old = Some i"
  shows "(replace_publisher st s)\<lparr>g_publishers := AList.delete st (g_publishers s)\<rparr>
           = DisconnectClient old (Some i) s"
proof -
  have info: "info_of s old = Some (st, pid, ''publisher'')"
    using assms(1,2) by (simp add: server_ok_def tables_ok_def)
  then have "0 \<le> old" using assms(1) unfolding server_ok_def ids_ok_def by blast
  then show ?thesis
    using assms(2,3) info
    by (cases s) (auto simp: replace_publisher_def DisconnectClient_def RemoveClientResources_def
        CloseClientFd_def mark_dead_def update_client_def remove_publisher_def publisher_fd_def
        NotifyPublisherSubscriberEvent_def pub_of_def info_of_def client_of_def Let_def)
qed

lemma replace_publisher_ok:
  assumes "server_ok s" "info_of s fd = None"
  obtains t where "server_ok t" "pub_of t st = None" "info_of t fd = None" "g_subscribers t = g_subscribers s"
    "replace_publisher st s = t\<lparr>g_publishers := g_publishers s\<rparr>" "pub_of t = (pub_of s)(st := None)"
    "fd \<in> open_fds s \<Longrightarrow> fd \<in> open_fds t" "g_peer_seq t = g_peer_seq s"
proof (cases "pub_of s st")
  case None
  then have "replace_publisher st s = s" by (simp add: replace_publisher_def pub_of_def)
  then show ?thesis using that [of s] assms None by (simp add: fun_upd_idem)
next
  case (Some x)
  obtain old pid where x: "x = (old, pid)" by (cases x)
  have info: "info_of s old = Some (st, pid, ''publisher'')"
    using assms(1) Some x by (simp add: server_ok_def tables_ok_def)
  then obtain i where i: "client_of s old = Some i"
    using assms(1) unfolding server_ok_def clients_ok_def by (metis not_None_eq)
  define t where "t = DisconnectClient old (Some i) s"
  have eq: "(replace_publisher st s)\<lparr>g_publishers := AList.delete st (g_publishers s)\<rparr> = t"
    unfolding t_def using replace_publisher_disconnect assms(1) Some x i by simp
  have pubs: "g_publishers (replace_publisher st s) = g_publishers s"
    by (auto simp: replace_publisher_def CloseClientFd_def mark_dead_def update_client_def Let_def
        split: option.split)
  have r: "replace_publisher st s = t\<lparr>g_publishers := g_publishers s\<rparr>"
    using pubs by (subst eq [symmetric]) (cases "replace_publisher st s", simp)
  have rest: "g_subscribers (replace_publisher st s) = g_subscribers s"
    "g_peer_seq (replace_publisher st s) = g_peer_seq s"
    "open_fds s - {old} \<subseteq> open_fds (replace_publisher st s)"
    by (auto simp: replace_publisher_def CloseClientFd_def mark_dead_def update_client_def Let_def
        pub_of_def Some [unfolded pub_of_def] x split: option.split)
  have "fd \<noteq> old" using info assms(2) by auto
  moreover have "server_ok t \<and> info_of t = (info_of s)(old := None)"
    unfolding t_def using DisconnectClient_ok [OF assms(1), of old i] i by simp
  moreover have "g_subscribers t = g_subscribers s" "g_peer_seq t = g_peer_seq s"
    "open_fds s - {old} \<subseteq> open_fds t" "pub_of t = (pub_of s)(st := None)"
    using rest by (simp_all add: eq [symmetric] pub_of_def fun_eq_iff)
  ultimately show ?thesis using that [of t] r assms(2) by auto
qed

text \<open>The state after a registration, described by its views.\<close>

lemma registered_ok:
  assumes ok: "server_ok t" and fd: "info_of t fd = None" "0 \<le> fd" "fd \<in> open_fds t"
    and seq: "uint (g_peer_seq t) < 2 ^ 64 - 1"
    and pid: "pid = peer_name r (uint (g_peer_seq t))"
    and info: "info_of u = (info_of t)(fd \<mapsto> (st, pid, r))"
    and tabs: "tables_ok (info_of u) (pub_of u) (sub_of u)"
    and cl: "client_of u = (client_of t)(fd \<mapsto> next_client t)"
    and heap: "client_heap u = (client_heap t)(next_client t \<mapsto> new_client\<lparr>c_fd := fd, c_registered := True,
                 c_stream_id := st, c_peer_id := pid, c_role := r\<rparr>)"
    and rest: "next_client u = next_client t + 1" "max_read_buf u = max_read_buf t"
      "open_fds u = open_fds t" "g_workers u = g_workers t" "g_peer_seq u = g_peer_seq t + 1"
    and subs: "subs_ok u"
  shows "server_ok u"
proof -
  have "clients_ok (info_of u) (client_of u) (client_heap u) (next_client u) (max_read_buf u)"
    unfolding info cl heap rest using ok fd(1)
    by (intro clients_ok_add) (simp_all add: server_ok_def client_ok_def new_client_def)
  moreover have "ids_ok (info_of u) (open_fds u) (g_peer_seq u)"
    unfolding info pid rest using ok fd(2,3) seq by (intro ids_ok_add) (simp_all add: server_ok_def)
  ultimately show ?thesis using ok tabs subs by (simp add: server_ok_def rest)
qed

lemma register_publisher_ok:
  assumes "server_ok s" "info_of s fd = None" "0 \<le> fd" "fd \<in> open_fds s"
    "uint (g_peer_seq s) < 2 ^ 64 - 1" "st \<noteq> []"
  shows "server_ok (register_publisher fd st s) \<and> client_of (register_publisher fd st s) fd \<noteq> None"
proof -
  define pid where "pid = peer_name ''publisher'' (uint (g_peer_seq s))"
  obtain t where t: "server_ok t" "pub_of t st = None" "info_of t fd = None"
    "g_subscribers t = g_subscribers s" "replace_publisher st s = t\<lparr>g_publishers := g_publishers s\<rparr>"
    "pub_of t = (pub_of s)(st := None)" "fd \<in> open_fds t" "g_peer_seq t = g_peer_seq s"
    using replace_publisher_ok [OF assms(1,2)] assms(4) by metis
  have comm: "replace_publisher st (s\<lparr>g_peer_seq := q\<rparr>) = (replace_publisher st s)\<lparr>g_peer_seq := q\<rparr>" for q
    by (cases s) (auto simp: replace_publisher_def CloseClientFd_def mark_dead_def update_client_def
        Let_def split: option.split)
  define u where "u = add_client fd st pid ''publisher''
    (t\<lparr>g_publishers := g_publishers s, g_peer_seq := g_peer_seq s + 1, g_publishers := AList.update st (fd, pid) (g_publishers s),
       g_fd_to_info := AList.update fd (st, pid, ''publisher'') (g_fd_to_info t)\<rparr>)"
  have log: "log_step u (register_publisher fd st s)"
  proof -
    have "register_publisher fd st s =
        fold (\<lambda>kv. SendJsonLine fd (json_event ''subscriber_join'' (fst kv)))
          (stream_subs st (SendJsonLine fd (json_welcome pid) u)) (SendJsonLine fd (json_welcome pid) u)"
      unfolding register_publisher_def NextPeerId_name
      by (simp add: comm t(5) u_def pid_def Let_def)
    then show ?thesis using log_step_trans [OF SendJsonLine_log fold_SendJsonLine_log] by simp
  qed
  have views: "info_of u = (info_of t)(fd \<mapsto> (st, pid, ''publisher''))"
    "pub_of u = (pub_of t)(st \<mapsto> (fd, pid))" "sub_of u = sub_of t" "client_of u = (client_of t)(fd \<mapsto> next_client t)"
    unfolding t(6)
    by (auto simp: u_def add_client_def info_of_def pub_of_def sub_of_def stream_subs_def client_of_def fun_eq_iff)
  have "server_ok u"
  proof (rule registered_ok [of t fd pid "''publisher''" u st])
    show "tables_ok (info_of u) (pub_of u) (sub_of u)"
      unfolding views using t(1-3) assms(6)
      by (intro tables_ok_publisher) (simp_all add: server_ok_def pid_def)
    show "subs_ok u" using t(1) by (simp add: server_ok_def subs_ok_def u_def add_client_def)
  qed (use t assms views in \<open>simp_all add: u_def add_client_def pid_def\<close>)
  then show ?thesis using log_step_server_ok [OF log] log_step_views [OF log] views by simp
qed

lemma register_subscriber_ok:
  assumes "server_ok s" "info_of s fd = None" "0 \<le> fd" "fd \<in> open_fds s"
    "uint (g_peer_seq s) < 2 ^ 64 - 1" "st \<noteq> []"
  shows "server_ok (register_subscriber fd st s) \<and> client_of (register_subscriber fd st s) fd \<noteq> None"
proof -
  define pid where "pid = peer_name ''subscriber'' (uint (g_peer_seq s))"
  define u where "u = add_client fd st pid ''subscriber''
    (s\<lparr>g_peer_seq := g_peer_seq s + 1,
       g_subscribers := AList.update st (AList.update pid fd (stream_subs st s)) (g_subscribers s),
       g_fd_to_info := AList.update fd (st, pid, ''subscriber'') (g_fd_to_info s)\<rparr>)"
  have log: "log_step u (register_subscriber fd st s)"
  proof -
    have "register_subscriber fd st s = NotifyPublisherSubscriberEvent st ''subscriber_join'' pid
        (SendJsonLine fd (json_welcome pid) u)"
      unfolding register_subscriber_def NextPeerId_name
      by (simp add: u_def pid_def Let_def stream_subs_def)
    then show ?thesis using log_step_trans [OF SendJsonLine_log Notify_log] by simp
  qed
  have views: "info_of u = (info_of s)(fd \<mapsto> (st, pid, ''subscriber''))" "pub_of u = pub_of s"
    "sub_of u = (sub_of s)(st := (sub_of s st)(pid \<mapsto> fd))" "client_of u = (client_of s)(fd \<mapsto> next_client s)"
    by (auto simp: u_def add_client_def info_of_def pub_of_def sub_of_def stream_subs_def client_of_def
        fun_eq_iff split: option.split)
  have fresh: "sub_of s st pid = None"
  proof (rule ccontr)
    assume "sub_of s st pid \<noteq> None"
    then obtain f where "info_of s f = Some (st, pid, ''subscriber'')"
      using assms(1) by (auto simp: server_ok_def tables_ok_def)
    then obtain n where "n < uint (g_peer_seq s)" "pid = peer_name ''subscriber'' n"
      using assms(1) unfolding server_ok_def ids_ok_def by blast
    then show False unfolding pid_def using peer_name_inj by fastforce
  qed
  have "distinct (keys (stream_subs st s))"
    using assms(1) by (auto simp: server_ok_def subs_ok_def stream_subs_def split: option.split)
  moreover have "AList.update pid fd (stream_subs st s) \<noteq> []"
    by (metis map_of_update map_of.simps(1) option.distinct(1))
  ultimately have subs: "subs_ok u"
    using assms(1) by (auto simp: server_ok_def subs_ok_def u_def add_client_def)
  have "server_ok u"
  proof (rule registered_ok [of s fd pid "''subscriber''" u st])
    show "tables_ok (info_of u) (pub_of u) (sub_of u)"
      unfolding views using assms fresh
      by (intro tables_ok_subscriber) (simp_all add: server_ok_def pid_def)
  qed (use assms views subs in \<open>simp_all add: u_def add_client_def pid_def\<close>)
  then show ?thesis using log_step_server_ok [OF log] log_step_views [OF log] views by simp
qed

lemma register_stream_nonempty [simp]: "register_stream msg \<noteq> []"
  by (simp add: register_stream_def Let_def)

lemma HandleInitialRegister_ok:
  assumes "server_ok s" "info_of s fd = None" "0 \<le> fd" "fd \<in> open_fds s"
    "uint (g_peer_seq s) < 2 ^ 64 - 1" "HandleInitialRegister fd msg s = (r, s')"
  shows "server_ok s' \<and> (if r then client_of s' fd \<noteq> None else s' = s)"
  using assms register_publisher_ok [OF assms(1-5)] register_subscriber_ok [OF assms(1-5)]
  by (auto simp: HandleInitialRegister_def split: if_splits)

section \<open>The event loop as a step relation\<close>

text \<open>
  One iteration of the loop body or of a queue worker. The system's contract is part of the
  rules: \<^verbatim>\<open>accept\<close> returns a non-negative descriptor that is not open. A connection whose
  descriptor cannot be added to epoll is outside these steps (see
  \<open>epoll_failure_keeps_entry\<close>), and so is a registration after the 64-bit counter is used up.
\<close>

inductive sv_step :: "Server \<Rightarrow> Server \<Rightarrow> bool" where
  step_accept: "0 \<le> cfd \<Longrightarrow> cfd \<notin> open_fds s \<Longrightarrow> uint (g_peer_seq s) < 2 ^ 64 - 1 \<Longrightarrow>
     sv_step s (accept_client cfd first True as s)"
| step_hangup: "sv_step s (handle_hangup fd s)"
| step_read: "sv_step s (ProcessClientRead fd as s)"
| step_worker: "k < length (queues (g_workers s)) \<Longrightarrow> sv_step s (RunShard_round k s)"

inductive sv_reachable :: "Server \<Rightarrow> bool" where
  reach_init: "sv_reachable (init_server threads lines bytes rbuf)"
| reach_step: "sv_reachable s \<Longrightarrow> sv_step s s' \<Longrightarrow> sv_reachable s'"

lemma close_raw_ok: "server_ok s \<Longrightarrow> info_of s fd = None \<Longrightarrow> server_ok (close_raw fd s)"
  using ids_ok_close [of "info_of s" "open_fds s" "g_peer_seq s" fd]
  by (simp add: close_raw_def server_ok_def)

lemma open_more_ok: "server_ok s \<Longrightarrow> server_ok (s\<lparr>open_fds := insert fd (open_fds s)\<rparr>)"
  unfolding server_ok_def ids_ok_def by simp

lemma accept_client_ok:
  assumes "server_ok s" "0 \<le> cfd" "cfd \<notin> open_fds s" "uint (g_peer_seq s) < 2 ^ 64 - 1"
  shows "server_ok (accept_client cfd first True as s)"
proof -
  define s1 where "s1 = s\<lparr>open_fds := insert cfd (open_fds s)\<rparr>"
  have none: "info_of s1 cfd = None"
  proof (rule ccontr)
    assume "info_of s1 cfd \<noteq> None"
    then obtain st pid r where "info_of s cfd = Some (st, pid, r)" by (auto simp: s1_def)
    then show False using assms(1,3) unfolding server_ok_def ids_ok_def by blast
  qed
  have s1: "server_ok s1" "cfd \<in> open_fds s1" "uint (g_peer_seq s1) < 2 ^ 64 - 1"
    using assms open_more_ok by (simp_all add: s1_def)
  show ?thesis
  proof (cases first)
    case None
    then show ?thesis using close_raw_ok [OF s1(1) none] by (simp add: accept_client_def s1_def [symmetric])
  next
    case (Some lr)
    obtain l rest where lr: "lr = (l, rest)" by (cases lr)
    obtain r s2 where h: "HandleInitialRegister cfd l s1 = (r, s2)" by (cases "HandleInitialRegister cfd l s1")
    note h2 = HandleInitialRegister_ok [OF s1(1) none assms(2) s1(2,3) h]
    show ?thesis
    proof (cases r)
      case False
      then show ?thesis
        using Some lr h h2 close_raw_ok [OF s1(1) none] by (simp add: accept_client_def s1_def [symmetric])
    next
      case True
      then obtain i where i: "client_of s2 cfd = Some i" using h2 by auto
      define s3 where "s3 = update_client i (\<lambda>c. c\<lparr>c_read_buf := rest, c_parse_off := 0\<rparr>) s2"
      have i3: "client_of s3 cfd = Some i" using i by (simp add: s3_def)
      have held: "held cfd i s2" using i by (simp add: held_def)
      have acc: "accept_client cfd first True as s =
          (if length rest > max_read_buf s3 then handle_hangup cfd s3 else ProcessClientRead cfd as s3)"
        using Some lr h True i i3
        by (simp add: accept_client_def s1_def [symmetric] s3_def [symmetric] client_of_def handle_hangup_def)
      show ?thesis
      proof (cases "length rest > max_read_buf s3")
        case True
        have "s3\<lparr>client_heap := (client_heap s3)(i := client_heap s2 i)\<rparr> = s2"
          by (simp add: s3_def update_client_def)
        then have "server_ok (DisconnectClient cfd (Some i) s3)"
          using DisconnectClient_except [of s3 i "client_heap s2 i" cfd] h2 i3 by simp
        then show ?thesis using acc True handle_hangup_disconnect [OF i3] by simp
      next
        case False
        have "server_ok s3" unfolding s3_def using h2 False
          by (intro buffer_update_ok [OF _ held]) (auto simp: client_ok_def s3_def)
        then show ?thesis using acc False ProcessClientRead_ok by simp
      qed
    qed
  qed
qed

lemma init_server_ok: "server_ok (init_server threads lines bytes rbuf)"
  by (auto simp: server_ok_def init_server_def tables_ok_def clients_ok_def ids_ok_def workers_ok_def
      make_workers_def subs_ok_def info_of_def pub_of_def sub_of_def stream_subs_def client_of_def)

lemma sv_step_ok: "sv_step s s' \<Longrightarrow> server_ok s \<Longrightarrow> server_ok s'"
  by (induction rule: sv_step.induct)
    (simp_all add: accept_client_ok handle_hangup_ok ProcessClientRead_ok RunShard_round_ok)

lemma reachable_ok: "sv_reachable s \<Longrightarrow> server_ok s"
  by (induction rule: sv_reachable.induct) (auto intro: init_server_ok sv_step_ok)

section \<open>The lines the relay writes\<close>

lemma json_event_fields:
  "plain type \<Longrightarrow> plain sub_id \<Longrightarrow>
     json_event type sub_id = jline [JStr ''type'' type, JInt ''v'' kSignalingProtocolVersion, JStr ''from'' sub_id]"
  by (simp add: json_event_def str_token_def int_token_def)

lemma json_welcome_fields:
  "plain pid \<Longrightarrow>
     json_welcome pid = jline [JStr ''type'' ''welcome'', JInt ''v'' kSignalingProtocolVersion, JStr ''id'' pid]"
  by (simp add: json_welcome_def str_token_def int_token_def plain_def)

lemma peer_name_plain [simp]: "plain (peer_name r n)"
  using to_string_no_special [of n] by (auto simp: plain_def peer_name_def)

text \<open>The relay's own lines are the ones the message builder writes.\<close>

lemma MessageType_ToString_plain: "plain (MessageType_ToString t)"
  by (cases t) (simp_all add: plain_def)

lemma json_event_message:
  assumes "plain sub_id" "sub_id \<noteq> []" "t \<in> {kSubscriberJoin, kSubscriberLeave}"
  shows "json_event (MessageType_ToString t) sub_id = BuildMessageLine (default_message\<lparr>m_type := t, m_from := sub_id\<rparr>)"
proof -
  have "message_fields (default_message\<lparr>m_type := t, m_from := sub_id\<rparr>) =
      [JStr ''type'' (MessageType_ToString t), JInt ''v'' kSignalingProtocolVersion, JStr ''from'' sub_id]"
    using assms(2,3) by (auto simp: message_fields_def default_message_def)
  then show ?thesis
    using assms(1) by (simp only: json_event_fields MessageType_ToString_plain BuildMessageLine_fields)
qed

lemma json_welcome_message:
  "plain pid \<Longrightarrow> pid \<noteq> [] \<Longrightarrow>
     json_welcome pid = BuildMessageLine (default_message\<lparr>m_type := kWelcome, m_peer_id := pid\<rparr>)"
  by (simp add: json_welcome_fields BuildMessageLine_fields message_fields_def default_message_def)

lemma default_message_ints: "message_ints_ok (default_message\<lparr>m_type := t, m_from := f\<rparr>)"
  "message_ints_ok (default_message\<lparr>m_type := t, m_peer_id := f\<rparr>)"
  by (simp_all add: message_ints_ok_def default_message_def default_registration_def)

lemma find_str_absent:
  assumes "good_key k" "good_fields fs" "\<forall>v. JStr k v \<notin> set fs"
  shows "find_sub (str_token k) (jtail fs) = None"
  using assms(2,3)
proof (induction fs)
  case Nil
  then show ?case by (simp add: jtail_def str_token_def)
next
  case (Cons f fs)
  have "no_start (str_token k) (jtext f) (jtail fs)"
  proof (cases "jkey f = k")
    case True
    then obtain i where "f = JInt k i" using Cons.prems by (cases f) auto
    then show ?thesis using no_start_int_field_for_string assms(1) by simp
  next
    case False
    then show ?thesis using no_start_field [of k f "[DQ]"] assms(1) Cons.prems by (simp add: str_token_key_token)
  qed
  then have "find_sub (str_token k) (jtext f @ jtail fs) = None"
    using Cons by (intro no_start_none) auto
  then show ?case by (simp add: jtail_Cons str_token_def)
qed

lemma with_from_jline:
  assumes "good_fields (f # fs)" "\<forall>v. JStr ''from'' v \<notin> set (f # fs)" "plain pid"
  shows "with_from (jline (f # fs)) pid = Some (jline (f # fs @ [JStr ''from'' pid]))"
proof -
  have "find_sub (str_token ''from'') (jtail (f # fs)) = None"
    using assms by (intro find_str_absent) auto
  moreover have "jtail (f # fs) = CHR '','' # jtext f @ jtail fs" "jline (f # fs) = CHR ''{'' # jtext f @ jtail fs"
    by (simp_all add: jtail_def)
  ultimately have none: "find_sub (str_token ''from'') (jline (f # fs)) = None"
    by (simp add: str_token_def)
  have "rfind_char (CHR ''}'') (jopen (f # fs) @ CHR ''}'' # []) = Some (length (jopen (f # fs)))"
    by (rule rfind_char_last) simp
  then have "rfind_char (CHR ''}'') (jline (f # fs)) = Some (length (jopen (f # fs)))" by simp
  then show ?thesis using none assms(3) by (simp add: with_from_def str_token_def)
qed

lemma ParseMessage_cong:
  assumes "\<And>k. k \<in> {''type'', ''from'', ''to'', ''role'', ''stream_id'', ''device_id'', ''id'', ''sdp'', ''mid'', ''candidate''}
      \<Longrightarrow> ExtractJsonString l k = ExtractJsonString l' k"
    and "\<And>k d. k \<in> {''v'', ''stream_index'', ''mlineIndex''} \<Longrightarrow> ExtractJsonInt l k d = ExtractJsonInt l' k d"
    and "l \<noteq> []" "l' \<noteq> []"
  shows "parse_line l = parse_line l'"
proof -
  have "parse_body l m = parse_body l' m" for m
    by (cases "m_type m") (simp_all add: parse_body_def assms(1,2))
  then show ?thesis by (simp add: parse_line_def ParseMessage_def assms Let_def)
qed

lemma lookup_str_append:
  "lookup_str k (fs @ [JStr k' v]) =
     (if \<exists>w. JStr k w \<in> set fs then lookup_str k fs else if k' = k then v else [])"
  by (induction k fs rule: lookup_str.induct) auto

lemma lookup_str_append_other: "k \<noteq> k' \<Longrightarrow> lookup_str k (fs @ [JStr k' v]) = lookup_str k fs"
  by (induction k fs rule: lookup_str.induct) auto

lemma lookup_int_append: "lookup_int k d (fs @ [JStr k' v]) = lookup_int k d fs"
  by (induction k d fs rule: lookup_int.induct) auto

lemma message_fields_from:
  assumes "m_from m = []" "pid \<noteq> []"
  shows "lookup_str k (message_fields (m\<lparr>m_from := pid\<rparr>)) = lookup_str k (message_fields m @ [JStr ''from'' pid])"
    and "lookup_int k d (message_fields (m\<lparr>m_from := pid\<rparr>)) = lookup_int k d (message_fields m)"
    and "\<forall>v. JStr ''from'' v \<notin> set (message_fields m)"
  using assms
  by (cases "m_type m"; auto simp: message_fields_def registration_fields_def)+

text \<open>A forwarded line is read by the receiver as the original message with the sender filled in.\<close>

lemma with_from_message:
  assumes "message_ints_ok m" "m_type m \<noteq> kUnknown" "m_from m = []" "plain pid" "pid \<noteq> []"
  obtains out where "with_from (BuildMessageLine m) pid = Some out"
    and "parse_line out = Some (wire_message (m\<lparr>m_from := pid\<rparr>))"
proof -
  let ?fs = "message_fields m" and ?n = "m\<lparr>m_from := pid\<rparr>"
  obtain f gs where fs: "?fs = f # gs" by (cases ?fs) auto
  have good: "good_fields ?fs" using assms(1) by (rule good_message_fields)
  have w: "with_from (BuildMessageLine m) pid = Some (jline (?fs @ [JStr ''from'' pid]))"
    unfolding BuildMessageLine_fields fs
    using with_from_jline [of f gs pid] good message_fields_from(3) [OF assms(3)] assms(4,5) fs by auto
  have n: "message_ints_ok ?n" "m_type ?n \<noteq> kUnknown" using assms(1,2) by (simp_all add: message_ints_ok_def)
  have gn: "good_fields (message_fields ?n)" using n(1) by (rule good_message_fields)
  have "parse_line (jline (?fs @ [JStr ''from'' pid])) = parse_line (BuildMessageLine ?n)"
  proof (rule ParseMessage_cong)
    fix k assume "k \<in> {''type'', ''from'', ''to'', ''role'', ''stream_id'', ''device_id'', ''id'', ''sdp'', ''mid'', ''candidate''}"
    then have "good_key k" by auto
    then show "ExtractJsonString (jline (?fs @ [JStr ''from'' pid])) k = ExtractJsonString (BuildMessageLine ?n) k"
      unfolding BuildMessageLine_fields using good gn message_fields_from(1) [OF assms(3,5)]
      by (simp add: extract_str_jline)
  next
    fix k d assume k: "k \<in> {''v'', ''stream_index'', ''mlineIndex''}"
    then have "good_key k" "k \<noteq> ''from''" by auto
    then show "ExtractJsonInt (jline (?fs @ [JStr ''from'' pid])) k d = ExtractJsonInt (BuildMessageLine ?n) k d"
      unfolding BuildMessageLine_fields
      using good gn int_keys_not_strings [OF k] message_fields_from(2) [OF assms(3,5)]
      by (simp add: extract_int_jline lookup_int_append)
  qed (simp_all add: BuildMessageLine_fields)
  then show ?thesis using that w parse_line_BuildMessageLine [OF n] by simp
qed

section \<open>Properties of the relay\<close>

text \<open>A relay with one publisher and one subscriber of stream \<^verbatim>\<open>a\<close> and one queued answer.\<close>

definition demo_answer :: Message where
  "demo_answer = default_message\<lparr>m_type := kOffer, m_to := ''sub-2'', m_sdp := ''v=0''\<rparr>"

definition demo_client :: "int \<Rightarrow> string \<Rightarrow> string \<Rightarrow> Client" where
  "demo_client fd pid role = \<lparr>c_fd = fd, c_read_buf = [], c_parse_off = 0, c_registered = True,
     c_stream_id = ''a'', c_peer_id = pid, c_role = role, c_dead = False\<rparr>"

definition demo_relay :: "nat \<Rightarrow> Message \<Rightarrow> Server" where
  "demo_relay i m =
     \<lparr>g_publishers = [(''a'', (5, ''pub-1''))], g_subscribers = [(''a'', [(''sub-2'', 6)])],
      g_fd_to_info = [(5, (''a'', ''pub-1'', ''publisher'')), (6, (''a'', ''sub-2'', ''subscriber''))],
      g_peer_seq = 3, g_clients = [(5, 0), (6, 1)],
      g_workers = \<lparr>queues = [[\<lparr>t_client = i, t_line = BuildMessageLine m\<rparr>]],
        queue_bytes = [length (BuildMessageLine m)],
        max_queue_lines = 4, max_queue_bytes = length (BuildMessageLine m)\<rparr>,
      client_heap = [0 \<mapsto> demo_client 5 ''pub-1'' ''publisher'', 1 \<mapsto> demo_client 6 ''sub-2'' ''subscriber''],
      next_client = 2, open_fds = {5, 6}, max_read_buf = 100, sv_log = []\<rparr>"

lemma demo_relay_ok: "server_ok (demo_relay i m)"
proof -
  have "peer_name ''publisher'' 1 = ''pub-1''" "peer_name ''subscriber'' 2 = ''sub-2''"
    by code_simp+
  then have n: "\<exists>n < 3. ''pub-1'' = peer_name ''publisher'' n" "\<exists>n < 3. ''sub-2'' = peer_name ''subscriber'' n"
    by (intro exI [of _ 1], simp, intro exI [of _ 2], simp)
  have "tables_ok (info_of (demo_relay i m)) (pub_of (demo_relay i m)) (sub_of (demo_relay i m))"
    by (auto simp: tables_ok_def info_of_def pub_of_def sub_of_def stream_subs_def demo_relay_def split: if_splits)
  moreover have "clients_ok (info_of (demo_relay i m)) (client_of (demo_relay i m))
      (client_heap (demo_relay i m)) (next_client (demo_relay i m)) (max_read_buf (demo_relay i m))"
    by (auto simp: clients_ok_def client_ok_def info_of_def client_of_def demo_relay_def demo_client_def split: if_splits)
  moreover have "ids_ok (info_of (demo_relay i m)) (open_fds (demo_relay i m)) (g_peer_seq (demo_relay i m))"
    unfolding ids_ok_def using n
    by (auto simp: info_of_def demo_relay_def split: if_splits)
  moreover have "workers_ok (g_workers (demo_relay i m))"
    by (simp add: workers_ok_def demo_relay_def)
  moreover have "subs_ok (demo_relay i m)" by (simp add: subs_ok_def demo_relay_def)
  ultimately show ?thesis by (simp add: server_ok_def)
qed


definition accepted_relay :: Server where
  "accepted_relay = accept_client 5 (Some (BuildRegisterLine sample_register, [])) True [] (init_server 4 16 4096 4096)"

lemma accepted_relay_reachable: "sv_reachable accepted_relay"
  unfolding accepted_relay_def
  by (rule reach_step [OF reach_init step_accept]) (simp_all add: init_server_def)




subsection \<open>Routing\<close>

lemma ForwardLine_log_cases:
  "sv_log (ForwardLineWithFrom fd line pid s) = sv_log s
   \<or> (\<exists>l. sv_log (ForwardLineWithFrom fd line pid s) = sv_log s @ [Sent fd l])"
  by (auto simp: ForwardLineWithFrom_def SendJsonLine_def split: option.split)

lemma publisher_fd_info:
  assumes "server_ok s" "0 \<le> publisher_fd st s"
  obtains pid where "info_of s (publisher_fd st s) = Some (st, pid, ''publisher'')"
  using assms unfolding publisher_fd_def
  by (auto simp: server_ok_def tables_ok_def pub_of_def split: option.splits)

lemma subscriber_fd_sub_of:
  "subscriber_fd st pid s = (case sub_of s st pid of None \<Rightarrow> -1 | Some fd \<Rightarrow> fd)"
  by (auto simp: subscriber_fd_def sub_of_def stream_subs_def split: option.split)

lemma subscriber_fd_info:
  assumes "server_ok s" "0 \<le> subscriber_fd st pid s"
  shows "info_of s (subscriber_fd st pid s) = Some (st, pid, ''subscriber'')"
proof (cases "sub_of s st pid")
  case None
  then show ?thesis using assms(2) by (simp add: subscriber_fd_sub_of)
next
  case (Some fd)
  moreover from Some have "info_of s fd = Some (st, pid, ''subscriber'')"
    using assms(1) by (simp add: server_ok_def tables_ok_def)
  ultimately show ?thesis by (simp add: subscriber_fd_sub_of)
qed

lemma lock_client_iff:
  "lock_client s i = Some c \<longleftrightarrow> (\<exists>fd. client_of s fd = Some i) \<and> client_heap s i = Some c"
proof -
  have "(\<exists>fd \<in> set (keys (g_clients s)). map_of (g_clients s) fd = Some i) \<longleftrightarrow> (\<exists>fd. client_of s fd = Some i)"
    using map_of_SomeD [of "g_clients s" _ i] unfolding client_of_def by (metis image_eqI fst_conv set_map)
  then show ?thesis by (simp add: lock_client_def)
qed

lemma lock_client_live:
  assumes "server_ok s" "lock_client s i = Some c"
  shows "client_of s (c_fd c) = Some i \<and> \<not> c_dead c \<and> info_of s (c_fd c) = Some (c_stream_id c, c_peer_id c, c_role c)"
proof -
  obtain fd where fd: "client_of s fd = Some i" and c: "client_heap s i = Some c"
    using assms(2) by (auto simp: lock_client_iff)
  then obtain c' where "client_heap s i = Some c'" "client_ok (max_read_buf s) fd (info_of s fd) c'"
    using held_live [OF assms(1)] by blast
  with c fd show ?thesis by (auto simp: client_ok_def)
qed

lemma lock_client_workers [simp]: "lock_client (s\<lparr>g_workers := w\<rparr>) i = lock_client s i"
  by (simp add: lock_client_def)

lemma registered_open: "server_ok s \<Longrightarrow> info_of s fd = Some x \<Longrightarrow> 0 \<le> fd \<and> fd \<in> open_fds s"
  unfolding server_ok_def ids_ok_def by (cases x) blast

lemma RouteSubscriber_isolated:
  assumes "server_ok s"
  shows "sv_log (RouteSubscriberMessage st line from_id s) = sv_log s
    \<or> (\<exists>fd pid l. sv_log (RouteSubscriberMessage st line from_id s) = sv_log s @ [Sent fd l]
         \<and> info_of s fd = Some (st, pid, ''publisher''))"
proof (cases "publisher_fd st s < 0")
  case False
  then obtain pid where "info_of s (publisher_fd st s) = Some (st, pid, ''publisher'')"
    using publisher_fd_info [OF assms, of st] by force
  then show ?thesis
    using False ForwardLine_log_cases [of "publisher_fd st s" line from_id s]
    by (auto simp: RouteSubscriberMessage_def)
qed (simp add: RouteSubscriberMessage_def)

lemma RoutePublisher_isolated:
  assumes "server_ok s"
  shows "sv_log (RoutePublisherMessage st line from_id s) = sv_log s
    \<or> (\<exists>fd l. sv_log (RoutePublisherMessage st line from_id s) = sv_log s @ [Sent fd l]
         \<and> info_of s fd = Some (st, ExtractJsonString line ''to'', ''subscriber''))"
proof (cases "ExtractJsonString line ''to'' = [] \<or> subscriber_fd st (ExtractJsonString line ''to'') s < 0")
  case False
  then show ?thesis
    using subscriber_fd_info [OF assms, of st "ExtractJsonString line ''to''"]
      ForwardLine_log_cases [of "subscriber_fd st (ExtractJsonString line ''to'') s" line from_id s]
    by (auto simp: RoutePublisherMessage_def Let_def)
qed (auto simp: RoutePublisherMessage_def Let_def)



text \<open>The queued line of a registered client reaches the routing function of its role.\<close>

lemma RunShard_round_routes:
  assumes "server_ok s" "queues (g_workers s) ! k = task # rest" "k < length (queues (g_workers s))"
    and "client_of s fd = Some (t_client task)" "info_of s fd = Some (st, pid, r)"
  obtains w where "server_ok (s\<lparr>g_workers := w\<rparr>)"
    and "RunShard_round k s =
      (if r = ''publisher'' then RoutePublisherMessage st (t_line task) pid (s\<lparr>g_workers := w\<rparr>)
       else RouteSubscriberMessage st (t_line task) pid (s\<lparr>g_workers := w\<rparr>))"
proof -
  obtain w where d: "Dequeue k (g_workers s) = Some (task, w)"
    using assms(2) by (simp add: Dequeue_def Let_def)
  have ok: "server_ok (s\<lparr>g_workers := w\<rparr>)"
    using assms(1,3) d Dequeue_ok [OF _ d] by (simp add: server_ok_def)
  obtain c where c: "client_heap s (t_client task) = Some c" "client_ok (max_read_buf s) fd (info_of s fd) c"
    using held_live [OF assms(1,4)] by blast
  then have l: "lock_client s (t_client task) = Some c" using assms(4) by (auto simp: lock_client_iff)
  have "r \<in> {''publisher'', ''subscriber''}"
    using assms(1,5) unfolding server_ok_def tables_ok_def by blast
  then show ?thesis
    using that [of w] ok l c(2) assms(5) by (auto simp: RunShard_round_def d client_ok_def)
qed

lemma registered_id_plain:
  assumes "server_ok s" "info_of s fd = Some (st, pid, r)"
  shows "plain pid" "pid \<noteq> []"
proof -
  obtain n where "pid = peer_name r n" using assms unfolding server_ok_def ids_ok_def by blast
  then show "plain pid" "pid \<noteq> []" by simp_all
qed

lemma Forward_delivers:
  assumes "0 \<le> fd" "message_ints_ok m" "m_type m \<noteq> kUnknown" "m_from m = []" "plain pid" "pid \<noteq> []"
  shows "\<exists>l. sv_log (ForwardLineWithFrom fd (BuildMessageLine m) pid s) = sv_log s @ [Sent fd l]
      \<and> parse_line l = Some (wire_message (m\<lparr>m_from := pid\<rparr>))"
proof -
  obtain out where "with_from (BuildMessageLine m) pid = Some out"
    and "parse_line out = Some (wire_message (m\<lparr>m_from := pid\<rparr>))"
    using with_from_message [OF assms(2-6)] by blast
  then show ?thesis using assms(1) by (simp add: ForwardLineWithFrom_def SendJsonLine_def)
qed

lemma ExtractJsonString_to: "message_ints_ok m \<Longrightarrow> ExtractJsonString (BuildMessageLine m) ''to'' = m_to m"
  unfolding BuildMessageLine_fields
  by (simp add: extract_str_jline good_message_fields lookup_message_common)

text \<open>
  C7: A message of a registered publisher that names a subscriber of its stream is delivered
  to that subscriber's socket and to nobody else, and the subscriber reads the same message
  with the publisher's id as its sender.
\<close>

theorem publisher_message_delivered:
  assumes "server_ok s" and "k < length (queues (g_workers s))"
    and "queues (g_workers s) ! k = \<lparr>t_client = i, t_line = BuildMessageLine m\<rparr> # rest"
    and "client_of s pfd = Some i" and "info_of s pfd = Some (st, pid, ''publisher'')"
    and "info_of s sfd = Some (st, m_to m, ''subscriber'')"
    and "message_ints_ok m" and "m_type m \<noteq> kUnknown" and "m_from m = []"
  shows "\<exists>l. sv_log (RunShard_round k s) = sv_log s @ [Sent sfd l]
    \<and> parse_line l = Some (wire_message (m\<lparr>m_from := pid\<rparr>))"
proof -
  obtain w where ok: "server_ok (s\<lparr>g_workers := w\<rparr>)"
    and r: "RunShard_round k s = RoutePublisherMessage st (BuildMessageLine m) pid (s\<lparr>g_workers := w\<rparr>)"
    using RunShard_round_routes [OF assms(1,3,2) _ assms(5)] assms(4) by auto
  have "sub_of s st (m_to m) = Some sfd" "m_to m \<noteq> []"
    using assms(1,6) unfolding server_ok_def tables_ok_def by blast+
  moreover have "0 \<le> sfd" using registered_open [OF assms(1,6)] by simp
  ultimately show ?thesis
    using Forward_delivers [OF _ assms(7-9), of sfd pid "s\<lparr>g_workers := w\<rparr>"] registered_id_plain [OF assms(1,5)]
    by (simp add: r RoutePublisherMessage_def ExtractJsonString_to [OF assms(7)] subscriber_fd_sub_of Let_def)
qed

theorem publisher_message_delivered_witness:
  "\<exists>l. sv_log (RunShard_round 0 (demo_relay 0 demo_answer)) = sv_log (demo_relay 0 demo_answer) @ [Sent 6 l]
    \<and> parse_line l = Some (wire_message (demo_answer\<lparr>m_from := ''pub-1''\<rparr>))"
  by (rule publisher_message_delivered [OF demo_relay_ok, of 0 0 demo_answer 0 demo_answer "[]" 5 "''a''"])
    (simp_all add: demo_relay_def demo_answer_def client_of_def info_of_def message_ints_ok_def
      default_message_def default_registration_def)

text \<open>
  A message of a registered subscriber is delivered to the publisher of its stream and to
  nobody else, with the subscriber's id as its sender.
\<close>

theorem subscriber_message_delivered:
  assumes "server_ok s" and "k < length (queues (g_workers s))"
    and "queues (g_workers s) ! k = \<lparr>t_client = i, t_line = BuildMessageLine m\<rparr> # rest"
    and "client_of s sfd = Some i" and "info_of s sfd = Some (st, sid, ''subscriber'')"
    and "info_of s pfd = Some (st, pid, ''publisher'')"
    and "message_ints_ok m" and "m_type m \<noteq> kUnknown" and "m_from m = []"
  shows "\<exists>l. sv_log (RunShard_round k s) = sv_log s @ [Sent pfd l]
    \<and> parse_line l = Some (wire_message (m\<lparr>m_from := sid\<rparr>))"
proof -
  obtain w where ok: "server_ok (s\<lparr>g_workers := w\<rparr>)"
    and r: "RunShard_round k s = RouteSubscriberMessage st (BuildMessageLine m) sid (s\<lparr>g_workers := w\<rparr>)"
    using RunShard_round_routes [OF assms(1,3,2) _ assms(5)] assms(4) by auto
  have "pub_of s st = Some (pfd, pid)"
    using assms(1,6) unfolding server_ok_def tables_ok_def by blast
  then have "publisher_fd st (s\<lparr>g_workers := w\<rparr>) = pfd" by (simp add: publisher_fd_def pub_of_def)
  moreover have "0 \<le> pfd" using registered_open [OF assms(1,6)] by simp
  ultimately show ?thesis
    using Forward_delivers [OF _ assms(7-9), of pfd sid "s\<lparr>g_workers := w\<rparr>"] registered_id_plain [OF assms(1,5)]
    by (simp add: r RouteSubscriberMessage_def Let_def)
qed

theorem subscriber_message_delivered_witness:
  "\<exists>l. sv_log (RunShard_round 0 (demo_relay 1 demo_answer)) = sv_log (demo_relay 1 demo_answer) @ [Sent 5 l]
    \<and> parse_line l = Some (wire_message (demo_answer\<lparr>m_from := ''sub-2''\<rparr>))"
  by (rule subscriber_message_delivered [OF demo_relay_ok, of 0 1 demo_answer 1 demo_answer "[]" 6 "''a''"])
    (simp_all add: demo_relay_def demo_answer_def client_of_def info_of_def message_ints_ok_def
      default_message_def default_registration_def)

subsection \<open>Registration and departure\<close>

definition requested_stream :: "RegisterRequest \<Rightarrow> string" where
  "requested_stream req =
     (let r = wire_registration req in if reg_stream_id r = [] then ''livestream'' else reg_stream_id r)"

lemma role_token_field: "role_token r = field_text ''role'' r"
  by (simp add: role_token_def str_token_def field_text_def)

lemma wire_registration_simps [simp]:
  "reg_role (wire_registration req) = reg_role req" "reg_stream_index (wire_registration req) = reg_stream_index req"
  by (simp_all add: wire_registration_def)

lemma register_line_role:
  assumes "int32_range (reg_stream_index req)" "r \<noteq> RoleUnknown"
  shows "contains_sub (role_token (PeerRole_ToString r)) (BuildRegisterLine req) \<longleftrightarrow> reg_role req = r"
proof -
  let ?fs = "[JStr ''type'' ''register'', JInt ''v'' kSignalingProtocolVersion] @ registration_fields (wire_registration req)"
  have "plain (PeerRole_ToString r)" by (cases r) (simp_all add: plain_def)
  moreover have "good_fields ?fs" using assms(1) by (simp add: good_registration_fields)
  ultimately have "contains_sub (role_token (PeerRole_ToString r)) (BuildRegisterLine req)
      \<longleftrightarrow> JStr ''role'' (PeerRole_ToString r) \<in> set ?fs"
    unfolding BuildRegisterLine_fields role_token_field by (intro contains_field_jline) simp_all
  also have "\<dots> \<longleftrightarrow> reg_role req = r"
    using assms(2) by (cases r; cases "reg_role req") (auto simp: registration_fields_def)
  finally show ?thesis .
qed

lemma register_line_stream:
  assumes "int32_range (reg_stream_index req)"
  shows "register_stream (BuildRegisterLine req) = requested_stream req"
proof -
  have "ExtractJsonString (BuildRegisterLine req) ''stream_id'' = reg_stream_id (wire_registration req)"
    unfolding BuildRegisterLine_fields using assms
    by (subst extract_str_jline) (auto simp: good_registration_fields registration_fields_def)
  then show ?thesis by (simp add: register_stream_def requested_stream_def Let_def)
qed

lemma HandleInitialRegister_line:
  assumes "int32_range (reg_stream_index req)"
  shows "HandleInitialRegister fd (BuildRegisterLine req) s =
    (case reg_role req of
       RolePublisher \<Rightarrow> (True, register_publisher fd (requested_stream req) s)
     | RoleSubscriber \<Rightarrow> (True, register_subscriber fd (requested_stream req) s)
     | RoleUnknown \<Rightarrow> (False, s))"
  using register_line_role [OF assms, of RolePublisher] register_line_role [OF assms, of RoleSubscriber]
    register_line_stream [OF assms]
  by (cases "reg_role req") (simp_all add: HandleInitialRegister_def)

lemma fold_SendJsonLine_eq:
  "0 \<le> fd \<Longrightarrow> sv_log (fold (\<lambda>kv. SendJsonLine fd (f kv)) kvs s) = sv_log s @ map (\<lambda>kv. Sent fd (f kv)) kvs"
  by (induction kvs arbitrary: s) (simp_all add: SendJsonLine_def)

lemma replace_publisher_log:
  assumes "server_ok s"
  shows "sv_log (replace_publisher st s) =
    sv_log s @ (case pub_of s st of None \<Rightarrow> [] | Some (old, _) \<Rightarrow> [Closed old])"
proof (cases "pub_of s st")
  case (Some x)
  obtain old pid where x: "x = (old, pid)" by (cases x)
  then have "info_of s old = Some (st, pid, ''publisher'')"
    using assms Some unfolding server_ok_def tables_ok_def by blast
  then have "0 \<le> old" using registered_open [OF assms] by blast
  then show ?thesis
    using Some x by (auto simp: replace_publisher_def pub_of_def CloseClientFd_def mark_dead_def
        update_client_def Let_def split: option.split)
qed (simp add: replace_publisher_def pub_of_def)

lemma replace_publisher_info:
  assumes "server_ok s"
  shows "info_of (replace_publisher st s) =
    (case pub_of s st of None \<Rightarrow> info_of s | Some (old, _) \<Rightarrow> (info_of s)(old := None))"
proof (cases "pub_of s st")
  case (Some x)
  obtain old pid where x: "x = (old, pid)" by (cases x)
  then have "info_of s old = Some (st, pid, ''publisher'')"
    using assms Some unfolding server_ok_def tables_ok_def by blast
  then have "0 \<le> old" using registered_open [OF assms] by blast
  then show ?thesis
    using Some x by (auto simp: replace_publisher_def pub_of_def info_of_def CloseClientFd_def mark_dead_def
        update_client_def Let_def fun_eq_iff split: option.split)
qed (simp add: replace_publisher_def pub_of_def)

lemma add_client_frame [simp]:
  "g_publishers (add_client fd st pid r s) = g_publishers s"
  "g_subscribers (add_client fd st pid r s) = g_subscribers s"
  "g_fd_to_info (add_client fd st pid r s) = g_fd_to_info s"
  "sv_log (add_client fd st pid r s) = sv_log s"
  by (simp_all add: add_client_def)

lemma SendJsonLine_frame [simp]:
  "g_publishers (SendJsonLine fd l s) = g_publishers s"
  "g_subscribers (SendJsonLine fd l s) = g_subscribers s"
  "g_fd_to_info (SendJsonLine fd l s) = g_fd_to_info s"
  "0 \<le> fd \<Longrightarrow> sv_log (SendJsonLine fd l s) = sv_log s @ [Sent fd l]"
  by (simp_all add: SendJsonLine_def)

lemma fold_SendJsonLine_frame [simp]:
  "g_publishers (fold (\<lambda>kv. SendJsonLine fd (f kv)) kvs s) = g_publishers s"
  "g_fd_to_info (fold (\<lambda>kv. SendJsonLine fd (f kv)) kvs s) = g_fd_to_info s"
  by (induction kvs arbitrary: s) simp_all

lemma replace_publisher_frame [simp]:
  "g_publishers (replace_publisher st s) = g_publishers s"
  "g_subscribers (replace_publisher st s) = g_subscribers s"
  "replace_publisher st (s\<lparr>g_peer_seq := q\<rparr>) = (replace_publisher st s)\<lparr>g_peer_seq := q\<rparr>"
  by (cases s; auto simp: replace_publisher_def CloseClientFd_def mark_dead_def update_client_def
      Let_def split: option.split)+

lemma register_publisher_pub:
  "pub_of (register_publisher fd st s) st = Some (fd, peer_name ''publisher'' (uint (g_peer_seq s)))"
  by (simp add: register_publisher_def NextPeerId_name Let_def pub_of_def)

lemma register_publisher_info:
  "info_of (register_publisher fd st s) =
     (info_of (replace_publisher st s))(fd \<mapsto> (st, peer_name ''publisher'' (uint (g_peer_seq s)), ''publisher''))"
  by (simp add: register_publisher_def NextPeerId_name Let_def info_of_def fun_eq_iff)

lemma register_publisher_log:
  assumes "0 \<le> fd"
  shows "sv_log (register_publisher fd st s) = sv_log (replace_publisher st s)
    @ Sent fd (json_welcome (peer_name ''publisher'' (uint (g_peer_seq s))))
    # map (\<lambda>kv. Sent fd (json_event ''subscriber_join'' (fst kv))) (stream_subs st s)"
  using assms by (simp add: register_publisher_def NextPeerId_name Let_def fold_SendJsonLine_eq stream_subs_def)

text \<open>
  C8: A publisher that sends its registration line is entered in the tables under the stream it
  asked for; the previous publisher of that stream is disconnected and unregistered, and the
  new one receives a welcome with its id followed by one join notice for every subscriber
  already waiting on the stream.
\<close>

theorem publisher_registration:
  assumes "server_ok s" and "0 \<le> fd" and "reg_role req = RolePublisher"
    and "int32_range (reg_stream_index req)"
    and "HandleInitialRegister fd (BuildRegisterLine req) s = (r, s')"
  shows "r \<and> (let st = requested_stream req; pid = peer_name ''publisher'' (uint (g_peer_seq s))
     in pub_of s' st = Some (fd, pid) \<and> info_of s' fd = Some (st, pid, ''publisher'')
        \<and> (\<forall>old p. pub_of s st = Some (old, p) \<and> old \<noteq> fd \<longrightarrow> info_of s' old = None)
        \<and> sv_log s' = sv_log s @ (case pub_of s st of None \<Rightarrow> [] | Some (old, _) \<Rightarrow> [Closed old])
                      @ Sent fd (json_welcome pid)
                      # map (\<lambda>kv. Sent fd (json_event ''subscriber_join'' (fst kv))) (stream_subs st s))"
proof -
  have "r" and s': "s' = register_publisher fd (requested_stream req) s"
    using assms(3-5) by (auto simp: HandleInitialRegister_line)
  have "info_of s' old = None" if "pub_of s (requested_stream req) = Some (old, p)" "old \<noteq> fd" for old p
    using that replace_publisher_info [OF assms(1), of "requested_stream req"]
    by (simp add: s' register_publisher_info)
  then show ?thesis
    unfolding Let_def s' register_publisher_log [OF assms(2)] replace_publisher_log [OF assms(1)]
    using \<open>r\<close> by (simp add: register_publisher_pub register_publisher_info)
qed

definition demo_request :: "PeerRole \<Rightarrow> RegisterRequest" where
  "demo_request role = \<lparr>reg_role = role, reg_stream_id = ''a'', reg_device_id = [], reg_stream_index = -1\<rparr>"

theorem publisher_registration_witness:
  "let s' = snd (HandleInitialRegister 9 (BuildRegisterLine (demo_request RolePublisher)) (demo_relay 0 demo_answer))
   in pub_of s' ''a'' = Some (9, peer_name ''publisher'' 3) \<and> info_of s' 5 = None
      \<and> sv_log s' = [Closed 5, Sent 9 (json_welcome (peer_name ''publisher'' 3)),
                     Sent 9 (json_event ''subscriber_join'' ''sub-2'')]"
proof -
  let ?s = "demo_relay 0 demo_answer"
  obtain r s' where h: "HandleInitialRegister 9 (BuildRegisterLine (demo_request RolePublisher)) ?s = (r, s')"
    by (cases "HandleInitialRegister 9 (BuildRegisterLine (demo_request RolePublisher)) ?s")
  have st: "requested_stream (demo_request RolePublisher) = ''a''"
    by (simp add: requested_stream_def wire_registration_def demo_request_def Let_def)
  have "pub_of ?s ''a'' = Some (5, ''pub-1'')" "stream_subs ''a'' ?s = [(''sub-2'', 6)]"
    "g_peer_seq ?s = 3" "sv_log ?s = []"
    by (simp_all add: demo_relay_def pub_of_def stream_subs_def)
  then show ?thesis
    using publisher_registration [OF demo_relay_ok _ _ _ h] st h by (simp add: demo_request_def Let_def)
qed

lemma register_subscriber_views:
  assumes "server_ok s" and "0 \<le> fd"
  shows "let pid = peer_name ''subscriber'' (uint (g_peer_seq s)); s' = register_subscriber fd st s
     in sub_of s' = (sub_of s)(st := (sub_of s st)(pid \<mapsto> fd))
        \<and> info_of s' = (info_of s)(fd \<mapsto> (st, pid, ''subscriber''))
        \<and> pub_of s' = pub_of s
        \<and> sv_log s' = sv_log s @ Sent fd (json_welcome pid)
             # (case pub_of s st of None \<Rightarrow> []
                | Some (pfd, _) \<Rightarrow> [Sent pfd (json_event ''subscriber_join'' pid)])"
proof -
  let ?pid = "peer_name ''subscriber'' (uint (g_peer_seq s))"
  define s' where "s' = register_subscriber fd st s"
  have pfd: "0 \<le> f" if "pub_of s st = Some (f, p)" for f p
  proof -
    have "info_of s f = Some (st, p, ''publisher'')"
      using assms(1) that unfolding server_ok_def tables_ok_def by blast
    then show ?thesis using registered_open [OF assms(1)] by blast
  qed
  define u where "u = SendJsonLine fd (json_welcome ?pid) (add_client fd st ?pid ''subscriber''
    (s\<lparr>g_peer_seq := g_peer_seq s + 1,
       g_subscribers := AList.update st (AList.update ?pid fd (stream_subs st s)) (g_subscribers s),
       g_fd_to_info := AList.update fd (st, ?pid, ''subscriber'') (g_fd_to_info s)\<rparr>))"
  have e: "s' = NotifyPublisherSubscriberEvent st ''subscriber_join'' ?pid u"
    unfolding s'_def register_subscriber_def NextPeerId_name by (simp add: u_def Let_def stream_subs_def)
  have log: "log_step u s'" by (simp add: e)
  have u: "info_of u = (info_of s)(fd \<mapsto> (st, ?pid, ''subscriber''))" "pub_of u = pub_of s"
    "sub_of u = (sub_of s)(st := (sub_of s st)(?pid \<mapsto> fd))" "sv_log u = sv_log s @ [Sent fd (json_welcome ?pid)]"
    using assms(2)
    by (auto simp: u_def info_of_def pub_of_def sub_of_def stream_subs_def fun_eq_iff split: option.split)
  have "sv_log s' = sv_log u @ (case pub_of s st of None \<Rightarrow> []
                | Some (f, _) \<Rightarrow> [Sent f (json_event ''subscriber_join'' ?pid)])"
    using u(2) pfd
    by (auto simp: e NotifyPublisherSubscriberEvent_def publisher_fd_def pub_of_def Let_def split: option.split)
  then show ?thesis using u log_step_views [OF log] by (simp add: Let_def s'_def)
qed

text \<open>
  A subscriber that sends its registration line is entered under the stream it asked for
  and receives a welcome with its id; the publisher of the stream, when there is one, is told
  of the join with that id. No other entry changes.
\<close>

theorem subscriber_registration:
  assumes "server_ok s" and "0 \<le> fd" and "reg_role req = RoleSubscriber"
    and "int32_range (reg_stream_index req)"
    and "HandleInitialRegister fd (BuildRegisterLine req) s = (r, s')"
  shows "r \<and> (let st = requested_stream req; pid = peer_name ''subscriber'' (uint (g_peer_seq s))
     in sub_of s' = (sub_of s)(st := (sub_of s st)(pid \<mapsto> fd))
        \<and> info_of s' = (info_of s)(fd \<mapsto> (st, pid, ''subscriber''))
        \<and> pub_of s' = pub_of s
        \<and> sv_log s' = sv_log s @ Sent fd (json_welcome pid)
             # (case pub_of s st of None \<Rightarrow> []
                | Some (pfd, _) \<Rightarrow> [Sent pfd (json_event ''subscriber_join'' pid)]))"
proof -
  have "r \<and> s' = register_subscriber fd (requested_stream req) s"
    using assms(3-5) by (auto simp: HandleInitialRegister_line)
  then show ?thesis using register_subscriber_views [OF assms(1,2)] by (simp add: Let_def)
qed

theorem subscriber_registration_witness:
  "let s' = snd (HandleInitialRegister 9 (BuildRegisterLine (demo_request RoleSubscriber)) (demo_relay 0 demo_answer))
   in info_of s' 9 = Some (''a'', peer_name ''subscriber'' 3, ''subscriber'')
      \<and> sv_log s' = [Sent 9 (json_welcome (peer_name ''subscriber'' 3)),
                     Sent 5 (json_event ''subscriber_join'' (peer_name ''subscriber'' 3))]"
proof -
  let ?s = "demo_relay 0 demo_answer"
  obtain r s' where h: "HandleInitialRegister 9 (BuildRegisterLine (demo_request RoleSubscriber)) ?s = (r, s')"
    by (cases "HandleInitialRegister 9 (BuildRegisterLine (demo_request RoleSubscriber)) ?s")
  have st: "requested_stream (demo_request RoleSubscriber) = ''a''"
    by (simp add: requested_stream_def wire_registration_def demo_request_def Let_def)
  have "pub_of ?s ''a'' = Some (5, ''pub-1'')" "g_peer_seq ?s = 3" "sv_log ?s = []"
    by (simp_all add: demo_relay_def pub_of_def)
  then show ?thesis
    using subscriber_registration [OF demo_relay_ok _ _ _ h] st h by (simp add: demo_request_def Let_def)
qed

lemma DisconnectClient_log:
  assumes "server_ok s" "client_of s fd = Some i" "info_of s fd = Some (st, pid, r)"
  shows "sv_log (DisconnectClient fd (Some i) s) = sv_log s @ Closed fd
      # (if r = ''subscriber'' then (case pub_of s st of None \<Rightarrow> []
           | Some (pfd, _) \<Rightarrow> [Sent pfd (json_event ''subscriber_leave'' pid)]) else [])"
proof -
  have fd: "0 \<le> fd" using registered_open [OF assms(1,3)] by simp
  have r: "r = ''publisher'' \<or> r = ''subscriber''" and ne: "st \<noteq> []" "pid \<noteq> []"
    using assms(1,3) unfolding server_ok_def tables_ok_def by blast+
  have pfd: "0 \<le> f" if "pub_of s st = Some (f, p)" for f p
  proof -
    have "info_of s f = Some (st, p, ''publisher'')"
      using assms(1) that unfolding server_ok_def tables_ok_def by blast
    then show ?thesis using registered_open [OF assms(1)] by blast
  qed
  show ?thesis
  proof (cases "r = ''publisher''")
    case True
    then have "pub_of s st = Some (fd, pid)"
      using assms(1,3) unfolding server_ok_def tables_ok_def by blast
    then show ?thesis
      using True assms(2,3) fd
      by (simp add: DisconnectClient_def RemoveClientResources_def info_of_def pub_of_def CloseClientFd_def
          mark_dead_def update_client_def remove_publisher_def NotifyPublisherSubscriberEvent_def publisher_fd_def Let_def)
  next
    case False
    have g: "g_publishers (remove_subscriber st pid u) = g_publishers u" "sv_log (remove_subscriber st pid u) = sv_log u" for u
      by (simp_all add: remove_subscriber_def Let_def split: option.split)
    show ?thesis
      using False r assms(3) fd ne pfd
      by (auto simp: DisconnectClient_def RemoveClientResources_def info_of_def pub_of_def CloseClientFd_def g
          mark_dead_def update_client_def NotifyPublisherSubscriberEvent_def publisher_fd_def Let_def split: option.splits)
  qed
qed

text \<open>
  C9: Disconnecting a registered client closes its socket, removes its entries from all tables
  and nothing else, makes its queued lines undeliverable, keeps the relay's invariant, and for
  a subscriber tells the publisher of its stream that it left.
\<close>

theorem disconnect_cleans_up:
  assumes "server_ok s" and "client_of s fd = Some i" and "info_of s fd = Some (st, pid, r)"
  shows "let s' = DisconnectClient fd (Some i) s
    in server_ok s' \<and> info_of s' = (info_of s)(fd := None) \<and> client_of s' = (client_of s)(fd := None)
       \<and> lock_client s' i = None
       \<and> sv_log s' = sv_log s @ Closed fd
           # (if r = ''subscriber'' then (case pub_of s st of None \<Rightarrow> []
                | Some (pfd, _) \<Rightarrow> [Sent pfd (json_event ''subscriber_leave'' pid)]) else [])"
proof -
  have d: "server_ok (DisconnectClient fd (Some i) s)"
    "info_of (DisconnectClient fd (Some i) s) = (info_of s)(fd := None)"
    "client_of (DisconnectClient fd (Some i) s) = (client_of s)(fd := None)"
    using DisconnectClient_ok [OF assms(1), of fd i] assms(2) by auto
  have "lock_client (DisconnectClient fd (Some i) s) i = None"
  proof (rule ccontr)
    assume "lock_client (DisconnectClient fd (Some i) s) i \<noteq> None"
    then obtain f where "client_of (DisconnectClient fd (Some i) s) f = Some i"
      using lock_client_iff by blast
    then have "f \<noteq> fd" "client_of s f = Some i" using d(3) by (auto split: if_splits)
    moreover have "clients_ok (info_of s) (client_of s) (client_heap s) (next_client s) (max_read_buf s)"
      using assms(1) by (simp add: server_ok_def)
    ultimately show False using clients_ok_address assms(2) by blast
  qed
  then show ?thesis using d DisconnectClient_log [OF assms] by (simp add: Let_def)
qed

theorem disconnect_cleans_up_witness:
  "let s' = DisconnectClient 6 (Some 1) (demo_relay 1 demo_answer)
   in server_ok s' \<and> lock_client s' 1 = None
      \<and> sv_log s' = [Closed 6, Sent 5 (json_event ''subscriber_leave'' ''sub-2'')]"
proof -
  let ?s = "demo_relay 1 demo_answer"
  have h: "client_of ?s 6 = Some 1" "info_of ?s 6 = Some (''a'', ''sub-2'', ''subscriber'')"
    "pub_of ?s ''a'' = Some (5, ''pub-1'')" "sv_log ?s = []"
    by (simp_all add: demo_relay_def client_of_def info_of_def pub_of_def)
  show ?thesis using disconnect_cleans_up [OF demo_relay_ok h(1,2)] h(3,4) by (simp add: Let_def)
qed

subsection \<open>What the step relation leaves out\<close>

text \<open>
  When the descriptor cannot be added to epoll, the connection is closed but its table entries
  stay: the descriptor is registered and not open.
\<close>

lemma epoll_failure_keeps_entry:
  assumes "server_ok s" "0 \<le> cfd" "cfd \<notin> open_fds s" "uint (g_peer_seq s) < 2 ^ 64 - 1"
    and "HandleInitialRegister cfd line (s\<lparr>open_fds := insert cfd (open_fds s)\<rparr>) = (True, t)"
    and "length rest \<le> max_read_buf t"
  shows "info_of (accept_client cfd (Some (line, rest)) False as s) cfd \<noteq> None
    \<and> cfd \<notin> open_fds (accept_client cfd (Some (line, rest)) False as s)"
proof -
  let ?s = "s\<lparr>open_fds := insert cfd (open_fds s)\<rparr>"
  have "info_of s cfd = None"
    using registered_open [OF assms(1)] assms(3) by (cases "info_of s cfd") blast+
  then have "server_ok t" "client_of t cfd \<noteq> None"
    using HandleInitialRegister_ok [of ?s cfd line True t] open_more_ok [OF assms(1)] assms(2,4,5) by auto
  then obtain i where i: "client_of t cfd = Some i" "info_of t cfd \<noteq> None"
    unfolding server_ok_def clients_ok_def by (metis not_None_eq)
  then have "accept_client cfd (Some (line, rest)) False as s =
      close_raw cfd (update_client i (\<lambda>c. c\<lparr>c_read_buf := rest, c_parse_off := 0\<rparr>) t)"
    using assms(5,6) by (simp add: accept_client_def client_of_def)
  then show ?thesis using i by (simp add: close_raw_def)
qed

text \<open>
  A line that carries its own sender field is forwarded unchanged, so a client can write any
  id into it.
\<close>

lemma forged_sender_kept:
  assumes "good_fields fs" "fs \<noteq> []" "JStr ''from'' v \<in> set fs"
  shows "with_from (jline fs) pid = Some (jline fs)"
proof -
  have "find_sub (str_token ''from'') (jline fs) \<noteq> None"
  proof
    assume none: "find_sub (str_token ''from'') (jline fs) = None"
    obtain xs ys where fs: "fs = xs @ JStr ''from'' v # ys" using assms(3) by (meson split_list)
    have "jline fs = (if xs = [] then [CHR ''{''] else jopen xs @ [CHR '','']) @ str_token ''from'' @
        EscapeJsonString v @ DQ # concat (map (\<lambda>g. CHR '','' # jtext g) ys) @ ''}''"
      unfolding fs by (cases xs) (simp_all add: str_token_def)
    moreover have "find_sub p (a @ p @ b) \<noteq> None" for p :: string and a b
    proof (induction a)
      case (Cons x a)
      then show ?case by simp
    qed simp
    ultimately show False using none by metis
  qed
  then show ?thesis by (simp add: with_from_def)
qed

end
