(* ===== verification/Signal_Session.thy ===== *)
theory Signal_Session
  imports Signal_Framing
begin

text \<open>
  The client side of signaling: dialling and sending (\<^verbatim>\<open>session_transport.cpp\<close>), the TCP session
  (\<^verbatim>\<open>tcp_session.cpp\<close>), the shared reader that serves all sessions of a process
  (\<^verbatim>\<open>shared_signaling_io_manager.h\<close>) and the publisher's callback adapter
  (\<^verbatim>\<open>src/service/impl/signaling/signaling_client.cpp\<close>). Sessions and slots live in heaps, the
  reader's table maps descriptors to slots, and what the code does to the outside (delegate
  calls, closed descriptors, bytes written) goes to a log. A public call and one event of the
  reader thread are atomic steps; delegate callbacks do not call back into the session.
\<close>

section \<open>State\<close>

record SessionConfig =
  sc_server_addr :: string
  sc_registration :: RegisterRequest
  sc_remember_last_remote_peer :: bool

record TcpClientSessionSlot =
  sl_owner :: "nat option"
  sl_fd :: int
  sl_active :: bool
  sl_read_buffer :: string
  sl_parse_offset :: nat

record TcpClientSession =
  ss_config :: SessionConfig
  ss_host :: string
  ss_port :: u16
  ss_self_peer_id :: string
  ss_last_remote_peer_id :: string
  ss_sock_fd :: int
  ss_running :: bool
  ss_delegate :: "nat option"
  ss_slot :: "nat option"

datatype io_event =
    EvMessage nat Message
  | EvError nat string
  | EvClose int
  | EvBytes int string

record Io =
  io_started :: bool
  io_sessions :: "(int \<times> nat) list"
  io_slots :: "nat \<Rightarrow> TcpClientSessionSlot option"
  io_next_slot :: nat
  io_owners :: "nat \<Rightarrow> TcpClientSession option"
  io_log :: "io_event list"

definition emit :: "io_event \<Rightarrow> Io \<Rightarrow> Io" where
  "emit e w = w\<lparr>io_log := io_log w @ [e]\<rparr>"

definition upd_owner :: "nat \<Rightarrow> (TcpClientSession \<Rightarrow> TcpClientSession) \<Rightarrow> Io \<Rightarrow> Io" where
  "upd_owner sid f w = w\<lparr>io_owners := (io_owners w)(sid := map_option f (io_owners w sid))\<rparr>"

definition upd_slot :: "nat \<Rightarrow> (TcpClientSessionSlot \<Rightarrow> TcpClientSessionSlot) \<Rightarrow> Io \<Rightarrow> Io" where
  "upd_slot i f w = w\<lparr>io_slots := (io_slots w)(i := map_option f (io_slots w i))\<rparr>"

section \<open>Transport helpers\<close>

definition CloseFd :: "int \<Rightarrow> Io \<Rightarrow> Io" where
  "CloseFd fd w = (if fd < 0 then w else emit (EvClose fd) w)"

text \<open>
  The system's answers while dialling: whether the host is a numeric IPv4 address, the result
  of \<^verbatim>\<open>socket\<close> and \<^verbatim>\<open>connect\<close> for it, the error text of \<^verbatim>\<open>getaddrinfo\<close> (None for success), and per
  resolved address the result of \<^verbatim>\<open>socket\<close> and \<^verbatim>\<open>connect\<close>.
\<close>

record DialAnswers =
  da_is_ipv4 :: bool
  da_socket4 :: int
  da_connect4 :: bool
  da_gai_error :: "string option"
  da_addrs :: "(int \<times> bool) list"
  da_strerror :: string

text \<open>The loop over the resolved addresses: the connected descriptor or -1, and those it closed.\<close>

fun dial_addrs :: "(int \<times> bool) list \<Rightarrow> int \<times> int list" where
  "dial_addrs [] = (-1, [])"
| "dial_addrs ((fd, ok) # as) =
     (if fd < 0 then dial_addrs as
      else if ok then (fd, [])
      else case dial_addrs as of (r, cl) \<Rightarrow> (r, fd # cl))"

definition DialSignalingTcp :: "string \<Rightarrow> DialAnswers \<Rightarrow> int \<times> int list \<times> string" where
  "DialSignalingTcp host a =
     (if da_is_ipv4 a then
        (if da_socket4 a < 0 then (-1, [], ''socket: '' @ da_strerror a)
         else if da_connect4 a then (da_socket4 a, [], [])
         else (-1, [da_socket4 a], ''connect: '' @ da_strerror a))
      else case da_gai_error a of
             Some e \<Rightarrow> (-1, [], ''getaddrinfo: '' @ e)
           | None \<Rightarrow> (case dial_addrs (da_addrs a) of (fd, cl) \<Rightarrow>
               (fd, cl, if fd < 0 then ''connect: all addresses failed for host '' @ host else [])))"

text \<open>\<^verbatim>\<open>SendLine\<close> with an error as the last answer of the system, so that it always returns.\<close>

definition SendLine_io :: "int \<Rightarrow> string \<Rightarrow> send_answer list \<Rightarrow> Io \<Rightarrow> bool \<times> Io" where
  "SendLine_io fd line as w =
     (case transport_SendLine fd line (as @ [SendError]) of
        (r, out) \<Rightarrow> (r = Some True, if out = [] then w else emit (EvBytes fd out) w))"

definition SendLine_error :: "int \<Rightarrow> string \<Rightarrow> string" where
  "SendLine_error fd err = (if fd < 0 then ''socket not connected'' else ''send signaling failed: '' @ err)"

definition ResolveTargetPeer :: "string \<Rightarrow> bool \<Rightarrow> string \<Rightarrow> string" where
  "ResolveTargetPeer explicit_peer remember last_remote =
     (if explicit_peer \<noteq> [] then explicit_peer else if \<not> remember then [] else last_remote)"

text \<open>The returned flag and the new values of \<^verbatim>\<open>last_remote_peer_id\<close> and \<^verbatim>\<open>self_peer_id\<close>.\<close>

definition ApplyInboundPeerMetadata :: "Message \<Rightarrow> bool \<Rightarrow> string \<Rightarrow> string \<Rightarrow> bool \<times> string \<times> string" where
  "ApplyInboundPeerMetadata msg remember last_remote self_peer =
     (let last_remote = (if m_from msg \<noteq> [] \<and> remember then m_from msg else last_remote)
      in if m_type msg = kWelcome then (True, last_remote, m_peer_id msg) else (False, last_remote, self_peer))"

section \<open>The session object\<close>

definition NormalizeSubscriberRegistration :: "RegisterRequest \<Rightarrow> RegisterRequest" where
  "NormalizeSubscriberRegistration reg =
     (if reg_role reg \<noteq> RoleSubscriber then reg
      else let reg = (if reg_device_id reg = [] then reg\<lparr>reg_device_id := RFLOW_DEFAULT_DEVICE_ID\<rparr> else reg)
           in if reg_stream_index reg < 0 then reg\<lparr>reg_stream_index := 0\<rparr> else reg)"

definition new_session :: "SessionConfig \<Rightarrow> TcpClientSession" where
  "new_session cfg =
     (let s = \<lparr>ss_config = cfg, ss_host = [], ss_port = 0, ss_self_peer_id = [], ss_last_remote_peer_id = [],
               ss_sock_fd = -1, ss_running = False, ss_delegate = None, ss_slot = None\<rparr>
      in case ParseEndpoint (sc_server_addr cfg) (Some default_endpoint) of
           (True, Some ep) \<Rightarrow> s\<lparr>ss_host := ep_host ep, ss_port := ep_port ep\<rparr>
         | _ \<Rightarrow> s)"

definition ReportError :: "nat \<Rightarrow> string \<Rightarrow> Io \<Rightarrow> Io" where
  "ReportError sid err w =
     (case io_owners w sid of
        None \<Rightarrow> w
      | Some s \<Rightarrow> (case ss_delegate s of None \<Rightarrow> w | Some _ \<Rightarrow> emit (EvError sid err) w))"

definition SetDelegate :: "nat \<Rightarrow> nat option \<Rightarrow> Io \<Rightarrow> Io" where
  "SetDelegate sid d w = upd_owner sid (\<lambda>s. s\<lparr>ss_delegate := d\<rparr>) w"

definition ParseAndDispatch :: "nat \<Rightarrow> Message \<Rightarrow> Io \<Rightarrow> Io" where
  "ParseAndDispatch sid msg w =
     (case io_owners w sid of
        None \<Rightarrow> w
      | Some s \<Rightarrow>
          (case ApplyInboundPeerMetadata msg (sc_remember_last_remote_peer (ss_config s))
                  (ss_last_remote_peer_id s) (ss_self_peer_id s) of
             (welcome, last_remote, self_peer) \<Rightarrow>
               (let w = upd_owner sid (\<lambda>s. s\<lparr>ss_last_remote_peer_id := last_remote, ss_self_peer_id := self_peer\<rparr>) w
                in if welcome then w
                   else case ss_delegate s of None \<Rightarrow> w | Some _ \<Rightarrow> emit (EvMessage sid msg) w)))"

section \<open>The shared reader\<close>

text \<open>Starting the reader thread may fail on the wake-up pipe; the outcome is an argument.\<close>

definition RegisterSession :: "nat \<Rightarrow> bool \<Rightarrow> Io \<Rightarrow> bool \<times> Io" where
  "RegisterSession i pipe_ok w =
     (if \<not> (io_started w \<or> pipe_ok) then (False, w)
      else let w = w\<lparr>io_started := True\<rparr>
           in case io_slots w i of
                None \<Rightarrow> (False, w)
              | Some sl \<Rightarrow>
                  if sl_fd sl < 0 then (False, w)
                  else (True, w\<lparr>io_sessions := AList.update (sl_fd sl) i (io_sessions w)\<rparr>))"

text \<open>The common part of \<^verbatim>\<open>UnregisterSession\<close> and \<^verbatim>\<open>CloseSession\<close>: detach the slot from its owner and the table.\<close>

definition detach_slot :: "nat \<Rightarrow> Io \<Rightarrow> nat option \<times> int \<times> Io" where
  "detach_slot i w =
     (case io_slots w i of
        None \<Rightarrow> (None, -1, w)
      | Some sl \<Rightarrow>
          (let w = upd_slot i (\<lambda>sl. sl\<lparr>sl_owner := None, sl_active := False, sl_fd := -1\<rparr>) w;
               w = (if map_of (io_sessions w) (sl_fd sl) = Some i
                    then w\<lparr>io_sessions := AList.delete (sl_fd sl) (io_sessions w)\<rparr> else w)
           in (sl_owner sl, sl_fd sl, w)))"

definition UnregisterSession :: "nat \<Rightarrow> Io \<Rightarrow> Io" where
  "UnregisterSession i w =
     (case detach_slot i w of (owner, fd, w) \<Rightarrow>
        let w = (case owner of None \<Rightarrow> w | Some sid \<Rightarrow> upd_owner sid (\<lambda>s. s\<lparr>ss_sock_fd := -1\<rparr>) w)
        in CloseFd fd w)"

definition CloseSession :: "nat \<Rightarrow> string \<Rightarrow> Io \<Rightarrow> Io" where
  "CloseSession i err w =
     (case detach_slot i w of (owner, fd, w) \<Rightarrow>
        let w = CloseFd fd w
        in case owner of
             None \<Rightarrow> w
           | Some sid \<Rightarrow>
               ReportError sid err
                 (upd_owner sid (\<lambda>s. s\<lparr>ss_sock_fd := -1, ss_running := False,
                                       ss_slot := (if ss_slot s = Some i then None else ss_slot s)\<rparr>) w))"

definition DispatchLine :: "nat \<Rightarrow> string \<Rightarrow> Io \<Rightarrow> Io" where
  "DispatchLine i line w =
     (case parse_line line of
        None \<Rightarrow> w
      | Some msg \<Rightarrow>
          (case io_slots w i of
             None \<Rightarrow> w
           | Some sl \<Rightarrow> (case sl_owner sl of None \<Rightarrow> w | Some sid \<Rightarrow> ParseAndDispatch sid msg w)))"

definition kMaxBufferedBytes :: nat where "kMaxBufferedBytes = 4 * 1024 * 1024"

datatype io_recv = IoData string | IoClosed | IoRetry | IoError string

definition HandleReadable :: "nat \<Rightarrow> io_recv \<Rightarrow> Io \<Rightarrow> Io" where
  "HandleReadable i ans w =
     (case io_slots w i of
        None \<Rightarrow> w
      | Some sl \<Rightarrow>
          if sl_fd sl < 0 \<or> \<not> sl_active sl then w
          else case ans of
            IoData d \<Rightarrow>
              (let buf = sl_read_buffer sl @ d;
                   w = upd_slot i (\<lambda>sl. sl\<lparr>sl_read_buffer := buf\<rparr>) w
               in if length buf > kMaxBufferedBytes
                  then CloseSession i ''signaling receive buffer overflow (missing newline)'' w
                  else (case drain_lines buf (sl_parse_offset sl) of
                          (ls, off) \<Rightarrow>
                            (let w = fold (DispatchLine i) ls w
                             in case compact_buffer buf off of
                                  (buf', off') \<Rightarrow>
                                    upd_slot i (\<lambda>sl. sl\<lparr>sl_read_buffer := buf', sl_parse_offset := off'\<rparr>) w)))
          | IoClosed \<Rightarrow> CloseSession i ''signaling connection closed'' w
          | IoRetry \<Rightarrow> w
          | IoError e \<Rightarrow> CloseSession i (''recv signaling failed: '' @ e) w)"

definition SnapshotSessions :: "Io \<Rightarrow> nat list" where
  "SnapshotSessions w =
     filter (\<lambda>i. case io_slots w i of None \<Rightarrow> False | Some sl \<Rightarrow> sl_active sl \<and> \<not> sl_fd sl < 0)
       (map snd (io_sessions w))"

datatype poll_result = PollNothing | PollHangup | PollReadable io_recv

text \<open>One pass over the polled sessions, with the events the system reported for them.\<close>

fun Run_events :: "(nat \<times> poll_result) list \<Rightarrow> Io \<Rightarrow> Io" where
  "Run_events [] w = w"
| "Run_events ((i, PollNothing) # es) w = Run_events es w"
| "Run_events ((i, PollHangup) # es) w = Run_events es (CloseSession i ''signaling connection closed'' w)"
| "Run_events ((i, PollReadable a) # es) w = Run_events es (HandleReadable i a w)"

definition Run_round :: "(nat \<Rightarrow> poll_result) \<Rightarrow> Io \<Rightarrow> Io" where
  "Run_round ev w = Run_events (map (\<lambda>i. (i, ev i)) (SnapshotSessions w)) w"

section \<open>Starting, stopping and sending\<close>

definition or_default :: "string \<Rightarrow> string \<Rightarrow> string" where
  "or_default e d = (if e = [] then d else e)"

definition RegisterOrCloseStoredFd :: "nat \<Rightarrow> RegisterRequest \<Rightarrow> send_answer list \<Rightarrow> Io \<Rightarrow> bool \<times> Io" where
  "RegisterOrCloseStoredFd sid reg as w =
     (case io_owners w sid of
        None \<Rightarrow> (False, w)
      | Some s \<Rightarrow>
          (case SendLine_io (ss_sock_fd s) (BuildRegisterLine reg) as w of
             (True, w) \<Rightarrow> (True, w)
           | (False, w) \<Rightarrow> (False, CloseFd (ss_sock_fd s) (upd_owner sid (\<lambda>s. s\<lparr>ss_sock_fd := -1\<rparr>) w))))"

definition Connect :: "nat \<Rightarrow> DialAnswers \<Rightarrow> send_answer list \<Rightarrow> Io \<Rightarrow> bool \<times> Io" where
  "Connect sid da as w =
     (case io_owners w sid of
        None \<Rightarrow> (False, w)
      | Some s \<Rightarrow>
          if ss_host s = [] \<or> ss_port s = 0
          then (False, ReportError sid ''invalid signaling server address'' w)
          else (case DialSignalingTcp (ss_host s) da of
                  (fd, closed, err) \<Rightarrow>
                    (let w = fold CloseFd closed w
                     in if fd < 0 then (False, ReportError sid (or_default err ''connect failed'') w)
                        else let w = upd_owner sid (\<lambda>s. s\<lparr>ss_sock_fd := fd\<rparr>) w;
                                 reg = NormalizeSubscriberRegistration (sc_registration (ss_config s))
                             in case RegisterOrCloseStoredFd sid reg as w of
                                  (True, w) \<Rightarrow> (True, w)
                                | (False, w) \<Rightarrow>
                                    (False, ReportError sid (SendLine_error fd (da_strerror da)) w))))"

definition AttachSessionToIo :: "nat \<Rightarrow> bool \<Rightarrow> Io \<Rightarrow> bool \<times> Io" where
  "AttachSessionToIo sid pipe_ok w =
     (case io_owners w sid of
        None \<Rightarrow> (False, w)
      | Some s \<Rightarrow>
          (let i = io_next_slot w;
               w' = w\<lparr>io_slots := (io_slots w)(i \<mapsto> \<lparr>sl_owner = Some sid, sl_fd = ss_sock_fd s, sl_active = True,
                                                   sl_read_buffer = [], sl_parse_offset = 0\<rparr>),
                      io_next_slot := i + 1\<rparr>
           in case RegisterSession i pipe_ok w' of
                (True, w'') \<Rightarrow> (True, upd_owner sid (\<lambda>s. s\<lparr>ss_slot := Some i\<rparr>) w'')
              | (False, w'') \<Rightarrow>
                  (False, upd_owner sid (\<lambda>s. s\<lparr>ss_running := False\<rparr>)
                            (CloseFd (ss_sock_fd s)
                              (upd_owner sid (\<lambda>s. s\<lparr>ss_sock_fd := -1\<rparr>)
                                (w''\<lparr>io_slots := (io_slots w'')(i := None)\<rparr>))))))"

definition Start :: "nat \<Rightarrow> DialAnswers \<Rightarrow> send_answer list \<Rightarrow> bool \<Rightarrow> Io \<Rightarrow> bool \<times> Io" where
  "Start sid da as pipe_ok w =
     (case io_owners w sid of
        None \<Rightarrow> (False, w)
      | Some s \<Rightarrow>
          if ss_running s then (True, w)
          else (case Connect sid da as (upd_owner sid (\<lambda>s. s\<lparr>ss_running := True\<rparr>) w) of
                  (False, w) \<Rightarrow> (False, upd_owner sid (\<lambda>s. s\<lparr>ss_running := False\<rparr>) w)
                | (True, w) \<Rightarrow>
                    (case AttachSessionToIo sid pipe_ok w of
                       (True, w) \<Rightarrow> (True, w)
                     | (False, w) \<Rightarrow>
                         (False, ReportError sid ''register signaling session to shared io manager failed'' w))))"

definition Stop :: "nat \<Rightarrow> Io \<Rightarrow> Io" where
  "Stop sid w =
     (case io_owners w sid of
        None \<Rightarrow> w
      | Some s \<Rightarrow>
          (let w = upd_owner sid (\<lambda>s. s\<lparr>ss_running := False, ss_slot := None\<rparr>) w
           in case ss_slot s of
                Some i \<Rightarrow> UnregisterSession i w
              | None \<Rightarrow> CloseFd (ss_sock_fd s) (upd_owner sid (\<lambda>s. s\<lparr>ss_sock_fd := -1\<rparr>) w)))"

definition IsRunning :: "nat \<Rightarrow> Io \<Rightarrow> bool" where
  "IsRunning sid w =
     (case io_owners w sid of None \<Rightarrow> False | Some s \<Rightarrow> ss_running s \<and> ss_sock_fd s \<ge> 0)"

definition session_SendLine :: "nat \<Rightarrow> string \<Rightarrow> send_answer list \<Rightarrow> string \<Rightarrow> Io \<Rightarrow> bool \<times> Io" where
  "session_SendLine sid line as err w =
     (case io_owners w sid of
        None \<Rightarrow> (False, w)
      | Some s \<Rightarrow>
          (case SendLine_io (ss_sock_fd s) line as w of
             (True, w) \<Rightarrow> (True, w)
           | (False, w) \<Rightarrow> (False, ReportError sid (SendLine_error (ss_sock_fd s) err) w)))"

definition Send :: "nat \<Rightarrow> Message \<Rightarrow> send_answer list \<Rightarrow> string \<Rightarrow> Io \<Rightarrow> bool \<times> Io" where
  "Send sid msg as err w =
     (case io_owners w sid of
        None \<Rightarrow> (False, w)
      | Some s \<Rightarrow>
          (let outbound = (if m_to msg = []
                           then msg\<lparr>m_to := ResolveTargetPeer (m_to msg) (sc_remember_last_remote_peer (ss_config s))
                                            (ss_last_remote_peer_id s)\<rparr>
                           else msg)
           in session_SendLine sid (BuildMessageLine outbound) as err w))"

lemma upd_slot_views:
  "io_slots (upd_slot i f w) = (io_slots w)(i := map_option f (io_slots w i))"
  "io_sessions (upd_slot i f w) = io_sessions w" "io_owners (upd_slot i f w) = io_owners w"
  "io_next_slot (upd_slot i f w) = io_next_slot w" "io_log (upd_slot i f w) = io_log w"
  by (simp_all add: upd_slot_def)

lemma upd_owner_views:
  "io_owners (upd_owner sid f w) = (io_owners w)(sid := map_option f (io_owners w sid))"
  "io_sessions (upd_owner sid f w) = io_sessions w" "io_slots (upd_owner sid f w) = io_slots w"
  "io_next_slot (upd_owner sid f w) = io_next_slot w" "io_log (upd_owner sid f w) = io_log w"
  "io_started (upd_owner sid f w) = io_started w"
  by (simp_all add: upd_owner_def)

section \<open>The invariant of sessions, slots and table\<close>

definition table :: "Io \<Rightarrow> int \<Rightarrow> nat option" where
  "table w = map_of (io_sessions w)"

definition slot_ok :: "int \<Rightarrow> TcpClientSessionSlot \<Rightarrow> bool" where
  "slot_ok fd sl \<longleftrightarrow> sl_fd sl = fd \<and> 0 \<le> fd \<and> sl_active sl
     \<and> sl_parse_offset sl \<le> length (sl_read_buffer sl) \<and> length (sl_read_buffer sl) \<le> kMaxBufferedBytes
     \<and> LF \<notin> set (drop (sl_parse_offset sl) (sl_read_buffer sl))"

text \<open>
  Every table entry belongs to an active slot whose owner is attached and running on that
  descriptor; a session without a slot has no socket and is not running; a slot outside the
  table has no owner.
\<close>

definition io_inv ::
  "(int \<Rightarrow> nat option) \<Rightarrow> (nat \<Rightarrow> TcpClientSessionSlot option) \<Rightarrow> (nat \<Rightarrow> TcpClientSession option) \<Rightarrow> nat \<Rightarrow> bool" where
  "io_inv T L P n \<longleftrightarrow>
     (\<forall>fd i. T fd = Some i \<longrightarrow> (\<exists>sl sid s. L i = Some sl \<and> slot_ok fd sl \<and> sl_owner sl = Some sid
        \<and> P sid = Some s \<and> ss_slot s = Some i \<and> ss_sock_fd s = fd \<and> ss_running s))
     \<and> (\<forall>sid s. P sid = Some s \<longrightarrow> ss_slot s = None \<longrightarrow> ss_sock_fd s = -1 \<and> \<not> ss_running s)
     \<and> (\<forall>sid s i. P sid = Some s \<longrightarrow> ss_slot s = Some i \<longrightarrow> T (ss_sock_fd s) = Some i
          \<and> (\<exists>sl. L i = Some sl \<and> sl_owner sl = Some sid))
     \<and> (\<forall>i sl. L i = Some sl \<longrightarrow> i < n \<and> (sl_owner sl = None \<or> T (sl_fd sl) = Some i))"

definition io_ok :: "Io \<Rightarrow> bool" where
  "io_ok w \<longleftrightarrow> io_inv (table w) (io_slots w) (io_owners w) (io_next_slot w)"

lemma io_inv_entry:
  assumes "io_inv T L P n" "T fd = Some i"
  obtains sl sid s where "L i = Some sl" "slot_ok fd sl" "sl_owner sl = Some sid"
    "P sid = Some s" "ss_slot s = Some i" "ss_sock_fd s = fd" "ss_running s"
  using assms unfolding io_inv_def by blast

lemma io_inv_idle: "io_inv T L P n \<Longrightarrow> P sid = Some s \<Longrightarrow> ss_slot s = None \<Longrightarrow> ss_sock_fd s = -1 \<and> \<not> ss_running s"
  unfolding io_inv_def by blast

lemma io_inv_session:
  assumes "io_inv T L P n" "P sid = Some s" "ss_slot s = Some i"
  obtains sl where "T (ss_sock_fd s) = Some i" "L i = Some sl" "sl_owner sl = Some sid"
  using assms unfolding io_inv_def by blast

lemma io_inv_slot: "io_inv T L P n \<Longrightarrow> L i = Some sl \<Longrightarrow> i < n \<and> (sl_owner sl = None \<or> T (sl_fd sl) = Some i)"
  unfolding io_inv_def by blast

lemma io_invI:
  assumes "\<And>fd i. T fd = Some i \<Longrightarrow> \<exists>sl sid s. L i = Some sl \<and> slot_ok fd sl \<and> sl_owner sl = Some sid
        \<and> P sid = Some s \<and> ss_slot s = Some i \<and> ss_sock_fd s = fd \<and> ss_running s"
    and "\<And>sid s. P sid = Some s \<Longrightarrow> ss_slot s = None \<Longrightarrow> ss_sock_fd s = -1 \<and> \<not> ss_running s"
    and "\<And>sid s i. P sid = Some s \<Longrightarrow> ss_slot s = Some i \<Longrightarrow>
          T (ss_sock_fd s) = Some i \<and> (\<exists>sl. L i = Some sl \<and> sl_owner sl = Some sid)"
    and "\<And>i sl. L i = Some sl \<Longrightarrow> i < n \<and> (sl_owner sl = None \<or> T (sl_fd sl) = Some i)"
  shows "io_inv T L P n"
  using assms unfolding io_inv_def by blast

lemma io_inv_attached:
  assumes "io_inv T L P n" "L i = Some sl" "sl_owner sl = Some sid"
  obtains s where "T (sl_fd sl) = Some i" "slot_ok (sl_fd sl) sl" "P sid = Some s" "ss_slot s = Some i"
    "ss_sock_fd s = sl_fd sl" "ss_running s"
proof -
  have T: "T (sl_fd sl) = Some i" using io_inv_slot [OF assms(1,2)] assms(3) by simp
  from assms(1) T obtain sl' sid' s where h: "L i = Some sl'" "slot_ok (sl_fd sl) sl'" "sl_owner sl' = Some sid'"
    "P sid' = Some s" "ss_slot s = Some i" "ss_sock_fd s = sl_fd sl" "ss_running s"
    by (rule io_inv_entry)
  have "sl' = sl" "sid' = sid" using h(1,3) assms(2,3) by simp_all
  then show ?thesis using T h that by blast
qed

text \<open>Only fields of the owners change that the invariant does not mention.\<close>

definition own_eq :: "TcpClientSession \<Rightarrow> TcpClientSession \<Rightarrow> bool" where
  "own_eq s s' \<longleftrightarrow> ss_slot s' = ss_slot s \<and> ss_sock_fd s' = ss_sock_fd s \<and> ss_running s' = ss_running s"

lemma own_eq_refl [simp]: "own_eq s s"
  by (simp add: own_eq_def)

lemma io_inv_owners:
  assumes inv: "io_inv T L P n" and rel: "\<And>sid. rel_option own_eq (P sid) (P' sid)"
  shows "io_inv T L P' n"
proof (rule io_invI)
  fix fd i assume "T fd = Some i"
  with inv obtain sl sid s where h: "L i = Some sl" "slot_ok fd sl" "sl_owner sl = Some sid"
    "P sid = Some s" "ss_slot s = Some i" "ss_sock_fd s = fd" "ss_running s"
    by (rule io_inv_entry)
  then show "\<exists>sl sid s. L i = Some sl \<and> slot_ok fd sl \<and> sl_owner sl = Some sid
      \<and> P' sid = Some s \<and> ss_slot s = Some i \<and> ss_sock_fd s = fd \<and> ss_running s"
    using rel [of sid] by (auto simp: option_rel_Some1 own_eq_def)
next
  fix sid s' assume "P' sid = Some s'" "ss_slot s' = None"
  then show "ss_sock_fd s' = -1 \<and> \<not> ss_running s'"
    using rel [of sid] io_inv_idle [OF inv, of sid] by (auto simp: option_rel_Some2 own_eq_def)
next
  fix sid s' i assume "P' sid = Some s'" "ss_slot s' = Some i"
  then obtain s where s: "P sid = Some s" "ss_slot s = Some i" "ss_sock_fd s' = ss_sock_fd s"
    using rel [of sid] by (auto simp: option_rel_Some2 own_eq_def)
  from inv s(1,2) obtain sl where "T (ss_sock_fd s) = Some i" "L i = Some sl" "sl_owner sl = Some sid"
    by (rule io_inv_session)
  then show "T (ss_sock_fd s') = Some i \<and> (\<exists>sl. L i = Some sl \<and> sl_owner sl = Some sid)"
    using s(3) by simp
qed (rule io_inv_slot [OF inv])

lemma io_inv_owner:
  assumes "io_inv T L P n" "P sid = Some s" "own_eq s s'"
  shows "io_inv T L (P(sid \<mapsto> s')) n"
proof (rule io_inv_owners [OF assms(1)])
  fix sid2 show "rel_option own_eq (P sid2) ((P(sid \<mapsto> s')) sid2)"
    using assms(2,3) by (cases "P sid2"; cases "sid2 = sid") simp_all
qed

text \<open>A slot without an owner is referred to by nothing.\<close>

lemma io_inv_unowned:
  assumes inv: "io_inv T L P n" and sl: "L i = Some sl" "sl_owner sl = None" "sl_owner sl' = None"
  shows "io_inv T (L(i \<mapsto> sl')) P n" and "T fd \<noteq> Some i"
proof -
  show no: "T fd \<noteq> Some i" for fd
  proof
    assume "T fd = Some i"
    with inv obtain sl2 sid where "L i = Some sl2" "sl_owner sl2 = Some sid" by (rule io_inv_entry)
    then show False using sl by simp
  qed
  show "io_inv T (L(i \<mapsto> sl')) P n"
  proof (rule io_invI)
    fix f j assume f: "T f = Some j"
    with inv obtain sl2 sid s where "L j = Some sl2" "slot_ok f sl2" "sl_owner sl2 = Some sid"
      "P sid = Some s" "ss_slot s = Some j" "ss_sock_fd s = f" "ss_running s"
      by (rule io_inv_entry)
    moreover have "j \<noteq> i" using f no by auto
    ultimately show "\<exists>sl2 sid s. (L(i \<mapsto> sl')) j = Some sl2 \<and> slot_ok f sl2 \<and> sl_owner sl2 = Some sid
      \<and> P sid = Some s \<and> ss_slot s = Some j \<and> ss_sock_fd s = f \<and> ss_running s" by auto
  next
    fix sid s j assume "P sid = Some s" "ss_slot s = Some j"
    with inv obtain sl2 where h: "T (ss_sock_fd s) = Some j" "L j = Some sl2" "sl_owner sl2 = Some sid"
      by (rule io_inv_session)
    then show "T (ss_sock_fd s) = Some j \<and> (\<exists>sl2. (L(i \<mapsto> sl')) j = Some sl2 \<and> sl_owner sl2 = Some sid)"
      using no by auto
  qed (use io_inv_idle [OF inv] io_inv_slot [OF inv] sl in \<open>auto split: if_splits\<close>)
qed

text \<open>Only the buffer of a slot changes.\<close>

lemma io_inv_buffer:
  assumes inv: "io_inv T L P n" and sl: "L i = Some sl" "sl_owner sl' = sl_owner sl" "sl_fd sl' = sl_fd sl"
    and ok: "slot_ok (sl_fd sl) sl \<Longrightarrow> slot_ok (sl_fd sl) sl'"
  shows "io_inv T (L(i \<mapsto> sl')) P n"
proof (rule io_invI)
  fix fd j assume "T fd = Some j"
  with inv obtain sl2 sid s where h: "L j = Some sl2" "slot_ok fd sl2" "sl_owner sl2 = Some sid" "P sid = Some s"
    "ss_slot s = Some j" "ss_sock_fd s = fd" "ss_running s"
    by (rule io_inv_entry)
  show "\<exists>sl2 sid s. (L(i \<mapsto> sl')) j = Some sl2 \<and> slot_ok fd sl2 \<and> sl_owner sl2 = Some sid \<and> P sid = Some s
      \<and> ss_slot s = Some j \<and> ss_sock_fd s = fd \<and> ss_running s"
  proof (cases "j = i")
    case True
    then have e: "sl2 = sl" "fd = sl_fd sl" using h sl(1) by (auto simp: slot_ok_def)
    then have "slot_ok fd sl'" using h(2) ok by simp
    then show ?thesis using True h e sl(2) by auto
  qed (use h in auto)
next
  fix sid s j assume "P sid = Some s" "ss_slot s = Some j"
  with inv obtain sl2 where "T (ss_sock_fd s) = Some j" "L j = Some sl2" "sl_owner sl2 = Some sid"
    by (rule io_inv_session)
  then show "T (ss_sock_fd s) = Some j \<and> (\<exists>sl2. (L(i \<mapsto> sl')) j = Some sl2 \<and> sl_owner sl2 = Some sid)"
    using sl by (cases "j = i") auto
qed (use inv sl io_inv_idle io_inv_slot [OF inv] in \<open>auto split: if_splits\<close>)

text \<open>Detaching a slot from its owner and the table.\<close>

lemma io_inv_detach:
  assumes inv: "io_inv T L P n" and sl: "L i = Some sl" "sl_owner sl = Some sid" and s: "P sid = Some s"
    and sl': "sl_owner sl' = None" and s': "ss_slot s' = None" "ss_sock_fd s' = -1" "\<not> ss_running s'"
  shows "io_inv (T(sl_fd sl := None)) (L(i \<mapsto> sl')) (P(sid \<mapsto> s')) n"
proof (rule io_invI)
  have T: "T (sl_fd sl) = Some i" and own: "ss_slot s = Some i"
    using io_inv_attached [OF inv sl] s by auto
  fix fd j assume fd: "(T(sl_fd sl := None)) fd = Some j"
  then have "T fd = Some j" by (auto split: if_splits)
  with inv obtain sl2 sid2 s2 where h: "L j = Some sl2" "slot_ok fd sl2" "sl_owner sl2 = Some sid2"
    "P sid2 = Some s2" "ss_slot s2 = Some j" "ss_sock_fd s2 = fd" "ss_running s2"
    by (rule io_inv_entry)
  have "j \<noteq> i" using h(1,2) fd sl(1) by (auto simp: slot_ok_def split: if_splits)
  moreover have "sid2 \<noteq> sid" using h(4,5) s own \<open>j \<noteq> i\<close> by auto
  ultimately show "\<exists>sl2 sid2 s2. (L(i \<mapsto> sl')) j = Some sl2 \<and> slot_ok fd sl2 \<and> sl_owner sl2 = Some sid2
      \<and> (P(sid \<mapsto> s')) sid2 = Some s2 \<and> ss_slot s2 = Some j \<and> ss_sock_fd s2 = fd \<and> ss_running s2"
    using h by auto
next
  have T: "T (sl_fd sl) = Some i" using io_inv_attached [OF inv sl] by auto
  fix sid2 s2 j assume p: "(P(sid \<mapsto> s')) sid2 = Some s2" "ss_slot s2 = Some j"
  then have ne: "sid2 \<noteq> sid" "P sid2 = Some s2" using s' by (auto split: if_splits)
  from inv ne(2) p(2) obtain sl2 where h: "T (ss_sock_fd s2) = Some j" "L j = Some sl2" "sl_owner sl2 = Some sid2"
    by (rule io_inv_session)
  then have "j \<noteq> i" using sl ne(1) by auto
  then show "(T(sl_fd sl := None)) (ss_sock_fd s2) = Some j
      \<and> (\<exists>sl2. (L(i \<mapsto> sl')) j = Some sl2 \<and> sl_owner sl2 = Some sid2)"
    using h T by auto
next
  have T: "T (sl_fd sl) = Some i" using io_inv_attached [OF inv sl] by auto
  fix j sl2 assume "(L(i \<mapsto> sl')) j = Some sl2"
  then show "j < n \<and> (sl_owner sl2 = None \<or> (T(sl_fd sl := None)) (sl_fd sl2) = Some j)"
    using io_inv_slot [OF inv, of j] sl sl' T by (auto split: if_splits)
qed (use s' io_inv_idle [OF inv] in \<open>auto split: if_splits\<close>)

text \<open>Attaching a new slot to a session without one.\<close>

lemma io_inv_attach:
  assumes inv: "io_inv T L P n" and s: "P sid = Some s" "ss_slot s = None" and fd: "T fd = None"
    and sl: "slot_ok fd sl" "sl_owner sl = Some sid"
    and s': "ss_slot s' = Some n" "ss_sock_fd s' = fd" "ss_running s'"
  shows "io_inv (T(fd \<mapsto> n)) (L(n \<mapsto> sl)) (P(sid \<mapsto> s')) (n + 1)"
proof (rule io_invI)
  fix f j assume f: "(T(fd \<mapsto> n)) f = Some j"
  show "\<exists>sl2 sid2 s2. (L(n \<mapsto> sl)) j = Some sl2 \<and> slot_ok f sl2 \<and> sl_owner sl2 = Some sid2
      \<and> (P(sid \<mapsto> s')) sid2 = Some s2 \<and> ss_slot s2 = Some j \<and> ss_sock_fd s2 = f \<and> ss_running s2"
  proof (cases "f = fd")
    case True
    then show ?thesis using f sl s' by auto
  next
    case False
    then have "T f = Some j" using f by simp
    with inv obtain sl2 sid2 s2 where h: "L j = Some sl2" "slot_ok f sl2" "sl_owner sl2 = Some sid2"
      "P sid2 = Some s2" "ss_slot s2 = Some j" "ss_sock_fd s2 = f" "ss_running s2"
      by (rule io_inv_entry)
    have "j \<noteq> n" "sid2 \<noteq> sid" using io_inv_slot [OF inv h(1)] h(4,5) s by auto
    with h show ?thesis by auto
  qed
next
  fix sid2 s2 j assume p: "(P(sid \<mapsto> s')) sid2 = Some s2" "ss_slot s2 = Some j"
  show "(T(fd \<mapsto> n)) (ss_sock_fd s2) = Some j \<and> (\<exists>sl2. (L(n \<mapsto> sl)) j = Some sl2 \<and> sl_owner sl2 = Some sid2)"
  proof (cases "sid2 = sid")
    case True
    then show ?thesis using p s' sl by auto
  next
    case False
    then have "P sid2 = Some s2" using p by simp
    from inv this p(2) obtain sl2 where h: "T (ss_sock_fd s2) = Some j" "L j = Some sl2" "sl_owner sl2 = Some sid2"
      by (rule io_inv_session)
    then show ?thesis using fd io_inv_slot [OF inv h(2)] by auto
  qed
next
  fix j sl2 assume "(L(n \<mapsto> sl)) j = Some sl2"
  then show "j < n + 1 \<and> (sl_owner sl2 = None \<or> (T(fd \<mapsto> n)) (sl_fd sl2) = Some j)"
    using io_inv_slot [OF inv, of j] sl fd by (auto simp: slot_ok_def split: if_splits)
qed (use s' io_inv_idle [OF inv] in \<open>auto split: if_splits\<close>)

section \<open>Every operation keeps the invariant\<close>

definition core :: "Io \<Rightarrow> (int \<times> nat) list \<times> (nat \<Rightarrow> TcpClientSessionSlot option)
    \<times> (nat \<Rightarrow> TcpClientSession option) \<times> nat" where
  "core w = (io_sessions w, io_slots w, io_owners w, io_next_slot w)"

lemma core_eqD:
  assumes "core w' = core w"
  shows "io_sessions w' = io_sessions w" "io_slots w' = io_slots w" "io_owners w' = io_owners w"
    "io_next_slot w' = io_next_slot w" "table w' = table w" "io_ok w' = io_ok w"
  using assms by (auto simp: core_def table_def io_ok_def)

lemma core_emit [simp]: "core (emit e w) = core w"
  by (simp add: core_def emit_def)

lemma core_CloseFd [simp]: "core (CloseFd fd w) = core w"
  by (simp add: CloseFd_def)

lemma core_fold_CloseFd [simp]: "core (fold CloseFd fds w) = core w"
  by (induction fds arbitrary: w) simp_all

lemma core_ReportError [simp]: "core (ReportError sid e w) = core w"
  by (simp add: ReportError_def split: option.split)

lemma core_SendLine: "SendLine_io fd l as w = (r, w') \<Longrightarrow> core w' = core w"
  by (auto simp: SendLine_io_def split: prod.splits)

lemmas core_same = core_eqD [OF core_emit] core_eqD [OF core_CloseFd] core_eqD [OF core_fold_CloseFd]
  core_eqD [OF core_ReportError]

lemma io_ok_emit [simp]: "io_ok (emit e w) = io_ok w" "io_ok (CloseFd fd w) = io_ok w" "io_ok (ReportError sid err w) = io_ok w"
  by (simp_all add: core_same)

text \<open>The effect of detaching slot \<open>i\<close> on an attached session.\<close>

lemma detach_slot_views:
  assumes "io_ok w" "io_slots w i = Some sl" "detach_slot i w = (ow, fd, w')"
  shows "ow = sl_owner sl \<and> fd = sl_fd sl
    \<and> io_slots w' = (io_slots w)(i \<mapsto> sl\<lparr>sl_owner := None, sl_active := False, sl_fd := -1\<rparr>)
    \<and> io_owners w' = io_owners w \<and> io_next_slot w' = io_next_slot w \<and> io_log w' = io_log w
    \<and> table w' = (if sl_owner sl = None then table w else (table w)(sl_fd sl := None))"
proof -
  have inv: "io_inv (table w) (io_slots w) (io_owners w) (io_next_slot w)" using assms(1) by (simp add: io_ok_def)
  have "table w (sl_fd sl) = Some i \<longleftrightarrow> sl_owner sl \<noteq> None"
    using io_inv_slot [OF inv assms(2)] io_inv_unowned(2) [OF inv assms(2), of "sl\<lparr>sl_owner := None\<rparr>" "sl_fd sl"]
    by auto
  then show ?thesis
    using assms(2,3) by (auto simp: detach_slot_def upd_slot_def table_def Let_def fun_eq_iff split: if_splits)
qed

lemma CloseSession_ok:
  assumes "io_ok w"
  shows "io_ok (CloseSession i err w)"
proof (cases "io_slots w i")
  case None
  then show ?thesis using assms by (simp add: CloseSession_def detach_slot_def)
next
  case (Some sl)
  obtain ow fd w' where d: "detach_slot i w = (ow, fd, w')" by (cases "detach_slot i w")
  note v = detach_slot_views [OF assms Some d]
  have inv: "io_inv (table w) (io_slots w) (io_owners w) (io_next_slot w)" using assms by (simp add: io_ok_def)
  show ?thesis
  proof (cases "sl_owner sl")
    case None
    then have "io_ok w'" using v io_inv_unowned(1) [OF inv Some None] by (simp add: io_ok_def)
    then show ?thesis using v None by (simp add: CloseSession_def d)
  next
    case (Some sid)
    then obtain s where s: "io_owners w sid = Some s" "ss_slot s = Some i"
      using io_inv_attached [OF inv \<open>io_slots w i = Some sl\<close>] by metis
    let ?f = "\<lambda>s. s\<lparr>ss_sock_fd := -1, ss_running := False, ss_slot := (if ss_slot s = Some i then None else ss_slot s)\<rparr>"
    have "io_inv ((table w)(sl_fd sl := None)) (io_slots w') ((io_owners w)(sid \<mapsto> ?f s)) (io_next_slot w)"
      using v s Some by (simp add: io_inv_detach [OF inv \<open>io_slots w i = Some sl\<close> Some s(1)])
    then have "io_ok (upd_owner sid ?f w')"
      using v s Some by (simp add: io_ok_def upd_owner_def table_def)
    moreover have "upd_owner sid ?f (CloseFd fd w') = CloseFd fd (upd_owner sid ?f w')"
      by (simp add: CloseFd_def emit_def upd_owner_def)
    ultimately show ?thesis using v Some by (simp add: CloseSession_def d)
  qed
qed

text \<open>The state after stopping an attached session, before its descriptor is closed.\<close>

definition stopped :: "nat \<Rightarrow> nat \<Rightarrow> int \<Rightarrow> Io \<Rightarrow> Io" where
  "stopped sid i fd w =
     upd_owner sid (\<lambda>s. s\<lparr>ss_sock_fd := -1\<rparr>)
       ((upd_slot i (\<lambda>sl. sl\<lparr>sl_owner := None, sl_active := False, sl_fd := -1\<rparr>)
          (upd_owner sid (\<lambda>s. s\<lparr>ss_running := False, ss_slot := None\<rparr>) w))
        \<lparr>io_sessions := AList.delete fd (io_sessions w)\<rparr>)"

lemma stopped_views:
  "table (stopped sid i fd w) = (table w)(fd := None)"
  "io_slots (stopped sid i fd w) = (io_slots w)(i := map_option (\<lambda>sl. sl\<lparr>sl_owner := None, sl_active := False, sl_fd := -1\<rparr>) (io_slots w i))"
  "io_owners (stopped sid i fd w) = (io_owners w)(sid := map_option (\<lambda>s. s\<lparr>ss_running := False, ss_slot := None, ss_sock_fd := -1\<rparr>) (io_owners w sid))"
  "io_next_slot (stopped sid i fd w) = io_next_slot w" "io_log (stopped sid i fd w) = io_log w"
  by (simp_all add: stopped_def upd_owner_def upd_slot_def table_def fun_eq_iff option.map_comp comp_def)

lemma Stop_attached:
  assumes "io_owners w sid = Some s" "ss_slot s = Some i" "table w (ss_sock_fd s) = Some i"
    "io_slots w i = Some sl" "sl_owner sl = Some sid" "sl_fd sl = ss_sock_fd s"
  shows "Stop sid w = CloseFd (ss_sock_fd s) (stopped sid i (ss_sock_fd s) w)"
  using assms
  by (simp add: Stop_def UnregisterSession_def detach_slot_def stopped_def upd_owner_def upd_slot_def table_def Let_def)

lemma Stop_ok:
  assumes "io_ok w"
  shows "io_ok (Stop sid w)"
proof (cases "io_owners w sid")
  case None
  then show ?thesis using assms by (simp add: Stop_def)
next
  case (Some s)
  have inv: "io_inv (table w) (io_slots w) (io_owners w) (io_next_slot w)" using assms by (simp add: io_ok_def)
  show ?thesis
  proof (cases "ss_slot s")
    case None
    then have "ss_sock_fd s = -1" "\<not> ss_running s" using io_inv_idle [OF inv Some] by auto
    then have "s\<lparr>ss_running := False, ss_slot := None, ss_sock_fd := -1\<rparr> = s" using None by (cases s) simp
    then have "upd_owner sid (\<lambda>s. s\<lparr>ss_sock_fd := -1\<rparr>) (upd_owner sid (\<lambda>s. s\<lparr>ss_running := False, ss_slot := None\<rparr>) w) = w"
      using Some by (simp add: upd_owner_def fun_upd_idem)
    then show ?thesis using Some None assms by (simp add: Stop_def)
  next
    case (Some i)
    from inv \<open>io_owners w sid = Some s\<close> Some
    obtain sl where sl: "table w (ss_sock_fd s) = Some i" "io_slots w i = Some sl" "sl_owner sl = Some sid"
      by (rule io_inv_session)
    have fd: "sl_fd sl = ss_sock_fd s"
      by (rule io_inv_attached [OF inv sl(2,3)]) (use \<open>io_owners w sid = Some s\<close> in simp)
    let ?sl' = "sl\<lparr>sl_owner := None, sl_active := False, sl_fd := -1\<rparr>"
    let ?s' = "s\<lparr>ss_running := False, ss_slot := None, ss_sock_fd := -1\<rparr>"
    have "io_inv ((table w)(sl_fd sl := None)) ((io_slots w)(i \<mapsto> ?sl')) ((io_owners w)(sid \<mapsto> ?s')) (io_next_slot w)"
      by (rule io_inv_detach [OF inv sl(2,3) \<open>io_owners w sid = Some s\<close>]) simp_all
    moreover have "Stop sid w = CloseFd (ss_sock_fd s) (stopped sid i (ss_sock_fd s) w)"
      using \<open>io_owners w sid = Some s\<close> Some sl fd by (simp add: Stop_attached)
    moreover have "io_ok (stopped sid i (ss_sock_fd s) w) \<longleftrightarrow>
        io_inv ((table w)(sl_fd sl := None)) ((io_slots w)(i \<mapsto> ?sl')) ((io_owners w)(sid \<mapsto> ?s')) (io_next_slot w)"
      using \<open>io_owners w sid = Some s\<close> sl(2) fd by (simp add: io_ok_def stopped_views)
    ultimately show ?thesis by simp
  qed
qed

subsection \<open>Dispatching and reading\<close>

text \<open>What a session hands to its delegate of a list of parsed messages: all but the welcome.\<close>

definition delegated :: "nat \<Rightarrow> TcpClientSession \<Rightarrow> Message list \<Rightarrow> io_event list" where
  "delegated sid s ms =
     (if ss_delegate s = None then [] else map (EvMessage sid) (filter (\<lambda>m. m_type m \<noteq> kWelcome) ms))"

definition parsed :: "string list \<Rightarrow> Message list" where
  "parsed ls = List.map_filter parse_line ls"

lemma parsed_simps [simp]:
  "parsed [] = []"
  "parsed (l # ls) = (case parse_line l of None \<Rightarrow> parsed ls | Some m \<Rightarrow> m # parsed ls)"
  by (simp_all add: parsed_def map_filter_def split: option.split)

lemma ParseAndDispatch_effect:
  assumes "io_owners w sid = Some s"
  shows "\<exists>s'. io_owners (ParseAndDispatch sid m w) = (io_owners w)(sid \<mapsto> s')
    \<and> own_eq s s' \<and> ss_delegate s' = ss_delegate s
    \<and> io_log (ParseAndDispatch sid m w) = io_log w @ delegated sid s [m]
    \<and> io_slots (ParseAndDispatch sid m w) = io_slots w
    \<and> io_sessions (ParseAndDispatch sid m w) = io_sessions w
    \<and> io_next_slot (ParseAndDispatch sid m w) = io_next_slot w"
  using assms
  by (auto simp: ParseAndDispatch_def ApplyInboundPeerMetadata_def delegated_def upd_owner_def emit_def
      own_eq_def Let_def split: option.split)

lemma fold_DispatchLine_effect:
  assumes "io_slots w i = Some sl" "sl_owner sl = Some sid" "io_owners w sid = Some s"
  shows "\<exists>s'. io_owners (fold (DispatchLine i) ls w) = (io_owners w)(sid \<mapsto> s')
    \<and> own_eq s s' \<and> ss_delegate s' = ss_delegate s
    \<and> io_log (fold (DispatchLine i) ls w) = io_log w @ delegated sid s (parsed ls)
    \<and> io_slots (fold (DispatchLine i) ls w) = io_slots w
    \<and> io_sessions (fold (DispatchLine i) ls w) = io_sessions w
    \<and> io_next_slot (fold (DispatchLine i) ls w) = io_next_slot w"
  using assms
proof (induction ls arbitrary: w s)
  case Nil
  then show ?case by (auto simp: delegated_def intro!: exI [of _ s])
next
  case (Cons l ls)
  show ?case
  proof (cases "parse_line l")
    case None
    then show ?thesis using Cons by (simp add: DispatchLine_def)
  next
    case (Some m)
    then have d: "DispatchLine i l w = ParseAndDispatch sid m w" using Cons.prems by (simp add: DispatchLine_def)
    obtain s1 where s1: "io_owners (ParseAndDispatch sid m w) = (io_owners w)(sid \<mapsto> s1)"
      "own_eq s s1" "ss_delegate s1 = ss_delegate s"
      "io_log (ParseAndDispatch sid m w) = io_log w @ delegated sid s [m]"
      "io_slots (ParseAndDispatch sid m w) = io_slots w"
      "io_sessions (ParseAndDispatch sid m w) = io_sessions w"
      "io_next_slot (ParseAndDispatch sid m w) = io_next_slot w"
      using ParseAndDispatch_effect [OF Cons.prems(3)] by blast
    have "delegated sid s1 ms = delegated sid s ms" for ms using s1(3) by (simp add: delegated_def)
    moreover have "delegated sid s [m] @ delegated sid s ms = delegated sid s (m # ms)" for ms
      by (simp add: delegated_def)
    moreover have "own_eq s1 s2 \<Longrightarrow> own_eq s s2" for s2 using s1(2) by (simp add: own_eq_def)
    ultimately show ?thesis
      using Cons.IH [of "ParseAndDispatch sid m w" s1] Cons.prems s1 Some by (fastforce simp: d)
  qed
qed

lemma fold_DispatchLine_unowned:
  "io_slots w i = Some sl \<Longrightarrow> sl_owner sl = None \<Longrightarrow> fold (DispatchLine i) ls w = w"
  by (induction ls) (simp_all add: DispatchLine_def split: option.split)

lemma drained_slot_ok:
  assumes "slot_ok fd sl" "buf = sl_read_buffer sl @ d" "length buf \<le> kMaxBufferedBytes"
    and "drain_lines buf (sl_parse_offset sl) = (ls, off)" "compact_buffer buf off = (buf', off')"
  shows "slot_ok fd (sl\<lparr>sl_read_buffer := buf', sl_parse_offset := off'\<rparr>)"
proof -
  have le: "sl_parse_offset sl \<le> length buf" using assms(1,2) by (simp add: slot_ok_def)
  have off: "off \<le> length buf" using drain_lines_offset [OF le] assms(4) by simp
  have "drop off buf = snd (split_lines (drop (sl_parse_offset sl) buf))"
    using drain_lines_refines [of buf "sl_parse_offset sl"] assms(4) by simp
  then have "LF \<notin> set (drop off buf)" using split_lines_rest by simp
  moreover have "drop off' buf' = drop off buf" "off' \<le> length buf'" "length buf' \<le> length buf"
    using compact_buffer_pending [of buf off] compact_buffer_offset [OF off] assms(5)
    by (auto simp: compact_buffer_def split: if_splits)
  ultimately show ?thesis using assms(1,3) by (simp add: slot_ok_def)
qed

text \<open>
  The effect of a received chunk on an attached session: the lines completed by it are
  dispatched in order, the rest stays buffered.
\<close>

lemma HandleReadable_data:
  assumes ok: "io_ok w" and sl: "io_slots w i = Some sl" "sl_owner sl = Some sid" and s: "io_owners w sid = Some s"
    and len: "length (sl_read_buffer sl @ d) \<le> kMaxBufferedBytes"
  shows "io_ok (HandleReadable i (IoData d) w)
    \<and> io_log (HandleReadable i (IoData d) w) = io_log w @ delegated sid s
        (parsed (fst (split_lines (drop (sl_parse_offset sl) (sl_read_buffer sl) @ d))))
    \<and> (\<exists>sl'. io_slots (HandleReadable i (IoData d) w) i = Some sl'
         \<and> drop (sl_parse_offset sl') (sl_read_buffer sl')
             = snd (split_lines (drop (sl_parse_offset sl) (sl_read_buffer sl) @ d)))"
proof -
  have inv: "io_inv (table w) (io_slots w) (io_owners w) (io_next_slot w)" using ok by (simp add: io_ok_def)
  have slok: "slot_ok (sl_fd sl) sl" by (rule io_inv_attached [OF inv sl])
  let ?buf = "sl_read_buffer sl @ d"
  obtain ls off where dl: "drain_lines ?buf (sl_parse_offset sl) = (ls, off)" by fastforce
  obtain buf' off' where cb: "compact_buffer ?buf off = (buf', off')" by fastforce
  let ?w1 = "upd_slot i (\<lambda>sl. sl\<lparr>sl_read_buffer := ?buf\<rparr>) w"
  have "io_slots ?w1 i = Some (sl\<lparr>sl_read_buffer := ?buf\<rparr>)" "io_owners ?w1 sid = Some s"
    using sl s by (simp_all add: upd_slot_def)
  then obtain s' where f1:
    "io_owners (fold (DispatchLine i) ls ?w1) = (io_owners ?w1)(sid \<mapsto> s')" "own_eq s s'"
    "io_log (fold (DispatchLine i) ls ?w1) = io_log ?w1 @ delegated sid s (parsed ls)"
    "io_slots (fold (DispatchLine i) ls ?w1) = io_slots ?w1"
    "io_sessions (fold (DispatchLine i) ls ?w1) = io_sessions ?w1"
    "io_next_slot (fold (DispatchLine i) ls ?w1) = io_next_slot ?w1"
    using fold_DispatchLine_effect [of ?w1 i "sl\<lparr>sl_read_buffer := ?buf\<rparr>" sid s ls] sl(2) by auto
  have w1: "io_owners ?w1 = io_owners w" "io_log ?w1 = io_log w" "io_sessions ?w1 = io_sessions w"
    "io_slots ?w1 = (io_slots w)(i \<mapsto> sl\<lparr>sl_read_buffer := ?buf\<rparr>)" "io_next_slot ?w1 = io_next_slot w"
    using sl(1) by (simp_all add: upd_slot_def)
  note f = f1 [unfolded w1]
  let ?sl' = "sl\<lparr>sl_read_buffer := buf', sl_parse_offset := off'\<rparr>"
  have h: "HandleReadable i (IoData d) w =
      upd_slot i (\<lambda>sl. sl\<lparr>sl_read_buffer := buf', sl_parse_offset := off'\<rparr>) (fold (DispatchLine i) ls ?w1)"
    using sl(1) slok len dl cb by (simp add: HandleReadable_def slot_ok_def Let_def)
  have "io_inv (table w) ((io_slots w)(i \<mapsto> ?sl')) (io_owners w) (io_next_slot w)"
    using drained_slot_ok [OF _ refl len dl cb] by (intro io_inv_buffer [OF inv sl(1)]) simp_all
  then have "io_inv (table w) ((io_slots w)(i \<mapsto> ?sl')) ((io_owners w)(sid \<mapsto> s')) (io_next_slot w)"
    using s f(2) by (rule io_inv_owner)
  then have "io_ok (HandleReadable i (IoData d) w)"
    unfolding h io_ok_def table_def upd_slot_views f by simp
  moreover have dr: "drop (sl_parse_offset sl) ?buf = drop (sl_parse_offset sl) (sl_read_buffer sl) @ d"
    using slok by (simp add: slot_ok_def)
  moreover have "ls = fst (split_lines (drop (sl_parse_offset sl) ?buf))"
    "drop off' buf' = snd (split_lines (drop (sl_parse_offset sl) ?buf))"
    using drain_lines_refines [of ?buf "sl_parse_offset sl"] dl compact_buffer_pending [of ?buf off] cb by auto
  ultimately show ?thesis unfolding h upd_slot_views f by simp
qed

lemma CloseSession_buffer:
  "CloseSession i err (upd_slot i (\<lambda>sl. sl\<lparr>sl_read_buffer := b\<rparr>) w)
     = upd_slot i (\<lambda>sl. sl\<lparr>sl_read_buffer := b\<rparr>) (CloseSession i err w)"
proof (cases "io_slots w i")
  case (Some sl)
  have c: "upd_owner sid f (upd_slot j g v) = upd_slot j g (upd_owner sid f v)"
    "ReportError sid e (upd_slot j g v) = upd_slot j g (ReportError sid e v)"
    "CloseFd fd (upd_slot j g v) = upd_slot j g (CloseFd fd v)" for sid f j g v e fd
    by (simp_all add: upd_owner_def upd_slot_def ReportError_def CloseFd_def emit_def split: option.split)
  have d: "detach_slot i (upd_slot i (\<lambda>sl. sl\<lparr>sl_read_buffer := b\<rparr>) w) =
      (case detach_slot i w of (ow, fd, v) \<Rightarrow> (ow, fd, upd_slot i (\<lambda>sl. sl\<lparr>sl_read_buffer := b\<rparr>) v))"
    using Some by (cases w, cases sl) (simp add: detach_slot_def upd_slot_def Let_def)
  show ?thesis
    unfolding CloseSession_def d
    by (cases "detach_slot i w") (simp add: c Let_def split: option.split)
qed (simp add: CloseSession_def detach_slot_def upd_slot_def CloseFd_def)

lemma CloseSession_slot:
  assumes "io_ok w" "io_slots w i = Some sl"
  shows "io_slots (CloseSession i err w) i = Some (sl\<lparr>sl_owner := None, sl_active := False, sl_fd := -1\<rparr>)"
proof -
  obtain ow fd w' where d: "detach_slot i w = (ow, fd, w')" by (cases "detach_slot i w")
  note v = detach_slot_views [OF assms d]
  show ?thesis
    using v by (auto simp: CloseSession_def d core_same upd_owner_views Let_def split: option.split)
qed

lemma HandleReadable_ok:
  assumes "io_ok w"
  shows "io_ok (HandleReadable i ans w)"
proof (cases "io_slots w i")
  case None
  then show ?thesis using assms by (simp add: HandleReadable_def)
next
  case (Some sl)
  have inv: "io_inv (table w) (io_slots w) (io_owners w) (io_next_slot w)" using assms by (simp add: io_ok_def)
  show ?thesis
  proof (cases ans)
    case (IoData d)
    show ?thesis
    proof (cases "sl_fd sl < 0 \<or> \<not> sl_active sl")
      case True
      then show ?thesis using Some assms by (auto simp: HandleReadable_def)
    next
      case False
      show ?thesis
      proof (cases "length (sl_read_buffer sl @ d) > kMaxBufferedBytes")
        case True
        let ?e = "''signaling receive buffer overflow (missing newline)''"
        let ?w' = "CloseSession i ?e w"
        have "io_ok ?w'" using assms by (rule CloseSession_ok)
        then have inv': "io_inv (table ?w') (io_slots ?w') (io_owners ?w') (io_next_slot ?w')" by (simp add: io_ok_def)
        have "io_ok (upd_slot i (\<lambda>sl'. sl'\<lparr>sl_read_buffer := sl_read_buffer sl @ d\<rparr>) ?w')"
          using io_inv_unowned(1) [OF inv' CloseSession_slot [OF assms Some, of ?e]] CloseSession_slot [OF assms Some, of ?e]
          by (simp add: io_ok_def table_def upd_slot_views)
        then show ?thesis
          using True False Some IoData by (simp add: HandleReadable_def CloseSession_buffer)
      next
        case fits: False
        show ?thesis
        proof (cases "sl_owner sl")
          case None
          let ?b = "sl_read_buffer sl @ d"
          obtain ls off where dl: "drain_lines ?b (sl_parse_offset sl) = (ls, off)" by fastforce
          obtain buf' off' where cb: "compact_buffer ?b off = (buf', off')" by fastforce
          have u: "fold (DispatchLine i) ls (upd_slot i (\<lambda>sl. sl\<lparr>sl_read_buffer := ?b\<rparr>) w)
              = upd_slot i (\<lambda>sl. sl\<lparr>sl_read_buffer := ?b\<rparr>) w"
            using Some None
            by (intro fold_DispatchLine_unowned [of _ _ "sl\<lparr>sl_read_buffer := ?b\<rparr>"]) (simp_all add: upd_slot_views)
          show ?thesis
            using False fits Some IoData dl cb io_inv_unowned(1) [OF inv Some None] None
            by (simp add: HandleReadable_def u io_ok_def table_def upd_slot_views)
        next
          case (Some sid)
          then obtain s where "io_owners w sid = Some s" using io_inv_attached [OF inv \<open>io_slots w i = Some sl\<close>] by metis
          then show ?thesis
            using HandleReadable_data [OF assms \<open>io_slots w i = Some sl\<close> Some] fits IoData by simp
        qed
      qed
    qed
  qed (use Some assms CloseSession_ok in \<open>simp_all add: HandleReadable_def\<close>)
qed

lemma Run_events_ok: "io_ok w \<Longrightarrow> io_ok (Run_events es w)"
  by (induction es w rule: Run_events.induct) (simp_all add: CloseSession_ok HandleReadable_ok)

subsection \<open>Starting\<close>

lemma SendLine_io_success:
  assumes "SendLine_io fd line as w = (True, w')"
  shows "0 \<le> fd \<and> io_log w' = io_log w @ [EvBytes fd (line @ [LF])]"
proof -
  obtain r out where t: "transport_SendLine fd line (as @ [SendError]) = (r, out)"
    by (cases "transport_SendLine fd line (as @ [SendError])")
  then have r: "r = Some True" using assms by (simp add: SendLine_io_def)
  then have "0 \<le> fd" using t by (auto simp: transport_SendLine_def split: if_splits)
  moreover have "out = line @ [LF]"
    using t r \<open>0 \<le> fd\<close> send_loop_prefix [of "line @ [LF]" "as @ [SendError]" r out]
    by (simp add: transport_SendLine_def)
  ultimately show ?thesis using assms t by (auto simp: SendLine_io_def emit_def)
qed

text \<open>The send always returns: the last answer ends the loop.\<close>

lemma send_loop_returns: "\<exists>b out. send_loop data (as @ [SendError]) = (Some b, out)"
proof (induction as arbitrary: data)
  case Nil
  then show ?case by (cases data) auto
next
  case (Cons a as)
  show ?case
  proof (cases data)
    case (Cons c cs)
    show ?thesis
    proof (cases a)
      case (SendBytes n)
      then show ?thesis
        using Cons.IH [of "drop n data"] \<open>data = c # cs\<close> by (auto split: prod.split)
    next
      case SendIntr
      then show ?thesis using Cons.IH [of data] \<open>data = c # cs\<close> by simp
    qed (use \<open>data = c # cs\<close> in auto)
  qed auto
qed

lemma RegisterOrCloseStoredFd_effect:
  assumes "io_owners w sid = Some s" "RegisterOrCloseStoredFd sid reg as w = (r, w')"
  shows "io_sessions w' = io_sessions w \<and> io_slots w' = io_slots w \<and> io_next_slot w' = io_next_slot w
    \<and> io_owners w' = (if r then io_owners w else (io_owners w)(sid \<mapsto> s\<lparr>ss_sock_fd := -1\<rparr>))
    \<and> (r \<longrightarrow> io_log w' = io_log w @ [EvBytes (ss_sock_fd s) (BuildRegisterLine reg @ [LF])])"
proof -
  obtain b v where sl: "SendLine_io (ss_sock_fd s) (BuildRegisterLine reg) as w = (b, v)" by fastforce
  note c = core_eqD [OF core_SendLine [OF sl]]
  show ?thesis
    using assms sl c SendLine_io_success [of "ss_sock_fd s" "BuildRegisterLine reg" as w v]
    by (cases b) (auto simp: RegisterOrCloseStoredFd_def core_same upd_owner_views)
qed

lemma Connect_effect:
  assumes "io_owners w sid = Some s" "Connect sid da as w = (r, w')"
  shows "io_sessions w' = io_sessions w \<and> io_slots w' = io_slots w \<and> io_next_slot w' = io_next_slot w
    \<and> (if r then (let fd = fst (DialSignalingTcp (ss_host s) da) in 0 \<le> fd
          \<and> io_owners w' = (io_owners w)(sid \<mapsto> s\<lparr>ss_sock_fd := fd\<rparr>)
          \<and> io_log w' = io_log w @ map EvClose (filter (\<lambda>f. 0 \<le> f) (fst (snd (DialSignalingTcp (ss_host s) da))))
              @ [EvBytes fd (BuildRegisterLine (NormalizeSubscriberRegistration (sc_registration (ss_config s))) @ [LF])])
       else io_owners w' = io_owners w \<or> io_owners w' = (io_owners w)(sid \<mapsto> s\<lparr>ss_sock_fd := -1\<rparr>))"
proof (cases "ss_host s = [] \<or> ss_port s = 0")
  case True
  then show ?thesis using assms by (auto simp: Connect_def core_same)
next
  case False
  obtain fd cl err where d: "DialSignalingTcp (ss_host s) da = (fd, cl, err)" by (metis prod_cases3)
  let ?reg = "NormalizeSubscriberRegistration (sc_registration (ss_config s))"
  have logcl: "io_log (fold CloseFd cl v) = io_log v @ map EvClose (filter (\<lambda>f. 0 \<le> f) cl)" for v
    by (induction cl arbitrary: v) (auto simp: CloseFd_def emit_def)
  show ?thesis
  proof (cases "fd < 0")
    case True
    then show ?thesis using False assms d by (auto simp: Connect_def core_same Let_def)
  next
    case pos: False
    let ?w1 = "upd_owner sid (\<lambda>s. s\<lparr>ss_sock_fd := fd\<rparr>) (fold CloseFd cl w)"
    obtain b v where rc: "RegisterOrCloseStoredFd sid ?reg as ?w1 = (b, v)" by fastforce
    have w1: "io_owners ?w1 = (io_owners w)(sid \<mapsto> s\<lparr>ss_sock_fd := fd\<rparr>)" "io_sessions ?w1 = io_sessions w"
      "io_slots ?w1 = io_slots w" "io_next_slot ?w1 = io_next_slot w"
      "io_log ?w1 = io_log w @ map EvClose (filter (\<lambda>f. 0 \<le> f) cl)"
      using assms(1) by (simp_all add: upd_owner_views core_same logcl)
    note e = RegisterOrCloseStoredFd_effect [OF _ rc, of "s\<lparr>ss_sock_fd := fd\<rparr>", unfolded w1]
    have c: "Connect sid da as w = (if b then (True, v)
        else (False, ReportError sid (SendLine_error fd (da_strerror da)) v))"
      using assms(1) False pos d rc by (cases b) (simp_all add: Connect_def Let_def)
    show ?thesis
      using c assms(2) e pos d by (cases b) (auto simp: core_same fun_upd_def)
  qed
qed

lemma Attach_effect:
  assumes "io_owners w sid = Some s" "AttachSessionToIo sid pipe_ok w = (r, w')" "io_slots w (io_next_slot w) = None"
    and "0 \<le> ss_sock_fd s"
  shows "if r then table w' = (table w)(ss_sock_fd s \<mapsto> io_next_slot w)
      \<and> io_slots w' = (io_slots w)(io_next_slot w \<mapsto> \<lparr>sl_owner = Some sid, sl_fd = ss_sock_fd s, sl_active = True,
            sl_read_buffer = [], sl_parse_offset = 0\<rparr>)
      \<and> io_owners w' = (io_owners w)(sid \<mapsto> s\<lparr>ss_slot := Some (io_next_slot w)\<rparr>)
      \<and> io_next_slot w' = io_next_slot w + 1 \<and> io_log w' = io_log w
    else table w' = table w \<and> io_slots w' = io_slots w
      \<and> io_owners w' = (io_owners w)(sid \<mapsto> s\<lparr>ss_sock_fd := -1, ss_running := False\<rparr>)
      \<and> io_next_slot w' = io_next_slot w + 1 \<and> io_log w' = io_log w @ [EvClose (ss_sock_fd s)]"
  using assms
  by (auto simp: AttachSessionToIo_def RegisterSession_def Let_def upd_owner_views CloseFd_def emit_def
      table_def fun_eq_iff split: if_splits)

lemma io_inv_mono_next: "io_inv T L P n \<Longrightarrow> io_inv T L P (n + 1)"
  unfolding io_inv_def by (meson trans_less_add1)

text \<open>
  The outcome of \<^verbatim>\<open>Start\<close> on a stopped session, given that the system returns a descriptor that
  is not in use: either the session is attached and running on the dialled descriptor and its
  registration line is on the wire, or the session is back in its stopped state.
\<close>

lemma Start_outcome:
  assumes ok: "io_ok w" and s: "io_owners w sid = Some s" "\<not> ss_running s"
    and fresh: "table w (fst (DialSignalingTcp (ss_host s) da)) = None"
    and st: "Start sid da as pipe_ok w = (r, w')"
  shows "io_ok w' \<and> (if r then (let fd = fst (DialSignalingTcp (ss_host s) da) in
        0 \<le> fd \<and> table w' fd = Some (io_next_slot w)
        \<and> io_owners w' sid = Some (s\<lparr>ss_running := True, ss_sock_fd := fd, ss_slot := Some (io_next_slot w)\<rparr>)
        \<and> (\<exists>pre. io_log w' = io_log w @ pre @
            [EvBytes fd (BuildRegisterLine (NormalizeSubscriberRegistration (sc_registration (ss_config s))) @ [LF])]
            \<and> (\<forall>e \<in> set pre. \<exists>f. e = EvClose f)))
      else io_owners w' = io_owners w \<and> table w' = table w)"
proof -
  have inv: "io_inv (table w) (io_slots w) (io_owners w) (io_next_slot w)" using ok by (simp add: io_ok_def)
  have idle: "ss_slot s = None" "ss_sock_fd s = -1"
  proof -
    show "ss_slot s = None"
    proof (rule ccontr)
      assume "ss_slot s \<noteq> None"
      then obtain i where i: "ss_slot s = Some i" by auto
      from inv s(1) i obtain sl where sl: "io_slots w i = Some sl" "sl_owner sl = Some sid" by (rule io_inv_session)
      have "ss_running s" by (rule io_inv_attached [OF inv sl]) (use s(1) in simp)
      then show False using s(2) by simp
    qed
    then show "ss_sock_fd s = -1" using io_inv_idle [OF inv s(1)] by simp
  qed
  let ?w0 = "upd_owner sid (\<lambda>s. s\<lparr>ss_running := True\<rparr>) w" and ?s0 = "s\<lparr>ss_running := True\<rparr>"
  let ?fd = "fst (DialSignalingTcp (ss_host s) da)"
  have w0: "io_owners ?w0 sid = Some ?s0" using s(1) by (simp add: upd_owner_views)
  obtain b w1 where c: "Connect sid da as ?w0 = (b, w1)" by fastforce
  note ce = Connect_effect [OF w0 c, unfolded upd_owner_views]
  have orig: "s\<lparr>ss_running := False\<rparr> = s" "s\<lparr>ss_running := False, ss_sock_fd := -1\<rparr> = s"
    "s\<lparr>ss_sock_fd := -1, ss_running := False\<rparr> = s"
    using s(2) idle by (cases s; simp)+
  have nn: "io_slots w (io_next_slot w) = None"
    using io_inv_slot [OF inv, of "io_next_slot w"] by (cases "io_slots w (io_next_slot w)") auto
  show ?thesis
  proof (cases b)
    case False
    then have o1: "io_owners w1 = (io_owners w)(sid \<mapsto> ?s0) \<or> io_owners w1 = (io_owners w)(sid \<mapsto> ?s0\<lparr>ss_sock_fd := -1\<rparr>)"
      and same: "io_sessions w1 = io_sessions w" "io_slots w1 = io_slots w" "io_next_slot w1 = io_next_slot w"
      using ce s(1) by auto
    have e: "r = False" "w' = upd_owner sid (\<lambda>s. s\<lparr>ss_running := False\<rparr>) w1"
      using st s c False by (auto simp: Start_def)
    have "(io_owners w)(sid \<mapsto> s) = io_owners w" using s(1) by (simp add: fun_upd_idem)
    then have "io_owners w' = io_owners w"
      using o1 orig by (auto simp: e(2) upd_owner_views)
    then show ?thesis using e same ok by (simp add: io_ok_def table_def upd_owner_views)
  next
    case True
    let ?s1 = "?s0\<lparr>ss_sock_fd := ?fd\<rparr>"
    have same: "io_sessions w1 = io_sessions w" "io_slots w1 = io_slots w" "io_next_slot w1 = io_next_slot w"
      and pos: "0 \<le> ?fd" and o1: "io_owners w1 = (io_owners w)(sid \<mapsto> ?s1)"
      and log1: "\<exists>pre. io_log w1 = io_log w @ pre @
            [EvBytes ?fd (BuildRegisterLine (NormalizeSubscriberRegistration (sc_registration (ss_config s))) @ [LF])]
            \<and> (\<forall>e \<in> set pre. \<exists>f. e = EvClose f)"
      using ce True s(1) by (auto simp: Let_def)
    obtain b2 w2 where a: "AttachSessionToIo sid pipe_ok w1 = (b2, w2)" by fastforce
    have own: "io_owners w1 sid = Some ?s1" "io_slots w1 (io_next_slot w1) = None" "0 \<le> ss_sock_fd ?s1"
      using o1 same nn pos by simp_all
    note ae = Attach_effect [OF own(1) a own(2,3)]
    have t1: "table w1 = table w" using same by (simp add: table_def)
    show ?thesis
    proof (cases b2)
      case True
      then have e: "r = True" "w' = w2" using st s c \<open>b\<close> a by (auto simp: Start_def)
      let ?sl = "\<lparr>sl_owner = Some sid, sl_fd = ?fd, sl_active = True, sl_read_buffer = [], sl_parse_offset = 0\<rparr>"
      let ?s2 = "?s1\<lparr>ss_slot := Some (io_next_slot w)\<rparr>"
      have v: "table w2 = (table w)(?fd \<mapsto> io_next_slot w)" "io_slots w2 = (io_slots w)(io_next_slot w \<mapsto> ?sl)"
        "io_owners w2 = (io_owners w)(sid \<mapsto> ?s2)" "io_next_slot w2 = io_next_slot w + 1" "io_log w2 = io_log w1"
        using ae True same t1 o1 by simp_all
      have "io_ok w2"
        unfolding io_ok_def v
        by (rule io_inv_attach [OF inv s(1) idle(1) fresh])
          (use pos in \<open>simp_all add: slot_ok_def kMaxBufferedBytes_def\<close>)
      then show ?thesis using e v pos log1 by (simp add: Let_def)
    next
      case False
      then have e: "r = False" "w' = ReportError sid ''register signaling session to shared io manager failed'' w2"
        using st s c \<open>b\<close> a by (auto simp: Start_def)
      have "(io_owners w)(sid \<mapsto> s) = io_owners w" using s(1) by (simp add: fun_upd_idem)
      moreover have "?s1\<lparr>ss_sock_fd := -1, ss_running := False\<rparr> = s" using s(2) idle by (cases s) simp
      ultimately have "io_owners w2 = io_owners w" using ae False o1 by simp
      moreover have "table w2 = table w" "io_slots w2 = io_slots w" "io_next_slot w2 = io_next_slot w + 1"
        using ae False same t1 by simp_all
      ultimately show ?thesis
        using e inv io_inv_mono_next [OF inv] by (simp add: core_same io_ok_def)
    qed
  qed
qed

subsection \<open>Sending, delegates and the step relation\<close>

lemma session_SendLine_core: "session_SendLine sid l as e w = (r, w') \<Longrightarrow> core w' = core w"
proof -
  assume a: "session_SendLine sid l as e w = (r, w')"
  show ?thesis
  proof (cases "io_owners w sid")
    case (Some s)
    obtain b v where b: "SendLine_io (ss_sock_fd s) l as w = (b, v)" by fastforce
    then show ?thesis using a Some core_SendLine [OF b] by (cases b) (auto simp: session_SendLine_def)
  qed (use a in \<open>simp add: session_SendLine_def\<close>)
qed

lemma Send_ok: "io_ok w \<Longrightarrow> io_ok (snd (Send sid m as e w))"
proof (cases "io_owners w sid")
  case (Some s)
  assume "io_ok w"
  obtain r w' where sl: "Send sid m as e w = (r, w')" by fastforce
  then have "core w' = core w"
    using Some session_SendLine_core by (auto simp: Send_def Let_def)
  from core_eqD(6) [OF this] show ?thesis using sl \<open>io_ok w\<close> by simp
qed (simp add: Send_def)

lemma SetDelegate_ok: "io_ok w \<Longrightarrow> io_ok (SetDelegate sid d w)"
proof (cases "io_owners w sid")
  case (Some s)
  assume "io_ok w"
  then have "io_inv (table w) (io_slots w) ((io_owners w)(sid \<mapsto> s\<lparr>ss_delegate := d\<rparr>)) (io_next_slot w)"
    using Some by (intro io_inv_owner) (simp_all add: io_ok_def own_eq_def)
  then show ?thesis using Some by (simp add: SetDelegate_def io_ok_def table_def upd_owner_views)
qed (simp add: SetDelegate_def upd_owner_def fun_upd_idem)

text \<open>Constructing a session object at an unused address.\<close>

definition create_session :: "nat \<Rightarrow> SessionConfig \<Rightarrow> Io \<Rightarrow> Io" where
  "create_session sid cfg w = w\<lparr>io_owners := (io_owners w)(sid \<mapsto> new_session cfg)\<rparr>"

lemma new_session_idle [simp]:
  "ss_slot (new_session cfg) = None" "ss_sock_fd (new_session cfg) = -1" "\<not> ss_running (new_session cfg)"
proof -
  obtain b ep where p: "ParseEndpoint (sc_server_addr cfg) (Some default_endpoint) = (b, ep)" by fastforce
  show "ss_slot (new_session cfg) = None" "ss_sock_fd (new_session cfg) = -1" "\<not> ss_running (new_session cfg)"
    by (cases b; cases ep; simp add: new_session_def p)+
qed

lemma create_session_ok:
  assumes "io_ok w" "io_owners w sid = None"
  shows "io_ok (create_session sid cfg w)"
proof -
  have inv: "io_inv (table w) (io_slots w) (io_owners w) (io_next_slot w)" using assms(1) by (simp add: io_ok_def)
  have "io_inv (table w) (io_slots w) ((io_owners w)(sid \<mapsto> new_session cfg)) (io_next_slot w)"
  proof (rule io_invI)
    fix fd i assume "table w fd = Some i"
    with inv obtain sl sid2 s where "io_slots w i = Some sl" "slot_ok fd sl" "sl_owner sl = Some sid2"
      "io_owners w sid2 = Some s" "ss_slot s = Some i" "ss_sock_fd s = fd" "ss_running s"
      by (rule io_inv_entry)
    then show "\<exists>sl sid2 s. io_slots w i = Some sl \<and> slot_ok fd sl \<and> sl_owner sl = Some sid2
      \<and> ((io_owners w)(sid \<mapsto> new_session cfg)) sid2 = Some s \<and> ss_slot s = Some i \<and> ss_sock_fd s = fd \<and> ss_running s"
      using assms(2) by auto
  next
    fix sid2 s i assume "((io_owners w)(sid \<mapsto> new_session cfg)) sid2 = Some s" "ss_slot s = Some i"
    then have p: "io_owners w sid2 = Some s" "ss_slot s = Some i" by (auto split: if_splits)
    from inv p obtain sl where "table w (ss_sock_fd s) = Some i" "io_slots w i = Some sl" "sl_owner sl = Some sid2"
      by (rule io_inv_session)
    then show "table w (ss_sock_fd s) = Some i \<and> (\<exists>sl. io_slots w i = Some sl \<and> sl_owner sl = Some sid2)" by auto
  qed (use io_inv_idle [OF inv] io_inv_slot [OF inv] in \<open>auto split: if_splits\<close>)
  then show ?thesis by (simp add: create_session_def io_ok_def table_def)
qed

definition io_init :: Io where
  "io_init = \<lparr>io_started = False, io_sessions = [], io_slots = (\<lambda>_. None), io_next_slot = 0,
     io_owners = (\<lambda>_. None), io_log = []\<rparr>"

text \<open>The system's contract for \<^verbatim>\<open>socket\<close>: a dialled descriptor is not one in use.\<close>

inductive io_step :: "Io \<Rightarrow> Io \<Rightarrow> bool" where
  io_create: "io_owners w sid = None \<Longrightarrow> io_step w (create_session sid cfg w)"
| io_start: "io_owners w sid = Some s \<Longrightarrow> table w (fst (DialSignalingTcp (ss_host s) da)) = None \<Longrightarrow>
     io_step w (snd (Start sid da as pipe_ok w))"
| io_stop: "io_step w (Stop sid w)"
| io_send: "io_step w (snd (Send sid m as e w))"
| io_delegate: "io_step w (SetDelegate sid d w)"
| io_round: "io_step w (Run_round ev w)"

inductive io_reachable :: "Io \<Rightarrow> bool" where
  io_reach_init: "io_reachable io_init"
| io_reach_step: "io_reachable w \<Longrightarrow> io_step w w' \<Longrightarrow> io_reachable w'"

lemma Start_ok:
  assumes "io_ok w" "io_owners w sid = Some s" "table w (fst (DialSignalingTcp (ss_host s) da)) = None"
  shows "io_ok (snd (Start sid da as pipe_ok w))"
proof (cases "ss_running s")
  case True
  then show ?thesis using assms by (simp add: Start_def)
next
  case False
  obtain r w' where "Start sid da as pipe_ok w = (r, w')" by fastforce
  with Start_outcome [OF assms(1,2) False assms(3)] show ?thesis by simp
qed

lemma io_step_ok: "io_step w w' \<Longrightarrow> io_ok w \<Longrightarrow> io_ok w'"
  by (induction rule: io_step.induct)
    (simp_all add: create_session_ok Start_ok Stop_ok Send_ok SetDelegate_ok Run_round_def Run_events_ok)

lemma io_init_ok: "io_ok io_init"
  by (simp add: io_ok_def io_inv_def io_init_def table_def)

lemma io_reachable_ok: "io_reachable w \<Longrightarrow> io_ok w"
  by (induction rule: io_reachable.induct) (auto intro: io_init_ok io_step_ok)

section \<open>Properties of sessions\<close>



subsection \<open>Silence after Stop\<close>

text \<open>A continuation of the log without delegate calls of a session, which is itself unchanged.\<close>

definition about :: "nat \<Rightarrow> io_event \<Rightarrow> bool" where
  "about sid e \<longleftrightarrow> (case e of EvMessage k _ \<Rightarrow> k = sid | EvError k _ \<Rightarrow> k = sid | _ \<Rightarrow> False)"

definition quiet :: "nat \<Rightarrow> Io \<Rightarrow> Io \<Rightarrow> bool" where
  "quiet sid w w' \<longleftrightarrow> (\<exists>l. io_log w' = io_log w @ l \<and> (\<forall>e \<in> set l. \<not> about sid e)) \<and> io_owners w' sid = io_owners w sid"

lemma quiet_refl [simp]: "quiet sid w w"
  by (auto simp: quiet_def)

lemma quiet_trans: "quiet sid a b \<Longrightarrow> quiet sid b c \<Longrightarrow> quiet sid a c"
  by (auto simp: quiet_def)

lemma not_owner:
  assumes "io_ok w" "io_owners w sid = Some s" "ss_slot s = None" "io_slots w i = Some sl"
  shows "sl_owner sl \<noteq> Some sid"
proof
  assume o: "sl_owner sl = Some sid"
  have inv: "io_inv (table w) (io_slots w) (io_owners w) (io_next_slot w)" using assms(1) by (simp add: io_ok_def)
  have "ss_slot s = Some i" by (rule io_inv_attached [OF inv assms(4) o]) (use assms(2) in simp)
  with assms(3) show False by simp
qed

lemma CloseSession_quiet:
  assumes "io_ok w" "io_owners w sid = Some s" "ss_slot s = None"
  shows "quiet sid w (CloseSession i err w)"
proof (cases "io_slots w i")
  case None
  then show ?thesis by (simp add: CloseSession_def detach_slot_def CloseFd_def)
next
  case (Some sl)
  obtain ow fd w' where d: "detach_slot i w = (ow, fd, w')" by (cases "detach_slot i w")
  note v = detach_slot_views [OF assms(1) Some d]
  have ne: "sl_owner sl \<noteq> Some sid" using not_owner [OF assms Some] .
  show ?thesis
    using v ne
    by (auto simp: CloseSession_def d quiet_def ReportError_def emit_def CloseFd_def upd_owner_views about_def
        Let_def split: option.split)
qed

lemma HandleReadable_quiet:
  assumes "io_ok w" "io_owners w sid = Some s" "ss_slot s = None"
  shows "quiet sid w (HandleReadable i ans w)"
proof (cases "io_slots w i")
  case None
  then show ?thesis by (simp add: HandleReadable_def)
next
  case (Some sl)
  have inv: "io_inv (table w) (io_slots w) (io_owners w) (io_next_slot w)" using assms(1) by (simp add: io_ok_def)
  have ne: "sl_owner sl \<noteq> Some sid" using not_owner [OF assms Some] .
  show ?thesis
  proof (cases ans)
    case (IoData d)
    let ?b = "sl_read_buffer sl @ d" and ?w1 = "upd_slot i (\<lambda>sl'. sl'\<lparr>sl_read_buffer := sl_read_buffer sl @ d\<rparr>) w"
    obtain ls off where dl: "drain_lines ?b (sl_parse_offset sl) = (ls, off)" by fastforce
    have fold: "quiet sid ?w1 (fold (DispatchLine i) ls ?w1)"
    proof (cases "sl_owner sl")
      case None
      then have "fold (DispatchLine i) ls ?w1 = ?w1"
        using Some by (intro fold_DispatchLine_unowned [of _ _ "sl\<lparr>sl_read_buffer := ?b\<rparr>"]) (simp_all add: upd_slot_views)
      then show ?thesis by simp
    next
      case (Some sid2)
      have "\<exists>s2. io_owners w sid2 = Some s2"
        by (rule io_inv_attached [OF inv \<open>io_slots w i = Some sl\<close> Some]) blast
      then obtain s2 where s2: "io_owners ?w1 sid2 = Some s2" by (auto simp: upd_slot_views)
      have "io_slots ?w1 i = Some (sl\<lparr>sl_read_buffer := ?b\<rparr>)" "sl_owner (sl\<lparr>sl_read_buffer := ?b\<rparr>) = Some sid2"
        using \<open>io_slots w i = Some sl\<close> Some by (simp_all add: upd_slot_views)
      from fold_DispatchLine_effect [OF this s2, of ls] show ?thesis
        using Some ne by (auto simp: quiet_def delegated_def about_def)
    qed
    have upd: "quiet sid v (upd_slot i f v)" "quiet sid w v \<longleftrightarrow> quiet sid ?w1 v" for v f
      by (auto simp: quiet_def upd_slot_views)
    have close: "quiet sid w (CloseSession i e ?w1)" for e
      using CloseSession_quiet [OF assms, of i e] quiet_trans upd(1) by (simp add: CloseSession_buffer)
    have "quiet sid w (fold (DispatchLine i) ls ?w1)" using fold upd(2) by blast
    then have final: "quiet sid w (upd_slot i f (fold (DispatchLine i) ls ?w1))" for f
      using upd(1) by (rule quiet_trans)
    show ?thesis
      using Some IoData dl close final by (simp add: HandleReadable_def Let_def split: prod.split)
  qed (use Some assms CloseSession_quiet in \<open>simp_all add: HandleReadable_def\<close>)
qed

lemma Run_events_quiet:
  "io_ok w \<Longrightarrow> io_owners w sid = Some s \<Longrightarrow> ss_slot s = None \<Longrightarrow> quiet sid w (Run_events es w)"
proof (induction es w rule: Run_events.induct)
  case (3 i es w)
  then have q: "quiet sid w (CloseSession i ''signaling connection closed'' w)" using CloseSession_quiet by blast
  then have "io_owners (CloseSession i ''signaling connection closed'' w) sid = Some s" using 3 by (simp add: quiet_def)
  with 3 CloseSession_ok quiet_trans [OF q] show ?case by simp
next
  case (4 i a es w)
  then have q: "quiet sid w (HandleReadable i a w)" using HandleReadable_quiet by blast
  then have "io_owners (HandleReadable i a w) sid = Some s" using 4 by (simp add: quiet_def)
  with 4 HandleReadable_ok quiet_trans [OF q] show ?case by simp
qed simp_all


text \<open>A reader with one attached session, whose buffer holds the start of a line.\<close>

definition demo_session :: TcpClientSession where
  "demo_session = \<lparr>ss_config = \<lparr>sc_server_addr = ''h:1'', sc_registration = default_registration\<lparr>reg_role := RoleSubscriber\<rparr>,
       sc_remember_last_remote_peer = True\<rparr>, ss_host = ''h'', ss_port = 1, ss_self_peer_id = [],
     ss_last_remote_peer_id = ''pub-1'', ss_sock_fd = 5, ss_running = True, ss_delegate = Some 0, ss_slot = Some 0\<rparr>"

definition demo_io :: "string \<Rightarrow> Io" where
  "demo_io buf = \<lparr>io_started = True, io_sessions = [(5, 0)],
     io_slots = [0 \<mapsto> \<lparr>sl_owner = Some 7, sl_fd = 5, sl_active = True, sl_read_buffer = buf, sl_parse_offset = 0\<rparr>],
     io_next_slot = 1, io_owners = [7 \<mapsto> demo_session], io_log = []\<rparr>"

lemma demo_io_ok: "LF \<notin> set buf \<Longrightarrow> length buf \<le> kMaxBufferedBytes \<Longrightarrow> io_ok (demo_io buf)"
  by (simp add: io_ok_def io_inv_def demo_io_def table_def slot_ok_def demo_session_def)


subsection \<open>Reading, starting and sending\<close>

text \<open>
  C12: A chunk received on an attached session completes some lines; the delegate is called with
  exactly the messages these lines parse to, in order, the welcome excepted, and the reader
  keeps exactly the unterminated rest.
\<close>

theorem readable_delivers_messages:
  assumes "io_ok w" and "io_slots w i = Some sl" and "sl_owner sl = Some sid" and "io_owners w sid = Some s"
    and "length (sl_read_buffer sl @ d) \<le> kMaxBufferedBytes"
  shows "let w' = HandleReadable i (IoData d) w; pend = drop (sl_parse_offset sl) (sl_read_buffer sl) @ d
    in io_ok w'
       \<and> io_log w' = io_log w @ (if ss_delegate s = None then []
            else map (EvMessage sid) (filter (\<lambda>m. m_type m \<noteq> kWelcome) (parsed (fst (split_lines pend)))))
       \<and> (\<exists>sl'. io_slots w' i = Some sl' \<and> drop (sl_parse_offset sl') (sl_read_buffer sl') = snd (split_lines pend))"
  using HandleReadable_data [OF assms] by (simp add: Let_def delegated_def)

theorem readable_delivers_messages_witness:
  "io_log (HandleReadable 0 (IoData [LF]) (demo_io (BuildMessageLine join_message)))
     = [EvMessage 7 (wire_message join_message)]"
proof -
  let ?l = "BuildMessageLine join_message"
  let ?sl = "\<lparr>sl_owner = Some 7, sl_fd = 5, sl_active = True, sl_read_buffer = ?l, sl_parse_offset = 0\<rparr>"
  have lf: "LF \<notin> set ?l" by (rule BuildMessageLine_no_break) simp
  have "length (?l @ [LF]) \<le> 100" by (simp add: BuildMessageLine_fields message_fields_def join_message_def
      default_message_def kSignalingProtocolVersion_def to_string_def show_nat.simps)
  then have len: "length (?l @ [LF]) \<le> kMaxBufferedBytes" by (simp add: kMaxBufferedBytes_def)
  have ok: "io_ok (demo_io ?l)" using lf len by (intro demo_io_ok) auto
  have "message_ints_ok join_message" "m_type join_message \<noteq> kUnknown"
    by (simp_all add: join_message_def message_ints_ok_def default_message_def default_registration_def)
  then have "parsed [?l] = [wire_message join_message]" by (simp add: parse_line_BuildMessageLine)
  moreover have "split_lines (?l @ [LF]) = ([?l], [])"
    using split_lines_line [OF lf, of "[]"] by (simp add: split_lines_none)
  moreover have "m_type (wire_message join_message) = kSubscriberJoin"
    by (simp add: wire_message_def join_message_def default_message_def Let_def)
  ultimately show ?thesis
    using readable_delivers_messages [OF ok, of 0 ?sl 7 demo_session "[LF]"] len
    by (simp add: demo_io_def demo_session_def Let_def del: parsed_simps)
qed

text \<open>
  Starting a stopped session either succeeds, and then the session runs on the dialled
  socket with a reader entry and its registration line went out on that socket, or fails, and
  then the session and the reader's table are as before. An unnamed subscriber registers for
  the default device and stream index 0.
\<close>

theorem start_outcome:
  assumes "io_ok w" and "io_owners w sid = Some s" and "\<not> ss_running s"
    and "table w (fst (DialSignalingTcp (ss_host s) da)) = None"
    and "Start sid da as pipe_ok w = (r, w')"
  shows "io_ok w' \<and> (if r then (let fd = fst (DialSignalingTcp (ss_host s) da);
          reg = NormalizeSubscriberRegistration (sc_registration (ss_config s)) in
        IsRunning sid w' \<and> table w' fd = Some (io_next_slot w)
        \<and> EvBytes fd (BuildRegisterLine reg @ [LF]) \<in> set (io_log w')
        \<and> (reg_role (sc_registration (ss_config s)) = RoleSubscriber
             \<longrightarrow> reg_device_id reg \<noteq> [] \<and> 0 \<le> reg_stream_index reg))
      else io_owners w' = io_owners w \<and> table w' = table w)"
proof -
  note o = Start_outcome [OF assms]
  have "reg_role reg = RoleSubscriber \<Longrightarrow> reg_device_id (NormalizeSubscriberRegistration reg) \<noteq> []
      \<and> 0 \<le> reg_stream_index (NormalizeSubscriberRegistration reg)" for reg
    by (simp add: NormalizeSubscriberRegistration_def Let_def)
  with o show ?thesis by (cases r) (auto simp: Let_def IsRunning_def)
qed

definition idle_session :: TcpClientSession where
  "idle_session = demo_session\<lparr>ss_sock_fd := -1, ss_running := False, ss_slot := None\<rparr>"

definition idle_io :: Io where
  "idle_io = io_init\<lparr>io_owners := [7 \<mapsto> idle_session]\<rparr>"

definition dial_ok :: DialAnswers where
  "dial_ok = \<lparr>da_is_ipv4 = False, da_socket4 = -1, da_connect4 = False, da_gai_error = None,
     da_addrs = [(4, False), (-1, False), (5, True)], da_strerror = []\<rparr>"

theorem start_outcome_witness:
  "\<exists>r w'. Start 7 dial_ok [SendBytes 4096] True idle_io = (r, w') \<and> io_ok w'
     \<and> (if r then IsRunning 7 w' else table w' = table idle_io)"
proof -
  have a: "io_ok idle_io"
    by (simp add: io_ok_def io_inv_def idle_io_def io_init_def table_def idle_session_def)
  have b: "io_owners idle_io 7 = Some idle_session" "\<not> ss_running idle_session"
    "table idle_io (fst (DialSignalingTcp (ss_host idle_session) dial_ok)) = None"
    by (simp_all add: idle_io_def io_init_def table_def idle_session_def)
  obtain r w' where st: "Start 7 dial_ok [SendBytes 4096] True idle_io = (r, w')" by fastforce
  have "io_ok w' \<and> (if r then IsRunning 7 w' else table w' = table idle_io)"
    using start_outcome [OF a b st] by (simp add: Let_def split: if_splits)
  with st show ?thesis by (intro exI [of _ r] exI [of _ w']) simp
qed

text \<open>
  A message without an explicit target goes to the peer heard from last when the session
  remembers it; a successful send puts exactly that line on the session's socket.
\<close>

theorem send_resolves_target:
  assumes "io_owners w sid = Some s" and "Send sid msg as e w = (True, w')"
  shows "\<exists>out. io_log w' = io_log w @ [EvBytes (ss_sock_fd s) (BuildMessageLine out @ [LF])]
    \<and> out = msg\<lparr>m_to := (if m_to msg \<noteq> [] then m_to msg
                         else if sc_remember_last_remote_peer (ss_config s) then ss_last_remote_peer_id s else [])\<rparr>
    \<and> 0 \<le> ss_sock_fd s \<and> core w' = core w"
proof -
  define out where "out = msg\<lparr>m_to := (if m_to msg \<noteq> [] then m_to msg
       else if sc_remember_last_remote_peer (ss_config s) then ss_last_remote_peer_id s else [])\<rparr>"
  have snd: "session_SendLine sid (BuildMessageLine out) as e w = (True, w')"
    using assms by (auto simp: Send_def out_def ResolveTargetPeer_def Let_def split: if_splits)
  then have "SendLine_io (ss_sock_fd s) (BuildMessageLine out) as w = (True, w')"
    using assms(1) by (auto simp: session_SendLine_def split: prod.splits bool.splits)
  then show ?thesis
    using SendLine_io_success session_SendLine_core [OF snd] by (auto simp: out_def)
qed

theorem send_resolves_target_witness:
  "\<exists>w'. Send 7 join_message [SendBytes 4096] [] (demo_io []) = (True, w')
     \<and> io_log w' = [EvBytes 5 (BuildMessageLine (join_message\<lparr>m_to := ''pub-1''\<rparr>) @ [LF])]"
proof -
  have owner: "io_owners (demo_io []) 7 = Some demo_session" by (simp add: demo_io_def)
  let ?out = "join_message\<lparr>m_to := ''pub-1''\<rparr>"
  have line: "\<exists>c cs. BuildMessageLine ?out @ [LF] = c # cs \<and> length cs < 4096"
    by (simp add: BuildMessageLine_fields message_fields_def join_message_def default_message_def
        kSignalingProtocolVersion_def to_string_def show_nat.simps)
  then have "fst (Send 7 join_message [SendBytes 4096] [] (demo_io []))"
    using owner
    by (auto simp: Send_def session_SendLine_def SendLine_io_def transport_SendLine_def demo_session_def
        ResolveTargetPeer_def join_message_def default_message_def Let_def)
  then obtain w' where w': "Send 7 join_message [SendBytes 4096] [] (demo_io []) = (True, w')"
    by (metis (full_types) prod.collapse)
  then show ?thesis
    using send_resolves_target [OF owner w']
    by (simp add: demo_io_def demo_session_def join_message_def default_message_def)
qed

end
