(* ===== verification/Thread_Pool.thy ===== *)
theory Thread_Pool
  imports RF_Prelude "HOL-Library.Multiset"
begin

text \<open>
  The process-wide worker pool of \<^verbatim>\<open>src/core/thread/thread_pool.cpp\<close>: a FIFO of tasks, a queue
  of delayed tasks ordered by due time, one scheduler. Tasks are abstract values; the pool's
  state records the tasks in the order in which the workers took them. Time is the value of
  the monotonic clock in milliseconds. Each critical section of \<^verbatim>\<open>g_mu\<close> is one step.
\<close>

record 'a Pool =
  tp_workers :: nat
  tp_tasks :: "'a list"
  tp_delayed :: "(nat \<times> 'a) list"
  tp_stop :: bool
  tp_started :: "'a list"

definition pool_init :: "'a Pool" where
  "pool_init = \<lparr>tp_workers = 0, tp_tasks = [], tp_delayed = [], tp_stop = False, tp_started = []\<rparr>"

text \<open>\<^verbatim>\<open>std::multimap::emplace\<close>: after the entries with a due time not greater.\<close>

fun emplace_due :: "nat \<Rightarrow> 'a \<Rightarrow> (nat \<times> 'a) list \<Rightarrow> (nat \<times> 'a) list" where
  "emplace_due d x [] = [(d, x)]"
| "emplace_due d x ((e, y) # q) = (if e \<le> d then (e, y) # emplace_due d x q else (d, x) # (e, y) # q)"

definition pool_initialize :: "int \<Rightarrow> nat \<Rightarrow> 'a Pool \<Rightarrow> bool \<times> 'a Pool" where
  "pool_initialize worker_count hw p =
     (if tp_workers p \<noteq> 0 then (True, p)
      else let n = (if worker_count \<le> 0 then (if hw = 0 then 4 else hw) else nat worker_count)
           in (True, p\<lparr>tp_stop := False, tp_workers := n\<rparr>))"

definition post :: "'a option \<Rightarrow> 'a Pool \<Rightarrow> 'a Pool" where
  "post fn p = (case fn of None \<Rightarrow> p | Some x \<Rightarrow> p\<lparr>tp_tasks := tp_tasks p @ [x]\<rparr>)"

definition post_after :: "nat \<Rightarrow> int \<Rightarrow> 'a option \<Rightarrow> 'a Pool \<Rightarrow> 'a Pool" where
  "post_after now delay fn p =
     (case fn of
        None \<Rightarrow> p
      | Some x \<Rightarrow> if delay \<le> 0 then post (Some x) p
                  else p\<lparr>tp_delayed := emplace_due (now + nat delay) x (tp_delayed p)\<rparr>)"

text \<open>One round of \<^verbatim>\<open>worker_loop\<close> that finds a task.\<close>

definition worker_take :: "'a Pool \<Rightarrow> 'a Pool" where
  "worker_take p =
     (case tp_tasks p of [] \<Rightarrow> p | x # q \<Rightarrow> p\<lparr>tp_tasks := q, tp_started := tp_started p @ [x]\<rparr>)"

text \<open>The loop of \<^verbatim>\<open>scheduler_loop\<close> that moves due tasks, after the wait returned at time \<open>now\<close>.\<close>

fun move_due :: "nat \<Rightarrow> (nat \<times> 'a) list \<Rightarrow> 'a list \<times> (nat \<times> 'a) list" where
  "move_due now [] = ([], [])"
| "move_due now ((d, x) # q) =
     (if d \<le> now then (case move_due now q of (xs, r) \<Rightarrow> (x # xs, r)) else ([], (d, x) # q))"

definition scheduler_round :: "nat \<Rightarrow> 'a Pool \<Rightarrow> 'a Pool" where
  "scheduler_round now p =
     (if tp_stop p then p
      else case move_due now (tp_delayed p) of
             (xs, r) \<Rightarrow> p\<lparr>tp_tasks := tp_tasks p @ xs, tp_delayed := r\<rparr>)"

text \<open>
  \<^verbatim>\<open>shutdown\<close> with no concurrent \<^verbatim>\<open>post\<close>: delayed tasks are dropped, and joining the workers lets
  them take every queued task first (a pool without workers drops the queue instead).
\<close>

definition pool_shutdown :: "'a Pool \<Rightarrow> 'a Pool" where
  "pool_shutdown p =
     p\<lparr>tp_stop := True, tp_delayed := [], tp_workers := 0, tp_tasks := [],
       tp_started := tp_started p @ (if tp_workers p = 0 then [] else tp_tasks p)\<rparr>"

section \<open>Order\<close>

lemma emplace_due_sorted: "sorted (map fst q) \<Longrightarrow> sorted (map fst (emplace_due d x q))"
proof (induction q)
  case (Cons a q)
  obtain e y where a: "a = (e, y)" by (cases a)
  have "set (emplace_due d x q) = insert (d, x) (set q)"
    by (induction d x q rule: emplace_due.induct) auto
  with Cons a show ?case by auto
qed simp

lemma emplace_due_mset: "mset (map snd (emplace_due d x q)) = add_mset x (mset (map snd q))"
  by (induction d x q rule: emplace_due.induct) auto

text \<open>Tasks posted for the same time keep their order.\<close>

lemma emplace_due_stable:
  "sorted (map fst q) \<Longrightarrow>
   filter (\<lambda>e. fst e = t) (emplace_due d x q) =
     filter (\<lambda>e. fst e = t) q @ (if t = d then [(d, x)] else [])"
proof (induction q)
  case (Cons a q)
  obtain e y where a: "a = (e, y)" by (cases a)
  show ?case
  proof (cases "e \<le> d")
    case False
    then have "\<forall>p \<in> set (a # q). d < fst p" using Cons.prems a by auto
    then have "filter (\<lambda>p. fst p = d) (a # q) = []" by (auto simp: filter_empty_conv)
    with False a show ?thesis by auto
  qed (use Cons a in auto)
qed simp

lemma move_due_split:
  "sorted (map fst q) \<Longrightarrow> move_due now q = (xs, r) \<Longrightarrow>
     xs = map snd (filter (\<lambda>e. fst e \<le> now) q) \<and> r = filter (\<lambda>e. now < fst e) q"
proof (induction q arbitrary: xs r)
  case (Cons a q)
  obtain d x where a: "a = (d, x)" by (cases a)
  show ?case
  proof (cases "d \<le> now")
    case True
    then show ?thesis using Cons a by (auto split: prod.splits)
  next
    case False
    then have "\<forall>p \<in> set q. now < fst p" using Cons.prems(1) a by auto
    then have "filter (\<lambda>e. fst e \<le> now) q = []" "filter (\<lambda>e. now < fst e) q = q"
      by (auto simp: filter_empty_conv filter_id_conv)
    then show ?thesis using False Cons.prems a by auto
  qed
qed simp

section \<open>Steps and conservation of tasks\<close>

datatype 'a pool_act =
    Initialize int nat | Post 'a | PostAfter nat int 'a | Take | Schedule nat

fun pool_act_run :: "'a pool_act \<Rightarrow> 'a Pool \<Rightarrow> 'a Pool" where
  "pool_act_run (Initialize n hw) p = snd (pool_initialize n hw p)"
| "pool_act_run (Post x) p = post (Some x) p"
| "pool_act_run (PostAfter now d x) p = post_after now d (Some x) p"
| "pool_act_run Take p = worker_take p"
| "pool_act_run (Schedule now) p = scheduler_round now p"

fun posted :: "'a pool_act list \<Rightarrow> 'a list" where
  "posted [] = []"
| "posted (Post x # as) = x # posted as"
| "posted (PostAfter now d x # as) = x # posted as"
| "posted (_ # as) = posted as"

definition pool_run :: "'a pool_act list \<Rightarrow> 'a Pool \<Rightarrow> 'a Pool" where
  "pool_run as p = fold pool_act_run as p"

lemma move_due_mset: "move_due now q = (xs, r) \<Longrightarrow> mset xs + mset (map snd r) = mset (map snd q)"
  by (induction q arbitrary: xs r) (auto split: if_splits prod.splits)

definition pool_content :: "'a Pool \<Rightarrow> 'a multiset" where
  "pool_content p = mset (tp_started p) + mset (tp_tasks p) + mset (map snd (tp_delayed p))"

lemma pool_act_content:
  "pool_content (pool_act_run a p) = pool_content p + mset (posted [a])"
proof (cases a)
  case (PostAfter now d x)
  then show ?thesis
    using emplace_due_mset [of "now + nat d" x "tp_delayed p"]
    by (simp add: pool_content_def post_after_def post_def)
next
  case (Schedule now)
  obtain xs r where "move_due now (tp_delayed p) = (xs, r)" by fastforce
  then show ?thesis
    using Schedule move_due_mset [of now "tp_delayed p" xs r] by (simp add: pool_content_def scheduler_round_def)
qed (auto simp: pool_content_def pool_initialize_def post_def worker_take_def Let_def split: list.split)

lemma posted_append: "posted (as @ bs) = posted as @ posted bs"
  by (induction as rule: posted.induct) simp_all

lemma pool_run_content: "pool_content (pool_run as p) = pool_content p + mset (posted as)"
proof (induction as rule: rev_induct)
  case (snoc a as)
  then show ?case by (simp add: pool_run_def pool_act_content posted_append)
qed (simp add: pool_run_def)

lemma pool_act_sorted: "sorted (map fst (tp_delayed p)) \<Longrightarrow> sorted (map fst (tp_delayed (pool_act_run a p)))"
proof (cases a)
  case (Schedule now)
  assume s: "sorted (map fst (tp_delayed p))"
  obtain xs r where m: "move_due now (tp_delayed p) = (xs, r)" by fastforce
  then have "r = filter (\<lambda>e. now < fst e) (tp_delayed p)" using move_due_split [OF s m] by simp
  then show ?thesis using Schedule s m by (simp add: scheduler_round_def sorted_filter)
qed (auto simp: pool_initialize_def post_def post_after_def worker_take_def Let_def emplace_due_sorted
    split: list.split)

lemma pool_run_sorted: "sorted (map fst (tp_delayed (pool_run as pool_init)))"
proof (induction as rule: rev_induct)
  case (snoc a as)
  then show ?case using pool_act_sorted by (simp add: pool_run_def)
qed (simp add: pool_run_def pool_init_def)

section \<open>Properties\<close>

text \<open>
  C13: Whatever the interleaving of posts, delayed posts, workers and scheduler, every posted
  task is at each moment either started once, queued once or waiting once: none is lost and
  none runs twice. The delayed queue stays ordered by due time, and a scheduler round moves
  exactly the due tasks to the back of the queue in due order.
\<close>

theorem pool_conserves_tasks:
  "(let p = pool_run as pool_init in
     mset (tp_started p) + mset (tp_tasks p) + mset (map snd (tp_delayed p)) = mset (posted as)
     \<and> sorted (map fst (tp_delayed p))
     \<and> (tp_stop p \<or> (tp_tasks (scheduler_round now p)
            = tp_tasks p @ map snd (filter (\<lambda>e. fst e \<le> now) (tp_delayed p))
          \<and> tp_delayed (scheduler_round now p) = filter (\<lambda>e. now < fst e) (tp_delayed p))))"
proof -
  let ?p = "pool_run as pool_init"
  have "pool_content ?p = mset (posted as)"
    by (simp add: pool_run_content) (simp add: pool_content_def pool_init_def)
  moreover have s: "sorted (map fst (tp_delayed ?p))" by (rule pool_run_sorted)
  moreover obtain xs r where m: "move_due now (tp_delayed ?p) = (xs, r)" by fastforce
  ultimately show ?thesis
    using move_due_split [OF s m] by (simp add: pool_content_def scheduler_round_def Let_def)
qed

lemma fold_Take: "fold (\<lambda>_. worker_take) (tp_tasks p) p = p\<lparr>tp_tasks := [], tp_started := tp_started p @ tp_tasks p\<rparr>"
proof (induction "tp_tasks p" arbitrary: p)
  case Nil
  then show ?case by (cases p) simp
next
  case (Cons x q)
  then have t: "tp_tasks p = x # q" by simp
  have w: "worker_take p = p\<lparr>tp_tasks := q, tp_started := tp_started p @ [x]\<rparr>" using t by (simp add: worker_take_def)
  have "fold (\<lambda>_. worker_take) q (worker_take p) = (worker_take p)\<lparr>tp_tasks := [], tp_started := tp_started (worker_take p) @ q\<rparr>"
    using Cons(1) [of "worker_take p"] w by simp
  then show ?case using t w by simp
qed

text \<open>
  Shutting the pool down equals letting the workers take every queued task in order and
  dropping every delayed one; afterwards no scheduler round queues anything, and a worker
  starts nothing until something is posted again.
\<close>

theorem pool_shutdown_drains:
  assumes "tp_workers p \<noteq> 0"
  shows "tp_started (pool_shutdown p) = tp_started (fold (\<lambda>_. worker_take) (tp_tasks p) p)
    \<and> tp_started (pool_shutdown p) = tp_started p @ tp_tasks p
    \<and> tp_tasks (scheduler_round now (pool_shutdown p)) = []
    \<and> worker_take (pool_shutdown p) = pool_shutdown p"
  using assms by (simp add: fold_Take pool_shutdown_def scheduler_round_def worker_take_def)

theorem pool_shutdown_drains_witness:
  "tp_started (pool_shutdown (pool_run [Initialize 2 8, PostAfter 0 50 (3::nat), Post 1, Post 2] pool_init)) = [1, 2]"
proof -
  let ?p = "pool_run [Initialize 2 8, PostAfter 0 50 (3::nat), Post 1, Post 2] pool_init"
  have p: "tp_workers ?p \<noteq> 0" "tp_started ?p = []" "tp_tasks ?p = [1, 2]"
    by (simp_all add: pool_run_def pool_init_def pool_initialize_def post_after_def post_def Let_def)
  have "tp_started (pool_shutdown ?p) = tp_started ?p @ tp_tasks ?p"
    using pool_shutdown_drains [OF p(1), of 0] by blast
  then show ?thesis unfolding p by simp
qed

end
