(* ===== verification/Offer_Pump.thy ===== *)
theory Offer_Pump
  imports RF_Prelude
begin

text \<open>
  The single-flight dispatcher of \<^verbatim>\<open>src/service/impl/subscriber_offer_pump.cpp\<close>: peers are queued
  from any thread and handed one after the other to a callback on a pool worker, and \<^verbatim>\<open>Stop\<close>
  waits until the dispatcher is out of the callback. The state has one program counter per
  \<^verbatim>\<open>DrainOnce\<close> task in the pool, and a step relation interleaves them with \<^verbatim>\<open>Start\<close>, \<^verbatim>\<open>Enqueue\<close>
  and the two halves of \<^verbatim>\<open>Stop\<close>. That at most one such task exists is a theorem, not part of
  the model. \<^verbatim>\<open>pm_accepted\<close> and \<^verbatim>\<open>pm_log\<close> record the accepted and the dispatched peers.
\<close>

section \<open>State and operations\<close>

text \<open>
  Where a \<^verbatim>\<open>DrainOnce\<close> task stands: at the top of its loop (also when it is still queued in the
  pool), between two peers of its batch, or inside the callback.
\<close>

datatype drain_pc = DTop | DBatch "string list" | DCall string "string list"

record SubscriberOfferPump =
  pm_on_dispatch :: bool
  pm_running :: bool
  pm_stopping :: bool
  pm_dispatching :: bool
  pm_queue :: "string list"
  pm_drains :: "drain_pc list"
  pm_waiting :: bool
  pm_accepted :: "string list"
  pm_log :: "string list"

definition pump_init :: SubscriberOfferPump where
  "pump_init = \<lparr>pm_on_dispatch = False, pm_running = False, pm_stopping = False, pm_dispatching = False,
     pm_queue = [], pm_drains = [], pm_waiting = False, pm_accepted = [], pm_log = []\<rparr>"

definition pump_Start :: "bool \<Rightarrow> SubscriberOfferPump \<Rightarrow> SubscriberOfferPump" where
  "pump_Start has_fn p =
     (if pm_running p then p
      else p\<lparr>pm_on_dispatch := has_fn, pm_stopping := False, pm_running := True\<rparr>)"

text \<open>\<^verbatim>\<open>Stop\<close> up to its wait, and what it does once the wait is over.\<close>

definition pump_Stop_begin :: "SubscriberOfferPump \<Rightarrow> SubscriberOfferPump" where
  "pump_Stop_begin p =
     (if \<not> pm_running p then p
      else p\<lparr>pm_running := False, pm_stopping := True, pm_waiting := True\<rparr>)"

definition pump_Stop_end :: "SubscriberOfferPump \<Rightarrow> SubscriberOfferPump" where
  "pump_Stop_end p = p\<lparr>pm_queue := [], pm_waiting := False\<rparr>"

definition ScheduleDispatchLocked :: "SubscriberOfferPump \<Rightarrow> SubscriberOfferPump" where
  "ScheduleDispatchLocked p = p\<lparr>pm_dispatching := True, pm_drains := pm_drains p @ [DTop]\<rparr>"

definition pump_Enqueue :: "string \<Rightarrow> SubscriberOfferPump \<Rightarrow> SubscriberOfferPump" where
  "pump_Enqueue peer p =
     (if \<not> pm_running p \<or> pm_stopping p then p
      else let p = p\<lparr>pm_queue := pm_queue p @ [peer], pm_accepted := pm_accepted p @ [peer]\<rparr>
           in if \<not> pm_dispatching p then ScheduleDispatchLocked p else p)"

text \<open>One step of the \<open>k\<close>-th \<^verbatim>\<open>DrainOnce\<close> task.\<close>

definition drop_nth :: "nat \<Rightarrow> 'a list \<Rightarrow> 'a list" where
  "drop_nth k xs = take k xs @ drop (Suc k) xs"

definition DrainOnce_step :: "nat \<Rightarrow> SubscriberOfferPump \<Rightarrow> SubscriberOfferPump" where
  "DrainOnce_step k p =
     (case pm_drains p ! k of
        DTop \<Rightarrow>
          if pm_stopping p \<or> pm_queue p = []
          then p\<lparr>pm_dispatching := False, pm_drains := drop_nth k (pm_drains p)\<rparr>
          else p\<lparr>pm_queue := [],
                 pm_drains := (pm_drains p)[k := if pm_on_dispatch p then DBatch (pm_queue p) else DTop]\<rparr>
      | DBatch [] \<Rightarrow> p\<lparr>pm_drains := (pm_drains p)[k := DTop]\<rparr>
      | DBatch (x # xs) \<Rightarrow>
          if pm_stopping p then p\<lparr>pm_drains := (pm_drains p)[k := DTop]\<rparr>
          else p\<lparr>pm_drains := (pm_drains p)[k := DCall x xs], pm_log := pm_log p @ [x]\<rparr>
      | DCall x xs \<Rightarrow> p\<lparr>pm_drains := (pm_drains p)[k := DBatch xs]\<rparr>)"

text \<open>
  The interleavings. The rule for \<^verbatim>\<open>Start\<close> carries the documented contract of the class: it is
  called once, on a fresh object.
\<close>

inductive pump_step :: "SubscriberOfferPump \<Rightarrow> SubscriberOfferPump \<Rightarrow> bool" where
  pump_start: "p = pump_init \<Longrightarrow> pump_step p (pump_Start f p)"
| pump_stop: "pump_step p (pump_Stop_begin p)"
| pump_stopped: "pm_waiting p \<Longrightarrow> \<not> pm_dispatching p \<Longrightarrow> pump_step p (pump_Stop_end p)"
| pump_enqueue: "pump_step p (pump_Enqueue x p)"
| pump_drain: "k < length (pm_drains p) \<Longrightarrow> pump_step p (DrainOnce_step k p)"

inductive pump_reachable :: "SubscriberOfferPump \<Rightarrow> bool" where
  pump_reach_init: "pump_reachable pump_init"
| pump_reach_step: "pump_reachable p \<Longrightarrow> pump_step p q \<Longrightarrow> pump_reachable q"

inductive_cases pump_stepE: "pump_step p q"

section \<open>The invariant\<close>

fun in_hand :: "drain_pc list \<Rightarrow> string list" where
  "in_hand [DBatch xs] = xs"
| "in_hand [DCall x xs] = xs"
| "in_hand _ = []"

definition pump_inv :: "SubscriberOfferPump \<Rightarrow> bool" where
  "pump_inv p \<longleftrightarrow>
     (pm_drains p = [] \<and> \<not> pm_dispatching p \<or> (\<exists>c. pm_drains p = [c]) \<and> pm_dispatching p)
     \<and> (pm_queue p \<noteq> [] \<longrightarrow> pm_dispatching p \<or> pm_stopping p)
     \<and> (pm_running p \<longrightarrow> \<not> pm_stopping p \<and> \<not> pm_waiting p)
     \<and> (pm_waiting p \<longrightarrow> pm_stopping p)
     \<and> (\<not> pm_running p \<and> \<not> pm_waiting p \<longrightarrow> pm_queue p = [] \<and> pm_drains p = [])
     \<and> prefix (pm_log p @ in_hand (pm_drains p)) (pm_accepted p)
     \<and> (pm_running p \<and> pm_on_dispatch p \<longrightarrow> pm_accepted p = pm_log p @ in_hand (pm_drains p) @ pm_queue p)
     \<and> (\<not> pm_on_dispatch p \<longrightarrow> pm_log p = [] \<and> in_hand (pm_drains p) = [])"

lemma pump_inv_drains:
  assumes "pump_inv p" "k < length (pm_drains p)"
  obtains c where "pm_drains p = [c]" "k = 0" "pm_dispatching p"
  using assms unfolding pump_inv_def by auto

lemma Enqueue_inv:
  assumes "pump_inv p"
  shows "pump_inv (pump_Enqueue x p)"
proof (cases "\<not> pm_running p \<or> pm_stopping p")
  case True
  then show ?thesis using assms by (simp add: pump_Enqueue_def)
next
  case False
  consider "pm_drains p = []" "\<not> pm_dispatching p" | c where "pm_drains p = [c]" "pm_dispatching p"
    using assms unfolding pump_inv_def by auto
  then show ?thesis
  proof cases
    case 1
    then show ?thesis
      using assms False unfolding pump_inv_def
      by (auto simp: pump_Enqueue_def ScheduleDispatchLocked_def Let_def)
  next
    case 2
    then show ?thesis
      using assms False unfolding pump_inv_def
      by (auto simp: pump_Enqueue_def Let_def)
  qed
qed

lemma DrainOnce_inv:
  assumes "pump_inv p" "k < length (pm_drains p)"
  shows "pump_inv (DrainOnce_step k p)"
proof -
  obtain c where c: "pm_drains p = [c]" "k = 0" "pm_dispatching p"
    using pump_inv_drains [OF assms] .
  show ?thesis
  proof (cases c)
    case DTop
    then show ?thesis
      using assms(1) c unfolding pump_inv_def by (auto simp: DrainOnce_step_def drop_nth_def)
  next
    case (DBatch xs)
    then show ?thesis
      using assms(1) c unfolding pump_inv_def
      by (cases xs) (auto simp: DrainOnce_step_def intro: append_prefixD)
  next
    case (DCall x xs)
    then show ?thesis
      using assms(1) c unfolding pump_inv_def by (auto simp: DrainOnce_step_def)
  qed
qed

lemma pump_step_inv: "pump_step p q \<Longrightarrow> pump_inv p \<Longrightarrow> pump_inv q"
proof (induction rule: pump_step.induct)
  case (pump_start p f)
  then show ?case by (simp add: pump_inv_def pump_Start_def pump_init_def)
next
  case (pump_stop p)
  then show ?case unfolding pump_inv_def by (auto simp: pump_Stop_begin_def)
next
  case (pump_stopped p)
  then show ?case unfolding pump_inv_def by (auto simp: pump_Stop_end_def)
qed (simp_all add: Enqueue_inv DrainOnce_inv)

lemma pump_reachable_inv: "pump_reachable p \<Longrightarrow> pump_inv p"
proof (induction rule: pump_reachable.induct)
  case pump_reach_init
  then show ?case by (simp add: pump_inv_def pump_init_def)
qed (rule pump_step_inv)

section \<open>Progress\<close>

text \<open>The work a \<^verbatim>\<open>DrainOnce\<close> task still has to do when nothing is added.\<close>

fun pc_work :: "drain_pc \<Rightarrow> nat" where
  "pc_work DTop = 1"
| "pc_work (DBatch xs) = 2 * length xs + 2"
| "pc_work (DCall x xs) = 2 * length xs + 3"

definition pump_work :: "SubscriberOfferPump \<Rightarrow> nat" where
  "pump_work p = 4 * length (pm_queue p) + sum_list (map pc_work (pm_drains p))"

lemma DrainOnce_work:
  assumes "pump_inv p" "k < length (pm_drains p)"
  shows "pump_work (DrainOnce_step k p) < pump_work p"
proof -
  obtain c where c: "pm_drains p = [c]" "k = 0" using pump_inv_drains [OF assms] .
  show ?thesis
  proof (cases c)
    case DTop
    then show ?thesis
      using c by (cases "pm_queue p") (auto simp: pump_work_def DrainOnce_step_def drop_nth_def)
  next
    case (DBatch xs)
    then show ?thesis using c by (cases xs) (auto simp: pump_work_def DrainOnce_step_def)
  next
    case (DCall x xs)
    then show ?thesis using c by (auto simp: pump_work_def DrainOnce_step_def)
  qed
qed

text \<open>Running the dispatcher alone ends, in a state where it has left the pool.\<close>

lemma DrainOnce_keeps:
  "pm_stopping (DrainOnce_step k p) = pm_stopping p" "pm_running (DrainOnce_step k p) = pm_running p"
  "pm_on_dispatch (DrainOnce_step k p) = pm_on_dispatch p" "pm_accepted (DrainOnce_step k p) = pm_accepted p"
  "pm_waiting (DrainOnce_step k p) = pm_waiting p"
  by (auto simp: DrainOnce_step_def split: drain_pc.split list.split)

lemma drain_finishes:
  assumes "pump_inv p"
  shows "\<exists>n. let q = (DrainOnce_step 0 ^^ n) p in pm_drains q = [] \<and> pump_inv q
    \<and> pm_stopping q = pm_stopping p \<and> pm_running q = pm_running p \<and> pm_on_dispatch q = pm_on_dispatch p
    \<and> pm_accepted q = pm_accepted p \<and> pm_waiting q = pm_waiting p"
  using assms
proof (induction "pump_work p" arbitrary: p rule: less_induct)
  case less
  show ?case
  proof (cases "pm_drains p = []")
    case True
    then show ?thesis using less.prems by (intro exI [of _ 0]) simp
  next
    case False
    then have k: "0 < length (pm_drains p)" by simp
    let ?p' = "DrainOnce_step 0 p"
    obtain n where "let q = (DrainOnce_step 0 ^^ n) ?p' in pm_drains q = [] \<and> pump_inv q
        \<and> pm_stopping q = pm_stopping ?p' \<and> pm_running q = pm_running ?p' \<and> pm_on_dispatch q = pm_on_dispatch ?p'
        \<and> pm_accepted q = pm_accepted ?p' \<and> pm_waiting q = pm_waiting ?p'"
      using less.hyps [OF DrainOnce_work [OF less.prems k] DrainOnce_inv [OF less.prems k]] by blast
    then show ?thesis
      by (intro exI [of _ "Suc n"]) (simp add: DrainOnce_keeps funpow_Suc_right del: funpow.simps)
  qed
qed

section \<open>Properties\<close>

text \<open>
  C14: In every reachable state at most one dispatch task exists, and the flag says whether one
  does: the callback is never run by two threads at once. The peers dispatched so far are, in
  order, an initial segment of those accepted, and while the pump runs with a callback nothing
  accepted is lost: what is not yet dispatched is in the task's batch or in the queue, in order.
\<close>

theorem pump_single_flight:
  assumes "pump_reachable p"
  shows "length (pm_drains p) \<le> 1 \<and> (pm_dispatching p \<longleftrightarrow> pm_drains p \<noteq> [])
    \<and> prefix (pm_log p) (pm_accepted p)
    \<and> (pm_running p \<and> pm_on_dispatch p \<longrightarrow> pm_accepted p = pm_log p @ in_hand (pm_drains p) @ pm_queue p)"
  using pump_reachable_inv [OF assms] unfolding pump_inv_def by (auto intro: append_prefixD)

definition demo_pump :: SubscriberOfferPump where
  "demo_pump = DrainOnce_step 0 (DrainOnce_step 0 (pump_Enqueue ''b'' (pump_Enqueue ''a'' (pump_Start True pump_init))))"

lemma demo_pump_state:
  "demo_pump = \<lparr>pm_on_dispatch = True, pm_running = True, pm_stopping = False, pm_dispatching = True, pm_queue = [],
     pm_drains = [DCall ''a'' [''b'']], pm_waiting = False, pm_accepted = [''a'', ''b''], pm_log = [''a'']\<rparr>"
  by (simp add: demo_pump_def pump_Start_def pump_Enqueue_def ScheduleDispatchLocked_def DrainOnce_step_def
      pump_init_def Let_def)

lemma demo_pump_reachable: "pump_reachable demo_pump"
proof -
  let ?a = "pump_Enqueue ''a'' (pump_Start True pump_init)"
  let ?b = "pump_Enqueue ''b'' ?a"
  have b: "pump_reachable ?b"
    by (rule pump_reach_step [OF pump_reach_step [OF pump_reach_step [OF pump_reach_init pump_start] pump_enqueue] pump_enqueue]) simp
  have k: "0 < length (pm_drains ?b)" "0 < length (pm_drains (DrainOnce_step 0 ?b))"
    by (simp_all add: pump_Start_def pump_Enqueue_def ScheduleDispatchLocked_def DrainOnce_step_def pump_init_def Let_def)
  show ?thesis
    unfolding demo_pump_def
    by (rule pump_reach_step [OF pump_reach_step [OF b pump_drain [OF k(1)]] pump_drain [OF k(2)]])
qed

theorem pump_single_flight_witness:
  "pump_reachable demo_pump \<and> length (pm_drains demo_pump) \<le> 1 \<and> prefix (pm_log demo_pump) (pm_accepted demo_pump)"
  using pump_single_flight [OF demo_pump_reachable] demo_pump_reachable by blast

text \<open>
  C15: The wait in Stop ends: from every reachable state the dispatch task, left to itself,
  leaves the pool after finitely many of its steps, and if the pump is not stopping it has
  dispatched every accepted peer by then. Once Stop has returned, nothing is queued, no task
  exists, later Enqueue calls change nothing and the callback is not called again.
\<close>

theorem pump_stop_and_drain:
  assumes "pump_reachable p"
  shows "(\<exists>n. let q = (DrainOnce_step 0 ^^ n) p in \<not> pm_dispatching q
            \<and> (pm_running p \<and> pm_on_dispatch p \<longrightarrow> pm_log q = pm_accepted p))
    \<and> (\<not> pm_running p \<and> \<not> pm_waiting p \<longrightarrow> pm_queue p = [] \<and> pm_drains p = []
          \<and> (\<forall>x. pump_Enqueue x p = p) \<and> (\<forall>q. pump_step p q \<longrightarrow> pm_log q = pm_log p))"
proof
  have inv: "pump_inv p" using assms by (rule pump_reachable_inv)
  obtain n where n: "let q = (DrainOnce_step 0 ^^ n) p in pm_drains q = [] \<and> pump_inv q
    \<and> pm_stopping q = pm_stopping p \<and> pm_running q = pm_running p \<and> pm_on_dispatch q = pm_on_dispatch p
    \<and> pm_accepted q = pm_accepted p \<and> pm_waiting q = pm_waiting p"
    using drain_finishes [OF inv] by blast
  show "\<exists>n. let q = (DrainOnce_step 0 ^^ n) p in \<not> pm_dispatching q
            \<and> (pm_running p \<and> pm_on_dispatch p \<longrightarrow> pm_log q = pm_accepted p)"
    using n by (intro exI [of _ n]) (auto simp: Let_def pump_inv_def)
  show "\<not> pm_running p \<and> \<not> pm_waiting p \<longrightarrow> pm_queue p = [] \<and> pm_drains p = []
          \<and> (\<forall>x. pump_Enqueue x p = p) \<and> (\<forall>q. pump_step p q \<longrightarrow> pm_log q = pm_log p)"
  proof
    assume idle: "\<not> pm_running p \<and> \<not> pm_waiting p"
    then have e: "pm_queue p = []" "pm_drains p = []" using inv unfolding pump_inv_def by auto
    have "pm_log q = pm_log p" if "pump_step p q" for q
      using that idle e
      by (auto elim!: pump_stepE simp: pump_Start_def pump_Stop_begin_def pump_Enqueue_def)
    then show "pm_queue p = [] \<and> pm_drains p = [] \<and> (\<forall>x. pump_Enqueue x p = p)
        \<and> (\<forall>q. pump_step p q \<longrightarrow> pm_log q = pm_log p)"
      using e idle by (simp add: pump_Enqueue_def)
  qed
qed

theorem pump_stop_and_drain_witness:
  "\<exists>n. let q = (DrainOnce_step 0 ^^ n) demo_pump in \<not> pm_dispatching q \<and> pm_log q = [''a'', ''b'']"
  using pump_stop_and_drain [OF demo_pump_reachable] by (auto simp: demo_pump_state Let_def)

end
