(* ===== verification/Runtime_Knobs.thy ===== *)
theory Runtime_Knobs
  imports RF_Prelude
begin

text \<open>
  The runtime knobs (\<^verbatim>\<open>src/core/runtime/runtime_knobs.cpp\<close>), the environment readers
  (\<^verbatim>\<open>src/common/base/env_reader.h\<close>) and the capture presets that read the environment
  directly (\<^verbatim>\<open>src/service/impl/media/capture_fps_pipeline_policy.cpp\<close>).

  The environment is a partial map from variable names to texts. Reading a knob threads the
  set of aliases already warned about, as the code does under \<^verbatim>\<open>g_alias_mu\<close>; the doc strings
  of the table and its Markdown dump are left out.
\<close>

type_synonym env = "string \<Rightarrow> string option"

section \<open>Reading the environment\<close>

text \<open>
  \<^verbatim>\<open>strtoull(s, &end, 10)\<close>: as \<^verbatim>\<open>strtol\<close>, but the value saturates at \<^verbatim>\<open>ULLONG_MAX\<close> and a minus
  sign negates in 64-bit unsigned arithmetic.
\<close>

definition ULLONG_MAX :: int where "ULLONG_MAX = 2 ^ 64 - 1"

definition strtoull10 :: "string \<Rightarrow> int \<times> string" where
  "strtoull10 s =
     (let t = dropWhile isspace s;
          (neg, d) = strip_sign t
      in if d = [] \<or> \<not> isdigit (hd d) then (0, s)
         else (let v = int (digits_value 0 d)
               in (if v > ULLONG_MAX then ULLONG_MAX else if neg then (- v) mod 2 ^ 64 else v,
                   dropWhile isdigit d)))"

text \<open>A value that is parsed as a whole is clamped; anything else gives the fallback.\<close>

definition clamp_parsed :: "int \<times> string \<Rightarrow> string \<Rightarrow> int \<Rightarrow> int \<Rightarrow> int \<Rightarrow> int" where
  "clamp_parsed parsed v fallback lo hi =
     (let (x, rest) = parsed
      in if rest = v \<or> rest \<noteq> [] then fallback
         else if x < lo then lo else if x > hi then hi else x)"

definition ReadEnvIntInRange :: "env \<Rightarrow> string \<Rightarrow> int \<Rightarrow> int \<Rightarrow> int \<Rightarrow> int" where
  "ReadEnvIntInRange env name fallback lo hi =
     (case env name of None \<Rightarrow> fallback
      | Some v \<Rightarrow> if v = [] then fallback else to_int32 (clamp_parsed (strtol10 v) v fallback lo hi))"

definition truthy :: "char \<Rightarrow> bool" where
  "truthy c \<longleftrightarrow> c \<in> {CHR ''1'', CHR ''y'', CHR ''Y'', CHR ''t'', CHR ''T''}"

definition falsy :: "char \<Rightarrow> bool" where
  "falsy c \<longleftrightarrow> c \<in> {CHR ''0'', CHR ''n'', CHR ''N'', CHR ''f'', CHR ''F''}"

definition ReadEnvBool :: "env \<Rightarrow> string \<Rightarrow> bool \<Rightarrow> bool" where
  "ReadEnvBool env name fallback =
     (case env name of None \<Rightarrow> fallback
      | Some v \<Rightarrow> if v = [] then fallback
                  else if truthy (hd v) then True else if falsy (hd v) then False else fallback)"

definition ReadEnvSizeInRange :: "env \<Rightarrow> string \<Rightarrow> int \<Rightarrow> int \<Rightarrow> int \<Rightarrow> int" where
  "ReadEnvSizeInRange env name fallback lo hi =
     (case env name of None \<Rightarrow> fallback
      | Some v \<Rightarrow> if v = [] then fallback else clamp_parsed (strtoull10 v) v fallback lo hi)"

definition TraceFlagEnabled :: "env \<Rightarrow> string \<Rightarrow> bool" where
  "TraceFlagEnabled env name = ReadEnvBool env name False"

section \<open>The knob table\<close>

datatype KnobGroup = kSignal | kService | kClient | kRtcFactory | kMediaTrace | kMediaCapture
  | kMediaMjpeg | kMediaPipeline | kMediaDump | kCodecBackend | kMppEncoder | kMppDecoder

datatype KnobKind = kBool | kInt | kSize | kString

datatype KnobSpec = KnobSpec (ks_name: string) (ks_alias: "string option") (ks_group: KnobGroup)
  (ks_kind: KnobKind) (ks_default_int: int) (ks_min_int: int) (ks_max_int: int) (ks_default_str: string)

definition knobs_signal :: "KnobSpec list" where
  "knobs_signal = [
     KnobSpec ''RFLOW_VERBOSE_SIGNAL'' None kSignal kBool 0 0 1 [],
     KnobSpec ''RFLOW_SIGNALING_TIMING_TRACE'' None kSignal kBool 0 0 1 []]"

definition knobs_rtc_factory :: "KnobSpec list" where
  "knobs_rtc_factory = [
     KnobSpec ''RFLOW_ZERO_PLAYOUT_MIN_PACING_MS'' None kRtcFactory kInt 2 0 20 [],
     KnobSpec ''RFLOW_MAX_DECODE_QUEUE_SIZE'' None kRtcFactory kInt 3 2 16 [],
     KnobSpec ''RFLOW_ENABLE_DECODE_QUEUE_GUARD'' None kRtcFactory kBool 0 0 1 [],
     KnobSpec ''RFLOW_DECODE_QUEUE_GUARD_CAP'' None kRtcFactory kInt 6 4 12 [],
     KnobSpec ''RFLOW_ENABLE_FLEXFEC'' None kRtcFactory kBool 1 0 1 [],
     KnobSpec ''RFLOW_ICE_IGNORE_INTERFACES'' None kRtcFactory kString 0 0 0 [],
     KnobSpec ''RFLOW_DECODER_BACKEND'' None kRtcFactory kString 0 0 0 [],
     KnobSpec ''RFLOW_BUILTIN_DECODE_RECOVERY'' (Some ''RFLOW_FFMPEG_H264_DECODE_RECOVERY'') kRtcFactory kBool 1 0 1 [],
     KnobSpec ''RFLOW_BUILTIN_DECODE_STALL_FRAMES'' (Some ''RFLOW_FFMPEG_H264_DECODE_STALL_FRAMES'') kRtcFactory kInt 45 5 600 [],
     KnobSpec ''RFLOW_H264_DECODE_RESET_FRAME_COUNT'' (Some ''RFLOW_FFMPEG_H264_DECODE_RESET_FRAME_COUNT'') kRtcFactory kInt 2800 500 100000 [],
     KnobSpec ''RFLOW_FIELD_TRIALS_APPEND'' None kRtcFactory kString 0 0 0 [],
     KnobSpec ''RFLOW_WEBRTC_LOG_SEVERITY'' None kRtcFactory kString 0 0 0 [],
     KnobSpec ''RFLOW_SYNC_GETSTATS_TIMEOUT_MS'' None kRtcFactory kInt 1500 200 60000 []]"

definition knobs_media_trace :: "KnobSpec list" where
  "knobs_media_trace = [
     KnobSpec ''RFLOW_LATENCY_TRACE'' None kMediaTrace kBool 0 0 1 [],
     KnobSpec ''RFLOW_E2E_LATENCY_TRACE'' None kMediaTrace kBool 0 0 1 [],
     KnobSpec ''RFLOW_MEDIA_TIMING_TRACE'' None kMediaTrace kBool 0 0 1 [],
     KnobSpec ''RFLOW_MEDIA_TIMING_TRACE_EVERY_N'' None kMediaTrace kInt 60 1 600 [],
     KnobSpec ''RFLOW_MJPEG_TO_H264_TRACE'' None kMediaTrace kBool 0 0 1 [],
     KnobSpec ''RFLOW_MJPEG_DEC_TRACE'' None kMediaTrace kBool 0 0 1 []]"

definition knobs_media_capture :: "KnobSpec list" where
  "knobs_media_capture = [
     KnobSpec ''RFLOW_MEDIA_THREAD_SCHED'' None kMediaCapture kString 0 0 0 [],
     KnobSpec ''RFLOW_MEDIA_THREAD_RR_PRIO'' None kMediaCapture kInt 20 1 90 [],
     KnobSpec ''RFLOW_MEDIA_THREAD_NICE'' None kMediaCapture kInt (-10) (-20) 19 [],
     KnobSpec ''RFLOW_MEDIA_THREAD_AUTO'' None kMediaCapture kBool 1 0 1 [],
     KnobSpec ''RFLOW_MJPEG_DECODE_CPU'' None kMediaCapture kString 0 0 0 [],
     KnobSpec ''RFLOW_V4L2_CAPTURE_CPU'' None kMediaCapture kString 0 0 0 []]"

definition knobs_media_mjpeg :: "KnobSpec list" where
  "knobs_media_mjpeg = [
     KnobSpec ''RFLOW_MJPEG_DECODE_QUEUE_MAX_WAIT_MS'' None kMediaMjpeg kInt 25 0 5000 [],
     KnobSpec ''RFLOW_V4L2_BUFFER_COUNT'' None kMediaMjpeg kInt 0 2 32 [],
     KnobSpec ''RFLOW_MJPEG_QUEUE_MAX'' None kMediaMjpeg kInt 0 1 32 [],
     KnobSpec ''RFLOW_NV12_POOL_SLOTS'' None kMediaMjpeg kInt 0 4 16 [],
     KnobSpec ''RFLOW_CAPTURE_FPS_PIPELINE'' None kMediaMjpeg kString 0 0 0 ''auto'',
     KnobSpec ''RFLOW_MJPEG_ZERO_COPY_TO_ENC'' None kMediaMjpeg kBool 1 0 1 [],
     KnobSpec ''RFLOW_MJPEG_V4L2_EXT_DMA'' None kMediaMjpeg kBool 1 0 1 [],
     KnobSpec ''RFLOW_MPP_ENC_MPP_BUFFER_DIRECT'' None kMppEncoder kBool 1 0 1 [],
     KnobSpec ''RFLOW_MPP_ENC_DIRECT_MAX_OUTSTANDING'' None kMppEncoder kInt 16 1 128 [],
     KnobSpec ''RFLOW_MJPEG_DECODE_INLINE'' None kMediaMjpeg kBool 0 0 1 [],
     KnobSpec ''RFLOW_MJPEG_DEC_LOW_LATENCY'' None kMediaMjpeg kBool 0 0 1 [],
     KnobSpec ''RFLOW_MJPEG_RGA_MAX_ASPECT'' None kMediaMjpeg kInt 4 1 32 [],
     KnobSpec ''RFLOW_RGA_SCALE_POOL_SLOTS'' None kMediaMjpeg kInt 8 2 32 [],
     KnobSpec ''RFLOW_RGA_SCALE_TRACE'' None kMediaMjpeg kBool 1 0 1 [],
     KnobSpec ''RFLOW_RGA_SCALE_TRACE_EVERY_N'' None kMediaMjpeg kInt 60 1 600 []]"

definition knobs_media_pipeline :: "KnobSpec list" where
  "knobs_media_pipeline = [
     KnobSpec ''RFLOW_PUSH_OUTBOUND_STATS_INTERVAL_SEC'' None kMediaPipeline kInt 5 0 60 [],
     KnobSpec ''RFLOW_PUSH_HEALTH_INTERVAL_SEC'' None kMediaPipeline kInt 5 0 60 [],
     KnobSpec ''RFLOW_PUSH_HEALTH_ONLY_ANOMALY'' None kMediaPipeline kBool 0 0 1 [],
     KnobSpec ''RFLOW_SKIP_LOOPBACK_RECV'' None kMediaPipeline kBool 0 0 1 []]"

definition knobs_media_dump :: "KnobSpec list" where
  "knobs_media_dump = [
     KnobSpec ''RFLOW_DUMP_OFFER'' None kMediaDump kBool 0 0 1 [],
     KnobSpec ''RFLOW_DUMP_LOCAL_ANSWER'' None kMediaDump kBool 0 0 1 [],
     KnobSpec ''RFLOW_DUMP_REMOTE_OFFER'' None kMediaDump kBool 0 0 1 []]"

definition knobs_mpp_encoder :: "KnobSpec list" where
  "knobs_mpp_encoder = [
     KnobSpec ''RFLOW_MPP_ENC_HOR_STRIDE_ALIGN'' None kMppEncoder kInt 16 1 256 [],
     KnobSpec ''RFLOW_MPP_ENC_INTRA_REFRESH_MODE'' None kMppEncoder kInt 0 0 3 [],
     KnobSpec ''RFLOW_MPP_ENC_INTRA_REFRESH_ARG'' None kMppEncoder kInt 0 1 512 [],
     KnobSpec ''RFLOW_MPP_ENC_SPLIT_BYTES'' None kMppEncoder kInt 0 0 4096 [],
     KnobSpec ''RFLOW_MPP_ENC_IDR_MIN_INTERVAL_MS'' None kMppEncoder kInt 800 0 5000 [],
     KnobSpec ''RFLOW_MPP_ENC_IDR_LOSS_QUICK_MS'' None kMppEncoder kInt 180 0 2000 [],
     KnobSpec ''RFLOW_MPP_ENC_IDR_FORCE_MAX_WAIT_MS'' None kMppEncoder kInt 3000 200 15000 [],
     KnobSpec ''RFLOW_MPP_ENC_DEBUG'' None kMppEncoder kBool 0 0 1 [],
     KnobSpec ''RFLOW_MPP_ENC_RC_APPLY_MIN_MS'' None kMppEncoder kInt 200 0 5000 [],
     KnobSpec ''RFLOW_MPP_ENC_RC_APPLY_MIN_BPS_DELTA'' None kMppEncoder kInt 50000 1000 500000 [],
     KnobSpec ''RFLOW_MPP_ENC_RC_APPLY_BPS_DELTA_PCT'' None kMppEncoder kInt 5 1 50 [],
     KnobSpec ''RFLOW_MPP_ENC_USE_SYNC'' None kMppEncoder kBool 0 0 1 [],
     KnobSpec ''RFLOW_MPP_ENC_USE_TASK'' None kMppEncoder kBool 0 0 1 [],
     KnobSpec ''RFLOW_MPP_ENC_TASK_READ_PACKET'' None kMppEncoder kBool 1 0 1 [],
     KnobSpec ''RFLOW_MPP_ENC_NATIVE_ZERO_COPY'' None kMppEncoder kBool 1 0 1 [],
     KnobSpec ''RFLOW_MPP_ENC_SUPPORTS_NATIVE_HANDLE'' None kMppEncoder kBool 0 0 1 [],
     KnobSpec ''RFLOW_MPP_ENC_QP_SCALE_LOW'' None kMppEncoder kInt 24 0 51 [],
     KnobSpec ''RFLOW_MPP_ENC_QP_SCALE_HIGH'' None kMppEncoder kInt 36 1 51 [],
     KnobSpec ''RFLOW_MPP_ENC_QP_TRUSTED'' None kMppEncoder kBool 0 0 1 [],
     KnobSpec ''RFLOW_ADAPT_MIN_PIXELS'' None kMediaMjpeg kInt 230400 57600 921600 [],
     KnobSpec ''RFLOW_DEBUG_FORCE_CAPTURE_SCALE_W'' None kMediaMjpeg kInt 0 0 4096 [],
     KnobSpec ''RFLOW_DEBUG_FORCE_CAPTURE_SCALE_H'' None kMediaMjpeg kInt 0 0 4096 [],
     KnobSpec ''RFLOW_DEBUG_FORCE_CAPTURE_SCALE_AFTER_N'' None kMediaMjpeg kInt 0 0 1000000 [],
     KnobSpec ''RFLOW_MPP_ENC_NATIVE_ZERO_COPY_STRICT'' None kMppEncoder kBool 0 0 1 [],
     KnobSpec ''RFLOW_MPP_ENC_NATIVE_ZERO_COPY_FAILS'' None kMppEncoder kInt 3 1 50 [],
     KnobSpec ''RFLOW_MPP_ENC_ZERO_COPY_BIND'' None kMppEncoder kString 0 0 0 ''direct'',
     KnobSpec ''RFLOW_MPP_ENC_IMPORT_POOL_COUNT'' None kMppEncoder kInt 0 0 64 [],
     KnobSpec ''RFLOW_MPP_ENC_IMPORT_POOL_LIMIT'' None kMppEncoder kBool 0 0 1 [],
     KnobSpec ''RFLOW_MPP_ENC_IMPORT_POOL_SLACK'' None kMppEncoder kInt 2 0 16 [],
     KnobSpec ''RFLOW_MJPEG_DEC_OUT_POOL_SLACK'' None kMppEncoder kInt 2 0 8 [],
     KnobSpec ''RFLOW_MPP_ENC_IMPORT_RESET_LOOP_PAUSE'' None kMppEncoder kInt 5 2 100 [],
     KnobSpec ''RFLOW_MPP_ENC_IMPORT_RESET_FAILS'' None kMppEncoder kInt 3 1 100 [],
     KnobSpec ''RFLOW_MPP_ENC_IMPORT_PAUSE_FAILS'' None kMppEncoder kInt 30 3 1000 [],
     KnobSpec ''RFLOW_MPP_ENC_IMPORT_PAUSE_PROBE_FRAMES'' None kMppEncoder kInt 120 30 6000 [],
     KnobSpec ''RFLOW_MPP_ENC_TRACE_EVERY_N'' None kMppEncoder kInt 120 1 600 [],
     KnobSpec ''RFLOW_MPP_ENC_ENABLE_IDR_CTRL'' None kMppEncoder kBool 0 0 1 []]"

definition kKnobTable :: "KnobSpec list" where
  "kKnobTable = knobs_signal @ knobs_rtc_factory @ knobs_media_trace @ knobs_media_capture
     @ knobs_media_mjpeg @ knobs_media_pipeline @ knobs_media_dump @ knobs_mpp_encoder"

definition FindSpec :: "string \<Rightarrow> KnobSpec option" where
  "FindSpec name = find (\<lambda>s. ks_name s = name) kKnobTable"

section \<open>Reading a knob\<close>

text \<open>The aliases already warned about, and the warnings logged (alias, recommended name).\<close>

record KnobState =
  g_alias_warned :: "string set"
  knob_warnings :: "(string \<times> string) list"

definition MaybeWarnAliasUsed :: "KnobSpec \<Rightarrow> string \<Rightarrow> KnobState \<Rightarrow> KnobState" where
  "MaybeWarnAliasUsed spec used st =
     (case ks_alias spec of None \<Rightarrow> st
      | Some a \<Rightarrow> if used \<noteq> a then st
                  else if used \<in> g_alias_warned st then st
                  else st\<lparr>g_alias_warned := insert used (g_alias_warned st),
                          knob_warnings := knob_warnings st @ [(used, ks_name spec)]\<rparr>)"

definition nonempty_env :: "env \<Rightarrow> string \<Rightarrow> string option" where
  "nonempty_env env n = (case env n of None \<Rightarrow> None | Some v \<Rightarrow> if v = [] then None else Some v)"

text \<open>The text found and the name it was found under.\<close>

definition ResolveEnv :: "env \<Rightarrow> KnobSpec \<Rightarrow> string option \<times> string option" where
  "ResolveEnv env spec =
     (case nonempty_env env (ks_name spec) of
        Some v \<Rightarrow> (Some v, Some (ks_name spec))
      | None \<Rightarrow>
          (case ks_alias spec of
             Some a \<Rightarrow> (case nonempty_env env a of Some v \<Rightarrow> (Some v, Some a) | None \<Rightarrow> (None, None))
           | None \<Rightarrow> (None, None)))"

definition ParseBool :: "string option \<Rightarrow> bool \<Rightarrow> bool" where
  "ParseBool v fallback =
     (case v of None \<Rightarrow> fallback
      | Some s \<Rightarrow> if s = [] then fallback
                  else if truthy (hd s) then True else if falsy (hd s) then False else fallback)"

definition ParseLong :: "string option \<Rightarrow> int \<Rightarrow> int \<Rightarrow> int \<Rightarrow> int" where
  "ParseLong v fallback lo hi =
     (case v of None \<Rightarrow> fallback
      | Some s \<Rightarrow> if s = [] then fallback else clamp_parsed (strtol10 s) s fallback lo hi)"

definition ParseULL :: "string option \<Rightarrow> int \<Rightarrow> int \<Rightarrow> int \<Rightarrow> int" where
  "ParseULL v fallback lo hi =
     (case v of None \<Rightarrow> fallback
      | Some s \<Rightarrow> if s = [] then fallback else clamp_parsed (strtoull10 s) s fallback lo hi)"

definition warn_used :: "KnobSpec \<Rightarrow> string option \<Rightarrow> KnobState \<Rightarrow> KnobState" where
  "warn_used spec used st = MaybeWarnAliasUsed spec (case_option [] id used) st"

definition ReadInt :: "env \<Rightarrow> string \<Rightarrow> KnobState \<Rightarrow> int \<times> KnobState" where
  "ReadInt env name st =
     (case FindSpec name of
        None \<Rightarrow> (ReadEnvIntInRange env name 0 (- (2 ^ 31)) (2 ^ 31 - 1), st)
      | Some spec \<Rightarrow>
          let (v, used) = ResolveEnv env spec
          in (to_int32 (ParseLong v (ks_default_int spec) (ks_min_int spec) (ks_max_int spec)),
              warn_used spec used st))"

definition ReadBool :: "env \<Rightarrow> string \<Rightarrow> KnobState \<Rightarrow> bool \<times> KnobState" where
  "ReadBool env name st =
     (case FindSpec name of
        None \<Rightarrow> (ReadEnvBool env name False, st)
      | Some spec \<Rightarrow>
          let (v, used) = ResolveEnv env spec
          in (ParseBool v (ks_default_int spec \<noteq> 0), warn_used spec used st))"

definition u64_of :: "int \<Rightarrow> int" where "u64_of x = x mod 2 ^ 64"

definition ReadSize :: "env \<Rightarrow> string \<Rightarrow> KnobState \<Rightarrow> int \<times> KnobState" where
  "ReadSize env name st =
     (case FindSpec name of
        None \<Rightarrow> (ReadEnvSizeInRange env name 0 0 ULLONG_MAX, st)
      | Some spec \<Rightarrow>
          let (v, used) = ResolveEnv env spec
          in (ParseULL v (u64_of (ks_default_int spec)) (u64_of (ks_min_int spec)) (u64_of (ks_max_int spec)),
              warn_used spec used st))"

definition ReadString :: "env \<Rightarrow> string \<Rightarrow> KnobState \<Rightarrow> string \<times> KnobState" where
  "ReadString env name st =
     (case FindSpec name of
        None \<Rightarrow> ((case env name of Some v \<Rightarrow> v | None \<Rightarrow> []), st)
      | Some spec \<Rightarrow>
          let (v, used) = ResolveEnv env spec
          in ((case v of Some s \<Rightarrow> if s \<noteq> [] then s else ks_default_str spec | None \<Rightarrow> ks_default_str spec),
              warn_used spec used st))"

definition FormatCurrentValue :: "env \<Rightarrow> KnobSpec \<Rightarrow> string" where
  "FormatCurrentValue env spec =
     (let e = fst (ResolveEnv env spec)
      in case ks_kind spec of
           kBool \<Rightarrow> if ParseBool e (ks_default_int spec \<noteq> 0) then ''true'' else ''false''
         | kInt \<Rightarrow> to_string (ParseLong e (ks_default_int spec) (ks_min_int spec) (ks_max_int spec))
         | kSize \<Rightarrow> to_string (ParseULL e (u64_of (ks_default_int spec)) (u64_of (ks_min_int spec)) (u64_of (ks_max_int spec)))
         | kString \<Rightarrow> [DQ] @ (case e of Some s \<Rightarrow> if s \<noteq> [] then s else ks_default_str spec | None \<Rightarrow> ks_default_str spec) @ [DQ])"

definition IsNonDefault :: "env \<Rightarrow> KnobSpec \<Rightarrow> bool" where
  "IsNonDefault env spec =
     (case fst (ResolveEnv env spec) of
        None \<Rightarrow> False
      | Some e \<Rightarrow>
          if e = [] then False
          else case ks_kind spec of
             kBool \<Rightarrow> ParseBool (Some e) (ks_default_int spec \<noteq> 0) \<noteq> (ks_default_int spec \<noteq> 0)
           | kInt \<Rightarrow> ParseLong (Some e) (ks_default_int spec) (ks_min_int spec) (ks_max_int spec) \<noteq> ks_default_int spec
           | kSize \<Rightarrow> ParseULL (Some e) (u64_of (ks_default_int spec)) (u64_of (ks_min_int spec)) (u64_of (ks_max_int spec))
                        \<noteq> u64_of (ks_default_int spec)
           | kString \<Rightarrow> e \<noteq> ks_default_str spec)"

definition GroupName :: "KnobGroup \<Rightarrow> string" where
  "GroupName g = (case g of kSignal \<Rightarrow> ''signal'' | kService \<Rightarrow> ''service'' | kClient \<Rightarrow> ''client''
     | kRtcFactory \<Rightarrow> ''rtc_factory'' | kMediaTrace \<Rightarrow> ''media.trace'' | kMediaCapture \<Rightarrow> ''media.capture''
     | kMediaMjpeg \<Rightarrow> ''media.mjpeg'' | kMediaPipeline \<Rightarrow> ''media.pipeline'' | kMediaDump \<Rightarrow> ''media.dump''
     | kCodecBackend \<Rightarrow> ''codec.backend'' | kMppEncoder \<Rightarrow> ''mpp.encoder'' | kMppDecoder \<Rightarrow> ''mpp.decoder'')"

text \<open>
  The start-up dump: nothing the second time; otherwise one summary (total, changed) and one
  line per changed knob: group, name, current value and the deprecated alias it came from.
\<close>

definition DumpToLog :: "env \<Rightarrow> bool \<Rightarrow> ((nat \<times> nat) \<times> (string \<times> string \<times> string \<times> string option) list) option \<times> bool" where
  "DumpToLog env dumped =
     (if dumped then (None, True)
      else let changed = filter (IsNonDefault env) kKnobTable
           in (Some ((length kKnobTable, length changed),
                map (\<lambda>s. (GroupName (ks_group s), ks_name s, FormatCurrentValue env s,
                           (case snd (ResolveEnv env s) of
                              None \<Rightarrow> None
                            | Some u \<Rightarrow> if ks_alias s = Some u then Some u else None))) changed), True))"

section \<open>The capture pipeline presets\<close>

datatype PipelineMode = kAuto | kForceLowLatency | kForceHighFidelity

datatype CaptureFpsTier = kLowLatency | kHighFidelity

text \<open>The members of \<^verbatim>\<open>PushStreamerBackendConfig\<close> the policy writes.\<close>

record PushStreamerBackendConfig =
  be_mjpeg_queue_latest_only :: bool
  be_v4l2_buffer_count :: int
  be_mjpeg_queue_max :: int
  be_nv12_pool_slots :: int
  be_v4l2_poll_timeout_ms :: int
  be_mjpeg_decode_inline :: bool

definition kHighFpsThreshold :: int where "kHighFpsThreshold = 45"

definition ResolvePipelineMode :: "env \<Rightarrow> PipelineMode" where
  "ResolvePipelineMode env =
     (case env ''RFLOW_CAPTURE_FPS_PIPELINE'' of None \<Rightarrow> kAuto
      | Some e \<Rightarrow> if e = [] then kAuto
                  else if hd e \<in> {CHR ''l'', CHR ''L''} then kForceLowLatency
                  else if hd e \<in> {CHR ''h'', CHR ''H''} then kForceHighFidelity else kAuto)"

definition TierFromFps :: "int \<Rightarrow> CaptureFpsTier" where
  "TierFromFps requested_fps =
     (if max 1 requested_fps \<ge> kHighFpsThreshold then kHighFidelity else kLowLatency)"

definition override :: "env \<Rightarrow> string \<Rightarrow> int \<Rightarrow> int \<Rightarrow> int \<Rightarrow> int" where
  "override env name old lo hi =
     (case env name of None \<Rightarrow> old | Some v \<Rightarrow> if v = [] then old else ReadEnvIntInRange env name old lo hi)"

definition ApplyEnvBackendOverrides :: "env \<Rightarrow> PushStreamerBackendConfig \<Rightarrow> PushStreamerBackendConfig" where
  "ApplyEnvBackendOverrides env b =
     (let b1 = b\<lparr>be_v4l2_buffer_count := override env ''RFLOW_V4L2_BUFFER_COUNT'' (be_v4l2_buffer_count b) 2 32\<rparr>;
          b2 = b1\<lparr>be_mjpeg_queue_max := override env ''RFLOW_MJPEG_QUEUE_MAX'' (be_mjpeg_queue_max b1) 1 32\<rparr>
      in b2\<lparr>be_nv12_pool_slots := override env ''RFLOW_NV12_POOL_SLOTS'' (be_nv12_pool_slots b2) 4 16\<rparr>)"

definition ApplyTierPreset :: "PushStreamerBackendConfig \<Rightarrow> CaptureFpsTier \<Rightarrow> PushStreamerBackendConfig" where
  "ApplyTierPreset b tier =
     (case tier of
        kHighFidelity \<Rightarrow> b\<lparr>be_mjpeg_queue_latest_only := False, be_v4l2_buffer_count := 5, be_mjpeg_queue_max := 4,
                          be_nv12_pool_slots := 7, be_v4l2_poll_timeout_ms := 5, be_mjpeg_decode_inline := False\<rparr>
      | kLowLatency \<Rightarrow> b\<lparr>be_mjpeg_queue_latest_only := True, be_v4l2_buffer_count := 2, be_mjpeg_queue_max := 2,
                        be_nv12_pool_slots := 4, be_v4l2_poll_timeout_ms := 5, be_mjpeg_decode_inline := False\<rparr>)"

definition ClassifyCaptureFpsTier :: "env \<Rightarrow> int \<Rightarrow> CaptureFpsTier" where
  "ClassifyCaptureFpsTier env requested_fps =
     (case ResolvePipelineMode env of
        kForceLowLatency \<Rightarrow> kLowLatency
      | kForceHighFidelity \<Rightarrow> kHighFidelity
      | kAuto \<Rightarrow> TierFromFps requested_fps)"

text \<open>C++ division of positive numbers is HOL's.\<close>

definition MjpegDecodeQueueMaxWaitMsForFps :: "env \<Rightarrow> int \<Rightarrow> int" where
  "MjpegDecodeQueueMaxWaitMsForFps env requested_fps =
     (case nonempty_env env ''RFLOW_MJPEG_DECODE_QUEUE_MAX_WAIT_MS'' of
        Some _ \<Rightarrow> ReadEnvIntInRange env ''RFLOW_MJPEG_DECODE_QUEUE_MAX_WAIT_MS'' 25 0 5000
      | None \<Rightarrow>
          if ClassifyCaptureFpsTier env requested_fps = kHighFidelity
          then (let fps = max kHighFpsThreshold requested_fps; frame_ms = max 1 (1000 div fps)
                in min 5000 (frame_ms * 3))
          else 25)"

definition ApplyCaptureFpsPipelineDefaults :: "env \<Rightarrow> PushStreamerBackendConfig \<Rightarrow> int \<Rightarrow> PushStreamerBackendConfig" where
  "ApplyCaptureFpsPipelineDefaults env b requested_fps =
     ApplyEnvBackendOverrides env (ApplyTierPreset b (ClassifyCaptureFpsTier env requested_fps))"

definition ShouldAutoTuneMediaThreadsForFps :: "env \<Rightarrow> int \<Rightarrow> bool" where
  "ShouldAutoTuneMediaThreadsForFps env requested_fps =
     (if requested_fps < kHighFpsThreshold then False
      else case nonempty_env env ''RFLOW_MEDIA_THREAD_AUTO'' of
             Some e \<Rightarrow> \<not> falsy (hd e)
           | None \<Rightarrow> True)"

section \<open>Lemmas\<close>

lemma clamp_parsed_range:
  "lo \<le> hi \<Longrightarrow> clamp_parsed p v fb lo hi = fb \<or> (lo \<le> clamp_parsed p v fb lo hi \<and> clamp_parsed p v fb lo hi \<le> hi)"
  by (auto simp: clamp_parsed_def Let_def split: prod.splits)

lemma ParseLong_range:
  "lo \<le> hi \<Longrightarrow> ParseLong v fb lo hi = fb \<or> (lo \<le> ParseLong v fb lo hi \<and> ParseLong v fb lo hi \<le> hi)"
  unfolding ParseLong_def by (cases v) (simp_all add: clamp_parsed_range)

text \<open>Every registered knob has a non-empty range of 32-bit integers and a 32-bit default.\<close>

lemma knob_table_ranges:
  "list_all (\<lambda>s. ks_min_int s \<le> ks_max_int s \<and> int32_range (ks_min_int s) \<and> int32_range (ks_max_int s)
     \<and> int32_range (ks_default_int s)) kKnobTable"
  unfolding kKnobTable_def knobs_signal_def knobs_rtc_factory_def knobs_media_trace_def knobs_media_capture_def
    knobs_media_mjpeg_def knobs_media_pipeline_def knobs_media_dump_def knobs_mpp_encoder_def
  by (simp add: int32_range_def)

lemma FindSpec_SomeD: "FindSpec name = Some s \<Longrightarrow> s \<in> set kKnobTable \<and> ks_name s = name"
  unfolding FindSpec_def by (auto simp: find_Some_iff)

lemma FindSpec_ranges:
  assumes "FindSpec name = Some s"
  shows "ks_min_int s \<le> ks_max_int s" and "int32_range (ks_min_int s)" and "int32_range (ks_max_int s)"
    and "int32_range (ks_default_int s)"
  using knob_table_ranges FindSpec_SomeD [OF assms] by (auto simp: list_all_iff)

lemma ParseLong_int32:
  assumes "FindSpec name = Some s"
  shows "int32_range (ParseLong v (ks_default_int s) (ks_min_int s) (ks_max_int s))"
  using ParseLong_range [OF FindSpec_ranges(1) [OF assms], of v "ks_default_int s"] FindSpec_ranges [OF assms]
  by (auto simp: int32_range_def)

section \<open>Properties\<close>

definition knob_text :: "env \<Rightarrow> KnobSpec \<Rightarrow> string option" where
  "knob_text env s = (case nonempty_env env (ks_name s) of Some v \<Rightarrow> Some v
     | None \<Rightarrow> Option.bind (ks_alias s) (nonempty_env env))"

definition via_alias :: "env \<Rightarrow> KnobSpec \<Rightarrow> string option" where
  "via_alias env s = (if nonempty_env env (ks_name s) = None \<and> Option.bind (ks_alias s) (nonempty_env env) \<noteq> None
     then ks_alias s else None)"

definition alias_differs :: "KnobSpec \<Rightarrow> bool" where
  "alias_differs s \<longleftrightarrow> ks_alias s \<noteq> Some (ks_name s) \<and> ks_alias s \<noteq> Some []"

lemma knob_aliases_differ: "list_all alias_differs kKnobTable"
  unfolding kKnobTable_def knobs_signal_def knobs_rtc_factory_def knobs_media_trace_def knobs_media_capture_def
    knobs_media_mjpeg_def knobs_media_pipeline_def knobs_media_dump_def knobs_mpp_encoder_def
  by (simp add: alias_differs_def)

lemma ResolveEnv_text: "fst (ResolveEnv env s) = knob_text env s"
  by (auto simp: ResolveEnv_def knob_text_def split: option.splits)

lemma warn_used_alias:
  assumes "alias_differs s"
  shows "warn_used s (snd (ResolveEnv env s)) st =
           (case via_alias env s of None \<Rightarrow> st
            | Some a \<Rightarrow> if a \<in> g_alias_warned st then st
                        else st\<lparr>g_alias_warned := insert a (g_alias_warned st),
                                knob_warnings := knob_warnings st @ [(a, ks_name s)]\<rparr>)"
  using assms
  by (auto simp: warn_used_def MaybeWarnAliasUsed_def ResolveEnv_def via_alias_def alias_differs_def split: option.splits)

text \<open>
  What reading an integer knob returns, for every registered knob and every environment.
  The variable under the knob's own name is used before the one under its deprecated alias, an
  empty variable counts as unset; a decimal number is clamped to the registered range, any
  other text and no text give the default, and the narrowing to \<^verbatim>\<open>int\<close> never changes the value.
  An alias is warned about once, when it is the one used.
\<close>

theorem read_int_contract:
  assumes "FindSpec name = Some s"
  shows "fst (ReadInt env name st) =
           (case knob_text env s of
              None \<Rightarrow> ks_default_int s
            | Some v \<Rightarrow> (case strtol10 v of (x, rest) \<Rightarrow>
                 if rest \<noteq> [] then ks_default_int s
                 else max (ks_min_int s) (min (ks_max_int s) x)))
       \<and> snd (ReadInt env name st) =
           (case via_alias env s of None \<Rightarrow> st
            | Some a \<Rightarrow> if a \<in> g_alias_warned st then st
                        else st\<lparr>g_alias_warned := insert a (g_alias_warned st),
                                knob_warnings := knob_warnings st @ [(a, ks_name s)]\<rparr>)"
proof -
  have al: "alias_differs s" using knob_aliases_differ FindSpec_SomeD [OF assms] by (simp add: list_all_iff)
  have ne: "v \<noteq> []" if "knob_text env s = Some v" for v
    using that by (auto simp: knob_text_def nonempty_env_def split: option.splits if_splits bind_splits)
  have "fst (ReadInt env name st) = ParseLong (knob_text env s) (ks_default_int s) (ks_min_int s) (ks_max_int s)"
    using assms ResolveEnv_text [of env s] ParseLong_int32 [OF assms]
    by (simp add: ReadInt_def split_beta)
  moreover have "ParseLong (Some v) d lo hi = (case strtol10 v of (x, rest) \<Rightarrow>
      if rest \<noteq> [] then d else max lo (min hi x))" if "v \<noteq> []" "lo \<le> hi" for v d lo hi
    using that by (auto simp: ParseLong_def clamp_parsed_def split: prod.splits)
  ultimately have "fst (ReadInt env name st) =
           (case knob_text env s of
              None \<Rightarrow> ks_default_int s
            | Some v \<Rightarrow> (case strtol10 v of (x, rest) \<Rightarrow>
                 if rest \<noteq> [] then ks_default_int s
                 else max (ks_min_int s) (min (ks_max_int s) x)))"
    using ne FindSpec_ranges(1) [OF assms] by (cases "knob_text env s") (simp_all add: ParseLong_def)
  moreover have "snd (ReadInt env name st) = warn_used s (snd (ResolveEnv env s)) st"
    using assms by (simp add: ReadInt_def split_beta)
  ultimately show ?thesis using warn_used_alias [OF al] by simp
qed

definition demo_env :: env where
  "demo_env = [''RFLOW_FFMPEG_H264_DECODE_STALL_FRAMES'' \<mapsto> ''9999'']"

definition no_warnings :: KnobState where "no_warnings = \<lparr>g_alias_warned = {}, knob_warnings = []\<rparr>"

theorem read_int_contract_witness:
  "fst (ReadInt demo_env ''RFLOW_BUILTIN_DECODE_STALL_FRAMES'' no_warnings) = 600
   \<and> knob_warnings (snd (ReadInt demo_env ''RFLOW_BUILTIN_DECODE_STALL_FRAMES'' no_warnings))
       = [(''RFLOW_FFMPEG_H264_DECODE_STALL_FRAMES'', ''RFLOW_BUILTIN_DECODE_STALL_FRAMES'')]"
proof -
  let ?s = "KnobSpec ''RFLOW_BUILTIN_DECODE_STALL_FRAMES'' (Some ''RFLOW_FFMPEG_H264_DECODE_STALL_FRAMES'')
     kRtcFactory kInt 45 5 600 []"
  have f: "FindSpec ''RFLOW_BUILTIN_DECODE_STALL_FRAMES'' = Some ?s"
    by (simp add: FindSpec_def kKnobTable_def knobs_signal_def knobs_rtc_factory_def)
  have t: "knob_text demo_env ?s = Some ''9999''" and v: "via_alias demo_env ?s = Some ''RFLOW_FFMPEG_H264_DECODE_STALL_FRAMES''"
    by (simp_all add: knob_text_def via_alias_def nonempty_env_def demo_env_def)
  have n: "strtol10 ''9999'' = (9999, [])" by code_simp
  show ?thesis using read_int_contract [OF f, of demo_env no_warnings] t v n by (simp add: no_warnings_def)
qed

lemma override_range:
  assumes "lo \<le> old" and "old \<le> hi" and "int32_range lo" and "int32_range hi"
  shows "lo \<le> override env n old lo hi \<and> override env n old lo hi \<le> hi"
proof -
  have "lo \<le> clamp_parsed p v old lo hi \<and> clamp_parsed p v old lo hi \<le> hi" for p v
    using clamp_parsed_range [of lo hi p v old] assms by auto
  moreover have "to_int32 (clamp_parsed p v old lo hi) = clamp_parsed p v old lo hi" for p v
    using calculation [of p v] assms by (intro to_int32_id) (auto simp: int32_range_def)
  ultimately show ?thesis
    using assms by (auto simp: override_def ReadEnvIntInRange_def split: option.splits)
qed

text \<open>
  Whatever the environment holds, the capture pipeline starts with 2 to 32 capture buffers,
  a decode queue of 1 to 32 and 4 to 16 frame slots, and the wait in the decode queue stays
  within 0 to 5000 ms. With no override the preset is the one of the frame rate tier. A zero
  for the buffer count does not select the preset: it is clamped to two buffers.
\<close>

theorem capture_pipeline_bounds:
  "let c = ApplyCaptureFpsPipelineDefaults env b fps in
         2 \<le> be_v4l2_buffer_count c \<and> be_v4l2_buffer_count c \<le> 32
       \<and> 1 \<le> be_mjpeg_queue_max c \<and> be_mjpeg_queue_max c \<le> 32
       \<and> 4 \<le> be_nv12_pool_slots c \<and> be_nv12_pool_slots c \<le> 16
       \<and> 0 \<le> MjpegDecodeQueueMaxWaitMsForFps env fps \<and> MjpegDecodeQueueMaxWaitMsForFps env fps \<le> 5000
       \<and> ApplyCaptureFpsPipelineDefaults Map.empty b fps = ApplyTierPreset b (if fps \<ge> 45 then kHighFidelity else kLowLatency)
       \<and> be_v4l2_buffer_count (ApplyCaptureFpsPipelineDefaults [''RFLOW_V4L2_BUFFER_COUNT'' \<mapsto> ''0''] b fps) = 2"
proof -
  let ?t = "ClassifyCaptureFpsTier env fps" and ?c = "ApplyCaptureFpsPipelineDefaults env b fps"
  have r: "int32_range 1" "int32_range 2" "int32_range 4" "int32_range 16" "int32_range 32"
    by (simp_all add: int32_range_def)
  have p: "2 \<le> be_v4l2_buffer_count (ApplyTierPreset b t) \<and> be_v4l2_buffer_count (ApplyTierPreset b t) \<le> 32
     \<and> 1 \<le> be_mjpeg_queue_max (ApplyTierPreset b t) \<and> be_mjpeg_queue_max (ApplyTierPreset b t) \<le> 32
     \<and> 4 \<le> be_nv12_pool_slots (ApplyTierPreset b t) \<and> be_nv12_pool_slots (ApplyTierPreset b t) \<le> 16" for t
    by (cases t) (simp_all add: ApplyTierPreset_def)
  have fields: "be_v4l2_buffer_count ?c = override env ''RFLOW_V4L2_BUFFER_COUNT'' (be_v4l2_buffer_count (ApplyTierPreset b ?t)) 2 32"
    "be_mjpeg_queue_max ?c = override env ''RFLOW_MJPEG_QUEUE_MAX'' (be_mjpeg_queue_max (ApplyTierPreset b ?t)) 1 32"
    "be_nv12_pool_slots ?c = override env ''RFLOW_NV12_POOL_SLOTS'' (be_nv12_pool_slots (ApplyTierPreset b ?t)) 4 16"
    by (simp_all add: ApplyCaptureFpsPipelineDefaults_def ApplyEnvBackendOverrides_def Let_def)
  have wait: "0 \<le> MjpegDecodeQueueMaxWaitMsForFps env fps \<and> MjpegDecodeQueueMaxWaitMsForFps env fps \<le> 5000"
    using override_range [of 0 25 5000 env "''RFLOW_MJPEG_DECODE_QUEUE_MAX_WAIT_MS''"]
    by (auto simp: MjpegDecodeQueueMaxWaitMsForFps_def nonempty_env_def override_def Let_def int32_range_def
        split: option.splits if_splits)
  have preset: "ApplyCaptureFpsPipelineDefaults Map.empty b fps = ApplyTierPreset b (if fps \<ge> 45 then kHighFidelity else kLowLatency)"
    by (simp add: ApplyCaptureFpsPipelineDefaults_def ApplyEnvBackendOverrides_def override_def Let_def
        ClassifyCaptureFpsTier_def ResolvePipelineMode_def TierFromFps_def kHighFpsThreshold_def)
  have z: "strtol10 ''0'' = (0, [])" by code_simp
  have zero: "be_v4l2_buffer_count (ApplyCaptureFpsPipelineDefaults [''RFLOW_V4L2_BUFFER_COUNT'' \<mapsto> ''0''] b fps) = 2"
    by (simp add: ApplyCaptureFpsPipelineDefaults_def ApplyEnvBackendOverrides_def override_def Let_def
        ReadEnvIntInRange_def clamp_parsed_def z r)
  show ?thesis
    unfolding Let_def fields
    using p override_range r wait preset zero by simp
qed

end
