(* ===== verification/Abi_Objects.thy ===== *)
theory Abi_Objects
  imports RF_Prelude
begin

text \<open>
  The conventions of the C interface (\<^verbatim>\<open>src/common/abi\<close>, \<^verbatim>\<open>src/common/base/abi_string_copy.h\<close>):
  objects behind opaque handles that carry a magic number, the setter and getter macros
  with their \<^verbatim>\<open>has_\<close> flags, and strings copied out into caller-owned buffers.

  A handle is an option: None is the null pointer and Some obj the object it points to. An
  operation that writes through the handle returns the handle's new content. An out
  parameter is an option too: None is a null pointer, Some v a variable that holds v before
  the call, and the operation returns what it holds afterwards. A callback pointer is the
  option of a number that names the function. A caller's buffer is the list of its bytes; a
  write past its end makes the list longer, so that an operation is memory safe exactly when
  it keeps the length.

  The locale \<open>flagged_object\<close> is the contract of an object whose fields are set by calls
  and observed by getters; the parameter objects of the service, of the client and the push
  frame are instances.
\<close>

section \<open>Handles and magic numbers\<close>

type_synonym fn_ptr = "nat option"

definition kMagicLogConfig :: u32 where "kMagicLogConfig = 0x52624C47"
definition kMagicSignalConfig :: u32 where "kMagicSignalConfig = 0x52625347"
definition kMagicLicenseConfig :: u32 where "kMagicLicenseConfig = 0x52624C43"
definition kMagicGlobalConfig :: u32 where "kMagicGlobalConfig = 0x52624743"
definition kMagicVideoFrame :: u32 where "kMagicVideoFrame = 0x52625646"
definition kMagicStreamStats :: u32 where "kMagicStreamStats = 0x52625354"

definition RFLOW_CHECK_HANDLE :: "('o \<Rightarrow> u32) \<Rightarrow> 'o option \<Rightarrow> u32 \<Rightarrow> bool" where
  "RFLOW_CHECK_HANDLE magic_of p m = (case p of None \<Rightarrow> False | Some x \<Rightarrow> magic_of x = m)"

text \<open>\<open>alloc\<close> tells whether \<^verbatim>\<open>new (std::nothrow)\<close> succeeds, \<open>zero\<close> is the value-initialised object.\<close>

definition CreateMagicObject :: "bool \<Rightarrow> (u32 \<Rightarrow> 'o \<Rightarrow> 'o) \<Rightarrow> 'o \<Rightarrow> u32 \<Rightarrow> 'o option" where
  "CreateMagicObject alloc set_magic zero m = (if alloc then Some (set_magic m zero) else None)"

text \<open>None in the result means that the object has been deleted.\<close>

definition DestroyMagicObject :: "('o \<Rightarrow> u32) \<Rightarrow> 'o option \<Rightarrow> u32 \<Rightarrow> 'o option" where
  "DestroyMagicObject magic_of p m = (if RFLOW_CHECK_HANDLE magic_of p m then None else p)"

section \<open>Setter and getter macros\<close>

definition RFLOW_SET_FIELD ::
  "('o \<Rightarrow> u32) \<Rightarrow> 'o option \<Rightarrow> u32 \<Rightarrow> ('o \<Rightarrow> 'o) \<Rightarrow> rflow_err_t \<times> 'o option" where
  "RFLOW_SET_FIELD magic_of p m upd =
     (if \<not> RFLOW_CHECK_HANDLE magic_of p m then (RFLOW_ERR_PARAM, p)
      else (RFLOW_OK, map_option upd p))"

definition RFLOW_SET_VALUE_WITH_FLAG ::
  "('o \<Rightarrow> u32) \<Rightarrow> 'o option \<Rightarrow> u32 \<Rightarrow> ('o \<Rightarrow> 'o) \<Rightarrow> ('o \<Rightarrow> 'o) \<Rightarrow> rflow_err_t \<times> 'o option" where
  "RFLOW_SET_VALUE_WITH_FLAG magic_of p m upd flag =
     (if \<not> RFLOW_CHECK_HANDLE magic_of p m then (RFLOW_ERR_PARAM, p)
      else (RFLOW_OK, map_option (flag \<circ> upd) p))"

definition RFLOW_SET_2_VALUES_WITH_FLAG ::
  "('o \<Rightarrow> u32) \<Rightarrow> 'o option \<Rightarrow> u32 \<Rightarrow> ('o \<Rightarrow> 'o) \<Rightarrow> ('o \<Rightarrow> 'o) \<Rightarrow> ('o \<Rightarrow> 'o)
     \<Rightarrow> rflow_err_t \<times> 'o option" where
  "RFLOW_SET_2_VALUES_WITH_FLAG magic_of p m upd1 upd2 flag =
     (if \<not> RFLOW_CHECK_HANDLE magic_of p m then (RFLOW_ERR_PARAM, p)
      else (RFLOW_OK, map_option (flag \<circ> upd2 \<circ> upd1) p))"

definition RFLOW_SET_3_VALUES_WITH_FLAG ::
  "('o \<Rightarrow> u32) \<Rightarrow> 'o option \<Rightarrow> u32 \<Rightarrow> ('o \<Rightarrow> 'o) \<Rightarrow> ('o \<Rightarrow> 'o) \<Rightarrow> ('o \<Rightarrow> 'o) \<Rightarrow> ('o \<Rightarrow> 'o)
     \<Rightarrow> rflow_err_t \<times> 'o option" where
  "RFLOW_SET_3_VALUES_WITH_FLAG magic_of p m upd1 upd2 upd3 flag =
     (if \<not> RFLOW_CHECK_HANDLE magic_of p m then (RFLOW_ERR_PARAM, p)
      else (RFLOW_OK, map_option (flag \<circ> upd3 \<circ> upd2 \<circ> upd1) p))"

definition RFLOW_GET_VALUE_WITH_FLAG ::
  "('o \<Rightarrow> u32) \<Rightarrow> 'o option \<Rightarrow> u32 \<Rightarrow> 'v option \<Rightarrow> ('o \<Rightarrow> bool) \<Rightarrow> ('o \<Rightarrow> 'v)
     \<Rightarrow> rflow_err_t \<times> 'v option" where
  "RFLOW_GET_VALUE_WITH_FLAG magic_of p m out has val =
     (if \<not> RFLOW_CHECK_HANDLE magic_of p m then (RFLOW_ERR_PARAM, out)
      else if out = None then (RFLOW_ERR_PARAM, out)
      else if \<not> has (the p) then (RFLOW_ERR_NOT_FOUND, out)
      else (RFLOW_OK, Some (val (the p))))"

definition RFLOW_GET_2_VALUES_WITH_FLAG ::
  "('o \<Rightarrow> u32) \<Rightarrow> 'o option \<Rightarrow> u32 \<Rightarrow> 'v option \<Rightarrow> 'w option \<Rightarrow> ('o \<Rightarrow> bool) \<Rightarrow> ('o \<Rightarrow> 'v) \<Rightarrow> ('o \<Rightarrow> 'w)
     \<Rightarrow> rflow_err_t \<times> 'v option \<times> 'w option" where
  "RFLOW_GET_2_VALUES_WITH_FLAG magic_of p m out1 out2 has val1 val2 =
     (if \<not> RFLOW_CHECK_HANDLE magic_of p m then (RFLOW_ERR_PARAM, out1, out2)
      else if out1 = None \<or> out2 = None then (RFLOW_ERR_PARAM, out1, out2)
      else if \<not> has (the p) then (RFLOW_ERR_NOT_FOUND, out1, out2)
      else (RFLOW_OK, Some (val1 (the p)), Some (val2 (the p))))"

definition RFLOW_GET_3_VALUES_WITH_FLAG ::
  "('o \<Rightarrow> u32) \<Rightarrow> 'o option \<Rightarrow> u32 \<Rightarrow> 'v option \<Rightarrow> 'w option \<Rightarrow> 'x option \<Rightarrow> ('o \<Rightarrow> bool)
     \<Rightarrow> ('o \<Rightarrow> 'v) \<Rightarrow> ('o \<Rightarrow> 'w) \<Rightarrow> ('o \<Rightarrow> 'x) \<Rightarrow> rflow_err_t \<times> 'v option \<times> 'w option \<times> 'x option" where
  "RFLOW_GET_3_VALUES_WITH_FLAG magic_of p m out1 out2 out3 has val1 val2 val3 =
     (if \<not> RFLOW_CHECK_HANDLE magic_of p m then (RFLOW_ERR_PARAM, out1, out2, out3)
      else if out1 = None \<or> out2 = None \<or> out3 = None then (RFLOW_ERR_PARAM, out1, out2, out3)
      else if \<not> has (the p) then (RFLOW_ERR_NOT_FOUND, out1, out2, out3)
      else (RFLOW_OK, Some (val1 (the p)), Some (val2 (the p)), Some (val3 (the p))))"

lemmas abi_macros = RFLOW_SET_FIELD_def RFLOW_SET_VALUE_WITH_FLAG_def
  RFLOW_SET_2_VALUES_WITH_FLAG_def RFLOW_SET_3_VALUES_WITH_FLAG_def
  RFLOW_GET_VALUE_WITH_FLAG_def RFLOW_GET_2_VALUES_WITH_FLAG_def RFLOW_GET_3_VALUES_WITH_FLAG_def

lemma check_handle_simps [simp]:
  "\<not> RFLOW_CHECK_HANDLE magic_of None m"
  "RFLOW_CHECK_HANDLE magic_of (Some x) m \<longleftrightarrow> magic_of x = m"
  by (simp_all add: RFLOW_CHECK_HANDLE_def)

section \<open>Strings copied out to the caller\<close>

text \<open>
  \<^verbatim>\<open>memcpy(buf, s.data(), n); buf[n] = 0\<close>. Reading past the end of the source string is not
  a value of the model: the copy is then shorter than \<^verbatim>\<open>n\<close>.
\<close>

definition put_cstr :: "nat \<Rightarrow> string \<Rightarrow> string \<Rightarrow> string" where
  "put_cstr n s b = take n s @ CHR 0x00 # drop (Suc n) b"

definition CopyOutString ::
  "string \<Rightarrow> string option \<Rightarrow> u32 \<Rightarrow> u32 option \<Rightarrow> rflow_err_t \<times> string option \<times> u32 option" where
  "CopyOutString s buf buf_len out_needed =
     (if s = [] then (RFLOW_ERR_NOT_FOUND, buf, out_needed)
      else let sz = (of_nat (length s) :: u32); needed = sz + 1;
               out' = map_option (\<lambda>_. needed) out_needed
           in case buf of
                None \<Rightarrow> (RFLOW_ERR_TRUNCATED, None, out')
              | Some b \<Rightarrow>
                  if buf_len = 0 then (RFLOW_ERR_TRUNCATED, Some b, out')
                  else if buf_len < needed
                       then (RFLOW_ERR_TRUNCATED, Some (put_cstr (unat (buf_len - 1)) s b), out')
                       else (RFLOW_OK, Some (put_cstr (unat sz) s b), out'))"

text \<open>What a C caller reads in a buffer: the bytes before the first NUL.\<close>

definition c_text :: "string \<Rightarrow> string" where
  "c_text b = takeWhile (\<lambda>c. c \<noteq> CHR 0x00) b"

text \<open>A text that can be handed over as a \<^verbatim>\<open>const char*\<close> and whose size fits the \<^verbatim>\<open>uint32_t\<close> lengths.\<close>

definition cstr :: "string \<Rightarrow> bool" where
  "cstr s \<longleftrightarrow> CHR 0x00 \<notin> set s \<and> length s + 1 < 2 ^ 32"

text \<open>The usual client of a string getter: ask for the size, then fetch into a buffer of that size.\<close>

definition fetch_string ::
  "(string option \<Rightarrow> u32 \<Rightarrow> u32 option \<Rightarrow> rflow_err_t \<times> string option \<times> u32 option) \<Rightarrow> string option" where
  "fetch_string getter =
     (case getter None 0 (Some 0) of
        (RFLOW_ERR_TRUNCATED, _, Some n) \<Rightarrow>
          (case getter (Some (replicate (unat n) (CHR 0xFF))) n None of
             (RFLOW_OK, Some b, _) \<Rightarrow> Some (c_text b)
           | _ \<Rightarrow> None)
      | _ \<Rightarrow> None)"

lemma unat_of_nat_u32 [simp]: "n < 2 ^ 32 \<Longrightarrow> unat (of_nat n :: u32) = n"
  by (simp add: unsigned_of_nat take_bit_nat_eq_self)

lemma needed_word: "n + 1 < 2 ^ 32 \<Longrightarrow> unat ((of_nat n :: u32) + 1) = n + 1"
  using unat_of_nat_u32 [of "n + 1"] by (simp add: add.commute)

lemma c_text_put_cstr:
  assumes "CHR 0x00 \<notin> set s"
  shows "c_text (put_cstr n s b) = take n s"
proof -
  have "\<forall>c \<in> set (take n s). c \<noteq> CHR 0x00"
    using assms by (metis in_set_takeD)
  then show ?thesis
    by (simp add: c_text_def put_cstr_def takeWhile_append2)
qed

lemma length_put_cstr:
  "n \<le> length s \<Longrightarrow> n < length b \<Longrightarrow> length (put_cstr n s b) = length b"
  by (simp add: put_cstr_def)

lemma drop_put_cstr:
  "n \<le> length s \<Longrightarrow> n < m \<Longrightarrow> drop m (put_cstr n s b) = drop m b"
proof -
  assume "n \<le> length s" and "n < m"
  then obtain j where "m = Suc (n + j)" by (auto dest: less_imp_Suc_add)
  then show ?thesis using \<open>n \<le> length s\<close> by (simp add: put_cstr_def min_absorb2 add.commute)
qed

lemma fetch_string_CopyOutString:
  assumes "cstr s"
  shows "fetch_string (CopyOutString s) = (if s = [] then None else Some s)"
proof (cases "s = []")
  case True
  then show ?thesis by (simp add: fetch_string_def CopyOutString_def)
next
  case False
  have len: "length s + 1 < 2 ^ 32" and nul: "CHR 0x00 \<notin> set s"
    using assms by (auto simp: cstr_def)
  have sz: "unat (of_nat (length s) :: u32) = length s" using len by simp
  have "unat ((of_nat (length s) :: u32) + 1) \<noteq> 0" using needed_word [OF len] by simp
  then have "(of_nat (length s) :: u32) + 1 \<noteq> 0" by (metis unat_0)
  then show ?thesis
    using False by (simp add: fetch_string_def CopyOutString_def Let_def c_text_put_cstr [OF nul] sz)
qed

lemma fetch_string_guard:
  assumes "\<And>b n r. getter b n r = (if c then CopyOutString s b n r else (RFLOW_ERR_NOT_FOUND, b, r))" and "cstr s"
  shows "fetch_string getter = (if c \<and> s \<noteq> [] then Some s else None)"
proof (cases c)
  case True
  then have "getter = CopyOutString s" using assms(1) by (simp add: fun_eq_iff)
  then show ?thesis using True assms(2) by (simp add: fetch_string_CopyOutString)
next
  case False
  then show ?thesis by (simp add: fetch_string_def assms(1))
qed

text \<open>
  Copying a string out is memory safe and follows the documented contract. For a text
  whose size fits in 32 bits and a buffer of at least \<^verbatim>\<open>buf_len\<close> bytes, the buffer keeps its
  length, the bytes from \<^verbatim>\<open>buf_len\<close> on are untouched, what a caller reads back is the longest
  prefix that fits beside the terminator, the reported size is the length plus one, and the
  result is OK exactly when the whole text fitted.
\<close>

theorem copy_out_contract:
  assumes "cstr s" and "s \<noteq> []" and "unat n \<le> length b" and "n \<noteq> 0"
  shows "\<exists>rc b'. CopyOutString s (Some b) n (Some r) = (rc, Some b', Some (of_nat (length s + 1)))
            \<and> length b' = length b \<and> drop (unat n) b' = drop (unat n) b
            \<and> c_text b' = take (unat n - 1) s
            \<and> rc = (if length s < unat n then RFLOW_OK else RFLOW_ERR_TRUNCATED)"
proof -
  have len: "length s + 1 < 2 ^ 32" and nul: "CHR 0x00 \<notin> set s"
    using assms(1) by (auto simp: cstr_def)
  have sz: "unat (of_nat (length s) :: u32) = length s" using len by simp
  have lt: "n < (of_nat (length s) :: u32) + 1 \<longleftrightarrow> unat n < length s + 1"
    using needed_word [OF len] by (simp add: word_less_nat_alt)
  have pos: "0 < unat n" using assms(4) by (simp add: unat_gt_0)
  have pred: "unat (n - 1) = unat n - 1" using assms(4) by (simp add: unat_minus_one)
  have w: "(of_nat (length s) :: u32) + 1 = of_nat (length s + 1)" by (simp add: add.commute)
  show ?thesis
  proof (cases "length s < unat n")
    case True
    have "drop (unat n) (put_cstr (length s) s b) = drop (unat n) b"
      using True by (simp add: drop_put_cstr)
    then show ?thesis
      using True assms lt w sz
      by (simp add: add.commute [of _ 1] CopyOutString_def Let_def c_text_put_cstr [OF nul] length_put_cstr)
  next
    case False
    have le: "unat n - 1 \<le> length s" and bl: "unat n - 1 < length b" using False pos assms(3) by linarith+
    have "drop (unat n) (put_cstr (unat n - 1) s b) = drop (unat n) b"
      using le pos by (simp add: drop_put_cstr)
    then show ?thesis
      using False assms lt w pred length_put_cstr [OF le bl]
      by (simp add: add.commute [of _ 1] CopyOutString_def Let_def c_text_put_cstr [OF nul])
  qed
qed

theorem copy_out_contract_witness:
  "\<exists>rc b'. CopyOutString ''stun:host'' (Some (replicate 6 (CHR ''x''))) 5 (Some 0) = (rc, Some b', Some 10)
     \<and> length b' = 6 \<and> drop 5 b' = ''x'' \<and> c_text b' = ''stun'' \<and> rc = RFLOW_ERR_TRUNCATED"
proof -
  have "cstr ''stun:host''" by (simp add: cstr_def)
  moreover have "unat (5 :: u32) \<le> length (replicate 6 (CHR ''x''))" by simp
  ultimately show ?thesis
    using copy_out_contract [of "''stun:host''" 5 "replicate 6 (CHR ''x'')" 0] by simp
qed

section \<open>Tokens\<close>

definition kStreamParamTokenMaxLen :: nat where "kStreamParamTokenMaxLen = 127"
definition kIceServerUrlMaxLen :: nat where "kIceServerUrlMaxLen = 511"
definition kIceTurnCredentialMaxLen :: nat where "kIceTurnCredentialMaxLen = 127"

lemmas token_limits = kStreamParamTokenMaxLen_def kIceServerUrlMaxLen_def kIceTurnCredentialMaxLen_def

text \<open>The iterators \<^verbatim>\<open>begin\<close> and \<^verbatim>\<open>rend\<close> are offsets from the start of the string.\<close>

definition TrimCopyToken :: "string option \<Rightarrow> string" where
  "TrimCopyToken s = (case s of None \<Rightarrow> []
     | Some t \<Rightarrow>
         let start = length (takeWhile isspace t);
             rend = length t - length (takeWhile isspace (rev t))
         in if start \<ge> rend then [] else take (rend - start) (drop start t))"

definition CopyRequiredIceUrl :: "string option \<Rightarrow> string \<Rightarrow> rflow_err_t \<times> string" where
  "CopyRequiredIceUrl url out =
     (let t = TrimCopyToken url
      in if t = [] \<or> length t > kIceServerUrlMaxLen then (RFLOW_ERR_PARAM, out) else (RFLOW_OK, t))"

definition CopyOptionalIceCredential :: "string option \<Rightarrow> string \<Rightarrow> rflow_err_t \<times> string" where
  "CopyOptionalIceCredential value out =
     (case value of None \<Rightarrow> (RFLOW_OK, [])
      | Some _ \<Rightarrow>
          let t = TrimCopyToken value
          in if length t > kIceTurnCredentialMaxLen then (RFLOW_ERR_PARAM, out) else (RFLOW_OK, t))"

text \<open>Trimming as the specification has it: white space dropped at both ends.\<close>

definition trimmed :: "string \<Rightarrow> string" where
  "trimmed t = rev (dropWhile isspace (rev (dropWhile isspace t)))"

lemma dropWhile_rev_ends:
  assumes "\<exists>x \<in> set t. \<not> P x"
  shows "rev (dropWhile P (rev (dropWhile P t))) =
           take (length t - length (takeWhile P (rev t)) - length (takeWhile P t)) (dropWhile P t)"
proof -
  let ?d = "dropWhile P t"
  have t: "t = takeWhile P t @ ?d" by simp
  have nP: "\<exists>x \<in> set ?d. \<not> P x"
  proof -
    have "?d \<noteq> []" using assms by (simp add: dropWhile_eq_Nil_conv)
    then have "\<not> P (hd ?d)" by (rule hd_dropWhile)
    then show ?thesis using \<open>?d \<noteq> []\<close> by (metis list.set_sel(1))
  qed
  have tw: "takeWhile P (rev t) = takeWhile P (rev ?d)"
  proof -
    have "rev t = rev ?d @ rev (takeWhile P t)" by (metis t rev_append)
    moreover have "\<exists>x \<in> set (rev ?d). \<not> P x" using nP by simp
    ultimately show ?thesis by (metis takeWhile_append1)
  qed
  have len: "length t = length (takeWhile P t) + length ?d" by (metis t length_append)
  have "rev (dropWhile P (rev ?d)) = take (length ?d - length (takeWhile P (rev ?d))) ?d"
  proof -
    have "dropWhile P (rev ?d) = drop (length (takeWhile P (rev ?d))) (rev ?d)"
      by (rule dropWhile_eq_drop)
    then show ?thesis by (simp add: rev_drop)
  qed
  then show ?thesis using tw len by simp
qed

lemma TrimCopyToken_trimmed: "TrimCopyToken (Some t) = trimmed t"
proof (cases "\<exists>x \<in> set t. \<not> isspace x")
  case True
  let ?a = "length (takeWhile isspace t)" and ?r = "length t - length (takeWhile isspace (rev t))"
  have drop: "drop ?a t = dropWhile isspace t" by (simp add: dropWhile_eq_drop)
  have eq: "trimmed t = take (?r - ?a) (dropWhile isspace t)"
    unfolding trimmed_def using dropWhile_rev_ends [OF True] by simp
  have "TrimCopyToken (Some t) = take (?r - ?a) (drop ?a t)"
    by (cases "?a \<ge> ?r") (auto simp: TrimCopyToken_def Let_def)
  then show ?thesis by (simp only: eq drop)
next
  case False
  have a: "takeWhile isspace (rev t) = rev t"
    using False by (metis set_rev takeWhile_eq_all_conv)
  have b: "dropWhile isspace t = []"
    using False by (metis dropWhile_eq_Nil_conv)
  have c: "takeWhile isspace t = t"
    using False by (metis takeWhile_eq_all_conv)
  show ?thesis by (simp add: TrimCopyToken_def trimmed_def Let_def a b c del: dropWhile_eq_Nil_conv takeWhile_eq_all_conv)
qed

lemma TrimCopyToken_None [simp]: "TrimCopyToken None = []"
  by (simp add: TrimCopyToken_def)

lemma trimmed_ends: "trimmed t \<noteq> [] \<Longrightarrow> \<not> isspace (hd (trimmed t)) \<and> \<not> isspace (last (trimmed t))"
proof -
  assume ne: "trimmed t \<noteq> []"
  let ?d = "dropWhile isspace t" and ?e = "dropWhile isspace (rev (dropWhile isspace t))"
  have e: "?e \<noteq> []" using ne by (simp add: trimmed_def)
  have l: "\<not> isspace (last (trimmed t))"
    using hd_dropWhile [OF e] by (simp add: trimmed_def last_rev)
  have "prefix (trimmed t) ?d"
    unfolding trimmed_def by (metis suffix_dropWhile suffix_to_prefix rev_rev_ident)
  then have "hd (trimmed t) = hd ?d" using ne by (auto simp: prefix_def)
  moreover have "?d \<noteq> []" using e by (metis dropWhile.simps(1) rev.simps(1))
  ultimately show ?thesis using l hd_dropWhile [of isspace t] by simp
qed

lemma trimmed_subset: "set (trimmed t) \<subseteq> set t"
  unfolding trimmed_def by (auto dest!: set_dropWhileD)

lemma trimmed_length: "length (trimmed t) \<le> length t"
  unfolding trimmed_def by (metis length_dropWhile_le length_rev order_trans)

lemma token_cstr: "cstr t \<Longrightarrow> cstr (trimmed t)"
  using trimmed_subset [of t] trimmed_length [of t] by (auto simp: cstr_def)

section \<open>Objects with flagged fields\<close>

text \<open>
  The contract of an object that is filled by setter calls and read by getters. \<open>view obj k\<close>
  is what the getter of field k lets a caller observe. An accepted call changes the view at
  its own field and nowhere else; a rejected one returns a parameter error and leaves every
  other field as it was.
\<close>

locale flagged_object =
  fixes apply_call :: "'call \<Rightarrow> 'obj \<Rightarrow> rflow_err_t \<times> 'obj"
    and ok :: "'obj \<Rightarrow> bool"
    and wf :: "'call \<Rightarrow> bool"
    and accepted :: "'call \<Rightarrow> bool"
    and key_of :: "'call \<Rightarrow> 'key"
    and val_of :: "'call \<Rightarrow> 'val option"
    and view :: "'obj \<Rightarrow> 'key \<Rightarrow> 'val option"
  assumes keeps_ok: "ok x \<Longrightarrow> wf c \<Longrightarrow> ok (snd (apply_call c x))"
    and accepted_rc: "ok x \<Longrightarrow> wf c \<Longrightarrow> fst (apply_call c x) = (if accepted c then RFLOW_OK else RFLOW_ERR_PARAM)"
    and accepted_view: "ok x \<Longrightarrow> wf c \<Longrightarrow> accepted c \<Longrightarrow> view (snd (apply_call c x)) (key_of c) = val_of c"
    and other_view: "ok x \<Longrightarrow> wf c \<Longrightarrow> k \<noteq> key_of c \<Longrightarrow> view (snd (apply_call c x)) k = view x k"
begin

definition run :: "'call list \<Rightarrow> 'obj \<Rightarrow> 'obj" where
  "run cs x = fold (\<lambda>c y. snd (apply_call c y)) cs x"

lemma run_simps [simp]: "run [] x = x" "run (c # cs) x = run cs (snd (apply_call c x))"
  by (simp_all add: run_def)

lemma run_ok: "ok x \<Longrightarrow> \<forall>c \<in> set cs. wf c \<Longrightarrow> ok (run cs x)"
  by (induction cs arbitrary: x) (simp_all add: keeps_ok)

lemma run_untouched:
  "ok x \<Longrightarrow> \<forall>c \<in> set cs. wf c \<Longrightarrow> \<forall>c \<in> set cs. k \<noteq> key_of c \<Longrightarrow> view (run cs x) k = view x k"
  by (induction cs arbitrary: x) (simp_all add: keeps_ok other_view)

lemma run_append: "run (as @ bs) x = run bs (run as x)"
  by (induction as arbitrary: x) simp_all

lemma last_write_wins:
  assumes "ok x" and "\<forall>d \<in> set (as @ c # bs). wf d" and "accepted c" and "\<forall>d \<in> set bs. key_of d \<noteq> key_of c"
  shows "view (run (as @ c # bs) x) (key_of c) = val_of c"
proof -
  have "ok (run as x)" using assms by (simp add: run_ok)
  moreover have "view (run bs (snd (apply_call c (run as x)))) (key_of c)
                   = view (snd (apply_call c (run as x))) (key_of c)"
    using assms calculation by (intro run_untouched keeps_ok) auto
  ultimately show ?thesis using assms by (simp add: run_append accepted_view)
qed

end

end
