(* ===== verification/Service_Params.thy ===== *)
theory Service_Params
  imports Abi_Objects
begin

text \<open>
  The parameter objects of the publishing side (\<^verbatim>\<open>src/service/api_stream_objects.cpp\<close>,
  \<^verbatim>\<open>src/service/internal/handles.h\<close>): the stream parameters with their 24 flagged fields,
  the stream callbacks and the push frame, each with every setter and getter of the C
  interface. Record fields carry a prefix per structure (\<^verbatim>\<open>sp_\<close>, \<^verbatim>\<open>scb_\<close>, \<^verbatim>\<open>pf_\<close>).

  The abstract object is a partial map from fields to values. \<open>svc_view\<close> and \<open>frame_view\<close>
  read the concrete objects through the getters, and the refinement lemmas say that each
  setter is an update of that map.
\<close>

section \<open>Enumerations\<close>

text \<open>
  C enumerations: the named values, and one constructor for every other value a caller can
  store in a variable of the type.
\<close>

datatype rflow_codec_t =
    RFLOW_CODEC_UNKNOWN | RFLOW_CODEC_I420 | RFLOW_CODEC_NV12 | RFLOW_CODEC_YUYV | RFLOW_CODEC_UYVY
  | RFLOW_CODEC_H264 | RFLOW_CODEC_H265 | RFLOW_CODEC_MJPEG | codec_value int

datatype rflow_frame_type_t =
    RFLOW_FRAME_UNKNOWN | RFLOW_FRAME_I | RFLOW_FRAME_P | RFLOW_FRAME_B | frame_type_value int

datatype rflow_rc_mode_t = RFLOW_RC_CQP | RFLOW_RC_CBR | RFLOW_RC_VBR | RFLOW_RC_ACQP | rc_mode_value int

datatype rflow_bitrate_mode_t = RFLOW_BITRATE_MODE_VBR | RFLOW_BITRATE_MODE_CBR | bitrate_mode_value int

datatype rflow_degradation_preference_t =
    RFLOW_DEGRADATION_MAINTAIN_FRAMERATE | RFLOW_DEGRADATION_MAINTAIN_RESOLUTION
  | RFLOW_DEGRADATION_BALANCED | degradation_value int

datatype rflow_svc_network_priority_t =
    RFLOW_SVC_NETWORK_PRIORITY_VERY_LOW | RFLOW_SVC_NETWORK_PRIORITY_LOW
  | RFLOW_SVC_NETWORK_PRIORITY_MEDIUM | RFLOW_SVC_NETWORK_PRIORITY_HIGH | network_priority_value int

definition svc_kMagicStreamParam :: u32 where "svc_kMagicStreamParam = 0x52735350"
definition svc_kMagicStreamCb :: u32 where "svc_kMagicStreamCb = 0x52734342"
definition kMagicPushFrame :: u32 where "kMagicPushFrame = 0x52735046"

section \<open>The stream parameter object\<close>

record librflow_svc_stream_param_s =
  sp_magic :: u32
  sp_in_codec :: rflow_codec_t
  sp_out_codec :: rflow_codec_t
  sp_src_w :: u32
  sp_src_h :: u32
  sp_out_w :: u32
  sp_out_h :: u32
  sp_fps :: u32
  sp_gop :: u32
  sp_rc_mode :: rflow_rc_mode_t
  sp_qp :: u32
  sp_bitrate_kbps :: u32
  sp_max_bitrate_kbps :: u32
  sp_bitrate_mode :: rflow_bitrate_mode_t
  sp_dynamic_bitrate :: bool
  sp_lowest_kbps :: u32
  sp_highest_kbps :: u32
  sp_enable_transcode :: bool
  sp_video_device_path :: string
  sp_video_device_index :: u32
  sp_degradation_preference :: rflow_degradation_preference_t
  sp_h264_profile :: string
  sp_h264_level :: string
  sp_ice_prioritize_likely_pairs :: bool
  sp_stun_server :: string
  sp_turn_server :: string
  sp_turn_username :: string
  sp_turn_password :: string
  sp_video_network_priority :: rflow_svc_network_priority_t
  sp_video_encoding_max_fps :: u32
  sp_capture_warmup_sec :: u32
  sp_capture_gate_min_frames :: u32
  sp_capture_gate_max_wait_sec :: u32
  sp_has_in_codec :: bool
  sp_has_out_codec :: bool
  sp_has_src_size :: bool
  sp_has_out_size :: bool
  sp_has_fps :: bool
  sp_has_gop :: bool
  sp_has_rc_mode :: bool
  sp_has_qp :: bool
  sp_has_bitrate :: bool
  sp_has_bitrate_mode :: bool
  sp_has_dynamic_bitrate :: bool
  sp_has_enable_transcode :: bool
  sp_has_video_device_path :: bool
  sp_has_video_device_index :: bool
  sp_has_degradation_preference :: bool
  sp_has_h264_profile :: bool
  sp_has_h264_level :: bool
  sp_has_ice_prioritize_likely_pairs :: bool
  sp_has_stun_server :: bool
  sp_has_turn_server :: bool
  sp_has_video_network_priority :: bool
  sp_has_video_encoding_max_fps :: bool
  sp_has_capture_warmup_sec :: bool
  sp_has_capture_gate :: bool

text \<open>
  Value initialisation \<^verbatim>\<open>new T()\<close> zeroes every member and then runs the member initialisers.
\<close>

definition svc_stream_param_zero :: librflow_svc_stream_param_s where
  "svc_stream_param_zero = \<lparr>
     sp_magic = 0,
     sp_in_codec = RFLOW_CODEC_UNKNOWN,
     sp_out_codec = RFLOW_CODEC_UNKNOWN,
     sp_src_w = 0,
     sp_src_h = 0,
     sp_out_w = 0,
     sp_out_h = 0,
     sp_fps = 0,
     sp_gop = 0,
     sp_rc_mode = RFLOW_RC_CQP,
     sp_qp = 0,
     sp_bitrate_kbps = 0,
     sp_max_bitrate_kbps = 0,
     sp_bitrate_mode = RFLOW_BITRATE_MODE_VBR,
     sp_dynamic_bitrate = False,
     sp_lowest_kbps = 0,
     sp_highest_kbps = 0,
     sp_enable_transcode = False,
     sp_video_device_path = [],
     sp_video_device_index = 0,
     sp_degradation_preference = RFLOW_DEGRADATION_MAINTAIN_FRAMERATE,
     sp_h264_profile = [],
     sp_h264_level = [],
     sp_ice_prioritize_likely_pairs = True,
     sp_stun_server = [],
     sp_turn_server = [],
     sp_turn_username = [],
     sp_turn_password = [],
     sp_video_network_priority = RFLOW_SVC_NETWORK_PRIORITY_HIGH,
     sp_video_encoding_max_fps = 0,
     sp_capture_warmup_sec = 0,
     sp_capture_gate_min_frames = 0,
     sp_capture_gate_max_wait_sec = 20,
     sp_has_in_codec = False,
     sp_has_out_codec = False,
     sp_has_src_size = False,
     sp_has_out_size = False,
     sp_has_fps = False,
     sp_has_gop = False,
     sp_has_rc_mode = False,
     sp_has_qp = False,
     sp_has_bitrate = False,
     sp_has_bitrate_mode = False,
     sp_has_dynamic_bitrate = False,
     sp_has_enable_transcode = False,
     sp_has_video_device_path = False,
     sp_has_video_device_index = False,
     sp_has_degradation_preference = False,
     sp_has_h264_profile = False,
     sp_has_h264_level = False,
     sp_has_ice_prioritize_likely_pairs = False,
     sp_has_stun_server = False,
     sp_has_turn_server = False,
     sp_has_video_network_priority = False,
     sp_has_video_encoding_max_fps = False,
     sp_has_capture_warmup_sec = False,
     sp_has_capture_gate = False \<rparr>"

definition librflow_svc_stream_param_create :: "bool \<Rightarrow> librflow_svc_stream_param_s option" where
  "librflow_svc_stream_param_create alloc =
     (case CreateMagicObject alloc (\<lambda>m x. x\<lparr>sp_magic := m\<rparr>) svc_stream_param_zero svc_kMagicStreamParam of
        None \<Rightarrow> None
      | Some p \<Rightarrow> Some (p\<lparr>sp_rc_mode := RFLOW_RC_VBR\<rparr>))"

definition librflow_svc_stream_param_destroy :: "librflow_svc_stream_param_s option \<Rightarrow> librflow_svc_stream_param_s option" where
  "librflow_svc_stream_param_destroy p = DestroyMagicObject sp_magic p svc_kMagicStreamParam"

type_synonym param_h = "librflow_svc_stream_param_s option"
type_synonym param_r = "rflow_err_t \<times> librflow_svc_stream_param_s option"

definition librflow_svc_stream_param_set_in_codec ::
  "param_h \<Rightarrow> rflow_codec_t \<Rightarrow> param_r" where
  "librflow_svc_stream_param_set_in_codec p c =
     RFLOW_SET_VALUE_WITH_FLAG sp_magic p svc_kMagicStreamParam
       (\<lambda>x. x\<lparr>sp_in_codec := c\<rparr>) (\<lambda>x. x\<lparr>sp_has_in_codec := True\<rparr>)"

definition librflow_svc_stream_param_set_out_codec ::
  "param_h \<Rightarrow> rflow_codec_t \<Rightarrow> param_r" where
  "librflow_svc_stream_param_set_out_codec p c =
     RFLOW_SET_VALUE_WITH_FLAG sp_magic p svc_kMagicStreamParam
       (\<lambda>x. x\<lparr>sp_out_codec := c\<rparr>) (\<lambda>x. x\<lparr>sp_has_out_codec := True\<rparr>)"

definition librflow_svc_stream_param_set_src_size ::
  "param_h \<Rightarrow> u32 \<Rightarrow> u32 \<Rightarrow> param_r" where
  "librflow_svc_stream_param_set_src_size p w h =
     RFLOW_SET_2_VALUES_WITH_FLAG sp_magic p svc_kMagicStreamParam
       (\<lambda>x. x\<lparr>sp_src_w := w\<rparr>) (\<lambda>x. x\<lparr>sp_src_h := h\<rparr>) (\<lambda>x. x\<lparr>sp_has_src_size := True\<rparr>)"

definition librflow_svc_stream_param_set_out_size ::
  "param_h \<Rightarrow> u32 \<Rightarrow> u32 \<Rightarrow> param_r" where
  "librflow_svc_stream_param_set_out_size p w h =
     RFLOW_SET_2_VALUES_WITH_FLAG sp_magic p svc_kMagicStreamParam
       (\<lambda>x. x\<lparr>sp_out_w := w\<rparr>) (\<lambda>x. x\<lparr>sp_out_h := h\<rparr>) (\<lambda>x. x\<lparr>sp_has_out_size := True\<rparr>)"

definition librflow_svc_stream_param_set_fps ::
  "param_h \<Rightarrow> u32 \<Rightarrow> param_r" where
  "librflow_svc_stream_param_set_fps p f =
     RFLOW_SET_VALUE_WITH_FLAG sp_magic p svc_kMagicStreamParam
       (\<lambda>x. x\<lparr>sp_fps := f\<rparr>) (\<lambda>x. x\<lparr>sp_has_fps := True\<rparr>)"

definition librflow_svc_stream_param_set_gop ::
  "param_h \<Rightarrow> u32 \<Rightarrow> param_r" where
  "librflow_svc_stream_param_set_gop p g =
     RFLOW_SET_VALUE_WITH_FLAG sp_magic p svc_kMagicStreamParam
       (\<lambda>x. x\<lparr>sp_gop := g\<rparr>) (\<lambda>x. x\<lparr>sp_has_gop := True\<rparr>)"

definition librflow_svc_stream_param_set_rc_mode ::
  "param_h \<Rightarrow> rflow_rc_mode_t \<Rightarrow> param_r" where
  "librflow_svc_stream_param_set_rc_mode p r =
     RFLOW_SET_VALUE_WITH_FLAG sp_magic p svc_kMagicStreamParam
       (\<lambda>x. x\<lparr>sp_rc_mode := r\<rparr>) (\<lambda>x. x\<lparr>sp_has_rc_mode := True\<rparr>)"

definition librflow_svc_stream_param_set_qp ::
  "param_h \<Rightarrow> u32 \<Rightarrow> param_r" where
  "librflow_svc_stream_param_set_qp p q =
     RFLOW_SET_VALUE_WITH_FLAG sp_magic p svc_kMagicStreamParam
       (\<lambda>x. x\<lparr>sp_qp := q\<rparr>) (\<lambda>x. x\<lparr>sp_has_qp := True\<rparr>)"

definition librflow_svc_stream_param_set_bitrate ::
  "param_h \<Rightarrow> u32 \<Rightarrow> u32 \<Rightarrow> param_r" where
  "librflow_svc_stream_param_set_bitrate p br max_br =
     RFLOW_SET_2_VALUES_WITH_FLAG sp_magic p svc_kMagicStreamParam
       (\<lambda>x. x\<lparr>sp_bitrate_kbps := br\<rparr>) (\<lambda>x. x\<lparr>sp_max_bitrate_kbps := max_br\<rparr>) (\<lambda>x. x\<lparr>sp_has_bitrate := True\<rparr>)"

definition librflow_svc_stream_param_set_bitrate_mode ::
  "param_h \<Rightarrow> rflow_bitrate_mode_t \<Rightarrow> param_r" where
  "librflow_svc_stream_param_set_bitrate_mode p mode =
     (if mode \<noteq> RFLOW_BITRATE_MODE_VBR \<and> mode \<noteq> RFLOW_BITRATE_MODE_CBR then (RFLOW_ERR_PARAM, p)
      else RFLOW_SET_VALUE_WITH_FLAG sp_magic p svc_kMagicStreamParam
       (\<lambda>x. x\<lparr>sp_bitrate_mode := mode\<rparr>) (\<lambda>x. x\<lparr>sp_has_bitrate_mode := True\<rparr>))"

definition librflow_svc_stream_param_set_dynamic_bitrate ::
  "param_h \<Rightarrow> bool \<Rightarrow> u32 \<Rightarrow> u32 \<Rightarrow> param_r" where
  "librflow_svc_stream_param_set_dynamic_bitrate p e lo hi =
     RFLOW_SET_3_VALUES_WITH_FLAG sp_magic p svc_kMagicStreamParam
       (\<lambda>x. x\<lparr>sp_dynamic_bitrate := e\<rparr>) (\<lambda>x. x\<lparr>sp_lowest_kbps := lo\<rparr>) (\<lambda>x. x\<lparr>sp_highest_kbps := hi\<rparr>) (\<lambda>x. x\<lparr>sp_has_dynamic_bitrate := True\<rparr>)"

definition librflow_svc_stream_param_set_enable_transcode ::
  "param_h \<Rightarrow> bool \<Rightarrow> param_r" where
  "librflow_svc_stream_param_set_enable_transcode p e =
     RFLOW_SET_VALUE_WITH_FLAG sp_magic p svc_kMagicStreamParam
       (\<lambda>x. x\<lparr>sp_enable_transcode := e\<rparr>) (\<lambda>x. x\<lparr>sp_has_enable_transcode := True\<rparr>)"

definition librflow_svc_stream_param_set_video_device_path ::
  "param_h \<Rightarrow> string option \<Rightarrow> param_r" where
  "librflow_svc_stream_param_set_video_device_path p v =
     (if \<not> RFLOW_CHECK_HANDLE sp_magic p svc_kMagicStreamParam then (RFLOW_ERR_PARAM, p)
      else (RFLOW_OK, map_option (\<lambda>x. x\<lparr>sp_video_device_path := case_option [] id v, sp_has_video_device_path := True\<rparr>) p))"

definition librflow_svc_stream_param_set_video_device_index ::
  "param_h \<Rightarrow> u32 \<Rightarrow> param_r" where
  "librflow_svc_stream_param_set_video_device_index p i =
     RFLOW_SET_VALUE_WITH_FLAG sp_magic p svc_kMagicStreamParam
       (\<lambda>x. x\<lparr>sp_video_device_index := i\<rparr>) (\<lambda>x. x\<lparr>sp_has_video_device_index := True\<rparr>)"

definition librflow_svc_stream_param_set_degradation_preference ::
  "param_h \<Rightarrow> rflow_degradation_preference_t \<Rightarrow> param_r" where
  "librflow_svc_stream_param_set_degradation_preference p pref =
     (if \<not> RFLOW_CHECK_HANDLE sp_magic p svc_kMagicStreamParam then (RFLOW_ERR_PARAM, p)
      else (case pref of degradation_value _ \<Rightarrow> (RFLOW_ERR_PARAM, p)
       | _ \<Rightarrow> (RFLOW_OK, map_option (\<lambda>x. x\<lparr>sp_degradation_preference := pref, sp_has_degradation_preference := True\<rparr>) p)))"

definition librflow_svc_stream_param_set_h264_profile ::
  "param_h \<Rightarrow> string option \<Rightarrow> param_r" where
  "librflow_svc_stream_param_set_h264_profile p s =
     (if \<not> RFLOW_CHECK_HANDLE sp_magic p svc_kMagicStreamParam then (RFLOW_ERR_PARAM, p)
      else (let t = TrimCopyToken s
       in if t = [] \<or> length t > kStreamParamTokenMaxLen then (RFLOW_ERR_PARAM, p)
          else (RFLOW_OK, map_option (\<lambda>x. x\<lparr>sp_h264_profile := t, sp_has_h264_profile := True\<rparr>) p)))"

definition librflow_svc_stream_param_set_h264_level ::
  "param_h \<Rightarrow> string option \<Rightarrow> param_r" where
  "librflow_svc_stream_param_set_h264_level p s =
     (if \<not> RFLOW_CHECK_HANDLE sp_magic p svc_kMagicStreamParam then (RFLOW_ERR_PARAM, p)
      else (let t = TrimCopyToken s
       in if t = [] \<or> length t > kStreamParamTokenMaxLen then (RFLOW_ERR_PARAM, p)
          else (RFLOW_OK, map_option (\<lambda>x. x\<lparr>sp_h264_level := t, sp_has_h264_level := True\<rparr>) p)))"

definition librflow_svc_stream_param_set_ice_prioritize_likely_pairs ::
  "param_h \<Rightarrow> bool \<Rightarrow> param_r" where
  "librflow_svc_stream_param_set_ice_prioritize_likely_pairs p enabled =
     RFLOW_SET_VALUE_WITH_FLAG sp_magic p svc_kMagicStreamParam
       (\<lambda>x. x\<lparr>sp_ice_prioritize_likely_pairs := enabled\<rparr>) (\<lambda>x. x\<lparr>sp_has_ice_prioritize_likely_pairs := True\<rparr>)"

definition librflow_svc_stream_param_set_stun_server ::
  "param_h \<Rightarrow> string option \<Rightarrow> param_r" where
  "librflow_svc_stream_param_set_stun_server p stun_url =
     (if \<not> RFLOW_CHECK_HANDLE sp_magic p svc_kMagicStreamParam then (RFLOW_ERR_PARAM, p)
      else (let (rc, t) = CopyRequiredIceUrl stun_url (sp_stun_server (the p))
       in if rc \<noteq> RFLOW_OK then (rc, p)
          else (RFLOW_OK, map_option (\<lambda>x. x\<lparr>sp_stun_server := t, sp_has_stun_server := True\<rparr>) p)))"

text \<open>
  Each of the three copies writes its member as soon as it has validated it, so a rejected
  credential leaves the members written before it.
\<close>

definition librflow_svc_stream_param_set_turn_server ::
  "param_h \<Rightarrow> string option \<Rightarrow> string option \<Rightarrow> string option \<Rightarrow> param_r" where
  "librflow_svc_stream_param_set_turn_server p turn_url username password =
     (if \<not> RFLOW_CHECK_HANDLE sp_magic p svc_kMagicStreamParam then (RFLOW_ERR_PARAM, p)
      else (let (rc1, url) = CopyRequiredIceUrl turn_url (sp_turn_server (the p))
       in if rc1 \<noteq> RFLOW_OK then (rc1, p)
          else let p1 = map_option (\<lambda>x. x\<lparr>sp_turn_server := url\<rparr>) p;
                   (rc2, user) = CopyOptionalIceCredential username (sp_turn_username (the p1))
               in if rc2 \<noteq> RFLOW_OK then (rc2, p1)
                  else let p2 = map_option (\<lambda>x. x\<lparr>sp_turn_username := user\<rparr>) p1;
                           (rc3, pass) = CopyOptionalIceCredential password (sp_turn_password (the p2))
                       in if rc3 \<noteq> RFLOW_OK then (rc3, p2)
                          else (RFLOW_OK, map_option (\<lambda>x. x\<lparr>sp_turn_password := pass, sp_has_turn_server := True\<rparr>) p2)))"

definition librflow_svc_stream_param_set_video_network_priority ::
  "param_h \<Rightarrow> rflow_svc_network_priority_t \<Rightarrow> param_r" where
  "librflow_svc_stream_param_set_video_network_priority p prio =
     (if \<not> RFLOW_CHECK_HANDLE sp_magic p svc_kMagicStreamParam then (RFLOW_ERR_PARAM, p)
      else (case prio of network_priority_value _ \<Rightarrow> (RFLOW_ERR_PARAM, p)
       | _ \<Rightarrow> (RFLOW_OK, map_option (\<lambda>x. x\<lparr>sp_video_network_priority := prio, sp_has_video_network_priority := True\<rparr>) p)))"

definition librflow_svc_stream_param_set_video_encoding_max_fps ::
  "param_h \<Rightarrow> u32 \<Rightarrow> param_r" where
  "librflow_svc_stream_param_set_video_encoding_max_fps p fps_limit =
     RFLOW_SET_VALUE_WITH_FLAG sp_magic p svc_kMagicStreamParam
       (\<lambda>x. x\<lparr>sp_video_encoding_max_fps := fps_limit\<rparr>) (\<lambda>x. x\<lparr>sp_has_video_encoding_max_fps := True\<rparr>)"

definition librflow_svc_stream_param_set_capture_warmup_sec ::
  "param_h \<Rightarrow> u32 \<Rightarrow> param_r" where
  "librflow_svc_stream_param_set_capture_warmup_sec p sec =
     RFLOW_SET_VALUE_WITH_FLAG sp_magic p svc_kMagicStreamParam
       (\<lambda>x. x\<lparr>sp_capture_warmup_sec := sec\<rparr>) (\<lambda>x. x\<lparr>sp_has_capture_warmup_sec := True\<rparr>)"

definition librflow_svc_stream_param_set_capture_gate ::
  "param_h \<Rightarrow> u32 \<Rightarrow> u32 \<Rightarrow> param_r" where
  "librflow_svc_stream_param_set_capture_gate p min_frames max_wait =
     (if \<not> RFLOW_CHECK_HANDLE sp_magic p svc_kMagicStreamParam then (RFLOW_ERR_PARAM, p)
      else (RFLOW_OK, map_option (\<lambda>x. x\<lparr>sp_capture_gate_min_frames := min_frames,
         sp_capture_gate_max_wait_sec := max_wait, sp_has_capture_gate := True\<rparr>) p))"

lemmas svc_setters = librflow_svc_stream_param_set_in_codec_def
  librflow_svc_stream_param_set_out_codec_def
  librflow_svc_stream_param_set_src_size_def
  librflow_svc_stream_param_set_out_size_def
  librflow_svc_stream_param_set_fps_def
  librflow_svc_stream_param_set_gop_def
  librflow_svc_stream_param_set_rc_mode_def
  librflow_svc_stream_param_set_qp_def
  librflow_svc_stream_param_set_bitrate_def
  librflow_svc_stream_param_set_bitrate_mode_def
  librflow_svc_stream_param_set_dynamic_bitrate_def
  librflow_svc_stream_param_set_enable_transcode_def
  librflow_svc_stream_param_set_video_device_path_def
  librflow_svc_stream_param_set_video_device_index_def
  librflow_svc_stream_param_set_degradation_preference_def
  librflow_svc_stream_param_set_h264_profile_def
  librflow_svc_stream_param_set_h264_level_def
  librflow_svc_stream_param_set_ice_prioritize_likely_pairs_def
  librflow_svc_stream_param_set_stun_server_def
  librflow_svc_stream_param_set_turn_server_def
  librflow_svc_stream_param_set_video_network_priority_def
  librflow_svc_stream_param_set_video_encoding_max_fps_def
  librflow_svc_stream_param_set_capture_warmup_sec_def
  librflow_svc_stream_param_set_capture_gate_def

text \<open>The getters.\<close>

definition librflow_svc_stream_param_get_in_codec ::
  "param_h \<Rightarrow> rflow_codec_t option \<Rightarrow> rflow_err_t \<times> rflow_codec_t option" where
  "librflow_svc_stream_param_get_in_codec p out =
     RFLOW_GET_VALUE_WITH_FLAG sp_magic p svc_kMagicStreamParam out sp_has_in_codec sp_in_codec"

definition librflow_svc_stream_param_get_out_codec ::
  "param_h \<Rightarrow> rflow_codec_t option \<Rightarrow> rflow_err_t \<times> rflow_codec_t option" where
  "librflow_svc_stream_param_get_out_codec p out =
     RFLOW_GET_VALUE_WITH_FLAG sp_magic p svc_kMagicStreamParam out sp_has_out_codec sp_out_codec"

definition librflow_svc_stream_param_get_src_size ::
  "param_h \<Rightarrow> u32 option \<Rightarrow> u32 option \<Rightarrow> rflow_err_t \<times> u32 option \<times> u32 option" where
  "librflow_svc_stream_param_get_src_size p out1 out2 =
     RFLOW_GET_2_VALUES_WITH_FLAG sp_magic p svc_kMagicStreamParam out1 out2 sp_has_src_size sp_src_w sp_src_h"

definition librflow_svc_stream_param_get_out_size ::
  "param_h \<Rightarrow> u32 option \<Rightarrow> u32 option \<Rightarrow> rflow_err_t \<times> u32 option \<times> u32 option" where
  "librflow_svc_stream_param_get_out_size p out1 out2 =
     RFLOW_GET_2_VALUES_WITH_FLAG sp_magic p svc_kMagicStreamParam out1 out2 sp_has_out_size sp_out_w sp_out_h"

definition librflow_svc_stream_param_get_fps ::
  "param_h \<Rightarrow> u32 option \<Rightarrow> rflow_err_t \<times> u32 option" where
  "librflow_svc_stream_param_get_fps p out =
     RFLOW_GET_VALUE_WITH_FLAG sp_magic p svc_kMagicStreamParam out sp_has_fps sp_fps"

definition librflow_svc_stream_param_get_gop ::
  "param_h \<Rightarrow> u32 option \<Rightarrow> rflow_err_t \<times> u32 option" where
  "librflow_svc_stream_param_get_gop p out =
     RFLOW_GET_VALUE_WITH_FLAG sp_magic p svc_kMagicStreamParam out sp_has_gop sp_gop"

definition librflow_svc_stream_param_get_rc_mode ::
  "param_h \<Rightarrow> rflow_rc_mode_t option \<Rightarrow> rflow_err_t \<times> rflow_rc_mode_t option" where
  "librflow_svc_stream_param_get_rc_mode p out =
     RFLOW_GET_VALUE_WITH_FLAG sp_magic p svc_kMagicStreamParam out sp_has_rc_mode sp_rc_mode"

definition librflow_svc_stream_param_get_qp ::
  "param_h \<Rightarrow> u32 option \<Rightarrow> rflow_err_t \<times> u32 option" where
  "librflow_svc_stream_param_get_qp p out =
     RFLOW_GET_VALUE_WITH_FLAG sp_magic p svc_kMagicStreamParam out sp_has_qp sp_qp"

definition librflow_svc_stream_param_get_bitrate ::
  "param_h \<Rightarrow> u32 option \<Rightarrow> u32 option \<Rightarrow> rflow_err_t \<times> u32 option \<times> u32 option" where
  "librflow_svc_stream_param_get_bitrate p out1 out2 =
     RFLOW_GET_2_VALUES_WITH_FLAG sp_magic p svc_kMagicStreamParam out1 out2 sp_has_bitrate sp_bitrate_kbps sp_max_bitrate_kbps"

definition librflow_svc_stream_param_get_bitrate_mode ::
  "param_h \<Rightarrow> rflow_bitrate_mode_t option \<Rightarrow> rflow_err_t \<times> rflow_bitrate_mode_t option" where
  "librflow_svc_stream_param_get_bitrate_mode p out =
     RFLOW_GET_VALUE_WITH_FLAG sp_magic p svc_kMagicStreamParam out sp_has_bitrate_mode sp_bitrate_mode"

definition librflow_svc_stream_param_get_dynamic_bitrate ::
  "param_h \<Rightarrow> bool option \<Rightarrow> u32 option \<Rightarrow> u32 option \<Rightarrow> rflow_err_t \<times> bool option \<times> u32 option \<times> u32 option" where
  "librflow_svc_stream_param_get_dynamic_bitrate p out1 out2 out3 =
     RFLOW_GET_3_VALUES_WITH_FLAG sp_magic p svc_kMagicStreamParam out1 out2 out3 sp_has_dynamic_bitrate sp_dynamic_bitrate sp_lowest_kbps sp_highest_kbps"

definition librflow_svc_stream_param_get_enable_transcode ::
  "param_h \<Rightarrow> bool option \<Rightarrow> rflow_err_t \<times> bool option" where
  "librflow_svc_stream_param_get_enable_transcode p out =
     RFLOW_GET_VALUE_WITH_FLAG sp_magic p svc_kMagicStreamParam out sp_has_enable_transcode sp_enable_transcode"

definition librflow_svc_stream_param_get_video_device_path ::
  "param_h \<Rightarrow> string option \<Rightarrow> u32 \<Rightarrow> u32 option \<Rightarrow> rflow_err_t \<times> string option \<times> u32 option" where
  "librflow_svc_stream_param_get_video_device_path p buf buf_len out_needed =
     (if \<not> RFLOW_CHECK_HANDLE sp_magic p svc_kMagicStreamParam then (RFLOW_ERR_PARAM, buf, out_needed)
      else if \<not> sp_has_video_device_path (the p) then (RFLOW_ERR_NOT_FOUND, buf, out_needed)
      else CopyOutString (sp_video_device_path (the p)) buf buf_len out_needed)"

definition librflow_svc_stream_param_get_video_device_index ::
  "param_h \<Rightarrow> u32 option \<Rightarrow> rflow_err_t \<times> u32 option" where
  "librflow_svc_stream_param_get_video_device_index p out =
     RFLOW_GET_VALUE_WITH_FLAG sp_magic p svc_kMagicStreamParam out sp_has_video_device_index sp_video_device_index"

definition librflow_svc_stream_param_get_degradation_preference ::
  "param_h \<Rightarrow> rflow_degradation_preference_t option \<Rightarrow> rflow_err_t \<times> rflow_degradation_preference_t option" where
  "librflow_svc_stream_param_get_degradation_preference p out =
     RFLOW_GET_VALUE_WITH_FLAG sp_magic p svc_kMagicStreamParam out sp_has_degradation_preference sp_degradation_preference"

definition librflow_svc_stream_param_get_h264_profile ::
  "param_h \<Rightarrow> string option \<Rightarrow> u32 \<Rightarrow> u32 option \<Rightarrow> rflow_err_t \<times> string option \<times> u32 option" where
  "librflow_svc_stream_param_get_h264_profile p buf buf_len out_needed =
     (if \<not> RFLOW_CHECK_HANDLE sp_magic p svc_kMagicStreamParam then (RFLOW_ERR_PARAM, buf, out_needed)
      else if \<not> sp_has_h264_profile (the p) then (RFLOW_ERR_NOT_FOUND, buf, out_needed)
      else CopyOutString (sp_h264_profile (the p)) buf buf_len out_needed)"

definition librflow_svc_stream_param_get_h264_level ::
  "param_h \<Rightarrow> string option \<Rightarrow> u32 \<Rightarrow> u32 option \<Rightarrow> rflow_err_t \<times> string option \<times> u32 option" where
  "librflow_svc_stream_param_get_h264_level p buf buf_len out_needed =
     (if \<not> RFLOW_CHECK_HANDLE sp_magic p svc_kMagicStreamParam then (RFLOW_ERR_PARAM, buf, out_needed)
      else if \<not> sp_has_h264_level (the p) then (RFLOW_ERR_NOT_FOUND, buf, out_needed)
      else CopyOutString (sp_h264_level (the p)) buf buf_len out_needed)"

definition librflow_svc_stream_param_get_ice_prioritize_likely_pairs ::
  "param_h \<Rightarrow> bool option \<Rightarrow> rflow_err_t \<times> bool option" where
  "librflow_svc_stream_param_get_ice_prioritize_likely_pairs p out =
     RFLOW_GET_VALUE_WITH_FLAG sp_magic p svc_kMagicStreamParam out sp_has_ice_prioritize_likely_pairs sp_ice_prioritize_likely_pairs"

definition librflow_svc_stream_param_get_stun_server ::
  "param_h \<Rightarrow> string option \<Rightarrow> u32 \<Rightarrow> u32 option \<Rightarrow> rflow_err_t \<times> string option \<times> u32 option" where
  "librflow_svc_stream_param_get_stun_server p buf buf_len out_needed =
     (if \<not> RFLOW_CHECK_HANDLE sp_magic p svc_kMagicStreamParam then (RFLOW_ERR_PARAM, buf, out_needed)
      else if \<not> sp_has_stun_server (the p) then (RFLOW_ERR_NOT_FOUND, buf, out_needed)
      else CopyOutString (sp_stun_server (the p)) buf buf_len out_needed)"

type_synonym copy_out = "string option \<times> u32 option"

definition librflow_svc_stream_param_get_turn_server ::
  "param_h \<Rightarrow> string option \<Rightarrow> u32 \<Rightarrow> u32 option \<Rightarrow> string option \<Rightarrow> u32 \<Rightarrow> u32 option
     \<Rightarrow> string option \<Rightarrow> u32 \<Rightarrow> u32 option \<Rightarrow> rflow_err_t \<times> copy_out \<times> copy_out \<times> copy_out" where
  "librflow_svc_stream_param_get_turn_server p url_buf url_len url_needed user_buf user_len user_needed pass_buf pass_len pass_needed =
     (if \<not> RFLOW_CHECK_HANDLE sp_magic p svc_kMagicStreamParam
        then (RFLOW_ERR_PARAM, (url_buf, url_needed), (user_buf, user_needed), (pass_buf, pass_needed))
      else if \<not> sp_has_turn_server (the p)
        then (RFLOW_ERR_NOT_FOUND, (url_buf, url_needed), (user_buf, user_needed), (pass_buf, pass_needed))
      else let (url_rc, url) = CopyOutString (sp_turn_server (the p)) url_buf url_len url_needed
           in if url_rc \<noteq> RFLOW_OK then (url_rc, url, (user_buf, user_needed), (pass_buf, pass_needed))
              else (RFLOW_OK, url,
                    snd (CopyOutString (sp_turn_username (the p)) user_buf user_len user_needed),
                    snd (CopyOutString (sp_turn_password (the p)) pass_buf pass_len pass_needed)))"

definition librflow_svc_stream_param_get_video_network_priority ::
  "param_h \<Rightarrow> rflow_svc_network_priority_t option \<Rightarrow> rflow_err_t \<times> rflow_svc_network_priority_t option" where
  "librflow_svc_stream_param_get_video_network_priority p out =
     RFLOW_GET_VALUE_WITH_FLAG sp_magic p svc_kMagicStreamParam out sp_has_video_network_priority sp_video_network_priority"

definition librflow_svc_stream_param_get_video_encoding_max_fps ::
  "param_h \<Rightarrow> u32 option \<Rightarrow> rflow_err_t \<times> u32 option" where
  "librflow_svc_stream_param_get_video_encoding_max_fps p out =
     RFLOW_GET_VALUE_WITH_FLAG sp_magic p svc_kMagicStreamParam out sp_has_video_encoding_max_fps sp_video_encoding_max_fps"

definition librflow_svc_stream_param_get_capture_warmup_sec ::
  "param_h \<Rightarrow> u32 option \<Rightarrow> rflow_err_t \<times> u32 option" where
  "librflow_svc_stream_param_get_capture_warmup_sec p out =
     RFLOW_GET_VALUE_WITH_FLAG sp_magic p svc_kMagicStreamParam out sp_has_capture_warmup_sec sp_capture_warmup_sec"

definition librflow_svc_stream_param_get_capture_gate ::
  "param_h \<Rightarrow> u32 option \<Rightarrow> u32 option \<Rightarrow> rflow_err_t \<times> u32 option \<times> u32 option" where
  "librflow_svc_stream_param_get_capture_gate p out1 out2 =
     RFLOW_GET_2_VALUES_WITH_FLAG sp_magic p svc_kMagicStreamParam out1 out2 sp_has_capture_gate sp_capture_gate_min_frames sp_capture_gate_max_wait_sec"

lemmas svc_getters = librflow_svc_stream_param_get_in_codec_def
  librflow_svc_stream_param_get_out_codec_def
  librflow_svc_stream_param_get_src_size_def
  librflow_svc_stream_param_get_out_size_def
  librflow_svc_stream_param_get_fps_def
  librflow_svc_stream_param_get_gop_def
  librflow_svc_stream_param_get_rc_mode_def
  librflow_svc_stream_param_get_qp_def
  librflow_svc_stream_param_get_bitrate_def
  librflow_svc_stream_param_get_bitrate_mode_def
  librflow_svc_stream_param_get_dynamic_bitrate_def
  librflow_svc_stream_param_get_enable_transcode_def
  librflow_svc_stream_param_get_video_device_path_def
  librflow_svc_stream_param_get_video_device_index_def
  librflow_svc_stream_param_get_degradation_preference_def
  librflow_svc_stream_param_get_h264_profile_def
  librflow_svc_stream_param_get_h264_level_def
  librflow_svc_stream_param_get_ice_prioritize_likely_pairs_def
  librflow_svc_stream_param_get_stun_server_def
  librflow_svc_stream_param_get_turn_server_def
  librflow_svc_stream_param_get_video_network_priority_def
  librflow_svc_stream_param_get_video_encoding_max_fps_def
  librflow_svc_stream_param_get_capture_warmup_sec_def
  librflow_svc_stream_param_get_capture_gate_def

section \<open>The abstract object: a partial map of fields\<close>

text \<open>A setter call with its arguments, the field it belongs to, and field values.\<close>

datatype svc_call =
    Set_in_codec rflow_codec_t
  | Set_out_codec rflow_codec_t
  | Set_src_size u32 u32
  | Set_out_size u32 u32
  | Set_fps u32
  | Set_gop u32
  | Set_rc_mode rflow_rc_mode_t
  | Set_qp u32
  | Set_bitrate u32 u32
  | Set_bitrate_mode rflow_bitrate_mode_t
  | Set_dynamic_bitrate bool u32 u32
  | Set_enable_transcode bool
  | Set_video_device_path "string option"
  | Set_video_device_index u32
  | Set_degradation_preference rflow_degradation_preference_t
  | Set_h264_profile "string option"
  | Set_h264_level "string option"
  | Set_ice_prioritize_likely_pairs bool
  | Set_stun_server "string option"
  | Set_turn_server "string option" "string option" "string option"
  | Set_video_network_priority rflow_svc_network_priority_t
  | Set_video_encoding_max_fps u32
  | Set_capture_warmup_sec u32
  | Set_capture_gate u32 u32

datatype svc_field =
    F_in_codec
  | F_out_codec
  | F_src_size
  | F_out_size
  | F_fps
  | F_gop
  | F_rc_mode
  | F_qp
  | F_bitrate
  | F_bitrate_mode
  | F_dynamic_bitrate
  | F_enable_transcode
  | F_video_device_path
  | F_video_device_index
  | F_degradation_preference
  | F_h264_profile
  | F_h264_level
  | F_ice_prioritize_likely_pairs
  | F_stun_server
  | F_turn_server
  | F_video_network_priority
  | F_video_encoding_max_fps
  | F_capture_warmup_sec
  | F_capture_gate

datatype svc_value =
    V_codec rflow_codec_t | V_u32 u32 | V_pair u32 u32 | V_rc_mode rflow_rc_mode_t
  | V_bitrate_mode rflow_bitrate_mode_t | V_dynamic bool u32 u32 | V_bool bool | V_text string
  | V_degradation rflow_degradation_preference_t | V_priority rflow_svc_network_priority_t
  | V_turn string string string

fun svc_apply :: "svc_call \<Rightarrow> librflow_svc_stream_param_s \<Rightarrow> param_r" where
  "svc_apply (Set_in_codec a) p = librflow_svc_stream_param_set_in_codec (Some p) a"
| "svc_apply (Set_out_codec a) p = librflow_svc_stream_param_set_out_codec (Some p) a"
| "svc_apply (Set_src_size a b) p = librflow_svc_stream_param_set_src_size (Some p) a b"
| "svc_apply (Set_out_size a b) p = librflow_svc_stream_param_set_out_size (Some p) a b"
| "svc_apply (Set_fps a) p = librflow_svc_stream_param_set_fps (Some p) a"
| "svc_apply (Set_gop a) p = librflow_svc_stream_param_set_gop (Some p) a"
| "svc_apply (Set_rc_mode a) p = librflow_svc_stream_param_set_rc_mode (Some p) a"
| "svc_apply (Set_qp a) p = librflow_svc_stream_param_set_qp (Some p) a"
| "svc_apply (Set_bitrate a b) p = librflow_svc_stream_param_set_bitrate (Some p) a b"
| "svc_apply (Set_bitrate_mode a) p = librflow_svc_stream_param_set_bitrate_mode (Some p) a"
| "svc_apply (Set_dynamic_bitrate a b c) p = librflow_svc_stream_param_set_dynamic_bitrate (Some p) a b c"
| "svc_apply (Set_enable_transcode a) p = librflow_svc_stream_param_set_enable_transcode (Some p) a"
| "svc_apply (Set_video_device_path a) p = librflow_svc_stream_param_set_video_device_path (Some p) a"
| "svc_apply (Set_video_device_index a) p = librflow_svc_stream_param_set_video_device_index (Some p) a"
| "svc_apply (Set_degradation_preference a) p = librflow_svc_stream_param_set_degradation_preference (Some p) a"
| "svc_apply (Set_h264_profile a) p = librflow_svc_stream_param_set_h264_profile (Some p) a"
| "svc_apply (Set_h264_level a) p = librflow_svc_stream_param_set_h264_level (Some p) a"
| "svc_apply (Set_ice_prioritize_likely_pairs a) p = librflow_svc_stream_param_set_ice_prioritize_likely_pairs (Some p) a"
| "svc_apply (Set_stun_server a) p = librflow_svc_stream_param_set_stun_server (Some p) a"
| "svc_apply (Set_turn_server a b c) p = librflow_svc_stream_param_set_turn_server (Some p) a b c"
| "svc_apply (Set_video_network_priority a) p = librflow_svc_stream_param_set_video_network_priority (Some p) a"
| "svc_apply (Set_video_encoding_max_fps a) p = librflow_svc_stream_param_set_video_encoding_max_fps (Some p) a"
| "svc_apply (Set_capture_warmup_sec a) p = librflow_svc_stream_param_set_capture_warmup_sec (Some p) a"
| "svc_apply (Set_capture_gate a b) p = librflow_svc_stream_param_set_capture_gate (Some p) a b"

fun svc_field_of :: "svc_call \<Rightarrow> svc_field" where
  "svc_field_of (Set_in_codec _) = F_in_codec"
| "svc_field_of (Set_out_codec _) = F_out_codec"
| "svc_field_of (Set_src_size _ _) = F_src_size"
| "svc_field_of (Set_out_size _ _) = F_out_size"
| "svc_field_of (Set_fps _) = F_fps"
| "svc_field_of (Set_gop _) = F_gop"
| "svc_field_of (Set_rc_mode _) = F_rc_mode"
| "svc_field_of (Set_qp _) = F_qp"
| "svc_field_of (Set_bitrate _ _) = F_bitrate"
| "svc_field_of (Set_bitrate_mode _) = F_bitrate_mode"
| "svc_field_of (Set_dynamic_bitrate _ _ _) = F_dynamic_bitrate"
| "svc_field_of (Set_enable_transcode _) = F_enable_transcode"
| "svc_field_of (Set_video_device_path _) = F_video_device_path"
| "svc_field_of (Set_video_device_index _) = F_video_device_index"
| "svc_field_of (Set_degradation_preference _) = F_degradation_preference"
| "svc_field_of (Set_h264_profile _) = F_h264_profile"
| "svc_field_of (Set_h264_level _) = F_h264_level"
| "svc_field_of (Set_ice_prioritize_likely_pairs _) = F_ice_prioritize_likely_pairs"
| "svc_field_of (Set_stun_server _) = F_stun_server"
| "svc_field_of (Set_turn_server _ _ _) = F_turn_server"
| "svc_field_of (Set_video_network_priority _) = F_video_network_priority"
| "svc_field_of (Set_video_encoding_max_fps _) = F_video_encoding_max_fps"
| "svc_field_of (Set_capture_warmup_sec _) = F_capture_warmup_sec"
| "svc_field_of (Set_capture_gate _ _) = F_capture_gate"

text \<open>The value a getter returns for a call the setter accepts; an empty device path reads as not set.\<close>

fun svc_value_of :: "svc_call \<Rightarrow> svc_value option" where
  "svc_value_of (Set_in_codec a) = Some (V_codec a)"
| "svc_value_of (Set_out_codec a) = Some (V_codec a)"
| "svc_value_of (Set_src_size a b) = Some (V_pair a b)"
| "svc_value_of (Set_out_size a b) = Some (V_pair a b)"
| "svc_value_of (Set_fps a) = Some (V_u32 a)"
| "svc_value_of (Set_gop a) = Some (V_u32 a)"
| "svc_value_of (Set_rc_mode a) = Some (V_rc_mode a)"
| "svc_value_of (Set_qp a) = Some (V_u32 a)"
| "svc_value_of (Set_bitrate a b) = Some (V_pair a b)"
| "svc_value_of (Set_bitrate_mode a) = Some (V_bitrate_mode a)"
| "svc_value_of (Set_dynamic_bitrate a b c) = Some (V_dynamic a b c)"
| "svc_value_of (Set_enable_transcode a) = Some (V_bool a)"
| "svc_value_of (Set_video_device_path a) = (case a of None \<Rightarrow> None | Some s \<Rightarrow> if s = [] then None else Some (V_text s))"
| "svc_value_of (Set_video_device_index a) = Some (V_u32 a)"
| "svc_value_of (Set_degradation_preference a) = Some (V_degradation a)"
| "svc_value_of (Set_h264_profile a) = Some (V_text (TrimCopyToken a))"
| "svc_value_of (Set_h264_level a) = Some (V_text (TrimCopyToken a))"
| "svc_value_of (Set_ice_prioritize_likely_pairs a) = Some (V_bool a)"
| "svc_value_of (Set_stun_server a) = Some (V_text (TrimCopyToken a))"
| "svc_value_of (Set_turn_server a b c) = Some (V_turn (TrimCopyToken a) (TrimCopyToken b) (TrimCopyToken c))"
| "svc_value_of (Set_video_network_priority a) = Some (V_priority a)"
| "svc_value_of (Set_video_encoding_max_fps a) = Some (V_u32 a)"
| "svc_value_of (Set_capture_warmup_sec a) = Some (V_u32 a)"
| "svc_value_of (Set_capture_gate a b) = Some (V_pair a b)"

text \<open>Which calls the documentation allows.\<close>

definition token_fits :: "nat \<Rightarrow> string option \<Rightarrow> bool" where
  "token_fits n s \<longleftrightarrow> length (TrimCopyToken s) \<le> n"

fun svc_accepted :: "svc_call \<Rightarrow> bool" where
  "svc_accepted (Set_bitrate_mode m) \<longleftrightarrow> m \<in> {RFLOW_BITRATE_MODE_VBR, RFLOW_BITRATE_MODE_CBR}"
| "svc_accepted (Set_degradation_preference d) \<longleftrightarrow> d \<in> {RFLOW_DEGRADATION_MAINTAIN_FRAMERATE,
     RFLOW_DEGRADATION_MAINTAIN_RESOLUTION, RFLOW_DEGRADATION_BALANCED}"
| "svc_accepted (Set_h264_profile s) \<longleftrightarrow> TrimCopyToken s \<noteq> [] \<and> token_fits 127 s"
| "svc_accepted (Set_h264_level s) \<longleftrightarrow> TrimCopyToken s \<noteq> [] \<and> token_fits 127 s"
| "svc_accepted (Set_stun_server s) \<longleftrightarrow> TrimCopyToken s \<noteq> [] \<and> token_fits 511 s"
| "svc_accepted (Set_turn_server u n w) \<longleftrightarrow> TrimCopyToken u \<noteq> [] \<and> token_fits 511 u \<and> token_fits 127 n \<and> token_fits 127 w"
| "svc_accepted (Set_video_network_priority p) \<longleftrightarrow> p \<in> {RFLOW_SVC_NETWORK_PRIORITY_VERY_LOW,
     RFLOW_SVC_NETWORK_PRIORITY_LOW, RFLOW_SVC_NETWORK_PRIORITY_MEDIUM, RFLOW_SVC_NETWORK_PRIORITY_HIGH}"
| "svc_accepted _ \<longleftrightarrow> True"

definition cstr_arg :: "string option \<Rightarrow> bool" where
  "cstr_arg s \<longleftrightarrow> (case s of None \<Rightarrow> True | Some t \<Rightarrow> cstr t)"

fun svc_wf :: "svc_call \<Rightarrow> bool" where
  "svc_wf (Set_video_device_path s) \<longleftrightarrow> cstr_arg s"
| "svc_wf (Set_h264_profile s) \<longleftrightarrow> cstr_arg s"
| "svc_wf (Set_h264_level s) \<longleftrightarrow> cstr_arg s"
| "svc_wf (Set_stun_server s) \<longleftrightarrow> cstr_arg s"
| "svc_wf (Set_turn_server u n w) \<longleftrightarrow> cstr_arg u \<and> cstr_arg n \<and> cstr_arg w"
| "svc_wf _ \<longleftrightarrow> True"

text \<open>Observation through the getters. The turn server is read into buffers of the documented maximal sizes.\<close>

definition read1 :: "('v \<Rightarrow> svc_value) \<Rightarrow> ('v option \<Rightarrow> rflow_err_t \<times> 'v option) \<Rightarrow> 'v \<Rightarrow> svc_value option" where
  "read1 con getter v0 = (case getter (Some v0) of (RFLOW_OK, Some v) \<Rightarrow> Some (con v) | _ \<Rightarrow> None)"

definition read2 :: "(u32 option \<Rightarrow> u32 option \<Rightarrow> rflow_err_t \<times> u32 option \<times> u32 option) \<Rightarrow> svc_value option" where
  "read2 getter = (case getter (Some 0) (Some 0) of (RFLOW_OK, Some v, Some w) \<Rightarrow> Some (V_pair v w) | _ \<Rightarrow> None)"

definition read_turn :: "param_h \<Rightarrow> svc_value option" where
  "read_turn p = (case librflow_svc_stream_param_get_turn_server p
        (Some (replicate 512 (CHR 0x00))) 512 None (Some (replicate 128 (CHR 0x00))) 128 None
        (Some (replicate 128 (CHR 0x00))) 128 None of
      (RFLOW_OK, (Some url, _), (Some user, _), (Some pass, _)) \<Rightarrow> Some (V_turn (c_text url) (c_text user) (c_text pass))
    | _ \<Rightarrow> None)"

fun svc_view :: "librflow_svc_stream_param_s \<Rightarrow> svc_field \<Rightarrow> svc_value option" where
  "svc_view p F_in_codec = read1 V_codec (librflow_svc_stream_param_get_in_codec (Some p)) RFLOW_CODEC_UNKNOWN"
| "svc_view p F_out_codec = read1 V_codec (librflow_svc_stream_param_get_out_codec (Some p)) RFLOW_CODEC_UNKNOWN"
| "svc_view p F_src_size = read2 (librflow_svc_stream_param_get_src_size (Some p))"
| "svc_view p F_out_size = read2 (librflow_svc_stream_param_get_out_size (Some p))"
| "svc_view p F_fps = read1 V_u32 (librflow_svc_stream_param_get_fps (Some p)) 0"
| "svc_view p F_gop = read1 V_u32 (librflow_svc_stream_param_get_gop (Some p)) 0"
| "svc_view p F_rc_mode = read1 V_rc_mode (librflow_svc_stream_param_get_rc_mode (Some p)) RFLOW_RC_CQP"
| "svc_view p F_qp = read1 V_u32 (librflow_svc_stream_param_get_qp (Some p)) 0"
| "svc_view p F_bitrate = read2 (librflow_svc_stream_param_get_bitrate (Some p))"
| "svc_view p F_bitrate_mode = read1 V_bitrate_mode (librflow_svc_stream_param_get_bitrate_mode (Some p)) RFLOW_BITRATE_MODE_VBR"
| "svc_view p F_dynamic_bitrate = (case librflow_svc_stream_param_get_dynamic_bitrate (Some p) (Some False) (Some 0) (Some 0) of
     (RFLOW_OK, Some e, Some lo, Some hi) \<Rightarrow> Some (V_dynamic e lo hi) | _ \<Rightarrow> None)"
| "svc_view p F_enable_transcode = read1 V_bool (librflow_svc_stream_param_get_enable_transcode (Some p)) False"
| "svc_view p F_video_device_path = map_option V_text (fetch_string (librflow_svc_stream_param_get_video_device_path (Some p)))"
| "svc_view p F_video_device_index = read1 V_u32 (librflow_svc_stream_param_get_video_device_index (Some p)) 0"
| "svc_view p F_degradation_preference = read1 V_degradation (librflow_svc_stream_param_get_degradation_preference (Some p)) RFLOW_DEGRADATION_MAINTAIN_FRAMERATE"
| "svc_view p F_h264_profile = map_option V_text (fetch_string (librflow_svc_stream_param_get_h264_profile (Some p)))"
| "svc_view p F_h264_level = map_option V_text (fetch_string (librflow_svc_stream_param_get_h264_level (Some p)))"
| "svc_view p F_ice_prioritize_likely_pairs = read1 V_bool (librflow_svc_stream_param_get_ice_prioritize_likely_pairs (Some p)) True"
| "svc_view p F_stun_server = map_option V_text (fetch_string (librflow_svc_stream_param_get_stun_server (Some p)))"
| "svc_view p F_turn_server = read_turn (Some p)"
| "svc_view p F_video_network_priority = read1 V_priority (librflow_svc_stream_param_get_video_network_priority (Some p)) RFLOW_SVC_NETWORK_PRIORITY_HIGH"
| "svc_view p F_video_encoding_max_fps = read1 V_u32 (librflow_svc_stream_param_get_video_encoding_max_fps (Some p)) 0"
| "svc_view p F_capture_warmup_sec = read1 V_u32 (librflow_svc_stream_param_get_capture_warmup_sec (Some p)) 0"
| "svc_view p F_capture_gate = read2 (librflow_svc_stream_param_get_capture_gate (Some p))"

section \<open>Well-formed parameters and what the getters show\<close>

definition svc_param_ok :: "librflow_svc_stream_param_s \<Rightarrow> bool" where
  "svc_param_ok p \<longleftrightarrow> sp_magic p = svc_kMagicStreamParam \<and> cstr (sp_video_device_path p)
     \<and> cstr (sp_h264_profile p) \<and> length (sp_h264_profile p) \<le> 127
     \<and> cstr (sp_h264_level p) \<and> length (sp_h264_level p) \<le> 127
     \<and> cstr (sp_stun_server p) \<and> length (sp_stun_server p) \<le> 511
     \<and> cstr (sp_turn_server p) \<and> length (sp_turn_server p) \<le> 511
     \<and> cstr (sp_turn_username p) \<and> length (sp_turn_username p) \<le> 127
     \<and> cstr (sp_turn_password p) \<and> length (sp_turn_password p) \<le> 127"

lemma svc_param_okD:
  assumes "svc_param_ok p"
  shows "sp_magic p = svc_kMagicStreamParam" and "cstr (sp_video_device_path p)"
    and "cstr (sp_h264_profile p)" and "cstr (sp_h264_level p)" and "cstr (sp_stun_server p)"
    and "cstr (sp_turn_server p)" and "length (sp_turn_server p) \<le> 511"
    and "cstr (sp_turn_username p)" and "length (sp_turn_username p) \<le> 127"
    and "cstr (sp_turn_password p)" and "length (sp_turn_password p) \<le> 127"
  using assms by (simp_all add: svc_param_ok_def)

text \<open>Reading a text into a zeroed buffer that is large enough.\<close>

lemma copy_out_fits:
  assumes "cstr s" and "s \<noteq> []" and "length s < unat n" and "unat n \<le> length b"
  shows "\<exists>b'. CopyOutString s (Some b) n None = (RFLOW_OK, Some b', None) \<and> c_text b' = s"
proof -
  have len: "length s + 1 < 2 ^ 32" and nul: "CHR 0x00 \<notin> set s"
    using assms(1) by (auto simp: cstr_def)
  have "\<not> n < (of_nat (length s) :: u32) + 1"
    using needed_word [OF len] assms(3) by (simp add: word_less_nat_alt)
  moreover have "n \<noteq> 0" using assms(3) by auto
  moreover have "unat (of_nat (length s) :: u32) = length s" using len by simp
  ultimately show ?thesis using assms(2) by (simp add: CopyOutString_def Let_def c_text_put_cstr [OF nul])
qed

lemma copy_out_zeroed:
  assumes "cstr s" and "length s < unat n" and "unat n \<le> m"
  shows "\<exists>b'. snd (CopyOutString s (Some (replicate m (CHR 0x00))) n None) = (Some b', None) \<and> c_text b' = s"
proof (cases "s = []")
  case True
  then show ?thesis by (cases m) (simp_all add: CopyOutString_def c_text_def)
next
  case False
  then show ?thesis using copy_out_fits [OF assms(1) False assms(2), of "replicate m (CHR 0x00)"] assms(3) by auto
qed

lemma read_turn_closed:
  assumes "svc_param_ok p"
  shows "read_turn (Some p) = (if sp_has_turn_server p \<and> sp_turn_server p \<noteq> []
           then Some (V_turn (sp_turn_server p) (sp_turn_username p) (sp_turn_password p)) else None)"
proof (cases "sp_has_turn_server p \<and> sp_turn_server p \<noteq> []")
  case True
  obtain url where url: "CopyOutString (sp_turn_server p) (Some (replicate 512 (CHR 0x00))) 512 None
      = (RFLOW_OK, Some url, None)" "c_text url = sp_turn_server p"
    using copy_out_fits [of "sp_turn_server p" 512 "replicate 512 (CHR 0x00)"] True svc_param_okD [OF assms] by auto
  obtain user where user: "snd (CopyOutString (sp_turn_username p) (Some (replicate 128 (CHR 0x00))) 128 None)
      = (Some user, None)" "c_text user = sp_turn_username p"
    using copy_out_zeroed [of "sp_turn_username p" 128 128] svc_param_okD [OF assms] by auto
  obtain pass where pass: "snd (CopyOutString (sp_turn_password p) (Some (replicate 128 (CHR 0x00))) 128 None)
      = (Some pass, None)" "c_text pass = sp_turn_password p"
    using copy_out_zeroed [of "sp_turn_password p" 128 128] svc_param_okD [OF assms] by auto
  show ?thesis
    using True url user pass svc_param_okD(1) [OF assms]
    by (simp add: read_turn_def librflow_svc_stream_param_get_turn_server_def Let_def)
next
  case False
  then show ?thesis
    using svc_param_okD(1) [OF assms]
    by (auto simp: read_turn_def librflow_svc_stream_param_get_turn_server_def CopyOutString_def)
qed

lemma view_video_device_path:
  assumes "svc_param_ok p"
  shows "svc_view p F_video_device_path = (if sp_has_video_device_path p \<and> sp_video_device_path p \<noteq> [] then Some (V_text (sp_video_device_path p)) else None)"
proof -
  have "fetch_string (librflow_svc_stream_param_get_video_device_path (Some p)) =
          (if sp_has_video_device_path p \<and> sp_video_device_path p \<noteq> [] then Some (sp_video_device_path p) else None)"
    by (rule fetch_string_guard)
      (simp_all add: librflow_svc_stream_param_get_video_device_path_def svc_param_okD [OF assms])
  then show ?thesis by simp
qed

lemma view_h264_profile:
  assumes "svc_param_ok p"
  shows "svc_view p F_h264_profile = (if sp_has_h264_profile p \<and> sp_h264_profile p \<noteq> [] then Some (V_text (sp_h264_profile p)) else None)"
proof -
  have "fetch_string (librflow_svc_stream_param_get_h264_profile (Some p)) =
          (if sp_has_h264_profile p \<and> sp_h264_profile p \<noteq> [] then Some (sp_h264_profile p) else None)"
    by (rule fetch_string_guard)
      (simp_all add: librflow_svc_stream_param_get_h264_profile_def svc_param_okD [OF assms])
  then show ?thesis by simp
qed

lemma view_h264_level:
  assumes "svc_param_ok p"
  shows "svc_view p F_h264_level = (if sp_has_h264_level p \<and> sp_h264_level p \<noteq> [] then Some (V_text (sp_h264_level p)) else None)"
proof -
  have "fetch_string (librflow_svc_stream_param_get_h264_level (Some p)) =
          (if sp_has_h264_level p \<and> sp_h264_level p \<noteq> [] then Some (sp_h264_level p) else None)"
    by (rule fetch_string_guard)
      (simp_all add: librflow_svc_stream_param_get_h264_level_def svc_param_okD [OF assms])
  then show ?thesis by simp
qed

lemma view_stun_server:
  assumes "svc_param_ok p"
  shows "svc_view p F_stun_server = (if sp_has_stun_server p \<and> sp_stun_server p \<noteq> [] then Some (V_text (sp_stun_server p)) else None)"
proof -
  have "fetch_string (librflow_svc_stream_param_get_stun_server (Some p)) =
          (if sp_has_stun_server p \<and> sp_stun_server p \<noteq> [] then Some (sp_stun_server p) else None)"
    by (rule fetch_string_guard)
      (simp_all add: librflow_svc_stream_param_get_stun_server_def svc_param_okD [OF assms])
  then show ?thesis by simp
qed

lemma svc_view_flags:
  assumes "svc_param_ok p"
  shows "svc_view p F_in_codec = (if sp_has_in_codec p then Some (V_codec (sp_in_codec p)) else None)"
    and "svc_view p F_out_codec = (if sp_has_out_codec p then Some (V_codec (sp_out_codec p)) else None)"
    and "svc_view p F_src_size = (if sp_has_src_size p then Some (V_pair (sp_src_w p) (sp_src_h p)) else None)"
    and "svc_view p F_out_size = (if sp_has_out_size p then Some (V_pair (sp_out_w p) (sp_out_h p)) else None)"
    and "svc_view p F_fps = (if sp_has_fps p then Some (V_u32 (sp_fps p)) else None)"
    and "svc_view p F_gop = (if sp_has_gop p then Some (V_u32 (sp_gop p)) else None)"
    and "svc_view p F_rc_mode = (if sp_has_rc_mode p then Some (V_rc_mode (sp_rc_mode p)) else None)"
    and "svc_view p F_qp = (if sp_has_qp p then Some (V_u32 (sp_qp p)) else None)"
    and "svc_view p F_bitrate = (if sp_has_bitrate p then Some (V_pair (sp_bitrate_kbps p) (sp_max_bitrate_kbps p)) else None)"
    and "svc_view p F_bitrate_mode = (if sp_has_bitrate_mode p then Some (V_bitrate_mode (sp_bitrate_mode p)) else None)"
    and "svc_view p F_dynamic_bitrate = (if sp_has_dynamic_bitrate p then Some (V_dynamic (sp_dynamic_bitrate p) (sp_lowest_kbps p) (sp_highest_kbps p)) else None)"
    and "svc_view p F_enable_transcode = (if sp_has_enable_transcode p then Some (V_bool (sp_enable_transcode p)) else None)"
    and "svc_view p F_video_device_index = (if sp_has_video_device_index p then Some (V_u32 (sp_video_device_index p)) else None)"
    and "svc_view p F_degradation_preference = (if sp_has_degradation_preference p then Some (V_degradation (sp_degradation_preference p)) else None)"
    and "svc_view p F_ice_prioritize_likely_pairs = (if sp_has_ice_prioritize_likely_pairs p then Some (V_bool (sp_ice_prioritize_likely_pairs p)) else None)"
    and "svc_view p F_video_network_priority = (if sp_has_video_network_priority p then Some (V_priority (sp_video_network_priority p)) else None)"
    and "svc_view p F_video_encoding_max_fps = (if sp_has_video_encoding_max_fps p then Some (V_u32 (sp_video_encoding_max_fps p)) else None)"
    and "svc_view p F_capture_warmup_sec = (if sp_has_capture_warmup_sec p then Some (V_u32 (sp_capture_warmup_sec p)) else None)"
    and "svc_view p F_capture_gate = (if sp_has_capture_gate p then Some (V_pair (sp_capture_gate_min_frames p) (sp_capture_gate_max_wait_sec p)) else None)"
  by (simp_all add: svc_getters read1_def read2_def abi_macros svc_param_okD [OF assms])

lemma view_turn_server:
  assumes "svc_param_ok p"
  shows "svc_view p F_turn_server = (if sp_has_turn_server p \<and> sp_turn_server p \<noteq> [] then Some (V_turn (sp_turn_server p) (sp_turn_username p) (sp_turn_password p)) else None)"
  using read_turn_closed [OF assms] by simp

lemmas svc_view_closed = svc_view_flags view_video_device_path view_h264_profile view_h264_level view_stun_server view_turn_server

declare svc_view.simps [simp del]

lemma TrimCopyToken_cstr: "cstr_arg s \<Longrightarrow> cstr (TrimCopyToken s)"
  by (cases s) (auto simp: cstr_arg_def TrimCopyToken_trimmed token_cstr, simp add: cstr_def)

lemma CopyRequiredIceUrl_cases:
  "CopyRequiredIceUrl u out = (if TrimCopyToken u \<noteq> [] \<and> token_fits 511 u then (RFLOW_OK, TrimCopyToken u)
     else (RFLOW_ERR_PARAM, out))"
  by (auto simp: CopyRequiredIceUrl_def token_fits_def token_limits Let_def)

lemma CopyOptionalIceCredential_cases:
  "CopyOptionalIceCredential u out = (if token_fits 127 u then (RFLOW_OK, TrimCopyToken u) else (RFLOW_ERR_PARAM, out))"
  by (cases u) (auto simp: CopyOptionalIceCredential_def token_fits_def token_limits Let_def)

lemmas svc_set_simps = svc_setters abi_macros token_fits_def token_limits Let_def comp_def
  CopyRequiredIceUrl_cases CopyOptionalIceCredential_cases

definition svc_step :: "svc_call \<Rightarrow> librflow_svc_stream_param_s \<Rightarrow> rflow_err_t \<times> librflow_svc_stream_param_s" where
  "svc_step c p = (let (rc, h) = svc_apply c p in (rc, the h))"

lemma svc_step_ok:
  assumes "svc_param_ok p" and "svc_wf c"
  shows "svc_param_ok (snd (svc_step c p))"
  using assms
  by (cases c)
    (auto simp: svc_step_def svc_set_simps svc_param_ok_def TrimCopyToken_cstr
      cstr_arg_def split: option.splits rflow_degradation_preference_t.splits
      rflow_svc_network_priority_t.splits if_splits, simp_all add: cstr_def)

lemma svc_step_rc:
  assumes "svc_param_ok p"
  shows "fst (svc_step c p) = (if svc_accepted c then RFLOW_OK else RFLOW_ERR_PARAM)"
  using svc_param_okD(1) [OF assms]
  by (cases c)
    (simp_all add: svc_step_def svc_set_simps not_less
      split: rflow_degradation_preference_t.split rflow_svc_network_priority_t.split)

lemma svc_step_own:
  assumes "svc_param_ok p" and "svc_wf c" and "svc_accepted c"
  shows "svc_view (snd (svc_step c p)) (svc_field_of c) = svc_value_of c"
  using svc_step_ok [OF assms(1,2)] svc_param_okD(1) [OF assms(1)] assms(3)
  by (cases c)
    (simp_all add: svc_view_closed, simp_all add: svc_step_def svc_set_simps not_less
      split: rflow_degradation_preference_t.splits rflow_svc_network_priority_t.splits option.split,
     auto)

lemma svc_step_other:
  assumes "svc_param_ok p" and "svc_wf c" and "k \<noteq> svc_field_of c"
  shows "svc_view (snd (svc_step c p)) k = svc_view p k"
  using assms(3)
  by (cases k)
    (simp_all only: svc_view_closed [OF svc_step_ok [OF assms(1,2)]] svc_view_closed [OF assms(1)];
     cases c;
     simp add: svc_step_def svc_set_simps svc_param_okD(1) [OF assms(1)]
      split: rflow_degradation_preference_t.splits rflow_svc_network_priority_t.splits)+

interpretation svc_param: flagged_object svc_step svc_param_ok svc_wf svc_accepted svc_field_of svc_value_of svc_view
  by unfold_locales (simp_all add: svc_step_ok svc_step_rc svc_step_own svc_step_other)

section \<open>Stream callbacks\<close>

record librflow_svc_stream_cb_s =
  scb_magic :: u32
  scb_on_state :: fn_ptr
  scb_on_encoded_video :: fn_ptr
  scb_on_stream_stats :: fn_ptr
  scb_userdata :: nat

definition svc_stream_cb_zero :: librflow_svc_stream_cb_s where
  "svc_stream_cb_zero = \<lparr> scb_magic = 0, scb_on_state = None, scb_on_encoded_video = None,
     scb_on_stream_stats = None, scb_userdata = 0 \<rparr>"

definition librflow_svc_stream_cb_create :: "bool \<Rightarrow> librflow_svc_stream_cb_s option" where
  "librflow_svc_stream_cb_create alloc =
     CreateMagicObject alloc (\<lambda>m x. x\<lparr>scb_magic := m\<rparr>) svc_stream_cb_zero svc_kMagicStreamCb"

definition librflow_svc_stream_cb_destroy :: "librflow_svc_stream_cb_s option \<Rightarrow> librflow_svc_stream_cb_s option" where
  "librflow_svc_stream_cb_destroy cb = DestroyMagicObject scb_magic cb svc_kMagicStreamCb"

definition librflow_svc_stream_cb_set_on_state ::
  "librflow_svc_stream_cb_s option \<Rightarrow> fn_ptr \<Rightarrow> rflow_err_t \<times> librflow_svc_stream_cb_s option" where
  "librflow_svc_stream_cb_set_on_state cb v = RFLOW_SET_FIELD scb_magic cb svc_kMagicStreamCb (\<lambda>x. x\<lparr>scb_on_state := v\<rparr>)"

definition librflow_svc_stream_cb_set_on_encoded_video ::
  "librflow_svc_stream_cb_s option \<Rightarrow> fn_ptr \<Rightarrow> rflow_err_t \<times> librflow_svc_stream_cb_s option" where
  "librflow_svc_stream_cb_set_on_encoded_video cb v = RFLOW_SET_FIELD scb_magic cb svc_kMagicStreamCb (\<lambda>x. x\<lparr>scb_on_encoded_video := v\<rparr>)"

definition librflow_svc_stream_cb_set_on_stream_stats ::
  "librflow_svc_stream_cb_s option \<Rightarrow> fn_ptr \<Rightarrow> rflow_err_t \<times> librflow_svc_stream_cb_s option" where
  "librflow_svc_stream_cb_set_on_stream_stats cb v = RFLOW_SET_FIELD scb_magic cb svc_kMagicStreamCb (\<lambda>x. x\<lparr>scb_on_stream_stats := v\<rparr>)"

definition librflow_svc_stream_cb_set_userdata ::
  "librflow_svc_stream_cb_s option \<Rightarrow> nat \<Rightarrow> rflow_err_t \<times> librflow_svc_stream_cb_s option" where
  "librflow_svc_stream_cb_set_userdata cb v = RFLOW_SET_FIELD scb_magic cb svc_kMagicStreamCb (\<lambda>x. x\<lparr>scb_userdata := v\<rparr>)"

section \<open>Push frames\<close>

record librflow_svc_push_frame_s =
  pf_magic :: u32
  pf_codec :: rflow_codec_t
  pf_type :: rflow_frame_type_t
  pf_data :: "u8 list"
  pf_width :: u32
  pf_height :: u32
  pf_pts_ms :: u64
  pf_utc_ms :: u64
  pf_seq :: u32
  pf_flush :: bool
  pf_offset :: u32
  pf_has_codec :: bool
  pf_has_type :: bool
  pf_has_data :: bool
  pf_has_size :: bool
  pf_has_pts_ms :: bool
  pf_has_utc_ms :: bool
  pf_has_seq :: bool
  pf_has_flush :: bool
  pf_has_offset :: bool

definition push_frame_zero :: librflow_svc_push_frame_s where
  "push_frame_zero = \<lparr> pf_magic = 0, pf_codec = RFLOW_CODEC_UNKNOWN, pf_type = RFLOW_FRAME_UNKNOWN,
     pf_data = [], pf_width = 0, pf_height = 0, pf_pts_ms = 0, pf_utc_ms = 0, pf_seq = 0, pf_flush = False,
     pf_offset = 0, pf_has_codec = False, pf_has_type = False, pf_has_data = False, pf_has_size = False, pf_has_pts_ms = False, pf_has_utc_ms = False, pf_has_seq = False, pf_has_flush = False, pf_has_offset = False \<rparr>"

definition librflow_svc_push_frame_create :: "bool \<Rightarrow> librflow_svc_push_frame_s option" where
  "librflow_svc_push_frame_create alloc =
     (case CreateMagicObject alloc (\<lambda>m x. x\<lparr>pf_magic := m\<rparr>) push_frame_zero kMagicPushFrame of
        None \<Rightarrow> None
      | Some p \<Rightarrow> Some (p\<lparr>pf_flush := True\<rparr>))"

definition librflow_svc_push_frame_destroy :: "librflow_svc_push_frame_s option \<Rightarrow> librflow_svc_push_frame_s option" where
  "librflow_svc_push_frame_destroy f = DestroyMagicObject pf_magic f kMagicPushFrame"

type_synonym frame_h = "librflow_svc_push_frame_s option"
type_synonym frame_r = "rflow_err_t \<times> librflow_svc_push_frame_s option"

text \<open>\<open>data\<close> is the memory behind the caller's pointer; the first \<^verbatim>\<open>size\<close> bytes are copied.\<close>

definition librflow_svc_push_frame_set_data :: "frame_h \<Rightarrow> u8 list option \<Rightarrow> u32 \<Rightarrow> frame_r" where
  "librflow_svc_push_frame_set_data f data sz =
     (if \<not> RFLOW_CHECK_HANDLE pf_magic f kMagicPushFrame then (RFLOW_ERR_PARAM, f)
      else if (data = None) \<noteq> (sz = 0) then (RFLOW_ERR_PARAM, f)
      else (RFLOW_OK, map_option (\<lambda>x. x\<lparr>pf_data := take (unat sz) (case_option [] id data),
                                        pf_has_data := True\<rparr>) f))"

definition librflow_svc_push_frame_set_size :: "frame_h \<Rightarrow> u32 \<Rightarrow> u32 \<Rightarrow> frame_r" where
  "librflow_svc_push_frame_set_size f w h =
     RFLOW_SET_2_VALUES_WITH_FLAG pf_magic f kMagicPushFrame
       (\<lambda>x. x\<lparr>pf_width := w\<rparr>) (\<lambda>x. x\<lparr>pf_height := h\<rparr>) (\<lambda>x. x\<lparr>pf_has_size := True\<rparr>)"

definition librflow_svc_push_frame_set_codec :: "frame_h \<Rightarrow> rflow_codec_t \<Rightarrow> frame_r" where
  "librflow_svc_push_frame_set_codec f v =
     RFLOW_SET_VALUE_WITH_FLAG pf_magic f kMagicPushFrame (\<lambda>x. x\<lparr>pf_codec := v\<rparr>) (\<lambda>x. x\<lparr>pf_has_codec := True\<rparr>)"

definition librflow_svc_push_frame_set_type :: "frame_h \<Rightarrow> rflow_frame_type_t \<Rightarrow> frame_r" where
  "librflow_svc_push_frame_set_type f v =
     RFLOW_SET_VALUE_WITH_FLAG pf_magic f kMagicPushFrame (\<lambda>x. x\<lparr>pf_type := v\<rparr>) (\<lambda>x. x\<lparr>pf_has_type := True\<rparr>)"

definition librflow_svc_push_frame_set_pts_ms :: "frame_h \<Rightarrow> u64 \<Rightarrow> frame_r" where
  "librflow_svc_push_frame_set_pts_ms f v =
     RFLOW_SET_VALUE_WITH_FLAG pf_magic f kMagicPushFrame (\<lambda>x. x\<lparr>pf_pts_ms := v\<rparr>) (\<lambda>x. x\<lparr>pf_has_pts_ms := True\<rparr>)"

definition librflow_svc_push_frame_set_utc_ms :: "frame_h \<Rightarrow> u64 \<Rightarrow> frame_r" where
  "librflow_svc_push_frame_set_utc_ms f v =
     RFLOW_SET_VALUE_WITH_FLAG pf_magic f kMagicPushFrame (\<lambda>x. x\<lparr>pf_utc_ms := v\<rparr>) (\<lambda>x. x\<lparr>pf_has_utc_ms := True\<rparr>)"

definition librflow_svc_push_frame_set_seq :: "frame_h \<Rightarrow> u32 \<Rightarrow> frame_r" where
  "librflow_svc_push_frame_set_seq f v =
     RFLOW_SET_VALUE_WITH_FLAG pf_magic f kMagicPushFrame (\<lambda>x. x\<lparr>pf_seq := v\<rparr>) (\<lambda>x. x\<lparr>pf_has_seq := True\<rparr>)"

definition librflow_svc_push_frame_set_flush :: "frame_h \<Rightarrow> bool \<Rightarrow> frame_r" where
  "librflow_svc_push_frame_set_flush f v =
     RFLOW_SET_VALUE_WITH_FLAG pf_magic f kMagicPushFrame (\<lambda>x. x\<lparr>pf_flush := v\<rparr>) (\<lambda>x. x\<lparr>pf_has_flush := True\<rparr>)"

definition librflow_svc_push_frame_set_offset :: "frame_h \<Rightarrow> u32 \<Rightarrow> frame_r" where
  "librflow_svc_push_frame_set_offset f v =
     RFLOW_SET_VALUE_WITH_FLAG pf_magic f kMagicPushFrame (\<lambda>x. x\<lparr>pf_offset := v\<rparr>) (\<lambda>x. x\<lparr>pf_has_offset := True\<rparr>)"

definition librflow_svc_push_frame_get_codec :: "frame_h \<Rightarrow> rflow_codec_t option \<Rightarrow> rflow_err_t \<times> rflow_codec_t option" where
  "librflow_svc_push_frame_get_codec f out = RFLOW_GET_VALUE_WITH_FLAG pf_magic f kMagicPushFrame out pf_has_codec pf_codec"

definition librflow_svc_push_frame_get_type :: "frame_h \<Rightarrow> rflow_frame_type_t option \<Rightarrow> rflow_err_t \<times> rflow_frame_type_t option" where
  "librflow_svc_push_frame_get_type f out = RFLOW_GET_VALUE_WITH_FLAG pf_magic f kMagicPushFrame out pf_has_type pf_type"

definition librflow_svc_push_frame_get_data ::
  "frame_h \<Rightarrow> u8 list option \<Rightarrow> u32 option \<Rightarrow> rflow_err_t \<times> u8 list option \<times> u32 option" where
  "librflow_svc_push_frame_get_data f out_data out_size =
     (if \<not> RFLOW_CHECK_HANDLE pf_magic f kMagicPushFrame then (RFLOW_ERR_PARAM, out_data, out_size)
      else if out_data = None \<or> out_size = None then (RFLOW_ERR_PARAM, out_data, out_size)
      else if \<not> pf_has_data (the f) then (RFLOW_ERR_NOT_FOUND, out_data, out_size)
      else (RFLOW_OK, Some (pf_data (the f)), Some (of_nat (length (pf_data (the f))))))"

definition librflow_svc_push_frame_get_size ::
  "frame_h \<Rightarrow> u32 option \<Rightarrow> u32 option \<Rightarrow> rflow_err_t \<times> u32 option \<times> u32 option" where
  "librflow_svc_push_frame_get_size f out1 out2 =
     RFLOW_GET_2_VALUES_WITH_FLAG pf_magic f kMagicPushFrame out1 out2 pf_has_size pf_width pf_height"

definition librflow_svc_push_frame_get_pts_ms :: "frame_h \<Rightarrow> u64 option \<Rightarrow> rflow_err_t \<times> u64 option" where
  "librflow_svc_push_frame_get_pts_ms f out = RFLOW_GET_VALUE_WITH_FLAG pf_magic f kMagicPushFrame out pf_has_pts_ms pf_pts_ms"

definition librflow_svc_push_frame_get_utc_ms :: "frame_h \<Rightarrow> u64 option \<Rightarrow> rflow_err_t \<times> u64 option" where
  "librflow_svc_push_frame_get_utc_ms f out = RFLOW_GET_VALUE_WITH_FLAG pf_magic f kMagicPushFrame out pf_has_utc_ms pf_utc_ms"

definition librflow_svc_push_frame_get_seq :: "frame_h \<Rightarrow> u32 option \<Rightarrow> rflow_err_t \<times> u32 option" where
  "librflow_svc_push_frame_get_seq f out = RFLOW_GET_VALUE_WITH_FLAG pf_magic f kMagicPushFrame out pf_has_seq pf_seq"

definition librflow_svc_push_frame_get_flush :: "frame_h \<Rightarrow> bool option \<Rightarrow> rflow_err_t \<times> bool option" where
  "librflow_svc_push_frame_get_flush f out = RFLOW_GET_VALUE_WITH_FLAG pf_magic f kMagicPushFrame out pf_has_flush pf_flush"

definition librflow_svc_push_frame_get_offset :: "frame_h \<Rightarrow> u32 option \<Rightarrow> rflow_err_t \<times> u32 option" where
  "librflow_svc_push_frame_get_offset f out = RFLOW_GET_VALUE_WITH_FLAG pf_magic f kMagicPushFrame out pf_has_offset pf_offset"

lemmas frame_setters = librflow_svc_push_frame_set_codec_def
  librflow_svc_push_frame_set_type_def
  librflow_svc_push_frame_set_data_def
  librflow_svc_push_frame_set_size_def
  librflow_svc_push_frame_set_pts_ms_def
  librflow_svc_push_frame_set_utc_ms_def
  librflow_svc_push_frame_set_seq_def
  librflow_svc_push_frame_set_flush_def
  librflow_svc_push_frame_set_offset_def

lemmas frame_getters = librflow_svc_push_frame_get_codec_def
  librflow_svc_push_frame_get_type_def
  librflow_svc_push_frame_get_data_def
  librflow_svc_push_frame_get_size_def
  librflow_svc_push_frame_get_pts_ms_def
  librflow_svc_push_frame_get_utc_ms_def
  librflow_svc_push_frame_get_seq_def
  librflow_svc_push_frame_get_flush_def
  librflow_svc_push_frame_get_offset_def

datatype frame_call =
    Frame_codec rflow_codec_t
  | Frame_type rflow_frame_type_t
  | Frame_data "u8 list option" u32
  | Frame_size u32 u32
  | Frame_pts_ms u64
  | Frame_utc_ms u64
  | Frame_seq u32
  | Frame_flush bool
  | Frame_offset u32

datatype frame_field = P_codec | P_type | P_data | P_size | P_pts_ms | P_utc_ms | P_seq | P_flush | P_offset

datatype frame_value =
    Q_codec rflow_codec_t | Q_type rflow_frame_type_t | Q_data "u8 list" u32 | Q_size u32 u32
  | Q_u64 u64 | Q_u32 u32 | Q_bool bool

fun frame_step :: "frame_call \<Rightarrow> librflow_svc_push_frame_s \<Rightarrow> rflow_err_t \<times> librflow_svc_push_frame_s" where
  "frame_step (Frame_codec a) f = map_prod id the (librflow_svc_push_frame_set_codec (Some f) a)"
| "frame_step (Frame_type a) f = map_prod id the (librflow_svc_push_frame_set_type (Some f) a)"
| "frame_step (Frame_data a b) f = map_prod id the (librflow_svc_push_frame_set_data (Some f) a b)"
| "frame_step (Frame_size a b) f = map_prod id the (librflow_svc_push_frame_set_size (Some f) a b)"
| "frame_step (Frame_pts_ms a) f = map_prod id the (librflow_svc_push_frame_set_pts_ms (Some f) a)"
| "frame_step (Frame_utc_ms a) f = map_prod id the (librflow_svc_push_frame_set_utc_ms (Some f) a)"
| "frame_step (Frame_seq a) f = map_prod id the (librflow_svc_push_frame_set_seq (Some f) a)"
| "frame_step (Frame_flush a) f = map_prod id the (librflow_svc_push_frame_set_flush (Some f) a)"
| "frame_step (Frame_offset a) f = map_prod id the (librflow_svc_push_frame_set_offset (Some f) a)"

fun frame_field_of :: "frame_call \<Rightarrow> frame_field" where
  "frame_field_of (Frame_codec _) = P_codec"
| "frame_field_of (Frame_type _) = P_type"
| "frame_field_of (Frame_data _ _) = P_data"
| "frame_field_of (Frame_size _ _) = P_size"
| "frame_field_of (Frame_pts_ms _) = P_pts_ms"
| "frame_field_of (Frame_utc_ms _) = P_utc_ms"
| "frame_field_of (Frame_seq _) = P_seq"
| "frame_field_of (Frame_flush _) = P_flush"
| "frame_field_of (Frame_offset _) = P_offset"

fun frame_value_of :: "frame_call \<Rightarrow> frame_value option" where
  "frame_value_of (Frame_codec a) = Some (Q_codec a)"
| "frame_value_of (Frame_type a) = Some (Q_type a)"
| "frame_value_of (Frame_data a b) = Some (Q_data (take (unat b) (case_option [] id a)) b)"
| "frame_value_of (Frame_size a b) = Some (Q_size a b)"
| "frame_value_of (Frame_pts_ms a) = Some (Q_u64 a)"
| "frame_value_of (Frame_utc_ms a) = Some (Q_u64 a)"
| "frame_value_of (Frame_seq a) = Some (Q_u32 a)"
| "frame_value_of (Frame_flush a) = Some (Q_bool a)"
| "frame_value_of (Frame_offset a) = Some (Q_u32 a)"

text \<open>A pointer argument comes with at least the stated number of bytes.\<close>

fun frame_wf :: "frame_call \<Rightarrow> bool" where
  "frame_wf (Frame_data a b) \<longleftrightarrow> (case a of None \<Rightarrow> True | Some d \<Rightarrow> unat b \<le> length d)"
| "frame_wf _ \<longleftrightarrow> True"

fun frame_accepted :: "frame_call \<Rightarrow> bool" where
  "frame_accepted (Frame_data a b) \<longleftrightarrow> (a = None) = (b = 0)"
| "frame_accepted _ \<longleftrightarrow> True"

definition frame_ok :: "librflow_svc_push_frame_s \<Rightarrow> bool" where
  "frame_ok f \<longleftrightarrow> pf_magic f = kMagicPushFrame \<and> length (pf_data f) < 2 ^ 32"

definition get1 :: "('v \<Rightarrow> frame_value) \<Rightarrow> ('v option \<Rightarrow> rflow_err_t \<times> 'v option) \<Rightarrow> 'v \<Rightarrow> frame_value option" where
  "get1 con getter v0 = (case getter (Some v0) of (RFLOW_OK, Some v) \<Rightarrow> Some (con v) | _ \<Rightarrow> None)"

definition get2 :: "('v \<Rightarrow> u32 \<Rightarrow> frame_value) \<Rightarrow> ('v option \<Rightarrow> u32 option \<Rightarrow> rflow_err_t \<times> 'v option \<times> u32 option)
     \<Rightarrow> 'v \<Rightarrow> frame_value option" where
  "get2 con getter v0 = (case getter (Some v0) (Some 0) of (RFLOW_OK, Some v, Some w) \<Rightarrow> Some (con v w) | _ \<Rightarrow> None)"

fun frame_view :: "librflow_svc_push_frame_s \<Rightarrow> frame_field \<Rightarrow> frame_value option" where
  "frame_view f P_codec = get1 Q_codec (librflow_svc_push_frame_get_codec (Some f)) RFLOW_CODEC_UNKNOWN"
| "frame_view f P_type = get1 Q_type (librflow_svc_push_frame_get_type (Some f)) RFLOW_FRAME_UNKNOWN"
| "frame_view f P_data = get2 Q_data (librflow_svc_push_frame_get_data (Some f)) []"
| "frame_view f P_size = get2 Q_size (librflow_svc_push_frame_get_size (Some f)) 0"
| "frame_view f P_pts_ms = get1 Q_u64 (librflow_svc_push_frame_get_pts_ms (Some f)) 0"
| "frame_view f P_utc_ms = get1 Q_u64 (librflow_svc_push_frame_get_utc_ms (Some f)) 0"
| "frame_view f P_seq = get1 Q_u32 (librflow_svc_push_frame_get_seq (Some f)) 0"
| "frame_view f P_flush = get1 Q_bool (librflow_svc_push_frame_get_flush (Some f)) False"
| "frame_view f P_offset = get1 Q_u32 (librflow_svc_push_frame_get_offset (Some f)) 0"

lemmas frame_view_simps = frame_getters get1_def get2_def abi_macros frame_ok_def

lemma frame_step_ok: "frame_ok f \<Longrightarrow> frame_wf c \<Longrightarrow> frame_ok (snd (frame_step c f))"
  by (cases c) (auto simp: frame_setters abi_macros frame_ok_def min_absorb2 u32_bound split: option.splits)

lemma frame_step_rc: "frame_ok f \<Longrightarrow> fst (frame_step c f) = (if frame_accepted c then RFLOW_OK else RFLOW_ERR_PARAM)"
  by (cases c) (simp_all add: frame_setters abi_macros frame_ok_def)

lemma frame_step_own:
  "frame_ok f \<Longrightarrow> frame_wf c \<Longrightarrow> frame_accepted c \<Longrightarrow> frame_view (snd (frame_step c f)) (frame_field_of c) = frame_value_of c"
  by (cases c) (auto simp: frame_setters frame_view_simps min_absorb2 split: option.splits)

lemma frame_step_other:
  "frame_ok f \<Longrightarrow> k \<noteq> frame_field_of c \<Longrightarrow> frame_view (snd (frame_step c f)) k = frame_view f k"
  by (cases c; cases k; simp add: frame_setters frame_view_simps)

interpretation push_frame: flagged_object frame_step frame_ok frame_wf frame_accepted frame_field_of frame_value_of frame_view
  by unfold_locales (simp_all add: frame_step_ok frame_step_rc frame_step_own frame_step_other)

section \<open>Properties\<close>


definition fresh_param :: librflow_svc_stream_param_s where
  "fresh_param = the (librflow_svc_stream_param_create True)"

lemma fresh_param_ok: "svc_param_ok fresh_param"
  by (simp add: fresh_param_def librflow_svc_stream_param_create_def CreateMagicObject_def
      svc_stream_param_zero_def svc_param_ok_def cstr_def)


text \<open>
  A field of the stream parameters reads as not set until its setter has been called,
  and then shows the value of the last accepted call, whatever calls on other fields came
  before or after it.
\<close>

theorem svc_param_last_write_wins:
  assumes "\<forall>d \<in> set (as @ c # bs). svc_wf d" and "svc_accepted c"
    and "\<forall>d \<in> set bs. svc_field_of d \<noteq> svc_field_of c"
  shows "svc_view fresh_param k = None
       \<and> svc_view (fold (\<lambda>d p. snd (svc_step d p)) (as @ c # bs) fresh_param) (svc_field_of c) = svc_value_of c"
proof
  show "svc_view fresh_param k = None"
    by (cases k) (simp_all add: svc_view_closed [OF fresh_param_ok], simp_all add: fresh_param_def
        librflow_svc_stream_param_create_def CreateMagicObject_def svc_stream_param_zero_def)
  show "svc_view (fold (\<lambda>d p. snd (svc_step d p)) (as @ c # bs) fresh_param) (svc_field_of c) = svc_value_of c"
    using svc_param.last_write_wins [OF fresh_param_ok assms] by (simp only: svc_param.run_def)
qed

theorem svc_param_last_write_wins_witness:
  "svc_view (fold (\<lambda>d p. snd (svc_step d p)) [Set_fps 25, Set_fps 30, Set_gop 60] fresh_param) F_fps = Some (V_u32 30)"
  using svc_param_last_write_wins [of "[Set_fps 25]" "Set_fps 30" "[Set_gop 60]" F_fps] by simp

text \<open>
  A turn server whose password is too long is rejected, and yet the rejected call
  replaces the url and the user name of the server that was configured before: the object is
  left with the new url and user name beside the old password.
\<close>

theorem turn_server_rejected_but_changed:
  assumes "svc_param_ok p" and "sp_has_turn_server p"
    and "cstr_arg u" and "cstr_arg n" and "cstr_arg w"
    and "TrimCopyToken u \<noteq> []" and "token_fits 511 u" and "token_fits 127 n" and "\<not> token_fits 127 w"
  shows "fst (svc_step (Set_turn_server u n w) p) = RFLOW_ERR_PARAM
       \<and> svc_view (snd (svc_step (Set_turn_server u n w) p)) F_turn_server
           = Some (V_turn (TrimCopyToken u) (TrimCopyToken n) (sp_turn_password p))"
proof -
  have wf: "svc_wf (Set_turn_server u n w)" using assms by simp
  have ok: "svc_param_ok (snd (svc_step (Set_turn_server u n w) p))"
    by (rule svc_step_ok [OF assms(1) wf])
  show ?thesis
    using assms(2,6-9) svc_step_rc [OF assms(1), of "Set_turn_server u n w"]
    by (simp add: svc_view_closed(24) [OF ok])
      (simp add: svc_step_def librflow_svc_stream_param_set_turn_server_def Let_def
        CopyRequiredIceUrl_cases CopyOptionalIceCredential_cases svc_param_okD(1) [OF assms(1)])
qed

definition turn_param :: librflow_svc_stream_param_s where
  "turn_param = snd (svc_step (Set_turn_server (Some ''turn:old'') (Some ''u1'') (Some ''p1'')) fresh_param)"

theorem turn_server_rejected_but_changed_witness:
  "svc_view turn_param F_turn_server = Some (V_turn ''turn:old'' ''u1'' ''p1'')
   \<and> fst (svc_step (Set_turn_server (Some ''turn:new'') (Some ''u2'') (Some (replicate 128 (CHR ''x'')))) turn_param)
       = RFLOW_ERR_PARAM
   \<and> svc_view (snd (svc_step (Set_turn_server (Some ''turn:new'') (Some ''u2'') (Some (replicate 128 (CHR ''x'')))) turn_param))
        F_turn_server = Some (V_turn ''turn:new'' ''u2'' ''p1'')"
proof -
  let ?c = "Set_turn_server (Some ''turn:old'') (Some ''u1'') (Some ''p1'')"
  have toks: "TrimCopyToken (Some ''turn:old'') = ''turn:old''" "TrimCopyToken (Some ''u1'') = ''u1''"
    "TrimCopyToken (Some ''p1'') = ''p1''" "TrimCopyToken (Some ''turn:new'') = ''turn:new''"
    "TrimCopyToken (Some ''u2'') = ''u2''" by code_simp+
  have long: "\<not> token_fits 127 (Some (replicate 128 (CHR ''x'')))" by code_simp
  have wf: "svc_wf ?c" by (simp add: cstr_arg_def cstr_def)
  have ok: "svc_param_ok turn_param" unfolding turn_param_def by (rule svc_step_ok [OF fresh_param_ok wf])
  have v: "svc_view turn_param F_turn_server = Some (V_turn ''turn:old'' ''u1'' ''p1'')"
    unfolding turn_param_def using svc_step_own [OF fresh_param_ok wf] toks by (simp add: token_fits_def)
  then have h: "sp_has_turn_server turn_param" "sp_turn_password turn_param = ''p1''"
    by (simp_all add: svc_view_closed(24) [OF ok] split: if_splits)
  show ?thesis
    using turn_server_rejected_but_changed [OF ok h(1), of "Some ''turn:new''" "Some ''u2''"
        "Some (replicate 128 (CHR ''x''))"] v toks long h(2)
    by (simp add: cstr_arg_def cstr_def token_fits_def)
qed

text \<open>
  A push frame reads as not set in every field when it is created; after any sequence of
  calls a field shows the last accepted value, and the frame data a getter returns is the
  copied prefix of the caller's memory with its size.
\<close>

theorem push_frame_last_write_wins:
  assumes "\<forall>d \<in> set (as @ c # bs). frame_wf d" and "frame_accepted c"
    and "\<forall>d \<in> set bs. frame_field_of d \<noteq> frame_field_of c"
    and "librflow_svc_push_frame_create True = Some f"
  shows "frame_view f k = None
       \<and> frame_view (fold (\<lambda>d p. snd (frame_step d p)) (as @ c # bs) f) (frame_field_of c) = frame_value_of c"
proof
  have f: "f = push_frame_zero\<lparr>pf_magic := kMagicPushFrame, pf_flush := True\<rparr>"
    using assms(4) by (simp add: librflow_svc_push_frame_create_def CreateMagicObject_def)
  have ok: "frame_ok f" by (simp add: f frame_ok_def push_frame_zero_def)
  show "frame_view f k = None"
    by (cases k) (simp_all add: f push_frame_zero_def frame_view_simps)
  show "frame_view (fold (\<lambda>d p. snd (frame_step d p)) (as @ c # bs) f) (frame_field_of c) = frame_value_of c"
    using push_frame.last_write_wins [OF ok assms(1-3)] by (simp only: push_frame.run_def)
qed

theorem push_frame_last_write_wins_witness:
  "frame_view (fold (\<lambda>d p. snd (frame_step d p)) [Frame_seq 7, Frame_data (Some [1, 2, 3]) 2, Frame_size 4 4]
     (the (librflow_svc_push_frame_create True))) P_data = Some (Q_data [1, 2] 2)"
  using push_frame_last_write_wins [of "[Frame_seq 7]" "Frame_data (Some [1, 2, 3]) 2" "[Frame_size 4 4]"]
  by (simp add: librflow_svc_push_frame_create_def CreateMagicObject_def)

end
