(* ===== verification/Media_Objects.thy ===== *)
theory Media_Objects
  imports Service_Params
begin

text \<open>
  The reference-counted objects the SDK hands to callbacks: stream statistics
  (\<^verbatim>\<open>src/common/media/stream_stats.cpp\<close>) and video frames (\<^verbatim>\<open>src/common/media/video_frame.cpp\<close>,
  \<^verbatim>\<open>frame_types.h\<close>).

  A counted object is an option: None once it has been deleted. The locale \<open>counted\<close> states the
  contract of retain and release once; statistics and frames are its two instances. A plane's
  memory is a list of bytes, so that reading a row takes a slice of it. The mutex around the
  cached payload is left out.
\<close>

section \<open>Reference counting\<close>

text \<open>
  A call sequence: True for a retain, False for a release. \<open>owned\<close> counts the references held;
  a disciplined caller retains and releases only while it holds a reference.
\<close>

fun ref_calls :: "('o option \<Rightarrow> 'o option) \<Rightarrow> ('o option \<Rightarrow> 'o option) \<Rightarrow> bool list \<Rightarrow> 'o option \<Rightarrow> 'o option" where
  "ref_calls retain release [] x = x"
| "ref_calls retain release (b # bs) x = ref_calls retain release bs (if b then retain x else release x)"

fun owned :: "bool list \<Rightarrow> int \<Rightarrow> int" where
  "owned [] n = n"
| "owned (b # bs) n = owned bs (if b then n + 1 else n - 1)"

fun disciplined :: "bool list \<Rightarrow> int \<Rightarrow> bool" where
  "disciplined [] n = True"
| "disciplined (b # bs) n = (0 < n \<and> (\<not> b \<or> n < 2 ^ 31 - 1) \<and> disciplined bs (if b then n + 1 else n - 1))"

text \<open>
  \<open>rc\<close> is the counter of a live object with the right magic number; a release that finds the
  counter at one deletes the object. Operations on a deleted object are undefined in C++ and
  have no result here.
\<close>

locale counted =
  fixes rc :: "'o \<Rightarrow> int"
    and valid :: "'o \<Rightarrow> bool"
    and retain :: "'o option \<Rightarrow> 'o option"
    and release :: "'o option \<Rightarrow> 'o option"
  assumes retain_live: "valid x \<Longrightarrow> rc x < 2 ^ 31 - 1 \<Longrightarrow> \<exists>y. retain (Some x) = Some y \<and> valid y \<and> rc y = rc x + 1"
    and release_last: "valid x \<Longrightarrow> rc x = 1 \<Longrightarrow> release (Some x) = None"
    and release_more: "valid x \<Longrightarrow> rc x > 1 \<Longrightarrow> \<exists>y. release (Some x) = Some y \<and> valid y \<and> rc y = rc x - 1"
begin

text \<open>Callers that retain only what they hold never see the object deleted early, and the last release deletes it.\<close>

lemma calls_disciplined:
  assumes "valid x" and "rc x = n" and "0 < n" and "disciplined bs n"
  shows "if owned bs n = 0 then ref_calls retain release bs (Some x) = None
         else \<exists>y. ref_calls retain release bs (Some x) = Some y \<and> valid y \<and> rc y = owned bs n"
  using assms
proof (induction bs arbitrary: x n)
  case Nil
  then show ?case by simp
next
  case (Cons b bs)
  show ?case
  proof (cases b)
    case True
    then obtain y where "retain (Some x) = Some y" "valid y" "rc y = n + 1"
      using retain_live [of x] Cons.prems by auto
    then show ?thesis using Cons.IH [of y "n + 1"] Cons.prems True by simp
  next
    case False
    show ?thesis
    proof (cases "n = 1")
      case True
      then have "bs = []" using Cons.prems(4) False by (cases bs) auto
      then show ?thesis using release_last [of x] Cons.prems True False by simp
    next
      case ne: False
      then obtain y where "release (Some x) = Some y" "valid y" "rc y = n - 1"
        using release_more [of x] Cons.prems by auto
      then show ?thesis using Cons.IH [of y "n - 1"] Cons.prems False ne by simp
    qed
  qed
qed

end

section \<open>Stream statistics\<close>

record librflow_stream_stats_s =
  ms_magic :: u32
  ms_refcount :: int
  ms_duration_ms :: u32
  ms_in_bound_bytes :: u64
  ms_in_bound_pkts :: u64
  ms_out_bound_bytes :: u64
  ms_out_bound_pkts :: u64
  ms_lost_pkts :: u32
  ms_bitrate_kbps :: u32
  ms_rtt_ms :: u32
  ms_fps :: u32
  ms_jitter_ms :: u32
  ms_freeze_count :: u32
  ms_decode_fail_count :: u32
  ms_jitter_buffer_delay_ms :: u32
  ms_jitter_min_delay_ms :: u32

definition AllocStreamStats :: "bool \<Rightarrow> librflow_stream_stats_s option" where
  "AllocStreamStats alloc =
     (if alloc then Some \<lparr> ms_magic = kMagicStreamStats, ms_refcount = 1, ms_duration_ms = 0, ms_in_bound_bytes = 0,
        ms_in_bound_pkts = 0, ms_out_bound_bytes = 0, ms_out_bound_pkts = 0, ms_lost_pkts = 0, ms_bitrate_kbps = 0,
        ms_rtt_ms = 0, ms_fps = 0, ms_jitter_ms = 0, ms_freeze_count = 0, ms_decode_fail_count = 0,
        ms_jitter_buffer_delay_ms = 0, ms_jitter_min_delay_ms = 0 \<rparr> else None)"

text \<open>Times of the steady clock in milliseconds; None is the default time point (not started).\<close>

definition FillStreamStatsBase :: "int \<Rightarrow> int option \<Rightarrow> u64 \<Rightarrow> librflow_stream_stats_s \<Rightarrow> librflow_stream_stats_s" where
  "FillStreamStatsBase now opened_at pkts s =
     (let s' = (case opened_at of None \<Rightarrow> s | Some t \<Rightarrow> s\<lparr>ms_duration_ms := word_of_int (now - t)\<rparr>)
      in s'\<lparr>ms_in_bound_pkts := pkts\<rparr>)"

text \<open>The product and the quotient are computed in 64 bits.\<close>

definition ApplyStreamStatsFpsFallbackFromFrameCount :: "u64 \<Rightarrow> librflow_stream_stats_s \<Rightarrow> librflow_stream_stats_s" where
  "ApplyStreamStatsFpsFallbackFromFrameCount frames s =
     (if ms_fps s \<noteq> 0 then s
      else let d = max 1 (ms_duration_ms s)
           in s\<lparr>ms_fps := ucast ((frames * 1000) div (ucast d :: u64))\<rparr>)"

definition librflow_stream_stats_retain :: "librflow_stream_stats_s option \<Rightarrow> librflow_stream_stats_s option" where
  "librflow_stream_stats_retain s =
     (if \<not> RFLOW_CHECK_HANDLE ms_magic s kMagicStreamStats then s
      else map_option (\<lambda>x. x\<lparr>ms_refcount := to_int32 (ms_refcount x + 1)\<rparr>) s)"

definition librflow_stream_stats_release :: "librflow_stream_stats_s option \<Rightarrow> librflow_stream_stats_s option" where
  "librflow_stream_stats_release s =
     (if \<not> RFLOW_CHECK_HANDLE ms_magic s kMagicStreamStats then s
      else if ms_refcount (the s) = 1 then None
      else map_option (\<lambda>x. x\<lparr>ms_refcount := to_int32 (ms_refcount x - 1)\<rparr>) s)"

definition stat :: "(librflow_stream_stats_s \<Rightarrow> 'w::len word) \<Rightarrow> librflow_stream_stats_s option \<Rightarrow> 'w word" where
  "stat f s = (case s of None \<Rightarrow> 0 | Some x \<Rightarrow> f x)"

definition librflow_stream_stats_get_duration_ms :: "librflow_stream_stats_s option \<Rightarrow> u32" where
  "librflow_stream_stats_get_duration_ms s = stat ms_duration_ms s"
definition librflow_stream_stats_get_in_bound_pkts :: "librflow_stream_stats_s option \<Rightarrow> u64" where
  "librflow_stream_stats_get_in_bound_pkts s = stat ms_in_bound_pkts s"
definition librflow_stream_stats_get_fps :: "librflow_stream_stats_s option \<Rightarrow> u32" where
  "librflow_stream_stats_get_fps s = stat ms_fps s"
definition librflow_stream_stats_get_in_bound_bytes :: "librflow_stream_stats_s option \<Rightarrow> u64" where
  "librflow_stream_stats_get_in_bound_bytes s = stat ms_in_bound_bytes s"
definition librflow_stream_stats_get_out_bound_bytes :: "librflow_stream_stats_s option \<Rightarrow> u64" where
  "librflow_stream_stats_get_out_bound_bytes s = stat ms_out_bound_bytes s"
definition librflow_stream_stats_get_out_bound_pkts :: "librflow_stream_stats_s option \<Rightarrow> u64" where
  "librflow_stream_stats_get_out_bound_pkts s = stat ms_out_bound_pkts s"
definition librflow_stream_stats_get_lost_pkts :: "librflow_stream_stats_s option \<Rightarrow> u32" where
  "librflow_stream_stats_get_lost_pkts s = stat ms_lost_pkts s"
definition librflow_stream_stats_get_bitrate_kbps :: "librflow_stream_stats_s option \<Rightarrow> u32" where
  "librflow_stream_stats_get_bitrate_kbps s = stat ms_bitrate_kbps s"
definition librflow_stream_stats_get_rtt_ms :: "librflow_stream_stats_s option \<Rightarrow> u32" where
  "librflow_stream_stats_get_rtt_ms s = stat ms_rtt_ms s"
definition librflow_stream_stats_get_jitter_ms :: "librflow_stream_stats_s option \<Rightarrow> u32" where
  "librflow_stream_stats_get_jitter_ms s = stat ms_jitter_ms s"
definition librflow_stream_stats_get_freeze_count :: "librflow_stream_stats_s option \<Rightarrow> u32" where
  "librflow_stream_stats_get_freeze_count s = stat ms_freeze_count s"
definition librflow_stream_stats_get_decode_fail_count :: "librflow_stream_stats_s option \<Rightarrow> u32" where
  "librflow_stream_stats_get_decode_fail_count s = stat ms_decode_fail_count s"
definition librflow_stream_stats_get_jitter_buffer_delay_ms :: "librflow_stream_stats_s option \<Rightarrow> u32" where
  "librflow_stream_stats_get_jitter_buffer_delay_ms s = stat ms_jitter_buffer_delay_ms s"
definition librflow_stream_stats_get_jitter_min_delay_ms :: "librflow_stream_stats_s option \<Rightarrow> u32" where
  "librflow_stream_stats_get_jitter_min_delay_ms s = stat ms_jitter_min_delay_ms s"

definition stats_ok :: "librflow_stream_stats_s \<Rightarrow> bool" where
  "stats_ok x \<longleftrightarrow> ms_magic x = kMagicStreamStats \<and> 0 < ms_refcount x \<and> ms_refcount x < 2 ^ 31"

interpretation stats_counted: counted ms_refcount stats_ok librflow_stream_stats_retain librflow_stream_stats_release
  by unfold_locales
    (simp_all add: stats_ok_def librflow_stream_stats_retain_def librflow_stream_stats_release_def int32_range_def)

section \<open>Video frames\<close>

datatype rflow_video_frame_backend_t =
    RFLOW_VIDEO_FRAME_BACKEND_UNKNOWN | RFLOW_VIDEO_FRAME_BACKEND_CPU_PLANAR
  | RFLOW_VIDEO_FRAME_BACKEND_GPU_EXTERNAL | RFLOW_VIDEO_FRAME_BACKEND_HARDWARE_BUFFER

datatype rflow_native_handle_type_t =
    RFLOW_NATIVE_HANDLE_NONE | RFLOW_NATIVE_HANDLE_ANDROID_OES_TEXTURE | RFLOW_NATIVE_HANDLE_ANDROID_HARDWARE_BUFFER

text \<open>The three entries of the plane arrays: memory, stride, width and height.\<close>

record plane =
  pl_data :: "u8 list"
  pl_stride :: u32
  pl_width :: u32
  pl_height :: u32

record librflow_video_frame_s =
  vf_magic :: u32
  vf_refcount :: int
  vf_backend :: rflow_video_frame_backend_t
  vf_native_handle_type :: rflow_native_handle_type_t
  vf_codec :: rflow_codec_t
  vf_type :: rflow_frame_type_t
  vf_width :: u32
  vf_height :: u32
  vf_pts_ms :: u64
  vf_utc_ms :: u64
  vf_seq :: u32
  vf_stream_index :: int
  vf_plane_count :: u32
  vf_planes :: "nat \<Rightarrow> plane"
  vf_oes_texture_id :: u32
  vf_android_hardware_buffer :: "nat option"
  vf_sync_fence_fd :: int
  vf_gl_prepare :: "(nat \<times> nat) option"
  vf_sampling_acquire_fn :: fn_ptr
  vf_sampling_release_fn :: fn_ptr
  vf_payload :: "u8 list"

type_synonym vframe = "librflow_video_frame_s option"

definition IsValidFrame :: "vframe \<Rightarrow> bool" where
  "IsValidFrame f \<longleftrightarrow> (case f of None \<Rightarrow> False | Some x \<Rightarrow> vf_magic x = kMagicVideoFrame)"

definition plane_bytes :: "plane \<Rightarrow> nat" where
  "plane_bytes p = unat (pl_width p) * unat (pl_height p)"

text \<open>\<^verbatim>\<open>memcpy\<close> of \<^verbatim>\<open>row_bytes\<close> bytes at \<^verbatim>\<open>write_ptr\<close>, which then advances by them.\<close>

definition copy_row :: "plane \<Rightarrow> nat \<Rightarrow> u8 list \<times> nat \<Rightarrow> u8 list \<times> nat" where
  "copy_row p row dst =
     (let n = unat (pl_width p); src = take n (drop (row * unat (pl_stride p)) (pl_data p)); (buf, pos) = dst
      in (take pos buf @ src @ drop (pos + n) buf, pos + n))"

fun copy_rows :: "plane \<Rightarrow> nat \<Rightarrow> nat \<Rightarrow> u8 list \<times> nat \<Rightarrow> u8 list \<times> nat" where
  "copy_rows p row 0 dst = dst"
| "copy_rows p row (Suc k) dst = copy_rows p (Suc row) k (copy_row p row dst)"

definition copy_plane :: "plane \<Rightarrow> u8 list \<times> nat \<Rightarrow> u8 list \<times> nat" where
  "copy_plane p dst = copy_rows p 0 (unat (pl_height p)) dst"

definition materialize :: "plane list \<Rightarrow> u8 list" where
  "materialize ps = fst (fold copy_plane ps (replicate (sum_list (map plane_bytes ps)) 0, 0))"

definition EnsurePayloadMaterialized :: "librflow_video_frame_s \<Rightarrow> bool \<times> librflow_video_frame_s" where
  "EnsurePayloadMaterialized f =
     (if vf_payload f \<noteq> [] then (True, f)
      else if vf_plane_count f = 0 then (False, f)
      else case vf_codec f of
             RFLOW_CODEC_I420 \<Rightarrow> if vf_plane_count f < 3 then (False, f)
               else (True, f\<lparr>vf_payload := materialize [vf_planes f 0, vf_planes f 1, vf_planes f 2]\<rparr>)
           | RFLOW_CODEC_NV12 \<Rightarrow> if vf_plane_count f < 2 then (False, f)
               else (True, f\<lparr>vf_payload := materialize [vf_planes f 0, vf_planes f 1]\<rparr>)
           | _ \<Rightarrow> (False, f))"

text \<open>The data pointer is the payload; None is the null pointer.\<close>

definition librflow_video_frame_get_data :: "vframe \<Rightarrow> u8 list option \<times> vframe" where
  "librflow_video_frame_get_data f =
     (if \<not> IsValidFrame f then (None, f)
      else let (ok, x) = EnsurePayloadMaterialized (the f)
           in if ok then (Some (vf_payload x), Some x) else (None, Some x))"

definition librflow_video_frame_get_data_size :: "vframe \<Rightarrow> u32 \<times> vframe" where
  "librflow_video_frame_get_data_size f =
     (if \<not> IsValidFrame f then (0, f)
      else let (ok, x) = EnsurePayloadMaterialized (the f)
           in if ok then (of_nat (length (vf_payload x)), Some x) else (0, Some x))"

definition frame_field :: "'v \<Rightarrow> (librflow_video_frame_s \<Rightarrow> 'v) \<Rightarrow> vframe \<Rightarrow> 'v" where
  "frame_field d g f = (if IsValidFrame f then g (the f) else d)"

definition librflow_video_frame_get_backend :: "vframe \<Rightarrow> rflow_video_frame_backend_t" where
  "librflow_video_frame_get_backend f = frame_field RFLOW_VIDEO_FRAME_BACKEND_UNKNOWN vf_backend f"
definition librflow_video_frame_get_native_handle_type :: "vframe \<Rightarrow> rflow_native_handle_type_t" where
  "librflow_video_frame_get_native_handle_type f = frame_field RFLOW_NATIVE_HANDLE_NONE vf_native_handle_type f"

definition librflow_video_frame_get_oes_texture_id :: "vframe \<Rightarrow> u32" where
  "librflow_video_frame_get_oes_texture_id f =
     (if \<not> IsValidFrame f \<or> vf_native_handle_type (the f) \<noteq> RFLOW_NATIVE_HANDLE_ANDROID_OES_TEXTURE then 0
      else vf_oes_texture_id (the f))"

definition librflow_video_frame_get_android_hardware_buffer :: "vframe \<Rightarrow> nat option" where
  "librflow_video_frame_get_android_hardware_buffer f =
     (if \<not> IsValidFrame f \<or> vf_native_handle_type (the f) \<noteq> RFLOW_NATIVE_HANDLE_ANDROID_HARDWARE_BUFFER then None
      else vf_android_hardware_buffer (the f))"

definition librflow_video_frame_get_sync_fence_fd :: "vframe \<Rightarrow> int" where
  "librflow_video_frame_get_sync_fence_fd f = frame_field (- 1) vf_sync_fence_fd f"

definition librflow_video_frame_get_gl_prepare_callback ::
  "vframe \<Rightarrow> fn_ptr option \<Rightarrow> nat option \<Rightarrow> rflow_err_t \<times> fn_ptr option \<times> nat option" where
  "librflow_video_frame_get_gl_prepare_callback f out_fn out_ud =
     (if \<not> IsValidFrame f \<or> out_fn = None \<or> out_ud = None then (RFLOW_ERR_PARAM, out_fn, out_ud)
      else case vf_gl_prepare (the f) of
             None \<Rightarrow> (RFLOW_ERR_NOT_SUPPORT, Some None, Some 0)
           | Some (fn, ud) \<Rightarrow> (RFLOW_OK, Some (Some fn), Some ud))"

text \<open>\<open>acquired\<close> is what the acquire callback returns.\<close>

definition librflow_video_frame_acquire_for_sampling :: "rflow_err_t \<Rightarrow> vframe \<Rightarrow> rflow_err_t" where
  "librflow_video_frame_acquire_for_sampling acquired f =
     (if \<not> IsValidFrame f then RFLOW_ERR_PARAM
      else if vf_sampling_acquire_fn (the f) = None then RFLOW_ERR_NOT_SUPPORT else acquired)"

definition librflow_video_frame_get_codec :: "vframe \<Rightarrow> rflow_codec_t" where
  "librflow_video_frame_get_codec f = frame_field RFLOW_CODEC_UNKNOWN vf_codec f"
definition librflow_video_frame_get_type :: "vframe \<Rightarrow> rflow_frame_type_t" where
  "librflow_video_frame_get_type f = frame_field RFLOW_FRAME_UNKNOWN vf_type f"
definition librflow_video_frame_get_plane_count :: "vframe \<Rightarrow> u32" where
  "librflow_video_frame_get_plane_count f = frame_field 0 vf_plane_count f"

definition plane_at :: "'v \<Rightarrow> (plane \<Rightarrow> 'v) \<Rightarrow> vframe \<Rightarrow> u32 \<Rightarrow> 'v" where
  "plane_at d g f i =
     (if \<not> IsValidFrame f \<or> i \<ge> vf_plane_count (the f) then d else g (vf_planes (the f) (unat i)))"

definition librflow_video_frame_get_plane_data :: "vframe \<Rightarrow> u32 \<Rightarrow> u8 list option" where
  "librflow_video_frame_get_plane_data f i = plane_at None (Some \<circ> pl_data) f i"
definition librflow_video_frame_get_plane_stride :: "vframe \<Rightarrow> u32 \<Rightarrow> u32" where
  "librflow_video_frame_get_plane_stride f i = plane_at 0 pl_stride f i"
definition librflow_video_frame_get_plane_width :: "vframe \<Rightarrow> u32 \<Rightarrow> u32" where
  "librflow_video_frame_get_plane_width f i = plane_at 0 pl_width f i"
definition librflow_video_frame_get_plane_height :: "vframe \<Rightarrow> u32 \<Rightarrow> u32" where
  "librflow_video_frame_get_plane_height f i = plane_at 0 pl_height f i"
definition librflow_video_frame_get_width :: "vframe \<Rightarrow> u32" where
  "librflow_video_frame_get_width f = frame_field 0 vf_width f"
definition librflow_video_frame_get_height :: "vframe \<Rightarrow> u32" where
  "librflow_video_frame_get_height f = frame_field 0 vf_height f"
definition librflow_video_frame_get_pts_ms :: "vframe \<Rightarrow> u64" where
  "librflow_video_frame_get_pts_ms f = frame_field 0 vf_pts_ms f"
definition librflow_video_frame_get_utc_ms :: "vframe \<Rightarrow> u64" where
  "librflow_video_frame_get_utc_ms f = frame_field 0 vf_utc_ms f"
definition librflow_video_frame_get_seq :: "vframe \<Rightarrow> u32" where
  "librflow_video_frame_get_seq f = frame_field 0 vf_seq f"
definition librflow_video_frame_get_index :: "vframe \<Rightarrow> int" where
  "librflow_video_frame_get_index f = frame_field (- 1) vf_stream_index f"

definition librflow_video_frame_retain :: "vframe \<Rightarrow> vframe" where
  "librflow_video_frame_retain f =
     (if \<not> RFLOW_CHECK_HANDLE vf_magic f kMagicVideoFrame then f
      else map_option (\<lambda>x. x\<lparr>vf_refcount := to_int32 (vf_refcount x + 1)\<rparr>) f)"

definition librflow_video_frame_release :: "vframe \<Rightarrow> vframe" where
  "librflow_video_frame_release f =
     (if \<not> RFLOW_CHECK_HANDLE vf_magic f kMagicVideoFrame then f
      else if vf_refcount (the f) = 1 then None
      else map_option (\<lambda>x. x\<lparr>vf_refcount := to_int32 (vf_refcount x - 1)\<rparr>) f)"

definition vframe_ok :: "librflow_video_frame_s \<Rightarrow> bool" where
  "vframe_ok x \<longleftrightarrow> vf_magic x = kMagicVideoFrame \<and> 0 < vf_refcount x \<and> vf_refcount x < 2 ^ 31"

interpretation frame_counted: counted vf_refcount vframe_ok librflow_video_frame_retain librflow_video_frame_release
  by unfold_locales
    (simp_all add: vframe_ok_def librflow_video_frame_retain_def librflow_video_frame_release_def int32_range_def)

section \<open>The packed payload\<close>

text \<open>Row i of a plane without its padding, and a plane as the rows one after another.\<close>

definition plane_row :: "plane \<Rightarrow> nat \<Rightarrow> u8 list" where
  "plane_row p i = take (unat (pl_width p)) (drop (i * unat (pl_stride p)) (pl_data p))"

definition packed :: "plane \<Rightarrow> u8 list" where
  "packed p = concat (map (plane_row p) [0..<unat (pl_height p)])"

text \<open>The memory behind the plane pointer covers every row that is read.\<close>

definition plane_ok :: "plane \<Rightarrow> bool" where
  "plane_ok p \<longleftrightarrow> (\<forall>i < unat (pl_height p). i * unat (pl_stride p) + unat (pl_width p) \<le> length (pl_data p))"

lemma length_plane_row:
  assumes "plane_ok p" and "i < unat (pl_height p)"
  shows "length (plane_row p i) = unat (pl_width p)"
proof -
  have "i * unat (pl_stride p) + unat (pl_width p) \<le> length (pl_data p)" using assms by (simp add: plane_ok_def)
  then show ?thesis by (simp add: plane_row_def)
qed

lemma copy_rows_packed:
  assumes "plane_ok p" and "row + k \<le> unat (pl_height p)" and "length done = pos"
    and "k * unat (pl_width p) \<le> length rest"
  shows "copy_rows p row k (done @ rest, pos) =
           (done @ concat (map (plane_row p) [row..<row + k]) @ drop (k * unat (pl_width p)) rest,
            pos + k * unat (pl_width p))"
  using assms
proof (induction k arbitrary: row "done" rest pos)
  case 0
  then show ?case by simp
next
  case (Suc k)
  let ?w = "unat (pl_width p)"
  have len: "length (plane_row p row) = ?w" using Suc.prems by (intro length_plane_row) auto
  have step: "copy_row p row (done @ rest, pos) = ((done @ plane_row p row) @ drop ?w rest, pos + ?w)"
    using Suc.prems(3) by (simp add: copy_row_def plane_row_def Let_def)
  have "copy_rows p (Suc row) k ((done @ plane_row p row) @ drop ?w rest, pos + ?w) =
      ((done @ plane_row p row) @ concat (map (plane_row p) [Suc row..<Suc row + k]) @ drop (k * ?w) (drop ?w rest),
       (pos + ?w) + k * ?w)"
    using Suc.prems len by (intro Suc.IH) auto
  moreover have "[row..<row + Suc k] = row # [Suc row..<Suc row + k]" by (simp add: upt_rec)
  ultimately show ?case by (simp add: step add.commute add.left_commute)
qed

lemma length_packed: "plane_ok p \<Longrightarrow> length (packed p) = plane_bytes p"
proof -
  assume ok: "plane_ok p"
  have "map (length \<circ> plane_row p) [0..<unat (pl_height p)] = map (\<lambda>_. unat (pl_width p)) [0..<unat (pl_height p)]"
    using length_plane_row [OF ok] by (intro map_cong) auto
  then have "sum_list (map (length \<circ> plane_row p) [0..<unat (pl_height p)]) = unat (pl_height p) * unat (pl_width p)"
    by (simp only: sum_list_triv) simp
  then show ?thesis
    by (simp add: packed_def plane_bytes_def length_concat mult.commute comp_def)
qed

lemma copy_plane_packed:
  assumes "plane_ok p" and "length done = pos" and "plane_bytes p \<le> length rest"
  shows "copy_plane p (done @ rest, pos) = (done @ packed p @ drop (plane_bytes p) rest, pos + plane_bytes p)"
  using copy_rows_packed [OF assms(1), of 0 "unat (pl_height p)" "done" pos rest] assms(2,3)
  by (simp add: copy_plane_def packed_def plane_bytes_def mult.commute)

lemma materialize_from:
  assumes "\<forall>p \<in> set ps. plane_ok p" and "length done = pos" and "length rest = sum_list (map plane_bytes ps)"
  shows "fold copy_plane ps (done @ rest, pos) = (done @ concat (map packed ps), pos + sum_list (map plane_bytes ps))"
  using assms
proof (induction ps arbitrary: "done" rest pos)
  case Nil
  then show ?case by simp
next
  case (Cons p ps)
  have "copy_plane p (done @ rest, pos) = (done @ packed p @ drop (plane_bytes p) rest, pos + plane_bytes p)"
    using Cons.prems by (intro copy_plane_packed) auto
  then show ?case
    using Cons.IH [of "done @ packed p" "pos + plane_bytes p" "drop (plane_bytes p) rest"] Cons.prems
    by (simp add: length_packed)
qed

lemma materialize_packed:
  assumes "\<forall>p \<in> set ps. plane_ok p"
  shows "materialize ps = concat (map packed ps)"
  using materialize_from [OF assms, of "[]" 0 "replicate (sum_list (map plane_bytes ps)) 0"]
  by (simp add: materialize_def)

lemma length_all_packed:
  "list_all plane_ok ps \<Longrightarrow> length (concat (map packed ps)) = sum_list (map plane_bytes ps)"
  by (induction ps) (simp_all add: length_packed)

definition frame_planes :: "librflow_video_frame_s \<Rightarrow> plane list" where
  "frame_planes f = (if vf_codec f = RFLOW_CODEC_I420 then [vf_planes f 0, vf_planes f 1, vf_planes f 2]
                     else [vf_planes f 0, vf_planes f 1])"

lemma Ensure_materializes:
  assumes "vf_payload f = []" and "vf_codec f \<in> {RFLOW_CODEC_I420, RFLOW_CODEC_NV12}"
    and "vf_plane_count f = of_nat (length (frame_planes f))"
  shows "EnsurePayloadMaterialized f = (True, f\<lparr>vf_payload := materialize (frame_planes f)\<rparr>)"
proof (cases "vf_codec f = RFLOW_CODEC_I420")
  case True
  then show ?thesis using assms by (simp add: EnsurePayloadMaterialized_def frame_planes_def)
next
  case False
  then show ?thesis using assms by (simp add: EnsurePayloadMaterialized_def frame_planes_def)
qed

lemma Ensure_again:
  assumes "vf_payload f = []" and "EnsurePayloadMaterialized f = (True, f\<lparr>vf_payload := d\<rparr>)"
  shows "EnsurePayloadMaterialized (f\<lparr>vf_payload := d\<rparr>) = (True, f\<lparr>vf_payload := d\<rparr>)"
proof (cases "d = []")
  case True
  then have "f\<lparr>vf_payload := d\<rparr> = f" using assms(1) by simp
  then show ?thesis using assms(2) by simp
next
  case False
  then show ?thesis by (simp add: EnsurePayloadMaterialized_def)
qed

section \<open>Properties\<close>

text \<open>
  The packed picture of a planar frame. For a valid I420 or NV12 frame whose planes are
  backed by enough memory, the data pointer yields the rows of the planes one after another
  without their padding, the size is the number of those bytes, and asking again returns the
  same bytes: the payload is built once.
\<close>

theorem frame_payload_packed:
  assumes "vf_magic f = kMagicVideoFrame" and "vf_payload f = []"
    and "vf_codec f \<in> {RFLOW_CODEC_I420, RFLOW_CODEC_NV12}"
    and "vf_plane_count f = of_nat (length (frame_planes f))"
    and "list_all plane_ok (frame_planes f)"
  shows "let data = concat (map packed (frame_planes f)); f' = f\<lparr>vf_payload := data\<rparr>
         in librflow_video_frame_get_data (Some f) = (Some data, Some f')
          \<and> length data = sum_list (map plane_bytes (frame_planes f))
          \<and> librflow_video_frame_get_data_size (Some f) = (of_nat (length data), Some f')
          \<and> fst (librflow_video_frame_get_data (Some f')) = Some data"
proof -
  have m: "materialize (frame_planes f) = concat (map packed (frame_planes f))"
    using assms(5) by (intro materialize_packed) (simp add: list_all_iff)
  note e = Ensure_materializes [OF assms(2-4), unfolded m]
  note e' = Ensure_again [OF assms(2) e]
  have "length (concat (map packed (frame_planes f))) = sum_list (map plane_bytes (frame_planes f))"
    by (rule length_all_packed [OF assms(5)])
  then show ?thesis
    using assms(1) e e'
    by (simp add: librflow_video_frame_get_data_def librflow_video_frame_get_data_size_def IsValidFrame_def Let_def split_beta)
qed

definition demo_plane :: plane where
  "demo_plane = \<lparr> pl_data = [1, 2, 9, 3, 4, 9], pl_stride = 3, pl_width = 2, pl_height = 2 \<rparr>"

definition demo_frame :: librflow_video_frame_s where
  "demo_frame = \<lparr> vf_magic = kMagicVideoFrame, vf_refcount = 1, vf_backend = RFLOW_VIDEO_FRAME_BACKEND_CPU_PLANAR,
     vf_native_handle_type = RFLOW_NATIVE_HANDLE_NONE, vf_codec = RFLOW_CODEC_NV12, vf_type = RFLOW_FRAME_I,
     vf_width = 2, vf_height = 2, vf_pts_ms = 0, vf_utc_ms = 0, vf_seq = 0, vf_stream_index = 0, vf_plane_count = 2,
     vf_planes = (\<lambda>_. demo_plane), vf_oes_texture_id = 0, vf_android_hardware_buffer = None, vf_sync_fence_fd = -1,
     vf_gl_prepare = None, vf_sampling_acquire_fn = None, vf_sampling_release_fn = None, vf_payload = [] \<rparr>"

lemma demo_plane_packed: "packed demo_plane = [1, 2, 3, 4]" and demo_plane_ok: "plane_ok demo_plane"
  by code_simp (auto simp: demo_plane_def plane_ok_def)

theorem frame_payload_packed_witness:
  "fst (librflow_video_frame_get_data (Some demo_frame)) = Some [1, 2, 3, 4, 1, 2, 3, 4]
   \<and> fst (librflow_video_frame_get_data_size (Some demo_frame)) = 8"
  using frame_payload_packed [of demo_frame] demo_plane_packed demo_plane_ok
  by (simp add: demo_frame_def frame_planes_def Let_def)

text \<open>
  Reference counting of video frames: callers that only retain and release references they
  hold keep the frame alive, and valid, as long as any reference is left, and the release of
  the last reference deletes it.
\<close>

theorem frame_refcount_exact:
  assumes "vf_magic f = kMagicVideoFrame" and "vf_refcount f = n" and "0 < n" and "n < 2 ^ 31"
    and "disciplined calls n"
  shows "if owned calls n = 0 then ref_calls librflow_video_frame_retain librflow_video_frame_release calls (Some f) = None
         else \<exists>f'. ref_calls librflow_video_frame_retain librflow_video_frame_release calls (Some f) = Some f' \<and> vf_magic f' = kMagicVideoFrame
                 \<and> vf_refcount f' = owned calls n"
proof -
  have "vframe_ok f" using assms by (simp add: vframe_ok_def)
  from frame_counted.calls_disciplined [OF this assms(2,3,5)] show ?thesis
    by (auto simp: vframe_ok_def split: if_splits)
qed

theorem frame_refcount_exact_witness:
  "librflow_video_frame_release (librflow_video_frame_release (librflow_video_frame_retain (Some demo_frame))) = None"
  using frame_refcount_exact [of demo_frame 1 "[True, False, False]"] by (simp add: demo_frame_def)

end
