(* ===== verification/Sdk_Config.thy ===== *)
theory Sdk_Config
  imports Abi_Objects Runtime_Knobs
begin

text \<open>
  Configuration shared by both sides of the SDK: the log, signal, license and global
  configuration objects (\<^verbatim>\<open>src/common/abi\<close>), the logger and the last error
  (\<^verbatim>\<open>src/common/base\<close>), and the process-wide WebRTC settings derived from them: the ICE
  interface filter and servers (\<^verbatim>\<open>src/core/rtc/rtc_ice_config.cpp\<close>) and the field trials
  (\<^verbatim>\<open>src/core/rtc/rtc_factory_common.cpp\<close>).

  The process-wide variables form the record \<open>Process\<close>. The clock and the environment are
  arguments. The last error is thread local in the code; the model follows one thread.
\<close>

section \<open>Logger and last error\<close>

type_synonym rflow_log_level_t = int

definition RFLOW_LOG_INFO :: rflow_log_level_t where "RFLOW_LOG_INFO = 2"

record Logger =
  g_log_level :: rflow_log_level_t
  g_log_callback :: fn_ptr
  g_log_userdata :: nat

definition logger_init :: Logger where
  "logger_init = \<lparr> g_log_level = RFLOW_LOG_INFO, g_log_callback = None, g_log_userdata = 0 \<rparr>"

definition logger_apply :: "rflow_log_level_t \<Rightarrow> fn_ptr \<Rightarrow> nat \<Rightarrow> Logger \<Rightarrow> Logger" where
  "logger_apply level cb ud lg = lg\<lparr>g_log_level := level, g_log_callback := cb, g_log_userdata := ud\<rparr>"

definition logger_set_level :: "rflow_log_level_t \<Rightarrow> Logger \<Rightarrow> Logger" where
  "logger_set_level level lg = lg\<lparr>g_log_level := level\<rparr>"

definition logger_set_callback :: "fn_ptr \<Rightarrow> nat \<Rightarrow> Logger \<Rightarrow> Logger" where
  "logger_set_callback cb ud lg = lg\<lparr>g_log_callback := cb, g_log_userdata := ud\<rparr>"

datatype log_output = LogCallback nat rflow_log_level_t string nat | LogStderr rflow_log_level_t string

text \<open>\<open>text\<close> is the formatted message; \<^verbatim>\<open>vsnprintf\<close> keeps the first 1023 bytes of it.\<close>

definition logf :: "rflow_log_level_t \<Rightarrow> string \<Rightarrow> Logger \<Rightarrow> log_output list" where
  "logf level text lg =
     (if level < g_log_level lg then []
      else let line = take 1023 text
           in case g_log_callback lg of
                Some f \<Rightarrow> [LogCallback f level line (g_log_userdata lg)]
              | None \<Rightarrow> [LogStderr level line])"

record LastError =
  le_code :: rflow_err_t
  le_message :: string
  le_origin :: string
  le_timestamp_ms :: u64

definition no_error :: LastError where
  "no_error = \<lparr> le_code = RFLOW_OK, le_message = [], le_origin = [], le_timestamp_ms = 0 \<rparr>"

definition set_last_error_full :: "u64 \<Rightarrow> rflow_err_t \<Rightarrow> string \<Rightarrow> string \<Rightarrow> LastError \<Rightarrow> LastError" where
  "set_last_error_full now code msg origin e =
     \<lparr> le_code = code, le_message = msg, le_origin = origin, le_timestamp_ms = now \<rparr>"

text \<open>The overloads: message only, message with origin, and all three.\<close>

definition set_last_error_msg :: "u64 \<Rightarrow> string \<Rightarrow> LastError \<Rightarrow> LastError" where
  "set_last_error_msg now msg e =
     e\<lparr>le_message := msg, le_code := (if le_code e = RFLOW_OK then RFLOW_ERR_FAIL else le_code e),
       le_timestamp_ms := now\<rparr>"

definition set_last_error_origin :: "u64 \<Rightarrow> string \<Rightarrow> string option \<Rightarrow> LastError \<Rightarrow> LastError" where
  "set_last_error_origin now msg origin e =
     e\<lparr>le_message := msg, le_origin := case_option [] id origin,
       le_code := (if le_code e = RFLOW_OK then RFLOW_ERR_FAIL else le_code e), le_timestamp_ms := now\<rparr>"

definition set_last_error :: "u64 \<Rightarrow> rflow_err_t \<Rightarrow> string \<Rightarrow> string option \<Rightarrow> LastError \<Rightarrow> LastError" where
  "set_last_error now code msg origin e = set_last_error_full now code msg (case_option [] id origin) e"

definition clear_last_error :: "LastError \<Rightarrow> LastError" where
  "clear_last_error e = \<lparr> le_code = RFLOW_OK, le_message = [], le_origin = [], le_timestamp_ms = 0 \<rparr>"

definition librflow_get_last_error :: "LastError \<Rightarrow> string" where
  "librflow_get_last_error e = le_message e"

lemma set_last_error_never_ok:
  "code \<noteq> RFLOW_OK \<Longrightarrow> le_code (set_last_error now code msg origin e) \<noteq> RFLOW_OK"
  "le_code (set_last_error_msg now msg e) \<noteq> RFLOW_OK"
  "le_code (set_last_error_origin now msg origin e) \<noteq> RFLOW_OK"
  by (simp_all add: set_last_error_def set_last_error_full_def set_last_error_msg_def set_last_error_origin_def)

section \<open>Configuration objects\<close>

record librflow_log_config_s =
  lc_magic :: u32
  lc_level :: rflow_log_level_t
  lc_enable :: bool
  lc_cb :: fn_ptr
  lc_userdata :: nat

datatype rflow_signal_mode_t = RFLOW_SIGNAL_MODE_SERVER | RFLOW_SIGNAL_MODE_DIRECT | signal_mode_value int

record librflow_signal_config_s =
  sg_magic :: u32
  sg_url :: string
  sg_mode :: rflow_signal_mode_t
  sg_direct_port :: u16

record librflow_license_config_s =
  lic_magic :: u32
  lic_file_path :: string
  lic_buffer :: "u8 list"

datatype rflow_region_t = RFLOW_REGION_CN | RFLOW_REGION_OVERSEAS | region_value int

datatype rflow_global_flexfec_t =
    RFLOW_GLOBAL_FLEXFEC_DEFAULT | RFLOW_GLOBAL_FLEXFEC_OFF | RFLOW_GLOBAL_FLEXFEC_ON | flexfec_value int

record librflow_global_config_s =
  gc_magic :: u32
  gc_has_log :: bool
  gc_log :: librflow_log_config_s
  gc_has_signal :: bool
  gc_signal :: librflow_signal_config_s
  gc_has_license :: bool
  gc_license :: librflow_license_config_s
  gc_config_path :: string
  gc_region :: rflow_region_t
  gc_flexfec :: rflow_global_flexfec_t
  gc_has_ice_ignore_interfaces :: bool
  gc_ice_ignore_interfaces :: string

text \<open>The zeroed objects a value-initialised allocation starts from.\<close>

definition log_config_zero :: librflow_log_config_s where
  "log_config_zero = \<lparr> lc_magic = 0, lc_level = 0, lc_enable = False, lc_cb = None, lc_userdata = 0 \<rparr>"

definition signal_config_zero :: librflow_signal_config_s where
  "signal_config_zero = \<lparr> sg_magic = 0, sg_url = [], sg_mode = signal_mode_value 0, sg_direct_port = 0 \<rparr>"

definition license_config_zero :: librflow_license_config_s where
  "license_config_zero = \<lparr> lic_magic = 0, lic_file_path = [], lic_buffer = [] \<rparr>"

definition global_config_zero :: librflow_global_config_s where
  "global_config_zero = \<lparr> gc_magic = 0, gc_has_log = False, gc_log = log_config_zero, gc_has_signal = False,
     gc_signal = signal_config_zero, gc_has_license = False, gc_license = license_config_zero,
     gc_config_path = [], gc_region = RFLOW_REGION_CN, gc_flexfec = RFLOW_GLOBAL_FLEXFEC_DEFAULT,
     gc_has_ice_ignore_interfaces = False, gc_ice_ignore_interfaces = [] \<rparr>"

subsection \<open>Log configuration\<close>

definition librflow_log_config_create :: "bool \<Rightarrow> librflow_log_config_s option" where
  "librflow_log_config_create alloc =
     (if alloc then Some \<lparr> lc_magic = kMagicLogConfig, lc_level = RFLOW_LOG_INFO, lc_enable = True,
                            lc_cb = None, lc_userdata = 0 \<rparr> else None)"

definition librflow_log_config_destroy :: "librflow_log_config_s option \<Rightarrow> librflow_log_config_s option" where
  "librflow_log_config_destroy c = (if RFLOW_CHECK_HANDLE lc_magic c kMagicLogConfig then None else c)"

definition librflow_log_config_set_level ::
  "librflow_log_config_s option \<Rightarrow> rflow_log_level_t \<Rightarrow> rflow_err_t \<times> librflow_log_config_s option" where
  "librflow_log_config_set_level c level = RFLOW_SET_FIELD lc_magic c kMagicLogConfig (\<lambda>x. x\<lparr>lc_level := level\<rparr>)"

definition librflow_log_config_set_enable ::
  "librflow_log_config_s option \<Rightarrow> bool \<Rightarrow> rflow_err_t \<times> librflow_log_config_s option" where
  "librflow_log_config_set_enable c e = RFLOW_SET_FIELD lc_magic c kMagicLogConfig (\<lambda>x. x\<lparr>lc_enable := e\<rparr>)"

definition librflow_log_config_set_callback ::
  "librflow_log_config_s option \<Rightarrow> fn_ptr \<Rightarrow> nat \<Rightarrow> rflow_err_t \<times> librflow_log_config_s option" where
  "librflow_log_config_set_callback c cb ud =
     RFLOW_SET_FIELD lc_magic c kMagicLogConfig (\<lambda>x. x\<lparr>lc_cb := cb, lc_userdata := ud\<rparr>)"

definition librflow_log_config_get_level :: "librflow_log_config_s option \<Rightarrow> rflow_log_level_t" where
  "librflow_log_config_get_level c =
     (if RFLOW_CHECK_HANDLE lc_magic c kMagicLogConfig then lc_level (the c) else RFLOW_LOG_INFO)"

definition librflow_log_config_get_enable :: "librflow_log_config_s option \<Rightarrow> bool" where
  "librflow_log_config_get_enable c =
     (if RFLOW_CHECK_HANDLE lc_magic c kMagicLogConfig then lc_enable (the c) else False)"

subsection \<open>Signal configuration\<close>

definition librflow_signal_config_create :: "bool \<Rightarrow> librflow_signal_config_s option" where
  "librflow_signal_config_create alloc =
     (if alloc then Some \<lparr> sg_magic = kMagicSignalConfig, sg_url = [], sg_mode = RFLOW_SIGNAL_MODE_SERVER,
                            sg_direct_port = 0 \<rparr> else None)"

definition librflow_signal_config_destroy :: "librflow_signal_config_s option \<Rightarrow> librflow_signal_config_s option" where
  "librflow_signal_config_destroy c = (if RFLOW_CHECK_HANDLE sg_magic c kMagicSignalConfig then None else c)"

definition librflow_signal_config_set_url ::
  "librflow_signal_config_s option \<Rightarrow> string option \<Rightarrow> rflow_err_t \<times> librflow_signal_config_s option" where
  "librflow_signal_config_set_url c url =
     RFLOW_SET_FIELD sg_magic c kMagicSignalConfig (\<lambda>x. x\<lparr>sg_url := case_option [] id url\<rparr>)"

definition librflow_signal_config_set_mode ::
  "librflow_signal_config_s option \<Rightarrow> rflow_signal_mode_t \<Rightarrow> rflow_err_t \<times> librflow_signal_config_s option" where
  "librflow_signal_config_set_mode c m = RFLOW_SET_FIELD sg_magic c kMagicSignalConfig (\<lambda>x. x\<lparr>sg_mode := m\<rparr>)"

definition librflow_signal_config_set_direct_port ::
  "librflow_signal_config_s option \<Rightarrow> u16 \<Rightarrow> rflow_err_t \<times> librflow_signal_config_s option" where
  "librflow_signal_config_set_direct_port c p =
     RFLOW_SET_FIELD sg_magic c kMagicSignalConfig (\<lambda>x. x\<lparr>sg_direct_port := p\<rparr>)"

definition librflow_signal_config_get_url ::
  "librflow_signal_config_s option \<Rightarrow> string option \<Rightarrow> u32 \<Rightarrow> u32 option \<Rightarrow> rflow_err_t \<times> string option \<times> u32 option" where
  "librflow_signal_config_get_url c buf len needed =
     (if \<not> RFLOW_CHECK_HANDLE sg_magic c kMagicSignalConfig then (RFLOW_ERR_PARAM, buf, needed)
      else CopyOutString (sg_url (the c)) buf len needed)"

subsection \<open>License configuration\<close>

definition librflow_license_config_create :: "bool \<Rightarrow> librflow_license_config_s option" where
  "librflow_license_config_create alloc =
     (if alloc then Some (license_config_zero\<lparr>lic_magic := kMagicLicenseConfig\<rparr>) else None)"

definition librflow_license_config_destroy :: "librflow_license_config_s option \<Rightarrow> librflow_license_config_s option" where
  "librflow_license_config_destroy c = (if RFLOW_CHECK_HANDLE lic_magic c kMagicLicenseConfig then None else c)"

definition librflow_license_config_set_file ::
  "librflow_license_config_s option \<Rightarrow> string option \<Rightarrow> rflow_err_t \<times> librflow_license_config_s option" where
  "librflow_license_config_set_file c path =
     RFLOW_SET_FIELD lic_magic c kMagicLicenseConfig
       (\<lambda>x. x\<lparr>lic_file_path := case_option [] id path, lic_buffer := []\<rparr>)"

definition librflow_license_config_set_buffer ::
  "librflow_license_config_s option \<Rightarrow> u8 list option \<Rightarrow> u32 \<Rightarrow> rflow_err_t \<times> librflow_license_config_s option" where
  "librflow_license_config_set_buffer c data len =
     (if \<not> RFLOW_CHECK_HANDLE lic_magic c kMagicLicenseConfig then (RFLOW_ERR_PARAM, c)
      else if (data = None) \<noteq> (len = 0) then (RFLOW_ERR_PARAM, c)
      else (RFLOW_OK, map_option (\<lambda>x. x\<lparr>lic_buffer := take (unat len) (case_option [] id data),
                                        lic_file_path := []\<rparr>) c))"

text \<open>A license comes from a file or from memory, never from both.\<close>

lemma license_one_source:
  "fst (librflow_license_config_set_file c p) = RFLOW_OK \<Longrightarrow> lic_buffer (the (snd (librflow_license_config_set_file c p))) = []"
  "fst (librflow_license_config_set_buffer c d n) = RFLOW_OK \<Longrightarrow> lic_file_path (the (snd (librflow_license_config_set_buffer c d n))) = []"
  by (cases c; simp add: librflow_license_config_set_file_def librflow_license_config_set_buffer_def RFLOW_SET_FIELD_def
      split: if_splits)+

subsection \<open>Global configuration\<close>

type_synonym global_h = "librflow_global_config_s option"

definition librflow_global_config_create :: "bool \<Rightarrow> global_h" where
  "librflow_global_config_create alloc =
     (if alloc then Some (global_config_zero\<lparr>gc_magic := kMagicGlobalConfig, gc_has_log := False, gc_has_signal := False,
                            gc_has_license := False, gc_region := RFLOW_REGION_CN\<rparr>) else None)"

definition librflow_global_config_destroy :: "global_h \<Rightarrow> global_h" where
  "librflow_global_config_destroy c = (if RFLOW_CHECK_HANDLE gc_magic c kMagicGlobalConfig then None else c)"

definition librflow_global_config_set_log :: "global_h \<Rightarrow> librflow_log_config_s option \<Rightarrow> rflow_err_t \<times> global_h" where
  "librflow_global_config_set_log c lc =
     (if \<not> RFLOW_CHECK_HANDLE gc_magic c kMagicGlobalConfig then (RFLOW_ERR_PARAM, c)
      else case lc of
             None \<Rightarrow> (RFLOW_OK, map_option (\<lambda>x. x\<lparr>gc_has_log := False\<rparr>) c)
           | Some l \<Rightarrow> if lc_magic l \<noteq> kMagicLogConfig then (RFLOW_ERR_PARAM, c)
                       else (RFLOW_OK, map_option (\<lambda>x. x\<lparr>gc_has_log := True, gc_log := l\<lparr>lc_magic := kMagicLogConfig\<rparr>\<rparr>) c))"

definition librflow_global_config_set_signal :: "global_h \<Rightarrow> librflow_signal_config_s option \<Rightarrow> rflow_err_t \<times> global_h" where
  "librflow_global_config_set_signal c sc =
     (if \<not> RFLOW_CHECK_HANDLE gc_magic c kMagicGlobalConfig then (RFLOW_ERR_PARAM, c)
      else case sc of
             None \<Rightarrow> (RFLOW_OK, map_option (\<lambda>x. x\<lparr>gc_has_signal := False\<rparr>) c)
           | Some l \<Rightarrow> if sg_magic l \<noteq> kMagicSignalConfig then (RFLOW_ERR_PARAM, c)
                       else (RFLOW_OK, map_option (\<lambda>x. x\<lparr>gc_has_signal := True,
                              gc_signal := l\<lparr>sg_magic := kMagicSignalConfig\<rparr>\<rparr>) c))"

definition librflow_global_config_set_license :: "global_h \<Rightarrow> librflow_license_config_s option \<Rightarrow> rflow_err_t \<times> global_h" where
  "librflow_global_config_set_license c sc =
     (if \<not> RFLOW_CHECK_HANDLE gc_magic c kMagicGlobalConfig then (RFLOW_ERR_PARAM, c)
      else case sc of
             None \<Rightarrow> (RFLOW_OK, map_option (\<lambda>x. x\<lparr>gc_has_license := False\<rparr>) c)
           | Some l \<Rightarrow> if lic_magic l \<noteq> kMagicLicenseConfig then (RFLOW_ERR_PARAM, c)
                       else (RFLOW_OK, map_option (\<lambda>x. x\<lparr>gc_has_license := True,
                              gc_license := l\<lparr>lic_magic := kMagicLicenseConfig\<rparr>\<rparr>) c))"

definition librflow_global_config_set_config_path :: "global_h \<Rightarrow> string option \<Rightarrow> rflow_err_t \<times> global_h" where
  "librflow_global_config_set_config_path c path =
     RFLOW_SET_FIELD gc_magic c kMagicGlobalConfig (\<lambda>x. x\<lparr>gc_config_path := case_option [] id path\<rparr>)"

definition librflow_global_config_set_region :: "global_h \<Rightarrow> rflow_region_t \<Rightarrow> rflow_err_t \<times> global_h" where
  "librflow_global_config_set_region c r =
     RFLOW_SET_FIELD gc_magic c kMagicGlobalConfig (\<lambda>x. x\<lparr>gc_region := r\<rparr>)"

definition librflow_global_config_set_flexfec :: "global_h \<Rightarrow> rflow_global_flexfec_t \<Rightarrow> rflow_err_t \<times> global_h" where
  "librflow_global_config_set_flexfec c mode =
     (if \<not> RFLOW_CHECK_HANDLE gc_magic c kMagicGlobalConfig then (RFLOW_ERR_PARAM, c)
      else if mode \<noteq> RFLOW_GLOBAL_FLEXFEC_DEFAULT \<and> mode \<noteq> RFLOW_GLOBAL_FLEXFEC_OFF \<and> mode \<noteq> RFLOW_GLOBAL_FLEXFEC_ON
           then (RFLOW_ERR_PARAM, c)
           else (RFLOW_OK, map_option (\<lambda>x. x\<lparr>gc_flexfec := mode\<rparr>) c))"

definition librflow_global_config_get_flexfec ::
  "global_h \<Rightarrow> rflow_global_flexfec_t option \<Rightarrow> rflow_err_t \<times> rflow_global_flexfec_t option" where
  "librflow_global_config_get_flexfec c out =
     (if \<not> RFLOW_CHECK_HANDLE gc_magic c kMagicGlobalConfig then (RFLOW_ERR_PARAM, out)
      else if out = None then (RFLOW_ERR_PARAM, out)
      else (RFLOW_OK, Some (gc_flexfec (the c))))"

definition kIceIgnoreInterfacesMaxLen :: nat where "kIceIgnoreInterfacesMaxLen = 255"

definition librflow_global_config_set_ice_ignore_interfaces :: "global_h \<Rightarrow> string option \<Rightarrow> rflow_err_t \<times> global_h" where
  "librflow_global_config_set_ice_ignore_interfaces c csv =
     (if \<not> RFLOW_CHECK_HANDLE gc_magic c kMagicGlobalConfig then (RFLOW_ERR_PARAM, c)
      else case csv of
             None \<Rightarrow> (RFLOW_OK, map_option (\<lambda>x. x\<lparr>gc_has_ice_ignore_interfaces := False, gc_ice_ignore_interfaces := []\<rparr>) c)
           | Some s \<Rightarrow>
               if s = [] then (RFLOW_OK, map_option (\<lambda>x. x\<lparr>gc_has_ice_ignore_interfaces := False, gc_ice_ignore_interfaces := []\<rparr>) c)
               else if length s > kIceIgnoreInterfacesMaxLen then (RFLOW_ERR_PARAM, c)
               else (RFLOW_OK, map_option (\<lambda>x. x\<lparr>gc_has_ice_ignore_interfaces := True, gc_ice_ignore_interfaces := s\<rparr>) c))"

definition librflow_global_config_get_ice_ignore_interfaces ::
  "global_h \<Rightarrow> string option \<Rightarrow> u32 \<Rightarrow> u32 option \<Rightarrow> rflow_err_t \<times> string option \<times> u32 option" where
  "librflow_global_config_get_ice_ignore_interfaces c buf len needed =
     (if \<not> RFLOW_CHECK_HANDLE gc_magic c kMagicGlobalConfig then (RFLOW_ERR_PARAM, buf, needed)
      else if \<not> gc_has_ice_ignore_interfaces (the c) then (RFLOW_ERR_NOT_FOUND, buf, needed)
      else CopyOutString (gc_ice_ignore_interfaces (the c)) buf len needed)"

definition IsValidGlobalConfigHandle :: "global_h \<Rightarrow> bool" where
  "IsValidGlobalConfigHandle c \<longleftrightarrow> (case c of None \<Rightarrow> False | Some x \<Rightarrow> gc_magic x = kMagicGlobalConfig)"

definition CopyGlobalConfig :: "librflow_global_config_s \<Rightarrow> librflow_global_config_s" where
  "CopyGlobalConfig src = src\<lparr>gc_magic := kMagicGlobalConfig\<rparr>"

definition ApplyLogConfigIfPresent :: "librflow_global_config_s \<Rightarrow> Logger \<Rightarrow> Logger" where
  "ApplyLogConfigIfPresent cfg lg =
     (if \<not> gc_has_log cfg then lg
      else logger_apply (lc_level (gc_log cfg)) (lc_cb (gc_log cfg)) (lc_userdata (gc_log cfg)) lg)"

section \<open>ICE settings\<close>

definition isalnum :: "char \<Rightarrow> bool" where
  "isalnum c \<longleftrightarrow> isdigit c \<or> (of_char c :: nat) \<in> {65..90} \<or> (of_char c :: nat) \<in> {97..122}"

definition TrimAscii :: "string \<Rightarrow> string" where
  "TrimAscii s =
     (let start = length (takeWhile isspace s);
          rend = length s - length (takeWhile isspace (rev s))
      in if start \<ge> rend then [] else take (rend - start) (drop start s))"

definition name_char :: "char \<Rightarrow> bool" where
  "name_char c \<longleftrightarrow> isalnum c \<or> c = CHR ''_'' \<or> c = CHR ''-'' \<or> c = CHR ''.''"

definition IsPlausibleInterfaceName :: "string \<Rightarrow> bool" where
  "IsPlausibleInterfaceName name \<longleftrightarrow> name \<noteq> [] \<and> length name \<le> 32 \<and> list_all name_char name"

text \<open>Repeated \<^verbatim>\<open>std::getline(ss, token, ',')\<close>: no token after a final separator.\<close>

fun getline_tokens :: "string \<Rightarrow> string \<Rightarrow> string list" where
  "getline_tokens acc [] = (if acc = [] then [] else [acc])"
| "getline_tokens acc (c # cs) =
     (if c = CHR '','' then acc # getline_tokens [] cs else getline_tokens (acc @ [c]) cs)"

definition ParseCsvInternal :: "string option \<Rightarrow> string list" where
  "ParseCsvInternal csv =
     (case csv of None \<Rightarrow> []
      | Some s \<Rightarrow> filter (\<lambda>t. t \<noteq> [] \<and> IsPlausibleInterfaceName t) (map TrimAscii (getline_tokens [] s)))"

definition ReadEnvIceIgnoreList :: "env \<Rightarrow> KnobState \<Rightarrow> string list \<times> KnobState" where
  "ReadEnvIceIgnoreList env st =
     (let (csv, st') = ReadString env ''RFLOW_ICE_IGNORE_INTERFACES'' st
      in (ParseCsvInternal (if csv = [] then None else Some csv), st'))"

text \<open>Process-wide variables.\<close>

record Process =
  pr_logger :: Logger
  pr_error :: LastError
  pr_knobs :: KnobState
  g_flexfec_explicit :: "bool option"
  g_ice_ignore_explicit :: "string list option"
  g_field_trials :: "string option"

definition NotifyIceIgnoreInterfacesFromSdkConfig :: "string option \<Rightarrow> Process \<Rightarrow> Process" where
  "NotifyIceIgnoreInterfacesFromSdkConfig csv p =
     (case csv of None \<Rightarrow> p\<lparr>g_ice_ignore_explicit := None\<rparr>
      | Some _ \<Rightarrow> p\<lparr>g_ice_ignore_explicit := Some (ParseCsvInternal csv)\<rparr>)"

definition ResetIceIgnoreInterfacesSdkOverride :: "Process \<Rightarrow> Process" where
  "ResetIceIgnoreInterfacesSdkOverride p = p\<lparr>g_ice_ignore_explicit := None\<rparr>"

definition IceIgnoreInterfacesEffective :: "env \<Rightarrow> Process \<Rightarrow> string list \<times> Process" where
  "IceIgnoreInterfacesEffective env p =
     (case g_ice_ignore_explicit p of
        Some l \<Rightarrow> (l, p)
      | None \<Rightarrow> (let (l, st) = ReadEnvIceIgnoreList env (pr_knobs p) in (l, p\<lparr>pr_knobs := st\<rparr>)))"

record IceRtcServerConfig =
  ice_stun_server :: string
  ice_turn_server :: string
  ice_turn_username :: string
  ice_turn_password :: string
  ice_prioritize_likely_pairs :: bool
  ice_has_stun_server :: bool
  ice_has_turn_server :: bool

definition ice_config_init :: IceRtcServerConfig where
  "ice_config_init = \<lparr> ice_stun_server = [], ice_turn_server = [], ice_turn_username = [], ice_turn_password = [],
     ice_prioritize_likely_pairs = True, ice_has_stun_server = False, ice_has_turn_server = False \<rparr>"

text \<open>The members of WebRTC's \<^verbatim>\<open>IceServer\<close> and \<^verbatim>\<open>RTCConfiguration\<close> that the code assigns.\<close>

record IceServer =
  srv_urls :: "string list"
  srv_username :: string
  srv_password :: string

record RTCConfiguration =
  rtc_servers :: "IceServer list"
  rtc_disable_ipv6_on_wifi :: bool
  rtc_max_ipv6_networks :: int
  rtc_disable_link_local_networks :: bool
  rtc_max_bundle :: bool
  rtc_tcp_candidates_disabled :: bool
  rtc_dscp :: bool
  rtc_unified_plan :: bool
  rtc_prioritize_likely_pairs :: bool

definition AppendIceServer :: "string \<Rightarrow> string \<Rightarrow> string \<Rightarrow> IceServer list \<Rightarrow> IceServer list" where
  "AppendIceServer url username password servers =
     (if url = [] then servers
      else servers @ [\<lparr> srv_urls = [url], srv_username = username, srv_password = password \<rparr>])"

definition DefaultStunServerUrl :: string where
  "DefaultStunServerUrl = ''stun:stun.l.google.com:19302''"

definition BuildRtcConfiguration :: "IceRtcServerConfig \<Rightarrow> bool \<Rightarrow> bool \<Rightarrow> RTCConfiguration" where
  "BuildRtcConfiguration ice no_link_local no_ipv6_wifi =
     (let stun_url = (if ice_has_stun_server ice then ice_stun_server ice else DefaultStunServerUrl);
          s1 = AppendIceServer stun_url [] [] [];
          s2 = (if ice_has_turn_server ice \<and> ice_turn_server ice \<noteq> []
                then AppendIceServer (ice_turn_server ice) (ice_turn_username ice) (ice_turn_password ice) s1 else s1)
      in \<lparr> rtc_servers = s2, rtc_disable_ipv6_on_wifi = no_ipv6_wifi, rtc_max_ipv6_networks = 0,
           rtc_disable_link_local_networks = no_link_local, rtc_max_bundle = True,
           rtc_tcp_candidates_disabled = True, rtc_dscp = True, rtc_unified_plan = True,
           rtc_prioritize_likely_pairs = ice_prioritize_likely_pairs ice \<rparr>)"

section \<open>Field trials\<close>

definition FlexfecTrialEnabledEffective :: "env \<Rightarrow> Process \<Rightarrow> bool \<times> Process" where
  "FlexfecTrialEnabledEffective env p =
     (case g_flexfec_explicit p of
        Some b \<Rightarrow> (b, p)
      | None \<Rightarrow> (let (b, st) = ReadBool env ''RFLOW_ENABLE_FLEXFEC'' (pr_knobs p) in (b, p\<lparr>pr_knobs := st\<rparr>)))"

definition NotifyFlexfecTrialFromSdkConfig :: "bool \<Rightarrow> bool \<Rightarrow> Process \<Rightarrow> Process" where
  "NotifyFlexfecTrialFromSdkConfig explicitly_set enabled p =
     p\<lparr>g_flexfec_explicit := (if explicitly_set then Some enabled else None)\<rparr>"

definition ResetFlexfecTrialSdkOverride :: "Process \<Rightarrow> Process" where
  "ResetFlexfecTrialSdkOverride p = p\<lparr>g_flexfec_explicit := None\<rparr>"

definition ZeroPlayoutDelayTrialString :: "env \<Rightarrow> KnobState \<Rightarrow> string \<times> KnobState" where
  "ZeroPlayoutDelayTrialString env st =
     (let (pacing_ms, st1) = ReadInt env ''RFLOW_ZERO_PLAYOUT_MIN_PACING_MS'' st;
          (queue_max, st2) = ReadInt env ''RFLOW_MAX_DECODE_QUEUE_SIZE'' st1;
          (guard, st3) = ReadBool env ''RFLOW_ENABLE_DECODE_QUEUE_GUARD'' st2;
          (queue_max', st4) = (if guard
             then (let (cap, st') = ReadInt env ''RFLOW_DECODE_QUEUE_GUARD_CAP'' st3
                   in (if pacing_ms \<le> 2 \<and> queue_max > cap then cap else queue_max, st'))
             else (queue_max, st3))
      in (''WebRTC-ZeroPlayoutDelay/min_pacing:'' @ to_string pacing_ms
            @ ''ms,max_decode_queue_size:'' @ to_string queue_max' @ ''/'', st4))"

text \<open>\<^verbatim>\<open>std::call_once\<close>: the string is computed at the first call and kept for the process.\<close>

definition EnsureWebrtcFieldTrialsInitialized :: "env \<Rightarrow> Process \<Rightarrow> Process" where
  "EnsureWebrtcFieldTrialsInitialized env p =
     (case g_field_trials p of
        Some _ \<Rightarrow> p
      | None \<Rightarrow>
          let (zero, st1) = ZeroPlayoutDelayTrialString env (pr_knobs p);
              (fec, p1) = FlexfecTrialEnabledEffective env (p\<lparr>pr_knobs := st1\<rparr>);
              (extra, st2) = ReadString env ''RFLOW_FIELD_TRIALS_APPEND'' (pr_knobs p1)
          in p1\<lparr>pr_knobs := st2,
                g_field_trials := Some (
                  ''WebRTC-VideoFrameTrackingIdAdvertised/Enabled/'' @ ''WebRTC-ForcePlayoutDelay/min_ms:0,max_ms:60/''
                  @ zero @ ''WebRTC-Pacer-KeyframeFlushing/Enabled/'' @ ''WebRTC-Pacer-FastRetransmissions/Enabled/''
                  @ (if fec then ''WebRTC-FlexFEC-03-Advertised/Enabled/'' @ ''WebRTC-FlexFEC-03/Enabled/'' else [])
                  @ ''WebRTC-GenericPictureId/Enabled/'' @ extra)\<rparr>)"

lemma field_trials_once:
  "g_field_trials p = Some t \<Longrightarrow> EnsureWebrtcFieldTrialsInitialized env p = p"
  by (simp add: EnsureWebrtcFieldTrialsInitialized_def)

section \<open>The interface list\<close>

lemma TrimAscii_trimmed: "TrimAscii s = trimmed s"
  using TrimCopyToken_trimmed [of s] by (simp add: TrimAscii_def TrimCopyToken_def)

lemma name_char_facts: "name_char c \<Longrightarrow> \<not> isspace c \<and> c \<noteq> CHR '',''"
  by (auto simp: name_char_def isalnum_def isdigit_def isspace_def)

lemma plausible_chars: "IsPlausibleInterfaceName n \<Longrightarrow> c \<in> set n \<Longrightarrow> \<not> isspace c \<and> c \<noteq> CHR '',''"
  using name_char_facts by (auto simp: IsPlausibleInterfaceName_def list_all_iff)

lemma trimmed_no_space:
  assumes "\<forall>c \<in> set s. \<not> isspace c"
  shows "trimmed (CHR '' '' # s) = s" and "trimmed s = s"
proof -
  have d: "dropWhile isspace t = t" if "\<forall>c \<in> set t. \<not> isspace c" for t
    using that by (cases t) auto
  have sp: "isspace (CHR '' '')" by (simp add: isspace_def)
  show "trimmed (CHR '' '' # s) = s" "trimmed s = s"
    using assms d [of s] d [of "rev s"] sp by (simp_all add: trimmed_def)
qed

lemma getline_tokens_block:
  "CHR '','' \<notin> set x \<Longrightarrow> getline_tokens acc (x @ CHR '','' # r) = (acc @ x) # getline_tokens [] r"
  by (induction x arbitrary: acc) auto

lemma getline_tokens_last:
  "CHR '','' \<notin> set x \<Longrightarrow> acc @ x \<noteq> [] \<Longrightarrow> getline_tokens acc x = [acc @ x]"
  by (induction x arbitrary: acc) auto

text \<open>The list as an integrator writes it: names separated by a comma and a blank.\<close>

fun join_names :: "string list \<Rightarrow> string" where
  "join_names [] = []"
| "join_names [n] = n"
| "join_names (n # m # ns) = n @ '','' @ '' '' @ join_names (m # ns)"

lemma parse_joined_from:
  assumes "list_all IsPlausibleInterfaceName (n # ns)" and "pre = [] \<or> pre = '' ''"
  shows "filter (\<lambda>t. t \<noteq> [] \<and> IsPlausibleInterfaceName t) (map TrimAscii (getline_tokens [] (pre @ join_names (n # ns)))) = n # ns"
  using assms
proof (induction ns arbitrary: n pre)
  case Nil
  have n: "IsPlausibleInterfaceName n" "n \<noteq> []" using Nil by (auto simp: IsPlausibleInterfaceName_def)
  have nospace: "\<forall>c \<in> set n. \<not> isspace c" and nocomma: "CHR '','' \<notin> set n" using plausible_chars [OF n(1)] by auto
  have "getline_tokens [] (pre @ n) = [pre @ n]"
    using nocomma n(2) Nil.prems(2) by (intro getline_tokens_last [of _ "[]", simplified]) auto
  moreover have "TrimAscii (pre @ n) = n"
    using Nil.prems(2) trimmed_no_space [OF nospace] by (auto simp: TrimAscii_trimmed)
  ultimately show ?case using n by simp
next
  case (Cons m ms)
  have n: "IsPlausibleInterfaceName n" "n \<noteq> []" using Cons.prems by (auto simp: IsPlausibleInterfaceName_def)
  have nospace: "\<forall>c \<in> set n. \<not> isspace c" and nocomma: "CHR '','' \<notin> set n" using plausible_chars [OF n(1)] by auto
  have "getline_tokens [] (pre @ join_names (n # m # ms)) = (pre @ n) # getline_tokens [] ('' '' @ join_names (m # ms))"
    using getline_tokens_block [of "pre @ n" "[]" "'' '' @ join_names (m # ms)"] nocomma Cons.prems(2) by auto
  moreover have "TrimAscii (pre @ n) = n"
    using Cons.prems(2) trimmed_no_space [OF nospace] by (auto simp: TrimAscii_trimmed)
  moreover have "filter (\<lambda>t. t \<noteq> [] \<and> IsPlausibleInterfaceName t)
      (map TrimAscii (getline_tokens [] ('' '' @ join_names (m # ms)))) = m # ms"
    using Cons.prems(1) by (intro Cons.IH) simp_all
  ultimately show ?case using n by simp
qed

lemma parse_joined:
  assumes "list_all IsPlausibleInterfaceName ns"
  shows "ParseCsvInternal (Some (join_names ns)) = ns"
proof (cases ns)
  case (Cons n ms)
  then show ?thesis using parse_joined_from [of n ms "[]"] assms by (simp add: ParseCsvInternal_def)
qed (simp add: ParseCsvInternal_def)

lemma parse_plausible: "n \<in> set (ParseCsvInternal csv) \<Longrightarrow> IsPlausibleInterfaceName n"
  by (auto simp: ParseCsvInternal_def split: option.splits)

end
