(* ===== verification/Service_Publisher.thy ===== *)
theory Service_Publisher
  imports Service_Params Sdk_Config Signal_Session
begin

text \<open>
  From stream parameters to a running publisher: the service's handles and state
  (\<^verbatim>\<open>src/service/internal/handles.h\<close>, \<^verbatim>\<open>state.h\<close>), the start-up policy that resolves a
  stream's parameters (\<^verbatim>\<open>stream_startup_policy.cpp\<close>), the publisher object
  (\<^verbatim>\<open>src/service/impl/publisher.cpp\<close>) and its signaling adapter
  (\<^verbatim>\<open>src/service/impl/signaling/signaling_client.cpp\<close>).

  The build with \<^verbatim>\<open>RFLOW_SVC_WEBRTC_IMPL\<close> is modelled. The push streamer is a component of its own (\<^verbatim>\<open>Push_Streamer\<close>): here, whether it starts
  and whether it takes a frame are arguments, and the publisher keeps the configuration it was
  created with.
\<close>

section \<open>Handles and state\<close>

definition svc_kMagicConnectInfo :: u32 where "svc_kMagicConnectInfo = 0x52735349"
definition svc_kMagicConnectCb :: u32 where "svc_kMagicConnectCb = 0x52735343"
definition svc_kMagicStream :: u32 where "svc_kMagicStream = 0x52735348"
definition kMagicLicenseInfo :: u32 where "kMagicLicenseInfo = 0x52734C49"

record librflow_svc_connect_info_s =
  ci_magic :: u32
  ci_device_id :: string
  ci_device_secret :: string
  ci_product_key :: string
  ci_vendor_id :: string

record librflow_svc_connect_cb_s =
  cc_magic :: u32
  cc_on_state :: fn_ptr
  cc_on_bind_state :: fn_ptr
  cc_on_notice :: fn_ptr
  cc_on_service_req :: fn_ptr
  cc_on_pull_request :: fn_ptr
  cc_on_pull_release :: fn_ptr
  cc_userdata :: nat

datatype rflow_stream_state_t =
    RFLOW_STREAM_IDLE | RFLOW_STREAM_OPENING | RFLOW_STREAM_OPENED
  | RFLOW_STREAM_CLOSING | RFLOW_STREAM_CLOSED | RFLOW_STREAM_FAILED

datatype LifecycleState = kUninit | kInited | kConnecting | kConnected

section \<open>Signaling adapter\<close>

definition MakeSessionConfig :: "string \<Rightarrow> string \<Rightarrow> string \<Rightarrow> SessionConfig" where
  "MakeSessionConfig server_addr role stream_id =
     \<lparr> sc_server_addr = server_addr,
       sc_registration = default_registration\<lparr>reg_role := PeerRoleFromString role,
          reg_stream_id := (if stream_id = [] then ''livestream'' else stream_id)\<rparr>,
       sc_remember_last_remote_peer = True \<rparr>"

text \<open>The client's role, stream and the configuration of its session.\<close>

record SignalingClient =
  sgc_role :: string
  sgc_stream_id :: string
  sgc_session :: SessionConfig

definition new_SignalingClient :: "string \<Rightarrow> string \<Rightarrow> string \<Rightarrow> SignalingClient" where
  "new_SignalingClient server_addr role stream_id =
     (let sid = (if stream_id = [] then ''livestream'' else stream_id)
      in \<lparr> sgc_role = role, sgc_stream_id = sid, sgc_session = MakeSessionConfig server_addr role sid \<rparr>)"

definition RoleIsPublisher :: "SignalingClient \<Rightarrow> bool" where
  "RoleIsPublisher c \<longleftrightarrow> sgc_role c = ''publisher''"

text \<open>The message handed to the session's \<^verbatim>\<open>Send\<close>, if any.\<close>

definition SendOffer :: "SignalingClient \<Rightarrow> string \<Rightarrow> string \<Rightarrow> Message option" where
  "SendOffer c sdp to_peer_id =
     (let msg = default_message\<lparr>m_type := kOffer, m_to := to_peer_id, m_sdp := sdp\<rparr>
      in if RoleIsPublisher c \<and> m_to msg = [] then None else Some msg)"

definition SendAnswer :: "SignalingClient \<Rightarrow> string \<Rightarrow> string \<Rightarrow> Message option" where
  "SendAnswer c sdp to_peer_id = Some (default_message\<lparr>m_type := kAnswer, m_to := to_peer_id, m_sdp := sdp\<rparr>)"

definition SendIceCandidate :: "SignalingClient \<Rightarrow> string \<Rightarrow> int \<Rightarrow> string \<Rightarrow> string \<Rightarrow> Message option" where
  "SendIceCandidate c mid mline_index candidate to_peer_id =
     Some (default_message\<lparr>m_type := kIce, m_to := to_peer_id, m_mid := mid, m_mline_index := mline_index,
                           m_candidate := candidate\<rparr>)"

datatype signal_callback =
    OnSubscriberJoin string
  | OnSubscriberLeave string
  | OnAnswer string string string
  | OnOffer string string string
  | OnIce string string int string

definition OnSignalMessage :: "Message \<Rightarrow> signal_callback option" where
  "OnSignalMessage msg =
     (case m_type msg of
        kSubscriberJoin \<Rightarrow> Some (OnSubscriberJoin (m_from msg))
      | kSubscriberLeave \<Rightarrow> Some (OnSubscriberLeave (m_from msg))
      | kAnswer \<Rightarrow> Some (OnAnswer (m_from msg) ''answer'' (m_sdp msg))
      | kOffer \<Rightarrow> Some (OnOffer (m_from msg) ''offer'' (m_sdp msg))
      | kIce \<Rightarrow> if m_candidate msg \<noteq> [] then Some (OnIce (m_from msg) (m_mid msg) (m_mline_index msg) (m_candidate msg))
                else None
      | _ \<Rightarrow> None)"

section \<open>The publisher\<close>

record PublisherPullCallbacks =
  pc_on_pull_request :: fn_ptr
  pc_on_pull_release :: fn_ptr
  pc_on_connect_state :: fn_ptr
  pc_userdata :: nat

definition no_pull_callbacks :: PublisherPullCallbacks where
  "no_pull_callbacks = \<lparr> pc_on_pull_request = None, pc_on_pull_release = None, pc_on_connect_state = None, pc_userdata = 0 \<rparr>"

record PublisherMediaOptions =
  mo_h264_profile :: "string option"
  mo_h264_level :: "string option"
  mo_keyframe_gop_frames :: "int option"
  mo_ice_prioritize_likely_pairs :: "bool option"
  mo_stun_server :: "string option"
  mo_turn_server :: "string option"
  mo_turn_username :: "string option"
  mo_turn_password :: "string option"
  mo_video_network_priority :: "string option"
  mo_video_encoding_max_framerate :: "int option"
  mo_capture_warmup_sec :: "int option"
  mo_capture_gate_min_frames :: "int option"
  mo_capture_gate_max_wait_sec :: "int option"
  mo_bitrate_mode :: "rflow_bitrate_mode_t option"

definition no_media_options :: PublisherMediaOptions where
  "no_media_options = \<lparr> mo_h264_profile = None, mo_h264_level = None, mo_keyframe_gop_frames = None,
     mo_ice_prioritize_likely_pairs = None, mo_stun_server = None, mo_turn_server = None, mo_turn_username = None,
     mo_turn_password = None, mo_video_network_priority = None, mo_video_encoding_max_framerate = None,
     mo_capture_warmup_sec = None, mo_capture_gate_min_frames = None, mo_capture_gate_max_wait_sec = None,
     mo_bitrate_mode = None \<rparr>"

record PushStreamerCommonConfig =
  ps_stream_id :: string
  ps_video_width :: int
  ps_video_height :: int
  ps_video_fps :: int
  ps_video_device_index :: int
  ps_video_device_path :: string
  ps_test_capture_only :: bool
  ps_test_encode_mode :: bool
  ps_signaling_subscriber_offer_only :: bool
  ps_use_external_video_source :: bool
  ps_stun_server :: string
  ps_turn_server :: string
  ps_turn_username :: string
  ps_turn_password :: string
  ps_has_stun_server :: bool
  ps_has_turn_server :: bool
  ps_bitrate_mode :: string
  ps_target_bitrate_kbps :: int
  ps_min_bitrate_kbps :: int
  ps_max_bitrate_kbps :: int
  ps_degradation_preference :: string
  ps_ice_prioritize_likely_pairs :: bool
  ps_video_network_priority :: string
  ps_video_encoding_max_framerate :: int
  ps_video_codec :: string
  ps_h264_profile :: string
  ps_h264_level :: string
  ps_keyframe_interval :: int
  ps_capture_warmup_sec :: int
  ps_capture_gate_min_frames :: int
  ps_capture_gate_max_wait_sec :: int

definition push_common_init :: PushStreamerCommonConfig where
  "push_common_init = \<lparr> ps_stream_id = ''stream_001'', ps_video_width = 1280, ps_video_height = 720, ps_video_fps = 60,
     ps_video_device_index = 0, ps_video_device_path = [], ps_test_capture_only = False, ps_test_encode_mode = False,
     ps_signaling_subscriber_offer_only = False,
     ps_use_external_video_source = False, ps_stun_server = ''stun:stun.l.google.com:19302'', ps_turn_server = [],
     ps_turn_username = [], ps_turn_password = [], ps_has_stun_server = False, ps_has_turn_server = False,
     ps_bitrate_mode = ''vbr'', ps_target_bitrate_kbps = 1000, ps_min_bitrate_kbps = 100, ps_max_bitrate_kbps = 2000,
     ps_degradation_preference = ''maintain_framerate'', ps_ice_prioritize_likely_pairs = True,
     ps_video_network_priority = ''high'', ps_video_encoding_max_framerate = 0, ps_video_codec = ''h264'',
     ps_h264_profile = ''main'', ps_h264_level = ''3.0'', ps_keyframe_interval = 0, ps_capture_warmup_sec = 0,
     ps_capture_gate_min_frames = 0, ps_capture_gate_max_wait_sec = 20 \<rparr>"

definition push_backend_init :: PushStreamerBackendConfig where
  "push_backend_init = \<lparr> be_mjpeg_queue_latest_only = True, be_v4l2_buffer_count = 2, be_mjpeg_queue_max = 2,
     be_nv12_pool_slots = 4, be_v4l2_poll_timeout_ms = 5, be_mjpeg_decode_inline = False \<rparr>"

record Publisher =
  pb_stream_idx :: int
  pb_in_codec :: rflow_codec_t
  pb_stream_id_str :: string
  pb_signaling_url :: string
  pb_device_id :: string
  pb_width :: int
  pb_height :: int
  pb_fps :: int
  pb_target_kbps :: int
  pb_min_kbps :: int
  pb_max_kbps :: int
  pb_video_codec :: string
  pb_use_internal_video_source :: bool
  pb_video_device_path :: string
  pb_video_device_index :: int
  pb_degradation_pref_override :: "string option"
  pb_media_opts :: PublisherMediaOptions
  pb_cbs :: PublisherPullCallbacks
  pb_streamer :: "(PushStreamerCommonConfig \<times> PushStreamerBackendConfig) option"
  pb_signaling :: "SignalingClient option"
  pb_pump_running :: bool
  pb_video_frames_pushed :: u64

definition tolower :: "char \<Rightarrow> char" where
  "tolower c = (let n = (of_char c :: nat) in if 65 \<le> n \<and> n \<le> 90 then char_of (n + 32) else c)"

definition LowerCopy :: "string \<Rightarrow> string" where
  "LowerCopy s = map tolower s"

definition positive_or :: "int \<Rightarrow> int \<Rightarrow> int" where
  "positive_or d v = (if v > 0 then v else d)"

definition new_Publisher ::
  "int \<Rightarrow> rflow_codec_t \<Rightarrow> string \<Rightarrow> string \<Rightarrow> string \<Rightarrow> int \<Rightarrow> int \<Rightarrow> int \<Rightarrow> int \<Rightarrow> int \<Rightarrow> int \<Rightarrow> string \<Rightarrow> bool \<Rightarrow> string \<Rightarrow> int
     \<Rightarrow> string option \<Rightarrow> PublisherMediaOptions \<Rightarrow> PublisherPullCallbacks \<Rightarrow> Publisher" where
  "new_Publisher stream_idx in_codec stream_id url device width height fps target min_kbps max_kbps codec internal path index
       degradation opts cbs =
     \<lparr> pb_stream_idx = stream_idx, pb_in_codec = in_codec, pb_stream_id_str = stream_id, pb_signaling_url = url,
       pb_device_id = device, pb_width = positive_or 1280 width, pb_height = positive_or 720 height,
       pb_fps = positive_or 30 fps, pb_target_kbps = positive_or 1000 target, pb_min_kbps = positive_or 100 min_kbps,
       pb_max_kbps = positive_or 2000 max_kbps,
       pb_video_codec = (if codec = [] then ''h264'' else LowerCopy codec),
       pb_use_internal_video_source = internal, pb_video_device_path = path,
       pb_video_device_index = (if index \<ge> 0 then index else 0),
       pb_degradation_pref_override = degradation, pb_media_opts = opts, pb_cbs = cbs,
       pb_streamer = None, pb_signaling = None, pb_pump_running = False, pb_video_frames_pushed = 0 \<rparr>"

definition opt :: "'a option \<Rightarrow> ('a \<Rightarrow> 'c \<Rightarrow> 'c) \<Rightarrow> 'c \<Rightarrow> 'c" where
  "opt v f c = (case v of None \<Rightarrow> c | Some x \<Rightarrow> f x c)"

text \<open>The first part of \<^verbatim>\<open>Publisher::Start\<close>: the configuration handed to the push streamer.\<close>

definition publisher_base_config :: "Publisher \<Rightarrow> PushStreamerCommonConfig" where
  "publisher_base_config p =
     push_common_init\<lparr>ps_stream_id := pb_stream_id_str p, ps_video_width := pb_width p, ps_video_height := pb_height p,
       ps_video_fps := pb_fps p, ps_use_external_video_source := \<not> pb_use_internal_video_source p,
       ps_video_device_path := pb_video_device_path p, ps_video_device_index := pb_video_device_index p,
       ps_signaling_subscriber_offer_only := True, ps_target_bitrate_kbps := pb_target_kbps p,
       ps_min_bitrate_kbps := pb_min_kbps p, ps_max_bitrate_kbps := pb_max_kbps p,
       ps_video_codec := pb_video_codec p, ps_bitrate_mode := ''vbr''\<rparr>"

definition pin_bitrate :: "PushStreamerCommonConfig \<Rightarrow> PushStreamerCommonConfig" where
  "pin_bitrate c = c\<lparr>ps_bitrate_mode := ''cbr'', ps_min_bitrate_kbps := ps_target_bitrate_kbps c,
                     ps_max_bitrate_kbps := ps_target_bitrate_kbps c\<rparr>"

definition apply_bitrate_mode :: "Publisher \<Rightarrow> PushStreamerCommonConfig \<Rightarrow> PushStreamerCommonConfig" where
  "apply_bitrate_mode p c =
     (case mo_bitrate_mode (pb_media_opts p) of
        Some m \<Rightarrow> if m = RFLOW_BITRATE_MODE_CBR then pin_bitrate c else c\<lparr>ps_bitrate_mode := ''vbr''\<rparr>
      | None \<Rightarrow> if pb_min_kbps p = pb_max_kbps p then pin_bitrate c else c)"

definition apply_media_opts :: "PublisherMediaOptions \<Rightarrow> PushStreamerCommonConfig \<Rightarrow> PushStreamerCommonConfig" where
  "apply_media_opts m c0 =
     (let c1 = opt (mo_h264_profile m) (\<lambda>v c. c\<lparr>ps_h264_profile := LowerCopy v\<rparr>) c0;
          c2 = opt (mo_h264_level m) (\<lambda>v c. c\<lparr>ps_h264_level := LowerCopy v\<rparr>) c1;
          c3 = opt (mo_keyframe_gop_frames m) (\<lambda>v c. c\<lparr>ps_keyframe_interval := v\<rparr>) c2;
          c4 = opt (mo_ice_prioritize_likely_pairs m) (\<lambda>v c. c\<lparr>ps_ice_prioritize_likely_pairs := v\<rparr>) c3;
          c5 = opt (mo_stun_server m) (\<lambda>v c. c\<lparr>ps_stun_server := v, ps_has_stun_server := True\<rparr>) c4;
          c6 = opt (mo_turn_server m) (\<lambda>v c. c\<lparr>ps_turn_server := v, ps_turn_username := case_option [] id (mo_turn_username m),
                  ps_turn_password := case_option [] id (mo_turn_password m), ps_has_turn_server := True\<rparr>) c5;
          c7 = opt (mo_video_network_priority m) (\<lambda>v c. c\<lparr>ps_video_network_priority := LowerCopy v\<rparr>) c6;
          c8 = opt (mo_video_encoding_max_framerate m) (\<lambda>v c. c\<lparr>ps_video_encoding_max_framerate := v\<rparr>) c7;
          c9 = opt (mo_capture_warmup_sec m) (\<lambda>v c. c\<lparr>ps_capture_warmup_sec := v\<rparr>) c8;
          c10 = opt (mo_capture_gate_min_frames m) (\<lambda>v c. c\<lparr>ps_capture_gate_min_frames := v\<rparr>) c9
      in opt (mo_capture_gate_max_wait_sec m) (\<lambda>v c. c\<lparr>ps_capture_gate_max_wait_sec := v\<rparr>) c10)"

definition publisher_config :: "env \<Rightarrow> Publisher \<Rightarrow> PushStreamerCommonConfig \<times> PushStreamerBackendConfig" where
  "publisher_config env p =
     (let c1 = apply_bitrate_mode p (publisher_base_config p);
          c2 = opt (pb_degradation_pref_override p) (\<lambda>v c. c\<lparr>ps_degradation_preference := LowerCopy v\<rparr>) c1;
          c3 = apply_media_opts (pb_media_opts p) c2
      in (c3, ApplyCaptureFpsPipelineDefaults env push_backend_init (ps_video_fps c3)))"

text \<open>\<open>signaling_ok\<close> and \<open>streamer_ok\<close> are what the two \<^verbatim>\<open>Start\<close> calls return.\<close>

definition publisher_Start :: "env \<Rightarrow> bool \<Rightarrow> bool \<Rightarrow> Publisher \<Rightarrow> bool \<times> Publisher" where
  "publisher_Start env signaling_ok streamer_ok p =
     (if pb_streamer p \<noteq> None then (True, p)
      else let p1 = p\<lparr>pb_streamer := Some (publisher_config env p),
                      pb_signaling := Some (new_SignalingClient (pb_signaling_url p) ''publisher'' (pb_stream_id_str p))\<rparr>
           in if \<not> signaling_ok then (False, p1\<lparr>pb_signaling := None, pb_streamer := None\<rparr>)
              else if \<not> streamer_ok then (False, p1\<lparr>pb_signaling := None, pb_streamer := None\<rparr>)
              else (True, p1\<lparr>pb_pump_running := True\<rparr>))"

text \<open>The offer pump is a component of its own; the publisher starts it last and stops it first.\<close>

definition publisher_Stop :: "Publisher \<Rightarrow> Publisher" where
  "publisher_Stop p = p\<lparr>pb_pump_running := False, pb_streamer := None, pb_signaling := None\<rparr>"

definition publisher_Push :: "bool \<Rightarrow> Publisher \<Rightarrow> bool \<times> Publisher" where
  "publisher_Push taken p =
     (if pb_streamer p = None then (False, p)
      else if taken then (True, p\<lparr>pb_video_frames_pushed := pb_video_frames_pushed p + 1\<rparr>)
      else (False, p))"

definition uses_external_video_source :: "Publisher \<Rightarrow> bool" where
  "uses_external_video_source p \<longleftrightarrow> \<not> pb_use_internal_video_source p"

datatype publisher_action =
    QueueOffer string
  | CallPullRequest nat int nat
  | CallPullRelease nat int nat
  | ClosePeer string
  | SetRemoteAnswer string string string
  | AddRemoteIce string string int string

definition call_opt :: "fn_ptr \<Rightarrow> (nat \<Rightarrow> 'a) \<Rightarrow> 'a list" where
  "call_opt f mk = (case f of None \<Rightarrow> [] | Some n \<Rightarrow> [mk n])"

text \<open>The callbacks \<^verbatim>\<open>Start\<close> installs on the signaling client; an offer has no handler.\<close>

definition publisher_on_signal :: "Publisher \<Rightarrow> signal_callback \<Rightarrow> publisher_action list" where
  "publisher_on_signal p cb =
     (case cb of
        OnSubscriberJoin peer \<Rightarrow> QueueOffer peer #
          call_opt (pc_on_pull_request (pb_cbs p)) (\<lambda>f. CallPullRequest f (pb_stream_idx p) (pc_userdata (pb_cbs p)))
      | OnSubscriberLeave peer \<Rightarrow> (if pb_streamer p \<noteq> None then [ClosePeer peer] else []) @
          call_opt (pc_on_pull_release (pb_cbs p)) (\<lambda>f. CallPullRelease f (pb_stream_idx p) (pc_userdata (pb_cbs p)))
      | OnAnswer peer type sdp \<Rightarrow> if pb_streamer p \<noteq> None then [SetRemoteAnswer peer type sdp] else []
      | OnIce peer mid idx cand \<Rightarrow> if pb_streamer p \<noteq> None then [AddRemoteIce peer mid idx cand] else []
      | OnOffer _ _ _ \<Rightarrow> [])"

section \<open>The start-up policy\<close>

record librflow_svc_stream_s =
  st_magic :: u32
  st_stream_idx :: int
  st_state :: rflow_stream_state_t
  st_param :: librflow_svc_stream_param_s
  st_cb :: librflow_svc_stream_cb_s
  st_started :: bool
  st_started_at :: "u64 option"
  st_impl :: "Publisher option"

text \<open>The mutex is left out: each public call is one step.\<close>

record SvcState =
  sv_lifecycle :: LifecycleState
  sv_global_config :: librflow_global_config_s
  sv_connect_info :: librflow_svc_connect_info_s
  sv_connect_cb :: librflow_svc_connect_cb_s
  sv_has_connect_cb :: bool
  sv_streams :: "(nat \<times> librflow_svc_stream_s) list"

record ServiceDefaultParams =
  df_default_fps :: int
  df_default_bitrate_kbps :: int
  df_default_min_bitrate_kbps :: int
  df_default_max_bitrate_kbps :: int
  df_prefer_internal_video_source :: bool

definition GetServiceDefaultParams :: ServiceDefaultParams where
  "GetServiceDefaultParams = \<lparr> df_default_fps = 30, df_default_bitrate_kbps = 0, df_default_min_bitrate_kbps = 0,
     df_default_max_bitrate_kbps = 0, df_prefer_internal_video_source = False \<rparr>"

definition CodecToString :: "rflow_codec_t \<Rightarrow> string" where
  "CodecToString c = (case c of RFLOW_CODEC_H264 \<Rightarrow> ''h264'' | RFLOW_CODEC_H265 \<Rightarrow> ''h265''
     | RFLOW_CODEC_MJPEG \<Rightarrow> ''mjpeg'' | _ \<Rightarrow> ''h264'')"

definition DegradationPreferenceToConfigLiteral :: "rflow_degradation_preference_t \<Rightarrow> string option" where
  "DegradationPreferenceToConfigLiteral v = (case v of
       RFLOW_DEGRADATION_MAINTAIN_FRAMERATE \<Rightarrow> Some ''maintain_framerate''
     | RFLOW_DEGRADATION_MAINTAIN_RESOLUTION \<Rightarrow> Some ''maintain_resolution''
     | RFLOW_DEGRADATION_BALANCED \<Rightarrow> Some ''balanced''
     | degradation_value _ \<Rightarrow> None)"

definition NetworkPriorityToConfigLiteral :: "rflow_svc_network_priority_t \<Rightarrow> string option" where
  "NetworkPriorityToConfigLiteral v = (case v of
       RFLOW_SVC_NETWORK_PRIORITY_VERY_LOW \<Rightarrow> Some ''very_low''
     | RFLOW_SVC_NETWORK_PRIORITY_LOW \<Rightarrow> Some ''low''
     | RFLOW_SVC_NETWORK_PRIORITY_MEDIUM \<Rightarrow> Some ''medium''
     | RFLOW_SVC_NETWORK_PRIORITY_HIGH \<Rightarrow> Some ''high''
     | network_priority_value _ \<Rightarrow> None)"

record ResolvedPublisherStartup =
  rs_width :: int
  rs_height :: int
  rs_fps :: int
  rs_bitrate_kbps_target :: int
  rs_bitrate_kbps_min :: int
  rs_bitrate_kbps_max :: int
  rs_video_codec :: string
  rs_use_internal_video_source :: bool
  rs_video_device_path :: string
  rs_video_device_index :: int
  rs_signal_url :: string
  rs_device_id :: string
  rs_stream_id :: string
  rs_degradation_pref_explicit :: "string option"
  rs_h264_profile :: "string option"
  rs_h264_level :: "string option"
  rs_keyframe_gop :: "int option"
  rs_ice_prioritize_likely_pairs :: "bool option"
  rs_stun_server :: "string option"
  rs_turn_server :: "string option"
  rs_turn_username :: "string option"
  rs_turn_password :: "string option"
  rs_video_network_priority :: "string option"
  rs_video_encoding_max_framerate :: "int option"
  rs_capture_warmup_sec :: "int option"
  rs_capture_gate_min_frames :: "int option"
  rs_capture_gate_max_wait_sec :: "int option"
  rs_bitrate_mode :: "rflow_bitrate_mode_t option"

definition flagged :: "bool \<Rightarrow> 'a \<Rightarrow> 'a option" where
  "flagged h v = (if h then Some v else None)"

text \<open>\<^verbatim>\<open>static_cast<int>\<close> of a \<^verbatim>\<open>uint32_t\<close> is the signed reading of the word.\<close>

definition ResolvePublisherStartup :: "librflow_svc_stream_s \<Rightarrow> SvcState \<Rightarrow> int \<Rightarrow> ResolvedPublisherStartup" where
  "ResolvePublisherStartup stream s stream_idx =
     (let p = st_param stream; knobs = GetServiceDefaultParams;
          width = sint (if sp_has_out_size p then sp_out_w p else if sp_has_src_size p then sp_src_w p else 0);
          height = sint (if sp_has_out_size p then sp_out_h p else if sp_has_src_size p then sp_src_h p else 0);
          fps = sint (if sp_has_fps p then sp_fps p else of_int (df_default_fps knobs));
          target = sint (if sp_has_bitrate p then sp_bitrate_kbps p else of_int (df_default_bitrate_kbps knobs));
          max0 = sint (if sp_has_bitrate p then sp_max_bitrate_kbps p else 0);
          max1 = (if max0 = 0 then df_default_max_bitrate_kbps knobs else max0);
          max2 = (if max1 = 0 then target else max1);
          min0 = sint (if sp_has_dynamic_bitrate p then sp_lowest_kbps p else of_int (df_default_min_bitrate_kbps knobs));
          device = (if ci_device_id (sv_connect_info s) = [] then RFLOW_DEFAULT_DEVICE_ID else ci_device_id (sv_connect_info s))
      in \<lparr> rs_width = width, rs_height = height, rs_fps = fps, rs_bitrate_kbps_target = target,
           rs_bitrate_kbps_min = min0, rs_bitrate_kbps_max = max2,
           rs_video_codec = CodecToString (if sp_has_out_codec p then sp_out_codec p else RFLOW_CODEC_H264),
           rs_use_internal_video_source =
             (sp_has_video_device_path p \<or> sp_has_video_device_index p \<or> df_prefer_internal_video_source knobs),
           rs_video_device_path = (if sp_has_video_device_path p then sp_video_device_path p else []),
           rs_video_device_index = (if sp_has_video_device_index p then sint (sp_video_device_index p) else 0),
           rs_signal_url = (if gc_has_signal (sv_global_config s) then sg_url (gc_signal (sv_global_config s)) else []),
           rs_device_id = device, rs_stream_id = device @ '':'' @ to_string stream_idx,
           rs_degradation_pref_explicit =
             (if sp_has_degradation_preference p then DegradationPreferenceToConfigLiteral (sp_degradation_preference p) else None),
           rs_h264_profile = flagged (sp_has_h264_profile p) (sp_h264_profile p),
           rs_h264_level = flagged (sp_has_h264_level p) (sp_h264_level p),
           rs_keyframe_gop = flagged (sp_has_gop p) (sint (sp_gop p)),
           rs_ice_prioritize_likely_pairs = flagged (sp_has_ice_prioritize_likely_pairs p) (sp_ice_prioritize_likely_pairs p),
           rs_stun_server = flagged (sp_has_stun_server p) (sp_stun_server p),
           rs_turn_server = flagged (sp_has_turn_server p) (sp_turn_server p),
           rs_turn_username = flagged (sp_has_turn_server p) (sp_turn_username p),
           rs_turn_password = flagged (sp_has_turn_server p) (sp_turn_password p),
           rs_video_network_priority =
             (if sp_has_video_network_priority p then NetworkPriorityToConfigLiteral (sp_video_network_priority p) else None),
           rs_video_encoding_max_framerate = flagged (sp_has_video_encoding_max_fps p) (sint (sp_video_encoding_max_fps p)),
           rs_capture_warmup_sec = flagged (sp_has_capture_warmup_sec p) (sint (sp_capture_warmup_sec p)),
           rs_capture_gate_min_frames = flagged (sp_has_capture_gate p) (sint (sp_capture_gate_min_frames p)),
           rs_capture_gate_max_wait_sec = flagged (sp_has_capture_gate p) (sint (sp_capture_gate_max_wait_sec p)),
           rs_bitrate_mode =
             (if sp_has_bitrate_mode p then Some (sp_bitrate_mode p)
              else if sp_has_rc_mode p
              then (if sp_rc_mode p = RFLOW_RC_CBR then Some RFLOW_BITRATE_MODE_CBR
                    else if sp_rc_mode p = RFLOW_RC_VBR then Some RFLOW_BITRATE_MODE_VBR else None)
              else None) \<rparr>)"

definition startup_media_options :: "ResolvedPublisherStartup \<Rightarrow> PublisherMediaOptions" where
  "startup_media_options r =
     \<lparr> mo_h264_profile = rs_h264_profile r, mo_h264_level = rs_h264_level r, mo_keyframe_gop_frames = rs_keyframe_gop r,
       mo_ice_prioritize_likely_pairs = rs_ice_prioritize_likely_pairs r, mo_stun_server = rs_stun_server r,
       mo_turn_server = rs_turn_server r,
       mo_turn_username = (if rs_turn_server r \<noteq> None then rs_turn_username r else None),
       mo_turn_password = (if rs_turn_server r \<noteq> None then rs_turn_password r else None),
       mo_video_network_priority = rs_video_network_priority r,
       mo_video_encoding_max_framerate = rs_video_encoding_max_framerate r,
       mo_capture_warmup_sec = rs_capture_warmup_sec r,
       mo_capture_gate_min_frames = (if rs_capture_gate_min_frames r \<noteq> None \<and> rs_capture_gate_max_wait_sec r \<noteq> None
                                     then rs_capture_gate_min_frames r else None),
       mo_capture_gate_max_wait_sec = (if rs_capture_gate_min_frames r \<noteq> None \<and> rs_capture_gate_max_wait_sec r \<noteq> None
                                       then rs_capture_gate_max_wait_sec r else None),
       mo_bitrate_mode = rs_bitrate_mode r \<rparr>"

definition CreatePublisherImplForStream :: "librflow_svc_stream_s \<Rightarrow> SvcState \<Rightarrow> int \<Rightarrow> Publisher" where
  "CreatePublisherImplForStream stream s stream_idx =
     (let r = ResolvePublisherStartup stream s stream_idx;
          cbs = (if sv_has_connect_cb s
                 then \<lparr> pc_on_pull_request = cc_on_pull_request (sv_connect_cb s),
                        pc_on_pull_release = cc_on_pull_release (sv_connect_cb s),
                        pc_on_connect_state = cc_on_state (sv_connect_cb s), pc_userdata = cc_userdata (sv_connect_cb s) \<rparr>
                 else no_pull_callbacks)
      in new_Publisher stream_idx (if sp_has_in_codec (st_param stream) then sp_in_codec (st_param stream) else RFLOW_CODEC_I420)
           (rs_stream_id r) (rs_signal_url r) (rs_device_id r) (rs_width r) (rs_height r) (rs_fps r)
           (rs_bitrate_kbps_target r) (rs_bitrate_kbps_min r) (rs_bitrate_kbps_max r) (rs_video_codec r)
           (rs_use_internal_video_source r) (rs_video_device_path r) (rs_video_device_index r)
           (rs_degradation_pref_explicit r) (startup_media_options r) cbs)"

section \<open>Properties\<close>

lemma positive_or_pos: "0 < d \<Longrightarrow> 0 < positive_or d v"
  by (simp add: positive_or_def)

lemma opt_fields:
  "(\<And>v c. g (f v c) = g c) \<Longrightarrow> g (opt v f c) = g c"
  by (cases v) (simp_all add: opt_def)

lemma apply_media_opts_keeps:
  "ps_stream_id (apply_media_opts m c) = ps_stream_id c"
  "ps_video_width (apply_media_opts m c) = ps_video_width c"
  "ps_video_height (apply_media_opts m c) = ps_video_height c"
  "ps_video_fps (apply_media_opts m c) = ps_video_fps c"
  "ps_video_device_index (apply_media_opts m c) = ps_video_device_index c"
  "ps_use_external_video_source (apply_media_opts m c) = ps_use_external_video_source c"
  "ps_bitrate_mode (apply_media_opts m c) = ps_bitrate_mode c"
  "ps_target_bitrate_kbps (apply_media_opts m c) = ps_target_bitrate_kbps c"
  "ps_min_bitrate_kbps (apply_media_opts m c) = ps_min_bitrate_kbps c"
  "ps_max_bitrate_kbps (apply_media_opts m c) = ps_max_bitrate_kbps c"
  "ps_video_codec (apply_media_opts m c) = ps_video_codec c"
  by (simp_all add: apply_media_opts_def Let_def opt_fields)

lemmas publisher_config_simps = publisher_config_def apply_media_opts_keeps opt_fields Let_def

lemma publisher_config_fields:
  fixes p :: Publisher and env :: env
  defines "c \<equiv> fst (publisher_config env p)"
  shows "ps_stream_id c = pb_stream_id_str p" and "ps_video_width c = pb_width p" and "ps_video_height c = pb_height p"
    and "ps_video_fps c = pb_fps p" and "ps_video_device_index c = pb_video_device_index p"
    and "ps_use_external_video_source c = (\<not> pb_use_internal_video_source p)"
    and "ps_video_codec c = pb_video_codec p" and "ps_target_bitrate_kbps c = pb_target_kbps p"
    and "if ps_bitrate_mode c = ''cbr''
         then ps_min_bitrate_kbps c = pb_target_kbps p \<and> ps_max_bitrate_kbps c = pb_target_kbps p
         else ps_bitrate_mode c = ''vbr'' \<and> ps_min_bitrate_kbps c = pb_min_kbps p \<and> ps_max_bitrate_kbps c = pb_max_kbps p"
  unfolding c_def
  by (auto simp: publisher_config_simps apply_bitrate_mode_def pin_bitrate_def publisher_base_config_def split: option.splits)

lemma CodecToString_range: "CodecToString c \<in> {''h264'', ''h265'', ''mjpeg''}"
  by (cases c) (simp_all add: CodecToString_def)

lemma lower_codec: "CodecToString c \<noteq> []" "LowerCopy (CodecToString c) = CodecToString c"
proof -
  have "LowerCopy ''h264'' = ''h264''" "LowerCopy ''h265'' = ''h265''" "LowerCopy ''mjpeg'' = ''mjpeg''" by code_simp+
  then show "CodecToString c \<noteq> []" "LowerCopy (CodecToString c) = CodecToString c"
    using CodecToString_range [of c] by auto
qed

definition stream_name :: "SvcState \<Rightarrow> int \<Rightarrow> string" where
  "stream_name s idx =
     (if ci_device_id (sv_connect_info s) = [] then RFLOW_DEFAULT_DEVICE_ID else ci_device_id (sv_connect_info s))
       @ '':'' @ to_string idx"

lemma publisher_fields:
  fixes stream :: librflow_svc_stream_s and s :: SvcState and idx :: int
  defines "p \<equiv> CreatePublisherImplForStream stream s idx"
  shows "pb_stream_id_str p = stream_name s idx" and "0 < pb_width p" and "0 < pb_height p" and "0 < pb_fps p"
    and "0 \<le> pb_video_device_index p" and "pb_video_codec p \<in> {''h264'', ''h265'', ''mjpeg''}"
    and "0 < pb_target_kbps p" and "0 < pb_min_kbps p" and "0 < pb_max_kbps p"
    and "pb_use_internal_video_source p =
           (sp_has_video_device_path (st_param stream) \<or> sp_has_video_device_index (st_param stream))"
    and "pb_signaling_url p = (if gc_has_signal (sv_global_config s) then sg_url (gc_signal (sv_global_config s)) else [])"
    and "pb_streamer p = None" and "pb_signaling p = None"
  unfolding p_def CreatePublisherImplForStream_def new_Publisher_def Let_def
  by (simp_all add: positive_or_pos lower_codec CodecToString_range [simplified] ResolvePublisherStartup_def
      GetServiceDefaultParams_def stream_name_def Let_def)

definition low_bitrate_stream :: librflow_svc_stream_s where
  "low_bitrate_stream = \<lparr> st_magic = svc_kMagicStream, st_stream_idx = 0, st_state = RFLOW_STREAM_IDLE,
     st_param = fresh_param\<lparr>sp_bitrate_kbps := 50, sp_has_bitrate := True\<rparr>, st_cb = svc_stream_cb_zero,
     st_started = False, st_started_at = None, st_impl = None \<rparr>"

text \<open>
  C19: Whatever the stream parameters, the configuration a publisher hands to the push streamer
  has positive dimensions, frame rate and bitrates, a device index that is not negative, a
  known codec and the stream name made of device id and index; video comes from the caller
  exactly when no device was set, and in constant bitrate mode minimum and maximum equal the
  target. In variable mode the bounds need not be ordered: a target of 50 kbps without further
  settings gives a minimum of 100 above the maximum of 50.
\<close>

theorem publisher_config_sane:
  "(let c = fst (publisher_config env (CreatePublisherImplForStream stream s idx))
    in 0 < ps_video_width c \<and> 0 < ps_video_height c \<and> 0 < ps_video_fps c \<and> 0 \<le> ps_video_device_index c
     \<and> ps_video_codec c \<in> {''h264'', ''h265'', ''mjpeg''}
     \<and> 0 < ps_min_bitrate_kbps c \<and> 0 < ps_target_bitrate_kbps c \<and> 0 < ps_max_bitrate_kbps c
     \<and> ps_stream_id c = stream_name s idx
     \<and> ps_use_external_video_source c =
         (\<not> sp_has_video_device_path (st_param stream) \<and> \<not> sp_has_video_device_index (st_param stream))
     \<and> (if ps_bitrate_mode c = ''cbr''
        then ps_min_bitrate_kbps c = ps_target_bitrate_kbps c \<and> ps_max_bitrate_kbps c = ps_target_bitrate_kbps c
        else ps_bitrate_mode c = ''vbr''))
   \<and> (let c = fst (publisher_config env (CreatePublisherImplForStream low_bitrate_stream s idx))
      in ps_bitrate_mode c = ''vbr'' \<and> ps_target_bitrate_kbps c = 50 \<and> ps_min_bitrate_kbps c = 100 \<and> ps_max_bitrate_kbps c = 50)"
proof
  let ?p = "CreatePublisherImplForStream stream s idx"
  show "let c = fst (publisher_config env ?p)
    in 0 < ps_video_width c \<and> 0 < ps_video_height c \<and> 0 < ps_video_fps c \<and> 0 \<le> ps_video_device_index c
     \<and> ps_video_codec c \<in> {''h264'', ''h265'', ''mjpeg''}
     \<and> 0 < ps_min_bitrate_kbps c \<and> 0 < ps_target_bitrate_kbps c \<and> 0 < ps_max_bitrate_kbps c
     \<and> ps_stream_id c = stream_name s idx
     \<and> ps_use_external_video_source c =
         (\<not> sp_has_video_device_path (st_param stream) \<and> \<not> sp_has_video_device_index (st_param stream))
     \<and> (if ps_bitrate_mode c = ''cbr''
        then ps_min_bitrate_kbps c = ps_target_bitrate_kbps c \<and> ps_max_bitrate_kbps c = ps_target_bitrate_kbps c
        else ps_bitrate_mode c = ''vbr'')"
    unfolding Let_def publisher_config_fields(1-8) publisher_fields(1,10)
    using publisher_config_fields(9) [of env ?p] publisher_fields [of stream s idx] by (auto split: if_splits)
  have "pb_target_kbps (CreatePublisherImplForStream low_bitrate_stream s idx) = 50"
    "pb_max_kbps (CreatePublisherImplForStream low_bitrate_stream s idx) = 50"
    "pb_min_kbps (CreatePublisherImplForStream low_bitrate_stream s idx) = 100"
    "mo_bitrate_mode (pb_media_opts (CreatePublisherImplForStream low_bitrate_stream s idx)) = None"
    by (simp_all add: CreatePublisherImplForStream_def new_Publisher_def positive_or_def ResolvePublisherStartup_def
        GetServiceDefaultParams_def low_bitrate_stream_def fresh_param_def librflow_svc_stream_param_create_def
        CreateMagicObject_def svc_stream_param_zero_def startup_media_options_def Let_def)
  then show "let c = fst (publisher_config env (CreatePublisherImplForStream low_bitrate_stream s idx))
      in ps_bitrate_mode c = ''vbr'' \<and> ps_target_bitrate_kbps c = 50 \<and> ps_min_bitrate_kbps c = 100 \<and> ps_max_bitrate_kbps c = 50"
    by (simp add: publisher_config_simps apply_bitrate_mode_def publisher_base_config_def)
qed

lemma publisher_registers:
  "sgc_session (new_SignalingClient url ''publisher'' (stream_name s idx)) = MakeSessionConfig url ''publisher'' (stream_name s idx)"
  by (simp add: new_SignalingClient_def stream_name_def Let_def)

end
