(* ===== verification/Service_Sdk.thy ===== *)
theory Service_Sdk
  imports Service_Publisher Media_Objects
begin

text \<open>
  The publishing side's public interface: connection objects (\<^verbatim>\<open>src/service/api_handles.cpp\<close>), the
  life cycle (\<^verbatim>\<open>lifecycle.cpp\<close>, \<^verbatim>\<open>internal/state_ops.cpp\<close>, \<^verbatim>\<open>src/core/runtime/infra_lifecycle.cpp\<close>)
  and the streams (\<^verbatim>\<open>stream.cpp\<close>, \<^verbatim>\<open>src/common/base/stream_handle_ops.h\<close>).

  A stream handle is the address of its object, and the map of the state owns the objects: an
  address that is not in the map belongs to a deleted object. The code reads the magic number
  behind a handle before it looks the handle up; for a deleted object C++ leaves that read
  undefined, and the model takes the word found there as the argument \<open>stale\<close>. Callbacks into
  the application are recorded in a log. A public call is one step.
\<close>

section \<open>Connection objects\<close>

definition svc_connect_info_zero :: librflow_svc_connect_info_s where
  "svc_connect_info_zero = \<lparr> ci_magic = 0, ci_device_id = [], ci_device_secret = [], ci_product_key = [], ci_vendor_id = [] \<rparr>"

definition svc_connect_cb_zero :: librflow_svc_connect_cb_s where
  "svc_connect_cb_zero = \<lparr> cc_magic = 0, cc_on_state = None, cc_on_bind_state = None, cc_on_notice = None,
     cc_on_service_req = None, cc_on_pull_request = None, cc_on_pull_release = None, cc_userdata = 0 \<rparr>"

type_synonym info_h = "librflow_svc_connect_info_s option"
type_synonym conn_cb_h = "librflow_svc_connect_cb_s option"

definition librflow_svc_connect_info_create :: "bool \<Rightarrow> info_h" where
  "librflow_svc_connect_info_create alloc =
     CreateMagicObject alloc (\<lambda>m x. x\<lparr>ci_magic := m\<rparr>) svc_connect_info_zero svc_kMagicConnectInfo"

definition librflow_svc_connect_info_destroy :: "info_h \<Rightarrow> info_h" where
  "librflow_svc_connect_info_destroy info = DestroyMagicObject ci_magic info svc_kMagicConnectInfo"

definition librflow_svc_connect_info_set_device_id :: "info_h \<Rightarrow> string option \<Rightarrow> rflow_err_t \<times> info_h" where
  "librflow_svc_connect_info_set_device_id info v =
     RFLOW_SET_FIELD ci_magic info svc_kMagicConnectInfo (\<lambda>x. x\<lparr>ci_device_id := case_option [] id v\<rparr>)"

definition librflow_svc_connect_info_set_device_secret :: "info_h \<Rightarrow> string option \<Rightarrow> rflow_err_t \<times> info_h" where
  "librflow_svc_connect_info_set_device_secret info v =
     RFLOW_SET_FIELD ci_magic info svc_kMagicConnectInfo (\<lambda>x. x\<lparr>ci_device_secret := case_option [] id v\<rparr>)"

definition librflow_svc_connect_info_set_product_key :: "info_h \<Rightarrow> string option \<Rightarrow> rflow_err_t \<times> info_h" where
  "librflow_svc_connect_info_set_product_key info v =
     RFLOW_SET_FIELD ci_magic info svc_kMagicConnectInfo (\<lambda>x. x\<lparr>ci_product_key := case_option [] id v\<rparr>)"

definition librflow_svc_connect_info_set_vendor_id :: "info_h \<Rightarrow> string option \<Rightarrow> rflow_err_t \<times> info_h" where
  "librflow_svc_connect_info_set_vendor_id info v =
     RFLOW_SET_FIELD ci_magic info svc_kMagicConnectInfo (\<lambda>x. x\<lparr>ci_vendor_id := case_option [] id v\<rparr>)"

definition librflow_svc_connect_info_get_device_id ::
  "info_h \<Rightarrow> string option \<Rightarrow> u32 \<Rightarrow> u32 option \<Rightarrow> rflow_err_t \<times> string option \<times> u32 option" where
  "librflow_svc_connect_info_get_device_id info buf len needed =
     (if \<not> RFLOW_CHECK_HANDLE ci_magic info svc_kMagicConnectInfo then (RFLOW_ERR_PARAM, buf, needed)
      else CopyOutString (ci_device_id (the info)) buf len needed)"

definition librflow_svc_connect_info_get_device_secret ::
  "info_h \<Rightarrow> string option \<Rightarrow> u32 \<Rightarrow> u32 option \<Rightarrow> rflow_err_t \<times> string option \<times> u32 option" where
  "librflow_svc_connect_info_get_device_secret info buf len needed =
     (if \<not> RFLOW_CHECK_HANDLE ci_magic info svc_kMagicConnectInfo then (RFLOW_ERR_PARAM, buf, needed)
      else CopyOutString (ci_device_secret (the info)) buf len needed)"

definition librflow_svc_connect_info_get_product_key ::
  "info_h \<Rightarrow> string option \<Rightarrow> u32 \<Rightarrow> u32 option \<Rightarrow> rflow_err_t \<times> string option \<times> u32 option" where
  "librflow_svc_connect_info_get_product_key info buf len needed =
     (if \<not> RFLOW_CHECK_HANDLE ci_magic info svc_kMagicConnectInfo then (RFLOW_ERR_PARAM, buf, needed)
      else CopyOutString (ci_product_key (the info)) buf len needed)"

definition librflow_svc_connect_info_get_vendor_id ::
  "info_h \<Rightarrow> string option \<Rightarrow> u32 \<Rightarrow> u32 option \<Rightarrow> rflow_err_t \<times> string option \<times> u32 option" where
  "librflow_svc_connect_info_get_vendor_id info buf len needed =
     (if \<not> RFLOW_CHECK_HANDLE ci_magic info svc_kMagicConnectInfo then (RFLOW_ERR_PARAM, buf, needed)
      else CopyOutString (ci_vendor_id (the info)) buf len needed)"

definition librflow_svc_connect_cb_create :: "bool \<Rightarrow> conn_cb_h" where
  "librflow_svc_connect_cb_create alloc =
     CreateMagicObject alloc (\<lambda>m x. x\<lparr>cc_magic := m\<rparr>) svc_connect_cb_zero svc_kMagicConnectCb"

definition librflow_svc_connect_cb_destroy :: "conn_cb_h \<Rightarrow> conn_cb_h" where
  "librflow_svc_connect_cb_destroy cb = DestroyMagicObject cc_magic cb svc_kMagicConnectCb"

definition librflow_svc_connect_cb_set_on_state :: "conn_cb_h \<Rightarrow> fn_ptr \<Rightarrow> rflow_err_t \<times> conn_cb_h" where
  "librflow_svc_connect_cb_set_on_state cb v = RFLOW_SET_FIELD cc_magic cb svc_kMagicConnectCb (\<lambda>x. x\<lparr>cc_on_state := v\<rparr>)"

definition librflow_svc_connect_cb_set_on_bind_state :: "conn_cb_h \<Rightarrow> fn_ptr \<Rightarrow> rflow_err_t \<times> conn_cb_h" where
  "librflow_svc_connect_cb_set_on_bind_state cb v = RFLOW_SET_FIELD cc_magic cb svc_kMagicConnectCb (\<lambda>x. x\<lparr>cc_on_bind_state := v\<rparr>)"

definition librflow_svc_connect_cb_set_on_notice :: "conn_cb_h \<Rightarrow> fn_ptr \<Rightarrow> rflow_err_t \<times> conn_cb_h" where
  "librflow_svc_connect_cb_set_on_notice cb v = RFLOW_SET_FIELD cc_magic cb svc_kMagicConnectCb (\<lambda>x. x\<lparr>cc_on_notice := v\<rparr>)"

definition librflow_svc_connect_cb_set_on_service_req :: "conn_cb_h \<Rightarrow> fn_ptr \<Rightarrow> rflow_err_t \<times> conn_cb_h" where
  "librflow_svc_connect_cb_set_on_service_req cb v = RFLOW_SET_FIELD cc_magic cb svc_kMagicConnectCb (\<lambda>x. x\<lparr>cc_on_service_req := v\<rparr>)"

definition librflow_svc_connect_cb_set_on_pull_request :: "conn_cb_h \<Rightarrow> fn_ptr \<Rightarrow> rflow_err_t \<times> conn_cb_h" where
  "librflow_svc_connect_cb_set_on_pull_request cb v = RFLOW_SET_FIELD cc_magic cb svc_kMagicConnectCb (\<lambda>x. x\<lparr>cc_on_pull_request := v\<rparr>)"

definition librflow_svc_connect_cb_set_on_pull_release :: "conn_cb_h \<Rightarrow> fn_ptr \<Rightarrow> rflow_err_t \<times> conn_cb_h" where
  "librflow_svc_connect_cb_set_on_pull_release cb v = RFLOW_SET_FIELD cc_magic cb svc_kMagicConnectCb (\<lambda>x. x\<lparr>cc_on_pull_release := v\<rparr>)"

definition librflow_svc_connect_cb_set_userdata :: "conn_cb_h \<Rightarrow> nat \<Rightarrow> rflow_err_t \<times> conn_cb_h" where
  "librflow_svc_connect_cb_set_userdata cb v = RFLOW_SET_FIELD cc_magic cb svc_kMagicConnectCb (\<lambda>x. x\<lparr>cc_userdata := v\<rparr>)"

record librflow_svc_license_info_s =
  li_magic :: u32
  li_expire_time_sec :: u64
  li_loaded :: bool
  li_vendor_id :: string
  li_product_key :: string

definition librflow_svc_license_info_get_expire_time ::
  "librflow_svc_license_info_s option \<Rightarrow> u64 option \<Rightarrow> rflow_err_t \<times> u64 option" where
  "librflow_svc_license_info_get_expire_time info out =
     RFLOW_GET_VALUE_WITH_FLAG li_magic info kMagicLicenseInfo out li_loaded li_expire_time_sec"

definition librflow_svc_license_info_get_vendor_id ::
  "librflow_svc_license_info_s option \<Rightarrow> string option \<Rightarrow> u32 \<Rightarrow> u32 option \<Rightarrow> rflow_err_t \<times> string option \<times> u32 option" where
  "librflow_svc_license_info_get_vendor_id info buf len needed =
     (if \<not> RFLOW_CHECK_HANDLE li_magic info kMagicLicenseInfo then (RFLOW_ERR_PARAM, buf, needed)
      else CopyOutString (li_vendor_id (the info)) buf len needed)"

definition librflow_svc_license_info_get_product_key ::
  "librflow_svc_license_info_s option \<Rightarrow> string option \<Rightarrow> u32 \<Rightarrow> u32 option \<Rightarrow> rflow_err_t \<times> string option \<times> u32 option" where
  "librflow_svc_license_info_get_product_key info buf len needed =
     (if \<not> RFLOW_CHECK_HANDLE li_magic info kMagicLicenseInfo then (RFLOW_ERR_PARAM, buf, needed)
      else CopyOutString (li_product_key (the info)) buf len needed)"

definition librflow_svc_license_info_destroy :: "librflow_svc_license_info_s option \<Rightarrow> librflow_svc_license_info_s option" where
  "librflow_svc_license_info_destroy info = DestroyMagicObject li_magic info kMagicLicenseInfo"

section \<open>Infrastructure\<close>

record Infra =
  in_thread :: bool
  in_rtc :: bool
  in_signal :: bool

datatype InitFailureStage = stage_kNone | stage_kThread | stage_kRtc | stage_kSignal

text \<open>The three flags tell whether the initialisation of each subsystem succeeds.\<close>

definition InitInfrastructure :: "bool \<Rightarrow> bool \<Rightarrow> bool \<Rightarrow> Infra \<Rightarrow> rflow_err_t \<times> InitFailureStage \<times> Infra" where
  "InitInfrastructure th rt sg i =
     (if \<not> th then (RFLOW_ERR_FAIL, stage_kThread, i)
      else let i1 = i\<lparr>in_thread := True\<rparr>
           in if \<not> rt then (RFLOW_ERR_FAIL, stage_kRtc, i1\<lparr>in_thread := False\<rparr>)
              else let i2 = i1\<lparr>in_rtc := True\<rparr>
                   in if \<not> sg then (RFLOW_ERR_FAIL, stage_kSignal, i2\<lparr>in_rtc := False, in_thread := False\<rparr>)
                      else (RFLOW_OK, stage_kNone, i2\<lparr>in_signal := True\<rparr>))"

definition ShutdownInfrastructure :: "Infra \<Rightarrow> Infra" where
  "ShutdownInfrastructure i = i\<lparr>in_signal := False, in_rtc := False, in_thread := False\<rparr>"

definition infra_down :: Infra where "infra_down = \<lparr> in_thread = False, in_rtc = False, in_signal = False \<rparr>"
definition infra_up :: Infra where "infra_up = \<lparr> in_thread = True, in_rtc = True, in_signal = True \<rparr>"

lemma infra_cases:
  "InitInfrastructure th rt sg infra_down =
     (if th \<and> rt \<and> sg then (RFLOW_OK, stage_kNone, infra_up)
      else (RFLOW_ERR_FAIL, (if \<not> th then stage_kThread else if \<not> rt then stage_kRtc else stage_kSignal), infra_down))"
  by (simp add: InitInfrastructure_def infra_down_def infra_up_def)

lemma shutdown_down [simp]: "ShutdownInfrastructure i = infra_down"
  by (simp add: ShutdownInfrastructure_def infra_down_def)

section \<open>State\<close>

datatype rflow_connect_state_t =
  RFLOW_CONN_IDLE | RFLOW_CONN_CONNECTING | RFLOW_CONN_CONNECTED | RFLOW_CONN_DISCONNECTED | RFLOW_CONN_FAILED

datatype svc_event =
    ConnState nat rflow_connect_state_t rflow_err_t nat
  | BindBound nat nat
  | StreamState nat nat rflow_stream_state_t rflow_err_t nat

record Svc =
  w_state :: SvcState
  w_proc :: Process
  w_infra :: Infra
  w_log :: "svc_event list"

definition upd :: "(SvcState \<Rightarrow> SvcState) \<Rightarrow> Svc \<Rightarrow> Svc" where
  "upd f w = w\<lparr>w_state := f (w_state w)\<rparr>"

definition log_events :: "svc_event list \<Rightarrow> Svc \<Rightarrow> Svc" where
  "log_events es w = w\<lparr>w_log := w_log w @ es\<rparr>"

definition fail_with :: "u64 \<Rightarrow> rflow_err_t \<Rightarrow> string \<Rightarrow> string \<Rightarrow> Svc \<Rightarrow> Svc" where
  "fail_with now code msg origin w =
     w\<lparr>w_proc := (w_proc w)\<lparr>pr_error := set_last_error now code msg (Some origin) (pr_error (w_proc w))\<rparr>\<rparr>"

section \<open>Streams in the map\<close>

definition FindStream :: "nat \<Rightarrow> Svc \<Rightarrow> librflow_svc_stream_s option" where
  "FindStream h w = map_of (sv_streams (w_state w)) h"

definition put_stream :: "nat \<Rightarrow> librflow_svc_stream_s \<Rightarrow> Svc \<Rightarrow> Svc" where
  "put_stream h sh = upd (\<lambda>s. s\<lparr>sv_streams := AList.update h sh (sv_streams s)\<rparr>)"

definition RemoveStream :: "nat \<Rightarrow> Svc \<Rightarrow> librflow_svc_stream_s option \<times> Svc" where
  "RemoveStream h w =
     (case FindStream h w of None \<Rightarrow> (None, w)
      | Some sh \<Rightarrow> (Some sh, upd (\<lambda>s. s\<lparr>sv_streams := AList.delete h (sv_streams s)\<rparr>) w))"

definition stream_event :: "librflow_svc_stream_s \<Rightarrow> nat \<Rightarrow> rflow_stream_state_t \<Rightarrow> rflow_err_t \<Rightarrow> svc_event list" where
  "stream_event sh h st reason =
     (case scb_on_state (st_cb sh) of None \<Rightarrow> [] | Some f \<Rightarrow> [StreamState f h st reason (scb_userdata (st_cb sh))])"

definition BroadcastStreamStateToAllCb :: "rflow_stream_state_t \<Rightarrow> rflow_err_t \<Rightarrow> Svc \<Rightarrow> Svc" where
  "BroadcastStreamStateToAllCb st reason w =
     log_events (concat (map (\<lambda>(h, sh). stream_event sh h st reason) (sv_streams (w_state w)))) w"

definition MarkStreamStarted :: "u64 \<Rightarrow> librflow_svc_stream_s \<Rightarrow> librflow_svc_stream_s" where
  "MarkStreamStarted now sh = sh\<lparr>st_started := True, st_started_at := Some now, st_state := RFLOW_STREAM_OPENED\<rparr>"

definition MarkStreamStopped :: "librflow_svc_stream_s \<Rightarrow> librflow_svc_stream_s" where
  "MarkStreamStopped sh = sh\<lparr>st_started := False, st_started_at := None, st_state := RFLOW_STREAM_IDLE\<rparr>"

text \<open>The magic number read behind a handle.\<close>

definition magic_at :: "u32 \<Rightarrow> nat \<Rightarrow> Svc \<Rightarrow> u32" where
  "magic_at stale h w = (case FindStream h w of Some sh \<Rightarrow> st_magic sh | None \<Rightarrow> stale)"

section \<open>Life cycle\<close>

definition ValidateConnectTransition :: "LifecycleState \<Rightarrow> rflow_err_t" where
  "ValidateConnectTransition st =
     (if st = kUninit then RFLOW_ERR_STATE
      else if st = kConnecting \<or> st = kConnected then RFLOW_ERR_STATE else RFLOW_OK)"

definition librflow_svc_set_global_config :: "u64 \<Rightarrow> global_h \<Rightarrow> Svc \<Rightarrow> rflow_err_t \<times> Svc" where
  "librflow_svc_set_global_config now cfg w =
     (if sv_lifecycle (w_state w) \<noteq> kUninit
        then (RFLOW_ERR_STATE, fail_with now RFLOW_ERR_STATE ''svc_set_global_config must be called before init'' ''service/lifecycle'' w)
      else if \<not> IsValidGlobalConfigHandle cfg
        then (RFLOW_ERR_PARAM, fail_with now RFLOW_ERR_PARAM ''svc_set_global_config: invalid global_config handle'' ''service/lifecycle'' w)
      else let g = CopyGlobalConfig (the cfg);
               p1 = NotifyFlexfecTrialFromSdkConfig (gc_flexfec g \<noteq> RFLOW_GLOBAL_FLEXFEC_DEFAULT)
                      (gc_flexfec g = RFLOW_GLOBAL_FLEXFEC_ON) (w_proc w);
               p2 = NotifyIceIgnoreInterfacesFromSdkConfig
                      (if gc_has_ice_ignore_interfaces g then Some (gc_ice_ignore_interfaces g) else None) p1;
               p3 = p2\<lparr>pr_logger := ApplyLogConfigIfPresent g (pr_logger p2)\<rparr>
           in (RFLOW_OK, (upd (\<lambda>s. s\<lparr>sv_global_config := g\<rparr>) w)\<lparr>w_proc := p3\<rparr>))"

definition librflow_svc_init :: "bool \<Rightarrow> bool \<Rightarrow> bool \<Rightarrow> Svc \<Rightarrow> rflow_err_t \<times> Svc" where
  "librflow_svc_init th rt sg w =
     (if sv_lifecycle (w_state w) \<noteq> kUninit then (RFLOW_OK, w)
      else let (rc, _, i) = InitInfrastructure th rt sg (w_infra w); w1 = w\<lparr>w_infra := i\<rparr>
           in if rc \<noteq> RFLOW_OK then (rc, w1)
              else (RFLOW_OK, upd (\<lambda>s. s\<lparr>sv_lifecycle := kInited\<rparr>) w1))"

definition ConnectStateTransition ::
  "librflow_svc_connect_info_s \<Rightarrow> librflow_svc_connect_cb_s \<Rightarrow> Svc \<Rightarrow> rflow_err_t \<times> Svc" where
  "ConnectStateTransition info cb w =
     (let rc = ValidateConnectTransition (sv_lifecycle (w_state w))
      in if rc \<noteq> RFLOW_OK then (rc, w)
         else let info' = (if ci_device_id info = [] then info\<lparr>ci_device_id := RFLOW_DEFAULT_DEVICE_ID\<rparr> else info);
                  w1 = upd (\<lambda>s. s\<lparr>sv_connect_info := info', sv_connect_cb := cb, sv_has_connect_cb := True,
                                  sv_lifecycle := kConnected\<rparr>) w
              in (RFLOW_OK, log_events
                   (call_opt (cc_on_state cb) (\<lambda>f. ConnState f RFLOW_CONN_CONNECTED RFLOW_OK (cc_userdata cb))
                    @ call_opt (cc_on_bind_state cb) (\<lambda>f. BindBound f (cc_userdata cb))) w1))"

definition DisconnectStateTransition :: "Svc \<Rightarrow> rflow_err_t \<times> Svc" where
  "DisconnectStateTransition w =
     (if sv_lifecycle (w_state w) \<noteq> kConnected \<and> sv_lifecycle (w_state w) \<noteq> kConnecting then (RFLOW_OK, w)
      else let w1 = upd (\<lambda>s. s\<lparr>sv_streams := []\<rparr>) (BroadcastStreamStateToAllCb RFLOW_STREAM_CLOSED RFLOW_OK w);
               cb = sv_connect_cb (w_state w);
               w2 = (if sv_has_connect_cb (w_state w)
                     then log_events (call_opt (cc_on_state cb)
                            (\<lambda>f. ConnState f RFLOW_CONN_DISCONNECTED RFLOW_OK (cc_userdata cb))) w1
                     else w1)
           in (RFLOW_OK, upd (\<lambda>s. s\<lparr>sv_has_connect_cb := False, sv_lifecycle := kInited\<rparr>) w2))"

definition librflow_svc_connect :: "info_h \<Rightarrow> conn_cb_h \<Rightarrow> Svc \<Rightarrow> rflow_err_t \<times> Svc" where
  "librflow_svc_connect info cb w =
     (if \<not> RFLOW_CHECK_HANDLE ci_magic info svc_kMagicConnectInfo then (RFLOW_ERR_PARAM, w)
      else if \<not> RFLOW_CHECK_HANDLE cc_magic cb svc_kMagicConnectCb then (RFLOW_ERR_PARAM, w)
      else ConnectStateTransition (the info) (the cb) w)"

definition librflow_svc_disconnect :: "Svc \<Rightarrow> rflow_err_t \<times> Svc" where
  "librflow_svc_disconnect w = DisconnectStateTransition w"

definition librflow_svc_uninit :: "Svc \<Rightarrow> rflow_err_t \<times> Svc" where
  "librflow_svc_uninit w0 =
     (let w = snd (librflow_svc_disconnect w0)
      in if sv_lifecycle (w_state w) = kUninit then (RFLOW_OK, w)
         else let w1 = upd (\<lambda>s. s\<lparr>sv_streams := []\<rparr>) w;
                  w2 = w1\<lparr>w_infra := ShutdownInfrastructure (w_infra w1),
                          w_proc := ResetIceIgnoreInterfacesSdkOverride (ResetFlexfecTrialSdkOverride (w_proc w1))\<rparr>
              in (RFLOW_OK, upd (\<lambda>s. s\<lparr>sv_lifecycle := kUninit\<rparr>) w2))"

text \<open>The out variable holds a license handle; None is a null pointer to it.\<close>

definition librflow_svc_get_license_info ::
  "bool \<Rightarrow> librflow_svc_license_info_s option option \<Rightarrow> Svc \<Rightarrow> rflow_err_t \<times> librflow_svc_license_info_s option option" where
  "librflow_svc_get_license_info alloc out w =
     (if out = None then (RFLOW_ERR_PARAM, None)
      else if sv_lifecycle (w_state w) \<noteq> kConnected then (RFLOW_ERR_STATE, Some None)
      else if \<not> alloc then (RFLOW_ERR_NO_MEM, out)
      else (RFLOW_OK, Some (Some \<lparr> li_magic = kMagicLicenseInfo, li_expire_time_sec = 0, li_loaded = True,
              li_vendor_id = ci_vendor_id (sv_connect_info (w_state w)),
              li_product_key = ci_product_key (sv_connect_info (w_state w)) \<rparr>)))"

definition librflow_svc_log_set_level :: "rflow_log_level_t \<Rightarrow> Svc \<Rightarrow> rflow_err_t \<times> Svc" where
  "librflow_svc_log_set_level level w =
     (RFLOW_OK, w\<lparr>w_proc := (w_proc w)\<lparr>pr_logger := logger_set_level level (pr_logger (w_proc w))\<rparr>\<rparr>)"

definition librflow_svc_log_set_callback :: "fn_ptr \<Rightarrow> nat \<Rightarrow> Svc \<Rightarrow> rflow_err_t \<times> Svc" where
  "librflow_svc_log_set_callback cb ud w =
     (RFLOW_OK, w\<lparr>w_proc := (w_proc w)\<lparr>pr_logger := logger_set_callback cb ud (pr_logger (w_proc w))\<rparr>\<rparr>)"

definition librflow_svc_send_notice :: "Svc \<Rightarrow> rflow_err_t" where
  "librflow_svc_send_notice w = (if sv_lifecycle (w_state w) \<noteq> kConnected then RFLOW_ERR_STATE else RFLOW_OK)"

definition librflow_svc_post_topic :: "string option \<Rightarrow> Svc \<Rightarrow> rflow_err_t" where
  "librflow_svc_post_topic topic w =
     (if topic = None then RFLOW_ERR_PARAM
      else if sv_lifecycle (w_state w) \<noteq> kConnected then RFLOW_ERR_STATE else RFLOW_OK)"

definition librflow_svc_service_reply :: "u64 \<Rightarrow> Svc \<Rightarrow> rflow_err_t" where
  "librflow_svc_service_reply req_id w = (if sv_lifecycle (w_state w) \<noteq> kConnected then RFLOW_ERR_STATE else RFLOW_OK)"

section \<open>Streams\<close>

definition require_connected_locked :: "u64 \<Rightarrow> Svc \<Rightarrow> rflow_err_t \<times> Svc" where
  "require_connected_locked now w =
     (if sv_lifecycle (w_state w) \<noteq> kConnected
      then (RFLOW_ERR_STATE, fail_with now RFLOW_ERR_STATE ''service must be connected first'' ''service/stream'' w)
      else (RFLOW_OK, w))"

text \<open>\<open>addr\<close> is the address of the new object; the out variable receives it.\<close>

definition new_stream ::
  "int \<Rightarrow> librflow_svc_stream_param_s \<Rightarrow> librflow_svc_stream_cb_s option \<Rightarrow> SvcState \<Rightarrow> librflow_svc_stream_s" where
  "new_stream idx param cb s =
     (let sh = \<lparr> st_magic = svc_kMagicStream, st_stream_idx = idx, st_state = RFLOW_STREAM_IDLE,
                 st_param = param\<lparr>sp_magic := svc_kMagicStreamParam\<rparr>,
                 st_cb = (case cb of None \<Rightarrow> svc_stream_cb_zero | Some c \<Rightarrow> c\<lparr>scb_magic := svc_kMagicStreamCb\<rparr>),
                 st_started = False, st_started_at = None, st_impl = None \<rparr>
      in sh\<lparr>st_impl := Some (CreatePublisherImplForStream sh s idx)\<rparr>)"

definition librflow_svc_create_stream ::
  "u64 \<Rightarrow> nat \<Rightarrow> int \<Rightarrow> param_h \<Rightarrow> librflow_svc_stream_cb_s option \<Rightarrow> nat option option \<Rightarrow> Svc
     \<Rightarrow> rflow_err_t \<times> nat option option \<times> Svc" where
  "librflow_svc_create_stream now addr idx param cb out w =
     (if out = None then (RFLOW_ERR_PARAM, None, w)
      else if \<not> RFLOW_CHECK_HANDLE sp_magic param svc_kMagicStreamParam then (RFLOW_ERR_PARAM, Some None, w)
      else if cb \<noteq> None \<and> \<not> RFLOW_CHECK_HANDLE scb_magic cb svc_kMagicStreamCb then (RFLOW_ERR_PARAM, Some None, w)
      else let (e, w1) = require_connected_locked now w
           in if e \<noteq> RFLOW_OK then (e, Some None, w1)
              else (RFLOW_OK, Some (Some addr), put_stream addr (new_stream idx (the param) cb (w_state w1)) w1))"

definition librflow_svc_start_stream ::
  "u64 \<Rightarrow> env \<Rightarrow> bool \<Rightarrow> bool \<Rightarrow> u32 \<Rightarrow> nat option \<Rightarrow> Svc \<Rightarrow> rflow_err_t \<times> Svc" where
  "librflow_svc_start_stream now env signaling_ok streamer_ok stale handle w =
     (case handle of None \<Rightarrow> (RFLOW_ERR_PARAM, w)
      | Some h \<Rightarrow>
          if magic_at stale h w \<noteq> svc_kMagicStream then (RFLOW_ERR_PARAM, w)
          else case FindStream h w of None \<Rightarrow> (RFLOW_ERR_NOT_FOUND, w)
            | Some sh \<Rightarrow>
                let (ok, impl) = (case st_impl sh of None \<Rightarrow> (True, None)
                     | Some pub \<Rightarrow> map_prod id Some (publisher_Start env signaling_ok streamer_ok pub));
                    sh1 = sh\<lparr>st_impl := impl\<rparr>
                in if \<not> ok
                   then (RFLOW_ERR_CONN_NETWORK, put_stream h sh1 (fail_with now RFLOW_ERR_CONN_NETWORK
                           ''publisher start failed (signaling unreachable?)'' ''service/stream'' w))
                   else (RFLOW_OK, log_events (stream_event sh1 h RFLOW_STREAM_OPENED RFLOW_OK)
                           (put_stream h (MarkStreamStarted now sh1) w)))"

definition librflow_svc_stop_stream :: "u32 \<Rightarrow> nat option \<Rightarrow> Svc \<Rightarrow> rflow_err_t \<times> Svc" where
  "librflow_svc_stop_stream stale handle w =
     (case handle of None \<Rightarrow> (RFLOW_ERR_PARAM, w)
      | Some h \<Rightarrow>
          if magic_at stale h w \<noteq> svc_kMagicStream then (RFLOW_ERR_PARAM, w)
          else case FindStream h w of None \<Rightarrow> (RFLOW_ERR_NOT_FOUND, w)
            | Some sh \<Rightarrow>
                let sh1 = sh\<lparr>st_impl := map_option publisher_Stop (st_impl sh)\<rparr>
                in (RFLOW_OK, log_events (stream_event sh1 h RFLOW_STREAM_IDLE RFLOW_OK)
                      (put_stream h (MarkStreamStopped sh1) w)))"

definition librflow_svc_destroy_stream :: "nat option \<Rightarrow> Svc \<Rightarrow> rflow_err_t \<times> Svc" where
  "librflow_svc_destroy_stream handle w =
     (case handle of None \<Rightarrow> (RFLOW_OK, w)
      | Some h \<Rightarrow>
          (case RemoveStream h w of
             (None, w1) \<Rightarrow> (RFLOW_OK, w1)
           | (Some sh, w1) \<Rightarrow> (RFLOW_OK, log_events (stream_event sh h RFLOW_STREAM_CLOSED RFLOW_OK) w1)))"

text \<open>Size and codec of a pushed frame: its own, else those of the stream.\<close>

definition push_width :: "librflow_svc_push_frame_s \<Rightarrow> librflow_svc_stream_param_s \<Rightarrow> int" where
  "push_width f p = (if pf_has_size f then sint (pf_width f) else if sp_has_src_size p then sint (sp_src_w p) else 0)"

definition push_height :: "librflow_svc_push_frame_s \<Rightarrow> librflow_svc_stream_param_s \<Rightarrow> int" where
  "push_height f p = (if pf_has_size f then sint (pf_height f) else if sp_has_src_size p then sint (sp_src_h p) else 0)"

definition push_codec :: "librflow_svc_push_frame_s \<Rightarrow> Publisher \<Rightarrow> rflow_codec_t" where
  "push_codec f pub = (if pf_has_codec f then pf_codec f else pb_in_codec pub)"

text \<open>\<open>taken\<close> tells whether the push streamer takes the frame.\<close>

definition librflow_svc_push_video_frame :: "u64 \<Rightarrow> bool \<Rightarrow> u32 \<Rightarrow> nat option \<Rightarrow> frame_h \<Rightarrow> Svc \<Rightarrow> rflow_err_t \<times> Svc" where
  "librflow_svc_push_video_frame now taken stale handle frame w =
     (case handle of None \<Rightarrow> (RFLOW_ERR_PARAM, w)
      | Some h \<Rightarrow>
          if magic_at stale h w \<noteq> svc_kMagicStream then (RFLOW_ERR_PARAM, w)
          else if \<not> RFLOW_CHECK_HANDLE pf_magic frame kMagicPushFrame then (RFLOW_ERR_PARAM, w)
          else case FindStream h w of None \<Rightarrow> (RFLOW_ERR_NOT_FOUND, w)
            | Some sh \<Rightarrow>
                if \<not> st_started sh then (RFLOW_ERR_STATE, w)
                else case st_impl sh of None \<Rightarrow> (RFLOW_ERR_STATE, w)
                  | Some pub \<Rightarrow>
                      if \<not> uses_external_video_source pub
                        then (RFLOW_ERR_STATE, fail_with now RFLOW_ERR_STATE
                               ''stream uses SDK internal video capture; push_video_frame is disabled'' ''service/stream'' w)
                      else let f = the frame; p = st_param sh in
                      if pf_data f = [] then (RFLOW_ERR_PARAM, w)
                      else if push_width f p \<le> 0 \<or> push_height f p \<le> 0 then (RFLOW_ERR_PARAM, w)
                      else let codec = push_codec f pub
                      in if codec = RFLOW_CODEC_I420 \<or> codec = RFLOW_CODEC_NV12
                         then (let (ok, pub') = publisher_Push taken pub
                               in (if ok then RFLOW_OK else RFLOW_ERR_FAIL, put_stream h (sh\<lparr>st_impl := Some pub'\<rparr>) w))
                         else (RFLOW_ERR_STREAM_CODEC_UNSUPP, fail_with now RFLOW_ERR_STREAM_CODEC_UNSUPP
                                 ''input codec not supported by external source (I420/NV12 only)'' ''service/stream'' w))"

definition librflow_svc_stream_set_bitrate :: "u32 \<Rightarrow> nat option \<Rightarrow> u32 \<Rightarrow> Svc \<Rightarrow> rflow_err_t \<times> Svc" where
  "librflow_svc_stream_set_bitrate stale handle kbps w =
     (case handle of None \<Rightarrow> (RFLOW_ERR_PARAM, w)
      | Some h \<Rightarrow>
          if magic_at stale h w \<noteq> svc_kMagicStream then (RFLOW_ERR_PARAM, w)
          else case FindStream h w of None \<Rightarrow> (RFLOW_ERR_NOT_FOUND, w)
            | Some sh \<Rightarrow> (RFLOW_OK, put_stream h (sh\<lparr>st_param := (st_param sh)\<lparr>sp_bitrate_kbps := kbps\<rparr>\<rparr>) w))"

text \<open>\<open>collect\<close> is what the publisher's statistics collection does to the object, None when it fails.\<close>

definition librflow_svc_stream_get_stats ::
  "int \<Rightarrow> bool \<Rightarrow> (librflow_stream_stats_s \<Rightarrow> librflow_stream_stats_s option) \<Rightarrow> u32 \<Rightarrow> nat option
     \<Rightarrow> librflow_stream_stats_s option option \<Rightarrow> Svc \<Rightarrow> rflow_err_t \<times> librflow_stream_stats_s option option" where
  "librflow_svc_stream_get_stats now_ms alloc collect stale handle out w =
     (case handle of None \<Rightarrow> (RFLOW_ERR_PARAM, out)
      | Some h \<Rightarrow>
          if magic_at stale h w \<noteq> svc_kMagicStream then (RFLOW_ERR_PARAM, out)
          else if out = None then (RFLOW_ERR_PARAM, None)
          else case FindStream h w of None \<Rightarrow> (RFLOW_ERR_NOT_FOUND, Some None)
            | Some sh \<Rightarrow>
                (case AllocStreamStats alloc of None \<Rightarrow> (RFLOW_ERR_FAIL, Some None)
                 | Some ms \<Rightarrow>
                     let pushed = (case st_impl sh of Some pub \<Rightarrow> pb_video_frames_pushed pub | None \<Rightarrow> 0);
                         ms1 = FillStreamStatsBase now_ms (map_option uint (st_started_at sh)) pushed ms;
                         collected = (case st_impl sh of Some _ \<Rightarrow> collect ms1 | None \<Rightarrow> None)
                     in (RFLOW_OK, Some (Some (case collected of Some ms2 \<Rightarrow> ms2
                           | None \<Rightarrow> ApplyStreamStatsFpsFallbackFromFrameCount pushed ms1)))))"

section \<open>Reachable states\<close>

definition process_init :: Process where
  "process_init = \<lparr> pr_logger = logger_init, pr_error = no_error, pr_knobs = \<lparr>g_alias_warned = {}, knob_warnings = []\<rparr>,
     g_flexfec_explicit = None, g_ice_ignore_explicit = None, g_field_trials = None \<rparr>"

definition svc_state_init :: SvcState where
  "svc_state_init = \<lparr> sv_lifecycle = kUninit, sv_global_config = global_config_zero,
     sv_connect_info = svc_connect_info_zero, sv_connect_cb = svc_connect_cb_zero, sv_has_connect_cb = False, sv_streams = [] \<rparr>"

definition svc_world_init :: Svc where
  "svc_world_init = \<lparr> w_state = svc_state_init, w_proc = process_init, w_infra = infra_down, w_log = [] \<rparr>"

text \<open>One public call. A new stream object lies at an address that is not in use.\<close>

inductive sdk_step :: "Svc \<Rightarrow> Svc \<Rightarrow> bool" where
  step_config: "sdk_step w (snd (librflow_svc_set_global_config now cfg w))"
| step_init: "sdk_step w (snd (librflow_svc_init th rt sg w))"
| step_uninit: "sdk_step w (snd (librflow_svc_uninit w))"
| step_connect: "sdk_step w (snd (librflow_svc_connect info cb w))"
| step_disconnect: "sdk_step w (snd (librflow_svc_disconnect w))"
| step_create: "FindStream addr w = None \<Longrightarrow> sdk_step w (snd (snd (librflow_svc_create_stream now addr idx param scb out w)))"
| step_start: "sdk_step w (snd (librflow_svc_start_stream now env sig_ok str_ok stale h w))"
| step_stop: "sdk_step w (snd (librflow_svc_stop_stream stale h w))"
| step_destroy: "sdk_step w (snd (librflow_svc_destroy_stream h w))"
| step_push: "sdk_step w (snd (librflow_svc_push_video_frame now taken stale h frame w))"
| step_bitrate: "sdk_step w (snd (librflow_svc_stream_set_bitrate stale h kbps w))"
| step_log_level: "sdk_step w (snd (librflow_svc_log_set_level level w))"
| step_log_callback: "sdk_step w (snd (librflow_svc_log_set_callback lcb ud w))"

inductive sdk_reachable :: "Svc \<Rightarrow> bool" where
  sdk_start: "sdk_reachable svc_world_init"
| sdk_next: "sdk_reachable w \<Longrightarrow> sdk_step w w' \<Longrightarrow> sdk_reachable w'"

section \<open>The invariant\<close>

definition signal_url :: "SvcState \<Rightarrow> string" where
  "signal_url s = (if gc_has_signal (sv_global_config s) then sg_url (gc_signal (sv_global_config s)) else [])"

definition pub_ok :: "SvcState \<Rightarrow> int \<Rightarrow> bool \<Rightarrow> Publisher \<Rightarrow> bool" where
  "pub_ok s idx running pub \<longleftrightarrow>
     pb_stream_id_str pub = stream_name s idx \<and> pb_signaling_url pub = signal_url s
   \<and> (pb_streamer pub \<noteq> None) = running
   \<and> pb_signaling pub = (if running then Some (new_SignalingClient (signal_url s) ''publisher'' (stream_name s idx)) else None)"

definition stream_ok :: "SvcState \<Rightarrow> librflow_svc_stream_s \<Rightarrow> bool" where
  "stream_ok s sh \<longleftrightarrow> st_magic sh = svc_kMagicStream \<and> sp_magic (st_param sh) = svc_kMagicStreamParam
   \<and> st_state sh = (if st_started sh then RFLOW_STREAM_OPENED else RFLOW_STREAM_IDLE)
   \<and> (st_started_at sh \<noteq> None) = st_started sh
   \<and> (case st_impl sh of None \<Rightarrow> False | Some pub \<Rightarrow> pub_ok s (st_stream_idx sh) (st_started sh) pub)"

definition svc_ok :: "Svc \<Rightarrow> bool" where
  "svc_ok w \<longleftrightarrow> (let s = w_state w in
     sv_lifecycle s \<noteq> kConnecting
   \<and> w_infra w = (if sv_lifecycle s = kUninit then infra_down else infra_up)
   \<and> sv_has_connect_cb s = (sv_lifecycle s = kConnected)
   \<and> (sv_lifecycle s = kConnected \<or> sv_streams s = [])
   \<and> (sv_lifecycle s \<noteq> kConnected \<or> ci_device_id (sv_connect_info s) \<noteq> [])
   \<and> distinct (keys (sv_streams s))
   \<and> (\<forall>h sh. map_of (sv_streams s) h = Some sh \<longrightarrow> stream_ok s sh))"

lemma upd_simps [simp]:
  "w_state (upd f w) = f (w_state w)" "w_proc (upd f w) = w_proc w" "w_infra (upd f w) = w_infra w" "w_log (upd f w) = w_log w"
  by (simp_all add: upd_def)

lemma log_events_simps [simp]:
  "w_state (log_events es w) = w_state w" "w_proc (log_events es w) = w_proc w" "w_infra (log_events es w) = w_infra w"
  "w_log (log_events es w) = w_log w @ es"
  by (simp_all add: log_events_def)

lemma fail_with_simps [simp]:
  "w_state (fail_with now c m og w) = w_state w" "w_infra (fail_with now c m og w) = w_infra w"
  "w_log (fail_with now c m og w) = w_log w" "FindStream h (fail_with now c m og w) = FindStream h w"
  "magic_at stale h (fail_with now c m og w) = magic_at stale h w"
  by (simp_all add: fail_with_def FindStream_def magic_at_def)

lemma put_stream_simps [simp]:
  "sv_lifecycle (w_state (put_stream h sh w)) = sv_lifecycle (w_state w)"
  "sv_connect_info (w_state (put_stream h sh w)) = sv_connect_info (w_state w)"
  "sv_global_config (w_state (put_stream h sh w)) = sv_global_config (w_state w)"
  "sv_has_connect_cb (w_state (put_stream h sh w)) = sv_has_connect_cb (w_state w)"
  "sv_streams (w_state (put_stream h sh w)) = AList.update h sh (sv_streams (w_state w))"
  "w_infra (put_stream h sh w) = w_infra w" "w_log (put_stream h sh w) = w_log w" "w_proc (put_stream h sh w) = w_proc w"
  "FindStream h' (put_stream h sh w) = (if h' = h then Some sh else FindStream h' w)"
  by (simp_all add: put_stream_def FindStream_def)

lemma FindStream_log [simp]: "FindStream h (log_events es w) = FindStream h w"
  by (simp add: FindStream_def)

text \<open>A stream only depends on the connection data of the state.\<close>

lemma stream_ok_cong:
  "sv_connect_info s' = sv_connect_info s \<Longrightarrow> sv_global_config s' = sv_global_config s \<Longrightarrow> stream_ok s' sh = stream_ok s sh"
  by (simp add: stream_ok_def pub_ok_def stream_name_def signal_url_def split: option.split)

lemma svc_ok_same:
  "svc_ok w \<Longrightarrow> w_state w' = w_state w \<Longrightarrow> w_infra w' = w_infra w \<Longrightarrow> svc_ok w'"
  by (simp add: svc_ok_def)

lemma svc_ok_log [simp]: "svc_ok (log_events es w) = svc_ok w" "svc_ok (fail_with now e m og w) = svc_ok w"
  by (simp_all add: svc_ok_def)

lemma log_keeps:
  "svc_ok (snd (librflow_svc_log_set_level level w)) = svc_ok w"
  "svc_ok (snd (librflow_svc_log_set_callback lcb ud w)) = svc_ok w"
  by (simp_all add: librflow_svc_log_set_level_def librflow_svc_log_set_callback_def svc_ok_def)

lemma svc_ok_put:
  assumes "svc_ok w" and "sv_lifecycle (w_state w) = kConnected" and "stream_ok (w_state w) sh"
  shows "svc_ok (put_stream h sh w)"
proof -
  have "stream_ok (w_state (put_stream h sh w)) x = stream_ok (w_state w) x" for x
    by (rule stream_ok_cong) simp_all
  then show ?thesis using assms by (simp add: svc_ok_def Let_def)
qed

lemma svc_ok_found:
  assumes "svc_ok w" and "FindStream h w = Some sh"
  shows "stream_ok (w_state w) sh" and "sv_lifecycle (w_state w) = kConnected"
proof -
  show "stream_ok (w_state w) sh" using assms by (simp add: svc_ok_def FindStream_def Let_def)
  have "sv_streams (w_state w) \<noteq> []" using assms(2) by (auto simp: FindStream_def)
  then show "sv_lifecycle (w_state w) = kConnected" using assms(1) by (auto simp: svc_ok_def Let_def)
qed

lemma stream_ok_impl:
  assumes "stream_ok s sh"
  obtains pub where "st_impl sh = Some pub" and "pub_ok s (st_stream_idx sh) (st_started sh) pub"
  using assms by (auto simp: stream_ok_def split: option.splits)

section \<open>Every call keeps the invariant\<close>

lemma config_keeps: "svc_ok w \<Longrightarrow> svc_ok (snd (librflow_svc_set_global_config now cfg w))"
  by (auto simp: librflow_svc_set_global_config_def svc_ok_def Let_def)

lemma init_keeps: "svc_ok w \<Longrightarrow> svc_ok (snd (librflow_svc_init th rt sg w))"
  by (auto simp: librflow_svc_init_def svc_ok_def Let_def infra_cases)

lemma connect_keeps: "svc_ok w \<Longrightarrow> svc_ok (snd (librflow_svc_connect info cb w))"
  by (auto simp: librflow_svc_connect_def ConnectStateTransition_def ValidateConnectTransition_def svc_ok_def Let_def)

lemma disconnect_state:
  "svc_ok w \<Longrightarrow> w_state (snd (librflow_svc_disconnect w)) =
     (if sv_lifecycle (w_state w) = kConnected
      then (w_state w)\<lparr>sv_streams := [], sv_has_connect_cb := False, sv_lifecycle := kInited\<rparr> else w_state w)
   \<and> w_infra (snd (librflow_svc_disconnect w)) = w_infra w \<and> w_proc (snd (librflow_svc_disconnect w)) = w_proc w"
  by (auto simp: librflow_svc_disconnect_def DisconnectStateTransition_def BroadcastStreamStateToAllCb_def svc_ok_def Let_def)

lemma disconnect_keeps: "svc_ok w \<Longrightarrow> svc_ok (snd (librflow_svc_disconnect w))"
  using disconnect_state [of w] by (auto simp: svc_ok_def Let_def)

lemma uninit_state:
  assumes "svc_ok w"
  shows "sv_lifecycle (w_state (snd (librflow_svc_uninit w))) = kUninit \<and> sv_streams (w_state (snd (librflow_svc_uninit w))) = []
    \<and> sv_has_connect_cb (w_state (snd (librflow_svc_uninit w))) = False
    \<and> w_infra (snd (librflow_svc_uninit w)) = infra_down"
  using assms disconnect_state [OF assms] by (auto simp: librflow_svc_uninit_def svc_ok_def Let_def)

lemma uninit_keeps: "svc_ok w \<Longrightarrow> svc_ok (snd (librflow_svc_uninit w))"
  using uninit_state [of w] by (simp add: svc_ok_def Let_def)

lemma new_stream_ok: "stream_ok s (new_stream idx param cb s)"
  using publisher_fields
  by (simp add: new_stream_def stream_ok_def pub_ok_def signal_url_def Let_def)

lemma create_keeps:
  assumes "svc_ok w"
  shows "svc_ok (snd (snd (librflow_svc_create_stream now addr idx param cb out w)))"
proof -
  have "svc_ok (put_stream addr (new_stream idx (the param) cb (w_state w)) w)" if "sv_lifecycle (w_state w) = kConnected"
    using svc_ok_put [OF assms that new_stream_ok] .
  then show ?thesis
    using assms by (auto simp: librflow_svc_create_stream_def require_connected_locked_def)
qed

lemma publisher_Start_ok:
  assumes "pub_ok s idx running pub" and "publisher_Start env a b pub = (ok, pub')"
  shows "pub_ok s idx (running \<or> ok) pub'" and "running \<Longrightarrow> ok"
  using assms by (auto simp: publisher_Start_def pub_ok_def Let_def split: if_splits)

lemma start_keeps:
  assumes "svc_ok w"
  shows "svc_ok (snd (librflow_svc_start_stream now env a b stale h w))"
proof (cases h)
  case None
  then show ?thesis using assms by (simp add: librflow_svc_start_stream_def)
next
  case (Some x)
  show ?thesis
  proof (cases "magic_at stale x w \<noteq> svc_kMagicStream \<or> FindStream x w = None")
    case True
    then show ?thesis using Some assms by (auto simp: librflow_svc_start_stream_def)
  next
    case False
    then obtain sh where f: "FindStream x w = Some sh" and m: "magic_at stale x w = svc_kMagicStream" by auto
    note so = svc_ok_found [OF assms f]
    obtain pub where pub: "st_impl sh = Some pub" "pub_ok (w_state w) (st_stream_idx sh) (st_started sh) pub"
      by (rule stream_ok_impl [OF so(1)])
    obtain ok pub' where st: "publisher_Start env a b pub = (ok, pub')" by (cases "publisher_Start env a b pub")
    note p = publisher_Start_ok [OF pub(2) st]
    show ?thesis
    proof (cases ok)
      case True
      have "stream_ok (w_state w) (MarkStreamStarted now (sh\<lparr>st_impl := Some pub'\<rparr>))"
        using so(1) p True by (simp add: stream_ok_def MarkStreamStarted_def)
      from svc_ok_put [OF assms so(2) this, of x] show ?thesis
        using True f m Some pub st
        by (simp add: librflow_svc_start_stream_def Let_def)
    next
      case False
      then have "\<not> st_started sh" using p(2) by blast
      then have "stream_ok (w_state w) (sh\<lparr>st_impl := Some pub'\<rparr>)"
        using so(1) p(1) False by (simp add: stream_ok_def)
      then have "svc_ok (put_stream x (sh\<lparr>st_impl := Some pub'\<rparr>) (fail_with now e msg og w))" for e msg og
        using so(2) assms by (intro svc_ok_put) simp_all
      then show ?thesis
        using False f m Some pub st by (simp add: librflow_svc_start_stream_def Let_def)
    qed
  qed
qed

lemma stop_keeps:
  assumes "svc_ok w"
  shows "svc_ok (snd (librflow_svc_stop_stream stale h w))"
proof -
  have "svc_ok (put_stream x (MarkStreamStopped (sh\<lparr>st_impl := map_option publisher_Stop (st_impl sh)\<rparr>)) w)"
    if f: "FindStream x w = Some sh" for x sh
  proof -
    note so = svc_ok_found [OF assms f]
    obtain pub where pub: "st_impl sh = Some pub" "pub_ok (w_state w) (st_stream_idx sh) (st_started sh) pub"
      by (rule stream_ok_impl [OF so(1)])
    have "stream_ok (w_state w) (MarkStreamStopped (sh\<lparr>st_impl := map_option publisher_Stop (st_impl sh)\<rparr>))"
      using so(1) pub by (simp add: stream_ok_def MarkStreamStopped_def publisher_Stop_def pub_ok_def)
    then show ?thesis by (rule svc_ok_put [OF assms so(2)])
  qed
  then show ?thesis
    using assms
    by (auto simp: librflow_svc_stop_stream_def Let_def split: option.split)
qed

lemma destroy_keeps:
  assumes "svc_ok w"
  shows "svc_ok (snd (librflow_svc_destroy_stream h w))"
proof -
  have "svc_ok (upd (\<lambda>s. s\<lparr>sv_streams := AList.delete x (sv_streams s)\<rparr>) w)" if "FindStream x w = Some sh" for x sh
  proof -
    have "stream_ok ((w_state w)\<lparr>sv_streams := l\<rparr>) y = stream_ok (w_state w) y" for l y
      by (rule stream_ok_cong) simp_all
    then show ?thesis using assms svc_ok_found(2) [OF assms that] by (simp add: svc_ok_def Let_def)
  qed
  then show ?thesis
    using assms
    by (auto simp: librflow_svc_destroy_stream_def RemoveStream_def split: option.split)
qed

lemma bitrate_keeps:
  assumes "svc_ok w"
  shows "svc_ok (snd (librflow_svc_stream_set_bitrate stale h kbps w))"
proof -
  have "svc_ok (put_stream x (sh\<lparr>st_param := (st_param sh)\<lparr>sp_bitrate_kbps := kbps\<rparr>\<rparr>) w)" if f: "FindStream x w = Some sh" for x sh
  proof -
    note so = svc_ok_found [OF assms f]
    have "stream_ok (w_state w) (sh\<lparr>st_param := (st_param sh)\<lparr>sp_bitrate_kbps := kbps\<rparr>\<rparr>)"
      using so(1) by (simp add: stream_ok_def split: option.splits)
    then show ?thesis by (rule svc_ok_put [OF assms so(2)])
  qed
  then show ?thesis
    using assms by (auto simp: librflow_svc_stream_set_bitrate_def split: option.split)
qed

subsection \<open>Pushing a frame\<close>

text \<open>When a frame may be pushed on a stream, and the resulting code, as a decision list.\<close>

definition push_verdict :: "bool \<Rightarrow> librflow_svc_push_frame_s \<Rightarrow> librflow_svc_stream_s \<Rightarrow> Publisher \<Rightarrow> rflow_err_t" where
  "push_verdict taken f sh pub =
     (if \<not> st_started sh \<or> pb_use_internal_video_source pub then RFLOW_ERR_STATE
      else if pf_data f = [] \<or> push_width f (st_param sh) \<le> 0 \<or> push_height f (st_param sh) \<le> 0 then RFLOW_ERR_PARAM
      else if push_codec f pub \<noteq> RFLOW_CODEC_I420 \<and> push_codec f pub \<noteq> RFLOW_CODEC_NV12 then RFLOW_ERR_STREAM_CODEC_UNSUPP
      else if taken then RFLOW_OK else RFLOW_ERR_FAIL)"

lemma push_outcome:
  assumes "svc_ok w" and f: "FindStream h w = Some sh" and "pf_magic fr = kMagicPushFrame"
  shows "\<exists>pub. st_impl sh = Some pub \<and>
     (let (rc, w') = librflow_svc_push_video_frame now taken stale (Some h) (Some fr) w
      in rc = push_verdict taken fr sh pub \<and> w_infra w' = w_infra w \<and> w_log w' = w_log w
       \<and> (if rc = RFLOW_OK
          then w_state w' = w_state (put_stream h (sh\<lparr>st_impl := Some (pub\<lparr>pb_video_frames_pushed := pb_video_frames_pushed pub + 1\<rparr>)\<rparr>) w)
          else w_state w' = w_state w \<or> w_state w' = w_state (put_stream h sh w)))"
proof -
  note so = svc_ok_found [OF assms(1) f]
  obtain pub where pub: "st_impl sh = Some pub" "pub_ok (w_state w) (st_stream_idx sh) (st_started sh) pub"
    by (rule stream_ok_impl [OF so(1)])
  have m: "magic_at stale h w = svc_kMagicStream" using f so(1) by (simp add: magic_at_def stream_ok_def)
  have str: "pb_streamer pub \<noteq> None" if "st_started sh" using pub(2) that by (simp add: pub_ok_def)
  have "sh\<lparr>st_impl := Some pub\<rparr> = sh" using pub(1) by simp
  then have same: "put_stream h (sh\<lparr>st_impl := Some pub\<rparr>) w = put_stream h sh w" by (rule arg_cong)
  show ?thesis
    using f m pub(1) assms(3) str
    unfolding librflow_svc_push_video_frame_def push_verdict_def Let_def
    by (auto simp: uses_external_video_source_def publisher_Push_def same)
qed

lemma put_same:
  assumes "svc_ok w" and "FindStream h w = Some sh"
  shows "svc_ok (put_stream h sh w)"
  using svc_ok_put [OF assms(1) svc_ok_found(2) [OF assms] svc_ok_found(1) [OF assms]] .

lemma push_keeps:
  assumes "svc_ok w"
  shows "svc_ok (snd (librflow_svc_push_video_frame now taken stale h frame w))"
proof (cases "\<exists>x sh fr. h = Some x \<and> FindStream x w = Some sh \<and> frame = Some fr \<and> pf_magic fr = kMagicPushFrame")
  case True
  then obtain x sh fr where h: "h = Some x" and f: "FindStream x w = Some sh" and fr: "frame = Some fr" "pf_magic fr = kMagicPushFrame"
    by auto
  obtain rc w' where p: "librflow_svc_push_video_frame now taken stale (Some x) (Some fr) w = (rc, w')"
    by (cases "librflow_svc_push_video_frame now taken stale (Some x) (Some fr) w")
  obtain pub where pub: "st_impl sh = Some pub" and o: "w_infra w' = w_infra w"
    "if rc = RFLOW_OK
     then w_state w' = w_state (put_stream x (sh\<lparr>st_impl := Some (pub\<lparr>pb_video_frames_pushed := pb_video_frames_pushed pub + 1\<rparr>)\<rparr>) w)
     else w_state w' = w_state w \<or> w_state w' = w_state (put_stream x sh w)"
    using push_outcome [OF assms f fr(2), of now taken stale] p by auto
  note so = svc_ok_found [OF assms f]
  have "stream_ok (w_state w) (sh\<lparr>st_impl := Some (pub\<lparr>pb_video_frames_pushed := pb_video_frames_pushed pub + 1\<rparr>)\<rparr>)"
    using so(1) pub by (simp add: stream_ok_def pub_ok_def)
  note q = svc_ok_put [OF assms so(2) this, of x]
  have "svc_ok w'"
  proof (cases "rc = RFLOW_OK")
    case True
    then show ?thesis using o by (intro svc_ok_same [OF q]) simp_all
  next
    case False
    then show ?thesis using o svc_ok_same [OF assms] svc_ok_same [OF put_same [OF assms f]] by auto
  qed
  then show ?thesis using h fr p by simp
next
  case False
  then have "w_state (snd (librflow_svc_push_video_frame now taken stale h frame w)) = w_state w
    \<and> w_infra (snd (librflow_svc_push_video_frame now taken stale h frame w)) = w_infra w"
    by (cases h; cases frame) (auto simp: librflow_svc_push_video_frame_def split: option.split)
  then show ?thesis using svc_ok_same [OF assms] by simp
qed

lemmas svc_keeps = config_keeps init_keeps uninit_keeps connect_keeps disconnect_keeps create_keeps start_keeps
  stop_keeps destroy_keeps push_keeps bitrate_keeps

lemma svc_world_init_ok: "svc_ok svc_world_init"
  by (simp add: svc_ok_def svc_world_init_def svc_state_init_def)

lemma sdk_step_ok: "sdk_step w w' \<Longrightarrow> svc_ok w \<Longrightarrow> svc_ok w'"
  by (induction rule: sdk_step.induct) (simp_all add: svc_keeps log_keeps)

lemma sdk_reachable_ok: "sdk_reachable w \<Longrightarrow> svc_ok w"
  by (induction rule: sdk_reachable.induct) (simp_all add: svc_world_init_ok sdk_step_ok)

section \<open>Properties\<close>

text \<open>
  C17: In every reachable state of the publishing side: no call leaves the state between
  connecting and connected; thread pool, WebRTC and signaling are up exactly when the SDK is
  initialised; streams exist only while it is connected, with a non-empty device id and a
  connect callback; and each stream's recorded state, start time, push streamer and signaling
  session agree on whether it is started, its session registering as publisher under the
  device id and stream index at the configured signaling address.
\<close>

theorem svc_lifecycle_invariant:
  assumes "sdk_reachable w"
  shows "sv_lifecycle (w_state w) \<noteq> kConnecting
    \<and> w_infra w = (if sv_lifecycle (w_state w) = kUninit then infra_down else infra_up)
    \<and> sv_has_connect_cb (w_state w) = (sv_lifecycle (w_state w) = kConnected)
    \<and> (\<forall>h sh. FindStream h w = Some sh \<longrightarrow>
         sv_lifecycle (w_state w) = kConnected \<and> ci_device_id (sv_connect_info (w_state w)) \<noteq> []
       \<and> (\<exists>pub. st_impl sh = Some pub
         \<and> pb_stream_id_str pub = stream_name (w_state w) (st_stream_idx sh)
         \<and> (if st_started sh
            then st_state sh = RFLOW_STREAM_OPENED \<and> st_started_at sh \<noteq> None \<and> pb_streamer pub \<noteq> None
               \<and> (\<exists>c. pb_signaling pub = Some c
                    \<and> sgc_session c = MakeSessionConfig (signal_url (w_state w)) ''publisher'' (stream_name (w_state w) (st_stream_idx sh)))
            else st_state sh = RFLOW_STREAM_IDLE \<and> st_started_at sh = None \<and> pb_streamer pub = None \<and> pb_signaling pub = None)))"
proof -
  have ok: "svc_ok w" by (rule sdk_reachable_ok [OF assms(1)])
  have "sv_lifecycle (w_state w) = kConnected \<and> ci_device_id (sv_connect_info (w_state w)) \<noteq> []
       \<and> (\<exists>pub. st_impl sh = Some pub
         \<and> pb_stream_id_str pub = stream_name (w_state w) (st_stream_idx sh)
         \<and> (if st_started sh
            then st_state sh = RFLOW_STREAM_OPENED \<and> st_started_at sh \<noteq> None \<and> pb_streamer pub \<noteq> None
               \<and> (\<exists>c. pb_signaling pub = Some c
                    \<and> sgc_session c = MakeSessionConfig (signal_url (w_state w)) ''publisher'' (stream_name (w_state w) (st_stream_idx sh)))
            else st_state sh = RFLOW_STREAM_IDLE \<and> st_started_at sh = None \<and> pb_streamer pub = None \<and> pb_signaling pub = None))"
    if f: "FindStream h w = Some sh" for h sh
  proof -
    note so = svc_ok_found [OF ok f]
    obtain pub where pub: "st_impl sh = Some pub" "pub_ok (w_state w) (st_stream_idx sh) (st_started sh) pub"
      by (rule stream_ok_impl [OF so(1)])
    show ?thesis
      using ok pub so publisher_registers by (auto simp: stream_ok_def pub_ok_def svc_ok_def Let_def)
  qed
  then show ?thesis using ok by (auto simp: svc_ok_def Let_def)
qed

text \<open>A short session: configure nothing, initialise, connect, create and start one stream.\<close>

definition demo_info :: librflow_svc_connect_info_s where
  "demo_info = svc_connect_info_zero\<lparr>ci_magic := svc_kMagicConnectInfo, ci_device_id := ''robot7''\<rparr>"

definition demo_connect_cb :: librflow_svc_connect_cb_s where
  "demo_connect_cb = svc_connect_cb_zero\<lparr>cc_magic := svc_kMagicConnectCb\<rparr>"

definition demo_connected :: Svc where
  "demo_connected = snd (librflow_svc_connect (Some demo_info) (Some demo_connect_cb)
     (snd (librflow_svc_init True True True svc_world_init)))"

definition demo_created :: Svc where
  "demo_created = snd (snd (librflow_svc_create_stream 0 1 3 (Some fresh_param) None (Some None) demo_connected))"

definition demo_started :: Svc where
  "demo_started = snd (librflow_svc_start_stream 5 Map.empty True True 0 (Some 1) demo_created)"

lemma demo_connected_views:
  "sv_lifecycle (w_state demo_connected) = kConnected" "sv_streams (w_state demo_connected) = []"
  "sv_connect_info (w_state demo_connected) = demo_info" "sv_global_config (w_state demo_connected) = global_config_zero"
  by (simp_all add: demo_connected_def librflow_svc_connect_def ConnectStateTransition_def ValidateConnectTransition_def
      librflow_svc_init_def infra_cases svc_world_init_def svc_state_init_def demo_info_def demo_connect_cb_def Let_def)

lemma demo_created_eq:
  "demo_created = put_stream 1 (new_stream 3 fresh_param None (w_state demo_connected)) demo_connected"
  using fresh_param_ok
  by (simp add: demo_created_def librflow_svc_create_stream_def require_connected_locked_def demo_connected_views svc_param_ok_def)

lemma demo_reachable: "sdk_reachable demo_created" "sdk_reachable demo_started"
proof -
  have c: "sdk_reachable demo_connected"
    unfolding demo_connected_def by (intro sdk_next [OF _ step_connect] sdk_next [OF _ step_init] sdk_start)
  then show cr: "sdk_reachable demo_created"
    unfolding demo_created_def by (rule sdk_next) (simp add: step_create FindStream_def demo_connected_views)
  show "sdk_reachable demo_started" unfolding demo_started_def by (rule sdk_next [OF cr step_start])
qed

lemma fresh_param_flags:
  "\<not> sp_has_video_device_path fresh_param" "\<not> sp_has_video_device_index fresh_param" "\<not> sp_has_in_codec fresh_param"
  "fresh_param\<lparr>sp_magic := svc_kMagicStreamParam\<rparr> = fresh_param"
  by (simp_all add: fresh_param_def librflow_svc_stream_param_create_def CreateMagicObject_def svc_stream_param_zero_def)

lemma fresh_in_codec:
  "\<not> sp_has_in_codec (st_param sh) \<Longrightarrow> pb_in_codec (CreatePublisherImplForStream sh s idx) = RFLOW_CODEC_I420"
  by (simp add: CreatePublisherImplForStream_def new_Publisher_def Let_def)

lemma demo_started_found:
  "\<exists>sh. FindStream 1 demo_started = Some sh \<and> st_started sh \<and> st_stream_idx sh = 3
      \<and> st_param sh = fresh_param \<and> (\<exists>pub. st_impl sh = Some pub \<and> pb_in_codec pub = RFLOW_CODEC_I420
            \<and> \<not> pb_use_internal_video_source pub)"
proof -
  have "FindStream 1 demo_created = Some (new_stream 3 fresh_param None (w_state demo_connected))"
    by (simp add: demo_created_eq)
  then show ?thesis
    using publisher_fields(10,12) [of "\<lparr> st_magic = svc_kMagicStream, st_stream_idx = 3, st_state = RFLOW_STREAM_IDLE,
                 st_param = fresh_param\<lparr>sp_magic := svc_kMagicStreamParam\<rparr>, st_cb = svc_stream_cb_zero,
                 st_started = False, st_started_at = None, st_impl = None \<rparr>" "w_state demo_connected" 3]
      svc_param_okD(1) [OF fresh_param_ok]
    by (simp add: demo_started_def librflow_svc_start_stream_def magic_at_def new_stream_def publisher_Start_def
        MarkStreamStarted_def Let_def fresh_param_flags fresh_in_codec)
qed

theorem svc_lifecycle_invariant_witness:
  "sv_lifecycle (w_state demo_started) = kConnected
   \<and> (\<exists>sh pub. FindStream 1 demo_started = Some sh \<and> st_impl sh = Some pub \<and> pb_stream_id_str pub = stream_name (w_state demo_started) 3
        \<and> st_state sh = RFLOW_STREAM_OPENED)"
proof -
  obtain sh where sh: "FindStream 1 demo_started = Some sh" "st_started sh" "st_stream_idx sh = 3"
    using demo_started_found by blast
  note inv = svc_lifecycle_invariant [OF demo_reachable(2)]
  have "\<forall>h sh. FindStream h demo_started = Some sh \<longrightarrow>
      sv_lifecycle (w_state demo_started) = kConnected
    \<and> (\<exists>pub. st_impl sh = Some pub \<and> pb_stream_id_str pub = stream_name (w_state demo_started) (st_stream_idx sh)
        \<and> (st_started sh \<longrightarrow> st_state sh = RFLOW_STREAM_OPENED))"
    using inv by (metis (no_types, lifting))
  from this [rule_format, OF sh(1)] sh show ?thesis by (auto simp del: One_nat_def)
qed


definition demo_push :: librflow_svc_push_frame_s where
  "demo_push = push_frame_zero\<lparr>pf_magic := kMagicPushFrame, pf_data := [1, 2, 3, 4, 5, 6], pf_width := 2, pf_height := 2, pf_has_size := True\<rparr>"


text \<open>
  The life of a stream. In a reachable connected state, creating a stream at a free address
  with valid parameters succeeds and returns its handle; starting it, when signaling and
  streamer come up, opens it and reports so to its callback; destroying it reports that it is
  closed and forgets it; from then on a further destroy does nothing, and every other call on
  the handle is an error that changes no stream, whatever word is found behind the handle.
\<close>

theorem svc_stream_life:
  assumes "sdk_reachable w" and "sv_lifecycle (w_state w) = kConnected" and "FindStream a w = None"
    and "sp_magic p = svc_kMagicStreamParam" and "scb_magic cb = svc_kMagicStreamCb" and "scb_on_state cb = Some f"
    and "librflow_svc_create_stream now a idx (Some p) (Some cb) (Some None) w = (rc1, out, w1)"
    and "librflow_svc_start_stream now env True True stale (Some a) w1 = (rc2, w2)"
    and "librflow_svc_destroy_stream (Some a) w2 = (rc3, w3)"
  shows "rc1 = RFLOW_OK \<and> out = Some (Some a) \<and> rc2 = RFLOW_OK \<and> rc3 = RFLOW_OK
    \<and> w_log w3 = w_log w @ [StreamState f a RFLOW_STREAM_OPENED RFLOW_OK (scb_userdata cb),
                            StreamState f a RFLOW_STREAM_CLOSED RFLOW_OK (scb_userdata cb)]
    \<and> (\<forall>h. FindStream h w3 = FindStream h w)
    \<and> librflow_svc_destroy_stream (Some a) w3 = (RFLOW_OK, w3)
    \<and> (let err = (if stale = svc_kMagicStream then RFLOW_ERR_NOT_FOUND else RFLOW_ERR_PARAM)
       in librflow_svc_start_stream now env sg st stale (Some a) w3 = (err, w3)
        \<and> librflow_svc_stop_stream stale (Some a) w3 = (err, w3)
        \<and> librflow_svc_stream_set_bitrate stale (Some a) kbps w3 = (err, w3))"
proof -
  let ?sh = "new_stream idx p (Some cb) (w_state w)"
  have c: "rc1 = RFLOW_OK" "out = Some (Some a)" "w1 = put_stream a ?sh w"
    using assms(2,4,5,7) by (simp_all add: librflow_svc_create_stream_def require_connected_locked_def)
  have cbs: "st_cb ?sh = cb" "st_magic ?sh = svc_kMagicStream" "\<not> st_started ?sh"
    using assms(5) by (simp_all add: new_stream_def Let_def)
  obtain pub where pub: "st_impl ?sh = Some pub" "pub_ok (w_state w) (st_stream_idx ?sh) (st_started ?sh) pub"
    by (rule stream_ok_impl [OF new_stream_ok])
  obtain pub' where st: "publisher_Start env True True pub = (True, pub')"
    using pub cbs by (auto simp: publisher_Start_def pub_ok_def Let_def)
  let ?sh2 = "MarkStreamStarted now (?sh\<lparr>st_impl := Some pub'\<rparr>)"
  have s: "rc2 = RFLOW_OK" "w2 = log_events [StreamState f a RFLOW_STREAM_OPENED RFLOW_OK (scb_userdata cb)] (put_stream a ?sh2 w1)"
    using assms(6,8) c(3) cbs pub(1) st
    by (auto simp: librflow_svc_start_stream_def magic_at_def stream_event_def Let_def)
  have cb2: "st_cb ?sh2 = cb" using cbs by (simp add: MarkStreamStarted_def)
  have d: "rc3 = RFLOW_OK" "w3 = log_events [StreamState f a RFLOW_STREAM_CLOSED RFLOW_OK (scb_userdata cb)]
      (upd (\<lambda>s. s\<lparr>sv_streams := AList.delete a (sv_streams s)\<rparr>) w2)"
    using assms(6,9) s(2) cb2
    by (auto simp: librflow_svc_destroy_stream_def RemoveStream_def stream_event_def split: option.splits)
  have find: "FindStream h w3 = FindStream h w" for h
    using assms(3) by (simp add: d(2) s(2) c(3) FindStream_def)
  then have gone: "FindStream a w3 = None" using assms(3) by simp
  have mag: "magic_at stale a w3 = stale" by (simp add: magic_at_def gone)
  show ?thesis
    using c s(1) d(1) find gone mag
    by (simp add: d(2) s(2) c(3) librflow_svc_destroy_stream_def RemoveStream_def librflow_svc_start_stream_def
        librflow_svc_stop_stream_def librflow_svc_stream_set_bitrate_def)
qed

definition demo_stream_cb :: librflow_svc_stream_cb_s where
  "demo_stream_cb = svc_stream_cb_zero\<lparr>scb_magic := svc_kMagicStreamCb, scb_on_state := Some 8, scb_userdata := 9\<rparr>"

theorem svc_stream_life_witness:
  "let w1 = snd (snd (librflow_svc_create_stream 0 1 3 (Some fresh_param) (Some demo_stream_cb) (Some None) demo_connected));
       w2 = snd (librflow_svc_start_stream 0 Map.empty True True 0 (Some 1) w1);
       w3 = snd (librflow_svc_destroy_stream (Some 1) w2)
   in w_log w3 = w_log demo_connected @ [StreamState 8 1 RFLOW_STREAM_OPENED RFLOW_OK 9, StreamState 8 1 RFLOW_STREAM_CLOSED RFLOW_OK 9]
    \<and> fst (librflow_svc_stop_stream 0 (Some 1) w3) = RFLOW_ERR_PARAM"
proof -
  have c: "sdk_reachable demo_connected"
    unfolding demo_connected_def by (intro sdk_next [OF _ step_connect] sdk_next [OF _ step_init] sdk_start)
  have f: "FindStream 1 demo_connected = None" by (simp add: FindStream_def demo_connected_views)
  have m: "svc_kMagicStream \<noteq> 0" by (simp add: svc_kMagicStream_def)
  have cb: "scb_magic demo_stream_cb = svc_kMagicStreamCb" "scb_on_state demo_stream_cb = Some 8" "scb_userdata demo_stream_cb = 9"
    by (simp_all add: demo_stream_cb_def)
  show ?thesis
    using svc_stream_life [OF c demo_connected_views(1) f svc_param_okD(1) [OF fresh_param_ok] cb(1,2),
        of 0 3 _ _ _ Map.empty 0] m cb(3)
    by (simp add: Let_def prod_eq_iff)
qed

text \<open>
  The global configuration takes effect and ends with the SDK. When it is set before
  initialisation with a list of plausible interface names, ICE ignores exactly those
  interfaces whatever the environment says, FlexFEC follows the configured mode, and the
  configured logger is installed; after the SDK is shut down the interface list and FlexFEC
  follow the environment again. Setting a configuration after initialisation is refused and
  changes nothing but the last error.
\<close>

theorem global_config_effect:
  assumes "sdk_reachable w" and "gc_magic g = kMagicGlobalConfig"
    and "gc_has_ice_ignore_interfaces g" and "gc_ice_ignore_interfaces g = join_names ns"
    and "list_all IsPlausibleInterfaceName ns"
    and "librflow_svc_set_global_config now (Some g) w = (rc, w')"
  shows "if sv_lifecycle (w_state w) = kUninit
    then rc = RFLOW_OK \<and> sv_global_config (w_state w') = g
       \<and> fst (IceIgnoreInterfacesEffective env (w_proc w')) = ns
       \<and> fst (FlexfecTrialEnabledEffective env (w_proc w')) =
           (case gc_flexfec g of RFLOW_GLOBAL_FLEXFEC_ON \<Rightarrow> True
            | RFLOW_GLOBAL_FLEXFEC_DEFAULT \<Rightarrow> fst (ReadBool env ''RFLOW_ENABLE_FLEXFEC'' (pr_knobs (w_proc w')))
            | _ \<Rightarrow> False)
       \<and> pr_logger (w_proc w') = (if gc_has_log g then \<lparr> g_log_level = lc_level (gc_log g), g_log_callback = lc_cb (gc_log g),
                                      g_log_userdata = lc_userdata (gc_log g) \<rparr> else pr_logger (w_proc w))
       \<and> (let w'' = snd (librflow_svc_uninit (snd (librflow_svc_init True True True w')))
          in fst (IceIgnoreInterfacesEffective env (w_proc w'')) = fst (ReadEnvIceIgnoreList env (pr_knobs (w_proc w'')))
           \<and> fst (FlexfecTrialEnabledEffective env (w_proc w'')) = fst (ReadBool env ''RFLOW_ENABLE_FLEXFEC'' (pr_knobs (w_proc w''))))
    else rc = RFLOW_ERR_STATE \<and> w_state w' = w_state w \<and> w_infra w' = w_infra w \<and> w_log w' = w_log w"
proof (cases "sv_lifecycle (w_state w) = kUninit")
  case False
  then show ?thesis using assms(6) by (auto simp: librflow_svc_set_global_config_def)
next
  case True
  have copy: "CopyGlobalConfig g = g" using assms(2) by (simp add: CopyGlobalConfig_def)
  have w': "rc = RFLOW_OK" "sv_global_config (w_state w') = g" "sv_lifecycle (w_state w') = kUninit"
      "g_ice_ignore_explicit (w_proc w') = Some ns"
      "g_flexfec_explicit (w_proc w') = (if gc_flexfec g = RFLOW_GLOBAL_FLEXFEC_DEFAULT then None
                                          else Some (gc_flexfec g = RFLOW_GLOBAL_FLEXFEC_ON))"
      "pr_logger (w_proc w') = ApplyLogConfigIfPresent g (pr_logger (w_proc w))"
    using True assms(2-4,6) parse_joined [OF assms(5)]
    by (auto simp: librflow_svc_set_global_config_def IsValidGlobalConfigHandle_def copy Let_def
        NotifyFlexfecTrialFromSdkConfig_def NotifyIceIgnoreInterfacesFromSdkConfig_def)
  have ok: "svc_ok w'" using config_keeps [OF sdk_reachable_ok [OF assms(1)], of now "Some g"] assms(6) by simp
  define w'' where "w'' = snd (librflow_svc_uninit (snd (librflow_svc_init True True True w')))"
  have i: "svc_ok (snd (librflow_svc_init True True True w'))" by (rule init_keeps [OF ok])
  have "sv_lifecycle (w_state (snd (librflow_svc_init True True True w'))) = kInited"
    using w'(3) ok by (simp add: librflow_svc_init_def svc_ok_def infra_cases Let_def)
  then have "g_ice_ignore_explicit (w_proc w'') = None" "g_flexfec_explicit (w_proc w'') = None"
    unfolding w''_def librflow_svc_uninit_def Let_def using disconnect_state [OF i]
    by (simp_all add: ResetIceIgnoreInterfacesSdkOverride_def ResetFlexfecTrialSdkOverride_def)
  then have e: "fst (IceIgnoreInterfacesEffective env (w_proc w'')) = fst (ReadEnvIceIgnoreList env (pr_knobs (w_proc w'')))"
    "fst (FlexfecTrialEnabledEffective env (w_proc w'')) = fst (ReadBool env ''RFLOW_ENABLE_FLEXFEC'' (pr_knobs (w_proc w'')))"
    by (simp_all add: IceIgnoreInterfacesEffective_def FlexfecTrialEnabledEffective_def split_beta)
  show ?thesis
    using True w' e unfolding w''_def
    by (auto simp: IceIgnoreInterfacesEffective_def FlexfecTrialEnabledEffective_def ApplyLogConfigIfPresent_def
        logger_apply_def Let_def split_beta split: rflow_global_flexfec_t.splits)
qed

definition demo_global :: librflow_global_config_s where
  "demo_global = global_config_zero\<lparr>gc_magic := kMagicGlobalConfig, gc_has_ice_ignore_interfaces := True,
     gc_ice_ignore_interfaces := ''eth0, docker0''\<rparr>"

theorem global_config_effect_witness:
  "fst (IceIgnoreInterfacesEffective [''RFLOW_ICE_IGNORE_INTERFACES'' \<mapsto> ''wlan0'']
     (w_proc (snd (librflow_svc_set_global_config 0 (Some demo_global) svc_world_init)))) = [''eth0'', ''docker0'']"
proof -
  have j: "gc_ice_ignore_interfaces demo_global = join_names [''eth0'', ''docker0'']" by (simp add: demo_global_def)
  have p: "list_all IsPlausibleInterfaceName [''eth0'', ''docker0'']" by code_simp
  have m: "gc_magic demo_global = kMagicGlobalConfig" "gc_has_ice_ignore_interfaces demo_global" by (simp_all add: demo_global_def)
  have u: "sv_lifecycle (w_state svc_world_init) = kUninit" by (simp add: svc_world_init_def svc_state_init_def)
  show ?thesis
    using global_config_effect [OF sdk_start m j p, of 0 _ _ "[''RFLOW_ICE_IGNORE_INTERFACES'' \<mapsto> ''wlan0'']"] u
    by (simp add: prod_eq_iff Let_def)
qed

end
