(* ===== verification/Client_Params.thy ===== *)
theory Client_Params
  imports Service_Params
begin

text \<open>
  The objects of the pulling side of the C interface (\<^verbatim>\<open>src/client/internal/handles.h\<close>,
  \<^verbatim>\<open>src/client/api_handles.cpp\<close>, \<^verbatim>\<open>src/client/api_stream_objects.cpp\<close>): connection data and
  callbacks, stream callbacks, and the stream parameters, which are an instance of the
  contract \<open>flagged_object\<close> like those of the publishing side. The token helpers of this file
  are the ones of the publishing side, word for word.
\<close>

section \<open>Connection objects\<close>

definition client_kMagicConnectInfo :: u32 where "client_kMagicConnectInfo = 0x52624349"
definition client_kMagicConnectCb :: u32 where "client_kMagicConnectCb = 0x52624343"
definition client_kMagicStreamParam :: u32 where "client_kMagicStreamParam = 0x52625350"
definition client_kMagicStreamCb :: u32 where "client_kMagicStreamCb = 0x52625343"
definition client_kMagicStream :: u32 where "client_kMagicStream = 0x52625348"

record librflow_connect_info_s =
  kci_magic :: u32
  kci_device_id :: string
  kci_device_secret :: string

record librflow_connect_cb_s =
  kcc_magic :: u32
  kcc_on_state :: fn_ptr
  kcc_on_notice :: fn_ptr
  kcc_on_service_req :: fn_ptr
  kcc_userdata :: nat

definition connect_info_zero :: librflow_connect_info_s where
  "connect_info_zero = \<lparr> kci_magic = 0, kci_device_id = [], kci_device_secret = [] \<rparr>"

definition connect_cb_zero :: librflow_connect_cb_s where
  "connect_cb_zero = \<lparr> kcc_magic = 0, kcc_on_state = None, kcc_on_notice = None, kcc_on_service_req = None, kcc_userdata = 0 \<rparr>"

definition librflow_connect_info_create :: "bool \<Rightarrow> librflow_connect_info_s option" where
  "librflow_connect_info_create alloc =
     CreateMagicObject alloc (\<lambda>m x. x\<lparr>kci_magic := m\<rparr>) connect_info_zero client_kMagicConnectInfo"

definition librflow_connect_info_destroy :: "librflow_connect_info_s option \<Rightarrow> librflow_connect_info_s option" where
  "librflow_connect_info_destroy info = DestroyMagicObject kci_magic info client_kMagicConnectInfo"

definition librflow_connect_info_set_device_id ::
  "librflow_connect_info_s option \<Rightarrow> string option \<Rightarrow> rflow_err_t \<times> librflow_connect_info_s option" where
  "librflow_connect_info_set_device_id info v =
     (if \<not> RFLOW_CHECK_HANDLE kci_magic info client_kMagicConnectInfo then (RFLOW_ERR_PARAM, info)
      else (RFLOW_OK, map_option (\<lambda>x. x\<lparr>kci_device_id := case_option [] id v\<rparr>) info))"

definition librflow_connect_info_set_device_secret ::
  "librflow_connect_info_s option \<Rightarrow> string option \<Rightarrow> rflow_err_t \<times> librflow_connect_info_s option" where
  "librflow_connect_info_set_device_secret info v =
     (if \<not> RFLOW_CHECK_HANDLE kci_magic info client_kMagicConnectInfo then (RFLOW_ERR_PARAM, info)
      else (RFLOW_OK, map_option (\<lambda>x. x\<lparr>kci_device_secret := case_option [] id v\<rparr>) info))"

definition librflow_connect_cb_create :: "bool \<Rightarrow> librflow_connect_cb_s option" where
  "librflow_connect_cb_create alloc =
     CreateMagicObject alloc (\<lambda>m x. x\<lparr>kcc_magic := m\<rparr>) connect_cb_zero client_kMagicConnectCb"

definition librflow_connect_cb_destroy :: "librflow_connect_cb_s option \<Rightarrow> librflow_connect_cb_s option" where
  "librflow_connect_cb_destroy cb = DestroyMagicObject kcc_magic cb client_kMagicConnectCb"

definition librflow_connect_cb_set_on_state ::
  "librflow_connect_cb_s option \<Rightarrow> fn_ptr \<Rightarrow> rflow_err_t \<times> librflow_connect_cb_s option" where
  "librflow_connect_cb_set_on_state cb v = RFLOW_SET_FIELD kcc_magic cb client_kMagicConnectCb (\<lambda>x. x\<lparr>kcc_on_state := v\<rparr>)"

definition librflow_connect_cb_set_on_notice ::
  "librflow_connect_cb_s option \<Rightarrow> fn_ptr \<Rightarrow> rflow_err_t \<times> librflow_connect_cb_s option" where
  "librflow_connect_cb_set_on_notice cb v = RFLOW_SET_FIELD kcc_magic cb client_kMagicConnectCb (\<lambda>x. x\<lparr>kcc_on_notice := v\<rparr>)"

definition librflow_connect_cb_set_on_service_req ::
  "librflow_connect_cb_s option \<Rightarrow> fn_ptr \<Rightarrow> rflow_err_t \<times> librflow_connect_cb_s option" where
  "librflow_connect_cb_set_on_service_req cb v = RFLOW_SET_FIELD kcc_magic cb client_kMagicConnectCb (\<lambda>x. x\<lparr>kcc_on_service_req := v\<rparr>)"

definition librflow_connect_cb_set_userdata ::
  "librflow_connect_cb_s option \<Rightarrow> nat \<Rightarrow> rflow_err_t \<times> librflow_connect_cb_s option" where
  "librflow_connect_cb_set_userdata cb v = RFLOW_SET_FIELD kcc_magic cb client_kMagicConnectCb (\<lambda>x. x\<lparr>kcc_userdata := v\<rparr>)"

section \<open>Stream callbacks\<close>

record librflow_stream_cb_s =
  kscb_magic :: u32
  kscb_on_state :: fn_ptr
  kscb_on_video :: fn_ptr
  kscb_on_stream_stats :: fn_ptr
  kscb_userdata :: nat

definition stream_cb_zero :: librflow_stream_cb_s where
  "stream_cb_zero = \<lparr> kscb_magic = 0, kscb_on_state = None, kscb_on_video = None, kscb_on_stream_stats = None, kscb_userdata = 0 \<rparr>"

definition librflow_stream_cb_create :: "bool \<Rightarrow> librflow_stream_cb_s option" where
  "librflow_stream_cb_create alloc =
     CreateMagicObject alloc (\<lambda>m x. x\<lparr>kscb_magic := m\<rparr>) stream_cb_zero client_kMagicStreamCb"

definition librflow_stream_cb_destroy :: "librflow_stream_cb_s option \<Rightarrow> librflow_stream_cb_s option" where
  "librflow_stream_cb_destroy cb = DestroyMagicObject kscb_magic cb client_kMagicStreamCb"

definition librflow_stream_cb_set_on_state ::
  "librflow_stream_cb_s option \<Rightarrow> fn_ptr \<Rightarrow> rflow_err_t \<times> librflow_stream_cb_s option" where
  "librflow_stream_cb_set_on_state cb v = RFLOW_SET_FIELD kscb_magic cb client_kMagicStreamCb (\<lambda>x. x\<lparr>kscb_on_state := v\<rparr>)"

definition librflow_stream_cb_set_on_video ::
  "librflow_stream_cb_s option \<Rightarrow> fn_ptr \<Rightarrow> rflow_err_t \<times> librflow_stream_cb_s option" where
  "librflow_stream_cb_set_on_video cb v = RFLOW_SET_FIELD kscb_magic cb client_kMagicStreamCb (\<lambda>x. x\<lparr>kscb_on_video := v\<rparr>)"

definition librflow_stream_cb_set_on_stream_stats ::
  "librflow_stream_cb_s option \<Rightarrow> fn_ptr \<Rightarrow> rflow_err_t \<times> librflow_stream_cb_s option" where
  "librflow_stream_cb_set_on_stream_stats cb v = RFLOW_SET_FIELD kscb_magic cb client_kMagicStreamCb (\<lambda>x. x\<lparr>kscb_on_stream_stats := v\<rparr>)"

definition librflow_stream_cb_set_userdata ::
  "librflow_stream_cb_s option \<Rightarrow> nat \<Rightarrow> rflow_err_t \<times> librflow_stream_cb_s option" where
  "librflow_stream_cb_set_userdata cb v = RFLOW_SET_FIELD kscb_magic cb client_kMagicStreamCb (\<lambda>x. x\<lparr>kscb_userdata := v\<rparr>)"

section \<open>Stream parameters\<close>

datatype rflow_video_output_mode_t =
    RFLOW_VIDEO_OUTPUT_MODE_CPU_PLANAR | RFLOW_VIDEO_OUTPUT_MODE_PREFER_GPU | RFLOW_VIDEO_OUTPUT_MODE_REQUIRE_GPU
  | video_output_mode_value int

record librflow_stream_param_s =
  kp_magic :: u32
  kp_preferred_codec :: rflow_codec_t
  kp_video_output_mode :: rflow_video_output_mode_t
  kp_max_width :: u32
  kp_max_height :: u32
  kp_fps :: u32
  kp_open_timeout_ms :: u32
  kp_has_preferred_codec :: bool
  kp_has_video_output_mode :: bool
  kp_has_max_size :: bool
  kp_has_fps :: bool
  kp_has_open_timeout_ms :: bool
  kp_stun_server :: string
  kp_turn_server :: string
  kp_turn_username :: string
  kp_turn_password :: string
  kp_has_stun_server :: bool
  kp_has_turn_server :: bool

type_synonym kparam_h = "librflow_stream_param_s option"
type_synonym kparam_r = "rflow_err_t \<times> librflow_stream_param_s option"

definition stream_param_zero :: librflow_stream_param_s where
  "stream_param_zero = \<lparr> kp_magic = 0, kp_preferred_codec = RFLOW_CODEC_UNKNOWN,
     kp_video_output_mode = RFLOW_VIDEO_OUTPUT_MODE_CPU_PLANAR, kp_max_width = 0, kp_max_height = 0, kp_fps = 0,
     kp_open_timeout_ms = 0, kp_has_preferred_codec = False, kp_has_video_output_mode = False, kp_has_max_size = False,
     kp_has_fps = False, kp_has_open_timeout_ms = False, kp_stun_server = [], kp_turn_server = [], kp_turn_username = [],
     kp_turn_password = [], kp_has_stun_server = False, kp_has_turn_server = False \<rparr>"

text \<open>After allocation the function assigns the values the members already have.\<close>

definition librflow_stream_param_create :: "bool \<Rightarrow> kparam_h" where
  "librflow_stream_param_create alloc =
     (case CreateMagicObject alloc (\<lambda>m x. x\<lparr>kp_magic := m\<rparr>) stream_param_zero client_kMagicStreamParam of
        None \<Rightarrow> None
      | Some p \<Rightarrow> Some (p\<lparr>kp_preferred_codec := RFLOW_CODEC_UNKNOWN, kp_video_output_mode := RFLOW_VIDEO_OUTPUT_MODE_CPU_PLANAR,
                          kp_max_width := 0, kp_max_height := 0, kp_fps := 0, kp_open_timeout_ms := 0,
                          kp_has_preferred_codec := False, kp_has_video_output_mode := False, kp_has_max_size := False,
                          kp_has_fps := False, kp_has_open_timeout_ms := False\<rparr>))"

definition librflow_stream_param_destroy :: "kparam_h \<Rightarrow> kparam_h" where
  "librflow_stream_param_destroy p = DestroyMagicObject kp_magic p client_kMagicStreamParam"

definition librflow_stream_param_set_preferred_codec :: "kparam_h \<Rightarrow> rflow_codec_t \<Rightarrow> kparam_r" where
  "librflow_stream_param_set_preferred_codec p v =
     RFLOW_SET_VALUE_WITH_FLAG kp_magic p client_kMagicStreamParam (\<lambda>x. x\<lparr>kp_preferred_codec := v\<rparr>) (\<lambda>x. x\<lparr>kp_has_preferred_codec := True\<rparr>)"

definition librflow_stream_param_set_preferred_fps :: "kparam_h \<Rightarrow> u32 \<Rightarrow> kparam_r" where
  "librflow_stream_param_set_preferred_fps p v =
     RFLOW_SET_VALUE_WITH_FLAG kp_magic p client_kMagicStreamParam (\<lambda>x. x\<lparr>kp_fps := v\<rparr>) (\<lambda>x. x\<lparr>kp_has_fps := True\<rparr>)"

definition librflow_stream_param_set_video_output_mode :: "kparam_h \<Rightarrow> rflow_video_output_mode_t \<Rightarrow> kparam_r" where
  "librflow_stream_param_set_video_output_mode p v =
     RFLOW_SET_VALUE_WITH_FLAG kp_magic p client_kMagicStreamParam (\<lambda>x. x\<lparr>kp_video_output_mode := v\<rparr>) (\<lambda>x. x\<lparr>kp_has_video_output_mode := True\<rparr>)"

definition librflow_stream_param_set_open_timeout_ms :: "kparam_h \<Rightarrow> u32 \<Rightarrow> kparam_r" where
  "librflow_stream_param_set_open_timeout_ms p v =
     RFLOW_SET_VALUE_WITH_FLAG kp_magic p client_kMagicStreamParam (\<lambda>x. x\<lparr>kp_open_timeout_ms := v\<rparr>) (\<lambda>x. x\<lparr>kp_has_open_timeout_ms := True\<rparr>)"

definition librflow_stream_param_set_preferred_max_size :: "kparam_h \<Rightarrow> u32 \<Rightarrow> u32 \<Rightarrow> kparam_r" where
  "librflow_stream_param_set_preferred_max_size p w h =
     RFLOW_SET_2_VALUES_WITH_FLAG kp_magic p client_kMagicStreamParam
       (\<lambda>x. x\<lparr>kp_max_width := w\<rparr>) (\<lambda>x. x\<lparr>kp_max_height := h\<rparr>) (\<lambda>x. x\<lparr>kp_has_max_size := True\<rparr>)"

definition librflow_stream_param_set_stun_server :: "kparam_h \<Rightarrow> string option \<Rightarrow> kparam_r" where
  "librflow_stream_param_set_stun_server p stun_url =
     (if \<not> RFLOW_CHECK_HANDLE kp_magic p client_kMagicStreamParam then (RFLOW_ERR_PARAM, p)
      else (let (rc, t) = CopyRequiredIceUrl stun_url (kp_stun_server (the p))
       in if rc \<noteq> RFLOW_OK then (rc, p)
          else (RFLOW_OK, map_option (\<lambda>x. x\<lparr>kp_stun_server := t, kp_has_stun_server := True\<rparr>) p)))"

definition librflow_stream_param_set_turn_server ::
  "kparam_h \<Rightarrow> string option \<Rightarrow> string option \<Rightarrow> string option \<Rightarrow> kparam_r" where
  "librflow_stream_param_set_turn_server p turn_url username password =
     (if \<not> RFLOW_CHECK_HANDLE kp_magic p client_kMagicStreamParam then (RFLOW_ERR_PARAM, p)
      else (let (rc1, url) = CopyRequiredIceUrl turn_url (kp_turn_server (the p))
       in if rc1 \<noteq> RFLOW_OK then (rc1, p)
          else let p1 = map_option (\<lambda>x. x\<lparr>kp_turn_server := url\<rparr>) p;
                   (rc2, user) = CopyOptionalIceCredential username (kp_turn_username (the p1))
               in if rc2 \<noteq> RFLOW_OK then (rc2, p1)
                  else let p2 = map_option (\<lambda>x. x\<lparr>kp_turn_username := user\<rparr>) p1;
                           (rc3, pass) = CopyOptionalIceCredential password (kp_turn_password (the p2))
                       in if rc3 \<noteq> RFLOW_OK then (rc3, p2)
                          else (RFLOW_OK, map_option (\<lambda>x. x\<lparr>kp_turn_password := pass, kp_has_turn_server := True\<rparr>) p2)))"

definition librflow_stream_param_get_preferred_codec :: "kparam_h \<Rightarrow> rflow_codec_t option \<Rightarrow> rflow_err_t \<times> rflow_codec_t option" where
  "librflow_stream_param_get_preferred_codec p out =
     RFLOW_GET_VALUE_WITH_FLAG kp_magic p client_kMagicStreamParam out kp_has_preferred_codec kp_preferred_codec"

definition librflow_stream_param_get_preferred_fps :: "kparam_h \<Rightarrow> u32 option \<Rightarrow> rflow_err_t \<times> u32 option" where
  "librflow_stream_param_get_preferred_fps p out =
     RFLOW_GET_VALUE_WITH_FLAG kp_magic p client_kMagicStreamParam out kp_has_fps kp_fps"

definition librflow_stream_param_get_open_timeout_ms :: "kparam_h \<Rightarrow> u32 option \<Rightarrow> rflow_err_t \<times> u32 option" where
  "librflow_stream_param_get_open_timeout_ms p out =
     RFLOW_GET_VALUE_WITH_FLAG kp_magic p client_kMagicStreamParam out kp_has_open_timeout_ms kp_open_timeout_ms"

definition librflow_stream_param_get_preferred_max_size ::
  "kparam_h \<Rightarrow> u32 option \<Rightarrow> u32 option \<Rightarrow> rflow_err_t \<times> u32 option \<times> u32 option" where
  "librflow_stream_param_get_preferred_max_size p out_w out_h =
     RFLOW_GET_2_VALUES_WITH_FLAG kp_magic p client_kMagicStreamParam out_w out_h kp_has_max_size kp_max_width kp_max_height"

definition librflow_stream_param_get_stun_server ::
  "kparam_h \<Rightarrow> string option \<Rightarrow> u32 \<Rightarrow> u32 option \<Rightarrow> rflow_err_t \<times> string option \<times> u32 option" where
  "librflow_stream_param_get_stun_server p buf buf_len out_needed =
     (if \<not> RFLOW_CHECK_HANDLE kp_magic p client_kMagicStreamParam then (RFLOW_ERR_PARAM, buf, out_needed)
      else if \<not> kp_has_stun_server (the p) then (RFLOW_ERR_NOT_FOUND, buf, out_needed)
      else CopyOutString (kp_stun_server (the p)) buf buf_len out_needed)"

definition librflow_stream_param_get_turn_server ::
  "kparam_h \<Rightarrow> string option \<Rightarrow> u32 \<Rightarrow> u32 option \<Rightarrow> string option \<Rightarrow> u32 \<Rightarrow> u32 option \<Rightarrow> string option \<Rightarrow> u32 \<Rightarrow> u32 option
     \<Rightarrow> rflow_err_t \<times> (string option \<times> u32 option) \<times> (string option \<times> u32 option) \<times> (string option \<times> u32 option)" where
  "librflow_stream_param_get_turn_server p b1 l1 n1 b2 l2 n2 b3 l3 n3 =
     (if \<not> RFLOW_CHECK_HANDLE kp_magic p client_kMagicStreamParam then (RFLOW_ERR_PARAM, (b1, n1), (b2, n2), (b3, n3))
      else if \<not> kp_has_turn_server (the p) then (RFLOW_ERR_NOT_FOUND, (b1, n1), (b2, n2), (b3, n3))
      else (let (rc, u) = CopyOutString (kp_turn_server (the p)) b1 l1 n1
       in if rc \<noteq> RFLOW_OK then (rc, u, (b2, n2), (b3, n3))
          else (RFLOW_OK, u, snd (CopyOutString (kp_turn_username (the p)) b2 l2 n2),
                snd (CopyOutString (kp_turn_password (the p)) b3 l3 n3))))"

end
