(* ===== verification/Client_Session.thy ===== *)
theory Client_Session
  imports Service_Publisher
begin

text \<open>
  The pulling side of one stream (\<^verbatim>\<open>src/client/impl/rtc_stream/rtc_stream_session.cpp\<close> and
  \<^verbatim>\<open>src/core/rtc/pending_ice_buffer.h\<close>): the session that registers as a subscriber, answers
  offers, holds back remote ICE candidates until the remote description is applied, and
  watches for a stalled decoder.

  WebRTC is outside: what it answers (whether a peer connection could be created, whether a
  description parses or is accepted) is an argument of the operation that asks, and what the
  session does to it is recorded in \<open>rs_events\<close>. Peer connections are numbered in the order
  of their creation. A callback WebRTC makes later is an operation of its own; \<open>pull_enabled\<close>
  says when it can arrive: while its observer is pending and the connection has not been
  replaced or closed. \<open>parses\<close> is WebRTC's candidate parser.

  Not modelled: the collection of statistics, the track callback and the decoded frames.
\<close>

section \<open>The buffer for early candidates\<close>

record PendingIce =
  ice_mid :: string
  ice_mline_index :: int
  ice_candidate :: string

record PendingIceBuffer =
  pib_pending :: "PendingIce list"
  pib_applied :: bool

definition pending_ice_init :: PendingIceBuffer where
  "pending_ice_init = \<lparr> pib_pending = [], pib_applied = False \<rparr>"

definition IsApplied :: "PendingIceBuffer \<Rightarrow> bool" where
  "IsApplied b = pib_applied b"

definition ResetUnapplied :: "PendingIceBuffer \<Rightarrow> PendingIceBuffer" where
  "ResetUnapplied b = b\<lparr>pib_applied := False, pib_pending := []\<rparr>"

definition pib_Clear :: "PendingIceBuffer \<Rightarrow> PendingIceBuffer" where
  "pib_Clear b = b\<lparr>pib_pending := []\<rparr>"

definition pib_Push :: "string \<Rightarrow> int \<Rightarrow> string \<Rightarrow> PendingIceBuffer \<Rightarrow> nat \<times> PendingIceBuffer" where
  "pib_Push mid idx cand b =
     (let b' = b\<lparr>pib_pending := pib_pending b @ [\<lparr> ice_mid = mid, ice_mline_index = idx, ice_candidate = cand \<rparr>]\<rparr>
      in (length (pib_pending b'), b'))"

definition MarkAppliedAndDrain :: "PendingIceBuffer \<Rightarrow> PendingIce list \<times> PendingIceBuffer" where
  "MarkAppliedAndDrain b = (pib_pending b, b\<lparr>pib_applied := True, pib_pending := []\<rparr>)"

section \<open>Settings from the environment\<close>

definition ReadEnvBoolDefaultWd :: "env \<Rightarrow> string \<Rightarrow> bool \<Rightarrow> bool" where
  "ReadEnvBoolDefaultWd env name def =
     (case env name of None \<Rightarrow> def
      | Some v \<Rightarrow> if v = [] then def
                  else if falsy (hd v) then False else if truthy (hd v) then True else def)"

text \<open>\<^verbatim>\<open>atoll\<close> reads the longest numeric prefix, as \<^verbatim>\<open>strtol\<close> does, and 0 when there is none.\<close>

definition ReadEnvIntWd :: "env \<Rightarrow> string \<Rightarrow> int \<Rightarrow> int \<Rightarrow> int \<Rightarrow> int" where
  "ReadEnvIntWd env name def lo hi =
     (case env name of None \<Rightarrow> def
      | Some v \<Rightarrow> if v = [] then def
                  else let n = fst (strtol10 v) in if n < lo \<or> n > hi then def else n)"

section \<open>The keyframe watchdog\<close>

text \<open>Times are readings of the monotonic clock in milliseconds.\<close>

record Watchdog =
  wd_enabled :: bool
  wd_stuck_threshold_ms :: int
  wd_cooldown_ms :: int
  wd_running :: bool
  wd_prev_frames_decoded :: u64
  wd_prev_packets_received :: u64
  wd_last_decode_progress_ms :: int
  wd_last_keyframe_kick_ms :: int
  wd_last_keyframe_kick_packets :: u64

definition watchdog_init :: "env \<Rightarrow> Watchdog" where
  "watchdog_init env =
     \<lparr> wd_enabled = ReadEnvBoolDefaultWd env ''RFLOW_RECEIVER_KEYFRAME_WATCHDOG'' True,
       wd_stuck_threshold_ms = ReadEnvIntWd env ''RFLOW_RECEIVER_WATCHDOG_STUCK_MS'' 300 50 5000,
       wd_cooldown_ms = ReadEnvIntWd env ''RFLOW_RECEIVER_WATCHDOG_COOLDOWN_MS'' 600 100 10000,
       wd_running = False, wd_prev_frames_decoded = 0, wd_prev_packets_received = 0,
       wd_last_decode_progress_ms = 0, wd_last_keyframe_kick_ms = 0, wd_last_keyframe_kick_packets = 0 \<rparr>"

definition StartWatchdogThread :: "int \<Rightarrow> Watchdog \<Rightarrow> Watchdog" where
  "StartWatchdogThread now wd =
     (if wd_running wd then wd
      else wd\<lparr>wd_running := True, wd_prev_frames_decoded := 0, wd_prev_packets_received := 0,
              wd_last_decode_progress_ms := now, wd_last_keyframe_kick_ms := 0,
              wd_last_keyframe_kick_packets := 0\<rparr>)"

definition StopWatchdogThread :: "Watchdog \<Rightarrow> Watchdog" where
  "StopWatchdogThread wd = wd\<lparr>wd_running := False\<rparr>"

text \<open>
  The part of \<^verbatim>\<open>OnWatchdogStats\<close> that decides about a kick, for a report with video; the rest
  of the function writes log lines. The result says whether the jitter buffer is kicked.
\<close>

definition OnWatchdogStats :: "int \<Rightarrow> u64 \<Rightarrow> u64 \<Rightarrow> Watchdog \<Rightarrow> bool \<times> Watchdog" where
  "OnWatchdogStats now frames packets wd =
     (let delta = (if frames \<ge> wd_prev_frames_decoded wd then frames - wd_prev_frames_decoded wd else 0);
          (kick, wd1) =
            (if \<not> wd_enabled wd then (False, wd)
             else let wd1 = (if delta > 0 then wd\<lparr>wd_last_decode_progress_ms := now, wd_last_keyframe_kick_packets := packets\<rparr>
                             else if wd_last_decode_progress_ms wd = 0 then wd\<lparr>wd_last_decode_progress_ms := now\<rparr> else wd);
                      stuck = now - wd_last_decode_progress_ms wd1;
                      flowing = (packets > wd_last_keyframe_kick_packets wd1);
                      cooled = (wd_last_keyframe_kick_ms wd1 = 0 \<or> now - wd_last_keyframe_kick_ms wd1 \<ge> wd_cooldown_ms wd1)
                  in if delta = 0 \<and> flowing \<and> stuck \<ge> wd_stuck_threshold_ms wd1 \<and> cooled
                     then (True, wd1\<lparr>wd_last_keyframe_kick_ms := now, wd_last_keyframe_kick_packets := packets\<rparr>)
                     else (False, wd1))
      in (kick, wd1\<lparr>wd_prev_frames_decoded := frames, wd_prev_packets_received := packets\<rparr>))"

section \<open>The session\<close>

text \<open>The configuration of a pulling connection: the shared one and the audio settings.\<close>

record PullConfiguration = RTCConfiguration +
  rtc_audio_jitter_buffer_max_packets :: int
  rtc_audio_jitter_buffer_min_delay_ms :: int
  rtc_audio_jitter_buffer_fast_accelerate :: bool

datatype pull_event =
    EvState rflow_stream_state_t rflow_err_t
  | EvSend Message bool
  | EvSignalStop
  | EvPcCreate nat PullConfiguration
  | EvPcClose nat
  | EvSetRemote nat string
  | EvCreateAnswer nat
  | EvSetLocal nat string
  | EvAddIce nat PendingIce

record RtcStreamSession =
  rs_index :: int
  rs_signaling_url :: string
  rs_device_id :: string
  rs_ice_config :: IceRtcServerConfig
  rs_factory :: bool
  rs_signaling :: "SessionConfig option"
  rs_peer_connection :: "nat option"
  rs_pc_thread :: bool
  rs_pc_count :: nat
  rs_pending_set_remote :: bool
  rs_pending_create_answer :: bool
  rs_pending_set_local :: "string option"
  rs_pending_ice :: PendingIceBuffer
  rs_stream_state :: rflow_stream_state_t
  rs_closed :: bool
  rs_watchdog :: Watchdog
  rs_state_sink :: bool
  rs_events :: "pull_event list"

definition new_RtcStreamSession :: "env \<Rightarrow> int \<Rightarrow> bool \<Rightarrow> string \<Rightarrow> string \<Rightarrow> IceRtcServerConfig \<Rightarrow> RtcStreamSession" where
  "new_RtcStreamSession env index factory url device_id ice =
     \<lparr> rs_index = index, rs_signaling_url = url, rs_device_id = device_id, rs_ice_config = ice, rs_factory = factory,
       rs_signaling = None, rs_peer_connection = None, rs_pc_thread = False, rs_pc_count = 0,
       rs_pending_set_remote = False, rs_pending_create_answer = False, rs_pending_set_local = None,
       rs_pending_ice = pending_ice_init, rs_stream_state = RFLOW_STREAM_IDLE, rs_closed = False,
       rs_watchdog = watchdog_init env, rs_state_sink = False, rs_events = [] \<rparr>"

definition SetStateSink :: "RtcStreamSession \<Rightarrow> RtcStreamSession" where
  "SetStateSink s = s\<lparr>rs_state_sink := True\<rparr>"

definition event :: "pull_event \<Rightarrow> RtcStreamSession \<Rightarrow> RtcStreamSession" where
  "event e s = s\<lparr>rs_events := rs_events s @ [e]\<rparr>"

definition EmitState :: "rflow_stream_state_t \<Rightarrow> rflow_err_t \<Rightarrow> RtcStreamSession \<Rightarrow> RtcStreamSession" where
  "EmitState st reason s =
     (let s1 = s\<lparr>rs_stream_state := st\<rparr> in if rs_state_sink s then event (EvState st reason) s1 else s1)"

text \<open>The signaling configuration \<^verbatim>\<open>Start\<close> builds.\<close>

definition pull_session_config :: "RtcStreamSession \<Rightarrow> SessionConfig" where
  "pull_session_config s =
     \<lparr> sc_server_addr = rs_signaling_url s,
       sc_registration = default_registration\<lparr>reg_role := RoleSubscriber, reg_device_id := rs_device_id s,
                                              reg_stream_index := rs_index s\<rparr>,
       sc_remember_last_remote_peer = True \<rparr>"

text \<open>\<open>sig_ok\<close> is the result of the signaling session's \<^verbatim>\<open>Start\<close>, \<open>timing\<close> whether the timing log is on.\<close>

definition pull_Start :: "int \<Rightarrow> bool \<Rightarrow> bool \<Rightarrow> RtcStreamSession \<Rightarrow> bool \<times> RtcStreamSession" where
  "pull_Start now sig_ok timing s =
     (if rs_closed s then (False, s)
      else if rs_signaling s \<noteq> None then (True, s)
      else let s1 = EmitState RFLOW_STREAM_OPENING RFLOW_OK (s\<lparr>rs_signaling := Some (pull_session_config s)\<rparr>)
           in if \<not> sig_ok
              then (False, EmitState RFLOW_STREAM_FAILED RFLOW_ERR_CONN_NETWORK (s1\<lparr>rs_signaling := None\<rparr>))
              else (True, if wd_enabled (rs_watchdog s1) \<or> timing
                          then s1\<lparr>rs_watchdog := StartWatchdogThread now (rs_watchdog s1)\<rparr> else s1))"

definition ClosePeerConnection :: "RtcStreamSession \<Rightarrow> RtcStreamSession" where
  "ClosePeerConnection s =
     (case rs_peer_connection s of None \<Rightarrow> s
      | Some n \<Rightarrow> event (EvPcClose n) (s\<lparr>rs_peer_connection := None\<rparr>))"

definition drop_observers :: "RtcStreamSession \<Rightarrow> RtcStreamSession" where
  "drop_observers s =
     s\<lparr>rs_pending_ice := ResetUnapplied (rs_pending_ice s), rs_pending_set_remote := False,
       rs_pending_create_answer := False, rs_pending_set_local := None\<rparr>"

definition pull_Close :: "RtcStreamSession \<Rightarrow> RtcStreamSession" where
  "pull_Close s =
     (if rs_closed s then s
      else let s1 = drop_observers (s\<lparr>rs_closed := True, rs_watchdog := StopWatchdogThread (rs_watchdog s)\<rparr>);
               s2 = (if rs_signaling s1 \<noteq> None then event EvSignalStop (s1\<lparr>rs_signaling := None\<rparr>) else s1)
           in EmitState RFLOW_STREAM_CLOSED RFLOW_OK (ClosePeerConnection s2))"

text \<open>What WebRTC answers while a peer connection is set up.\<close>

record PcAnswers =
  pa_create_ok :: bool
  pa_signaling_thread :: bool
  pa_transceiver_ok :: bool

definition pull_rtc_config :: "IceRtcServerConfig \<Rightarrow> PullConfiguration" where
  "pull_rtc_config ice = RTCConfiguration.extend (BuildRtcConfiguration ice True True)
     (PullConfiguration.fields 1 0 True)"

definition CreatePeerConnectionLocked :: "PcAnswers \<Rightarrow> RtcStreamSession \<Rightarrow> RtcStreamSession" where
  "CreatePeerConnectionLocked a s =
     (if \<not> rs_factory s then s
      else let s1 = ClosePeerConnection s
           in if \<not> pa_create_ok a then EmitState RFLOW_STREAM_FAILED RFLOW_ERR_FAIL s1
              else let n = rs_pc_count s1;
                       s2 = event (EvPcCreate n (pull_rtc_config (rs_ice_config s1)))
                              (s1\<lparr>rs_peer_connection := Some n, rs_pc_count := Suc n, rs_pc_thread := pa_signaling_thread a\<rparr>)
                   in if \<not> rs_pc_thread s2 \<or> \<not> pa_transceiver_ok a
                      then EmitState RFLOW_STREAM_FAILED RFLOW_ERR_FAIL (ClosePeerConnection s2)
                      else s2)"

definition HandleOffer :: "PcAnswers \<Rightarrow> bool \<Rightarrow> string \<Rightarrow> RtcStreamSession \<Rightarrow> RtcStreamSession" where
  "HandleOffer a parse_ok sdp s =
     (if rs_closed s then s
      else let s1 = CreatePeerConnectionLocked a (drop_observers s)
           in case rs_peer_connection s1 of None \<Rightarrow> s1
              | Some n \<Rightarrow>
                  if \<not> parse_ok then EmitState RFLOW_STREAM_FAILED RFLOW_ERR_PARAM s1
                  else if \<not> rs_pc_thread s1
                       then EmitState RFLOW_STREAM_FAILED RFLOW_ERR_FAIL
                              (s1\<lparr>rs_pending_ice := ResetUnapplied (rs_pending_ice s1)\<rparr>)
                       else event (EvSetRemote n sdp) (s1\<lparr>rs_pending_set_remote := True\<rparr>))"

definition AddRemoteIceCandidateNow :: "(PendingIce \<Rightarrow> bool) \<Rightarrow> PendingIce \<Rightarrow> RtcStreamSession \<Rightarrow> RtcStreamSession" where
  "AddRemoteIceCandidateNow parses c s =
     (case rs_peer_connection s of None \<Rightarrow> s
      | Some n \<Rightarrow> if rs_pc_thread s \<and> parses c then event (EvAddIce n c) s else s)"

definition FlushPendingRemoteIceCandidates :: "(PendingIce \<Rightarrow> bool) \<Rightarrow> RtcStreamSession \<Rightarrow> RtcStreamSession" where
  "FlushPendingRemoteIceCandidates parses s =
     (let (pending, b) = MarkAppliedAndDrain (rs_pending_ice s)
      in fold (AddRemoteIceCandidateNow parses) pending (s\<lparr>rs_pending_ice := b\<rparr>))"

definition HandleRemoteIceCandidate :: "(PendingIce \<Rightarrow> bool) \<Rightarrow> PendingIce \<Rightarrow> RtcStreamSession \<Rightarrow> RtcStreamSession" where
  "HandleRemoteIceCandidate parses c s =
     (if rs_peer_connection s = None \<or> \<not> IsApplied (rs_pending_ice s)
      then s\<lparr>rs_pending_ice := snd (pib_Push (ice_mid c) (ice_mline_index c) (ice_candidate c) (rs_pending_ice s))\<rparr>
      else AddRemoteIceCandidateNow parses c s)"

definition DoCreateAnswerAfterSetRemote :: "RtcStreamSession \<Rightarrow> RtcStreamSession" where
  "DoCreateAnswerAfterSetRemote s =
     (case rs_peer_connection s of None \<Rightarrow> s
      | Some n \<Rightarrow> if rs_pc_thread s then event (EvCreateAnswer n) (s\<lparr>rs_pending_create_answer := True\<rparr>)
                  else EmitState RFLOW_STREAM_FAILED RFLOW_ERR_FAIL (s\<lparr>rs_pending_create_answer := False\<rparr>))"

text \<open>The observer of \<^verbatim>\<open>SetRemoteDescription\<close>.\<close>

definition on_set_remote :: "(PendingIce \<Rightarrow> bool) \<Rightarrow> bool \<Rightarrow> RtcStreamSession \<Rightarrow> RtcStreamSession" where
  "on_set_remote parses ok s =
     (let s1 = s\<lparr>rs_pending_set_remote := False\<rparr>
      in if \<not> ok then EmitState RFLOW_STREAM_FAILED RFLOW_ERR_FAIL
                        (s1\<lparr>rs_pending_ice := ResetUnapplied (rs_pending_ice s1)\<rparr>)
         else DoCreateAnswerAfterSetRemote (FlushPendingRemoteIceCandidates parses s1))"

text \<open>
  The observer of \<^verbatim>\<open>CreateAnswer\<close>: None is a failure or a null description, and an empty text
  one that could not be printed.
\<close>

definition on_create_answer :: "string option \<Rightarrow> RtcStreamSession \<Rightarrow> RtcStreamSession" where
  "on_create_answer desc s =
     (let s1 = s\<lparr>rs_pending_create_answer := False\<rparr>
      in case desc of None \<Rightarrow> EmitState RFLOW_STREAM_FAILED RFLOW_ERR_FAIL s1
         | Some sdp \<Rightarrow>
             if sdp = [] then EmitState RFLOW_STREAM_FAILED RFLOW_ERR_FAIL s1
             else event (EvSetLocal (the (rs_peer_connection s1)) sdp) (s1\<lparr>rs_pending_set_local := Some sdp\<rparr>))"

text \<open>The observer of \<^verbatim>\<open>SetLocalDescription\<close>; \<open>sent\<close> is the result of sending the answer.\<close>

definition on_set_local :: "bool \<Rightarrow> bool \<Rightarrow> RtcStreamSession \<Rightarrow> RtcStreamSession" where
  "on_set_local ok sent s =
     (let sdp = the (rs_pending_set_local s); s1 = s\<lparr>rs_pending_set_local := None\<rparr>
      in if \<not> ok then EmitState RFLOW_STREAM_FAILED RFLOW_ERR_FAIL s1
         else if rs_signaling s1 = None then s1
         else let s2 = event (EvSend (default_message\<lparr>m_type := kAnswer, m_sdp := sdp\<rparr>) sent) s1
              in if \<not> sent then EmitState RFLOW_STREAM_FAILED RFLOW_ERR_CONN_NETWORK s2 else s2)"

text \<open>The callbacks of the peer connection.\<close>

datatype pc_state = pcs_kNew | pcs_kConnecting | pcs_kConnected | pcs_kDisconnected | pcs_kFailed | pcs_kClosed

definition OnConnectionChange :: "pc_state \<Rightarrow> RtcStreamSession \<Rightarrow> RtcStreamSession" where
  "OnConnectionChange st s =
     (case st of pcs_kConnected \<Rightarrow> EmitState RFLOW_STREAM_OPENED RFLOW_OK s
      | pcs_kFailed \<Rightarrow> EmitState RFLOW_STREAM_FAILED RFLOW_ERR_CONN_FAIL s
      | pcs_kDisconnected \<Rightarrow> EmitState RFLOW_STREAM_CLOSED RFLOW_OK s
      | pcs_kClosed \<Rightarrow> EmitState RFLOW_STREAM_CLOSED RFLOW_OK s
      | _ \<Rightarrow> s)"

definition OnIceCandidate :: "PendingIce option \<Rightarrow> bool \<Rightarrow> RtcStreamSession \<Rightarrow> RtcStreamSession" where
  "OnIceCandidate cand sent s =
     (case cand of None \<Rightarrow> s
      | Some c \<Rightarrow>
          if rs_signaling s = None then s
          else let s1 = event (EvSend (default_message\<lparr>m_type := kIce, m_mid := ice_mid c,
                                  m_mline_index := ice_mline_index c, m_candidate := ice_candidate c\<rparr>) sent) s
               in if \<not> sent then EmitState RFLOW_STREAM_FAILED RFLOW_ERR_CONN_NETWORK s1 else s1)"

definition pull_OnSignalMessage ::
  "(PendingIce \<Rightarrow> bool) \<Rightarrow> PcAnswers \<Rightarrow> bool \<Rightarrow> Message \<Rightarrow> RtcStreamSession \<Rightarrow> RtcStreamSession" where
  "pull_OnSignalMessage parses a parse_ok msg s =
     (case m_type msg of
        kOffer \<Rightarrow> HandleOffer a parse_ok (m_sdp msg) s
      | kIce \<Rightarrow> HandleRemoteIceCandidate parses
                 \<lparr> ice_mid = m_mid msg, ice_mline_index = m_mline_index msg, ice_candidate = m_candidate msg \<rparr> s
      | _ \<Rightarrow> s)"

definition pull_OnSignalError :: "RtcStreamSession \<Rightarrow> RtcStreamSession" where
  "pull_OnSignalError s = EmitState RFLOW_STREAM_FAILED RFLOW_ERR_CONN_NETWORK s"


section \<open>Runs of a session\<close>

text \<open>
  The inputs of a started session. Messages and errors of the signaling session arrive until
  the session detaches from it; an observer is called once, for the connection it was created
  for. \<^verbatim>\<open>PeerConnectionInterface::Close\<close> promises that no callback of the connection follows.
\<close>

datatype pull_input =
    InMessage PcAnswers bool Message
  | InSignalError
  | InSetRemote bool
  | InCreateAnswer "string option"
  | InSetLocal bool bool
  | InConnection pc_state
  | InLocalCandidate "PendingIce option" bool
  | InClose

fun pull_enabled :: "RtcStreamSession \<Rightarrow> pull_input \<Rightarrow> bool" where
  "pull_enabled s (InMessage a ok msg) = (rs_signaling s \<noteq> None)"
| "pull_enabled s InSignalError = (rs_signaling s \<noteq> None)"
| "pull_enabled s (InSetRemote ok) = (rs_pending_set_remote s \<and> rs_peer_connection s \<noteq> None)"
| "pull_enabled s (InCreateAnswer d) = (rs_pending_create_answer s \<and> rs_peer_connection s \<noteq> None)"
| "pull_enabled s (InSetLocal ok sent) = (rs_pending_set_local s \<noteq> None \<and> rs_peer_connection s \<noteq> None)"
| "pull_enabled s (InConnection st) = (rs_peer_connection s \<noteq> None)"
| "pull_enabled s (InLocalCandidate c sent) = (rs_peer_connection s \<noteq> None)"
| "pull_enabled s InClose = True"

fun pull_step :: "(PendingIce \<Rightarrow> bool) \<Rightarrow> pull_input \<Rightarrow> RtcStreamSession \<Rightarrow> RtcStreamSession" where
  "pull_step parses (InMessage a ok msg) s = pull_OnSignalMessage parses a ok msg s"
| "pull_step parses InSignalError s = pull_OnSignalError s"
| "pull_step parses (InSetRemote ok) s = on_set_remote parses ok s"
| "pull_step parses (InCreateAnswer d) s = on_create_answer d s"
| "pull_step parses (InSetLocal ok sent) s = on_set_local ok sent s"
| "pull_step parses (InConnection st) s = OnConnectionChange st s"
| "pull_step parses (InLocalCandidate c sent) s = OnIceCandidate c sent s"
| "pull_step parses InClose s = pull_Close s"

inductive pull_run :: "(PendingIce \<Rightarrow> bool) \<Rightarrow> RtcStreamSession \<Rightarrow> pull_input list \<Rightarrow> RtcStreamSession \<Rightarrow> bool"
  for parses s0 where
  run_start: "pull_run parses s0 [] s0"
| run_step: "pull_run parses s0 ins s \<Longrightarrow> pull_enabled s i \<Longrightarrow> pull_run parses s0 (ins @ [i]) (pull_step parses i s)"

text \<open>The candidates that arrived after the last offer, in order, and those handed to a connection.\<close>

definition ice_of :: "Message \<Rightarrow> PendingIce" where
  "ice_of msg = \<lparr> ice_mid = m_mid msg, ice_mline_index = m_mline_index msg, ice_candidate = m_candidate msg \<rparr>"

fun offered_ice :: "pull_input \<Rightarrow> PendingIce list \<Rightarrow> PendingIce list" where
  "offered_ice (InMessage a ok msg) cs =
     (case m_type msg of kOffer \<Rightarrow> [] | kIce \<Rightarrow> cs @ [ice_of msg] | _ \<Rightarrow> cs)"
| "offered_ice i cs = cs"

definition ice_since_offer :: "pull_input list \<Rightarrow> PendingIce list" where
  "ice_since_offer ins = fold offered_ice ins []"

definition added_ice :: "nat \<Rightarrow> pull_event list \<Rightarrow> PendingIce list" where
  "added_ice n es = concat (map (\<lambda>e. case e of EvAddIce m c \<Rightarrow> if m = n then [c] else [] | _ \<Rightarrow> []) es)"


section \<open>Candidates reach the connection they were offered for\<close>

definition core_of :: "RtcStreamSession \<Rightarrow> SessionConfig option \<times> nat option \<times> bool \<times> nat \<times> bool \<times> bool \<times> string option
    \<times> PendingIceBuffer \<times> bool \<times> bool \<times> bool \<times> Watchdog" where
  "core_of s = (rs_signaling s, rs_peer_connection s, rs_pc_thread s, rs_pc_count s, rs_pending_set_remote s,
     rs_pending_create_answer s, rs_pending_set_local s, rs_pending_ice s, rs_closed s, rs_factory s, rs_state_sink s, rs_watchdog s)"

definition is_add :: "pull_event \<Rightarrow> bool" where
  "is_add e \<longleftrightarrow> (case e of EvAddIce n c \<Rightarrow> True | _ \<Rightarrow> False)"

lemma is_add_simps [simp]:
  "is_add (EvAddIce n c)" "\<not> is_add (EvState st r)" "\<not> is_add (EvSend m b)" "\<not> is_add EvSignalStop"
  "\<not> is_add (EvPcCreate n g)" "\<not> is_add (EvPcClose n)" "\<not> is_add (EvSetRemote n t)" "\<not> is_add (EvCreateAnswer n)"
  "\<not> is_add (EvSetLocal n t)"
  by (simp_all add: is_add_def)

lemma added_ice_simps [simp]:
  "added_ice n [] = []" "added_ice n (es @ fs) = added_ice n es @ added_ice n fs"
  "added_ice n (EvAddIce m c # es) = (if m = n then c # added_ice n es else added_ice n es)"
  "\<not> is_add e \<Longrightarrow> added_ice n (e # es) = added_ice n es"
  by (auto simp: added_ice_def is_add_def split: pull_event.splits)

lemma core_of_event [simp]: "core_of (event e s) = core_of s" "core_of (EmitState st r s) = core_of s"
  by (simp_all add: core_of_def event_def EmitState_def Let_def)

lemma events_event [simp]: "rs_events (event e s) = rs_events s @ [e]"
  by (simp add: event_def)

lemma events_EmitState:
  "rs_events (EmitState st r s) = rs_events s @ (if rs_state_sink s then [EvState st r] else [])"
  by (simp add: EmitState_def Let_def event_def)

lemma added_EmitState [simp]: "added_ice n (rs_events (EmitState st r s)) = added_ice n (rs_events s)"
  by (simp add: events_EmitState)

lemma core_views:
  assumes "core_of s = core_of t"
  shows "rs_signaling s = rs_signaling t" "rs_peer_connection s = rs_peer_connection t" "rs_pc_thread s = rs_pc_thread t"
    "rs_pc_count s = rs_pc_count t" "rs_pending_set_remote s = rs_pending_set_remote t"
    "rs_pending_create_answer s = rs_pending_create_answer t" "rs_pending_set_local s = rs_pending_set_local t"
    "rs_pending_ice s = rs_pending_ice t" "rs_closed s = rs_closed t" "rs_factory s = rs_factory t"
    "rs_state_sink s = rs_state_sink t" "rs_watchdog s = rs_watchdog t"
  using assms by (simp_all add: core_of_def)

lemmas event_views [simp] = core_views [OF core_of_event(1)] core_views [OF core_of_event(2)]

text \<open>The candidates \<open>cs\<close> since the last offer are where they belong.\<close>

definition pull_ok :: "(PendingIce \<Rightarrow> bool) \<Rightarrow> PendingIce list \<Rightarrow> RtcStreamSession \<Rightarrow> bool" where
  "pull_ok parses cs s \<longleftrightarrow>
     (case rs_peer_connection s of
        None \<Rightarrow> \<not> pib_applied (rs_pending_ice s) \<and> \<not> rs_pending_set_remote s
      | Some n \<Rightarrow> n < rs_pc_count s \<and> rs_pc_thread s \<and> rs_signaling s \<noteq> None
          \<and> added_ice n (rs_events s) = (if pib_applied (rs_pending_ice s) then filter parses cs else [])
          \<and> (if pib_applied (rs_pending_ice s) then pib_pending (rs_pending_ice s) = [] \<and> \<not> rs_pending_set_remote s
             else rs_pending_set_remote s \<longrightarrow> pib_pending (rs_pending_ice s) = cs))
   \<and> (rs_closed s \<longrightarrow> rs_signaling s = None \<and> rs_peer_connection s = None \<and> \<not> wd_running (rs_watchdog s))
   \<and> rs_factory s \<and> rs_state_sink s \<and> (\<forall>m \<ge> rs_pc_count s. added_ice m (rs_events s) = [])"

lemma pull_ok_same:
  assumes "pull_ok parses cs s" and "core_of t = core_of s" and "\<And>n. added_ice n (rs_events t) = added_ice n (rs_events s)"
  shows "pull_ok parses cs t"
  using assms(1) core_views [OF assms(2)] assms(3) by (cases "rs_peer_connection s") (simp_all add: pull_ok_def)

lemma pull_ok_Emit [simp]: "pull_ok parses cs (EmitState st r s) = pull_ok parses cs s"
  using pull_ok_same [of parses cs "EmitState st r s" s] pull_ok_same [of parses cs s "EmitState st r s"] by auto

lemma pull_ok_event [simp]: "\<not> is_add e \<Longrightarrow> pull_ok parses cs (event e s) = pull_ok parses cs s"
  using pull_ok_same [of parses cs "event e s" s] pull_ok_same [of parses cs s "event e s"] by auto

lemma fold_Add:
  assumes "rs_peer_connection s = Some n" and "rs_pc_thread s"
  shows "core_of (fold (AddRemoteIceCandidateNow parses) cs s) = core_of s"
    and "added_ice m (rs_events (fold (AddRemoteIceCandidateNow parses) cs s)) =
           added_ice m (rs_events s) @ (if m = n then filter parses cs else [])"
proof -
  have "core_of (fold (AddRemoteIceCandidateNow parses) cs s) = core_of s
    \<and> added_ice m (rs_events (fold (AddRemoteIceCandidateNow parses) cs s)) =
           added_ice m (rs_events s) @ (if m = n then filter parses cs else [])"
    using assms
  proof (induction cs arbitrary: s)
    case (Cons c cs)
    let ?t = "AddRemoteIceCandidateNow parses c s"
    have t: "core_of ?t = core_of s" using Cons.prems by (simp add: AddRemoteIceCandidateNow_def)
    from Cons.IH [of ?t] core_views [OF t] Cons.prems t show ?case
      by (auto simp: AddRemoteIceCandidateNow_def)
  qed simp
  then show "core_of (fold (AddRemoteIceCandidateNow parses) cs s) = core_of s"
    and "added_ice m (rs_events (fold (AddRemoteIceCandidateNow parses) cs s)) =
           added_ice m (rs_events s) @ (if m = n then filter parses cs else [])" by simp_all
qed

lemma ClosePeerConnection_views [simp]:
  "rs_peer_connection (ClosePeerConnection s) = None" "rs_pc_count (ClosePeerConnection s) = rs_pc_count s"
  "rs_pending_ice (ClosePeerConnection s) = rs_pending_ice s" "rs_signaling (ClosePeerConnection s) = rs_signaling s"
  "rs_pending_set_remote (ClosePeerConnection s) = rs_pending_set_remote s" "rs_closed (ClosePeerConnection s) = rs_closed s"
  "rs_factory (ClosePeerConnection s) = rs_factory s" "rs_ice_config (ClosePeerConnection s) = rs_ice_config s"
  "added_ice n (rs_events (ClosePeerConnection s)) = added_ice n (rs_events s)"
  "rs_state_sink (ClosePeerConnection s) = rs_state_sink s" "rs_watchdog (ClosePeerConnection s) = rs_watchdog s"
  by (simp_all add: ClosePeerConnection_def event_def split: option.split)

lemma events_ClosePeerConnection:
  "rs_events (ClosePeerConnection s) = rs_events s @ (case rs_peer_connection s of None \<Rightarrow> [] | Some n \<Rightarrow> [EvPcClose n])"
  by (simp add: ClosePeerConnection_def split: option.split)

lemma drop_observers_views [simp]:
  "rs_peer_connection (drop_observers s) = rs_peer_connection s" "rs_pc_count (drop_observers s) = rs_pc_count s"
  "rs_pending_ice (drop_observers s) = ResetUnapplied (rs_pending_ice s)" "rs_signaling (drop_observers s) = rs_signaling s"
  "\<not> rs_pending_set_remote (drop_observers s)" "rs_closed (drop_observers s) = rs_closed s"
  "rs_factory (drop_observers s) = rs_factory s" "rs_events (drop_observers s) = rs_events s"
  "rs_pc_thread (drop_observers s) = rs_pc_thread s" "rs_state_sink (drop_observers s) = rs_state_sink s"
  "rs_watchdog (drop_observers s) = rs_watchdog s"
  by (simp_all add: drop_observers_def)

lemma ResetUnapplied_views [simp]: "\<not> pib_applied (ResetUnapplied b)" "pib_pending (ResetUnapplied b) = []"
  by (simp_all add: ResetUnapplied_def)

text \<open>Without a connection only the counters matter.\<close>

lemma pull_ok_no_pc:
  assumes "rs_peer_connection s = None" "\<not> pib_applied (rs_pending_ice s)" "\<not> rs_pending_set_remote s"
    "rs_closed s \<longrightarrow> rs_signaling s = None \<and> \<not> wd_running (rs_watchdog s)" "rs_factory s" "rs_state_sink s" "\<forall>m \<ge> rs_pc_count s. added_ice m (rs_events s) = []"
  shows "pull_ok parses cs s"
  using assms by (simp add: pull_ok_def)


lemma CreatePc_ok:
  fixes s :: RtcStreamSession and a :: PcAnswers
  defines "t \<equiv> CreatePeerConnectionLocked a s"
  assumes "\<forall>m \<ge> rs_pc_count s. added_ice m (rs_events s) = []" "\<not> pib_applied (rs_pending_ice s)"
    "\<not> rs_pending_set_remote s" "rs_signaling s \<noteq> None" "\<not> rs_closed s" "rs_factory s" "rs_state_sink s"
  shows "pull_ok parses cs t" "rs_pending_ice t = rs_pending_ice s" "\<not> rs_closed t"
  using assms(2-8) by (auto simp: t_def CreatePeerConnectionLocked_def Let_def pull_ok_def)

lemma pull_ok_counts: "pull_ok parses cs s \<Longrightarrow> rs_factory s \<and> rs_state_sink s \<and> (\<forall>m \<ge> rs_pc_count s. added_ice m (rs_events s) = [])"
  by (simp add: pull_ok_def)

lemma pull_ok_open: "pull_ok parses cs s \<Longrightarrow> rs_signaling s \<noteq> None \<Longrightarrow> \<not> rs_closed s"
  by (auto simp: pull_ok_def)

lemma HandleOffer_ok:
  assumes "pull_ok parses cs s" "rs_signaling s \<noteq> None"
  shows "pull_ok parses [] (HandleOffer a ok sdp s)"
proof -
  let ?t = "CreatePeerConnectionLocked a (drop_observers s)"
  note nc = pull_ok_open [OF assms] and cnt = pull_ok_counts [OF assms(1)]
  have t: "pull_ok parses [] ?t" "rs_pending_ice ?t = ResetUnapplied (rs_pending_ice s)"
    using CreatePc_ok(1) [of "drop_observers s" parses "[]" a] CreatePc_ok(2) [of "drop_observers s" a] nc cnt assms(2)
    by simp_all
  show ?thesis
  proof (cases "rs_peer_connection ?t")
    case None
    then show ?thesis using t nc by (simp add: HandleOffer_def Let_def)
  next
    case (Some n)
    have "pull_ok parses [] (?t\<lparr>rs_pending_set_remote := True\<rparr>)"
      "pull_ok parses [] (?t\<lparr>rs_pending_ice := ResetUnapplied (rs_pending_ice ?t)\<rparr>)"
      using t Some by (simp_all add: pull_ok_def)
    then show ?thesis using Some t nc by (simp add: HandleOffer_def Let_def)
  qed
qed

lemma HandleIce_ok:
  assumes "pull_ok parses cs s" "rs_signaling s \<noteq> None"
  shows "pull_ok parses (cs @ [c]) (HandleRemoteIceCandidate parses c s)"
proof (cases "rs_peer_connection s")
  case None
  then show ?thesis using assms by (simp add: HandleRemoteIceCandidate_def pull_ok_def pib_Push_def Let_def)
next
  case (Some n)
  then show ?thesis
    using assms by (auto simp: HandleRemoteIceCandidate_def AddRemoteIceCandidateNow_def pull_ok_def pib_Push_def Let_def IsApplied_def)
qed

lemma pull_ok_answer [simp]:
  "pull_ok parses cs (s\<lparr>rs_pending_create_answer := b\<rparr>) = pull_ok parses cs s"
  "pull_ok parses cs (s\<lparr>rs_pending_set_local := l\<rparr>) = pull_ok parses cs s"
  "pull_ok parses cs (s\<lparr>rs_pending_create_answer := b, rs_pending_set_local := l\<rparr>) = pull_ok parses cs s"
  by (cases "rs_peer_connection s"; simp add: pull_ok_def)+

lemma on_set_remote_ok:
  assumes "pull_ok parses cs s" "rs_pending_set_remote s" "rs_peer_connection s = Some n"
  shows "pull_ok parses cs (on_set_remote parses ok s)"
proof (cases ok)
  case False
  then show ?thesis using assms by (auto simp: on_set_remote_def Let_def pull_ok_def split: if_splits)
next
  case True
  let ?b = "(rs_pending_ice s)\<lparr>pib_applied := True, pib_pending := []\<rparr>"
  let ?s1 = "s\<lparr>rs_pending_set_remote := False, rs_pending_ice := ?b\<rparr>"
  let ?t = "fold (AddRemoteIceCandidateNow parses) (pib_pending (rs_pending_ice s)) ?s1"
  have thr: "rs_pc_thread ?s1" "rs_peer_connection ?s1 = Some n" using assms by (simp_all add: pull_ok_def)
  note f = fold_Add [OF thr(2,1), where parses = parses and cs = "pib_pending (rs_pending_ice s)"]
  have "pull_ok parses cs ?t"
    using assms core_views [OF f(1)] f(2) by (auto simp: pull_ok_def split: if_splits)
  moreover have "on_set_remote parses ok s = event (EvCreateAnswer n) (?t\<lparr>rs_pending_create_answer := True\<rparr>)"
    using True thr core_views [OF f(1)]
    by (simp add: on_set_remote_def FlushPendingRemoteIceCandidates_def MarkAppliedAndDrain_def
        DoCreateAnswerAfterSetRemote_def Let_def)
  ultimately show ?thesis by simp
qed

lemma callbacks_ok:
  assumes "pull_ok parses cs s"
  shows "pull_ok parses cs (on_create_answer d s)" "pull_ok parses cs (on_set_local ok sent s)"
    "pull_ok parses cs (OnConnectionChange st s)" "pull_ok parses cs (OnIceCandidate c sent s)"
    "pull_ok parses cs (pull_OnSignalError s)"
  using assms
  by (simp_all add: on_create_answer_def on_set_local_def OnConnectionChange_def OnIceCandidate_def
      pull_OnSignalError_def Let_def split: option.split pc_state.split)

lemma Close_ok:
  assumes "pull_ok parses cs s"
  shows "pull_ok parses cs (pull_Close s)"
proof -
  note cnt = pull_ok_counts [OF assms]
  show ?thesis
    using assms cnt by (auto simp: pull_Close_def StopWatchdogThread_def Let_def intro!: pull_ok_no_pc)
qed

lemma pull_step_ok:
  assumes "pull_ok parses cs s" "pull_enabled s i"
  shows "pull_ok parses (offered_ice i cs) (pull_step parses i s)"
proof (cases i)
  case (InMessage a ok msg)
  then show ?thesis
    using assms HandleOffer_ok [OF assms(1)] HandleIce_ok [OF assms(1)]
    by (cases "m_type msg") (simp_all add: pull_OnSignalMessage_def ice_of_def)
qed (use assms in \<open>auto simp: callbacks_ok Close_ok on_set_remote_ok\<close>)

lemma pull_run_ok:
  assumes "pull_run parses s0 ins s" "pull_ok parses [] s0"
  shows "pull_ok parses (ice_since_offer ins) s"
  using assms(1)
proof (induction rule: pull_run.induct)
  case run_start
  then show ?case using assms(2) by (simp add: ice_since_offer_def)
next
  case (run_step ins s i)
  then show ?case using pull_step_ok [of parses "ice_since_offer ins" s i] by (simp add: ice_since_offer_def)
qed

lemma started_ok:
  assumes "pull_Start now True timing (SetStateSink (new_RtcStreamSession env index True url dev ice)) = (r, s0)"
  shows "pull_ok parses [] s0" "r"
  using assms
  by (auto simp: pull_Start_def SetStateSink_def new_RtcStreamSession_def EmitState_def event_def Let_def
      pull_ok_def pending_ice_init_def split: if_splits)



definition pc_ok :: PcAnswers where
  "pc_ok = \<lparr> pa_create_ok = True, pa_signaling_thread = True, pa_transceiver_ok = True \<rparr>"

definition demo_pull :: RtcStreamSession where
  "demo_pull = snd (pull_Start 1 True False (SetStateSink (new_RtcStreamSession Map.empty 3 True ''h:1'' ''cam'' ice_config_init)))"

definition demo_ice_msg :: "string \<Rightarrow> Message" where
  "demo_ice_msg c = default_message\<lparr>m_type := kIce, m_mid := ''0'', m_candidate := c\<rparr>"

definition demo_pull_inputs :: "pull_input list" where
  "demo_pull_inputs = [InMessage pc_ok True (default_message\<lparr>m_type := kOffer, m_sdp := ''v=0''\<rparr>),
     InMessage pc_ok True (demo_ice_msg ''a''), InMessage pc_ok True (demo_ice_msg ''b''), InSetRemote True,
     InMessage pc_ok True (demo_ice_msg ''c'')]"

fun run_inputs :: "(PendingIce \<Rightarrow> bool) \<Rightarrow> pull_input list \<Rightarrow> RtcStreamSession \<Rightarrow> RtcStreamSession option" where
  "run_inputs parses [] s = Some s"
| "run_inputs parses (i # is) s = (if pull_enabled s i then run_inputs parses is (pull_step parses i s) else None)"

lemma run_inputs_run:
  "run_inputs parses is s = Some t \<Longrightarrow> pull_run parses s0 ins s \<Longrightarrow> pull_run parses s0 (ins @ is) t"
proof (induction "is" arbitrary: s ins)
  case (Cons i "is")
  then show ?case using run_step [of parses s0 ins s i] Cons.IH [of "pull_step parses i s" "ins @ [i]"]
    by (auto split: if_splits)
qed simp


definition demo_parses :: "PendingIce \<Rightarrow> bool" where
  "demo_parses c \<longleftrightarrow> ice_candidate c \<noteq> ''b''"

definition demo_pulled :: RtcStreamSession where
  "demo_pulled = the (run_inputs demo_parses demo_pull_inputs demo_pull)"

lemma demo_pulled_facts:
  "run_inputs demo_parses demo_pull_inputs demo_pull = Some demo_pulled"
  "rs_peer_connection demo_pulled = Some 0" "IsApplied (rs_pending_ice demo_pulled)" "\<not> rs_closed demo_pulled"
  "rs_signaling demo_pulled \<noteq> None"
  "map ice_candidate (filter demo_parses (ice_since_offer demo_pull_inputs)) = [''a'', ''c'']"
  by code_simp+

lemma demo_pull_started:
  "pull_Start 1 True False (SetStateSink (new_RtcStreamSession Map.empty 3 True ''h:1'' ''cam'' ice_config_init)) = (True, demo_pull)"
proof -
  have "fst (pull_Start 1 True False (SetStateSink (new_RtcStreamSession Map.empty 3 True ''h:1'' ''cam'' ice_config_init)))"
    by code_simp
  then show ?thesis by (simp add: demo_pull_def prod_eq_iff)
qed

lemma demo_pull_run: "pull_run demo_parses demo_pull demo_pull_inputs demo_pulled"
  using run_inputs_run [OF demo_pulled_facts(1) run_start] by simp


lemma closed_run:
  assumes "pull_run parses s ins t" "rs_closed s" "rs_signaling s = None" "rs_peer_connection s = None"
  shows "t = s"
  using assms(1)
proof (induction rule: pull_run.induct)
  case (run_step ins t i)
  then show ?case using assms(2-4) by (cases i) (simp_all add: pull_Close_def)
qed simp




section \<open>The watchdog keeps its distance\<close>

text \<open>
  The reports of a session: time, frames decoded and packets received. The trace has for each
  the time, whether it brought a new frame, and whether the jitter buffer was kicked.
\<close>

definition progressed :: "u64 \<Rightarrow> Watchdog \<Rightarrow> bool" where
  "progressed frames wd \<longleftrightarrow> frames > wd_prev_frames_decoded wd"

fun watchdog_trace :: "(int \<times> u64 \<times> u64) list \<Rightarrow> Watchdog \<Rightarrow> (int \<times> bool \<times> bool) list" where
  "watchdog_trace [] wd = []"
| "watchdog_trace ((t, f, p) # rs) wd =
     (let (k, wd') = OnWatchdogStats t f p wd in (t, progressed f wd, k) # watchdog_trace rs wd')"

definition kicks :: "(int \<times> bool \<times> bool) list \<Rightarrow> int list" where
  "kicks tr = map fst (filter (snd \<circ> snd) tr)"

lemma kicks_simps [simp]: "kicks [] = []" "kicks ((t, p, k) # tr) = (if k then t # kicks tr else kicks tr)"
  by (simp_all add: kicks_def)

text \<open>One report, seen from its effect on the times.\<close>

lemma watchdog_step:
  assumes "OnWatchdogStats t f p wd = (k, wd')" "0 < t" "0 < wd_last_decode_progress_ms wd"
  shows "wd_stuck_threshold_ms wd' = wd_stuck_threshold_ms wd" "wd_cooldown_ms wd' = wd_cooldown_ms wd"
    "wd_last_keyframe_kick_ms wd' = (if k then t else wd_last_keyframe_kick_ms wd)"
    "wd_last_decode_progress_ms wd' = (if progressed f wd \<and> wd_enabled wd then t else wd_last_decode_progress_ms wd)"
    "wd_enabled wd' = wd_enabled wd"
    "k \<Longrightarrow> wd_enabled wd \<and> \<not> progressed f wd \<and> wd_last_decode_progress_ms wd + wd_stuck_threshold_ms wd \<le> t
       \<and> (wd_last_keyframe_kick_ms wd = 0 \<or> wd_last_keyframe_kick_ms wd + wd_cooldown_ms wd \<le> t)"
proof -
  have d: "(0 < (if f \<ge> wd_prev_frames_decoded wd then f - wd_prev_frames_decoded wd else 0)) = progressed f wd"
    by (auto simp: progressed_def word_gt_0)
  then show "wd_stuck_threshold_ms wd' = wd_stuck_threshold_ms wd" "wd_cooldown_ms wd' = wd_cooldown_ms wd"
    "wd_last_keyframe_kick_ms wd' = (if k then t else wd_last_keyframe_kick_ms wd)"
    "wd_last_decode_progress_ms wd' = (if progressed f wd \<and> wd_enabled wd then t else wd_last_decode_progress_ms wd)"
    "wd_enabled wd' = wd_enabled wd"
    "k \<Longrightarrow> wd_enabled wd \<and> \<not> progressed f wd \<and> wd_last_decode_progress_ms wd + wd_stuck_threshold_ms wd \<le> t
       \<and> (wd_last_keyframe_kick_ms wd = 0 \<or> wd_last_keyframe_kick_ms wd + wd_cooldown_ms wd \<le> t)"
    using assms(1,3) unfolding OnWatchdogStats_def Let_def
    by (auto simp: d word_gt_0 split: if_splits)
qed

lemma kick_gaps:
  assumes "\<forall>r \<in> set rs. 0 < fst r" "0 < wd_last_decode_progress_ms wd"
  shows "successively (\<lambda>a b. a + wd_cooldown_ms wd \<le> b) (kicks (watchdog_trace rs wd))
    \<and> (wd_last_keyframe_kick_ms wd = 0 \<or> kicks (watchdog_trace rs wd) = []
       \<or> wd_last_keyframe_kick_ms wd + wd_cooldown_ms wd \<le> hd (kicks (watchdog_trace rs wd)))"
  using assms
proof (induction rs arbitrary: wd)
  case (Cons r rs)
  obtain t f p where r: "r = (t, f, p)" by (cases r)
  obtain k wd' where o: "OnWatchdogStats t f p wd = (k, wd')" by (cases "OnWatchdogStats t f p wd")
  have t: "0 < t" using Cons.prems r by simp
  note st = watchdog_step [OF o t Cons.prems(2)]
  have "0 < wd_last_decode_progress_ms wd'" using st(4) t Cons.prems(2) by simp
  from Cons.IH [OF _ this] Cons.prems st t show ?case
    by (auto simp: r o successively_Cons)
qed simp

lemma kick_enabled:
  "(t, p, True) \<in> set (watchdog_trace rs wd) \<Longrightarrow> \<forall>r \<in> set rs. 0 < fst r \<Longrightarrow> 0 < wd_last_decode_progress_ms wd \<Longrightarrow> wd_enabled wd"
proof (induction rs arbitrary: wd)
  case (Cons r rs)
  obtain u f q where r: "r = (u, f, q)" by (cases r)
  obtain k wd' where o: "OnWatchdogStats u f q wd = (k, wd')" by (cases "OnWatchdogStats u f q wd")
  have "0 < u" using Cons.prems(2) r by simp
  note st = watchdog_step [OF o this Cons.prems(3)]
  then show ?case using Cons \<open>0 < u\<close> by (auto simp: r o)
qed simp

lemma kick_justified:
  assumes "sorted (map fst rs)" "\<forall>r \<in> set rs. wd_last_decode_progress_ms wd \<le> fst r" "0 < wd_last_decode_progress_ms wd"
    "watchdog_trace rs wd = as @ (t, p, True) # bs"
  shows "\<not> p \<and> wd_last_decode_progress_ms wd + wd_stuck_threshold_ms wd \<le> t
    \<and> list_all (\<lambda>(t', p', k'). \<not> p' \<or> t' + wd_stuck_threshold_ms wd \<le> t) as"
  using assms
proof (induction rs arbitrary: wd as)
  case (Cons r rs)
  obtain u f q where r: "r = (u, f, q)" by (cases r)
  obtain k wd' where o: "OnWatchdogStats u f q wd = (k, wd')" by (cases "OnWatchdogStats u f q wd")
  have u: "0 < u" "wd_last_decode_progress_ms wd \<le> u" using Cons.prems(2,3) r by auto
  note st = watchdog_step [OF o u(1) Cons.prems(3)]
  show ?case
  proof (cases as)
    case Nil
    then show ?thesis using Cons.prems(4) st(6) by (auto simp: r o)
  next
    case as: (Cons a as')
    have tr: "watchdog_trace rs wd' = as' @ (t, p, True) # bs" and a: "a = (u, progressed f wd, k)"
      using Cons.prems(4) as by (auto simp: r o)
    have "0 < fst x" if "x \<in> set rs" for x using that Cons.prems(2,3) by fastforce
    then have en: "wd_enabled wd" using kick_enabled [of t p rs wd'] tr st(4,5) u Cons.prems(3) by auto
    have "\<forall>x \<in> set rs. wd_last_decode_progress_ms wd' \<le> fst x" "0 < wd_last_decode_progress_ms wd'"
      using Cons.prems(1-3) st(4) u by (auto simp: r)
    from Cons.IH [OF _ this tr] Cons.prems(1) have "\<not> p \<and> wd_last_decode_progress_ms wd' + wd_stuck_threshold_ms wd \<le> t
       \<and> list_all (\<lambda>(t', p', k'). \<not> p' \<or> t' + wd_stuck_threshold_ms wd \<le> t) as'" using st(1) by simp
    then show ?thesis using st(4) en u a as by (auto split: if_splits)
  qed
qed simp


lemma ReadEnvIntWd_range: "lo \<le> def \<Longrightarrow> def \<le> hi \<Longrightarrow> lo \<le> ReadEnvIntWd env name def lo hi \<and> ReadEnvIntWd env name def lo hi \<le> hi"
  by (auto simp: ReadEnvIntWd_def Let_def split: option.split)

text \<open>
  The watchdog asks for a keyframe only when the decoder is stuck, and not too often. For
  reports at positive and non-decreasing times of a watchdog started at \<open>t0\<close>, two kicks are at
  least the cooldown apart; at a kick no frame has been decoded within the stuck threshold,
  neither by this report nor by an earlier one, and the watchdog has run at least that long.
  Whatever the environment says, the threshold is between 50 ms and 5 s and the cooldown
  between 100 ms and 10 s.
\<close>

theorem watchdog_kicks_sparse:
  assumes "wd = StartWatchdogThread t0 (watchdog_init env)" and "0 < t0" and "sorted (t0 # map fst reports)"
    and "watchdog_trace reports wd = as @ (t, p, True) # bs"
  shows "successively (\<lambda>a b. a + wd_cooldown_ms wd \<le> b) (kicks (watchdog_trace reports wd))
    \<and> \<not> p \<and> t0 + wd_stuck_threshold_ms wd \<le> t
    \<and> list_all (\<lambda>(t', p', k'). \<not> p' \<or> t' + wd_stuck_threshold_ms wd \<le> t) as
    \<and> wd_stuck_threshold_ms wd \<in> {50..5000} \<and> wd_cooldown_ms wd \<in> {100..10000}"
proof -
  have P: "wd_last_decode_progress_ms wd = t0"
    using assms(1) by (simp add: StartWatchdogThread_def watchdog_init_def)
  have times: "\<forall>r \<in> set reports. t0 \<le> fst r" "sorted (map fst reports)" using assms(3) by auto
  have "wd_stuck_threshold_ms wd \<in> {50..5000} \<and> wd_cooldown_ms wd \<in> {100..10000}"
    using assms(1) ReadEnvIntWd_range [of 50 300 5000 env "''RFLOW_RECEIVER_WATCHDOG_STUCK_MS''"]
      ReadEnvIntWd_range [of 100 600 10000 env "''RFLOW_RECEIVER_WATCHDOG_COOLDOWN_MS''"]
    by (simp add: StartWatchdogThread_def watchdog_init_def)
  moreover have "\<forall>r \<in> set reports. 0 < fst r" using times(1) assms(2) by fastforce
  ultimately show ?thesis
    using kick_gaps [of reports wd] kick_justified [OF times(2) _ _ assms(4)] P times(1) assms(2) by auto
qed

definition demo_reports :: "(int \<times> u64 \<times> u64) list" where
  "demo_reports = [(1000, 5, 10), (2000, 5, 20), (2500, 5, 30), (3000, 5, 40)]"

theorem watchdog_kicks_sparse_witness:
  "let wd = StartWatchdogThread 500 (watchdog_init Map.empty); tr = watchdog_trace demo_reports wd
   in tr = [(1000, True, False)] @ (2000, False, True) # [(2500, False, False), (3000, False, True)]
    \<and> successively (\<lambda>a b. a + wd_cooldown_ms wd \<le> b) (kicks tr)"
proof -
  let ?wd = "StartWatchdogThread 500 (watchdog_init Map.empty)"
  have tr: "watchdog_trace demo_reports ?wd = [(1000, True, False)] @ (2000, False, True) # [(2500, False, False), (3000, False, True)]"
    by code_simp
  have "sorted (500 # map fst demo_reports)" by (simp add: demo_reports_def)
  with watchdog_kicks_sparse [OF refl _ _ tr] tr show ?thesis by (simp add: Let_def)
qed

section \<open>A candidate between check and push\<close>

text \<open>
  \<^verbatim>\<open>HandleRemoteIceCandidate\<close> runs on the signaling reader and asks \<^verbatim>\<open>IsApplied\<close> before it
  pushes; the observer of \<^verbatim>\<open>SetRemoteDescription\<close> runs on WebRTC's thread. When the drain
  happens between the two, the candidate stays in the buffer of a description that is applied.
\<close>

lemma candidate_stranded:
  "let b1 = snd (MarkAppliedAndDrain b); b2 = snd (pib_Push mid idx cand b1)
     in IsApplied b2 \<and> pib_pending b2 = [\<lparr> ice_mid = mid, ice_mline_index = idx, ice_candidate = cand \<rparr>]"
  by (simp add: MarkAppliedAndDrain_def pib_Push_def IsApplied_def Let_def)

end
