(* ===== verification/Client_Sdk.thy ===== *)
theory Client_Sdk
  imports Client_Params Client_Session Service_Sdk "HOL-Library.Multiset"
begin

text \<open>
  The pulling side's public interface: the life cycle (\<^verbatim>\<open>src/client/lifecycle.cpp\<close>,
  \<^verbatim>\<open>infrastructure.cpp\<close>, \<^verbatim>\<open>internal/state_ops.cpp\<close>), the streams (\<^verbatim>\<open>stream.cpp\<close>) and the
  manager of their sessions (\<^verbatim>\<open>impl/rtc_stream/rtc_stream_manager.cpp\<close>).

  The state owns the stream objects by their address, and a stream object owns its session. The
  manager holds sessions weakly: it knows the number a session got when it was made, and its
  reference can be locked as long as some stream object holds the session with that number.
  A session reports states through the sink \<^verbatim>\<open>librflow_open_stream\<close> installs; \<open>deliver\<close> runs that
  sink on the states the session's events hold. Callbacks into the application are recorded in
  a log. A public call is one step, and so is an input of a session. Times are readings of the
  steady clock in milliseconds; \<open>t\<close> is the time stamp of the last error.

  The statistics a session collects from WebRTC and the conversion of a frame are arguments.
\<close>

section \<open>State\<close>

record librflow_stream_s =
  kst_magic :: u32
  kst_index :: int
  kst_state :: rflow_stream_state_t
  kst_cb :: librflow_stream_cb_s
  kst_opened_at :: "int option"
  kst_last_stats_emit_at :: "int option"
  kst_video_frames_received :: u64
  kst_last_stats_frames_received :: u64
  kst_impl :: "(nat \<times> RtcStreamSession) option"
  kst_seq_counter :: u32

record CliState =
  cl_lifecycle :: LifecycleState
  cl_global_config :: librflow_global_config_s
  cl_connect_info :: librflow_connect_info_s
  cl_connect_cb :: librflow_connect_cb_s
  cl_has_connect_cb :: bool
  cl_streams :: "(nat \<times> librflow_stream_s) list"

record RtcStreamManager =
  rm_inited :: bool
  rm_signaling_url :: string
  rm_device_id :: string
  rm_open_indices :: "(int \<times> nat) list"

datatype client_event =
    KConnState nat rflow_connect_state_t rflow_err_t nat
  | KStreamState nat nat rflow_stream_state_t rflow_err_t nat
  | KVideo nat nat int u32 nat
  | KStats nat librflow_stream_stats_s nat

record Cli =
  k_state :: CliState
  k_proc :: Process
  k_infra :: Infra
  k_mgr :: RtcStreamManager
  k_sessions :: nat
  k_log :: "client_event list"

definition kupd :: "(CliState \<Rightarrow> CliState) \<Rightarrow> Cli \<Rightarrow> Cli" where
  "kupd f w = w\<lparr>k_state := f (k_state w)\<rparr>"

definition klog :: "client_event list \<Rightarrow> Cli \<Rightarrow> Cli" where
  "klog es w = w\<lparr>k_log := k_log w @ es\<rparr>"

definition kfail :: "u64 \<Rightarrow> rflow_err_t \<Rightarrow> string \<Rightarrow> string \<Rightarrow> Cli \<Rightarrow> Cli" where
  "kfail t code msg origin w =
     w\<lparr>k_proc := (k_proc w)\<lparr>pr_error := set_last_error t code msg (Some origin) (pr_error (k_proc w))\<rparr>\<rparr>"

definition FindStreamByHandle :: "nat \<Rightarrow> Cli \<Rightarrow> librflow_stream_s option" where
  "FindStreamByHandle h w = map_of (cl_streams (k_state w)) h"

definition kput :: "nat \<Rightarrow> librflow_stream_s \<Rightarrow> Cli \<Rightarrow> Cli" where
  "kput h sh = kupd (\<lambda>s. s\<lparr>cl_streams := AList.update h sh (cl_streams s)\<rparr>)"

definition kerase :: "nat \<Rightarrow> Cli \<Rightarrow> Cli" where
  "kerase h = kupd (\<lambda>s. s\<lparr>cl_streams := AList.delete h (cl_streams s)\<rparr>)"

section \<open>States reported by a session\<close>

definition ResetOpenedStats :: "int \<Rightarrow> librflow_stream_s \<Rightarrow> librflow_stream_s" where
  "ResetOpenedStats now sh =
     sh\<lparr>kst_opened_at := Some now, kst_last_stats_emit_at := Some now, kst_video_frames_received := 0,
        kst_last_stats_frames_received := 0\<rparr>"

definition on_state_calls :: "nat \<Rightarrow> rflow_stream_state_t \<Rightarrow> rflow_err_t \<Rightarrow> librflow_stream_s \<Rightarrow> client_event list" where
  "on_state_calls h st reason sh =
     call_opt (kscb_on_state (kst_cb sh)) (\<lambda>f. KStreamState f h st reason (kscb_userdata (kst_cb sh)))"

definition state_sink ::
  "int \<Rightarrow> nat \<Rightarrow> rflow_stream_state_t \<Rightarrow> rflow_err_t \<Rightarrow> librflow_stream_s \<Rightarrow> client_event list \<times> librflow_stream_s" where
  "state_sink now h st reason sh =
     (let p = sh\<lparr>kst_state := st\<rparr>; p1 = (if st = RFLOW_STREAM_OPENED then ResetOpenedStats now p else p)
      in (on_state_calls h st reason p1, p1))"

fun deliver :: "int \<Rightarrow> nat \<Rightarrow> pull_event list \<Rightarrow> librflow_stream_s \<Rightarrow> client_event list \<times> librflow_stream_s" where
  "deliver now h [] sh = ([], sh)"
| "deliver now h (e # es) sh =
     (case e of
        EvState st reason \<Rightarrow>
          (let (l1, sh1) = state_sink now h st reason sh; (l2, sh2) = deliver now h es sh1 in (l1 @ l2, sh2))
      | _ \<Rightarrow> deliver now h es sh)"

text \<open>The session of a stream went from \<open>s\<close> to \<open>s'\<close>: its new events are delivered.\<close>

definition session_moved ::
  "int \<Rightarrow> nat \<Rightarrow> nat \<Rightarrow> RtcStreamSession \<Rightarrow> RtcStreamSession \<Rightarrow> librflow_stream_s \<Rightarrow> client_event list \<times> librflow_stream_s" where
  "session_moved now h sid s s' sh =
     (let (l, sh1) = deliver now h (drop (length (rs_events s)) (rs_events s')) sh
      in (l, sh1\<lparr>kst_impl := Some (sid, s')\<rparr>))"

section \<open>The manager of the sessions\<close>

definition IceConfigFromClientParam :: "librflow_stream_param_s option \<Rightarrow> IceRtcServerConfig" where
  "IceConfigFromClientParam param =
     (case param of None \<Rightarrow> ice_config_init
      | Some p \<Rightarrow>
          let ice = (if kp_has_stun_server p
                     then ice_config_init\<lparr>ice_has_stun_server := True, ice_stun_server := kp_stun_server p\<rparr> else ice_config_init)
          in if kp_has_turn_server p
             then ice\<lparr>ice_has_turn_server := True, ice_turn_server := kp_turn_server p,
                      ice_turn_username := kp_turn_username p, ice_turn_password := kp_turn_password p\<rparr>
             else ice)"

definition RtcStreamManager_Init :: "bool \<Rightarrow> string \<Rightarrow> string \<Rightarrow> RtcStreamManager \<Rightarrow> rflow_err_t \<times> RtcStreamManager" where
  "RtcStreamManager_Init factory url device_id m =
     (if \<not> factory then (RFLOW_ERR_STATE, m)
      else (RFLOW_OK, m\<lparr>rm_signaling_url := url, rm_device_id := device_id, rm_inited := True\<rparr>))"

text \<open>The stream object that holds the session with a number: what locking a weak reference finds.\<close>

definition holds_session :: "nat \<Rightarrow> librflow_stream_s \<Rightarrow> bool" where
  "holds_session sid sh = (case kst_impl sh of Some (i, _) \<Rightarrow> i = sid | None \<Rightarrow> False)"

definition lock_session :: "nat \<Rightarrow> (nat \<times> librflow_stream_s) list \<Rightarrow> (nat \<times> librflow_stream_s) option" where
  "lock_session sid streams = find (\<lambda>(h, sh). holds_session sid sh) streams"

definition close_session ::
  "int \<Rightarrow> nat \<Rightarrow> (nat \<times> librflow_stream_s) list \<Rightarrow> client_event list \<times> (nat \<times> librflow_stream_s) list" where
  "close_session now sid streams =
     (case lock_session sid streams of None \<Rightarrow> ([], streams)
      | Some (h, sh) \<Rightarrow>
          let s = snd (the (kst_impl sh)); (l, sh') = session_moved now h sid s (pull_Close s) sh
          in (l, AList.update h sh' streams))"

fun close_sessions ::
  "int \<Rightarrow> nat list \<Rightarrow> (nat \<times> librflow_stream_s) list \<Rightarrow> client_event list \<times> (nat \<times> librflow_stream_s) list" where
  "close_sessions now [] streams = ([], streams)"
| "close_sessions now (sid # sids) streams =
     (let (l1, st1) = close_session now sid streams; (l2, st2) = close_sessions now sids st1 in (l1 @ l2, st2))"

text \<open>\<open>streams\<close> are the stream objects that are alive when the manager shuts down.\<close>

definition RtcStreamManager_Shutdown ::
  "int \<Rightarrow> (nat \<times> librflow_stream_s) list \<Rightarrow> RtcStreamManager \<Rightarrow> client_event list \<times> RtcStreamManager" where
  "RtcStreamManager_Shutdown now streams m =
     (fst (close_sessions now (map snd (rm_open_indices m)) streams), m\<lparr>rm_open_indices := [], rm_inited := False\<rparr>)"

text \<open>
  \<^verbatim>\<open>OpenStream\<close> gives the session it made in the state in which the caller finds it: running, or,
  when its start failed, closed by its destructor.
\<close>

definition open_session ::
  "env \<Rightarrow> int \<Rightarrow> bool \<Rightarrow> bool \<Rightarrow> nat \<Rightarrow> int \<Rightarrow> librflow_stream_param_s option
     \<Rightarrow> RtcStreamManager \<Rightarrow> rflow_err_t \<times> RtcStreamSession option \<times> RtcStreamManager" where
  "open_session env now sig_ok timing sid index param m =
     (let stream = new_RtcStreamSession env index True (rm_signaling_url m) (rm_device_id m) (IceConfigFromClientParam param);
          m1 = m\<lparr>rm_open_indices := AList.update index sid (rm_open_indices m)\<rparr>;
          (ok, s) = pull_Start now sig_ok timing (SetStateSink stream)
      in if \<not> ok
         then (RFLOW_ERR_CONN_NETWORK, Some (pull_Close s), m1\<lparr>rm_open_indices := AList.delete index (rm_open_indices m1)\<rparr>)
         else (RFLOW_OK, Some s, m1))"

definition RtcStreamManager_OpenStream ::
  "env \<Rightarrow> int \<Rightarrow> bool \<Rightarrow> bool \<Rightarrow> bool \<Rightarrow> (nat \<times> librflow_stream_s) list \<Rightarrow> nat \<Rightarrow> int \<Rightarrow> librflow_stream_param_s option
     \<Rightarrow> RtcStreamManager \<Rightarrow> rflow_err_t \<times> RtcStreamSession option \<times> RtcStreamManager" where
  "RtcStreamManager_OpenStream env now sig_ok timing factory streams sid index param m =
     (if \<not> rm_inited m then (RFLOW_ERR_STATE, None, m)
      else if \<not> factory then (RFLOW_ERR_STATE, None, m)
      else case map_of (rm_open_indices m) index of
          Some old \<Rightarrow>
            if lock_session old streams \<noteq> None then (RFLOW_ERR_STREAM_ALREADY_OPEN, None, m)
            else open_session env now sig_ok timing sid index param
                   (m\<lparr>rm_open_indices := AList.delete index (rm_open_indices m)\<rparr>)
        | None \<Rightarrow> open_session env now sig_ok timing sid index param m)"

section \<open>Life cycle\<close>

definition librflow_set_global_config :: "u64 \<Rightarrow> global_h \<Rightarrow> Cli \<Rightarrow> rflow_err_t \<times> Cli" where
  "librflow_set_global_config t cfg w =
     (if cl_lifecycle (k_state w) \<noteq> kUninit
        then (RFLOW_ERR_STATE, kfail t RFLOW_ERR_STATE ''set_global_config must be called before init'' ''client/lifecycle'' w)
      else if \<not> IsValidGlobalConfigHandle cfg
        then (RFLOW_ERR_PARAM, kfail t RFLOW_ERR_PARAM ''invalid global_config handle'' ''client/lifecycle'' w)
      else let g = CopyGlobalConfig (the cfg);
               p1 = NotifyFlexfecTrialFromSdkConfig (gc_flexfec g \<noteq> RFLOW_GLOBAL_FLEXFEC_DEFAULT)
                      (gc_flexfec g = RFLOW_GLOBAL_FLEXFEC_ON) (k_proc w);
               p2 = NotifyIceIgnoreInterfacesFromSdkConfig
                      (if gc_has_ice_ignore_interfaces g then Some (gc_ice_ignore_interfaces g) else None) p1;
               p3 = p2\<lparr>pr_logger := ApplyLogConfigIfPresent g (pr_logger p2)\<rparr>
           in (RFLOW_OK, (kupd (\<lambda>s. s\<lparr>cl_global_config := g\<rparr>) w)\<lparr>k_proc := p3\<rparr>))"

definition init_failure_text :: "InitFailureStage \<Rightarrow> string" where
  "init_failure_text stage =
     (case stage of stage_kThread \<Rightarrow> ''thread::initialize failed'' | stage_kRtc \<Rightarrow> ''rtc::initialize failed''
      | stage_kSignal \<Rightarrow> ''signal::initialize failed'' | stage_kNone \<Rightarrow> ''core infrastructure initialize failed'')"

definition init_infrastructure :: "u64 \<Rightarrow> bool \<Rightarrow> bool \<Rightarrow> bool \<Rightarrow> Cli \<Rightarrow> rflow_err_t \<times> Cli" where
  "init_infrastructure t th rt sg w =
     (let (rc, stage, i) = InitInfrastructure th rt sg (k_infra w); w1 = w\<lparr>k_infra := i\<rparr>
      in if rc \<noteq> RFLOW_OK then (rc, kfail t rc (init_failure_text stage) ''client/infrastructure'' w1) else (rc, w1))"

definition librflow_init :: "u64 \<Rightarrow> bool \<Rightarrow> bool \<Rightarrow> bool \<Rightarrow> Cli \<Rightarrow> rflow_err_t \<times> Cli" where
  "librflow_init t th rt sg w =
     (if cl_lifecycle (k_state w) \<noteq> kUninit then (RFLOW_OK, w)
      else let (err, w1) = init_infrastructure t th rt sg w
           in if err \<noteq> RFLOW_OK then (err, w1) else (RFLOW_OK, kupd (\<lambda>s. s\<lparr>cl_lifecycle := kInited\<rparr>) w1))"

text \<open>The three parts of \<^verbatim>\<open>librflow_connect\<close>: under the lock, outside it, and under it again.\<close>

definition ValidateConnectTransitionLocked :: "CliState \<Rightarrow> rflow_err_t" where
  "ValidateConnectTransitionLocked s = ValidateConnectTransition (cl_lifecycle s)"

definition config_signal_url :: "librflow_global_config_s \<Rightarrow> string" where
  "config_signal_url g = (if gc_magic g = kMagicGlobalConfig \<and> gc_has_signal g then sg_url (gc_signal g) else [])"

definition ApplyConnectTransitionLocked :: "librflow_connect_info_s \<Rightarrow> librflow_connect_cb_s \<Rightarrow> CliState \<Rightarrow> CliState" where
  "ApplyConnectTransitionLocked info cb s =
     s\<lparr>cl_connect_info := (if kci_device_id info = [] then info\<lparr>kci_device_id := RFLOW_DEFAULT_DEVICE_ID\<rparr> else info),
       cl_connect_cb := cb, cl_has_connect_cb := True, cl_lifecycle := kConnecting\<rparr>"

definition RollbackConnectFailedLocked :: "CliState \<Rightarrow> CliState" where
  "RollbackConnectFailedLocked s = s\<lparr>cl_lifecycle := kInited, cl_has_connect_cb := False\<rparr>"

definition CommitConnectedLocked :: "CliState \<Rightarrow> CliState" where
  "CommitConnectedLocked s = s\<lparr>cl_lifecycle := kConnected\<rparr>"

definition on_connect_succeeded :: "u64 \<Rightarrow> string \<Rightarrow> string \<Rightarrow> Cli \<Rightarrow> rflow_err_t \<times> Cli" where
  "on_connect_succeeded t url device_id w =
     (if url = []
        then (RFLOW_ERR_PARAM, kfail t RFLOW_ERR_PARAM
          (''librflow_connect: global_config.signal.url is empty; '' @
           ''call librflow_signal_config_set_url + librflow_set_global_config before connect'') ''client/infrastructure'' w)
      else if \<not> in_rtc (k_infra w)
        then (RFLOW_ERR_STATE, kfail t RFLOW_ERR_STATE ''peer_connection_factory not ready after rtc::initialize'' ''client/infrastructure'' w)
      else let (e, m) = RtcStreamManager_Init (in_rtc (k_infra w)) url device_id (k_mgr w); w1 = w\<lparr>k_mgr := m\<rparr>
           in if e \<noteq> RFLOW_OK then (e, kfail t e ''RtcStreamManager::Init failed'' ''client/infrastructure'' w1) else (e, w1))"

definition connect_begin ::
  "u64 \<Rightarrow> librflow_connect_info_s option \<Rightarrow> librflow_connect_cb_s option \<Rightarrow> Cli \<Rightarrow> rflow_err_t \<times> Cli" where
  "connect_begin t info cb w =
     (if \<not> RFLOW_CHECK_HANDLE kci_magic info client_kMagicConnectInfo then (RFLOW_ERR_PARAM, w)
      else if \<not> RFLOW_CHECK_HANDLE kcc_magic cb client_kMagicConnectCb then (RFLOW_ERR_PARAM, w)
      else let rc = ValidateConnectTransitionLocked (k_state w)
           in if rc = RFLOW_ERR_STATE \<and> cl_lifecycle (k_state w) = kUninit
                then (rc, kfail t RFLOW_ERR_STATE ''must call librflow_init before connect'' ''client/lifecycle'' w)
              else if rc \<noteq> RFLOW_OK then (rc, w)
              else (RFLOW_OK, kupd (ApplyConnectTransitionLocked (the info) (the cb)) w))"

definition connect_finish :: "rflow_err_t \<Rightarrow> librflow_connect_cb_s \<Rightarrow> Cli \<Rightarrow> rflow_err_t \<times> Cli" where
  "connect_finish err cb w =
     (if err \<noteq> RFLOW_OK then (err, kupd RollbackConnectFailedLocked w)
      else (RFLOW_OK, klog (call_opt (kcc_on_state cb) (\<lambda>f. KConnState f RFLOW_CONN_CONNECTED RFLOW_OK (kcc_userdata cb)))
                        (kupd CommitConnectedLocked w)))"

definition librflow_connect ::
  "u64 \<Rightarrow> librflow_connect_info_s option \<Rightarrow> librflow_connect_cb_s option \<Rightarrow> Cli \<Rightarrow> rflow_err_t \<times> Cli" where
  "librflow_connect t info cb w =
     (let (rc, w1) = connect_begin t info cb w
      in if rc \<noteq> RFLOW_OK then (rc, w1)
         else let (err, w2) = on_connect_succeeded t (config_signal_url (cl_global_config (k_state w1)))
                                (kci_device_id (cl_connect_info (k_state w1))) w1
              in connect_finish err (cl_connect_cb (k_state w1)) w2)"

definition librflow_disconnect :: "int \<Rightarrow> Cli \<Rightarrow> rflow_err_t \<times> Cli" where
  "librflow_disconnect now w =
     (if cl_lifecycle (k_state w) \<noteq> kConnected \<and> cl_lifecycle (k_state w) \<noteq> kConnecting then (RFLOW_OK, w)
      else let streams = cl_streams (k_state w); has_cb = cl_has_connect_cb (k_state w); cb = cl_connect_cb (k_state w);
               w1 = kupd (\<lambda>s. s\<lparr>cl_streams := [], cl_has_connect_cb := False, cl_lifecycle := kInited\<rparr>) w;
               (l, m) = RtcStreamManager_Shutdown now streams (k_mgr w1);
               w2 = klog l (w1\<lparr>k_mgr := m\<rparr>)
           in (RFLOW_OK, if has_cb
                then klog (call_opt (kcc_on_state cb) (\<lambda>f. KConnState f RFLOW_CONN_DISCONNECTED RFLOW_OK (kcc_userdata cb))) w2
                else w2))"

definition shutdown_infrastructure :: "int \<Rightarrow> Cli \<Rightarrow> Cli" where
  "shutdown_infrastructure now w =
     (let (l, m) = RtcStreamManager_Shutdown now (cl_streams (k_state w)) (k_mgr w)
      in klog l (w\<lparr>k_mgr := m, k_infra := ShutdownInfrastructure (k_infra w)\<rparr>))"

definition librflow_uninit :: "int \<Rightarrow> Cli \<Rightarrow> rflow_err_t \<times> Cli" where
  "librflow_uninit now w0 =
     (let w = snd (librflow_disconnect now w0)
      in if cl_lifecycle (k_state w) = kUninit then (RFLOW_OK, w)
         else let w1 = shutdown_infrastructure now (kupd (\<lambda>s. s\<lparr>cl_streams := []\<rparr>) w);
                  w2 = w1\<lparr>k_proc := ResetIceIgnoreInterfacesSdkOverride (ResetFlexfecTrialSdkOverride (k_proc w1))\<rparr>
              in (RFLOW_OK, kupd (\<lambda>s. s\<lparr>cl_lifecycle := kUninit\<rparr>) w2))"

definition librflow_send_notice :: "u64 \<Rightarrow> Cli \<Rightarrow> rflow_err_t \<times> Cli" where
  "librflow_send_notice t w =
     (if cl_lifecycle (k_state w) \<noteq> kConnected
      then (RFLOW_ERR_STATE, kfail t RFLOW_ERR_STATE ''librflow_send_notice: client not connected'' ''client/lifecycle'' w)
      else (RFLOW_ERR_NOT_SUPPORT, kfail t RFLOW_ERR_NOT_SUPPORT
         (''librflow_send_notice: control-plane channel not implemented; '' @ ''use your business MQ/HTTP path instead'')
         ''client/lifecycle'' w))"

definition librflow_reply_to_service_req :: "u64 \<Rightarrow> Cli \<Rightarrow> rflow_err_t \<times> Cli" where
  "librflow_reply_to_service_req t w =
     (if cl_lifecycle (k_state w) \<noteq> kConnected
      then (RFLOW_ERR_STATE, kfail t RFLOW_ERR_STATE ''librflow_service_reply: client not connected'' ''client/lifecycle'' w)
      else (RFLOW_ERR_NOT_SUPPORT, kfail t RFLOW_ERR_NOT_SUPPORT
         (''librflow_service_reply: control-plane channel not implemented; '' @ ''use your business MQ/HTTP path instead'')
         ''client/lifecycle'' w))"

definition librflow_service_reply :: "u64 \<Rightarrow> Cli \<Rightarrow> rflow_err_t \<times> Cli" where
  "librflow_service_reply t w = librflow_reply_to_service_req t w"

definition librflow_log_set_level :: "rflow_log_level_t \<Rightarrow> Cli \<Rightarrow> rflow_err_t \<times> Cli" where
  "librflow_log_set_level level w =
     (RFLOW_OK, w\<lparr>k_proc := (k_proc w)\<lparr>pr_logger := logger_set_level level (pr_logger (k_proc w))\<rparr>\<rparr>)"

definition librflow_log_set_callback :: "fn_ptr \<Rightarrow> nat \<Rightarrow> Cli \<Rightarrow> rflow_err_t \<times> Cli" where
  "librflow_log_set_callback cb ud w =
     (RFLOW_OK, w\<lparr>k_proc := (k_proc w)\<lparr>pr_logger := logger_set_callback cb ud (pr_logger (k_proc w))\<rparr>\<rparr>)"

section \<open>Streams\<close>

definition new_client_stream :: "int \<Rightarrow> librflow_stream_cb_s \<Rightarrow> librflow_stream_s" where
  "new_client_stream index cb =
     \<lparr> kst_magic = client_kMagicStream, kst_index = index, kst_state = RFLOW_STREAM_IDLE, kst_cb = cb,
       kst_opened_at = None, kst_last_stats_emit_at = None, kst_video_frames_received = 0,
       kst_last_stats_frames_received = 0, kst_impl = None, kst_seq_counter = 0 \<rparr>"

text \<open>\<open>addr\<close> is the address of the new object; the out variable receives it.\<close>

definition librflow_open_stream ::
  "env \<Rightarrow> u64 \<Rightarrow> int \<Rightarrow> bool \<Rightarrow> bool \<Rightarrow> nat \<Rightarrow> int \<Rightarrow> librflow_stream_param_s option \<Rightarrow> librflow_stream_cb_s option
     \<Rightarrow> nat option option \<Rightarrow> Cli \<Rightarrow> rflow_err_t \<times> nat option option \<times> Cli" where
  "librflow_open_stream env t now sig_ok timing addr index param cb out w =
     (if out = None then (RFLOW_ERR_PARAM, None, w)
      else if param \<noteq> None \<and> \<not> RFLOW_CHECK_HANDLE kp_magic param client_kMagicStreamParam then (RFLOW_ERR_PARAM, Some None, w)
      else if \<not> RFLOW_CHECK_HANDLE kscb_magic cb client_kMagicStreamCb then (RFLOW_ERR_PARAM, Some None, w)
      else if cl_lifecycle (k_state w) \<noteq> kConnected
        then (RFLOW_ERR_STATE, Some None, kfail t RFLOW_ERR_STATE ''must connect before open_stream'' ''client/stream'' w)
      else if list_ex (\<lambda>(h, x). kst_index x = index) (cl_streams (k_state w))
        then (RFLOW_ERR_STREAM_ALREADY_OPEN, Some None,
              kfail t RFLOW_ERR_STREAM_ALREADY_OPEN ''stream index already open'' ''client/stream'' w)
      else let sh = new_client_stream index (the cb); w1 = kput addr sh w; sid = k_sessions w1;
               (e, impl, m) = RtcStreamManager_OpenStream env now sig_ok timing (in_rtc (k_infra w1))
                                (cl_streams (k_state w1)) sid index param (k_mgr w1);
               (l, sh1) = (case impl of None \<Rightarrow> ([], sh) | Some s \<Rightarrow> deliver now addr (rs_events s) sh);
               w2 = klog l (w1\<lparr>k_mgr := m, k_sessions := Suc sid\<rparr>)
           in if e \<noteq> RFLOW_OK then (e, Some None, kerase addr w2)
              else (RFLOW_OK, Some (Some addr), kput addr (sh1\<lparr>kst_impl := map_option (Pair sid) impl\<rparr>) w2))"

text \<open>A stream without a session is closed by \<^verbatim>\<open>MarkStreamClosed\<close>.\<close>

definition librflow_close_stream :: "int \<Rightarrow> nat option \<Rightarrow> Cli \<Rightarrow> rflow_err_t \<times> Cli" where
  "librflow_close_stream now handle w =
     (case handle of None \<Rightarrow> (RFLOW_OK, w)
      | Some h \<Rightarrow>
          (case FindStreamByHandle h w of None \<Rightarrow> (RFLOW_OK, w)
           | Some sh \<Rightarrow>
               (RFLOW_OK, klog (case kst_impl sh of
                    Some (sid, s) \<Rightarrow> fst (session_moved now h sid s (pull_Close s) (sh\<lparr>kst_impl := None\<rparr>))
                  | None \<Rightarrow> on_state_calls h RFLOW_STREAM_CLOSED RFLOW_OK sh) (kerase h w))))"

definition FillClientStreamBaseStats :: "int \<Rightarrow> librflow_stream_s \<Rightarrow> librflow_stream_stats_s \<Rightarrow> librflow_stream_stats_s" where
  "FillClientStreamBaseStats now sh ms = FillStreamStatsBase now (kst_opened_at sh) (kst_video_frames_received sh) ms"

text \<open>
  \<open>stale\<close> is the object found behind a handle that is not in the map. \<open>collect\<close> is what the
  session's statistics collection does to the object: whether it succeeded and the result.
\<close>

definition librflow_stream_get_stats ::
  "int \<Rightarrow> bool \<Rightarrow> (librflow_stream_stats_s \<Rightarrow> bool \<times> librflow_stream_stats_s) \<Rightarrow> librflow_stream_s \<Rightarrow> nat option
     \<Rightarrow> librflow_stream_stats_s option option \<Rightarrow> Cli \<Rightarrow> rflow_err_t \<times> librflow_stream_stats_s option option" where
  "librflow_stream_get_stats now alloc collect stale handle out w =
     (case handle of None \<Rightarrow> (RFLOW_ERR_PARAM, out)
      | Some h \<Rightarrow>
          let sh = (case FindStreamByHandle h w of Some sh \<Rightarrow> sh | None \<Rightarrow> stale) in
          if kst_magic sh \<noteq> client_kMagicStream then (RFLOW_ERR_PARAM, out)
          else if out = None then (RFLOW_ERR_PARAM, None)
          else case AllocStreamStats alloc of None \<Rightarrow> (RFLOW_ERR_FAIL, Some None)
            | Some ms \<Rightarrow>
                let ms1 = FillClientStreamBaseStats now sh ms;
                    (collected, ms2) = (case kst_impl sh of Some _ \<Rightarrow> collect ms1 | None \<Rightarrow> (False, ms1));
                    ms3 = (if collected then ms2
                           else ApplyStreamStatsFpsFallbackFromFrameCount (kst_video_frames_received sh) ms2)
                in (RFLOW_OK, Some (Some ms3)))"

section \<open>Decoded frames\<close>

definition stats_elapsed_ms :: "int \<Rightarrow> librflow_stream_s \<Rightarrow> int" where
  "stats_elapsed_ms now sh = (case kst_last_stats_emit_at sh of None \<Rightarrow> 1000 | Some prev \<Rightarrow> max 1 (now - prev))"

definition MaybeEmitPeriodicStats ::
  "int \<Rightarrow> bool \<Rightarrow> (librflow_stream_stats_s \<Rightarrow> bool \<times> librflow_stream_stats_s) \<Rightarrow> librflow_stream_s
     \<Rightarrow> client_event list \<times> librflow_stream_s" where
  "MaybeEmitPeriodicStats now alloc collect sh =
     (case kscb_on_stream_stats (kst_cb sh) of None \<Rightarrow> ([], sh)
      | Some f \<Rightarrow>
          if (case kst_last_stats_emit_at sh of Some prev \<Rightarrow> now - prev < 1000 | None \<Rightarrow> False) then ([], sh)
          else case AllocStreamStats alloc of None \<Rightarrow> ([], sh)
            | Some ms \<Rightarrow>
                let ms1 = FillClientStreamBaseStats now sh ms;
                    ms2 = (case kst_impl sh of Some _ \<Rightarrow> snd (collect ms1) | None \<Rightarrow> ms1);
                    current = kst_video_frames_received sh; previous = kst_last_stats_frames_received sh;
                    fps = ucast (((current - previous) * 1000) div (word_of_int (stats_elapsed_ms now sh) :: u64));
                    sh1 = sh\<lparr>kst_last_stats_frames_received := current, kst_last_stats_emit_at := Some now\<rparr>
                in ([KStats f (ms2\<lparr>ms_fps := fps\<rparr>) (kscb_userdata (kst_cb sh))], sh1))"

text \<open>\<open>converted\<close> tells whether the frame could be converted.\<close>

definition frame_sink ::
  "int \<Rightarrow> bool \<Rightarrow> bool \<Rightarrow> (librflow_stream_stats_s \<Rightarrow> bool \<times> librflow_stream_stats_s) \<Rightarrow> nat \<Rightarrow> librflow_stream_s
     \<Rightarrow> client_event list \<times> librflow_stream_s" where
  "frame_sink now converted alloc collect h p =
     (let seq = kst_seq_counter p; p1 = p\<lparr>kst_seq_counter := seq + 1\<rparr>
      in if \<not> converted then ([], p1)
         else let p2 = p1\<lparr>kst_video_frames_received := kst_video_frames_received p1 + 1\<rparr>;
                  video = call_opt (kscb_on_video (kst_cb p2)) (\<lambda>f. KVideo f h (kst_index p2) seq (kscb_userdata (kst_cb p2)));
                  (stats, p3) = MaybeEmitPeriodicStats now alloc collect p2
              in (video @ stats, p3))"

section \<open>Reachable states\<close>

text \<open>An input of the session of a stream, and a decoded frame, both made by WebRTC's threads.\<close>

definition session_input :: "(PendingIce \<Rightarrow> bool) \<Rightarrow> int \<Rightarrow> nat \<Rightarrow> pull_input \<Rightarrow> Cli \<Rightarrow> Cli" where
  "session_input parses now h i w =
     (case FindStreamByHandle h w of None \<Rightarrow> w
      | Some sh \<Rightarrow>
          (case kst_impl sh of None \<Rightarrow> w
           | Some (sid, s) \<Rightarrow>
               let (l, sh') = session_moved now h sid s (pull_step parses i s) sh in klog l (kput h sh' w)))"

definition decoded_frame ::
  "int \<Rightarrow> bool \<Rightarrow> bool \<Rightarrow> (librflow_stream_stats_s \<Rightarrow> bool \<times> librflow_stream_stats_s) \<Rightarrow> nat \<Rightarrow> Cli \<Rightarrow> Cli" where
  "decoded_frame now converted alloc collect h w =
     (case FindStreamByHandle h w of None \<Rightarrow> w
      | Some sh \<Rightarrow> let (l, sh') = frame_sink now converted alloc collect h sh in klog l (kput h sh' w))"

definition cli_state_init :: CliState where
  "cli_state_init = \<lparr> cl_lifecycle = kUninit, cl_global_config = global_config_zero, cl_connect_info = connect_info_zero,
     cl_connect_cb = connect_cb_zero, cl_has_connect_cb = False, cl_streams = [] \<rparr>"

definition manager_init :: RtcStreamManager where
  "manager_init = \<lparr> rm_inited = False, rm_signaling_url = [], rm_device_id = [], rm_open_indices = [] \<rparr>"

definition cli_world_init :: Cli where
  "cli_world_init = \<lparr> k_state = cli_state_init, k_proc = process_init, k_infra = infra_down, k_mgr = manager_init,
     k_sessions = 0, k_log = [] \<rparr>"

definition input_enabled :: "nat \<Rightarrow> pull_input \<Rightarrow> Cli \<Rightarrow> bool" where
  "input_enabled h i w =
     (case FindStreamByHandle h w of None \<Rightarrow> False
      | Some sh \<Rightarrow> (case kst_impl sh of None \<Rightarrow> False | Some (sid, s) \<Rightarrow> pull_enabled s i \<and> i \<noteq> InClose))"

inductive cli_step :: "Cli \<Rightarrow> Cli \<Rightarrow> bool" where
  cstep_config: "cli_step w (snd (librflow_set_global_config t cfg w))"
| cstep_init: "cli_step w (snd (librflow_init t th rt sg w))"
| cstep_uninit: "cli_step w (snd (librflow_uninit now w))"
| cstep_connect: "cli_step w (snd (librflow_connect t info cb w))"
| cstep_disconnect: "cli_step w (snd (librflow_disconnect now w))"
| cstep_notice: "cli_step w (snd (librflow_send_notice t w))"
| cstep_reply: "cli_step w (snd (librflow_service_reply t w))"
| cstep_open: "FindStreamByHandle addr w = None \<Longrightarrow>
    cli_step w (snd (snd (librflow_open_stream env t now sig_ok timing addr index param scb out w)))"
| cstep_close: "cli_step w (snd (librflow_close_stream now handle w))"
| cstep_input: "input_enabled h i w \<Longrightarrow> cli_step w (session_input parses now h i w)"
| cstep_frame: "cli_step w (decoded_frame now converted alloc collect h w)"
| cstep_log_level: "cli_step w (snd (librflow_log_set_level level w))"
| cstep_log_callback: "cli_step w (snd (librflow_log_set_callback lcb ud w))"

inductive cli_reachable :: "Cli \<Rightarrow> bool" where
  cli_start: "cli_reachable cli_world_init"
| cli_next: "cli_reachable w \<Longrightarrow> cli_step w w' \<Longrightarrow> cli_reachable w'"

section \<open>What a session keeps\<close>

text \<open>The state after a list of events, and a session that went on from another.\<close>

definition state_after :: "rflow_stream_state_t \<Rightarrow> pull_event list \<Rightarrow> rflow_stream_state_t" where
  "state_after st es = fold (\<lambda>e x. case e of EvState st' r \<Rightarrow> st' | _ \<Rightarrow> x) es st"

lemma state_after_simps [simp]:
  "state_after st [] = st" "state_after st (es @ fs) = state_after (state_after st es) fs"
  "state_after st [EvState st' r] = st'"
  by (simp_all add: state_after_def)

definition ident_of :: "RtcStreamSession \<Rightarrow> int \<times> string \<times> string \<times> bool \<times> bool \<times> IceRtcServerConfig" where
  "ident_of s = (rs_index s, rs_signaling_url s, rs_device_id s, rs_factory s, rs_state_sink s, rs_ice_config s)"

definition goes_on :: "RtcStreamSession \<Rightarrow> RtcStreamSession \<Rightarrow> bool" where
  "goes_on s s' \<longleftrightarrow> ident_of s' = ident_of s \<and> rs_state_sink s'
     \<and> (\<exists>es. rs_events s' = rs_events s @ es \<and> rs_stream_state s' = state_after (rs_stream_state s) es)"

lemma goes_on_refl: "rs_state_sink s \<Longrightarrow> goes_on s s"
  by (simp add: goes_on_def)

lemma goes_on_trans: "goes_on s t \<Longrightarrow> goes_on t u \<Longrightarrow> goes_on s u"
  by (fastforce simp: goes_on_def)

lemma goes_on_same:
  "goes_on s t \<Longrightarrow> ident_of u = ident_of t \<Longrightarrow> rs_events u = rs_events t \<Longrightarrow> rs_stream_state u = rs_stream_state t \<Longrightarrow> goes_on s u"
  by (auto simp: goes_on_def ident_of_def)

lemma goes_on_Emit: "goes_on s t \<Longrightarrow> goes_on s (EmitState st r t)"
proof -
  assume a: "goes_on s t"
  then obtain es where es: "rs_events t = rs_events s @ es" "rs_stream_state t = state_after (rs_stream_state s) es" "rs_state_sink t"
    by (auto simp: goes_on_def)
  have "rs_events (EmitState st r t) = rs_events s @ (es @ [EvState st r])
    \<and> rs_stream_state (EmitState st r t) = state_after (rs_stream_state s) (es @ [EvState st r])"
    using es by (simp add: EmitState_def event_def Let_def)
  then show ?thesis using a unfolding goes_on_def by (auto simp: ident_of_def EmitState_def event_def Let_def)
qed

definition is_state :: "pull_event \<Rightarrow> bool" where
  "is_state e \<longleftrightarrow> (case e of EvState st r \<Rightarrow> True | _ \<Rightarrow> False)"

lemma is_state_simps [simp]:
  "\<not> is_state (EvAddIce n c)" "\<not> is_state (EvSend m b)" "\<not> is_state EvSignalStop" "\<not> is_state (EvPcCreate n g)"
  "\<not> is_state (EvPcClose n)" "\<not> is_state (EvSetRemote n u)" "\<not> is_state (EvCreateAnswer n)" "\<not> is_state (EvSetLocal n u)"
  by (simp_all add: is_state_def)

lemma goes_on_event: "goes_on s t \<Longrightarrow> \<not> is_state e \<Longrightarrow> goes_on s (event e t)"
proof -
  assume a: "goes_on s t" and e: "\<not> is_state e"
  then obtain es where es: "rs_events t = rs_events s @ es" "rs_stream_state t = state_after (rs_stream_state s) es"
    by (auto simp: goes_on_def)
  have "state_after st [e] = st" for st using e by (simp add: state_after_def is_state_def split: pull_event.splits)
  then have "rs_events (event e t) = rs_events s @ (es @ [e]) \<and> rs_stream_state (event e t) = state_after (rs_stream_state s) (es @ [e])"
    using es by (simp add: event_def)
  then show ?thesis using a unfolding goes_on_def by (auto simp: ident_of_def event_def)
qed

lemma goes_on_ClosePc: "goes_on s t \<Longrightarrow> goes_on s (ClosePeerConnection t)"
  by (auto simp: ClosePeerConnection_def ident_of_def split: option.split
      intro!: goes_on_event intro: goes_on_same [of s t])

lemmas goes_on_intros = goes_on_Emit goes_on_event goes_on_ClosePc

lemma goes_on_set [intro]:
  "goes_on s t \<Longrightarrow> goes_on s (t\<lparr>rs_pending_ice := b\<rparr>)" "goes_on s t \<Longrightarrow> goes_on s (t\<lparr>rs_pending_set_remote := c\<rparr>)"
  "goes_on s t \<Longrightarrow> goes_on s (t\<lparr>rs_pending_create_answer := c\<rparr>)" "goes_on s t \<Longrightarrow> goes_on s (t\<lparr>rs_pending_set_local := l\<rparr>)"
  "goes_on s t \<Longrightarrow> goes_on s (t\<lparr>rs_signaling := g\<rparr>)" "goes_on s t \<Longrightarrow> goes_on s (t\<lparr>rs_closed := c\<rparr>)"
  "goes_on s t \<Longrightarrow> goes_on s (t\<lparr>rs_watchdog := d\<rparr>)"
  "goes_on s t \<Longrightarrow> goes_on s (t\<lparr>rs_peer_connection := p, rs_pc_count := n, rs_pc_thread := c\<rparr>)"
  by (auto simp: ident_of_def intro: goes_on_same [of s t])

lemma goes_on_drop: "goes_on s t \<Longrightarrow> goes_on s (drop_observers t)"
  by (auto simp: drop_observers_def ident_of_def intro: goes_on_same [of s t])

lemma goes_on_Close: "rs_state_sink s \<Longrightarrow> goes_on s (pull_Close s)"
  by (auto simp: pull_Close_def Let_def intro!: goes_on_intros goes_on_set goes_on_drop intro: goes_on_refl)

lemma goes_on_CreatePc: "goes_on s t \<Longrightarrow> goes_on s (CreatePeerConnectionLocked a t)"
  unfolding CreatePeerConnectionLocked_def Let_def
  by (auto intro!: goes_on_intros goes_on_set)

lemma goes_on_Offer: "rs_state_sink s \<Longrightarrow> goes_on s (HandleOffer a ok sdp s)"
proof -
  assume "rs_state_sink s"
  then have "goes_on s (CreatePeerConnectionLocked a (drop_observers s))"
    by (intro goes_on_CreatePc goes_on_drop goes_on_refl)
  then show ?thesis using \<open>rs_state_sink s\<close> unfolding HandleOffer_def Let_def
    by (auto split: option.split intro!: goes_on_intros goes_on_set intro: goes_on_refl)
qed

lemma goes_on_Add: "goes_on s t \<Longrightarrow> goes_on s (AddRemoteIceCandidateNow parses c t)"
  by (auto simp: AddRemoteIceCandidateNow_def split: option.split intro!: goes_on_event)

lemma goes_on_fold_Add: "goes_on s t \<Longrightarrow> goes_on s (fold (AddRemoteIceCandidateNow parses) cs t)"
  by (induction cs arbitrary: t) (auto intro: goes_on_Add)

lemma goes_on_step: "rs_state_sink s \<Longrightarrow> goes_on s (pull_step parses i s)"
proof -
  assume s: "rs_state_sink s"
  note r = goes_on_refl [OF s]
  have f: "goes_on s (FlushPendingRemoteIceCandidates parses t)" if "goes_on s t" for t
    unfolding FlushPendingRemoteIceCandidates_def Let_def split_beta by (intro goes_on_fold_Add goes_on_set that)
  have d: "goes_on s (DoCreateAnswerAfterSetRemote t)" if "goes_on s t" for t
    using that unfolding DoCreateAnswerAfterSetRemote_def
    by (auto split: option.split intro!: goes_on_intros goes_on_set)
  have sr: "goes_on s (on_set_remote parses ok s)" for ok
    unfolding on_set_remote_def Let_def by (auto intro!: d f goes_on_intros goes_on_set r)
  have ca: "goes_on s (on_create_answer x s)" for x
    unfolding on_create_answer_def Let_def by (auto split: option.split intro!: goes_on_intros goes_on_set r)
  have sl: "goes_on s (on_set_local ok sent s)" for ok sent
    unfolding on_set_local_def Let_def by (auto intro!: goes_on_intros goes_on_set r)
  have oc: "goes_on s (OnConnectionChange st s)" for st
    unfolding OnConnectionChange_def by (auto split: pc_state.split intro!: goes_on_intros r)
  have ic: "goes_on s (OnIceCandidate c sent s)" for c sent
    unfolding OnIceCandidate_def Let_def by (auto split: option.split intro!: goes_on_intros r)
  have hc: "goes_on s (HandleRemoteIceCandidate parses c s)" for c
    unfolding HandleRemoteIceCandidate_def by (auto intro!: goes_on_Add goes_on_set r)
  have sm: "goes_on s (pull_OnSignalMessage parses a ok msg s)" for a ok msg
    unfolding pull_OnSignalMessage_def using goes_on_Offer [OF s] hc r by (auto split: MessageType.split)
  show ?thesis
    by (cases i) (auto simp: pull_OnSignalError_def sm sr ca sl oc ic goes_on_Close [OF s] intro: goes_on_Emit r)
qed

text \<open>Until it is closed a session keeps its signaling session.\<close>

definition link_of :: "RtcStreamSession \<Rightarrow> SessionConfig option \<times> bool" where
  "link_of s = (rs_signaling s, rs_closed s)"

lemma link_basic [simp]:
  "link_of (event e s) = link_of s" "link_of (EmitState st r s) = link_of s" "link_of (ClosePeerConnection s) = link_of s"
  "link_of (drop_observers s) = link_of s"
  "link_of (s\<lparr>rs_pending_ice := b\<rparr>) = link_of s" "link_of (s\<lparr>rs_pending_set_remote := c\<rparr>) = link_of s"
  "link_of (s\<lparr>rs_pending_create_answer := c\<rparr>) = link_of s" "link_of (s\<lparr>rs_pending_set_local := l\<rparr>) = link_of s"
  "link_of (s\<lparr>rs_peer_connection := p, rs_pc_count := n, rs_pc_thread := c\<rparr>) = link_of s"
  by (simp_all add: link_of_def)

lemma link_calls [simp]:
  "link_of (CreatePeerConnectionLocked a s) = link_of s" "link_of (AddRemoteIceCandidateNow parses c s) = link_of s"
  "link_of (DoCreateAnswerAfterSetRemote s) = link_of s"
  by (simp_all add: CreatePeerConnectionLocked_def AddRemoteIceCandidateNow_def DoCreateAnswerAfterSetRemote_def Let_def
      split: option.split)

lemma link_fold [simp]: "link_of (fold (AddRemoteIceCandidateNow parses) cs s) = link_of s"
  by (induction cs arbitrary: s) simp_all

lemma link_step: "i \<noteq> InClose \<Longrightarrow> link_of (pull_step parses i s) = link_of s"
  by (cases i)
    (simp_all add: pull_OnSignalMessage_def HandleOffer_def HandleRemoteIceCandidate_def pull_OnSignalError_def on_set_remote_def
      FlushPendingRemoteIceCandidates_def on_create_answer_def on_set_local_def OnConnectionChange_def OnIceCandidate_def Let_def
      split_beta split: MessageType.split option.split pc_state.split)

text \<open>A new session that is started.\<close>

lemma fresh_start:
  assumes "pull_Start now sig_ok timing (SetStateSink (new_RtcStreamSession env index True url dev ice)) = (ok, s)"
  shows "ok = sig_ok" and "rs_index s = index" "rs_signaling_url s = url" "rs_device_id s = dev" "rs_factory s" "rs_state_sink s"
    "\<not> rs_closed s"
    and "sig_ok \<Longrightarrow> rs_signaling s = Some (pull_session_config s)"
    and "sig_ok \<Longrightarrow> rs_events s = [EvState RFLOW_STREAM_OPENING RFLOW_OK]"
    and "sig_ok \<Longrightarrow> rs_stream_state s = RFLOW_STREAM_OPENING"
    and "\<not> sig_ok \<Longrightarrow> rs_events (pull_Close s) = [EvState RFLOW_STREAM_OPENING RFLOW_OK,
           EvState RFLOW_STREAM_FAILED RFLOW_ERR_CONN_NETWORK, EvState RFLOW_STREAM_CLOSED RFLOW_OK]"
  using assms
  by (auto simp: pull_Start_def SetStateSink_def new_RtcStreamSession_def EmitState_def event_def pull_session_config_def
      pull_Close_def drop_observers_def ClosePeerConnection_def Let_def split: if_splits)

section \<open>Delivery\<close>

lemma state_sink_views:
  assumes "state_sink now h st r sh = (l, sh')"
  shows "kst_magic sh' = kst_magic sh" "kst_index sh' = kst_index sh" "kst_cb sh' = kst_cb sh" "kst_impl sh' = kst_impl sh"
    "kst_seq_counter sh' = kst_seq_counter sh" "kst_state sh' = st" "l = on_state_calls h st r sh"
  using assms by (auto simp: state_sink_def ResetOpenedStats_def on_state_calls_def Let_def split: if_splits)

fun state_calls :: "nat \<Rightarrow> pull_event list \<Rightarrow> librflow_stream_s \<Rightarrow> client_event list" where
  "state_calls h [] sh = []"
| "state_calls h (e # es) sh = (case e of EvState st r \<Rightarrow> on_state_calls h st r sh | _ \<Rightarrow> []) @ state_calls h es sh"

lemma state_calls_cong: "kst_cb sh' = kst_cb sh \<Longrightarrow> state_calls h es sh' = state_calls h es sh"
  by (induction es) (simp_all add: on_state_calls_def split: pull_event.split)

lemma deliver_views:
  assumes "deliver now h es sh = (l, sh')"
  shows "kst_magic sh' = kst_magic sh \<and> kst_index sh' = kst_index sh \<and> kst_cb sh' = kst_cb sh \<and> kst_impl sh' = kst_impl sh
    \<and> kst_seq_counter sh' = kst_seq_counter sh \<and> kst_state sh' = state_after (kst_state sh) es \<and> l = state_calls h es sh"
  using assms
proof (induction es arbitrary: sh l sh')
  case (Cons e es)
  show ?case
  proof (cases e)
    case (EvState st r)
    obtain l1 sh1 where s1: "state_sink now h st r sh = (l1, sh1)" by (cases "state_sink now h st r sh")
    obtain l2 sh2 where s2: "deliver now h es sh1 = (l2, sh2)" by (cases "deliver now h es sh1")
    from Cons.prems have "sh' = sh2" "l = l1 @ l2" by (auto simp: EvState s1 s2)
    with Cons.IH [OF s2] state_sink_views [OF s1] state_calls_cong [of sh1 sh h es] show ?thesis
      by (simp add: EvState state_after_def)
  qed (use Cons in \<open>simp_all add: state_after_def\<close>)
qed simp

lemma session_moved_views:
  assumes "session_moved now h sid s s' sh = (l, sh')" and "goes_on s s'"
  shows "kst_magic sh' = kst_magic sh" "kst_index sh' = kst_index sh" "kst_cb sh' = kst_cb sh" "kst_impl sh' = Some (sid, s')"
    "kst_state sh = rs_stream_state s \<Longrightarrow> kst_state sh' = rs_stream_state s'"
    "rs_events s' = rs_events s @ es \<Longrightarrow> l = state_calls h es sh"
proof -
  obtain es' where es': "rs_events s' = rs_events s @ es'" "rs_stream_state s' = state_after (rs_stream_state s) es'"
    using assms(2) by (auto simp: goes_on_def)
  obtain l1 sh1 where d: "deliver now h es' sh = (l1, sh1)" by (cases "deliver now h es' sh")
  then have "l = l1" "sh' = sh1\<lparr>kst_impl := Some (sid, s')\<rparr>" using assms(1) es'(1) by (auto simp: session_moved_def)
  with deliver_views [OF d] es' show "kst_magic sh' = kst_magic sh" "kst_index sh' = kst_index sh" "kst_cb sh' = kst_cb sh"
    "kst_impl sh' = Some (sid, s')" "kst_state sh = rs_stream_state s \<Longrightarrow> kst_state sh' = rs_stream_state s'"
    "rs_events s' = rs_events s @ es \<Longrightarrow> l = state_calls h es sh" by simp_all
qed

section \<open>The invariant\<close>

text \<open>A stream object, given the manager and the number of sessions made so far.\<close>

definition cstream_ok :: "RtcStreamManager \<Rightarrow> nat \<Rightarrow> librflow_stream_s \<Rightarrow> bool" where
  "cstream_ok m n sh \<longleftrightarrow> kst_magic sh = client_kMagicStream
     \<and> (case kst_impl sh of None \<Rightarrow> False
        | Some (sid, s) \<Rightarrow> sid < n \<and> map_of (rm_open_indices m) (kst_index sh) = Some sid
            \<and> rs_index s = kst_index sh \<and> rs_signaling_url s = rm_signaling_url m \<and> rs_device_id s = rm_device_id m
            \<and> rs_factory s \<and> rs_state_sink s \<and> \<not> rs_closed s \<and> rs_signaling s = Some (pull_session_config s)
            \<and> rs_stream_state s = kst_state sh)"

text \<open>Streams and the manager's references: indices are in use once, and a live reference is filed under its stream's index.\<close>

definition streams_ok :: "RtcStreamManager \<Rightarrow> nat \<Rightarrow> (nat \<times> librflow_stream_s) list \<Rightarrow> bool" where
  "streams_ok m n ss \<longleftrightarrow> distinct (keys ss)
     \<and> (\<forall>i sid. map_of (rm_open_indices m) i = Some sid \<longrightarrow> sid < n)
     \<and> (\<forall>h sh. map_of ss h = Some sh \<longrightarrow> cstream_ok m n sh)
     \<and> (\<forall>h h' sh sh'. map_of ss h = Some sh \<and> map_of ss h' = Some sh' \<and> kst_index sh = kst_index sh' \<longrightarrow> h = h')
     \<and> (\<forall>i sid h sh. map_of (rm_open_indices m) i = Some sid \<and> map_of ss h = Some sh \<and> holds_session sid sh \<longrightarrow> kst_index sh = i)"

definition cli_ok :: "Cli \<Rightarrow> bool" where
  "cli_ok w \<longleftrightarrow> (let s = k_state w; m = k_mgr w; up = (cl_lifecycle s = kConnected) in
     cl_lifecycle s \<noteq> kConnecting
   \<and> k_infra w = (if cl_lifecycle s = kUninit then infra_down else infra_up)
   \<and> cl_has_connect_cb s = up \<and> rm_inited m = up \<and> (up \<or> cl_streams s = [])
   \<and> (up \<longrightarrow> rm_signaling_url m = config_signal_url (cl_global_config s) \<and> rm_signaling_url m \<noteq> []
        \<and> rm_device_id m = kci_device_id (cl_connect_info s) \<and> rm_device_id m \<noteq> [])
   \<and> streams_ok m (k_sessions w) (cl_streams s))"

lemma kupd_simps [simp]:
  "k_state (kupd f w) = f (k_state w)" "k_proc (kupd f w) = k_proc w" "k_infra (kupd f w) = k_infra w"
  "k_mgr (kupd f w) = k_mgr w" "k_sessions (kupd f w) = k_sessions w" "k_log (kupd f w) = k_log w"
  by (simp_all add: kupd_def)

lemma klog_simps [simp]:
  "k_state (klog es w) = k_state w" "k_proc (klog es w) = k_proc w" "k_infra (klog es w) = k_infra w"
  "k_mgr (klog es w) = k_mgr w" "k_sessions (klog es w) = k_sessions w" "k_log (klog es w) = k_log w @ es"
  "FindStreamByHandle h (klog es w) = FindStreamByHandle h w"
  by (simp_all add: klog_def FindStreamByHandle_def)

lemma kfail_simps [simp]:
  "k_state (kfail t c m og w) = k_state w" "k_infra (kfail t c m og w) = k_infra w" "k_mgr (kfail t c m og w) = k_mgr w"
  "k_sessions (kfail t c m og w) = k_sessions w" "k_log (kfail t c m og w) = k_log w"
  "FindStreamByHandle h (kfail t c m og w) = FindStreamByHandle h w"
  by (simp_all add: kfail_def FindStreamByHandle_def)

lemma kput_simps [simp]:
  "cl_lifecycle (k_state (kput h sh w)) = cl_lifecycle (k_state w)"
  "cl_connect_info (k_state (kput h sh w)) = cl_connect_info (k_state w)"
  "cl_connect_cb (k_state (kput h sh w)) = cl_connect_cb (k_state w)"
  "cl_global_config (k_state (kput h sh w)) = cl_global_config (k_state w)"
  "cl_has_connect_cb (k_state (kput h sh w)) = cl_has_connect_cb (k_state w)"
  "cl_streams (k_state (kput h sh w)) = AList.update h sh (cl_streams (k_state w))"
  "k_infra (kput h sh w) = k_infra w" "k_mgr (kput h sh w) = k_mgr w" "k_sessions (kput h sh w) = k_sessions w"
  "k_log (kput h sh w) = k_log w" "k_proc (kput h sh w) = k_proc w"
  "FindStreamByHandle h' (kput h sh w) = (if h' = h then Some sh else FindStreamByHandle h' w)"
  by (simp_all add: kput_def FindStreamByHandle_def)

lemma kerase_simps [simp]:
  "cl_lifecycle (k_state (kerase h w)) = cl_lifecycle (k_state w)"
  "cl_connect_info (k_state (kerase h w)) = cl_connect_info (k_state w)"
  "cl_connect_cb (k_state (kerase h w)) = cl_connect_cb (k_state w)"
  "cl_global_config (k_state (kerase h w)) = cl_global_config (k_state w)"
  "cl_has_connect_cb (k_state (kerase h w)) = cl_has_connect_cb (k_state w)"
  "cl_streams (k_state (kerase h w)) = AList.delete h (cl_streams (k_state w))"
  "k_infra (kerase h w) = k_infra w" "k_mgr (kerase h w) = k_mgr w" "k_sessions (kerase h w) = k_sessions w"
  "k_log (kerase h w) = k_log w" "k_proc (kerase h w) = k_proc w"
  "FindStreamByHandle h' (kerase h w) = (if h' = h then None else FindStreamByHandle h' w)"
  by (simp_all add: kerase_def FindStreamByHandle_def)

lemma cli_ok_same:
  "cli_ok w \<Longrightarrow> k_state w' = k_state w \<Longrightarrow> k_infra w' = k_infra w \<Longrightarrow> k_mgr w' = k_mgr w \<Longrightarrow> k_sessions w' = k_sessions w \<Longrightarrow> cli_ok w'"
  by (simp add: cli_ok_def)

lemma cli_ok_log [simp]: "cli_ok (klog es w) = cli_ok w" "cli_ok (kfail t e m og w) = cli_ok w"
  by (simp_all add: cli_ok_def)

lemma streams_ok_Nil: "rm_open_indices m = [] \<Longrightarrow> streams_ok m n []"
  by (simp add: streams_ok_def)

lemma streams_okD:
  assumes "streams_ok m n ss"
  shows "distinct (keys ss)" "map_of (rm_open_indices m) i = Some sid \<Longrightarrow> sid < n" "map_of ss h = Some sh \<Longrightarrow> cstream_ok m n sh"
    "map_of ss h = Some sh \<Longrightarrow> map_of ss h' = Some sh' \<Longrightarrow> kst_index sh = kst_index sh' \<Longrightarrow> h = h'"
    "map_of (rm_open_indices m) i = Some sid \<Longrightarrow> map_of ss h = Some sh \<Longrightarrow> holds_session sid sh \<Longrightarrow> kst_index sh = i"
  using assms unfolding streams_ok_def by blast+

lemma cstream_ok_impl:
  assumes "cstream_ok m n sh"
  obtains sid s where "kst_impl sh = Some (sid, s)" "sid < n" "map_of (rm_open_indices m) (kst_index sh) = Some sid"
    "rs_state_sink s" "\<not> rs_closed s" "rs_stream_state s = kst_state sh"
  using assms by (auto simp: cstream_ok_def split: option.splits)

text \<open>A stream object is replaced by one with the same index and session number.\<close>

lemma streams_ok_replace:
  assumes "streams_ok m n ss" "map_of ss h = Some sh" "cstream_ok m n sh'" "kst_index sh' = kst_index sh"
    "map_option fst (kst_impl sh') = map_option fst (kst_impl sh)"
  shows "streams_ok m n (AList.update h sh' ss)"
proof -
  have hs: "holds_session sid sh' = holds_session sid sh" for sid
    using assms(5) by (auto simp: holds_session_def split: option.splits)
  show ?thesis
    using assms(1-4) hs unfolding streams_ok_def
    by (auto split: if_splits) metis
qed

lemma streams_ok_delete: "streams_ok m n ss \<Longrightarrow> streams_ok m n (AList.delete h ss)"
  unfolding streams_ok_def by (auto split: if_splits)

lemma cli_ok_replace:
  assumes "cli_ok w" "FindStreamByHandle h w = Some sh" "cstream_ok (k_mgr w) (k_sessions w) sh'" "kst_index sh' = kst_index sh"
    "map_option fst (kst_impl sh') = map_option fst (kst_impl sh)"
  shows "cli_ok (kput h sh' w)"
proof -
  have "streams_ok (k_mgr w) (k_sessions w) (AList.update h sh' (cl_streams (k_state w)))"
    using assms by (intro streams_ok_replace) (auto simp: cli_ok_def FindStreamByHandle_def Let_def)
  moreover have "cl_streams (k_state w) \<noteq> []" using assms(2) by (auto simp: FindStreamByHandle_def)
  ultimately show ?thesis using assms(1) by (auto simp: cli_ok_def Let_def)
qed

lemma cli_ok_found:
  assumes "cli_ok w" and "FindStreamByHandle h w = Some sh"
  shows "cstream_ok (k_mgr w) (k_sessions w) sh" and "cl_lifecycle (k_state w) = kConnected"
proof -
  have so: "streams_ok (k_mgr w) (k_sessions w) (cl_streams (k_state w))" using assms(1) by (simp add: cli_ok_def Let_def)
  show "cstream_ok (k_mgr w) (k_sessions w) sh" using streams_okD(3) [OF so] assms(2) by (simp add: FindStreamByHandle_def)
  have "cl_streams (k_state w) \<noteq> []" using assms(2) by (auto simp: FindStreamByHandle_def)
  then show "cl_lifecycle (k_state w) = kConnected" using assms(1) by (auto simp: cli_ok_def Let_def)
qed

section \<open>Every call keeps the invariant\<close>

lemma kconfig_keeps: "cli_ok w \<Longrightarrow> cli_ok (snd (librflow_set_global_config t cfg w))"
  by (auto simp: librflow_set_global_config_def cli_ok_def Let_def)

lemma kinit_keeps: "cli_ok w \<Longrightarrow> cli_ok (snd (librflow_init t th rt sg w))"
  by (auto simp: librflow_init_def init_infrastructure_def cli_ok_def Let_def infra_cases)

lemma kconnect_result:
  assumes "cli_ok w"
  shows "cli_ok (snd (librflow_connect t info cb w))"
proof (cases "RFLOW_CHECK_HANDLE kci_magic info client_kMagicConnectInfo \<and> RFLOW_CHECK_HANDLE kcc_magic cb client_kMagicConnectCb
    \<and> cl_lifecycle (k_state w) = kInited")
  case False
  then show ?thesis
    using assms
    by (cases "cl_lifecycle (k_state w)")
      (auto simp: librflow_connect_def connect_begin_def ValidateConnectTransitionLocked_def ValidateConnectTransition_def Let_def)
next
  case True
  then have "k_infra w = infra_up" "cl_streams (k_state w) = []" using assms by (auto simp: cli_ok_def Let_def)
  then show ?thesis
    using assms True
    by (auto simp: librflow_connect_def connect_begin_def ValidateConnectTransitionLocked_def ValidateConnectTransition_def
        ApplyConnectTransitionLocked_def on_connect_succeeded_def connect_finish_def RollbackConnectFailedLocked_def
        CommitConnectedLocked_def RtcStreamManager_Init_def infra_up_def cli_ok_def streams_ok_def Let_def)
qed

lemma disconnect_views:
  assumes "cli_ok w"
  shows "k_infra (snd (librflow_disconnect now w)) = k_infra w" "k_proc (snd (librflow_disconnect now w)) = k_proc w"
    "k_sessions (snd (librflow_disconnect now w)) = k_sessions w"
    "cl_lifecycle (k_state (snd (librflow_disconnect now w))) = (if cl_lifecycle (k_state w) = kUninit then kUninit else kInited)"
    "cl_streams (k_state (snd (librflow_disconnect now w))) = []"
    "cl_has_connect_cb (k_state (snd (librflow_disconnect now w))) = False"
    "rm_inited (k_mgr (snd (librflow_disconnect now w))) = False"
    "cl_global_config (k_state (snd (librflow_disconnect now w))) = cl_global_config (k_state w)"
  using assms
  by (cases "cl_lifecycle (k_state w)";
      auto simp: librflow_disconnect_def RtcStreamManager_Shutdown_def cli_ok_def Let_def split_beta)+

lemma kdisconnect_keeps: "cli_ok w \<Longrightarrow> cli_ok (snd (librflow_disconnect now w))"
  by (cases "cl_lifecycle (k_state w)")
    (auto simp: librflow_disconnect_def RtcStreamManager_Shutdown_def cli_ok_def Let_def split_beta intro: streams_ok_Nil)

lemma kuninit_keeps: "cli_ok w \<Longrightarrow> cli_ok (snd (librflow_uninit now w))"
  using disconnect_views [of w now] kdisconnect_keeps [of w now]
  by (auto simp: librflow_uninit_def shutdown_infrastructure_def RtcStreamManager_Shutdown_def cli_ok_def Let_def
      split_beta intro: streams_ok_Nil)

lemma kclose_keeps:
  assumes "cli_ok w"
  shows "cli_ok (snd (librflow_close_stream now handle w))"
proof -
  have "cli_ok (kerase h w)" if "FindStreamByHandle h w = Some sh" for h sh
  proof -
    have "streams_ok (k_mgr w) (k_sessions w) (AList.delete h (cl_streams (k_state w)))"
      using assms by (intro streams_ok_delete) (simp add: cli_ok_def Let_def)
    then show ?thesis using assms cli_ok_found(2) [OF assms that] by (auto simp: cli_ok_def Let_def)
  qed
  then show ?thesis using assms by (auto simp: librflow_close_stream_def split: option.split)
qed

text \<open>What a session that goes on and stays open means for its stream.\<close>

lemma cstream_ok_moved:
  assumes "cstream_ok m n sh" "kst_impl sh = Some (sid, s)" "goes_on s s'" "link_of s' = link_of s"
    "session_moved now h sid s s' sh = (l, sh')"
  shows "cstream_ok m n sh'" "kst_index sh' = kst_index sh" "map_option fst (kst_impl sh') = map_option fst (kst_impl sh)"
proof -
  note v = session_moved_views [OF assms(5,3)]
  have i: "ident_of s' = ident_of s" using assms(3) by (simp add: goes_on_def)
  have "pull_session_config s' = pull_session_config s" using i by (simp add: pull_session_config_def ident_of_def)
  then show "cstream_ok m n sh'" "kst_index sh' = kst_index sh" "map_option fst (kst_impl sh') = map_option fst (kst_impl sh)"
    using assms(1,2,4) v i by (simp_all add: cstream_ok_def ident_of_def link_of_def)
qed

lemma kinput_keeps:
  assumes "cli_ok w" "input_enabled h i w"
  shows "cli_ok (session_input parses now h i w)"
proof -
  obtain sh sid s where f: "FindStreamByHandle h w = Some sh" "kst_impl sh = Some (sid, s)" and i: "i \<noteq> InClose"
    using assms(2) by (auto simp: input_enabled_def split: option.splits)
  note so = cli_ok_found [OF assms(1) f(1)]
  have sink: "rs_state_sink s" using so(1) f(2) by (simp add: cstream_ok_def)
  obtain l sh' where m: "session_moved now h sid s (pull_step parses i s) sh = (l, sh')"
    by (cases "session_moved now h sid s (pull_step parses i s) sh")
  note v = cstream_ok_moved [OF so(1) f(2) goes_on_step [OF sink] link_step [OF i] m]
  show ?thesis using cli_ok_replace [OF assms(1) f(1) v] f m by (simp add: session_input_def)
qed

lemma frame_sink_views:
  assumes "frame_sink now converted alloc collect h sh = (l, sh')"
  shows "kst_magic sh' = kst_magic sh" "kst_index sh' = kst_index sh" "kst_impl sh' = kst_impl sh" "kst_state sh' = kst_state sh"
    "kst_cb sh' = kst_cb sh"
  using assms
  by (auto simp: frame_sink_def MaybeEmitPeriodicStats_def Let_def split: if_splits option.splits)

lemma kframe_keeps:
  assumes "cli_ok w"
  shows "cli_ok (decoded_frame now converted alloc collect h w)"
proof (cases "FindStreamByHandle h w")
  case None
  then show ?thesis using assms by (simp add: decoded_frame_def)
next
  case (Some sh)
  obtain l sh' where m: "frame_sink now converted alloc collect h sh = (l, sh')" by (cases "frame_sink now converted alloc collect h sh")
  note v = frame_sink_views [OF m]
  have "cstream_ok (k_mgr w) (k_sessions w) sh'" using cli_ok_found(1) [OF assms Some] v by (auto simp: cstream_ok_def split: option.splits)
  then show ?thesis using cli_ok_replace [OF assms Some, of sh'] v Some m by (simp add: decoded_frame_def)
qed

lemma kother_keeps:
  "cli_ok (snd (librflow_send_notice t w)) = cli_ok w" "cli_ok (snd (librflow_service_reply t w)) = cli_ok w"
  "cli_ok (snd (librflow_log_set_level level w)) = cli_ok w" "cli_ok (snd (librflow_log_set_callback lcb ud w)) = cli_ok w"
  by (simp_all add: librflow_send_notice_def librflow_service_reply_def librflow_reply_to_service_req_def
      librflow_log_set_level_def librflow_log_set_callback_def) (simp_all add: cli_ok_def)

section \<open>Opening a stream\<close>

lemma lock_None: "lock_session sid ss = None \<longleftrightarrow> (\<forall>(h, sh) \<in> set ss. \<not> holds_session sid sh)"
  by (auto simp: lock_session_def find_None_iff)

lemma new_holds [simp]: "\<not> holds_session sid (new_client_stream index cb)"
  by (simp add: holds_session_def new_client_stream_def)

text \<open>The reference filed under an index that no stream uses cannot be locked.\<close>

lemma reference_dead:
  assumes "streams_ok m n ss" "map_of ss addr = None" "\<And>h sh. map_of ss h = Some sh \<Longrightarrow> kst_index sh \<noteq> index"
    "map_of (rm_open_indices m) index = Some old"
  shows "lock_session old (AList.update addr (new_client_stream index cb) ss) = None"
proof -
  have d: "distinct (keys (AList.update addr (new_client_stream index cb) ss))"
    using streams_okD(1) [OF assms(1)] by simp
  have "\<not> holds_session old sh" if "(h, sh) \<in> set (AList.update addr (new_client_stream index cb) ss)" for h sh
  proof -
    have "map_of (AList.update addr (new_client_stream index cb) ss) h = Some sh"
      by (rule map_of_is_SomeI [OF d that])
    then show ?thesis using streams_okD(5) [OF assms(1,4)] assms(3) by (auto split: if_splits)
  qed
  then show ?thesis by (auto simp: lock_None)
qed

lemma OpenStream_result:
  assumes "rm_inited m" "\<And>old. map_of (rm_open_indices m) index = Some old \<Longrightarrow> lock_session old ss = None"
    "RtcStreamManager_OpenStream env now sig_ok timing True ss sid index param m = (e, impl, m')"
  shows "e = (if sig_ok then RFLOW_OK else RFLOW_ERR_CONN_NETWORK)"
    "\<exists>s. impl = Some s \<and> rs_index s = index \<and> rs_signaling_url s = rm_signaling_url m \<and> rs_device_id s = rm_device_id m
      \<and> rs_factory s \<and> rs_state_sink s
      \<and> (if sig_ok then \<not> rs_closed s \<and> rs_signaling s = Some (pull_session_config s) \<and> rs_stream_state s = RFLOW_STREAM_OPENING
           \<and> rs_events s = [EvState RFLOW_STREAM_OPENING RFLOW_OK]
         else rs_events s = [EvState RFLOW_STREAM_OPENING RFLOW_OK, EvState RFLOW_STREAM_FAILED RFLOW_ERR_CONN_NETWORK,
                             EvState RFLOW_STREAM_CLOSED RFLOW_OK])"
    "\<exists>oi. m' = m\<lparr>rm_open_indices := oi\<rparr>
      \<and> map_of oi = (map_of (rm_open_indices m))(index := if sig_ok then Some sid else None)"
proof -
  obtain oi where oi: "RtcStreamManager_OpenStream env now sig_ok timing True ss sid index param m =
      open_session env now sig_ok timing sid index param (m\<lparr>rm_open_indices := oi\<rparr>)"
    and mo: "\<And>x. x \<noteq> index \<Longrightarrow> map_of oi x = map_of (rm_open_indices m) x"
  proof (cases "map_of (rm_open_indices m) index")
    case None
    then show thesis using that [of "rm_open_indices m"] assms(1) by (simp add: RtcStreamManager_OpenStream_def)
  next
    case (Some old)
    then show thesis using that [of "AList.delete index (rm_open_indices m)"] assms(1) assms(2) [OF Some]
      by (simp add: RtcStreamManager_OpenStream_def)
  qed
  let ?n = "SetStateSink (new_RtcStreamSession env index True (rm_signaling_url m) (rm_device_id m) (IceConfigFromClientParam param))"
  obtain ok s where st: "pull_Start now sig_ok timing ?n = (ok, s)" by (cases "pull_Start now sig_ok timing ?n")
  note fs = fresh_start [OF st]
  have r: "(e, impl, m') = (if sig_ok then (RFLOW_OK, Some s, m\<lparr>rm_open_indices := AList.update index sid oi\<rparr>)
      else (RFLOW_ERR_CONN_NETWORK, Some (pull_Close s), m\<lparr>rm_open_indices := AList.delete index (AList.update index sid oi)\<rparr>))"
    using assms(3) fs(1) by (auto simp: oi open_session_def st Let_def split: if_splits)
  have "ident_of (pull_Close s) = ident_of s" using goes_on_Close [OF fs(6)] by (simp add: goes_on_def)
  then have c: "rs_index (pull_Close s) = index" "rs_signaling_url (pull_Close s) = rm_signaling_url m"
    "rs_device_id (pull_Close s) = rm_device_id m" "rs_factory (pull_Close s)" "rs_state_sink (pull_Close s)"
    using fs(2-6) by (simp_all add: ident_of_def)
  show "e = (if sig_ok then RFLOW_OK else RFLOW_ERR_CONN_NETWORK)" using r by (simp split: if_splits)
  show "\<exists>s. impl = Some s \<and> rs_index s = index \<and> rs_signaling_url s = rm_signaling_url m \<and> rs_device_id s = rm_device_id m
      \<and> rs_factory s \<and> rs_state_sink s
      \<and> (if sig_ok then \<not> rs_closed s \<and> rs_signaling s = Some (pull_session_config s) \<and> rs_stream_state s = RFLOW_STREAM_OPENING
           \<and> rs_events s = [EvState RFLOW_STREAM_OPENING RFLOW_OK]
         else rs_events s = [EvState RFLOW_STREAM_OPENING RFLOW_OK, EvState RFLOW_STREAM_FAILED RFLOW_ERR_CONN_NETWORK,
                             EvState RFLOW_STREAM_CLOSED RFLOW_OK])"
    using r fs c by (auto split: if_splits)
  have "map_of (AList.update index sid oi) = (map_of (rm_open_indices m))(index := Some sid)"
    "map_of (AList.delete index (AList.update index sid oi)) = (map_of (rm_open_indices m))(index := None)"
    using mo by (auto simp: fun_eq_iff)
  then show "\<exists>oi. m' = m\<lparr>rm_open_indices := oi\<rparr>
      \<and> map_of oi = (map_of (rm_open_indices m))(index := if sig_ok then Some sid else None)"
    using r by (cases sig_ok) auto
qed

text \<open>The outcome of a call that reaches the manager.\<close>

lemma open_result:
  assumes "cli_ok w" "cl_lifecycle (k_state w) = kConnected" "FindStreamByHandle addr w = None"
    "param = None \<or> RFLOW_CHECK_HANDLE kp_magic param client_kMagicStreamParam" "kscb_magic cb = client_kMagicStreamCb"
    "\<forall>h sh. FindStreamByHandle h w = Some sh \<longrightarrow> kst_index sh \<noteq> index"
    "librflow_open_stream env t now sig_ok timing addr index param (Some cb) (Some o0) w = (rc, out, w')"
  shows "rc = (if sig_ok then RFLOW_OK else RFLOW_ERR_CONN_NETWORK)" "out = Some (if sig_ok then Some addr else None)"
    "k_infra w' = k_infra w" "k_sessions w' = Suc (k_sessions w)"
    "\<exists>oi. k_mgr w' = (k_mgr w)\<lparr>rm_open_indices := oi\<rparr>
      \<and> map_of oi = (map_of (rm_open_indices (k_mgr w)))(index := if sig_ok then Some (k_sessions w) else None)"
    "\<exists>ss. k_state w' = (k_state w)\<lparr>cl_streams := ss\<rparr> \<and> distinct (keys ss)"
    "sig_ok \<Longrightarrow> \<exists>sh s. kst_impl sh = Some (k_sessions w, s) \<and> kst_index sh = index \<and> kst_cb sh = cb \<and> kst_magic sh = client_kMagicStream
       \<and> kst_state sh = RFLOW_STREAM_OPENING
       \<and> rs_index s = index \<and> rs_signaling_url s = rm_signaling_url (k_mgr w) \<and> rs_device_id s = rm_device_id (k_mgr w)
       \<and> rs_factory s \<and> rs_state_sink s
       \<and> \<not> rs_closed s \<and> rs_signaling s = Some (pull_session_config s) \<and> rs_stream_state s = RFLOW_STREAM_OPENING
       \<and> (\<forall>h. FindStreamByHandle h w' = (if h = addr then Some sh else FindStreamByHandle h w))"
    "\<not> sig_ok \<Longrightarrow> FindStreamByHandle h w' = FindStreamByHandle h w"
    "k_log w' = k_log w @ concat (map (\<lambda>(st, r). call_opt (kscb_on_state cb) (\<lambda>f. KStreamState f addr st r (kscb_userdata cb)))
       (if sig_ok then [(RFLOW_STREAM_OPENING, RFLOW_OK)]
        else [(RFLOW_STREAM_OPENING, RFLOW_OK), (RFLOW_STREAM_FAILED, RFLOW_ERR_CONN_NETWORK), (RFLOW_STREAM_CLOSED, RFLOW_OK)]))"
proof -
  let ?sh = "new_client_stream index cb" and ?ss = "cl_streams (k_state w)"
  let ?w1 = "kput addr ?sh w"
  have so: "streams_ok (k_mgr w) (k_sessions w) ?ss" and up: "rm_inited (k_mgr w)" "in_rtc (k_infra w)"
    using assms(1,2) by (auto simp: cli_ok_def Let_def infra_up_def)
  have used: "\<not> list_ex (\<lambda>(h, x). kst_index x = index) ?ss"
  proof
    assume "list_ex (\<lambda>(h, x). kst_index x = index) ?ss"
    then obtain h x where "(h, x) \<in> set ?ss" "kst_index x = index" by (auto simp: list_ex_iff)
    then show False using assms(6) map_of_is_SomeI [OF streams_okD(1) [OF so], of h x] by (simp add: FindStreamByHandle_def)
  qed
  obtain e impl m' where o: "RtcStreamManager_OpenStream env now sig_ok timing True (cl_streams (k_state ?w1)) (k_sessions w) index param
      (k_mgr w) = (e, impl, m')" by (metis prod_cases3)
  have dead: "lock_session old (cl_streams (k_state ?w1)) = None" if "map_of (rm_open_indices (k_mgr w)) index = Some old" for old
    using reference_dead [OF so _ _ that, of addr cb] assms(3,6) by (simp add: FindStreamByHandle_def)
  note res = OpenStream_result [OF up(1) dead o]
  obtain s where s: "impl = Some s" using res(2) by blast
  obtain l sh1 where d: "deliver now addr (rs_events s) ?sh = (l, sh1)" by (cases "deliver now addr (rs_events s) ?sh")
  note dv = deliver_views [OF d]
  let ?w2 = "klog l (?w1\<lparr>k_mgr := m', k_sessions := Suc (k_sessions w)\<rparr>)"
  have r: "(rc, out, w') = (if e \<noteq> RFLOW_OK then (e, Some None, kerase addr ?w2)
      else (RFLOW_OK, Some (Some addr), kput addr (sh1\<lparr>kst_impl := Some (k_sessions w, s)\<rparr>) ?w2))"
    using assms(2,4,5,7) used up(2) o s d unfolding librflow_open_stream_def Let_def by auto
  show "rc = (if sig_ok then RFLOW_OK else RFLOW_ERR_CONN_NETWORK)" "out = Some (if sig_ok then Some addr else None)"
    "k_infra w' = k_infra w" "k_sessions w' = Suc (k_sessions w)"
    using r res(1) by (auto split: if_splits)
  show "\<exists>oi. k_mgr w' = (k_mgr w)\<lparr>rm_open_indices := oi\<rparr>
      \<and> map_of oi = (map_of (rm_open_indices (k_mgr w)))(index := if sig_ok then Some (k_sessions w) else None)"
    using r res(3) by (auto split: if_splits)
  show "\<exists>ss. k_state w' = (k_state w)\<lparr>cl_streams := ss\<rparr> \<and> distinct (keys ss)"
    using r streams_okD(1) [OF so] by (auto simp: kput_def kerase_def split: if_splits)
  have find2: "FindStreamByHandle h ?w2 = (if h = addr then Some ?sh else FindStreamByHandle h w)" for h
    by (simp add: FindStreamByHandle_def)
  show "\<exists>sh s. kst_impl sh = Some (k_sessions w, s) \<and> kst_index sh = index \<and> kst_cb sh = cb \<and> kst_magic sh = client_kMagicStream
       \<and> kst_state sh = RFLOW_STREAM_OPENING
       \<and> rs_index s = index \<and> rs_signaling_url s = rm_signaling_url (k_mgr w) \<and> rs_device_id s = rm_device_id (k_mgr w)
       \<and> rs_factory s \<and> rs_state_sink s
       \<and> \<not> rs_closed s \<and> rs_signaling s = Some (pull_session_config s) \<and> rs_stream_state s = RFLOW_STREAM_OPENING
       \<and> (\<forall>h. FindStreamByHandle h w' = (if h = addr then Some sh else FindStreamByHandle h w))" if "sig_ok"
    using that r res(1,2) s dv find2
    by (intro exI [of _ "sh1\<lparr>kst_impl := Some (k_sessions w, s)\<rparr>"] exI [of _ s]) (auto simp: new_client_stream_def)
  show "FindStreamByHandle h w' = FindStreamByHandle h w" if "\<not> sig_ok"
    using that r res(1) find2 assms(3) by simp
  show "k_log w' = k_log w @ concat (map (\<lambda>(st, r). call_opt (kscb_on_state cb) (\<lambda>f. KStreamState f addr st r (kscb_userdata cb)))
       (if sig_ok then [(RFLOW_STREAM_OPENING, RFLOW_OK)]
        else [(RFLOW_STREAM_OPENING, RFLOW_OK), (RFLOW_STREAM_FAILED, RFLOW_ERR_CONN_NETWORK), (RFLOW_STREAM_CLOSED, RFLOW_OK)]))"
    using r res(1,2) s dv by (auto simp: on_state_calls_def new_client_stream_def split: if_splits)
qed

text \<open>The tables after a stream is added, and after one could not be started.\<close>

lemma streams_ok_opened:
  assumes so: "streams_ok m n ss" and u: "\<forall>h sh. map_of ss h = Some sh \<longrightarrow> kst_index sh \<noteq> index"
    and d: "distinct (keys ss')" and f: "\<forall>h. map_of ss' h = (if h = addr then Some sh else map_of ss h)"
    and oi: "map_of oi = (map_of (rm_open_indices m))(index := Some n)" and new: "cstream_ok (m\<lparr>rm_open_indices := oi\<rparr>) (Suc n) sh"
    and sh: "kst_index sh = index" "kst_impl sh = Some (n, s)"
  shows "streams_ok (m\<lparr>rm_open_indices := oi\<rparr>) (Suc n) ss'"
proof -
  have old: "cstream_ok (m\<lparr>rm_open_indices := oi\<rparr>) (Suc n) x" if "map_of ss h = Some x" for h x
    using streams_okD(3) [OF so that] u that oi by (auto simp: cstream_ok_def split: option.splits)
  have hold: "holds_session sid sh = (sid = n)" for sid using sh by (auto simp: holds_session_def)
  have small: "\<not> holds_session n x" if "map_of ss h = Some x" for h x
    using streams_okD(3) [OF so that] by (auto simp: holds_session_def cstream_ok_def split: option.splits)
  show ?thesis
    unfolding streams_ok_def
  proof (intro conjI allI impI)
    show "distinct (keys ss')" by (rule d)
    show "sid < Suc n" if "map_of (rm_open_indices (m\<lparr>rm_open_indices := oi\<rparr>)) i = Some sid" for i sid
      using that oi streams_okD(2) [OF so, of i sid] by (auto split: if_splits)
    show "cstream_ok (m\<lparr>rm_open_indices := oi\<rparr>) (Suc n) x" if "map_of ss' h = Some x" for h x
      using that f old new by (auto split: if_splits)
    show "h = h'" if "map_of ss' h = Some x \<and> map_of ss' h' = Some x' \<and> kst_index x = kst_index x'" for h h' x x'
      using that f u sh(1) streams_okD(4) [OF so, of h x h' x'] by (auto split: if_splits)
    show "kst_index x = i" if "map_of (rm_open_indices (m\<lparr>rm_open_indices := oi\<rparr>)) i = Some sid \<and> map_of ss' h = Some x
        \<and> holds_session sid x" for i sid h x
      using that f oi hold small sh(1) streams_okD(2) [OF so, of i sid] streams_okD(5) [OF so, of i sid h x]
      by (auto split: if_splits)
  qed
qed

lemma streams_ok_failed:
  assumes so: "streams_ok m n ss" and u: "\<forall>h sh. map_of ss h = Some sh \<longrightarrow> kst_index sh \<noteq> index"
    and d: "distinct (keys ss')" and f: "\<forall>h. map_of ss' h = map_of ss h"
    and oi: "map_of oi = (map_of (rm_open_indices m))(index := None)"
  shows "streams_ok (m\<lparr>rm_open_indices := oi\<rparr>) (Suc n) ss'"
proof -
  have old: "cstream_ok (m\<lparr>rm_open_indices := oi\<rparr>) (Suc n) x" if "map_of ss h = Some x" for h x
    using streams_okD(3) [OF so that] u that oi by (auto simp: cstream_ok_def split: option.splits)
  show ?thesis
    unfolding streams_ok_def
  proof (intro conjI allI impI)
    show "distinct (keys ss')" by (rule d)
    show "sid < Suc n" if "map_of (rm_open_indices (m\<lparr>rm_open_indices := oi\<rparr>)) i = Some sid" for i sid
      using that oi streams_okD(2) [OF so, of i sid] by (auto split: if_splits)
    show "cstream_ok (m\<lparr>rm_open_indices := oi\<rparr>) (Suc n) x" if "map_of ss' h = Some x" for h x
      using that f old by simp
    show "h = h'" if "map_of ss' h = Some x \<and> map_of ss' h' = Some x' \<and> kst_index x = kst_index x'" for h h' x x'
      using that f streams_okD(4) [OF so, of h x h' x'] by simp
    show "kst_index x = i" if "map_of (rm_open_indices (m\<lparr>rm_open_indices := oi\<rparr>)) i = Some sid \<and> map_of ss' h = Some x
        \<and> holds_session sid x" for i sid h x
      using that f oi streams_okD(5) [OF so, of i sid h x] by (auto split: if_splits)
  qed
qed

lemma kopen_keeps:
  assumes "cli_ok w" "FindStreamByHandle addr w = None"
  shows "cli_ok (snd (snd (librflow_open_stream env t now sig_ok timing addr index param scb out w)))"
proof (cases "out \<noteq> None \<and> (param = None \<or> RFLOW_CHECK_HANDLE kp_magic param client_kMagicStreamParam)
    \<and> RFLOW_CHECK_HANDLE kscb_magic scb client_kMagicStreamCb \<and> cl_lifecycle (k_state w) = kConnected
    \<and> \<not> list_ex (\<lambda>(h, x). kst_index x = index) (cl_streams (k_state w))")
  case False
  then show ?thesis using assms(1) unfolding librflow_open_stream_def by auto
next
  case True
  then obtain o0 cb where c: "out = Some o0" "scb = Some cb" "kscb_magic cb = client_kMagicStreamCb"
    by (auto simp: RFLOW_CHECK_HANDLE_def split: option.splits)
  have up: "cl_lifecycle (k_state w) = kConnected" using True by simp
  have used: "\<forall>h sh. FindStreamByHandle h w = Some sh \<longrightarrow> kst_index sh \<noteq> index"
    using True map_of_SomeD [of "cl_streams (k_state w)"] by (fastforce simp: FindStreamByHandle_def list_ex_iff)
  obtain rc o1 w' where r: "librflow_open_stream env t now sig_ok timing addr index param scb out w = (rc, o1, w')"
    by (metis prod_cases3)
  have p: "param = None \<or> RFLOW_CHECK_HANDLE kp_magic param client_kMagicStreamParam" using True by simp
  note res = open_result [OF assms(1) up assms(2) p c(3) used r [unfolded c(1,2)]]
  obtain oi where m: "k_mgr w' = (k_mgr w)\<lparr>rm_open_indices := oi\<rparr>"
    "map_of oi = (map_of (rm_open_indices (k_mgr w)))(index := if sig_ok then Some (k_sessions w) else None)" using res(5) by blast
  obtain ss where ss: "k_state w' = (k_state w)\<lparr>cl_streams := ss\<rparr>" "distinct (keys ss)" using res(6) by blast
  have so: "streams_ok (k_mgr w) (k_sessions w) (cl_streams (k_state w))" using assms(1) by (simp add: cli_ok_def Let_def)
  have u: "\<forall>h sh. map_of (cl_streams (k_state w)) h = Some sh \<longrightarrow> kst_index sh \<noteq> index"
    using used by (simp add: FindStreamByHandle_def)
  have fs: "map_of ss h = FindStreamByHandle h w'" "map_of (cl_streams (k_state w)) h = FindStreamByHandle h w" for h
    using ss(1) by (simp_all add: FindStreamByHandle_def)
  have "streams_ok (k_mgr w') (k_sessions w') ss"
  proof (cases sig_ok)
    case True
    obtain sh s where sh: "kst_impl sh = Some (k_sessions w, s)" "kst_index sh = index" "kst_magic sh = client_kMagicStream"
        "kst_state sh = RFLOW_STREAM_OPENING" "rs_index s = index" "rs_signaling_url s = rm_signaling_url (k_mgr w)"
        "rs_device_id s = rm_device_id (k_mgr w)" "rs_factory s" "rs_state_sink s" "\<not> rs_closed s"
        "rs_signaling s = Some (pull_session_config s)" "rs_stream_state s = RFLOW_STREAM_OPENING"
      and f: "\<forall>h. FindStreamByHandle h w' = (if h = addr then Some sh else FindStreamByHandle h w)"
      using res(7) [OF True] by blast
    have "cstream_ok ((k_mgr w)\<lparr>rm_open_indices := oi\<rparr>) (Suc (k_sessions w)) sh"
      using sh m(2) True by (simp add: cstream_ok_def)
    from streams_ok_opened [OF so u ss(2) _ _ this sh(2,1), of addr] f m True res(4) show ?thesis by (simp add: fs)
  next
    case False
    from streams_ok_failed [OF so u ss(2)] res(8) [OF False] m False res(4) show ?thesis by (simp add: fs)
  qed
  then show ?thesis using assms(1) up res(3) m(1) ss(1) r by (auto simp: cli_ok_def Let_def)
qed



lemma cli_step_ok: "cli_step w w' \<Longrightarrow> cli_ok w \<Longrightarrow> cli_ok w'"
  by (induction rule: cli_step.induct)
    (simp_all add: kconfig_keeps kinit_keeps kuninit_keeps kconnect_result kdisconnect_keeps kother_keeps kopen_keeps kclose_keeps
      kinput_keeps kframe_keeps)

lemma cli_reachable_ok: "cli_reachable w \<Longrightarrow> cli_ok w"
proof (induction rule: cli_reachable.induct)
  case cli_start
  then show ?case
    by (simp add: cli_ok_def cli_world_init_def cli_state_init_def manager_init_def streams_ok_def)
qed (rule cli_step_ok)

section \<open>The life of the SDK and of a stream\<close>


text \<open>Closing an open session reports one state.\<close>

lemma Close_calls:
  assumes "\<not> rs_closed s" "rs_state_sink s" "session_moved now h sid s (pull_Close s) sh = (l, sh')"
  shows "l = on_state_calls h RFLOW_STREAM_CLOSED RFLOW_OK sh" "rs_closed (pull_Close s)"
proof -
  let ?es = "(if rs_signaling s = None then [] else [EvSignalStop])
      @ (case rs_peer_connection s of None \<Rightarrow> [] | Some n \<Rightarrow> [EvPcClose n]) @ [EvState RFLOW_STREAM_CLOSED RFLOW_OK]"
  have "rs_events (pull_Close s) = rs_events s @ ?es"
    using assms(1,2) by (auto simp: pull_Close_def Let_def events_EmitState events_ClosePeerConnection split: option.split)
  from session_moved_views(6) [OF assms(3) goes_on_Close [OF assms(2)] this]
  show "l = on_state_calls h RFLOW_STREAM_CLOSED RFLOW_OK sh" by (auto split: option.split)
  show "rs_closed (pull_Close s)" using assms(1) by (simp add: pull_Close_def Let_def)
qed

lemma close_result:
  assumes "cli_ok w" "FindStreamByHandle h w = Some sh" "librflow_close_stream now (Some h) w = (rc, w')"
  shows "rc = RFLOW_OK" "k_log w' = k_log w @ on_state_calls h RFLOW_STREAM_CLOSED RFLOW_OK sh"
    "FindStreamByHandle x w' = (if x = h then None else FindStreamByHandle x w)"
    "cl_lifecycle (k_state w') = cl_lifecycle (k_state w)" "librflow_close_stream now' (Some h) w' = (RFLOW_OK, w')"
proof -
  obtain sid s where s: "kst_impl sh = Some (sid, s)" "rs_state_sink s" "\<not> rs_closed s"
    using cstream_ok_impl [OF cli_ok_found(1) [OF assms(1,2)]] by metis
  obtain l sh' where m: "session_moved now h sid s (pull_Close s) (sh\<lparr>kst_impl := None\<rparr>) = (l, sh')"
    by (cases "session_moved now h sid s (pull_Close s) (sh\<lparr>kst_impl := None\<rparr>)")
  have l: "l = on_state_calls h RFLOW_STREAM_CLOSED RFLOW_OK sh"
    using Close_calls(1) [OF s(3,2) m] by (simp add: on_state_calls_def)
  then have "(rc, w') = (RFLOW_OK, klog l (kerase h w))"
    using assms(2,3) s(1) m by (simp add: librflow_close_stream_def)
  then show "rc = RFLOW_OK" "k_log w' = k_log w @ on_state_calls h RFLOW_STREAM_CLOSED RFLOW_OK sh"
    "FindStreamByHandle x w' = (if x = h then None else FindStreamByHandle x w)"
    "cl_lifecycle (k_state w') = cl_lifecycle (k_state w)" "librflow_close_stream now' (Some h) w' = (RFLOW_OK, w')"
    using l by (simp_all add: librflow_close_stream_def)
qed

text \<open>An index in use is refused.\<close>

lemma open_twice:
  assumes "cl_lifecycle (k_state w) = kConnected" "FindStreamByHandle h w = Some sh" "kst_index sh = index"
    "param = None \<or> RFLOW_CHECK_HANDLE kp_magic param client_kMagicStreamParam" "kscb_magic cb = client_kMagicStreamCb"
  shows "librflow_open_stream env t now sig_ok timing addr index param (Some cb) (Some o0) w =
    (RFLOW_ERR_STREAM_ALREADY_OPEN, Some None, kfail t RFLOW_ERR_STREAM_ALREADY_OPEN ''stream index already open'' ''client/stream'' w)"
proof -
  have "list_ex (\<lambda>(h, x). kst_index x = index) (cl_streams (k_state w))"
    using assms(2,3) map_of_SomeD [of "cl_streams (k_state w)" h sh] by (fastforce simp: FindStreamByHandle_def list_ex_iff)
  then show ?thesis using assms(1,4,5) unfolding librflow_open_stream_def by auto
qed

text \<open>
  The life of a pulled stream. In a reachable connected state, opening an index that no stream
  uses, at a free address, with valid arguments and a reachable signaling server, succeeds and
  returns the handle. Opening the same index again is refused and changes no stream. Closing
  the handle ends the stream: the callback has heard that it is opening and that it is closed
  and nothing else, the other streams are untouched, closing it again does nothing, and the
  index can be opened anew although the manager still has its old reference.
\<close>

theorem client_stream_life:
  assumes "cli_reachable w" and "cl_lifecycle (k_state w) = kConnected"
    and "FindStreamByHandle a w = None" and "FindStreamByHandle b w = None" and "a \<noteq> b"
    and "param = None \<or> RFLOW_CHECK_HANDLE kp_magic param client_kMagicStreamParam"
    and "kscb_magic cb = client_kMagicStreamCb" and "kscb_on_state cb = Some f"
    and "\<forall>h sh. FindStreamByHandle h w = Some sh \<longrightarrow> kst_index sh \<noteq> index"
    and "librflow_open_stream env t now True timing a index param (Some cb) (Some None) w = (rc1, out1, w1)"
    and "librflow_open_stream env t now True timing b index param (Some cb) (Some None) w1 = (rc2, out2, w2)"
    and "librflow_close_stream now (Some a) w2 = (rc3, w3)"
    and "librflow_open_stream env t now True timing b index param (Some cb) (Some None) w3 = (rc4, out4, w4)"
  shows "rc1 = RFLOW_OK \<and> out1 = Some (Some a) \<and> rc2 = RFLOW_ERR_STREAM_ALREADY_OPEN \<and> out2 = Some None
    \<and> rc3 = RFLOW_OK \<and> rc4 = RFLOW_OK \<and> out4 = Some (Some b)
    \<and> k_log w3 = k_log w @ [KStreamState f a RFLOW_STREAM_OPENING RFLOW_OK (kscb_userdata cb),
                            KStreamState f a RFLOW_STREAM_CLOSED RFLOW_OK (kscb_userdata cb)]
    \<and> (\<forall>h. FindStreamByHandle h w2 = FindStreamByHandle h w1 \<and> FindStreamByHandle h w3 = FindStreamByHandle h w)
    \<and> librflow_close_stream now' (Some a) w3 = (RFLOW_OK, w3)"
proof -
  note ok = cli_reachable_ok [OF assms(1)]
  note r1 = open_result [OF ok assms(2,3,6,7,9,10)]
  obtain sh where sh: "kst_index sh = index" "kst_cb sh = cb" "FindStreamByHandle a w1 = Some sh"
    and f1: "\<forall>h. FindStreamByHandle h w1 = (if h = a then Some sh else FindStreamByHandle h w)"
    using r1(7) by auto
  have up1: "cl_lifecycle (k_state w1) = kConnected" using r1(6) assms(2) by auto
  have ok1: "cli_ok w1" using kopen_keeps [OF ok assms(3), of env t now True timing index param "Some cb" "Some None"] assms(10) by simp
  have r2: "rc2 = RFLOW_ERR_STREAM_ALREADY_OPEN" "out2 = Some None"
    "w2 = kfail t RFLOW_ERR_STREAM_ALREADY_OPEN ''stream index already open'' ''client/stream'' w1"
    using open_twice [OF up1 sh(3,1) assms(6,7), of env t now True timing b None] assms(11) by simp_all
  have ok2: "cli_ok w2" and up2: "cl_lifecycle (k_state w2) = kConnected" and f2: "FindStreamByHandle h w2 = FindStreamByHandle h w1" for h
    using ok1 up1 r2(3) by simp_all
  have sh2: "FindStreamByHandle a w2 = Some sh" using sh f2 by simp
  note r3 = close_result [OF ok2 sh2 assms(12)]
  have f3: "FindStreamByHandle h w3 = FindStreamByHandle h w" for h using r3(3) f1 f2 assms(3) by simp
  have ok3: "cli_ok w3" using kclose_keeps [OF ok2, of now "Some a"] assms(12) by simp
  have "\<forall>h sh. FindStreamByHandle h w3 = Some sh \<longrightarrow> kst_index sh \<noteq> index" using f3 assms(9) by simp
  moreover have "cl_lifecycle (k_state w3) = kConnected" "FindStreamByHandle b w3 = None" using r3(4) up2 f3 assms(4) by simp_all
  ultimately have "rc4 = RFLOW_OK" "out4 = Some (Some b)"
    using open_result(1,2) [OF ok3 _ _ assms(6,7) _ assms(13)] by simp_all
  moreover have "k_log w3 = k_log w @ [KStreamState f a RFLOW_STREAM_OPENING RFLOW_OK (kscb_userdata cb),
                            KStreamState f a RFLOW_STREAM_CLOSED RFLOW_OK (kscb_userdata cb)]"
    using r3(2) r1(9) r2(3) sh(2) assms(8) by (simp add: on_state_calls_def call_opt_def)
  ultimately show ?thesis using r1(1,2) r2(1,2) r3(1,5) f2 f3 by simp
qed

text \<open>
  A stream whose signaling server cannot be reached leaves no trace. The call reports a
  network error and a null handle, the callback hears that the stream is opening, that it has
  failed and, from the destructor of the session, that it is closed; no stream has been added
  or changed, and the same index can be opened once the server is back.
\<close>

theorem client_open_failure:
  assumes "cli_reachable w" and "cl_lifecycle (k_state w) = kConnected" and "FindStreamByHandle a w = None"
    and "param = None \<or> RFLOW_CHECK_HANDLE kp_magic param client_kMagicStreamParam"
    and "kscb_magic cb = client_kMagicStreamCb" and "kscb_on_state cb = Some f"
    and "\<forall>h sh. FindStreamByHandle h w = Some sh \<longrightarrow> kst_index sh \<noteq> index"
    and "librflow_open_stream env t now False timing a index param (Some cb) (Some o1) w = (rc1, out1, w1)"
    and "librflow_open_stream env t now True timing a index param (Some cb) (Some o2) w1 = (rc2, out2, w2)"
  shows "rc1 = RFLOW_ERR_CONN_NETWORK \<and> out1 = Some None \<and> (\<forall>h. FindStreamByHandle h w1 = FindStreamByHandle h w)
    \<and> k_log w1 = k_log w @ [KStreamState f a RFLOW_STREAM_OPENING RFLOW_OK (kscb_userdata cb),
                            KStreamState f a RFLOW_STREAM_FAILED RFLOW_ERR_CONN_NETWORK (kscb_userdata cb),
                            KStreamState f a RFLOW_STREAM_CLOSED RFLOW_OK (kscb_userdata cb)]
    \<and> rc2 = RFLOW_OK \<and> out2 = Some (Some a)"
proof -
  note ok = cli_reachable_ok [OF assms(1)]
  note r1 = open_result [OF ok assms(2,3,4,5,7,8)]
  have f1: "FindStreamByHandle h w1 = FindStreamByHandle h w" for h using r1(8) by simp
  have "cl_lifecycle (k_state w1) = kConnected" using r1(6) assms(2) by auto
  moreover have "cli_ok w1" using kopen_keeps [OF ok assms(3), of env t now False timing index param "Some cb" "Some o1"] assms(8) by simp
  ultimately have "rc2 = RFLOW_OK" "out2 = Some (Some a)"
    using open_result(1,2) [OF _ _ _ assms(4,5) _ assms(9)] f1 assms(3,7) by simp_all
  then show ?thesis using r1(1,2,9) f1 assms(6) by (simp add: call_opt_def)
qed

section \<open>Disconnecting closes every stream\<close>

text \<open>The calls still owed to a stream object, and its session number while the session is open.\<close>

definition owed :: "nat \<times> librflow_stream_s \<Rightarrow> client_event list" where
  "owed p = (case kst_impl (snd p) of None \<Rightarrow> []
     | Some (sid, s) \<Rightarrow> if rs_closed s then [] else on_state_calls (fst p) RFLOW_STREAM_CLOSED RFLOW_OK (snd p))"

definition open_id :: "nat \<times> librflow_stream_s \<Rightarrow> nat list" where
  "open_id p = (case kst_impl (snd p) of None \<Rightarrow> [] | Some (sid, s) \<Rightarrow> if rs_closed s then [] else [sid])"

definition ready :: "nat \<times> librflow_stream_s \<Rightarrow> bool" where
  "ready p = (case kst_impl (snd p) of None \<Rightarrow> False | Some (sid, s) \<Rightarrow> rs_state_sink s)"

definition held :: "nat \<times> librflow_stream_s \<Rightarrow> nat option" where
  "held p = map_option fst (kst_impl (snd p))"

definition closable :: "(nat \<times> librflow_stream_s) list \<Rightarrow> bool" where
  "closable ss \<longleftrightarrow> distinct (keys ss) \<and> list_all ready ss \<and> distinct (map held ss)"

lemma alist_update_split: "h \<notin> set (keys as) \<Longrightarrow> AList.update h v (as @ (h, u) # bs) = as @ (h, v) # bs"
  by (induction as) auto

lemma close_entry:
  assumes "kst_impl sh = Some (sid, s)" "rs_state_sink s" "session_moved now h sid s (pull_Close s) sh = (l, sh')"
  shows "owed (h, sh) = l" "owed (h, sh') = []" "open_id (h, sh') = []" "ready (h, sh')" "held (h, sh') = Some sid"
proof -
  note v = session_moved_views [OF assms(3) goes_on_Close [OF assms(2)]]
  have sink: "rs_state_sink (pull_Close s)" using goes_on_Close [OF assms(2)] by (simp add: goes_on_def)
  have closed: "rs_closed (pull_Close s)" by (simp add: pull_Close_def Let_def)
  show "owed (h, sh) = l"
  proof (cases "rs_closed s")
    case True
    then have "pull_Close s = s" by (simp add: pull_Close_def)
    then show ?thesis using assms(1,3) True by (auto simp: owed_def session_moved_def)
  next
    case False
    then show ?thesis using Close_calls(1) [OF False assms(2,3)] assms(1) by (simp add: owed_def)
  qed
  show "owed (h, sh') = []" "open_id (h, sh') = []" "ready (h, sh')" "held (h, sh') = Some sid"
    using v(4) sink closed by (simp_all add: owed_def open_id_def ready_def held_def)
qed

lemma close_session_result:
  assumes "closable ss" "close_session now sid ss = (l, ss')"
  shows "closable ss'" "mset (concat (map owed ss)) = mset l + mset (concat (map owed ss'))"
    "set (concat (map open_id ss')) = set (concat (map open_id ss)) - {sid}"
proof -
  have "closable ss' \<and> mset (concat (map owed ss)) = mset l + mset (concat (map owed ss'))
    \<and> set (concat (map open_id ss')) = set (concat (map open_id ss)) - {sid}"
  proof (cases "lock_session sid ss")
    case None
    have "sid \<notin> set (open_id p)" if "p \<in> set ss" for p
    proof -
      have "\<not> holds_session sid (snd p)" using None that by (auto simp: lock_None)
      then show ?thesis by (auto simp: holds_session_def open_id_def split: option.splits if_splits)
    qed
    then show ?thesis using None assms by (auto simp: close_session_def)
  next
    case (Some p)
    obtain h sh where p: "p = (h, sh)" by (cases p)
    have "(h, sh) \<in> set ss" and holds: "holds_session sid sh"
      using Some by (auto simp: lock_session_def p find_Some_iff in_set_conv_nth)
    then obtain as bs where ss: "ss = as @ (h, sh) # bs" by (auto dest: split_list)
    obtain s where s: "kst_impl sh = Some (sid, s)" using holds by (auto simp: holds_session_def split: option.splits)
    have sink: "rs_state_sink s" using assms(1) s by (simp add: closable_def ss ready_def)
    obtain l1 sh' where m: "session_moved now h sid s (pull_Close s) sh = (l1, sh')"
      by (cases "session_moved now h sid s (pull_Close s) sh")
    note e = close_entry [OF s sink m]
    have "h \<notin> set (keys as)" using assms(1) by (auto simp: closable_def ss)
    then have r: "l = l1" "ss' = as @ (h, sh') # bs"
      using assms(2) Some s m by (auto simp: close_session_def p ss alist_update_split)
    have other: "sid \<notin> set (open_id q)" if "q \<in> set as \<union> set bs" for q
    proof
      assume "sid \<in> set (open_id q)"
      then have "held q = Some sid" by (cases "kst_impl (snd q)") (auto simp: open_id_def held_def split: if_splits)
      then have "Some sid \<in> set (map held as) \<union> set (map held bs)"
        using that by (force simp: image_iff)
      then show False using assms(1) s by (auto simp: closable_def ss held_def [of "(h, sh)"])
    qed
    have here: "set (open_id (h, sh)) \<subseteq> {sid}" using s by (simp add: open_id_def)
    have "closable ss'" using assms(1) e(4,5) s by (simp add: closable_def ss r(2) held_def [of "(h, sh)"])
    moreover have "mset (concat (map owed ss)) = mset l + mset (concat (map owed ss'))" using e(1,2) by (simp add: ss r)
    moreover have "set (concat (map open_id ss')) = set (concat (map open_id ss)) - {sid}"
      using other here e(3) by (auto simp: ss r(2))
    ultimately show ?thesis by blast
  qed
  then show "closable ss'" "mset (concat (map owed ss)) = mset l + mset (concat (map owed ss'))"
    "set (concat (map open_id ss')) = set (concat (map open_id ss)) - {sid}" by simp_all
qed

lemma close_sessions_result:
  assumes "closable ss" "close_sessions now sids ss = (l, ss')"
  shows "closable ss' \<and> mset (concat (map owed ss)) = mset l + mset (concat (map owed ss'))
    \<and> set (concat (map open_id ss')) = set (concat (map open_id ss)) - set sids"
  using assms
proof (induction sids arbitrary: ss l)
  case (Cons sid sids)
  obtain l1 s1 where c1: "close_session now sid ss = (l1, s1)" by (cases "close_session now sid ss")
  obtain l2 s2 where c2: "close_sessions now sids s1 = (l2, s2)" by (cases "close_sessions now sids s1")
  note r1 = close_session_result [OF Cons.prems(1) c1]
  have "l = l1 @ l2" "s2 = ss'" using Cons.prems(2) by (auto simp: c1 c2)
  with Cons.IH [OF r1(1)] c2 r1(2,3) show ?case by auto
qed simp

lemma owed_open: "open_id p = [] \<Longrightarrow> owed p = []"
  by (auto simp: open_id_def owed_def split: option.splits if_splits)

lemma closable_streams:
  assumes "streams_ok m n ss"
  shows "closable ss" "set (concat (map open_id ss)) \<subseteq> set (map snd (rm_open_indices m))"
    "map owed ss = map (\<lambda>(h, sh). on_state_calls h RFLOW_STREAM_CLOSED RFLOW_OK sh) ss"
proof -
  note d = streams_okD(1) [OF assms]
  have c: "cstream_ok m n sh" if "(h, sh) \<in> set ss" for h sh
    using streams_okD(3) [OF assms map_of_is_SomeI [OF d that]] .
  have "inj_on held (set ss)"
  proof (rule inj_onI)
    fix p q assume pq: "p \<in> set ss" "q \<in> set ss" "held p = held q"
    obtain h sh h' sh' where e: "p = (h, sh)" "q = (h', sh')" by (cases p, cases q)
    obtain sid s where s: "kst_impl sh = Some (sid, s)" "map_of (rm_open_indices m) (kst_index sh) = Some sid"
      using cstream_ok_impl [OF c] pq(1) e(1) by metis
    have "holds_session sid sh'" using pq(3) s(1) e by (cases "kst_impl sh'") (auto simp: holds_session_def held_def)
    then have i: "kst_index sh' = kst_index sh"
      using streams_okD(5) [OF assms s(2)] map_of_is_SomeI [OF d, of h' sh'] pq(2) e(2) by simp
    then have "h = h'" using streams_okD(4) [OF assms] map_of_is_SomeI [OF d] pq(1,2) e by metis
    then show "p = q" using map_of_is_SomeI [OF d] pq(1,2) e by (metis option.inject)
  qed
  moreover have "distinct ss" using d by (simp add: distinct_map)
  ultimately have "distinct (map held ss)" by (simp add: distinct_map)
  moreover have "list_all ready ss" using c by (fastforce simp: list_all_iff ready_def cstream_ok_def split: option.splits)
  ultimately show "closable ss" using d by (simp add: closable_def)
  show "set (concat (map open_id ss)) \<subseteq> set (map snd (rm_open_indices m))"
  proof
    fix sid assume "sid \<in> set (concat (map open_id ss))"
    then obtain h sh where p: "(h, sh) \<in> set ss" "sid \<in> set (open_id (h, sh))" by auto
    then have "map_of (rm_open_indices m) (kst_index sh) = Some sid"
      using c [OF p(1)] by (auto simp: open_id_def cstream_ok_def split: option.splits if_splits)
    then show "sid \<in> set (map snd (rm_open_indices m))" by (force dest: map_of_SomeD)
  qed
  show "map owed ss = map (\<lambda>(h, sh). on_state_calls h RFLOW_STREAM_CLOSED RFLOW_OK sh) ss"
    using c by (fastforce simp: owed_def cstream_ok_def split: option.splits)
qed


section \<open>Frames and statistics\<close>

text \<open>
  The frames of a stream: time, whether the frame could be converted, and whether memory for the
  statistics was found. The run gives the callbacks of each frame.
\<close>

fun frame_run ::
  "(librflow_stream_stats_s \<Rightarrow> bool \<times> librflow_stream_stats_s) \<Rightarrow> nat \<Rightarrow> (int \<times> bool \<times> bool) list \<Rightarrow> librflow_stream_s
     \<Rightarrow> (int \<times> client_event list) list \<times> librflow_stream_s" where
  "frame_run collect h [] sh = ([], sh)"
| "frame_run collect h ((now, converted, alloc) # fs) sh =
     (let (l, sh1) = frame_sink now converted alloc collect h sh; (ls, sh2) = frame_run collect h fs sh1
      in ((now, l) # ls, sh2))"

definition is_stats :: "client_event \<Rightarrow> bool" where
  "is_stats e = (case e of KStats f ms ud \<Rightarrow> True | _ \<Rightarrow> False)"

definition stats_times :: "(int \<times> client_event list) list \<Rightarrow> int list" where
  "stats_times ls = map fst (filter (\<lambda>(now, l). list_ex is_stats l) ls)"

definition video_seqs :: "(int \<times> client_event list) list \<Rightarrow> u32 list" where
  "video_seqs ls = concat (map (\<lambda>e. case e of KVideo f h i seq ud \<Rightarrow> [seq] | _ \<Rightarrow> []) (concat (map snd ls)))"

lemma stats_times_simps [simp]:
  "stats_times [] = []" "stats_times ((now, l) # ls) = (if list_ex is_stats l then now # stats_times ls else stats_times ls)"
  by (simp_all add: stats_times_def)

lemma frame_sink_stats:
  assumes "frame_sink now converted alloc collect h sh = (l, sh')"
  shows "if list_ex is_stats l
     then kst_last_stats_emit_at sh' = Some now \<and> (\<forall>prev. kst_last_stats_emit_at sh = Some prev \<longrightarrow> prev + 1000 \<le> now)
     else kst_last_stats_emit_at sh' = kst_last_stats_emit_at sh"
    and "length (filter is_stats l) \<le> 1"
  using assms
  by (auto simp: frame_sink_def MaybeEmitPeriodicStats_def is_stats_def call_opt_def Let_def split: if_splits option.splits)

lemma stats_gaps:
  assumes "frame_run collect h fs sh = (ls, sh')"
  shows "successively (\<lambda>a b. a + 1000 \<le> b) (stats_times ls)
    \<and> (\<forall>prev. kst_last_stats_emit_at sh = Some prev \<longrightarrow> stats_times ls = [] \<or> prev + 1000 \<le> hd (stats_times ls))
    \<and> list_all (\<lambda>(now, l). length (filter is_stats l) \<le> 1) ls"
  using assms
proof (induction fs arbitrary: sh ls)
  case (Cons f fs)
  obtain now converted alloc where f: "f = (now, converted, alloc)" by (cases f)
  obtain l sh1 where s1: "frame_sink now converted alloc collect h sh = (l, sh1)" by (cases "frame_sink now converted alloc collect h sh")
  obtain ls1 sh2 where s2: "frame_run collect h fs sh1 = (ls1, sh2)" by (cases "frame_run collect h fs sh1")
  have ls: "ls = (now, l) # ls1" "sh2 = sh'" using Cons.prems by (auto simp: f s1 s2)
  note st = frame_sink_stats [OF s1]
  have ih: "successively (\<lambda>a b. a + 1000 \<le> b) (stats_times ls1)"
    "\<forall>prev. kst_last_stats_emit_at sh1 = Some prev \<longrightarrow> stats_times ls1 = [] \<or> prev + 1000 \<le> hd (stats_times ls1)"
    "list_all (\<lambda>(now, l). length (filter is_stats l) \<le> 1) ls1"
    using Cons.IH s2 ls(2) by blast+
  show ?case using st ih by (auto simp: ls successively_Cons split: if_splits)
qed simp

lemma frame_sink_video:
  assumes "frame_sink now converted alloc collect h sh = (l, sh')"
  shows "kst_seq_counter sh' = kst_seq_counter sh + 1"
    "concat (map (\<lambda>e. case e of KVideo f h i seq ud \<Rightarrow> [seq] | _ \<Rightarrow> []) l) =
       (if converted \<and> kscb_on_video (kst_cb sh) \<noteq> None then [kst_seq_counter sh] else [])"
  using assms
  by (auto simp: frame_sink_def MaybeEmitPeriodicStats_def call_opt_def Let_def split: if_splits option.splits)

lemma video_numbers:
  assumes "frame_run collect h fs sh = (ls, sh')" "kscb_on_video (kst_cb sh) = Some f"
  shows "video_seqs ls = map (\<lambda>i. kst_seq_counter sh + of_nat i) (filter (\<lambda>i. fst (snd (fs ! i))) [0..<length fs])"
  using assms
proof (induction fs arbitrary: sh ls)
  case (Cons x fs)
  obtain now converted alloc where x: "x = (now, converted, alloc)" by (cases x)
  obtain l sh1 where s1: "frame_sink now converted alloc collect h sh = (l, sh1)" by (cases "frame_sink now converted alloc collect h sh")
  obtain ls1 sh2 where s2: "frame_run collect h fs sh1 = (ls1, sh2)" by (cases "frame_run collect h fs sh1")
  have ls: "ls = (now, l) # ls1" "sh2 = sh'" using Cons.prems(1) by (auto simp: x s1 s2)
  note v = frame_sink_video [OF s1]
  have ih: "video_seqs ls1 = map (\<lambda>i. kst_seq_counter sh1 + of_nat i) (filter (\<lambda>i. fst (snd (fs ! i))) [0..<length fs])"
    using Cons.IH [of sh1 ls1] s2 ls(2) frame_sink_views(5) [OF s1] Cons.prems(2) by simp
  have sp: "[0..<length (x # fs)] = 0 # map Suc [0..<length fs]" by (simp add: map_Suc_upt upt_conv_Cons del: upt_Suc)
  have "filter (\<lambda>i. fst (snd ((x # fs) ! i))) [0..<length (x # fs)] =
      (if converted then [0] else []) @ map Suc (filter (\<lambda>i. fst (snd (fs ! i))) [0..<length fs])"
    unfolding sp by (simp add: x filter_map o_def)
  then show ?case
    using ih v Cons.prems(2) by (simp add: ls(1) video_seqs_def x add.assoc add.commute)
qed (simp add: video_seqs_def)

text \<open>
  Statistics are paced and frames numbered. Over any run of decoded frames on a stream, each
  frame brings at most one report, two reports are at least a second apart, and the first is at
  least a second after the stream was opened; the frames handed to the video callback carry
  their position in the run, so a gap in the numbers is a frame that could not be converted.
\<close>

theorem client_stats_paced:
  assumes "state_sink opened h RFLOW_STREAM_OPENED RFLOW_OK sh0 = (l, sh)" and "frame_run collect h fs sh = (ls, sh')"
    and "kscb_on_video (kst_cb sh0) = Some f"
  shows "successively (\<lambda>a b. a + 1000 \<le> b) (opened # stats_times ls)
    \<and> list_all (\<lambda>(now, l). length (filter is_stats l) \<le> 1) ls
    \<and> video_seqs ls = map (\<lambda>i. kst_seq_counter sh0 + of_nat i) (filter (\<lambda>i. fst (snd (fs ! i))) [0..<length fs])"
proof -
  have "kst_last_stats_emit_at sh = Some opened" using assms(1) by (auto simp: state_sink_def ResetOpenedStats_def Let_def)
  then show ?thesis
    using stats_gaps [OF assms(2)] video_numbers [OF assms(2), of f] state_sink_views [OF assms(1)] assms(3)
    by (auto simp: successively_Cons)
qed

section \<open>A disconnect inside a connect\<close>

text \<open>
  \<^verbatim>\<open>librflow_connect\<close> releases the lock while it starts the manager, and commits without looking
  at the state again. When another thread disconnects in between, the client ends up connected
  with a manager that is shut down: every later open fails with a state error.
\<close>

lemma connect_race:
  assumes "connect_begin t info cb w = (RFLOW_OK, w1)" "on_connect_succeeded t url dev w1 = (RFLOW_OK, w2)" "librflow_disconnect now w2 = (rc, w3)"
    "connect_finish RFLOW_OK ccb w3 = (rc', w4)"
  shows "rc' = RFLOW_OK \<and> cl_lifecycle (k_state w4) = kConnected \<and> \<not> rm_inited (k_mgr w4) \<and> \<not> cl_has_connect_cb (k_state w4)"
proof -
  have "cl_lifecycle (k_state w1) = kConnecting"
    using assms(1) by (auto simp: connect_begin_def ApplyConnectTransitionLocked_def Let_def split: if_splits)
  then have "cl_lifecycle (k_state w2) = kConnecting"
    using assms(2) by (auto simp: on_connect_succeeded_def RtcStreamManager_Init_def Let_def split: if_splits prod.splits)
  then show ?thesis
    using assms(3,4) by (auto simp: librflow_disconnect_def connect_finish_def CommitConnectedLocked_def
        RtcStreamManager_Shutdown_def Let_def split: if_splits)
qed

section \<open>A client at work\<close>

definition demo_kconfig :: librflow_global_config_s where
  "demo_kconfig = global_config_zero\<lparr>gc_magic := kMagicGlobalConfig, gc_has_signal := True,
     gc_signal := signal_config_zero\<lparr>sg_url := ''h:1''\<rparr>\<rparr>"

definition demo_kinfo :: librflow_connect_info_s where
  "demo_kinfo = connect_info_zero\<lparr>kci_magic := client_kMagicConnectInfo, kci_device_id := ''robot7''\<rparr>"

definition demo_kcb :: librflow_connect_cb_s where
  "demo_kcb = connect_cb_zero\<lparr>kcc_magic := client_kMagicConnectCb, kcc_on_state := Some 5\<rparr>"

definition demo_kstream_cb :: librflow_stream_cb_s where
  "demo_kstream_cb = stream_cb_zero\<lparr>kscb_magic := client_kMagicStreamCb, kscb_on_state := Some 8, kscb_on_video := Some 6,
     kscb_on_stream_stats := Some 7, kscb_userdata := 9\<rparr>"

definition demo_kconnected :: Cli where
  "demo_kconnected = snd (librflow_connect 0 (Some demo_kinfo) (Some demo_kcb)
     (snd (librflow_init 0 True True True (snd (librflow_set_global_config 0 (Some demo_kconfig) cli_world_init)))))"

definition demo_kopen :: Cli where
  "demo_kopen = snd (snd (librflow_open_stream Map.empty 0 0 True False 1 3 None (Some demo_kstream_cb) (Some None) demo_kconnected))"

lemma demo_kconnected_facts:
  "cl_lifecycle (k_state demo_kconnected) = kConnected" "cl_streams (k_state demo_kconnected) = []"
  "kci_device_id (cl_connect_info (k_state demo_kconnected)) = ''robot7''"
  "cl_connect_cb (k_state demo_kconnected) = demo_kcb"
  by code_simp+

lemma demo_kreachable: "cli_reachable demo_kconnected" "cli_reachable demo_kopen"
proof -
  show c: "cli_reachable demo_kconnected"
    unfolding demo_kconnected_def
    by (intro cli_next [OF _ cstep_connect] cli_next [OF _ cstep_init] cli_next [OF _ cstep_config] cli_start)
  have "FindStreamByHandle 1 demo_kconnected = None" by (simp add: FindStreamByHandle_def demo_kconnected_facts)
  then show "cli_reachable demo_kopen" unfolding demo_kopen_def by (intro cli_next [OF c cstep_open])
qed

lemma demo_kfree: "FindStreamByHandle h demo_kconnected = None"
  by (simp add: FindStreamByHandle_def demo_kconnected_facts)

lemma demo_kcb_facts: "kscb_magic demo_kstream_cb = client_kMagicStreamCb" "kscb_on_state demo_kstream_cb = Some 8"
  "kscb_on_video demo_kstream_cb = Some 6" "kscb_userdata demo_kstream_cb = 9"
  by (simp_all add: demo_kstream_cb_def)

lemma demo_kopen_found:
  "\<exists>sh. FindStreamByHandle 1 demo_kopen = Some sh \<and> kst_index sh = 3 \<and> kst_cb sh = demo_kstream_cb"
  "cl_lifecycle (k_state demo_kopen) = kConnected" "map fst (cl_streams (k_state demo_kopen)) = [1]"
proof -
  obtain rc out w' where r: "librflow_open_stream Map.empty 0 0 True False 1 3 None (Some demo_kstream_cb) (Some None) demo_kconnected = (rc, out, w')"
    by (metis prod_cases3)
  note o = open_result [OF cli_reachable_ok [OF demo_kreachable(1)] demo_kconnected_facts(1) demo_kfree _ demo_kcb_facts(1) _ r]
  have w': "demo_kopen = w'" unfolding demo_kopen_def r by simp
  show "\<exists>sh. FindStreamByHandle 1 demo_kopen = Some sh \<and> kst_index sh = 3 \<and> kst_cb sh = demo_kstream_cb"
    using o(7) by (auto simp: w' demo_kfree)
  show "cl_lifecycle (k_state demo_kopen) = kConnected" using o(6) by (auto simp: w' demo_kconnected_facts demo_kfree)
  show "map fst (cl_streams (k_state demo_kopen)) = [1]" by code_simp
qed


theorem client_stream_life_witness:
  "let w1 = snd (snd (librflow_open_stream Map.empty 0 0 True False 1 3 None (Some demo_kstream_cb) (Some None) demo_kconnected));
       w2 = snd (snd (librflow_open_stream Map.empty 0 0 True False 2 3 None (Some demo_kstream_cb) (Some None) w1));
       w3 = snd (librflow_close_stream 0 (Some 1) w2)
   in k_log w3 = k_log demo_kconnected @ [KStreamState 8 1 RFLOW_STREAM_OPENING RFLOW_OK 9, KStreamState 8 1 RFLOW_STREAM_CLOSED RFLOW_OK 9]
    \<and> fst (librflow_open_stream Map.empty 0 0 True False 2 3 None (Some demo_kstream_cb) (Some None) w3) = RFLOW_OK"
  using client_stream_life [OF demo_kreachable(1) demo_kconnected_facts(1) demo_kfree demo_kfree, of 1 2 None demo_kstream_cb 8 3 Map.empty 0 0 False
      _ _ _ _ _ _ _ _ _ _ _ 0] demo_kcb_facts
  by (simp add: Let_def demo_kfree prod_eq_iff)

theorem client_open_failure_witness:
  "k_log (snd (snd (librflow_open_stream Map.empty 0 0 False False 1 3 None (Some demo_kstream_cb) (Some None) demo_kconnected))) =
     k_log demo_kconnected @ [KStreamState 8 1 RFLOW_STREAM_OPENING RFLOW_OK 9,
       KStreamState 8 1 RFLOW_STREAM_FAILED RFLOW_ERR_CONN_NETWORK 9, KStreamState 8 1 RFLOW_STREAM_CLOSED RFLOW_OK 9]"
proof -
  obtain rc1 out1 w1 where r1: "librflow_open_stream Map.empty 0 0 False False 1 3 None (Some demo_kstream_cb) (Some None) demo_kconnected = (rc1, out1, w1)"
    by (metis prod_cases3)
  obtain rc2 out2 w2 where r2: "librflow_open_stream Map.empty 0 0 True False 1 3 None (Some demo_kstream_cb) (Some None) w1 = (rc2, out2, w2)"
    by (metis prod_cases3)
  from client_open_failure [OF demo_kreachable(1) demo_kconnected_facts(1) demo_kfree _ demo_kcb_facts(1,2) _ r1 r2] show ?thesis
    unfolding r1 by (simp add: demo_kcb_facts demo_kfree del: One_nat_def)
qed


theorem client_stats_paced_witness:
  "let sh = snd (state_sink 100 1 RFLOW_STREAM_OPENED RFLOW_OK (new_client_stream 3 demo_kstream_cb));
       ls = fst (frame_run (Pair False) 1 [(500, True, True), (1200, True, True), (1900, False, True), (2300, True, True)] sh)
   in stats_times ls = [1200, 2300] \<and> video_seqs ls = [0, 1, 3] \<and> successively (\<lambda>a b. a + 1000 \<le> b) (100 # stats_times ls)"
proof -
  let ?sh0 = "new_client_stream 3 demo_kstream_cb" and ?fs = "[(500, True, True), (1200, True, True), (1900, False, True), (2300, True, True)]"
  obtain l sh where s: "state_sink 100 1 RFLOW_STREAM_OPENED RFLOW_OK ?sh0 = (l, sh)"
    by (cases "state_sink 100 1 RFLOW_STREAM_OPENED RFLOW_OK ?sh0")
  obtain ls sh' where f: "frame_run (Pair False) 1 ?fs sh = (ls, sh')" by (cases "frame_run (Pair False) 1 ?fs sh")
  have "kscb_on_video (kst_cb ?sh0) = Some 6" by (simp add: new_client_stream_def demo_kcb_facts)
  from client_stats_paced [OF s f this]
  have "successively (\<lambda>a b. a + 1000 \<le> b) (100 # stats_times ls)" by simp
  moreover have "stats_times (fst (frame_run (Pair False) 1 ?fs (snd (state_sink 100 1 RFLOW_STREAM_OPENED RFLOW_OK ?sh0)))) = [1200, 2300]"
    "video_seqs (fst (frame_run (Pair False) 1 ?fs (snd (state_sink 100 1 RFLOW_STREAM_OPENED RFLOW_OK ?sh0)))) = [0, 1, 3]"
    by code_simp+
  ultimately show ?thesis by (simp add: s f Let_def)
qed

end
