(* ===== verification/Codec_Backends.thy ===== *)
theory Codec_Backends
  imports Service_Publisher "HOL-Library.Multiset"
begin

text \<open>
  Codec negotiation and codec backends: the ordered codec list a peer hands to its transceiver
  (\<^verbatim>\<open>src/core/rtc/video_codec_preferences.cpp\<close>), the H.264 profile filter of the publisher
  (\<^verbatim>\<open>push_h264_profile.cpp\<close>), the registry of encoder and decoder backends
  (\<^verbatim>\<open>src/core/rtc/hw/backend_registry.cpp\<close>) and the process-wide peer connection factory
  (\<^verbatim>\<open>peer_connection_factory_deps.cpp\<close>, \<^verbatim>\<open>peer_connection_factory.cpp\<close>).

  WebRTC itself is a parameter: its classification of codecs is the record \<open>codec_lib\<close>, and the
  factories and threads it creates are arguments of the operations that ask for them.
\<close>

section \<open>Codec capabilities\<close>

datatype media_type = AUDIO | VIDEO | DATA_MEDIA

record RtpCodecCapability =
  rc_name :: string
  rc_kind :: media_type
  rc_preferred_payload_type :: "int option"
  rc_parameters :: "(string \<times> string) list"

datatype H264Profile =
    kProfileConstrainedBaseline | kProfileBaseline | kProfileMain
  | kProfileConstrainedHigh | kProfileHigh | kProfilePredictiveHigh444

text \<open>
  What WebRTC says of a codec: its MIME type, whether it carries media, and the H.264 profile its
  format parameters name.
\<close>

record codec_lib =
  lib_mime_type :: "RtpCodecCapability \<Rightarrow> string"
  lib_IsMediaCodec :: "RtpCodecCapability \<Rightarrow> bool"
  lib_ParseSdpForH264ProfileLevelId :: "(string \<times> string) list \<Rightarrow> H264Profile option"

section \<open>The H.264 profile filter\<close>

definition MimeLower :: "codec_lib \<Rightarrow> RtpCodecCapability \<Rightarrow> string" where
  "MimeLower lib c = LowerCopy (lib_mime_type lib c)"

definition NormalizeProfileLevelIdString :: "string \<Rightarrow> string" where
  "NormalizeProfileLevelIdString v =
     (let v1 = dropWhile (\<lambda>ch. ch = CHR '' '' \<or> ch = CHR 0x09) (LowerCopy v);
          v2 = (if length v1 \<ge> 2 \<and> v1 ! 0 = CHR ''0'' \<and> (v1 ! 1 = CHR ''x'' \<or> v1 ! 1 = CHR ''X'') then drop 2 v1 else v1)
      in if length v2 > 6 then take 6 v2 else v2)"

definition H264ProfileIdcHex2 :: "string \<Rightarrow> string" where
  "H264ProfileIdcHex2 profile =
     (let p = LowerCopy profile
      in if p = ''main'' \<or> p = ''m'' then ''4d''
         else if p = ''high'' \<or> p = ''h'' then ''64''
         else if p = ''baseline'' \<or> p = ''base'' \<or> p = ''b'' then ''42''
         else ''4d'')"

definition H264CodecMatchesConfiguredProfile :: "RtpCodecCapability \<Rightarrow> string \<Rightarrow> bool" where
  "H264CodecMatchesConfiguredProfile c want_prof_idc2 =
     (if rc_name c \<noteq> ''H264'' then True
      else case map_of (rc_parameters c) ''profile-level-id'' of
             None \<Rightarrow> True
           | Some v \<Rightarrow> let cap = NormalizeProfileLevelIdString v
                       in if length cap < 2 then True else take 2 cap = want_prof_idc2)"

section \<open>Codec preferences\<close>

datatype VideoCodecPreferenceRole = kPublisher | kSubscriber

record VideoCodecPreferenceConfig =
  vp_role :: VideoCodecPreferenceRole
  vp_video_codec :: string
  vp_media_filter :: "(RtpCodecCapability \<Rightarrow> bool) option"
  vp_prefer_baseline_h264_first :: bool
  vp_include_all_h264_variants :: bool
  vp_include_all_rtx :: bool
  vp_include_ulpfec_red :: bool

definition default_preference_config :: VideoCodecPreferenceConfig where
  "default_preference_config = \<lparr> vp_role = kPublisher, vp_video_codec = ''h264'', vp_media_filter = None,
     vp_prefer_baseline_h264_first = False, vp_include_all_h264_variants = True, vp_include_all_rtx = False,
     vp_include_ulpfec_red = True \<rparr>"

definition MatchesPrimaryVideoCodec :: "codec_lib \<Rightarrow> string \<Rightarrow> RtpCodecCapability \<Rightarrow> bool" where
  "MatchesPrimaryVideoCodec lib want c =
     (let m = MimeLower lib c
      in if want = ''h264'' then contains_sub ''h264'' m
         else if want = ''h265'' \<or> want = ''hevc''
           then contains_sub ''h265'' m \<or> contains_sub ''hevc'' m \<or> contains_sub ''hev1'' m
         else if want = ''vp8'' then contains_sub ''vp8'' m
         else if want = ''vp9'' then contains_sub ''vp9'' m
         else if want = ''av1'' then contains_sub ''av1'' m
         else contains_sub want m)"

definition IsBaselineH264 :: "codec_lib \<Rightarrow> RtpCodecCapability \<Rightarrow> bool" where
  "IsBaselineH264 lib codec =
     (if rc_name codec \<noteq> ''H264'' then False
      else case lib_ParseSdpForH264ProfileLevelId lib (rc_parameters codec) of
             None \<Rightarrow> False
           | Some p \<Rightarrow> p = kProfileConstrainedBaseline \<or> p = kProfileBaseline)"

definition CollectPreferredPayloadTypes :: "RtpCodecCapability list \<Rightarrow> int list" where
  "CollectPreferredPayloadTypes media = List.map_filter rc_preferred_payload_type media"

definition RtxMatchesAllowedPayloadTypes :: "RtpCodecCapability \<Rightarrow> int list \<Rightarrow> bool" where
  "RtxMatchesAllowedPayloadTypes codec allowed_pts =
     (case map_of (rc_parameters codec) ''apt'' of
        None \<Rightarrow> False
      | Some v \<Rightarrow> atoi v \<in> set allowed_pts)"

fun AppendResiliencyCodecs ::
  "RtpCodecCapability list \<Rightarrow> int list \<Rightarrow> bool \<Rightarrow> bool \<Rightarrow> RtpCodecCapability list \<Rightarrow> RtpCodecCapability list" where
  "AppendResiliencyCodecs [] allowed_pts include_all_rtx include_ulpfec_red out = out"
| "AppendResiliencyCodecs (codec # rest) allowed_pts include_all_rtx include_ulpfec_red out =
     AppendResiliencyCodecs rest allowed_pts include_all_rtx include_ulpfec_red
       (if rc_name codec = ''rtx''
        then (if include_all_rtx \<or> RtxMatchesAllowedPayloadTypes codec allowed_pts then out @ [codec] else out)
        else if \<not> include_ulpfec_red \<and> (rc_name codec = ''red'' \<or> rc_name codec = ''ulpfec'') then out
        else out @ [codec])"

definition PrimaryCodecSupportsUlpfecWithNack :: "string \<Rightarrow> bool" where
  "PrimaryCodecSupportsUlpfecWithNack want \<longleftrightarrow> want = ''vp8'' \<or> want = ''vp9''"

text \<open>The four lists the loop of \<^verbatim>\<open>BuildVideoCodecPreferences\<close> fills.\<close>

record codec_buckets =
  preferred_media :: "RtpCodecCapability list"
  other_h264_media :: "RtpCodecCapability list"
  other_media :: "RtpCodecCapability list"
  auxiliary :: "RtpCodecCapability list"

definition no_codecs :: codec_buckets where
  "no_codecs = \<lparr> preferred_media = [], other_h264_media = [], other_media = [], auxiliary = [] \<rparr>"

definition passes_media_filter :: "VideoCodecPreferenceConfig \<Rightarrow> RtpCodecCapability \<Rightarrow> bool" where
  "passes_media_filter cfg codec = (case vp_media_filter cfg of None \<Rightarrow> True | Some f \<Rightarrow> f codec)"

definition sort_codec ::
  "codec_lib \<Rightarrow> VideoCodecPreferenceConfig \<Rightarrow> string \<Rightarrow> codec_buckets \<Rightarrow> RtpCodecCapability \<Rightarrow> codec_buckets" where
  "sort_codec lib cfg want b codec =
     (if rc_kind codec \<noteq> VIDEO then b
      else if \<not> lib_IsMediaCodec lib codec then b\<lparr>auxiliary := auxiliary b @ [codec]\<rparr>
      else if \<not> MatchesPrimaryVideoCodec lib want codec then b\<lparr>other_media := other_media b @ [codec]\<rparr>
      else if want = ''h264'' \<and> vp_include_all_h264_variants cfg \<and> rc_name codec = ''H264''
        then (if passes_media_filter cfg codec
              then (if vp_role cfg = kSubscriber \<and> vp_prefer_baseline_h264_first cfg \<and> IsBaselineH264 lib codec
                    then b\<lparr>preferred_media := preferred_media b @ [codec]\<rparr>
                    else if vp_role cfg = kSubscriber \<and> vp_prefer_baseline_h264_first cfg
                    then b\<lparr>other_h264_media := other_h264_media b @ [codec]\<rparr>
                    else b\<lparr>preferred_media := preferred_media b @ [codec]\<rparr>)
              else b\<lparr>other_h264_media := other_h264_media b @ [codec]\<rparr>)
      else if \<not> passes_media_filter cfg codec then b
      else b\<lparr>preferred_media := preferred_media b @ [codec]\<rparr>)"

definition wanted_codec :: "VideoCodecPreferenceConfig \<Rightarrow> string" where
  "wanted_codec cfg = (let want = LowerCopy (vp_video_codec cfg) in if want = [] then ''h264'' else want)"

definition BuildVideoCodecPreferences ::
  "codec_lib \<Rightarrow> RtpCodecCapability list \<Rightarrow> VideoCodecPreferenceConfig \<Rightarrow> RtpCodecCapability list" where
  "BuildVideoCodecPreferences lib caps cfg =
     (let want = wanted_codec cfg;
          include_ulpfec_red = (vp_include_ulpfec_red cfg \<and> PrimaryCodecSupportsUlpfecWithNack want);
          b = foldl (sort_codec lib cfg want) no_codecs caps
      in if preferred_media b = [] \<and> other_h264_media b = [] then []
         else let media_ordered = preferred_media b @ other_h264_media b @ other_media b;
                  allowed_pts = CollectPreferredPayloadTypes media_ordered
              in AppendResiliencyCodecs (auxiliary b) allowed_pts (vp_include_all_rtx cfg) include_ulpfec_red
                   media_ordered)"

text \<open>
  A transceiver is its media type and whether its \<^verbatim>\<open>SetCodecPreferences\<close> succeeds; the second
  component of the result is the position of the transceiver that took the preferences.
\<close>

type_synonym transceiver = "(media_type \<times> bool) option"

fun set_preferences_from ::
  "nat \<Rightarrow> transceiver list \<Rightarrow> media_type \<Rightarrow> bool \<times> nat option" where
  "set_preferences_from i [] media_type = (False, None)"
| "set_preferences_from i (tr # trs) media_type =
     (case tr of
        None \<Rightarrow> set_preferences_from (Suc i) trs media_type
      | Some (mt, ok) \<Rightarrow> if mt \<noteq> media_type then set_preferences_from (Suc i) trs media_type
                         else if ok then (True, Some i) else (False, None))"

definition SetVideoCodecPreferencesOnPeerConnection ::
  "transceiver list option \<Rightarrow> media_type \<Rightarrow> RtpCodecCapability list \<Rightarrow> bool \<times> nat option" where
  "SetVideoCodecPreferencesOnPeerConnection pc media_type preferences =
     (case pc of None \<Rightarrow> (False, None)
      | Some trs \<Rightarrow> if preferences = [] then (False, None) else set_preferences_from 0 trs media_type)"

section \<open>The backend registry\<close>

datatype VideoCodecBackend = kBuiltin | kRockchipMpp | kAndroidMediaCodec

datatype ZeroCopyLevel = kNone | kInputOnly | kOutputOnly | kFull

record CodecBackendCapabilities =
  cb_backend_name :: string
  cb_encoder_codecs :: "string list"
  cb_decoder_codecs :: "string list"
  cb_pixel_formats :: "string list"
  cb_supports_dynamic_bitrate :: bool
  cb_supports_forced_idr :: bool
  cb_supports_temporal_layers :: bool
  cb_zero_copy_level :: ZeroCopyLevel

record VideoBackendPreferences =
  bp_encoder_backend :: VideoCodecBackend
  bp_decoder_backend :: VideoCodecBackend
  bp_rockchip_h264_encoder_mpp_rc_cbr :: bool

definition default_backend_preferences :: VideoBackendPreferences where
  "default_backend_preferences = \<lparr> bp_encoder_backend = kBuiltin, bp_decoder_backend = kBuiltin,
     bp_rockchip_h264_encoder_mpp_rc_cbr = False \<rparr>"

text \<open>
  A descriptor's functions are options: None is an empty \<^verbatim>\<open>std::function\<close>, Some what a call returns
  (for the factories, None again is a null pointer). \<open>'e\<close> and \<open>'d\<close> are encoder and decoder factories.
\<close>

record ('e, 'd) VideoBackendDescriptor =
  bd_backend :: VideoCodecBackend
  bd_name :: string
  bd_create_encoder_factory :: "'e option option"
  bd_create_decoder_factory :: "'d option option"
  bd_get_capabilities :: "CodecBackendCapabilities option"
  bd_encoder_disabled_at_runtime :: "bool option"
  bd_decoder_disabled_at_runtime :: "bool option"

text \<open>
  The build: which platform backends are compiled in (\<^verbatim>\<open>RFLOW_HAVE_ROCKCHIP_MPP\<close>,
  \<^verbatim>\<open>WEBRTC_ANDROID\<close>) and what the constructors of WebRTC and of the platform libraries return.
\<close>

record ('e, 'd) platform =
  pl_have_rockchip_mpp :: bool
  pl_android :: bool
  pl_builtin_encoder :: "'e option"
  pl_builtin_decoder :: "'d option"
  pl_recovering_decoder :: "'d option"
  pl_mpp_encoder :: "bool \<Rightarrow> 'e option"
  pl_mpp_decoder :: "'d option"
  pl_mpp_capabilities :: CodecBackendCapabilities
  pl_android_decoder :: "'d option"

record ('e, 'd) BackendRegistry =
  rg_once :: bool
  rg_entries :: "('e, 'd) VideoBackendDescriptor list"

definition empty_registry :: "('e, 'd) BackendRegistry" where
  "empty_registry = \<lparr> rg_once = False, rg_entries = [] \<rparr>"

fun replace_or_push ::
  "('e, 'd) VideoBackendDescriptor \<Rightarrow> ('e, 'd) VideoBackendDescriptor list \<Rightarrow> ('e, 'd) VideoBackendDescriptor list" where
  "replace_or_push desc [] = [desc]"
| "replace_or_push desc (e # es) =
     (if bd_backend e = bd_backend desc then desc # es else e # replace_or_push desc es)"

definition Register :: "('e, 'd) VideoBackendDescriptor \<Rightarrow> ('e, 'd) BackendRegistry \<Rightarrow> ('e, 'd) BackendRegistry" where
  "Register desc r = r\<lparr>rg_entries := replace_or_push desc (rg_entries r)\<rparr>"

definition Find :: "VideoCodecBackend \<Rightarrow> ('e, 'd) BackendRegistry \<Rightarrow> ('e, 'd) VideoBackendDescriptor option" where
  "Find backend r = find (\<lambda>e. bd_backend e = backend) (rg_entries r)"

definition SnapshotCapabilities :: "('e, 'd) BackendRegistry \<Rightarrow> CodecBackendCapabilities list" where
  "SnapshotCapabilities r = List.map_filter bd_get_capabilities (rg_entries r)"

definition MakeBuiltinDescriptor :: "('e, 'd) platform \<Rightarrow> ('e, 'd) VideoBackendDescriptor" where
  "MakeBuiltinDescriptor pl = \<lparr> bd_backend = kBuiltin, bd_name = ''builtin'',
     bd_create_encoder_factory = Some (pl_builtin_encoder pl), bd_create_decoder_factory = Some (pl_recovering_decoder pl),
     bd_get_capabilities = Some \<lparr> cb_backend_name = ''builtin'', cb_encoder_codecs = [''vp8'', ''vp9'', ''h264'', ''av1''],
        cb_decoder_codecs = [''vp8'', ''vp9'', ''h264'', ''av1''], cb_pixel_formats = [''I420'', ''NV12''],
        cb_supports_dynamic_bitrate = True, cb_supports_forced_idr = True, cb_supports_temporal_layers = False,
        cb_zero_copy_level = kNone \<rparr>,
     bd_encoder_disabled_at_runtime = None, bd_decoder_disabled_at_runtime = None \<rparr>"

definition MakeRockchipMppDescriptor :: "('e, 'd) platform \<Rightarrow> ('e, 'd) VideoBackendDescriptor" where
  "MakeRockchipMppDescriptor pl = \<lparr> bd_backend = kRockchipMpp, bd_name = ''rockchip_mpp'',
     bd_create_encoder_factory = Some (pl_mpp_encoder pl False), bd_create_decoder_factory = Some (pl_mpp_decoder pl),
     bd_get_capabilities = Some (pl_mpp_capabilities pl),
     bd_encoder_disabled_at_runtime = None, bd_decoder_disabled_at_runtime = None \<rparr>"

definition MakeAndroidMediaCodecDescriptor :: "('e, 'd) platform \<Rightarrow> ('e, 'd) VideoBackendDescriptor" where
  "MakeAndroidMediaCodecDescriptor pl = \<lparr> bd_backend = kAndroidMediaCodec, bd_name = ''android_mediacodec'',
     bd_create_encoder_factory = None, bd_create_decoder_factory = Some (pl_android_decoder pl),
     bd_get_capabilities = Some \<lparr> cb_backend_name = ''android_mediacodec'', cb_encoder_codecs = [],
        cb_decoder_codecs = [''h264''], cb_pixel_formats = [''NV12''],
        cb_supports_dynamic_bitrate = False, cb_supports_forced_idr = False, cb_supports_temporal_layers = False,
        cb_zero_copy_level = kNone \<rparr>,
     bd_encoder_disabled_at_runtime = None, bd_decoder_disabled_at_runtime = None \<rparr>"

definition EnsureBackendsRegistered :: "('e, 'd) platform \<Rightarrow> ('e, 'd) BackendRegistry \<Rightarrow> ('e, 'd) BackendRegistry" where
  "EnsureBackendsRegistered pl r =
     (if rg_once r then r
      else let r1 = Register (MakeBuiltinDescriptor pl) r;
               r2 = (if pl_have_rockchip_mpp pl then Register (MakeRockchipMppDescriptor pl) r1 else r1);
               r3 = (if pl_android pl then Register (MakeAndroidMediaCodecDescriptor pl) r2 else r2)
           in r3\<lparr>rg_once := True\<rparr>)"

definition runtime_off :: "bool option \<Rightarrow> bool" where
  "runtime_off f \<longleftrightarrow> f = Some True"

text \<open>The factory a descriptor yields when it is enabled, has the function and does not return null.\<close>

definition descriptor_factory :: "bool option \<Rightarrow> 'f option option \<Rightarrow> 'f option" where
  "descriptor_factory disabled create =
     (if runtime_off disabled then None else case create of None \<Rightarrow> None | Some f \<Rightarrow> f)"

text \<open>The common tail: the registered built-in descriptor, else WebRTC's own factory.\<close>

definition builtin_factory :: "'f option option option \<Rightarrow> 'f option \<Rightarrow> 'f option" where
  "builtin_factory builtin fallback =
     (case builtin of Some (Some f) \<Rightarrow> f | _ \<Rightarrow> fallback)"

definition CreatePreferredVideoEncoderFactory ::
  "('e, 'd) platform \<Rightarrow> VideoBackendPreferences \<Rightarrow> ('e, 'd) BackendRegistry \<Rightarrow> 'e option \<times> ('e, 'd) BackendRegistry" where
  "CreatePreferredVideoEncoderFactory pl prefs r0 =
     (let r = EnsureBackendsRegistered pl r0;
          b = bp_encoder_backend prefs;
          builtin = builtin_factory (map_option bd_create_encoder_factory (Find kBuiltin r)) (pl_builtin_encoder pl);
          general = (case Find b r of
              None \<Rightarrow> builtin
            | Some d \<Rightarrow> (case descriptor_factory (bd_encoder_disabled_at_runtime d) (bd_create_encoder_factory d) of
                           Some f \<Rightarrow> Some f | None \<Rightarrow> builtin))
      in (if b = kBuiltin then builtin
          else if pl_have_rockchip_mpp pl \<and> b = kRockchipMpp then
            (case Find kRockchipMpp r of
               Some d \<Rightarrow> if \<not> runtime_off (bd_encoder_disabled_at_runtime d)
                         then pl_mpp_encoder pl (bp_rockchip_h264_encoder_mpp_rc_cbr prefs) else general
             | None \<Rightarrow> general)
          else general, r))"

definition CreatePreferredVideoDecoderFactory ::
  "('e, 'd) platform \<Rightarrow> VideoBackendPreferences \<Rightarrow> ('e, 'd) BackendRegistry \<Rightarrow> 'd option \<times> ('e, 'd) BackendRegistry" where
  "CreatePreferredVideoDecoderFactory pl prefs r0 =
     (let r = EnsureBackendsRegistered pl r0;
          b = bp_decoder_backend prefs;
          builtin = builtin_factory (map_option bd_create_decoder_factory (Find kBuiltin r)) (pl_builtin_decoder pl)
      in (if b = kBuiltin then builtin
          else case Find b r of
              None \<Rightarrow> builtin
            | Some d \<Rightarrow> (case descriptor_factory (bd_decoder_disabled_at_runtime d) (bd_create_decoder_factory d) of
                           Some f \<Rightarrow> Some f | None \<Rightarrow> builtin), r))"

definition GetAvailableCodecBackendCapabilities ::
  "('e, 'd) platform \<Rightarrow> ('e, 'd) BackendRegistry \<Rightarrow> CodecBackendCapabilities list \<times> ('e, 'd) BackendRegistry" where
  "GetAvailableCodecBackendCapabilities pl r0 =
     (let r = EnsureBackendsRegistered pl r0 in (SnapshotCapabilities r, r))"

section \<open>The peer connection factory\<close>

text \<open>\<^verbatim>\<open>VideoCodecBackendPreference\<close> has the same three values as the registry's enumeration.\<close>

record PeerConnectionFactoryMediaOptions =
  mf_encoder_backend :: VideoCodecBackend
  mf_decoder_backend :: VideoCodecBackend
  mf_rockchip_h264_encoder_mpp_rc_cbr :: bool

definition default_media_options :: PeerConnectionFactoryMediaOptions where
  "default_media_options = \<lparr> mf_encoder_backend = kBuiltin, mf_decoder_backend = kBuiltin,
     mf_rockchip_h264_encoder_mpp_rc_cbr = False \<rparr>"

definition RockchipMppCompiledIn :: "('e, 'd) platform \<Rightarrow> bool" where
  "RockchipMppCompiledIn pl = pl_have_rockchip_mpp pl"

definition ResolveVideoCodecBackendPreference :: "('e, 'd) platform \<Rightarrow> bool \<Rightarrow> VideoCodecBackend" where
  "ResolveVideoCodecBackendPreference pl prefer_rockchip_mpp =
     (if prefer_rockchip_mpp \<and> RockchipMppCompiledIn pl then kRockchipMpp else kBuiltin)"

definition VideoCodecBackendPreferenceLabel :: "VideoCodecBackend \<Rightarrow> string" where
  "VideoCodecBackendPreferenceLabel b =
     (case b of kRockchipMpp \<Rightarrow> ''rockchip_mpp'' | kAndroidMediaCodec \<Rightarrow> ''android_mediacodec'' | kBuiltin \<Rightarrow> ''builtin'')"

text \<open>
  The dependencies handed to WebRTC. Only the two video factories depend on this code; the task
  queue, the audio factories and the audio processing are flags: set by the caller or defaulted.
\<close>

record ('e, 'd) PeerConnectionFactoryDependencies =
  fd_task_queue_factory :: bool
  fd_audio_encoder_factory :: bool
  fd_audio_decoder_factory :: bool
  fd_audio_processing :: bool
  fd_audio_processing_builder :: bool
  fd_video_encoder_factory :: "'e option"
  fd_video_decoder_factory :: "'d option"
  fd_media_enabled :: bool

definition no_dependencies :: "('e, 'd) PeerConnectionFactoryDependencies" where
  "no_dependencies = \<lparr> fd_task_queue_factory = False, fd_audio_encoder_factory = False, fd_audio_decoder_factory = False,
     fd_audio_processing = False, fd_audio_processing_builder = False, fd_video_encoder_factory = None,
     fd_video_decoder_factory = None, fd_media_enabled = False \<rparr>"

definition encoder_prefs :: "PeerConnectionFactoryMediaOptions option \<Rightarrow> VideoBackendPreferences" where
  "encoder_prefs media_options =
     (case media_options of None \<Rightarrow> default_backend_preferences
      | Some mo \<Rightarrow> default_backend_preferences\<lparr>
          bp_encoder_backend := (if mf_encoder_backend mo = kRockchipMpp then kRockchipMpp else kBuiltin),
          bp_rockchip_h264_encoder_mpp_rc_cbr := mf_rockchip_h264_encoder_mpp_rc_cbr mo\<rparr>)"

definition decoder_prefs :: "('e, 'd) platform \<Rightarrow> PeerConnectionFactoryMediaOptions option \<Rightarrow> VideoBackendPreferences" where
  "decoder_prefs pl media_options =
     (case media_options of None \<Rightarrow> default_backend_preferences
      | Some mo \<Rightarrow> default_backend_preferences\<lparr>bp_decoder_backend :=
          (if mf_decoder_backend mo = kAndroidMediaCodec \<and> pl_android pl then kAndroidMediaCodec
           else if mf_decoder_backend mo = kRockchipMpp then kRockchipMpp
           else kBuiltin)\<rparr>)"

definition ConfigurePeerConnectionFactoryDependencies ::
  "('e, 'd) platform \<Rightarrow> PeerConnectionFactoryMediaOptions option \<Rightarrow> ('e, 'd) PeerConnectionFactoryDependencies
     \<Rightarrow> ('e, 'd) BackendRegistry \<Rightarrow> ('e, 'd) PeerConnectionFactoryDependencies \<times> ('e, 'd) BackendRegistry" where
  "ConfigurePeerConnectionFactoryDependencies pl media_options deps r =
     (let d1 = deps\<lparr>fd_task_queue_factory := True, fd_audio_encoder_factory := True, fd_audio_decoder_factory := True,
                 fd_audio_processing_builder := fd_audio_processing_builder deps \<or> \<not> fd_audio_processing deps\<rparr>;
          (enc, r1) = (case fd_video_encoder_factory d1 of
              Some e \<Rightarrow> (Some e, r)
            | None \<Rightarrow> CreatePreferredVideoEncoderFactory pl (encoder_prefs media_options) r);
          (dec, r2) = (case fd_video_decoder_factory d1 of
              Some d \<Rightarrow> (Some d, r1)
            | None \<Rightarrow> CreatePreferredVideoDecoderFactory pl (decoder_prefs pl media_options) r1)
      in (d1\<lparr>fd_video_encoder_factory := enc, fd_video_decoder_factory := dec, fd_media_enabled := True\<rparr>, r2))"

text \<open>
  The process-wide factory. A thread is None (null), Some False (created) or Some True (started).
  What WebRTC answers to one attempt is a record: the three threads and their starts, and whether
  the modular factory is built from the dependencies.
\<close>

record ('e, 'd) FactoryState =
  fs_network :: "bool option"
  fs_worker :: "bool option"
  fs_signaling :: "bool option"
  fs_factory :: "('e, 'd) PeerConnectionFactoryDependencies option"
  fs_threads_started :: bool
  fs_registry :: "('e, 'd) BackendRegistry"

record factory_answers =
  fa_created :: "bool \<times> bool \<times> bool"
  fa_started :: "bool \<times> bool \<times> bool"
  fa_factory :: bool

definition factory_init :: "('e, 'd) FactoryState" where
  "factory_init = \<lparr> fs_network = None, fs_worker = None, fs_signaling = None, fs_factory = None,
     fs_threads_started = False, fs_registry = empty_registry \<rparr>"

definition created :: "bool \<Rightarrow> bool option" where
  "created ok = (if ok then Some False else None)"

definition StartThreads :: "factory_answers \<Rightarrow> ('e, 'd) FactoryState \<Rightarrow> bool \<times> ('e, 'd) FactoryState" where
  "StartThreads ans s =
     (if fs_threads_started s then (True, s)
      else let (n, w, g) = fa_created ans; (sn, sw, sg) = fa_started ans;
               s1 = s\<lparr>fs_network := created n, fs_worker := created w, fs_signaling := created g\<rparr>
           in if \<not> n \<or> \<not> w \<or> \<not> g then (False, s1)
              else if \<not> sn then (False, s1)
              else if \<not> sw then (False, s1\<lparr>fs_network := Some True\<rparr>)
              else if \<not> sg then (False, s1\<lparr>fs_network := Some True, fs_worker := Some True\<rparr>)
              else (True, s1\<lparr>fs_network := Some True, fs_worker := Some True, fs_signaling := Some True,
                             fs_threads_started := True\<rparr>))"

definition CreateFactoryOnSignalingThread ::
  "('e, 'd) platform \<Rightarrow> factory_answers \<Rightarrow> PeerConnectionFactoryMediaOptions \<Rightarrow> ('e, 'd) FactoryState
     \<Rightarrow> bool \<times> ('e, 'd) FactoryState" where
  "CreateFactoryOnSignalingThread pl ans media_opts s =
     (if fs_signaling s = None then (False, s)
      else let (deps, r) = ConfigurePeerConnectionFactoryDependencies pl (Some media_opts) no_dependencies (fs_registry s);
               s1 = s\<lparr>fs_registry := r\<rparr>
           in if fa_factory ans then (True, s1\<lparr>fs_factory := Some deps\<rparr>) else (False, s1\<lparr>fs_factory := None\<rparr>))"

definition StopThreads :: "('e, 'd) FactoryState \<Rightarrow> ('e, 'd) FactoryState" where
  "StopThreads s =
     (if \<not> fs_threads_started s then s
      else s\<lparr>fs_signaling := None, fs_worker := None, fs_network := None, fs_threads_started := False\<rparr>)"

definition DefaultDecoderBackendForInitialize ::
  "('e, 'd) platform \<Rightarrow> env \<Rightarrow> KnobState \<Rightarrow> VideoCodecBackend \<times> KnobState" where
  "DefaultDecoderBackendForInitialize pl env st =
     (if pl_android pl then (kAndroidMediaCodec, st)
      else if pl_have_rockchip_mpp pl then
        (let (backend, st1) = ReadString env ''RFLOW_DECODER_BACKEND'' st
         in (if backend \<noteq> [] \<and> (backend = ''builtin'' \<or> backend = ''ffmpeg'' \<or> backend = ''0'') then kBuiltin
             else kRockchipMpp, st1))
      else (kBuiltin, st))"

definition rtc_initialize ::
  "('e, 'd) platform \<Rightarrow> factory_answers \<Rightarrow> VideoCodecBackend \<Rightarrow> ('e, 'd) FactoryState \<Rightarrow> bool \<times> ('e, 'd) FactoryState" where
  "rtc_initialize pl ans decoder_backend s =
     (if fs_factory s \<noteq> None then (True, s)
      else let (started, s1) = StartThreads ans s
           in if \<not> started then (False, s1)
              else let (ok, s2) = CreateFactoryOnSignalingThread pl ans
                         (default_media_options\<lparr>mf_decoder_backend := decoder_backend\<rparr>) s1
                   in if ok then (True, s2) else (False, StopThreads s2))"

definition RecreatePeerConnectionFactory ::
  "('e, 'd) platform \<Rightarrow> factory_answers \<Rightarrow> PeerConnectionFactoryMediaOptions \<Rightarrow> ('e, 'd) FactoryState
     \<Rightarrow> bool \<times> ('e, 'd) FactoryState" where
  "RecreatePeerConnectionFactory pl ans media_options s =
     (let (started, s1) = (if fs_threads_started s then (True, s) else StartThreads ans s)
      in if \<not> started then (False, s1) else CreateFactoryOnSignalingThread pl ans media_options s1)"

definition rtc_shutdown :: "('e, 'd) FactoryState \<Rightarrow> ('e, 'd) FactoryState" where
  "rtc_shutdown s = StopThreads (s\<lparr>fs_factory := None\<rparr>)"

text \<open>The calls the rest of the library makes on the process-wide factory.\<close>

inductive factory_step :: "('e, 'd) platform \<Rightarrow> ('e, 'd) FactoryState \<Rightarrow> ('e, 'd) FactoryState \<Rightarrow> bool"
  for pl :: "('e, 'd) platform" where
  initialize: "factory_step pl s (snd (rtc_initialize pl ans backend s))"
| recreate: "factory_step pl s (snd (RecreatePeerConnectionFactory pl ans opts s))"
| application_register: "factory_step pl s (s\<lparr>fs_registry := Register desc (fs_registry s)\<rparr>)"
| shutdown: "factory_step pl s (rtc_shutdown s)"

inductive factory_reachable :: "('e, 'd) platform \<Rightarrow> ('e, 'd) FactoryState \<Rightarrow> bool"
  for pl :: "('e, 'd) platform" where
  start: "factory_reachable pl factory_init"
| step: "factory_reachable pl s \<Longrightarrow> factory_step pl s s' \<Longrightarrow> factory_reachable pl s'"

inductive_cases factory_stepE: "factory_step pl s s'"

definition factory_ok :: "('e, 'd) FactoryState \<Rightarrow> bool" where
  "factory_ok s \<longleftrightarrow>
     (fs_threads_started s \<longrightarrow> fs_network s = Some True \<and> fs_worker s = Some True \<and> fs_signaling s = Some True) \<and>
     (case fs_factory s of None \<Rightarrow> True
      | Some deps \<Rightarrow> fs_threads_started s \<and> fd_media_enabled deps \<and> fd_task_queue_factory deps) \<and>
     distinct (map bd_backend (rg_entries (fs_registry s)))"

text \<open>The decoder factory a found descriptor offers: enabled, with a constructor that does not return null.\<close>

definition usable_decoder :: "('e, 'd) VideoBackendDescriptor option \<Rightarrow> 'd option" where
  "usable_decoder found =
     (case found of None \<Rightarrow> None
      | Some d \<Rightarrow> if bd_decoder_disabled_at_runtime d = Some True then None
                  else case bd_create_decoder_factory d of Some (Some f) \<Rightarrow> Some f | _ \<Rightarrow> None)"

text \<open>A build without the Rockchip library whose factories are numbers.\<close>

definition demo_platform :: "(nat, nat) platform" where
  "demo_platform = \<lparr> pl_have_rockchip_mpp = False, pl_android = False, pl_builtin_encoder = Some 1,
     pl_builtin_decoder = Some 3, pl_recovering_decoder = Some 2, pl_mpp_encoder = (\<lambda>cbr. if cbr then Some 5 else Some 4),
     pl_mpp_decoder = None,
     pl_mpp_capabilities = \<lparr> cb_backend_name = [], cb_encoder_codecs = [], cb_decoder_codecs = [], cb_pixel_formats = [],
       cb_supports_dynamic_bitrate = False, cb_supports_forced_idr = False, cb_supports_temporal_layers = False,
       cb_zero_copy_level = kNone \<rparr>,
     pl_android_decoder = None \<rparr>"

definition demo_answers :: factory_answers where
  "demo_answers = \<lparr> fa_created = (True, True, True), fa_started = (True, True, True), fa_factory = True \<rparr>"

section \<open>The preferences as a stable sort\<close>

text \<open>
  The reference: every media codec has a rank (None: left out), the media codecs are the input
  stably sorted by rank, and the auxiliary codecs that pass \<open>keep_auxiliary\<close> follow in input order.
\<close>

definition media_rank :: "codec_lib \<Rightarrow> VideoCodecPreferenceConfig \<Rightarrow> RtpCodecCapability \<Rightarrow> nat option" where
  "media_rank lib cfg c =
     (let want = wanted_codec cfg;
          variant = (want = ''h264'' \<and> vp_include_all_h264_variants cfg \<and> rc_name c = ''H264'');
          baseline_first = (vp_role cfg = kSubscriber \<and> vp_prefer_baseline_h264_first cfg)
      in if rc_kind c \<noteq> VIDEO \<or> \<not> lib_IsMediaCodec lib c then None
         else if \<not> MatchesPrimaryVideoCodec lib want c then Some 2
         else if \<not> passes_media_filter cfg c then (if variant then Some 1 else None)
         else if variant \<and> baseline_first \<and> \<not> IsBaselineH264 lib c then Some 1
         else Some 0)"

definition is_auxiliary :: "codec_lib \<Rightarrow> RtpCodecCapability \<Rightarrow> bool" where
  "is_auxiliary lib c \<longleftrightarrow> rc_kind c = VIDEO \<and> \<not> lib_IsMediaCodec lib c"

definition keep_auxiliary :: "bool \<Rightarrow> bool \<Rightarrow> int list \<Rightarrow> RtpCodecCapability \<Rightarrow> bool" where
  "keep_auxiliary all_rtx ulpfec_red pts c =
     (if rc_name c = ''rtx'' then all_rtx \<or> RtxMatchesAllowedPayloadTypes c pts
      else ulpfec_red \<or> rc_name c \<noteq> ''red'' \<and> rc_name c \<noteq> ''ulpfec'')"

definition ranked_media :: "codec_lib \<Rightarrow> RtpCodecCapability list \<Rightarrow> VideoCodecPreferenceConfig \<Rightarrow> RtpCodecCapability list" where
  "ranked_media lib caps cfg =
     sort_key (\<lambda>c. the (media_rank lib cfg c)) (filter (\<lambda>c. media_rank lib cfg c \<noteq> None) caps)"

lemma AppendResiliencyCodecs_filter:
  "AppendResiliencyCodecs aux pts rtx red out = out @ filter (keep_auxiliary rtx red pts) aux"
  by (induction aux pts rtx red out rule: AppendResiliencyCodecs.induct) (simp_all add: keep_auxiliary_def)

lemma sort_codec_buckets:
  assumes "want = wanted_codec cfg"
  shows "sort_codec lib cfg want b c =
     \<lparr> preferred_media = preferred_media b @ (if media_rank lib cfg c = Some 0 then [c] else []),
       other_h264_media = other_h264_media b @ (if media_rank lib cfg c = Some 1 then [c] else []),
       other_media = other_media b @ (if media_rank lib cfg c = Some 2 then [c] else []),
       auxiliary = auxiliary b @ (if is_auxiliary lib c then [c] else []) \<rparr>"
  unfolding assms by (cases b) (simp add: sort_codec_def media_rank_def is_auxiliary_def Let_def)

lemma foldl_sort_codec:
  "foldl (sort_codec lib cfg (wanted_codec cfg)) b caps =
     \<lparr> preferred_media = preferred_media b @ filter (\<lambda>c. media_rank lib cfg c = Some 0) caps,
       other_h264_media = other_h264_media b @ filter (\<lambda>c. media_rank lib cfg c = Some 1) caps,
       other_media = other_media b @ filter (\<lambda>c. media_rank lib cfg c = Some 2) caps,
       auxiliary = auxiliary b @ filter (is_auxiliary lib) caps \<rparr>"
  by (induction caps arbitrary: b) (simp_all add: sort_codec_buckets)

lemma media_rank_cases: "media_rank lib cfg c \<in> {None, Some 0, Some 1, Some 2}"
  by (simp add: media_rank_def Let_def)

lemma sorted_filter_const: "sorted (map f (filter (\<lambda>x. f x = (k :: nat)) xs))"
  by (induction xs) auto

lemma three_way_sort_key:
  fixes f :: "'a \<Rightarrow> nat"
  assumes "\<forall>x \<in> set xs. f x < 3"
  shows "sort_key f xs = filter (\<lambda>x. f x = 0) xs @ filter (\<lambda>x. f x = 1) xs @ filter (\<lambda>x. f x = 2) xs"
proof (rule properties_for_sort_key)
  show "mset (filter (\<lambda>x. f x = 0) xs @ filter (\<lambda>x. f x = 1) xs @ filter (\<lambda>x. f x = 2) xs) = mset xs"
    using assms by (induction xs) (auto simp: less_Suc_eq numeral_3_eq_3)
next
  fix k assume "k \<in> set (filter (\<lambda>x. f x = 0) xs @ filter (\<lambda>x. f x = 1) xs @ filter (\<lambda>x. f x = 2) xs)"
  then have "f k = 0 \<or> f k = 1 \<or> f k = 2" by auto
  then show "filter (\<lambda>x. f k = f x) (filter (\<lambda>x. f x = 0) xs @ filter (\<lambda>x. f x = 1) xs @ filter (\<lambda>x. f x = 2) xs)
               = filter (\<lambda>x. f k = f x) xs"
    by (elim disjE) (simp_all add: conj_commute cong: conj_cong, simp_all add: eq_commute cong: filter_cong conj_cong)
next
  show "sorted (map f (filter (\<lambda>x. f x = 0) xs @ filter (\<lambda>x. f x = 1) xs @ filter (\<lambda>x. f x = 2) xs))"
    by (auto simp: sorted_append sorted_filter_const)
qed

lemma ranked_media_filters:
  "ranked_media lib caps cfg =
     filter (\<lambda>c. media_rank lib cfg c = Some 0) caps @ filter (\<lambda>c. media_rank lib cfg c = Some 1) caps
       @ filter (\<lambda>c. media_rank lib cfg c = Some 2) caps"
proof -
  have r: "\<forall>c \<in> set (filter (\<lambda>c. media_rank lib cfg c \<noteq> None) caps). the (media_rank lib cfg c) < 3"
  proof
    fix c assume "c \<in> set (filter (\<lambda>c. media_rank lib cfg c \<noteq> None) caps)"
    then show "the (media_rank lib cfg c) < 3" using media_rank_cases [of lib cfg c] by auto
  qed
  have "(media_rank lib cfg c \<noteq> None \<and> the (media_rank lib cfg c) = k) = (media_rank lib cfg c = Some k)" for c k
    by auto
  then show ?thesis
    unfolding ranked_media_def three_way_sort_key [OF r] filter_filter
    by (simp only: conj_commute)
qed

lemma media_rank_less: "media_rank lib cfg c = Some k \<Longrightarrow> k < 3"
  using media_rank_cases [of lib cfg c] by auto

text \<open>
  C28: The list of codec preferences a peer hands to its transceiver is a stable sort of what the
  device offers. When some media codec matches the configured one, the result is the media codecs
  in input order sorted by rank - the wanted codec first (for a subscriber, its baseline profiles
  before the others), then the H.264 variants the profile filter does not ask for, then all others -
  followed by the auxiliary codecs that pass the resiliency rules against the payload types of
  exactly these media codecs. When none matches, the result is empty and the transceiver keeps its
  defaults.
\<close>

theorem codec_preferences_stable_sort:
  "BuildVideoCodecPreferences lib caps cfg =
     (if \<exists>c \<in> set caps. media_rank lib cfg c = Some 0 \<or> media_rank lib cfg c = Some 1
      then ranked_media lib caps cfg @
             filter (keep_auxiliary (vp_include_all_rtx cfg)
                       (vp_include_ulpfec_red cfg \<and> PrimaryCodecSupportsUlpfecWithNack (wanted_codec cfg))
                       (CollectPreferredPayloadTypes (ranked_media lib caps cfg)))
               (filter (is_auxiliary lib) caps)
      else [])"
  by (auto simp: BuildVideoCodecPreferences_def Let_def foldl_sort_codec no_codecs_def AppendResiliencyCodecs_filter
      ranked_media_filters filter_empty_conv)

lemma set_ranked_media: "set (ranked_media lib caps cfg) = {c \<in> set caps. media_rank lib cfg c \<noteq> None}"
  by (simp add: ranked_media_def)

lemma rank_is_video_media: "media_rank lib cfg c \<noteq> None \<Longrightarrow> rc_kind c = VIDEO \<and> lib_IsMediaCodec lib c"
  by (auto simp: media_rank_def Let_def split: if_splits)

lemma set_BuildVideoCodecPreferences:
  "set (BuildVideoCodecPreferences lib caps cfg) \<subseteq>
     {c \<in> set caps. media_rank lib cfg c \<noteq> None} \<union>
     {c \<in> set caps. is_auxiliary lib c \<and>
        keep_auxiliary (vp_include_all_rtx cfg)
          (vp_include_ulpfec_red cfg \<and> PrimaryCodecSupportsUlpfecWithNack (wanted_codec cfg))
          (CollectPreferredPayloadTypes (ranked_media lib caps cfg)) c}"
  by (auto simp: BuildVideoCodecPreferences_def Let_def foldl_sort_codec no_codecs_def AppendResiliencyCodecs_filter
      ranked_media_filters)

lemma CollectPreferredPayloadTypes_iff:
  "pt \<in> set (CollectPreferredPayloadTypes media) \<longleftrightarrow> (\<exists>c \<in> set media. rc_preferred_payload_type c = Some pt)"
  by (force simp: CollectPreferredPayloadTypes_def map_filter_def)

text \<open>
  The list links up: a retransmission codec is only offered together with the media codec it
  repairs, unless the caller asks for all of them, and for H.264 no RED or ULPFEC is offered.
\<close>

theorem codec_preferences_linked:
  assumes "c \<in> set (BuildVideoCodecPreferences lib caps cfg)" and "\<not> lib_IsMediaCodec lib c"
    and "\<not> vp_include_all_rtx cfg" and "rc_name c = ''rtx''"
  shows "\<exists>apt m. map_of (rc_parameters c) ''apt'' = Some apt \<and> m \<in> set (BuildVideoCodecPreferences lib caps cfg) \<and>
           lib_IsMediaCodec lib m \<and> rc_preferred_payload_type m = Some (atoi apt)"
proof -
  let ?r = "ranked_media lib caps cfg"
  have ne: "BuildVideoCodecPreferences lib caps cfg \<noteq> []" using assms(1) by auto
  then have sub: "set ?r \<subseteq> set (BuildVideoCodecPreferences lib caps cfg)"
    by (auto simp: BuildVideoCodecPreferences_def Let_def foldl_sort_codec no_codecs_def AppendResiliencyCodecs_filter
        ranked_media_filters split: if_splits)
  have "RtxMatchesAllowedPayloadTypes c (CollectPreferredPayloadTypes ?r)"
    using set_BuildVideoCodecPreferences [of lib caps cfg] assms rank_is_video_media [of lib cfg c]
    by (auto simp: keep_auxiliary_def)
  then obtain apt where apt: "map_of (rc_parameters c) ''apt'' = Some apt"
      "atoi apt \<in> set (CollectPreferredPayloadTypes ?r)"
    by (auto simp: RtxMatchesAllowedPayloadTypes_def split: option.splits)
  then obtain m where "m \<in> set ?r" "rc_preferred_payload_type m = Some (atoi apt)"
    by (auto simp: CollectPreferredPayloadTypes_iff)
  moreover from this have "lib_IsMediaCodec lib m" using rank_is_video_media by (auto simp: set_ranked_media)
  ultimately show ?thesis using sub apt(1) by blast
qed

section \<open>The registry\<close>

text \<open>What the factory code relies on of the registry: the last registration of a backend is found.\<close>

locale backend_store =
  fixes put :: "'d \<Rightarrow> 's \<Rightarrow> 's"
    and look :: "'k \<Rightarrow> 's \<Rightarrow> 'd option"
    and key :: "'d \<Rightarrow> 'k"
  assumes look_put: "look k (put d s) = (if key d = k then Some d else look k s)"
begin

lemma latest_wins:
  "look k (fold put ds s) = (case find (\<lambda>d. key d = k) (rev ds) of Some d \<Rightarrow> Some d | None \<Rightarrow> look k s)"
  by (induction ds rule: rev_induct) (auto simp: look_put)

lemma found_has_key:
  assumes "\<forall>d. look k s = Some d \<longrightarrow> key d = k" and "look k (fold put ds s) = Some d"
  shows "key d = k"
  using assms by (auto simp: latest_wins find_Some_iff split: option.splits)

end

lemma find_in_set: "find P xs = Some x \<Longrightarrow> x \<in> set xs \<and> P x"
  by (induction xs) (auto split: if_splits)

lemma find_replace_or_push:
  "find (\<lambda>e. bd_backend e = k) (replace_or_push desc es) =
     (if bd_backend desc = k then Some desc else find (\<lambda>e. bd_backend e = k) es)"
  by (induction desc es rule: replace_or_push.induct) auto

interpretation br: backend_store Register Find bd_backend
  by unfold_locales (simp add: Register_def Find_def find_replace_or_push)

lemma replace_or_push_backends:
  "bd_backend ` set (replace_or_push desc es) = insert (bd_backend desc) (bd_backend ` set es)"
  by (induction desc es rule: replace_or_push.induct) auto

lemma distinct_replace_or_push:
  "distinct (map bd_backend es) \<Longrightarrow> distinct (map bd_backend (replace_or_push desc es))"
  by (induction desc es rule: replace_or_push.induct) (auto simp: replace_or_push_backends)

lemma distinct_EnsureBackendsRegistered:
  "distinct (map bd_backend (rg_entries r)) \<Longrightarrow> distinct (map bd_backend (rg_entries (EnsureBackendsRegistered pl r)))"
  by (simp add: EnsureBackendsRegistered_def Let_def Register_def distinct_replace_or_push)

lemma Find_once [simp]: "Find k (r\<lparr>rg_once := b\<rparr>) = Find k r"
  by (simp add: Find_def)

lemma MakeDescriptor_backend [simp]:
  "bd_backend (MakeBuiltinDescriptor pl) = kBuiltin"
  "bd_backend (MakeRockchipMppDescriptor pl) = kRockchipMpp"
  "bd_backend (MakeAndroidMediaCodecDescriptor pl) = kAndroidMediaCodec"
  by (simp_all add: MakeBuiltinDescriptor_def MakeRockchipMppDescriptor_def MakeAndroidMediaCodecDescriptor_def)

lemma Find_Ensure_builtin:
  "Find kBuiltin (EnsureBackendsRegistered pl r) = (if rg_once r then Find kBuiltin r else Some (MakeBuiltinDescriptor pl))"
  by (simp add: EnsureBackendsRegistered_def Let_def br.look_put)

text \<open>
  A decoder factory is always obtained. Whatever descriptors the application registers, before
  or after the built-in ones, and whichever backend the preferences name - not compiled in, disabled
  at run time, without a decoder, or failing to make one - the choice falls back to the built-in
  backend, as long as WebRTC can make its own decoder factory and no registered replacement of the
  built-in backend answers null; an enabled preferred backend that makes a factory is the one used.
\<close>

theorem decoder_factory_available:
  assumes "pl_recovering_decoder pl \<noteq> None" and "pl_builtin_decoder pl \<noteq> None"
    and "\<forall>d. Find kBuiltin r = Some d \<longrightarrow> bd_create_decoder_factory d \<noteq> Some None"
    and "\<forall>d \<in> set ds. bd_backend d = kBuiltin \<longrightarrow> bd_create_decoder_factory d \<noteq> Some None"
  shows "fst (CreatePreferredVideoDecoderFactory pl prefs (fold Register ds r)) \<noteq> None \<and>
         fst (CreatePreferredVideoDecoderFactory pl prefs (fold Register ds r)) =
           (if bp_decoder_backend prefs = kBuiltin \<or>
               usable_decoder (Find (bp_decoder_backend prefs) (EnsureBackendsRegistered pl (fold Register ds r))) = None
            then fst (CreatePreferredVideoDecoderFactory pl default_backend_preferences (fold Register ds r))
            else usable_decoder (Find (bp_decoder_backend prefs) (EnsureBackendsRegistered pl (fold Register ds r))))"
proof -
  let ?r = "EnsureBackendsRegistered pl (fold Register ds r)"
  let ?bf = "builtin_factory (map_option bd_create_decoder_factory (Find kBuiltin ?r)) (pl_builtin_decoder pl)"
  have "bd_create_decoder_factory d \<noteq> Some None" if "Find kBuiltin ?r = Some d" for d
    using that assms find_in_set [of "\<lambda>d. bd_backend d = kBuiltin" "rev ds" d]
    by (auto simp: Find_Ensure_builtin br.latest_wins MakeBuiltinDescriptor_def split: if_splits option.splits)
  then have "?bf \<noteq> None" using assms(2) by (auto simp: builtin_factory_def split: option.splits)
  then have "fst (CreatePreferredVideoDecoderFactory pl prefs (fold Register ds r)) \<noteq> None"
    by (simp add: CreatePreferredVideoDecoderFactory_def Let_def split: option.splits)
  then show ?thesis
    by (auto simp: CreatePreferredVideoDecoderFactory_def Let_def descriptor_factory_def runtime_off_def usable_decoder_def
        default_backend_preferences_def builtin_factory_def split: option.splits)
qed

theorem decoder_factory_available_witness:
  "fst (CreatePreferredVideoDecoderFactory demo_platform
          (default_backend_preferences\<lparr>bp_decoder_backend := kRockchipMpp\<rparr>) empty_registry) = Some 2 \<and>
   fst (CreatePreferredVideoDecoderFactory demo_platform
          (default_backend_preferences\<lparr>bp_decoder_backend := kRockchipMpp\<rparr>)
          (fold Register [MakeRockchipMppDescriptor demo_platform, MakeAndroidMediaCodecDescriptor demo_platform] empty_registry))
     \<noteq> None"
proof -
  have "fst (CreatePreferredVideoDecoderFactory demo_platform
          (default_backend_preferences\<lparr>bp_decoder_backend := kRockchipMpp\<rparr>)
          (fold Register [MakeRockchipMppDescriptor demo_platform, MakeAndroidMediaCodecDescriptor demo_platform] empty_registry))
     \<noteq> None"
    by (rule decoder_factory_available [THEN conjunct1])
      (simp_all add: demo_platform_def empty_registry_def Find_def)
  moreover have "fst (CreatePreferredVideoDecoderFactory demo_platform
          (default_backend_preferences\<lparr>bp_decoder_backend := kRockchipMpp\<rparr>) empty_registry) = Some 2"
    by code_simp
  ultimately show ?thesis by simp
qed

section \<open>The factory\<close>

lemma StartThreads_cases:
  assumes "StartThreads ans s = (ok, s')" and "factory_ok s" and "fs_factory s = None \<or> fs_threads_started s"
  shows "factory_ok s'" and "ok \<longleftrightarrow> fs_threads_started s'" and "fs_factory s' = fs_factory s"
  using assms
  by (auto simp: StartThreads_def Let_def factory_ok_def created_def split: if_splits prod.splits)

lemma Configure_deps:
  assumes "ConfigurePeerConnectionFactoryDependencies pl mo deps r = (deps', r')"
  shows "fd_media_enabled deps'" and "fd_task_queue_factory deps'"
    and "distinct (map bd_backend (rg_entries r)) \<longrightarrow> distinct (map bd_backend (rg_entries r'))"
  using assms
  by (auto simp: ConfigurePeerConnectionFactoryDependencies_def Let_def CreatePreferredVideoEncoderFactory_def
      CreatePreferredVideoDecoderFactory_def distinct_EnsureBackendsRegistered split: prod.splits option.splits if_splits)

lemma CreateFactory_ok:
  assumes "CreateFactoryOnSignalingThread pl ans mo s = (ok, s')" and "factory_ok s" and "fs_threads_started s"
  shows "factory_ok s'" and "fs_threads_started s'" and "ok \<longleftrightarrow> fs_factory s' \<noteq> None"
  using assms Configure_deps [of pl "Some mo" no_dependencies "fs_registry s"]
  by (auto simp: CreateFactoryOnSignalingThread_def Let_def factory_ok_def split: if_splits prod.splits)

lemma StopThreads_ok:
  assumes "factory_ok s" and "fs_factory s = None"
  shows "factory_ok (StopThreads s)"
  using assms by (auto simp: StopThreads_def factory_ok_def)

lemma rtc_initialize_ok:
  assumes "factory_ok s" and "rtc_initialize pl ans backend s = (ok, s')"
  shows "factory_ok s'" and "ok \<longleftrightarrow> fs_factory s' \<noteq> None"
proof -
  have "factory_ok s' \<and> (ok \<longleftrightarrow> fs_factory s' \<noteq> None)"
  proof (cases "fs_factory s = None")
    case True
    obtain started s1 where st: "StartThreads ans s = (started, s1)" by fastforce
    note a = StartThreads_cases [OF st assms(1) disjI1 [OF True]]
    obtain ok2 s2 where cr: "CreateFactoryOnSignalingThread pl ans
        (default_media_options\<lparr>mf_decoder_backend := backend\<rparr>) s1 = (ok2, s2)" by fastforce
    show ?thesis
    proof (cases started)
      case started: True
      note b = CreateFactory_ok [OF cr a(1)]
      show ?thesis using assms True st cr started a b StopThreads_ok [of s2]
        by (auto simp: rtc_initialize_def Let_def StopThreads_def split: if_splits)
    qed (use assms True st a in \<open>auto simp: rtc_initialize_def Let_def\<close>)
  qed (use assms in \<open>auto simp: rtc_initialize_def\<close>)
  then show "factory_ok s'" and "ok \<longleftrightarrow> fs_factory s' \<noteq> None" by auto
qed

lemma Recreate_ok:
  assumes "factory_ok s" and "RecreatePeerConnectionFactory pl ans mo s = (ok, s')"
  shows "factory_ok s'" and "ok \<longrightarrow> fs_factory s' \<noteq> None"
proof -
  obtain started s1 where st: "(if fs_threads_started s then (True, s) else StartThreads ans s) = (started, s1)" by fastforce
  have nf: "fs_factory s = None \<or> fs_threads_started s"
    using assms(1) by (cases "fs_factory s") (auto simp: factory_ok_def)
  have a: "factory_ok s1 \<and> (started \<longrightarrow> fs_threads_started s1)"
    using st assms(1) StartThreads_cases [OF _ assms(1) nf] by (auto split: if_splits)
  have eq: "RecreatePeerConnectionFactory pl ans mo s
              = (if started then CreateFactoryOnSignalingThread pl ans mo s1 else (False, s1))"
    using st by (simp add: RecreatePeerConnectionFactory_def)
  have "factory_ok s' \<and> (ok \<longrightarrow> fs_factory s' \<noteq> None)"
  proof (cases started)
    case True
    then have "CreateFactoryOnSignalingThread pl ans mo s1 = (ok, s')" using assms(2) eq by simp
    from CreateFactory_ok [OF this] a True show ?thesis by simp
  next
    case False
    then show ?thesis using assms(2) eq a by simp
  qed
  then show "factory_ok s'" and "ok \<longrightarrow> fs_factory s' \<noteq> None" by auto
qed

lemma factory_step_ok: "factory_step pl s s' \<Longrightarrow> factory_ok s \<Longrightarrow> factory_ok s'"
proof (erule factory_stepE)
  fix ans backend assume "factory_ok s" "s' = snd (rtc_initialize pl ans backend s)"
  then show "factory_ok s'" using rtc_initialize_ok(1) [of s pl ans backend] by (metis prod.collapse)
next
  fix ans opts assume "factory_ok s" "s' = snd (RecreatePeerConnectionFactory pl ans opts s)"
  then show "factory_ok s'" using Recreate_ok(1) [of s pl ans opts] by (metis prod.collapse)
next
  fix desc assume "factory_ok s" "s' = s\<lparr>fs_registry := Register desc (fs_registry s)\<rparr>"
  then show "factory_ok s'" by (simp add: factory_ok_def Register_def distinct_replace_or_push split: option.splits)
next
  assume ok: "factory_ok s" and s': "s' = rtc_shutdown s"
  have "factory_ok (s\<lparr>fs_factory := None\<rparr>)" using ok by (simp add: factory_ok_def)
  then show "factory_ok s'" unfolding s' rtc_shutdown_def by (rule StopThreads_ok) simp
qed

text \<open>
  In every state the process can reach by initialising, recreating for a publisher's encoder,
  registering backends and shutting down, in any order and with any of the thread or factory
  creations failing, a peer connection factory only exists while its three threads run and was built
  from complete dependencies, the registry holds each backend at most once, an initialisation
  reports success exactly when a factory exists, and after a shutdown there is none.
\<close>

theorem factory_lifecycle:
  assumes "factory_reachable pl s"
  shows "factory_ok s \<and> fst (rtc_initialize pl ans backend s) = (fs_factory (snd (rtc_initialize pl ans backend s)) \<noteq> None) \<and>
         fs_factory (rtc_shutdown s) = None \<and> \<not> fs_threads_started (rtc_shutdown s)"
proof -
  have "factory_ok s"
    using assms
  proof induction
    case start
    show ?case by (simp add: factory_ok_def factory_init_def empty_registry_def)
  qed (rule factory_step_ok)
  then show ?thesis using rtc_initialize_ok(2) [of s pl ans backend, OF _ prod.collapse [symmetric]]
    by (simp add: rtc_shutdown_def StopThreads_def)
qed

theorem factory_lifecycle_witness:
  "factory_ok (snd (rtc_initialize demo_platform demo_answers kBuiltin factory_init)) \<and>
   fst (rtc_initialize demo_platform demo_answers kBuiltin factory_init)"
proof -
  have "factory_reachable demo_platform (snd (rtc_initialize demo_platform demo_answers kBuiltin factory_init))"
    by (rule factory_reachable.step [OF factory_reachable.start factory_step.initialize])
  from factory_lifecycle [OF this, of demo_answers kBuiltin] have "factory_ok (snd (rtc_initialize demo_platform demo_answers kBuiltin factory_init))" by simp
  moreover have "fst (rtc_initialize demo_platform demo_answers kBuiltin factory_init)" by code_simp
  ultimately show ?thesis by simp
qed

end
