(* ===== verification/Camera_Devices.thy ===== *)
theory Camera_Devices
  imports Service_Publisher
begin

text \<open>
  Which camera a publisher captures from: the V4L2 node queries of
  \<^verbatim>\<open>src/service/impl/camera/camera_utils.cpp\<close> and \<^verbatim>\<open>PushStreamer::Impl::ResolveDeviceUniqueId\<close>.

  The kernel is a parameter: a map from device paths to nodes, each saying which open modes succeed
  and what \<^verbatim>\<open>VIDIOC_QUERYCAP\<close> answers. The devices WebRTC enumerates are a list, with None for an
  entry whose name query fails.
\<close>

section \<open>Device nodes\<close>

text \<open>
  The two capture flags are \<^verbatim>\<open>V4L2_CAP_VIDEO_CAPTURE\<close> in \<^verbatim>\<open>capabilities\<close> (of the whole device) and
  in \<^verbatim>\<open>device_caps\<close> (of this node).
\<close>

record v4l2_capability =
  vc_card :: string
  vc_bus_info :: string
  vc_capabilities_capture :: bool
  vc_device_caps_capture :: bool

record v4l2_node =
  vn_open_rdwr :: bool
  vn_open_rdonly :: bool
  vn_querycap :: "v4l2_capability option"

type_synonym v4l2_devices = "string \<Rightarrow> v4l2_node option"

text \<open>\<^verbatim>\<open>open\<close> with \<^verbatim>\<open>O_RDWR\<close> (or \<^verbatim>\<open>O_RDONLY\<close>) followed by \<^verbatim>\<open>VIDIOC_QUERYCAP\<close>: None if either fails.\<close>

definition query_rdwr :: "v4l2_devices \<Rightarrow> string \<Rightarrow> v4l2_capability option" where
  "query_rdwr devs path =
     (case devs path of None \<Rightarrow> None | Some n \<Rightarrow> if vn_open_rdwr n then vn_querycap n else None)"

definition query_rdonly :: "v4l2_devices \<Rightarrow> string \<Rightarrow> v4l2_capability option" where
  "query_rdonly devs path =
     (case devs path of None \<Rightarrow> None | Some n \<Rightarrow> if vn_open_rdonly n then vn_querycap n else None)"

definition IsVideoCaptureDevice :: "v4l2_devices \<Rightarrow> string \<Rightarrow> bool" where
  "IsVideoCaptureDevice devs path =
     (case query_rdwr devs path of None \<Rightarrow> False | Some cap \<Rightarrow> vc_capabilities_capture cap)"

record UsbCameraInfo =
  uc_device_path :: string
  uc_device_name :: string
  uc_bus_info :: string
  uc_index :: int

definition kPrefix :: string where "kPrefix = ''/dev/video''"

definition video_path :: "nat \<Rightarrow> string" where
  "video_path n = kPrefix @ to_string (int n)"

definition usb_camera :: "v4l2_devices \<Rightarrow> nat \<Rightarrow> UsbCameraInfo option" where
  "usb_camera devs i =
     (if devs (video_path i) = None then None
      else if \<not> IsVideoCaptureDevice devs (video_path i) then None
      else case query_rdwr devs (video_path i) of None \<Rightarrow> None
           | Some cap \<Rightarrow> Some \<lparr> uc_device_path = video_path i, uc_device_name = vc_card cap,
                                uc_bus_info = vc_bus_info cap, uc_index = int i \<rparr>)"

definition ListUsbCameras :: "v4l2_devices \<Rightarrow> UsbCameraInfo list" where
  "ListUsbCameras devs = List.map_filter (usb_camera devs) [0..<32]"

definition GetDeviceBusInfo :: "v4l2_devices \<Rightarrow> string \<Rightarrow> string" where
  "GetDeviceBusInfo devs path = (case query_rdwr devs path of None \<Rightarrow> [] | Some cap \<Rightarrow> vc_bus_info cap)"

definition GetDeviceCardName :: "v4l2_devices \<Rightarrow> string \<Rightarrow> string" where
  "GetDeviceCardName devs path = (case query_rdwr devs path of None \<Rightarrow> [] | Some cap \<Rightarrow> vc_card cap)"

definition capture_node :: "v4l2_devices \<Rightarrow> nat \<Rightarrow> bool" where
  "capture_node devs n =
     (case query_rdonly devs (video_path n) of None \<Rightarrow> False | Some cap \<Rightarrow> vc_device_caps_capture cap)"

text \<open>The loop over the nodes up to the target; \<open>n\<close> is the loop variable.\<close>

function index_loop :: "v4l2_devices \<Rightarrow> nat \<Rightarrow> int \<Rightarrow> nat \<Rightarrow> int" where
  "index_loop devs target capture_index n =
     (if n \<le> target
      then (if \<not> capture_node devs n then index_loop devs target capture_index (Suc n)
            else if n = target then capture_index
            else index_loop devs target (capture_index + 1) (Suc n))
      else - 1)"
  by pat_completeness auto
termination
  by (relation "measure (\<lambda>(devs, target, c, n). Suc target - n)") auto

declare index_loop.simps [simp del]

definition GetWebRtcCaptureDeviceIndexForPath :: "v4l2_devices \<Rightarrow> string \<Rightarrow> int" where
  "GetWebRtcCaptureDeviceIndexForPath devs device_path =
     (if length device_path \<le> length kPrefix \<or> take (length kPrefix) device_path \<noteq> kPrefix then - 1
      else let target = atoi (drop (length kPrefix) device_path)
           in if target < 0 \<or> target \<ge> 64 then - 1 else index_loop devs (nat target) 0 0)"

section \<open>Choosing the device\<close>

text \<open>
  What the process sees: the nodes, the result of \<^verbatim>\<open>access(path, R_OK | W_OK)\<close>, and WebRTC's
  device list (None when \<^verbatim>\<open>CreateDeviceInfo\<close> fails) of pairs of a name and a unique name.
\<close>

record capture_env =
  ce_devices :: v4l2_devices
  ce_access_rw :: "string \<Rightarrow> bool"
  ce_device_info :: "(string \<times> string) option list option"

fun first_unique :: "(string \<Rightarrow> string \<Rightarrow> bool) \<Rightarrow> (string \<times> string) option list \<Rightarrow> string option" where
  "first_unique P [] = None"
| "first_unique P (d # ds) =
     (case d of None \<Rightarrow> first_unique P ds
      | Some (name, unique) \<Rightarrow> if P name unique then Some unique else first_unique P ds)"

definition enumerated :: "(string \<times> string) option list \<Rightarrow> int \<Rightarrow> string option" where
  "enumerated ds i = (if 0 \<le> i \<and> nat i < length ds then map_option snd (ds ! nat i) else None)"

text \<open>The four attempts to match a configured path with an enumerated device, in order.\<close>

definition match_device_path :: "v4l2_devices \<Rightarrow> (string \<times> string) option list \<Rightarrow> string \<Rightarrow> string option" where
  "match_device_path devs ds path =
     (case enumerated ds (GetWebRtcCaptureDeviceIndexForPath devs path) of
        Some u \<Rightarrow> Some u
      | None \<Rightarrow>
          let bus = GetDeviceBusInfo devs path
          in case first_unique (\<lambda>name unique. bus \<noteq> [] \<and> unique = bus) ds of
               Some u \<Rightarrow> Some u
             | None \<Rightarrow>
                 (case first_unique (\<lambda>name unique. contains_sub path unique) ds of
                    Some u \<Rightarrow> Some u
                  | None \<Rightarrow>
                      let card = GetDeviceCardName devs path
                      in if card = [] then None else first_unique (\<lambda>name unique. name = card) ds))"

definition ResolveDeviceUniqueId :: "capture_env \<Rightarrow> PushStreamerCommonConfig \<Rightarrow> string option" where
  "ResolveDeviceUniqueId ce cfg =
     (let p = ps_video_device_path cfg
      in if p \<noteq> [] \<and> prefix ''/dev/video'' p \<and> ce_access_rw ce p then Some p
         else case ce_device_info ce of
                None \<Rightarrow> None
              | Some ds \<Rightarrow>
                  if ds = [] then None
                  else case (if p \<noteq> [] then match_device_path (ce_devices ce) ds p else None) of
                         Some u \<Rightarrow> Some u
                       | None \<Rightarrow>
                           let idx = uint (word_of_int (ps_video_device_index cfg) :: u32)
                           in if idx \<ge> int (length ds) then None else map_option snd (ds ! nat idx))"

text \<open>A camera with a metadata node (0) and a capture node (1).\<close>

definition two_node_camera :: v4l2_devices where
  "two_node_camera path =
     (if path = video_path 0 then Some \<lparr> vn_open_rdwr = True, vn_open_rdonly = True,
        vn_querycap = Some \<lparr> vc_card = ''cam'', vc_bus_info = ''usb'', vc_capabilities_capture = True,
                             vc_device_caps_capture = False \<rparr> \<rparr>
      else if path = video_path 1 then Some \<lparr> vn_open_rdwr = True, vn_open_rdonly = True,
        vn_querycap = Some \<lparr> vc_card = ''cam'', vc_bus_info = ''usb'', vc_capabilities_capture = True,
                             vc_device_caps_capture = True \<rparr> \<rparr>
      else None)"

section \<open>Properties\<close>

lemma index_loop_count:
  "index_loop devs target c n =
     (if n \<le> target \<and> capture_node devs target then c + int (length (filter (capture_node devs) [n..<target])) else - 1)"
proof (induction devs target c n rule: index_loop.induct)
  case (1 devs target c n)
  show ?case
  proof (cases "n < target")
    case True
    have "index_loop devs target c n
            = index_loop devs target (if capture_node devs n then c + 1 else c) (Suc n)"
      using True by (subst index_loop.simps) simp
    moreover have "[n..<target] = n # [Suc n..<target]" using True by (rule upt_conv_Cons)
    ultimately show ?thesis using True "1.IH" by auto
  next
    case False
    have "index_loop devs n c (Suc n) = - 1" by (subst index_loop.simps) simp
    with False show ?thesis by (subst index_loop.simps) auto
  qed
qed

text \<open>
  The device number handed to WebRTC for \<^verbatim>\<open>/dev/videoN\<close> is the number of capture nodes below N,
  so it is the position of that node among the capture nodes; it is -1 exactly when N is not a
  capture node that can be opened.
\<close>

theorem capture_index_counts_nodes:
  assumes "n < 64"
  shows "GetWebRtcCaptureDeviceIndexForPath devs (video_path n) =
           (if capture_node devs n then int (card {k. k < n \<and> capture_node devs k}) else - 1)"
proof -
  have "atoi (to_string (int n)) = int n"
    using atoi_to_string [of "int n" "[]"] assms by (simp add: int32_range_def)
  then have "GetWebRtcCaptureDeviceIndexForPath devs (video_path n) = index_loop devs n 0 0"
    using assms by (simp add: GetWebRtcCaptureDeviceIndexForPath_def video_path_def)
  moreover have "length (filter (capture_node devs) [0..<n]) = card {k. k < n \<and> capture_node devs k}"
    by (subst distinct_card [symmetric]) (auto intro: arg_cong [where f = card])
  ultimately show ?thesis by (simp add: index_loop_count)
qed

lemma first_unique_SomeD:
  "first_unique P ds = Some u \<Longrightarrow> \<exists>name. Some (name, u) \<in> set ds \<and> P name u"
  by (induction ds) (auto split: option.splits prod.splits if_splits)

lemma match_device_path_enumerated:
  "match_device_path devs ds path = Some u \<Longrightarrow> \<exists>name. Some (name, u) \<in> set ds"
  by (auto simp: match_device_path_def enumerated_def Let_def split: option.splits if_splits
      dest!: first_unique_SomeD) (metis nth_mem)+

text \<open>
  The device a publisher captures from exists: it is the configured node, readable and writable, or
  one of the devices WebRTC lists.
\<close>

theorem resolved_device_exists:
  assumes "ResolveDeviceUniqueId ce cfg = Some u"
  shows "u = ps_video_device_path cfg \<and> ce_access_rw ce u \<or>
         (\<exists>ds name. ce_device_info ce = Some ds \<and> Some (name, u) \<in> set ds)"
proof (cases "ps_video_device_path cfg \<noteq> [] \<and> prefix ''/dev/video'' (ps_video_device_path cfg) \<and>
              ce_access_rw ce (ps_video_device_path cfg)")
  case True
  then show ?thesis using assms by (simp add: ResolveDeviceUniqueId_def)
next
  case False
  then obtain ds where ds: "ce_device_info ce = Some ds" "ds \<noteq> []"
    using assms by (auto simp: ResolveDeviceUniqueId_def Let_def split: option.splits if_splits)
  let ?m = "if ps_video_device_path cfg \<noteq> [] then match_device_path (ce_devices ce) ds (ps_video_device_path cfg) else None"
  let ?i = "uint (word_of_int (ps_video_device_index cfg) :: u32)"
  have r: "(case ?m of Some u \<Rightarrow> Some u
            | None \<Rightarrow> if ?i \<ge> int (length ds) then None else map_option snd (ds ! nat ?i)) = Some u"
    using assms False ds unfolding ResolveDeviceUniqueId_def Let_def by (simp only: if_False option.case)
  have "\<exists>name. Some (name, u) \<in> set ds"
  proof (cases ?m)
    case None
    then have i: "\<not> ?i \<ge> int (length ds)" "map_option snd (ds ! nat ?i) = Some u"
      using r by (simp_all only: option.case split: if_splits) simp_all
    then have "nat ?i < length ds" using uint_ge_0 [of "word_of_int (ps_video_device_index cfg) :: u32"] by linarith
    with i(2) show ?thesis by (metis (no_types, lifting) map_option_eq_Some nth_mem prod.collapse)
  next
    case (Some v)
    then show ?thesis using r match_device_path_enumerated [of "ce_devices ce" ds _ u] by (simp split: if_splits)
  qed
  with ds show ?thesis by blast
qed

text \<open>
  The camera list and the enumeration disagree about the nodes of one device: a metadata node of a
  camera reports the capture capability of the whole device, so it is listed as a camera although it
  has no capture index, and the index listed for a camera is the number in its path.
\<close>

theorem listed_index_is_not_capture_index:
  "map uc_index (ListUsbCameras two_node_camera) = [0, 1] \<and>
   GetWebRtcCaptureDeviceIndexForPath two_node_camera (video_path 0) = - 1 \<and>
   GetWebRtcCaptureDeviceIndexForPath two_node_camera (video_path 1) = 0"
  by code_simp

theorem capture_index_counts_nodes_witness:
  "GetWebRtcCaptureDeviceIndexForPath two_node_camera (video_path 1) = 0"
proof -
  have "{k. k < Suc 0 \<and> capture_node two_node_camera k} = {}" by (auto, code_simp)
  moreover have "capture_node two_node_camera 1" by code_simp
  ultimately show ?thesis using capture_index_counts_nodes [of 1 two_node_camera] by simp
qed

end
