(* ===== verification/Push_Streamer.thy ===== *)
theory Push_Streamer
  imports Codec_Backends Camera_Devices
begin

text \<open>
  The push streamer (\<^verbatim>\<open>src/service/impl/media/push_streamer.cpp\<close> and \<^verbatim>\<open>push_streamer_internals.cpp\<close>):
  one default peer connection, one peer connection per subscriber, the video track they share, the
  offers, answers and candidates that pass through it, the loopback receiver of the test mode, and
  the two periodic log loops.

  WebRTC is a parameter. Peer connections are numbered in the order they are created; what the
  streamer asks of WebRTC and what it reports to its owner is appended to \<open>im_events\<close>. The answers of
  WebRTC and of the camera during one call are the record \<open>push_answers\<close>. A callback WebRTC owes the
  streamer (an offer that is being created, a description that is being set) is an entry of a pending
  list of the state, and its arrival is an operation. All operations that create connections run on
  the factory's signaling thread, one at a time, so each is one step.
\<close>

section \<open>Sender settings\<close>

datatype DegradationPreference = MAINTAIN_FRAMERATE | MAINTAIN_RESOLUTION | BALANCED

datatype Priority = prio_kVeryLow | prio_kLow | prio_kMedium | prio_kHigh

datatype RtpTransceiverDirection = kSendOnly | kRecvOnly

record RtpEncodingParameters =
  enc_active :: bool
  enc_min_bitrate_bps :: int
  enc_max_bitrate_bps :: int
  enc_network_priority :: Priority
  enc_max_framerate :: int

record RtpTransceiverInit =
  ti_direction :: RtpTransceiverDirection
  ti_stream_ids :: "string list"
  ti_send_encodings :: "RtpEncodingParameters list"

record BitrateSettings =
  br_min_bitrate_bps :: int
  br_start_bitrate_bps :: int
  br_max_bitrate_bps :: int

definition ParseVideoNetworkPriority :: "string \<Rightarrow> Priority" where
  "ParseVideoNetworkPriority s =
     (let lower = LowerCopy s
      in if lower = ''very_low'' \<or> lower = ''verylow'' then prio_kVeryLow
         else if lower = ''low'' then prio_kLow
         else if lower = ''medium'' then prio_kMedium
         else if lower = ''high'' then prio_kHigh
         else prio_kHigh)"

text \<open>The result is a \<^verbatim>\<open>double\<close> that holds an \<^verbatim>\<open>int\<close> or 30.0.\<close>

definition VideoEncodingMaxFps :: "PushStreamerCommonConfig \<Rightarrow> int" where
  "VideoEncodingMaxFps cfg =
     (let fps_cap = (if ps_video_encoding_max_framerate cfg > 0 then ps_video_encoding_max_framerate cfg else ps_video_fps cfg)
      in if fps_cap > 0 then fps_cap else 30)"

definition ParseDegradationPreference :: "PushStreamerCommonConfig \<Rightarrow> DegradationPreference" where
  "ParseDegradationPreference cfg =
     (if ps_degradation_preference cfg = ''maintain_resolution'' then MAINTAIN_RESOLUTION
      else if ps_degradation_preference cfg = ''balanced'' then BALANCED
      else MAINTAIN_FRAMERATE)"

text \<open>A rate in kbit/s as a 32-bit number of bit/s; the product wraps, as the compilers' code does.\<close>

definition kbps_to_bps :: "int \<Rightarrow> int" where
  "kbps_to_bps kbps = to_int32 (kbps * 1000)"

definition BuildVideoSendEncodings :: "PushStreamerCommonConfig \<Rightarrow> RtpEncodingParameters list" where
  "BuildVideoSendEncodings cfg =
     [\<lparr> enc_active = True, enc_min_bitrate_bps = kbps_to_bps (ps_min_bitrate_kbps cfg),
        enc_max_bitrate_bps = kbps_to_bps (ps_max_bitrate_kbps cfg),
        enc_network_priority = ParseVideoNetworkPriority (ps_video_network_priority cfg),
        enc_max_framerate = VideoEncodingMaxFps cfg \<rparr>]"

definition BuildVideoSendTransceiverInit :: "PushStreamerCommonConfig \<Rightarrow> RtpTransceiverInit" where
  "BuildVideoSendTransceiverInit cfg =
     \<lparr> ti_direction = kSendOnly, ti_stream_ids = [ps_stream_id cfg], ti_send_encodings = BuildVideoSendEncodings cfg \<rparr>"

definition call_bitrates :: "PushStreamerCommonConfig \<Rightarrow> BitrateSettings" where
  "call_bitrates cfg =
     (let min_bps = max 0 (kbps_to_bps (ps_min_bitrate_kbps cfg));
          target_bps = max min_bps (kbps_to_bps (ps_target_bitrate_kbps cfg));
          max_bps = max target_bps (kbps_to_bps (ps_max_bitrate_kbps cfg))
      in \<lparr> br_min_bitrate_bps = min_bps, br_start_bitrate_bps = target_bps, br_max_bitrate_bps = max_bps \<rparr>)"

definition MakeRtcConfiguration :: "PushStreamerCommonConfig \<Rightarrow> RTCConfiguration" where
  "MakeRtcConfiguration cfg =
     BuildRtcConfiguration \<lparr> ice_stun_server = ps_stun_server cfg, ice_turn_server = ps_turn_server cfg,
       ice_turn_username = ps_turn_username cfg, ice_turn_password = ps_turn_password cfg,
       ice_prioritize_likely_pairs = ps_ice_prioritize_likely_pairs cfg,
       ice_has_stun_server = ps_has_stun_server cfg, ice_has_turn_server = ps_has_turn_server cfg \<rparr> True True"

section \<open>State\<close>

datatype ConnectionState = New | Connecting | Connected | Disconnected | Failed | Closed

datatype PeerConnectionState =
  rtc_kNew | rtc_kConnecting | rtc_kConnected | rtc_kDisconnected | rtc_kFailed | rtc_kClosed

text \<open>The observer a peer connection is created with: the streamer itself, one for a peer, or the loopback's.\<close>

datatype pc_observer = DefaultObserver | ExtraPeerObserver string | LoopbackObserver

datatype push_event =
    PeRecreateFactory PeerConnectionFactoryMediaOptions
  | PeCreatePc nat pc_observer RTCConfiguration
  | PeAddTransceiver nat RtpTransceiverInit
  | PeCodecPreferences nat "RtpCodecCapability list"
  | PeSetDegradation nat DegradationPreference
  | PeSetBitrate nat BitrateSettings
  | PeClosePc nat
  | PeCreateOffer nat
  | PeSetLocal nat string string
  | PeSetRemote nat string string
  | PeCreateAnswer nat
  | PeAddIce nat string int string
  | PeSdp string string string
  | PeIce string string int string
  | PeState ConnectionState
  | PeGetStats nat string
  | PeHealthWithoutReport
  | PeStartCamera string int int int bool
  | PeNullDereference
  | PeCleanupSSL

text \<open>
  The observer of the loopback receiver: its counting sink, the track the sink belongs to, and the
  tracks that deliver frames to it.
\<close>

record LoopbackPcObserver =
  lo_decoded_sink :: "u32 option"
  lo_decoded_track :: "nat option"
  lo_registered :: "nat list"

text \<open>
  A periodic log loop: its two flags, its interval, and how many of its tasks wait in the thread pool
  to run now and to run after the interval.
\<close>

record TickLoop =
  tl_stop :: bool
  tl_started :: bool
  tl_interval_sec :: int
  tl_posted :: nat
  tl_delayed :: nat

text \<open>The members of \<^verbatim>\<open>PushStreamerBackendConfig\<close> the capture policy does not write.\<close>

record RockchipBackendConfig =
  rk_use_rockchip_mpp_h264 :: bool
  rk_use_rockchip_mpp_mjpeg_decode :: bool
  rk_use_rockchip_dual_mpp_mjpeg_h264 :: bool
  rk_mjpeg_v4l2_ext_dma :: bool
  rk_mjpeg_rga_to_mpp :: bool

record Impl =
  im_config :: PushStreamerCommonConfig
  im_backend :: PushStreamerBackendConfig
  im_rockchip :: RockchipBackendConfig
  im_factory :: bool
  im_peer_connection :: "nat option"
  im_video_track :: bool
  im_camera_source :: bool
  im_camera_impl :: bool
  im_external_source :: bool
  im_on_sdp :: bool
  im_on_ice_candidate :: bool
  im_on_connection_state :: bool
  im_on_frame :: bool
  im_frame_counter :: "u32 option"
  im_counter_attached :: bool
  im_receiver :: "nat option"
  im_loopback_observer :: "LoopbackPcObserver option"
  im_loopback_answer_type :: string
  im_loopback_answer_sdp :: string
  im_peer_connections :: "(string \<times> nat) list"
  im_extra_peer_observers :: "(string \<times> nat) list"
  im_outbound_stats :: TickLoop
  im_push_health :: TickLoop
  im_pending_offers :: "(string \<times> nat) list"
  im_pending_locals :: "(string \<times> nat \<times> string \<times> string) list"
  im_pending_receiver_remote :: nat
  im_pending_receiver_answer :: nat
  im_pending_receiver_local :: nat
  im_pc_count :: nat
  im_is_streaming :: bool
  im_events :: "push_event list"

definition tick_loop_init :: "int \<Rightarrow> TickLoop" where
  "tick_loop_init interval = \<lparr> tl_stop = False, tl_started = False, tl_interval_sec = interval, tl_posted = 0, tl_delayed = 0 \<rparr>"

definition rockchip_backend_init :: "('e, 'd) platform \<Rightarrow> RockchipBackendConfig" where
  "rockchip_backend_init pl = \<lparr> rk_use_rockchip_mpp_h264 = pl_have_rockchip_mpp pl,
     rk_use_rockchip_mpp_mjpeg_decode = pl_have_rockchip_mpp pl, rk_use_rockchip_dual_mpp_mjpeg_h264 = True,
     rk_mjpeg_v4l2_ext_dma = True, rk_mjpeg_rga_to_mpp = False \<rparr>"

definition new_PushStreamer ::
  "PushStreamerCommonConfig \<Rightarrow> PushStreamerBackendConfig \<Rightarrow> RockchipBackendConfig \<Rightarrow> Impl" where
  "new_PushStreamer common backend rk =
     \<lparr> im_config = common, im_backend = backend, im_rockchip = rk, im_factory = False, im_peer_connection = None,
       im_video_track = False, im_camera_source = False, im_camera_impl = False, im_external_source = False,
       im_on_sdp = False, im_on_ice_candidate = False, im_on_connection_state = False, im_on_frame = False,
       im_frame_counter = None, im_counter_attached = False, im_receiver = None, im_loopback_observer = None,
       im_loopback_answer_type = [],
       im_loopback_answer_sdp = [], im_peer_connections = [], im_extra_peer_observers = [],
       im_outbound_stats = tick_loop_init 1, im_push_health = tick_loop_init 5, im_pending_offers = [],
       im_pending_locals = [], im_pending_receiver_remote = 0, im_pending_receiver_answer = 0,
       im_pending_receiver_local = 0, im_pc_count = 0, im_is_streaming = False, im_events = [] \<rparr>"

text \<open>
  What WebRTC's parsers accept and how it classifies codecs; and the answers during one call. The
  last field lists the frame counts read by the successive polls of the capture gate before its
  deadline.
\<close>

record rtc_lib =
  rl_codecs :: codec_lib
  rl_sdp_type :: "string \<Rightarrow> bool"
  rl_parse_sdp :: "string \<Rightarrow> string \<Rightarrow> bool"
  rl_parse_ice :: "string \<Rightarrow> int \<Rightarrow> string \<Rightarrow> bool"

record push_answers =
  an_ssl :: bool
  an_recreate :: bool
  an_factory :: bool
  an_pc :: bool
  an_track :: bool
  an_transceiver :: bool
  an_sender :: bool
  an_set_parameters :: bool
  an_set_bitrate :: bool
  an_signaling_thread :: bool
  an_sender_codecs :: "RtpCodecCapability list"
  an_transceivers :: "transceiver list"
  an_capture :: capture_env
  an_concurrent_mpp :: bool
  an_camera_start :: bool
  an_negotiated_fps :: "int option"
  an_gate_frames :: "nat list"

definition push_event_add :: "push_event \<Rightarrow> Impl \<Rightarrow> Impl" where
  "push_event_add e s = s\<lparr>im_events := im_events s @ [e]\<rparr>"

section \<open>The periodic loops\<close>

definition loop_schedule :: "TickLoop \<Rightarrow> TickLoop" where
  "loop_schedule l = (if tl_stop l then l else l\<lparr>tl_posted := tl_posted l + 1\<rparr>)"

definition loop_maybe_start :: "int \<Rightarrow> TickLoop \<Rightarrow> TickLoop" where
  "loop_maybe_start interval l =
     (if interval \<le> 0 then l
      else if tl_started l then l
      else loop_schedule (l\<lparr>tl_started := True, tl_stop := False, tl_interval_sec := interval\<rparr>))"

definition loop_stop :: "TickLoop \<Rightarrow> TickLoop" where
  "loop_stop l = l\<lparr>tl_stop := True, tl_started := False\<rparr>"

definition MaybeStartOutboundStatsLoop :: "env \<Rightarrow> KnobState \<Rightarrow> Impl \<Rightarrow> Impl" where
  "MaybeStartOutboundStatsLoop env ks s =
     s\<lparr>im_outbound_stats :=
        loop_maybe_start (fst (ReadInt env ''RFLOW_PUSH_OUTBOUND_STATS_INTERVAL_SEC'' ks)) (im_outbound_stats s)\<rparr>"

definition StopOutboundStatsLoop :: "Impl \<Rightarrow> Impl" where
  "StopOutboundStatsLoop s = s\<lparr>im_outbound_stats := loop_stop (im_outbound_stats s)\<rparr>"

definition MaybeStartPushHealthLoop :: "env \<Rightarrow> KnobState \<Rightarrow> Impl \<Rightarrow> Impl" where
  "MaybeStartPushHealthLoop env ks s =
     s\<lparr>im_push_health :=
        loop_maybe_start (fst (ReadInt env ''RFLOW_PUSH_HEALTH_INTERVAL_SEC'' ks)) (im_push_health s)\<rparr>"

definition StopPushHealthLoop :: "Impl \<Rightarrow> Impl" where
  "StopPushHealthLoop s = s\<lparr>im_push_health := loop_stop (im_push_health s)\<rparr>"

definition SelectStatsPeerConnection :: "Impl \<Rightarrow> nat option \<times> string" where
  "SelectStatsPeerConnection s =
     (case im_peer_connections s of
        (peer, pc) # _ \<Rightarrow> (Some pc, peer)
      | [] \<Rightarrow> (case im_peer_connection s of Some pc \<Rightarrow> (Some pc, ''default'') | None \<Rightarrow> (None, ''none'')))"

text \<open>The body of a posted task, and the task that runs after the interval, of each loop.\<close>

definition ScheduleOutboundStatsTick_task :: "Impl \<Rightarrow> Impl" where
  "ScheduleOutboundStatsTick_task s =
     (let l = im_outbound_stats s; s1 = s\<lparr>im_outbound_stats := l\<lparr>tl_posted := tl_posted l - 1\<rparr>\<rparr>
      in if tl_stop l then s1
         else let s2 = (case SelectStatsPeerConnection s1 of
                          (Some pc, tag) \<Rightarrow> push_event_add (PeGetStats pc tag) s1 | (None, _) \<Rightarrow> s1);
                  l2 = im_outbound_stats s2
              in s2\<lparr>im_outbound_stats := l2\<lparr>tl_delayed := tl_delayed l2 + 1\<rparr>\<rparr>)"

definition ScheduleOutboundStatsTick_delayed :: "Impl \<Rightarrow> Impl" where
  "ScheduleOutboundStatsTick_delayed s =
     (let l = im_outbound_stats s
      in s\<lparr>im_outbound_stats := loop_schedule (l\<lparr>tl_delayed := tl_delayed l - 1\<rparr>)\<rparr>)"

definition SchedulePushHealthTick_task :: "Impl \<Rightarrow> Impl" where
  "SchedulePushHealthTick_task s =
     (let l = im_push_health s; s1 = s\<lparr>im_push_health := l\<lparr>tl_posted := tl_posted l - 1\<rparr>\<rparr>
      in if tl_stop l then s1
         else let s2 = (case SelectStatsPeerConnection s1 of
                          (Some pc, tag) \<Rightarrow> push_event_add (PeGetStats pc tag) s1
                        | (None, _) \<Rightarrow> push_event_add PeHealthWithoutReport s1);
                  l2 = im_push_health s2
              in s2\<lparr>im_push_health := l2\<lparr>tl_delayed := tl_delayed l2 + 1\<rparr>\<rparr>)"

definition SchedulePushHealthTick_delayed :: "Impl \<Rightarrow> Impl" where
  "SchedulePushHealthTick_delayed s =
     (let l = im_push_health s
      in s\<lparr>im_push_health := loop_schedule (l\<lparr>tl_delayed := tl_delayed l - 1\<rparr>)\<rparr>)"

section \<open>Connections and the sender\<close>

definition CreatePcWithObserver :: "push_answers \<Rightarrow> pc_observer \<Rightarrow> Impl \<Rightarrow> nat option \<times> Impl" where
  "CreatePcWithObserver a obs s =
     (if \<not> an_pc a then (None, s)
      else let n = im_pc_count s
           in (Some n, push_event_add (PeCreatePc n obs (MakeRtcConfiguration (im_config s))) (s\<lparr>im_pc_count := Suc n\<rparr>)))"

definition publisher_preferences :: "PushStreamerCommonConfig \<Rightarrow> VideoCodecPreferenceConfig" where
  "publisher_preferences cfg =
     (let want = LowerCopy (ps_video_codec cfg); want' = (if want = [] then ''h264'' else want)
      in default_preference_config\<lparr>vp_role := kPublisher, vp_video_codec := ps_video_codec cfg,
           vp_include_all_h264_variants := True, vp_include_all_rtx := False,
           vp_media_filter := (if want' = ''h264'' \<and> ps_h264_profile cfg \<noteq> []
              then Some (\<lambda>c. H264CodecMatchesConfiguredProfile c (H264ProfileIdcHex2 (ps_h264_profile cfg))) else None)\<rparr>)"

definition ApplyVideoCodecPreferences :: "rtc_lib \<Rightarrow> push_answers \<Rightarrow> nat \<Rightarrow> Impl \<Rightarrow> Impl" where
  "ApplyVideoCodecPreferences lib a pc s =
     (if \<not> im_factory s then s
      else let ordered = BuildVideoCodecPreferences (rl_codecs lib) (an_sender_codecs a) (publisher_preferences (im_config s))
           in if ordered = [] then s
              else if fst (SetVideoCodecPreferencesOnPeerConnection (Some (an_transceivers a)) VIDEO ordered)
                   then push_event_add (PeCodecPreferences pc ordered) s else s)"

definition ApplySenderDegradationAndCallBitrate :: "push_answers \<Rightarrow> nat \<Rightarrow> Impl \<Rightarrow> bool \<times> Impl" where
  "ApplySenderDegradationAndCallBitrate a pc s =
     (if \<not> an_sender a then (False, s)
      else if \<not> an_set_parameters a then (False, s)
      else let s1 = push_event_add (PeSetDegradation pc (ParseDegradationPreference (im_config s))) s
           in if \<not> an_set_bitrate a then (False, s1)
              else (True, push_event_add (PeSetBitrate pc (call_bitrates (im_config s))) s1))"

definition AddVideoSendTransceiver :: "rtc_lib \<Rightarrow> push_answers \<Rightarrow> nat \<Rightarrow> Impl \<Rightarrow> bool \<times> Impl" where
  "AddVideoSendTransceiver lib a pc s =
     (if \<not> im_video_track s then (False, s)
      else if \<not> an_transceiver a then (False, s)
      else ApplySenderDegradationAndCallBitrate a pc
             (ApplyVideoCodecPreferences lib a pc
                (push_event_add (PeAddTransceiver pc (BuildVideoSendTransceiverInit (im_config s))) s)))"

section \<open>Media tracks\<close>

text \<open>The frame counter is registered with the new source only when there was none yet.\<close>

definition attach_frame_counter :: "Impl \<Rightarrow> Impl" where
  "attach_frame_counter s =
     (case im_frame_counter s of None \<Rightarrow> s\<lparr>im_frame_counter := Some 0, im_counter_attached := True\<rparr> | Some _ \<Rightarrow> s)"

definition CreateMediaTracksExternal :: "push_answers \<Rightarrow> Impl \<Rightarrow> bool \<times> Impl" where
  "CreateMediaTracksExternal a s =
     (let s1 = attach_frame_counter (s\<lparr>im_external_source := True, im_camera_source := True\<rparr>)
      in if \<not> an_track a
         then (False, s1\<lparr>im_video_track := False, im_frame_counter := None, im_counter_attached := False,
                         im_camera_source := False, im_external_source := False\<rparr>)
         else (True, s1\<lparr>im_video_track := True\<rparr>))"

text \<open>Whether MJPEG is decoded by the Rockchip library.\<close>

definition use_mpp_mjpeg :: "('e, 'd) platform \<Rightarrow> push_answers \<Rightarrow> RockchipBackendConfig \<Rightarrow> bool" where
  "use_mpp_mjpeg pl a rk =
     (if \<not> pl_have_rockchip_mpp pl then False
      else let mjpeg = rk_use_rockchip_mpp_mjpeg_decode rk;
               h264 = rk_use_rockchip_mpp_h264 rk;
               dual = (if mjpeg \<and> h264 then an_concurrent_mpp a else rk_use_rockchip_dual_mpp_mjpeg_h264 rk)
           in if mjpeg \<and> h264 \<and> \<not> dual then False else mjpeg)"

definition CreateMediaTracks :: "('e, 'd) platform \<Rightarrow> env \<Rightarrow> KnobState \<Rightarrow> push_answers \<Rightarrow> Impl \<Rightarrow> bool \<times> Impl" where
  "CreateMediaTracks pl env ks a s =
     (if ps_use_external_video_source (im_config s) then CreateMediaTracksExternal a s
      else case ResolveDeviceUniqueId (an_capture a) (im_config s) of
             None \<Rightarrow> (False, s)
           | Some unique_id \<Rightarrow>
               let cfg = im_config s;
                   s1 = push_event_add (PeStartCamera unique_id (ps_video_width cfg) (ps_video_height cfg) (ps_video_fps cfg)
                                          (use_mpp_mjpeg pl a (im_rockchip s)))
                          (attach_frame_counter (s\<lparr>im_camera_impl := True, im_camera_source := True\<rparr>))
               in if \<not> an_camera_start a
                  then (False, s1\<lparr>im_frame_counter := None, im_counter_attached := False, im_camera_source := False,
                                 im_camera_impl := False\<rparr>)
                  else if \<not> an_track a then (False, s1\<lparr>im_video_track := False\<rparr>)
                  else let s2 = MaybeStartPushHealthLoop env ks (s1\<lparr>im_video_track := True\<rparr>)
                       in (True, case an_negotiated_fps a of
                                   Some fps \<Rightarrow> if fps > 0 then s2\<lparr>im_config := (im_config s2)\<lparr>ps_video_fps := fps\<rparr>\<rparr> else s2
                                 | None \<Rightarrow> s2))"

definition CreatePeerConnection ::
  "rtc_lib \<Rightarrow> ('e, 'd) platform \<Rightarrow> env \<Rightarrow> KnobState \<Rightarrow> push_answers \<Rightarrow> Impl \<Rightarrow> bool \<times> Impl" where
  "CreatePeerConnection lib pl env ks a s =
     (case CreatePcWithObserver a DefaultObserver s of
        (None, s1) \<Rightarrow> (False, s1)
      | (Some n, s1) \<Rightarrow>
          let (ok, s2) = CreateMediaTracks pl env ks a (s1\<lparr>im_peer_connection := Some n\<rparr>)
          in if \<not> ok then (False, s2)
             else if \<not> im_video_track s2 then (False, s2)
             else if ps_signaling_subscriber_offer_only (im_config s2) then (True, s2)
             else let (added, s3) = AddVideoSendTransceiver lib a n s2
                  in if \<not> added then (False, s3) else (True, MaybeStartOutboundStatsLoop env ks s3))"

definition push_media_options :: "('e, 'd) platform \<Rightarrow> Impl \<Rightarrow> PeerConnectionFactoryMediaOptions" where
  "push_media_options pl s =
     default_media_options\<lparr>
       mf_encoder_backend := ResolveVideoCodecBackendPreference pl (rk_use_rockchip_mpp_h264 (im_rockchip s)),
       mf_rockchip_h264_encoder_mpp_rc_cbr := (LowerCopy (ps_bitrate_mode (im_config s)) = ''cbr'')\<rparr>"

definition Initialize ::
  "rtc_lib \<Rightarrow> ('e, 'd) platform \<Rightarrow> env \<Rightarrow> KnobState \<Rightarrow> push_answers \<Rightarrow> Impl \<Rightarrow> bool \<times> Impl" where
  "Initialize lib pl env ks a s =
     (if \<not> an_ssl a then (False, s)
      else let s1 = push_event_add (PeRecreateFactory (push_media_options pl s)) s
           in if \<not> an_recreate a then (False, s1)
              else if \<not> an_factory a then (False, s1\<lparr>im_factory := False\<rparr>)
              else CreatePeerConnection lib pl env ks a (s1\<lparr>im_factory := True\<rparr>))"

section \<open>Shutdown\<close>

text \<open>\<^verbatim>\<open>ClosePeerConnectionWithDeadline\<close>: the close is issued; the caller waits for it at most 8 seconds.\<close>

definition close_opt :: "nat option \<Rightarrow> push_event list" where
  "close_opt pc = (case pc of None \<Rightarrow> [] | Some n \<Rightarrow> [PeClosePc n])"

definition Shutdown :: "Impl \<Rightarrow> Impl" where
  "Shutdown s =
     (let s1 = StopPushHealthLoop (StopOutboundStatsLoop s);
          closes = close_opt (im_receiver s1) @ close_opt (im_peer_connection s1)
                     @ map (\<lambda>kv. PeClosePc (snd kv)) (im_peer_connections s1)
      in s1\<lparr>im_frame_counter := None, im_counter_attached := False, im_camera_impl := False, im_receiver := None, im_loopback_observer := None,
            im_peer_connection := None, im_peer_connections := [], im_extra_peer_observers := [],
            im_video_track := False, im_camera_source := False, im_external_source := False, im_factory := False,
            im_events := im_events s1 @ closes @ [PeCleanupSSL]\<rparr>)"

section \<open>Offers\<close>

fun gate_polls :: "nat \<Rightarrow> nat list \<Rightarrow> bool" where
  "gate_polls need [] = False"
| "gate_polls need (got # later) = (if got \<ge> need then True else gate_polls need later)"

definition WaitForCaptureGate :: "push_answers \<Rightarrow> Impl \<Rightarrow> bool" where
  "WaitForCaptureGate a s =
     (let need = ps_capture_gate_min_frames (im_config s)
      in if need \<le> 0 \<or> im_frame_counter s = None then True else gate_polls (nat need) (an_gate_frames a))"

text \<open>The gate against the clock, in milliseconds: the \<open>i\<close>-th poll happens at \<open>clock i\<close> and reads \<open>frames i\<close>.\<close>

definition gate_max_wait_ms :: "PushStreamerCommonConfig \<Rightarrow> int" where
  "gate_max_wait_ms cfg = (let w = ps_capture_gate_max_wait_sec cfg in 1000 * (if w < 1 then 1 else w))"

partial_function (option) gate_loop :: "(nat \<Rightarrow> int) \<Rightarrow> (nat \<Rightarrow> nat) \<Rightarrow> int \<Rightarrow> nat \<Rightarrow> nat \<Rightarrow> bool option" where
  "gate_loop clock frames deadline need i =
     (if clock i < deadline
      then (if frames i \<ge> need then Some True else gate_loop clock frames deadline need (Suc i))
      else Some False)"

definition CreateOfferOnConnection :: "string \<Rightarrow> nat \<Rightarrow> Impl \<Rightarrow> Impl" where
  "CreateOfferOnConnection peer_id pc s =
     push_event_add (PeCreateOffer pc) (s\<lparr>im_pending_offers := im_pending_offers s @ [(peer_id, pc)]\<rparr>)"

definition CreateOffer :: "push_answers \<Rightarrow> Impl \<Rightarrow> Impl" where
  "CreateOffer a s =
     (if \<not> WaitForCaptureGate a s then s
      else case im_peer_connection s of None \<Rightarrow> s
           | Some pc \<Rightarrow> if \<not> an_signaling_thread a then s else CreateOfferOnConnection [] pc s)"

definition EnsurePeerConnectionForPeer ::
  "rtc_lib \<Rightarrow> env \<Rightarrow> KnobState \<Rightarrow> push_answers \<Rightarrow> string \<Rightarrow> Impl \<Rightarrow> bool \<times> Impl" where
  "EnsurePeerConnectionForPeer lib env ks a peer_id s =
     (if peer_id = [] then (im_peer_connection s \<noteq> None, s)
      else if map_of (im_peer_connections s) peer_id \<noteq> None then (True, s)
      else case CreatePcWithObserver a (ExtraPeerObserver peer_id) s of
             (None, s1) \<Rightarrow> (False, s1)
           | (Some pc, s1) \<Rightarrow>
               if \<not> im_video_track s1 then (False, s1)
               else let (added, s2) = AddVideoSendTransceiver lib a pc s1
                    in if \<not> added then (False, s2)
                       else if map_of (im_peer_connections s2) peer_id \<noteq> None then (True, s2)
                       else (True, MaybeStartOutboundStatsLoop env ks
                              (s2\<lparr>im_peer_connections := AList.update peer_id pc (im_peer_connections s2),
                                  im_extra_peer_observers := AList.update peer_id pc (im_extra_peer_observers s2)\<rparr>)))"

definition CreateOfferForPeer ::
  "rtc_lib \<Rightarrow> env \<Rightarrow> KnobState \<Rightarrow> push_answers \<Rightarrow> string \<Rightarrow> Impl \<Rightarrow> Impl" where
  "CreateOfferForPeer lib env ks a peer_id s =
     (if peer_id = [] then CreateOffer a s
      else if im_peer_connection s = None then s
      else if \<not> WaitForCaptureGate a s then s
      else if \<not> an_signaling_thread a then s
      else let (ok, s1) = EnsurePeerConnectionForPeer lib env ks a peer_id s
           in if \<not> ok then s1
              else case map_of (im_peer_connections s1) peer_id of
                     None \<Rightarrow> s1
                   | Some pc \<Rightarrow> CreateOfferOnConnection peer_id pc s1)"

definition ClosePeerForSubscriber :: "string \<Rightarrow> Impl \<Rightarrow> Impl" where
  "ClosePeerForSubscriber peer_id s =
     (if peer_id = [] then s
      else case map_of (im_peer_connections s) peer_id of
             None \<Rightarrow> s
           | Some pc \<Rightarrow>
               push_event_add (PeClosePc pc)
                 (s\<lparr>im_peer_connections := AList.delete peer_id (im_peer_connections s),
                    im_extra_peer_observers := AList.delete peer_id (im_extra_peer_observers s)\<rparr>))"

section \<open>Answers and candidates\<close>

definition target_connection :: "string \<Rightarrow> Impl \<Rightarrow> nat option" where
  "target_connection peer_id s =
     (if peer_id = [] then im_peer_connection s
      else case map_of (im_peer_connections s) peer_id of Some pc \<Rightarrow> Some pc | None \<Rightarrow> im_peer_connection s)"

definition SetRemoteDescriptionForPeer ::
  "rtc_lib \<Rightarrow> push_answers \<Rightarrow> string \<Rightarrow> string \<Rightarrow> string \<Rightarrow> Impl \<Rightarrow> Impl" where
  "SetRemoteDescriptionForPeer lib a peer_id type sdp s =
     (case target_connection peer_id s of None \<Rightarrow> s
      | Some pc \<Rightarrow> if \<not> an_signaling_thread a then s
                   else if \<not> rl_sdp_type lib type then s
                   else if \<not> rl_parse_sdp lib type sdp then s
                   else push_event_add (PeSetRemote pc type sdp) s)"

definition SetRemoteDescription :: "rtc_lib \<Rightarrow> push_answers \<Rightarrow> string \<Rightarrow> string \<Rightarrow> Impl \<Rightarrow> Impl" where
  "SetRemoteDescription lib a type sdp s = SetRemoteDescriptionForPeer lib a [] type sdp s"

definition add_candidate :: "rtc_lib \<Rightarrow> push_answers \<Rightarrow> nat \<Rightarrow> string \<Rightarrow> int \<Rightarrow> string \<Rightarrow> Impl \<Rightarrow> Impl" where
  "add_candidate lib a pc mid mline_index candidate s =
     (if \<not> an_signaling_thread a then s
      else if \<not> rl_parse_ice lib mid mline_index candidate then s
      else push_event_add (PeAddIce pc mid mline_index candidate) s)"

definition AddRemoteIceCandidateForPeer ::
  "rtc_lib \<Rightarrow> push_answers \<Rightarrow> string \<Rightarrow> string \<Rightarrow> int \<Rightarrow> string \<Rightarrow> Impl \<Rightarrow> Impl" where
  "AddRemoteIceCandidateForPeer lib a peer_id mid mline_index candidate s =
     (case target_connection peer_id s of None \<Rightarrow> s
      | Some pc \<Rightarrow> add_candidate lib a pc mid mline_index candidate s)"

definition AddRemoteIceCandidate :: "rtc_lib \<Rightarrow> push_answers \<Rightarrow> string \<Rightarrow> int \<Rightarrow> string \<Rightarrow> Impl \<Rightarrow> Impl" where
  "AddRemoteIceCandidate lib a mid mline_index candidate s = AddRemoteIceCandidateForPeer lib a [] mid mline_index candidate s"

section \<open>The loopback of the test mode\<close>

definition new_LoopbackPcObserver :: LoopbackPcObserver where
  "new_LoopbackPcObserver = \<lparr> lo_decoded_sink = None, lo_decoded_track = None, lo_registered = [] \<rparr>"

text \<open>A receiver's track is its identity and whether it carries video.\<close>

definition AttachSink :: "(nat \<times> bool) option \<Rightarrow> LoopbackPcObserver \<Rightarrow> LoopbackPcObserver" where
  "AttachSink track o1 =
     (case track of None \<Rightarrow> o1
      | Some (t, video) \<Rightarrow>
          if \<not> video then o1
          else let o2 = (if lo_decoded_sink o1 = None then o1\<lparr>lo_decoded_sink := Some 0\<rparr> else o1)
               in if lo_decoded_track o2 = Some t then o2
                  else let o3 = (case lo_decoded_track o2 of None \<Rightarrow> o2
                                 | Some old \<Rightarrow> o2\<lparr>lo_registered := removeAll old (lo_registered o2)\<rparr>)
                       in o3\<lparr>lo_decoded_track := Some t, lo_registered := t # lo_registered o3\<rparr>)"

definition Teardown :: "LoopbackPcObserver \<Rightarrow> LoopbackPcObserver" where
  "Teardown o1 =
     (let o2 = (case lo_decoded_track o1 of
                  Some t \<Rightarrow> if lo_decoded_sink o1 \<noteq> None then o1\<lparr>lo_registered := removeAll t (lo_registered o1)\<rparr> else o1
                | None \<Rightarrow> o1)
      in o2\<lparr>lo_decoded_sink := None, lo_decoded_track := None\<rparr>)"

definition GetDecodedCount :: "LoopbackPcObserver \<Rightarrow> u32" where
  "GetDecodedCount o1 = (case lo_decoded_sink o1 of None \<Rightarrow> 0 | Some n \<Rightarrow> n)"

definition decoded_OnFrame :: "LoopbackPcObserver \<Rightarrow> LoopbackPcObserver" where
  "decoded_OnFrame o1 = (case lo_decoded_sink o1 of None \<Rightarrow> o1 | Some n \<Rightarrow> o1\<lparr>lo_decoded_sink := Some (n + 1)\<rparr>)"

definition DoLoopbackExchange :: "rtc_lib \<Rightarrow> env \<Rightarrow> KnobState \<Rightarrow> push_answers \<Rightarrow> string \<Rightarrow> string \<Rightarrow> Impl \<Rightarrow> Impl" where
  "DoLoopbackExchange lib env ks a offer_type offer_sdp s =
     (if fst (ReadBool env ''RFLOW_SKIP_LOOPBACK_RECV'' ks) then s
      else let (pc, s1) = CreatePcWithObserver a LoopbackObserver (s\<lparr>im_loopback_observer := Some new_LoopbackPcObserver\<rparr>);
               s2 = s1\<lparr>im_receiver := pc\<rparr>
           in case pc of None \<Rightarrow> s2
              | Some r \<Rightarrow>
                  if \<not> an_transceiver a then s2
                  else let s3 = push_event_add (PeAddTransceiver r \<lparr> ti_direction = kRecvOnly, ti_stream_ids = [],
                                                                    ti_send_encodings = [] \<rparr>) s2
                       in if \<not> rl_sdp_type lib offer_type then s3
                          else if \<not> rl_parse_sdp lib offer_type offer_sdp then s3
                          else push_event_add (PeSetRemote r offer_type offer_sdp)
                                 (s3\<lparr>im_pending_receiver_remote := im_pending_receiver_remote s3 + 1\<rparr>))"

text \<open>The three callbacks of the receiver; a call through a null pointer is recorded as such.\<close>

definition OnReceiverRemoteDescriptionSet :: "bool \<Rightarrow> Impl \<Rightarrow> Impl" where
  "OnReceiverRemoteDescriptionSet ok s =
     (let s1 = s\<lparr>im_pending_receiver_remote := im_pending_receiver_remote s - 1\<rparr>
      in if \<not> ok then s1
         else case im_receiver s1 of None \<Rightarrow> push_event_add PeNullDereference s1
              | Some r \<Rightarrow> push_event_add (PeCreateAnswer r)
                            (s1\<lparr>im_pending_receiver_answer := im_pending_receiver_answer s1 + 1\<rparr>))"

definition on_receiver_answer :: "(string \<times> string option) option \<Rightarrow> Impl \<Rightarrow> Impl" where
  "on_receiver_answer desc s =
     (let s1 = s\<lparr>im_pending_receiver_answer := im_pending_receiver_answer s - 1\<rparr>
      in case desc of None \<Rightarrow> s1
         | Some (type, text) \<Rightarrow>
             let s2 = s1\<lparr>im_loopback_answer_sdp := [], im_loopback_answer_type := type\<rparr>
             in case text of None \<Rightarrow> s2
                | Some sdp \<Rightarrow>
                    let s3 = s2\<lparr>im_loopback_answer_sdp := sdp\<rparr>
                    in case im_receiver s3 of None \<Rightarrow> push_event_add PeNullDereference s3
                       | Some r \<Rightarrow> push_event_add (PeSetLocal r type sdp)
                                     (s3\<lparr>im_pending_receiver_local := im_pending_receiver_local s3 + 1\<rparr>))"

definition OnReceiverLocalDescriptionSet :: "rtc_lib \<Rightarrow> bool \<Rightarrow> Impl \<Rightarrow> Impl" where
  "OnReceiverLocalDescriptionSet lib ok s =
     (let s1 = s\<lparr>im_pending_receiver_local := im_pending_receiver_local s - 1\<rparr>;
          type = im_loopback_answer_type s1; sdp = im_loopback_answer_sdp s1
      in if \<not> ok then s1
         else if \<not> rl_sdp_type lib type then s1
         else if \<not> rl_parse_sdp lib type sdp then s1
         else case im_peer_connection s1 of None \<Rightarrow> push_event_add PeNullDereference s1
              | Some pc \<Rightarrow> push_event_add (PeSetRemote pc type sdp) s1)"

section \<open>Callbacks of WebRTC\<close>

definition remove_nth :: "nat \<Rightarrow> 'a list \<Rightarrow> 'a list" where
  "remove_nth i xs = take i xs @ drop (Suc i) xs"

text \<open>
  The observer of the \<open>i\<close>-th pending \<^verbatim>\<open>CreateOffer\<close>: None is a failure or a null description, a
  missing text one that could not be printed.
\<close>

definition on_offer_created :: "nat \<Rightarrow> (string \<times> string option) option \<Rightarrow> Impl \<Rightarrow> Impl" where
  "on_offer_created i desc s =
     (if i \<ge> length (im_pending_offers s) then s
      else let (peer_id, pc) = im_pending_offers s ! i;
               s1 = s\<lparr>im_pending_offers := remove_nth i (im_pending_offers s)\<rparr>
           in case desc of
                Some (type, Some sdp) \<Rightarrow>
                  push_event_add (PeSetLocal pc type sdp)
                    (s1\<lparr>im_pending_locals := im_pending_locals s1 @ [(peer_id, pc, type, sdp)]\<rparr>)
              | _ \<Rightarrow> s1)"

text \<open>The observer of the \<open>i\<close>-th pending \<^verbatim>\<open>SetLocalDescription\<close>.\<close>

definition on_local_description_set ::
  "rtc_lib \<Rightarrow> env \<Rightarrow> KnobState \<Rightarrow> push_answers \<Rightarrow> nat \<Rightarrow> bool \<Rightarrow> Impl \<Rightarrow> Impl" where
  "on_local_description_set lib env ks a i ok s =
     (if i \<ge> length (im_pending_locals s) then s
      else let (peer_id, pc, type, sdp) = im_pending_locals s ! i;
               s1 = s\<lparr>im_pending_locals := remove_nth i (im_pending_locals s)\<rparr>
           in if \<not> ok then s1
              else if ps_test_encode_mode (im_config s1) \<and> peer_id = [] then DoLoopbackExchange lib env ks a type sdp s1
              else if im_on_sdp s1 then push_event_add (PeSdp peer_id type sdp) s1
              else s1)"

definition NotifyConnectionState :: "PeerConnectionState \<Rightarrow> Impl \<Rightarrow> Impl" where
  "NotifyConnectionState st s =
     (if \<not> im_on_connection_state s then s
      else push_event_add (PeState (case st of rtc_kConnecting \<Rightarrow> Connecting | rtc_kConnected \<Rightarrow> Connected
             | rtc_kDisconnected \<Rightarrow> Disconnected | rtc_kFailed \<Rightarrow> Failed | rtc_kClosed \<Rightarrow> Closed | rtc_kNew \<Rightarrow> New)) s)"

text \<open>A local candidate is its stream, index and text; the text is missing when it cannot be printed.\<close>

definition OnPeerIceCandidate :: "string \<Rightarrow> (string \<times> int \<times> string option) option \<Rightarrow> Impl \<Rightarrow> Impl" where
  "OnPeerIceCandidate peer_id candidate s =
     (case candidate of
        Some (mid, idx, Some sdp) \<Rightarrow> if im_on_ice_candidate s then push_event_add (PeIce peer_id mid idx sdp) s else s
      | _ \<Rightarrow> s)"

definition push_OnIceCandidate ::
  "rtc_lib \<Rightarrow> push_answers \<Rightarrow> (string \<times> int \<times> string option) option \<Rightarrow> Impl \<Rightarrow> Impl" where
  "push_OnIceCandidate lib a candidate s =
     (case candidate of
        Some (mid, idx, Some sdp) \<Rightarrow>
          (case im_receiver s of
             Some r \<Rightarrow> if ps_test_encode_mode (im_config s) then add_candidate lib a r mid idx sdp s
                       else if im_on_ice_candidate s then push_event_add (PeIce [] mid idx sdp) s else s
           | None \<Rightarrow> if im_on_ice_candidate s then push_event_add (PeIce [] mid idx sdp) s else s)
      | _ \<Rightarrow> s)"

definition loopback_OnIceCandidate ::
  "rtc_lib \<Rightarrow> push_answers \<Rightarrow> (string \<times> int \<times> string option) option \<Rightarrow> Impl \<Rightarrow> Impl" where
  "loopback_OnIceCandidate lib a candidate s =
     (case candidate of
        Some (mid, idx, Some sdp) \<Rightarrow>
          (case im_peer_connection s of None \<Rightarrow> s | Some pc \<Rightarrow> add_candidate lib a pc mid idx sdp s)
      | _ \<Rightarrow> s)"

section \<open>The public interface\<close>

definition SetOnSdp :: "Impl \<Rightarrow> Impl" where "SetOnSdp s = s\<lparr>im_on_sdp := True\<rparr>"
definition SetOnIceCandidate :: "Impl \<Rightarrow> Impl" where "SetOnIceCandidate s = s\<lparr>im_on_ice_candidate := True\<rparr>"
definition SetOnConnectionState :: "Impl \<Rightarrow> Impl" where "SetOnConnectionState s = s\<lparr>im_on_connection_state := True\<rparr>"

definition SetOnFrame :: "Impl \<Rightarrow> Impl" where
  "SetOnFrame s = s\<lparr>im_on_frame := True, im_frame_counter := Some 0, im_counter_attached := im_camera_source s\<rparr>"

text \<open>A frame the source delivers, and the frame count; \<open>captured\<close> is what the camera itself counted.\<close>

definition source_OnFrame :: "Impl \<Rightarrow> Impl" where
  "source_OnFrame s =
     (if im_counter_attached s then s\<lparr>im_frame_counter := map_option (\<lambda>n. n + 1) (im_frame_counter s)\<rparr> else s)"

definition EffectiveCaptureFrameCount :: "u32 \<Rightarrow> Impl \<Rightarrow> u32" where
  "EffectiveCaptureFrameCount captured s =
     (let n = (case im_frame_counter s of None \<Rightarrow> 0 | Some n \<Rightarrow> n)
      in if im_camera_impl s then max n captured else n)"

definition push_Start ::
  "rtc_lib \<Rightarrow> ('e, 'd) platform \<Rightarrow> env \<Rightarrow> KnobState \<Rightarrow> push_answers \<Rightarrow> Impl \<Rightarrow> bool \<times> Impl" where
  "push_Start lib pl env ks a s =
     (if im_is_streaming s then (True, s)
      else let (ok, s1) = Initialize lib pl env ks a s
           in if \<not> ok then (False, s1)
              else let s2 = (if \<not> ps_test_capture_only (im_config s1) \<and> \<not> ps_signaling_subscriber_offer_only (im_config s1)
                             then CreateOffer a s1 else s1)
                   in (True, s2\<lparr>im_is_streaming := True\<rparr>))"

definition push_Stop :: "Impl \<Rightarrow> Impl" where
  "push_Stop s = (if \<not> im_is_streaming s then s else Shutdown (s\<lparr>im_is_streaming := False\<rparr>))"

text \<open>Everything that can happen to a streamer: the calls of its owner, of the thread pool and of WebRTC.\<close>

datatype push_input =
    InSetCallbacks bool bool bool
  | InSetOnFrame
  | InStart env KnobState push_answers
  | InStop
  | InCreateOffer env KnobState push_answers string
  | InClosePeer string
  | InSetRemote push_answers string string string
  | InAddIce push_answers string string int string
  | InFrame
  | InStatsTask | InStatsDelayed | InHealthTask | InHealthDelayed
  | InOfferCreated nat "(string \<times> string option) option"
  | InLocalSet env KnobState push_answers nat bool
  | InReceiverRemoteSet bool
  | InReceiverAnswer "(string \<times> string option) option"
  | InReceiverLocalSet bool
  | InLocalCandidate push_answers pc_observer "(string \<times> int \<times> string option) option"
  | InConnectionState PeerConnectionState

definition push_step :: "rtc_lib \<Rightarrow> ('e, 'd) platform \<Rightarrow> push_input \<Rightarrow> Impl \<Rightarrow> Impl" where
  "push_step lib pl i s =
     (case i of
        InSetCallbacks sdp ice st \<Rightarrow>
          (let s1 = (if sdp then SetOnSdp s else s); s2 = (if ice then SetOnIceCandidate s1 else s1)
           in if st then SetOnConnectionState s2 else s2)
      | InSetOnFrame \<Rightarrow> SetOnFrame s
      | InStart env ks a \<Rightarrow> snd (push_Start lib pl env ks a s)
      | InStop \<Rightarrow> push_Stop s
      | InCreateOffer env ks a peer \<Rightarrow> CreateOfferForPeer lib env ks a peer s
      | InClosePeer peer \<Rightarrow> ClosePeerForSubscriber peer s
      | InSetRemote a peer type sdp \<Rightarrow> SetRemoteDescriptionForPeer lib a peer type sdp s
      | InAddIce a peer mid idx cand \<Rightarrow> AddRemoteIceCandidateForPeer lib a peer mid idx cand s
      | InFrame \<Rightarrow> source_OnFrame s
      | InStatsTask \<Rightarrow> ScheduleOutboundStatsTick_task s
      | InStatsDelayed \<Rightarrow> ScheduleOutboundStatsTick_delayed s
      | InHealthTask \<Rightarrow> SchedulePushHealthTick_task s
      | InHealthDelayed \<Rightarrow> SchedulePushHealthTick_delayed s
      | InOfferCreated k desc \<Rightarrow> on_offer_created k desc s
      | InLocalSet env ks a k ok \<Rightarrow> on_local_description_set lib env ks a k ok s
      | InReceiverRemoteSet ok \<Rightarrow> OnReceiverRemoteDescriptionSet ok s
      | InReceiverAnswer desc \<Rightarrow> on_receiver_answer desc s
      | InReceiverLocalSet ok \<Rightarrow> OnReceiverLocalDescriptionSet lib ok s
      | InLocalCandidate a obs cand \<Rightarrow>
          (case obs of DefaultObserver \<Rightarrow> push_OnIceCandidate lib a cand s
           | ExtraPeerObserver peer \<Rightarrow> OnPeerIceCandidate peer cand s
           | LoopbackObserver \<Rightarrow> loopback_OnIceCandidate lib a cand s)
      | InConnectionState st \<Rightarrow> NotifyConnectionState st s)"

text \<open>Which inputs can occur: a task or a callback only when it is owed.\<close>

definition push_enabled :: "push_input \<Rightarrow> Impl \<Rightarrow> bool" where
  "push_enabled i s =
     (case i of
        InStatsTask \<Rightarrow> tl_posted (im_outbound_stats s) > 0
      | InStatsDelayed \<Rightarrow> tl_delayed (im_outbound_stats s) > 0
      | InHealthTask \<Rightarrow> tl_posted (im_push_health s) > 0
      | InHealthDelayed \<Rightarrow> tl_delayed (im_push_health s) > 0
      | InOfferCreated k _ \<Rightarrow> k < length (im_pending_offers s)
      | InLocalSet _ _ _ k _ \<Rightarrow> k < length (im_pending_locals s)
      | InReceiverRemoteSet _ \<Rightarrow> im_pending_receiver_remote s > 0
      | InReceiverAnswer _ \<Rightarrow> im_pending_receiver_answer s > 0
      | InReceiverLocalSet _ \<Rightarrow> im_pending_receiver_local s > 0
      | InLocalCandidate _ (ExtraPeerObserver peer) _ \<Rightarrow> map_of (im_extra_peer_observers s) peer \<noteq> None
      | _ \<Rightarrow> True)"

inductive push_reachable :: "rtc_lib \<Rightarrow> ('e, 'd) platform \<Rightarrow> Impl \<Rightarrow> bool"
  for lib :: rtc_lib and pl :: "('e, 'd) platform" where
  create: "push_reachable lib pl (new_PushStreamer common backend rk)"
| step: "push_reachable lib pl s \<Longrightarrow> push_enabled i s \<Longrightarrow> push_reachable lib pl (push_step lib pl i s)"

section \<open>A small run\<close>

text \<open>WebRTC accepting everything, and a streamer with an external source that serves two subscribers.\<close>

definition demo_lib :: rtc_lib where
  "demo_lib = \<lparr> rl_codecs = \<lparr> lib_mime_type = (\<lambda>c. ''video/'' @ rc_name c), lib_IsMediaCodec = (\<lambda>c. rc_name c \<noteq> ''rtx''),
       lib_ParseSdpForH264ProfileLevelId = (\<lambda>ps. None) \<rparr>,
     rl_sdp_type = (\<lambda>t. t = ''offer'' \<or> t = ''answer''), rl_parse_sdp = (\<lambda>t d. d \<noteq> []), rl_parse_ice = (\<lambda>m i c. c \<noteq> []) \<rparr>"

definition demo_push_answers :: push_answers where
  "demo_push_answers = \<lparr> an_ssl = True, an_recreate = True, an_factory = True, an_pc = True, an_track = True,
     an_transceiver = True, an_sender = True, an_set_parameters = True, an_set_bitrate = True, an_signaling_thread = True,
     an_sender_codecs = [], an_transceivers = [], an_capture = \<lparr> ce_devices = (\<lambda>_. None), ce_access_rw = (\<lambda>_. False),
       ce_device_info = None \<rparr>, an_concurrent_mpp = False, an_camera_start = False, an_negotiated_fps = None,
     an_gate_frames = [] \<rparr>"

definition push_demo_env :: env where "push_demo_env = (\<lambda>_. None)"

definition demo_streamer :: Impl where
  "demo_streamer = new_PushStreamer
     (push_common_init\<lparr>ps_use_external_video_source := True, ps_signaling_subscriber_offer_only := True\<rparr>)
     push_backend_init (rockchip_backend_init demo_platform)"

definition demo_inputs :: "push_input list" where
  "demo_inputs =
     [InSetCallbacks True True True, InStart push_demo_env no_warnings demo_push_answers,
      InCreateOffer push_demo_env no_warnings demo_push_answers ''s1'',
      InCreateOffer push_demo_env no_warnings demo_push_answers ''s2'',
      InOfferCreated 1 (Some (''offer'', Some ''sdp-two'')), InOfferCreated 0 (Some (''offer'', Some ''sdp-one'')),
      InLocalSet push_demo_env no_warnings demo_push_answers 1 True,
      InLocalSet push_demo_env no_warnings demo_push_answers 0 True]"

fun run_push_inputs :: "rtc_lib \<Rightarrow> ('e, 'd) platform \<Rightarrow> push_input list \<Rightarrow> Impl \<Rightarrow> Impl option" where
  "run_push_inputs lib pl [] s = Some s"
| "run_push_inputs lib pl (i # is) s = (if push_enabled i s then run_push_inputs lib pl is (push_step lib pl i s) else None)"

section \<open>The invariant\<close>

definition observer_of :: "string \<Rightarrow> pc_observer" where
  "observer_of peer = (if peer = [] then DefaultObserver else ExtraPeerObserver peer)"

definition created_of :: "push_event \<Rightarrow> (nat \<times> pc_observer) option" where
  "created_of e = (case e of PeCreatePc n obs _ \<Rightarrow> Some (n, obs) | _ \<Rightarrow> None)"

definition closed_of :: "push_event \<Rightarrow> nat option" where
  "closed_of e = (case e of PeClosePc n \<Rightarrow> Some n | _ \<Rightarrow> None)"

text \<open>The connections made, each with its observer, and the connections closed, in order.\<close>

definition created_log :: "Impl \<Rightarrow> (nat \<times> pc_observer) list" where
  "created_log s = List.map_filter created_of (im_events s)"

definition closed_log :: "Impl \<Rightarrow> nat list" where
  "closed_log s = List.map_filter closed_of (im_events s)"

definition opt_list :: "'a option \<Rightarrow> 'a list" where
  "opt_list x = (case x of None \<Rightarrow> [] | Some y \<Rightarrow> [y])"

text \<open>The connections the streamer holds.\<close>

definition owned_connections :: "Impl \<Rightarrow> nat list" where
  "owned_connections s = opt_list (im_receiver s) @ opt_list (im_peer_connection s) @ map snd (im_peer_connections s)"

definition owners_ok :: "Impl \<Rightarrow> bool" where
  "owners_ok s \<longleftrightarrow>
     (\<forall>n. im_receiver s = Some n \<longrightarrow> (n, LoopbackObserver) \<in> set (created_log s)) \<and>
     (\<forall>n. im_peer_connection s = Some n \<longrightarrow> (n, DefaultObserver) \<in> set (created_log s)) \<and>
     (\<forall>(p, n) \<in> set (im_peer_connections s). (n, ExtraPeerObserver p) \<in> set (created_log s))"

definition offers_ok :: "Impl \<Rightarrow> bool" where
  "offers_ok s \<longleftrightarrow>
     (\<forall>(p, n) \<in> set (im_pending_offers s). (n, observer_of p) \<in> set (created_log s)) \<and>
     (\<forall>(p, n, t, d) \<in> set (im_pending_locals s).
        (n, observer_of p) \<in> set (created_log s) \<and> PeSetLocal n t d \<in> set (im_events s)) \<and>
     (\<forall>p t d. PeSdp p t d \<in> set (im_events s) \<longrightarrow>
        (\<exists>n. (n, observer_of p) \<in> set (created_log s) \<and> PeSetLocal n t d \<in> set (im_events s)))"

definition streamer_ok :: "Impl \<Rightarrow> bool" where
  "streamer_ok s \<longleftrightarrow>
     map fst (created_log s) = [0..<im_pc_count s] \<and>
     distinct (keys (im_peer_connections s)) \<and> [] \<notin> set (keys (im_peer_connections s)) \<and>
     im_extra_peer_observers s = im_peer_connections s \<and>
     (im_peer_connections s \<noteq> [] \<longrightarrow> im_peer_connection s \<noteq> None) \<and>
     owners_ok s \<and> offers_ok s \<and>
     distinct (closed_log s) \<and> set (closed_log s) \<subseteq> {..<im_pc_count s} \<and> set (closed_log s) \<inter> set (owned_connections s) = {}"

text \<open>
  Steps that touch none of this: the connections and pending observers stay, and the events they add
  neither create nor close a connection nor send an offer.
\<close>

definition harmless :: "push_event \<Rightarrow> bool" where
  "harmless e = (case e of PeCreatePc _ _ _ \<Rightarrow> False | PeClosePc _ \<Rightarrow> False | PeSdp _ _ _ \<Rightarrow> False | _ \<Rightarrow> True)"

definition same_connections :: "Impl \<Rightarrow> Impl \<Rightarrow> bool" where
  "same_connections s s' \<longleftrightarrow> im_receiver s' = im_receiver s \<and> im_peer_connection s' = im_peer_connection s \<and>
     im_peer_connections s' = im_peer_connections s \<and> im_extra_peer_observers s' = im_extra_peer_observers s \<and>
     im_pending_offers s' = im_pending_offers s \<and> im_pending_locals s' = im_pending_locals s \<and>
     im_pc_count s' = im_pc_count s"

definition quiet_step :: "Impl \<Rightarrow> Impl \<Rightarrow> bool" where
  "quiet_step s s' \<longleftrightarrow> same_connections s s' \<and> (\<exists>es. im_events s' = im_events s @ es \<and> list_all harmless es)"

lemma quiet_step_refl [simp]: "quiet_step s s"
  by (simp add: quiet_step_def same_connections_def)

lemma quiet_step_trans [trans]: "quiet_step s s1 \<Longrightarrow> quiet_step s1 s2 \<Longrightarrow> quiet_step s s2"
  by (auto simp: quiet_step_def same_connections_def)

lemma quiet_event [simp]: "harmless e \<Longrightarrow> quiet_step s (push_event_add e s) = True"
  by (simp add: quiet_step_def same_connections_def push_event_add_def)

lemma quiet_event_trans: "quiet_step s s1 \<Longrightarrow> harmless e \<Longrightarrow> quiet_step s (push_event_add e s1)"
  using quiet_event quiet_step_trans by blast

lemma harmless_simps [simp]:
  "harmless (PeRecreateFactory mo)" "harmless (PeAddTransceiver n ti)" "harmless (PeCodecPreferences n cs)"
  "harmless (PeSetDegradation n d)" "harmless (PeSetBitrate n b)" "harmless (PeCreateOffer n)" "harmless (PeSetLocal n t sdp)"
  "harmless (PeSetRemote n t sdp)" "harmless (PeCreateAnswer n)" "harmless (PeAddIce n m i c)" "harmless (PeIce p m i c)"
  "harmless (PeState st)" "harmless (PeGetStats n t)" "harmless PeHealthWithoutReport" "harmless (PeStartCamera u w h f mpp)"
  "harmless PeNullDereference" "harmless PeCleanupSSL"
  by (simp_all add: harmless_def)

lemma quiet_logs:
  assumes "quiet_step s s'"
  shows "created_log s' = created_log s" and "closed_log s' = closed_log s" and "owned_connections s' = owned_connections s"
proof -
  have "List.map_filter created_of es = []" "List.map_filter closed_of es = []" if "list_all harmless es" for es
    using that by (induction es) (auto simp: harmless_def created_of_def closed_of_def map_filter_def split: push_event.splits)
  then show "created_log s' = created_log s" and "closed_log s' = closed_log s"
    using assms by (auto simp: quiet_step_def created_log_def closed_log_def map_filter_def)
  show "owned_connections s' = owned_connections s" using assms by (simp add: quiet_step_def same_connections_def owned_connections_def)
qed

lemma quiet_sdp:
  assumes "quiet_step s s'"
  shows "PeSdp p t d \<in> set (im_events s') \<longleftrightarrow> PeSdp p t d \<in> set (im_events s)"
    and "PeSetLocal n t d \<in> set (im_events s) \<Longrightarrow> PeSetLocal n t d \<in> set (im_events s')"
  using assms by (auto simp: quiet_step_def harmless_def list_all_iff dest!: bspec)

lemma offers_ok_mono:
  assumes "offers_ok s" and "set (im_pending_offers s') \<subseteq> set (im_pending_offers s)"
    and "set (im_pending_locals s') \<subseteq> set (im_pending_locals s)"
    and "set (created_log s) \<subseteq> set (created_log s')"
    and "\<forall>n t d. PeSetLocal n t d \<in> set (im_events s) \<longrightarrow> PeSetLocal n t d \<in> set (im_events s')"
    and "\<forall>p t d. PeSdp p t d \<in> set (im_events s') \<longrightarrow> PeSdp p t d \<in> set (im_events s)"
  shows "offers_ok s'"
proof -
  have "\<forall>(p, n) \<in> set (im_pending_offers s'). (n, observer_of p) \<in> set (created_log s')"
    using assms(1,2,4) unfolding offers_ok_def by blast
  moreover have "\<forall>(p, n, t, d) \<in> set (im_pending_locals s').
      (n, observer_of p) \<in> set (created_log s') \<and> PeSetLocal n t d \<in> set (im_events s')"
    using assms(1,3,4,5) unfolding offers_ok_def by blast
  moreover have "\<exists>n. (n, observer_of p) \<in> set (created_log s') \<and> PeSetLocal n t d \<in> set (im_events s')"
    if "PeSdp p t d \<in> set (im_events s')" for p t d
    using that assms(1,4,5,6) unfolding offers_ok_def by blast
  ultimately show ?thesis by (simp add: offers_ok_def)
qed

lemma quiet_ok:
  assumes "quiet_step s s'" and "streamer_ok s"
  shows "streamer_ok s'"
proof -
  have "offers_ok s'"
  proof (rule offers_ok_mono [of s])
    show "offers_ok s" using assms(2) by (simp add: streamer_ok_def)
    show "set (im_pending_offers s') \<subseteq> set (im_pending_offers s)"
      and "set (im_pending_locals s') \<subseteq> set (im_pending_locals s)"
      using assms(1) by (simp_all add: quiet_step_def same_connections_def)
    show "set (created_log s) \<subseteq> set (created_log s')" using quiet_logs(1) [OF assms(1)] by simp
  qed (use quiet_sdp [OF assms(1)] in blast)+
  then show ?thesis
    using assms quiet_logs [OF assms(1)]
    by (simp add: streamer_ok_def owners_ok_def) (simp add: quiet_step_def same_connections_def)
qed

lemmas quiet_simps = quiet_step_def same_connections_def push_event_add_def harmless_def

lemma quiet_update [simp]:
  "quiet_step s0 (s\<lparr>im_factory := b\<rparr>) = quiet_step s0 s" "quiet_step s0 (s\<lparr>im_video_track := b\<rparr>) = quiet_step s0 s"
  "quiet_step s0 (s\<lparr>im_camera_source := b\<rparr>) = quiet_step s0 s" "quiet_step s0 (s\<lparr>im_camera_impl := b\<rparr>) = quiet_step s0 s"
  "quiet_step s0 (s\<lparr>im_external_source := b\<rparr>) = quiet_step s0 s" "quiet_step s0 (s\<lparr>im_on_sdp := b\<rparr>) = quiet_step s0 s"
  "quiet_step s0 (s\<lparr>im_on_ice_candidate := b\<rparr>) = quiet_step s0 s" "quiet_step s0 (s\<lparr>im_on_connection_state := b\<rparr>) = quiet_step s0 s"
  "quiet_step s0 (s\<lparr>im_on_frame := b\<rparr>) = quiet_step s0 s" "quiet_step s0 (s\<lparr>im_frame_counter := c\<rparr>) = quiet_step s0 s"
  "quiet_step s0 (s\<lparr>im_counter_attached := b\<rparr>) = quiet_step s0 s" "quiet_step s0 (s\<lparr>im_loopback_observer := l\<rparr>) = quiet_step s0 s"
  "quiet_step s0 (s\<lparr>im_loopback_answer_type := t\<rparr>) = quiet_step s0 s" "quiet_step s0 (s\<lparr>im_loopback_answer_sdp := t\<rparr>) = quiet_step s0 s"
  "quiet_step s0 (s\<lparr>im_outbound_stats := tk\<rparr>) = quiet_step s0 s" "quiet_step s0 (s\<lparr>im_push_health := tk\<rparr>) = quiet_step s0 s"
  "quiet_step s0 (s\<lparr>im_pending_receiver_remote := k\<rparr>) = quiet_step s0 s" "quiet_step s0 (s\<lparr>im_pending_receiver_answer := k\<rparr>) = quiet_step s0 s"
  "quiet_step s0 (s\<lparr>im_pending_receiver_local := k\<rparr>) = quiet_step s0 s" "quiet_step s0 (s\<lparr>im_is_streaming := b\<rparr>) = quiet_step s0 s"
  "quiet_step s0 (s\<lparr>im_config := cf\<rparr>) = quiet_step s0 s"
  by (simp_all add: quiet_step_def same_connections_def)

lemma quiet_add [simp]: "harmless e \<Longrightarrow> quiet_step s0 s \<Longrightarrow> quiet_step s0 (push_event_add e s)"
  by (rule quiet_event_trans)

lemma quiet_sender:
  "quiet_step s (ApplyVideoCodecPreferences lib a pc s)"
  "ApplySenderDegradationAndCallBitrate a pc s = (ok, s') \<Longrightarrow> quiet_step s s'"
  by (auto simp: ApplyVideoCodecPreferences_def ApplySenderDegradationAndCallBitrate_def Let_def split: if_splits)

lemma quiet_AddVideoSendTransceiver:
  assumes "AddVideoSendTransceiver lib a pc s = (ok, s')"
  shows "quiet_step s s'"
proof -
  let ?s1 = "push_event_add (PeAddTransceiver pc (BuildVideoSendTransceiverInit (im_config s))) s"
  have "quiet_step s (ApplyVideoCodecPreferences lib a pc ?s1)"
    using quiet_sender(1) [of ?s1 lib a pc] quiet_step_trans [of s ?s1] by simp
  then show ?thesis using assms quiet_sender(2) [of a pc "ApplyVideoCodecPreferences lib a pc ?s1" ok s']
    by (auto simp: AddVideoSendTransceiver_def intro: quiet_step_trans split: if_splits)
qed

lemma quiet_loops [simp]:
  "quiet_step s0 (MaybeStartOutboundStatsLoop env ks s) = quiet_step s0 s" "quiet_step s0 (MaybeStartPushHealthLoop env ks s) = quiet_step s0 s"
  "quiet_step s0 (StopOutboundStatsLoop s) = quiet_step s0 s" "quiet_step s0 (StopPushHealthLoop s) = quiet_step s0 s"
  by (simp_all add: MaybeStartOutboundStatsLoop_def MaybeStartPushHealthLoop_def StopOutboundStatsLoop_def
      StopPushHealthLoop_def)

lemma quiet_attach [simp]: "quiet_step s0 (attach_frame_counter s) = quiet_step s0 s"
  by (simp add: attach_frame_counter_def split: option.split)

lemma quiet_CreateMediaTracks:
  "CreateMediaTracks pl env ks a s = (ok, s') \<Longrightarrow> quiet_step s s'"
  by (auto simp: CreateMediaTracks_def CreateMediaTracksExternal_def Let_def split: if_splits option.splits)

lemma quiet_ticks:
  "quiet_step s (ScheduleOutboundStatsTick_task s)" "quiet_step s (ScheduleOutboundStatsTick_delayed s)"
  "quiet_step s (SchedulePushHealthTick_task s)" "quiet_step s (SchedulePushHealthTick_delayed s)"
  by (auto simp: ScheduleOutboundStatsTick_task_def ScheduleOutboundStatsTick_delayed_def SchedulePushHealthTick_task_def
      SchedulePushHealthTick_delayed_def Let_def split: prod.split option.split)

lemma quiet_remote:
  "quiet_step s (SetRemoteDescriptionForPeer lib a peer type sdp s)" "quiet_step s (add_candidate lib a pc mid idx cand s)"
  "quiet_step s (AddRemoteIceCandidateForPeer lib a peer mid idx cand s)"
  by (simp_all add: SetRemoteDescriptionForPeer_def AddRemoteIceCandidateForPeer_def add_candidate_def split: option.split)

lemma quiet_receiver:
  "quiet_step s (OnReceiverRemoteDescriptionSet ok s)" "quiet_step s (on_receiver_answer desc s)"
  "quiet_step s (OnReceiverLocalDescriptionSet lib ok s)"
  by (auto simp: OnReceiverRemoteDescriptionSet_def on_receiver_answer_def OnReceiverLocalDescriptionSet_def Let_def
      split: option.split prod.split)

lemma quiet_notifications:
  "quiet_step s (NotifyConnectionState st s)" "quiet_step s (OnPeerIceCandidate peer cand s)" "quiet_step s (push_OnIceCandidate lib a cand s)"
  "quiet_step s (loopback_OnIceCandidate lib a cand s)" "quiet_step s (source_OnFrame s)" "quiet_step s (SetOnFrame s)"
  by (auto simp: NotifyConnectionState_def OnPeerIceCandidate_def push_OnIceCandidate_def loopback_OnIceCandidate_def
      source_OnFrame_def SetOnFrame_def quiet_remote split: option.split prod.split)

lemma quiet_setters:
  "quiet_step s0 (SetOnSdp s) = quiet_step s0 s" "quiet_step s0 (SetOnIceCandidate s) = quiet_step s0 s"
  "quiet_step s0 (SetOnConnectionState s) = quiet_step s0 s"
  by (simp_all add: SetOnSdp_def SetOnIceCandidate_def SetOnConnectionState_def)

section \<open>Steps that change the connections\<close>

lemma created_log_add: "created_log (push_event_add e s) = created_log s @ opt_list (created_of e)"
  by (simp add: created_log_def push_event_add_def map_filter_def opt_list_def split: option.split)

lemma closed_log_add: "closed_log (push_event_add e s) = closed_log s @ opt_list (closed_of e)"
  by (simp add: closed_log_def push_event_add_def map_filter_def opt_list_def split: option.split)

text \<open>The invariant depends on nothing but the connections, the pending observers and the events.\<close>

lemma streamer_ok_cong:
  assumes "same_connections s s'" and "im_events s' = im_events s"
  shows "streamer_ok s' = streamer_ok s"
proof -
  have "quiet_step s s'" "quiet_step s' s" using assms by (auto simp: quiet_step_def same_connections_def)
  then show ?thesis using quiet_ok by blast
qed

lemma create_pc_ok:
  assumes "streamer_ok s" and "CreatePcWithObserver a obs s = (Some n, s')"
  shows "streamer_ok s'" and "(n, obs) \<in> set (created_log s')" and "n \<notin> set (closed_log s')"
    and "n = im_pc_count s"
    and "im_receiver s' = im_receiver s" and "im_peer_connection s' = im_peer_connection s"
    and "im_peer_connections s' = im_peer_connections s"
proof -
  let ?c = "s\<lparr>im_pc_count := Suc n\<rparr>"
  have eq: "s' = push_event_add (PeCreatePc n obs (MakeRtcConfiguration (im_config s))) ?c" and n: "n = im_pc_count s"
    using assms(2) by (auto simp: CreatePcWithObserver_def Let_def split: if_splits)
  have cl: "closed_log s' = closed_log s"
    unfolding eq closed_log_add by (simp add: closed_log_def closed_of_def opt_list_def)
  have cr: "created_log s' = created_log s @ [(n, obs)]"
    unfolding eq created_log_add by (simp add: created_log_def created_of_def opt_list_def)
  show "(n, obs) \<in> set (created_log s')" using cr by simp
  show "n \<notin> set (closed_log s')" using cl n assms(1) by (auto simp: streamer_ok_def)
  show "n = im_pc_count s" by (rule n)
  have own: "owned_connections s' = owned_connections s" by (simp add: eq owned_connections_def push_event_add_def)
  have ev: "im_events s' = im_events s @ [PeCreatePc n obs (MakeRtcConfiguration (im_config s))]"
    by (simp add: eq push_event_add_def)
  have "owners_ok s'" using assms(1) cr unfolding streamer_ok_def owners_ok_def
    by (auto simp: eq push_event_add_def)
  moreover have "offers_ok s'"
    by (rule offers_ok_mono [of s]) (use assms(1) cr ev in \<open>auto simp: streamer_ok_def eq push_event_add_def\<close>)
  ultimately show "streamer_ok s'"
    using assms(1) cr cl own n unfolding streamer_ok_def
    by (auto simp: eq push_event_add_def)
qed (use assms(2) in \<open>auto simp: CreatePcWithObserver_def Let_def push_event_add_def split: if_splits\<close>)

lemma create_pc_none: "CreatePcWithObserver a obs s = (None, s') \<Longrightarrow> s' = s"
  by (simp add: CreatePcWithObserver_def Let_def split: if_splits)

lemma logs_update [simp]:
  "created_log (s\<lparr>im_peer_connection := x\<rparr>) = created_log s" "closed_log (s\<lparr>im_peer_connection := x\<rparr>) = closed_log s"
  "created_log (s\<lparr>im_receiver := x\<rparr>) = created_log s" "closed_log (s\<lparr>im_receiver := x\<rparr>) = closed_log s"
  "created_log (s\<lparr>im_peer_connections := ps\<rparr>) = created_log s" "closed_log (s\<lparr>im_peer_connections := ps\<rparr>) = closed_log s"
  "created_log (s\<lparr>im_extra_peer_observers := ps\<rparr>) = created_log s"
  "closed_log (s\<lparr>im_extra_peer_observers := ps\<rparr>) = closed_log s"
  "created_log (s\<lparr>im_pending_offers := os\<rparr>) = created_log s" "closed_log (s\<lparr>im_pending_offers := os\<rparr>) = closed_log s"
  "created_log (s\<lparr>im_pending_locals := ls\<rparr>) = created_log s" "closed_log (s\<lparr>im_pending_locals := ls\<rparr>) = closed_log s"
  by (simp_all add: created_log_def closed_log_def)

lemma set_default_ok:
  assumes "streamer_ok s" and "(n, DefaultObserver) \<in> set (created_log s)" and "n \<notin> set (closed_log s)"
  shows "streamer_ok (s\<lparr>im_peer_connection := Some n\<rparr>)"
  using assms by (auto simp: streamer_ok_def owners_ok_def offers_ok_def owned_connections_def opt_list_def)

lemma set_receiver_ok:
  assumes "streamer_ok s"
    and "\<forall>n. pc = Some n \<longrightarrow> (n, LoopbackObserver) \<in> set (created_log s) \<and> n \<notin> set (closed_log s)"
  shows "streamer_ok (s\<lparr>im_receiver := pc\<rparr>)"
  using assms by (auto simp: streamer_ok_def owners_ok_def offers_ok_def owned_connections_def opt_list_def split: option.splits)

lemma update_absent: "k \<notin> set (keys m) \<Longrightarrow> AList.update k v m = m @ [(k, v)]"
  by (induction m) auto

lemma add_peer_ok:
  assumes "streamer_ok s" and "peer \<noteq> []" and "map_of (im_peer_connections s) peer = None"
    and "im_peer_connection s \<noteq> None"
    and "(n, ExtraPeerObserver peer) \<in> set (created_log s)" and "n \<notin> set (closed_log s)"
  shows "streamer_ok (s\<lparr>im_peer_connections := AList.update peer n (im_peer_connections s),
                        im_extra_peer_observers := AList.update peer n (im_extra_peer_observers s)\<rparr>)"
proof -
  have "peer \<notin> set (keys (im_peer_connections s))" using assms(3) by (simp add: map_of_eq_None_iff)
  then have "AList.update peer n (im_peer_connections s) = im_peer_connections s @ [(peer, n)]"
    by (rule update_absent)
  then show ?thesis using assms
    by (auto simp: streamer_ok_def owners_ok_def offers_ok_def owned_connections_def map_of_eq_None_iff)
qed

lemma add_offer_ok:
  assumes "streamer_ok s" and "(n, observer_of peer) \<in> set (created_log s)"
  shows "streamer_ok (CreateOfferOnConnection peer n s)"
proof -
  let ?s1 = "s\<lparr>im_pending_offers := im_pending_offers s @ [(peer, n)]\<rparr>"
  have "streamer_ok ?s1" using assms by (auto simp: streamer_ok_def owners_ok_def offers_ok_def owned_connections_def)
  then show ?thesis unfolding CreateOfferOnConnection_def using quiet_ok [OF _ \<open>streamer_ok ?s1\<close>] by simp
qed

lemma CreatePeerConnection_ok:
  assumes "streamer_ok s" and "CreatePeerConnection lib pl env ks a s = (ok, s')"
  shows "streamer_ok s'"
proof (cases "CreatePcWithObserver a DefaultObserver s")
  case (Pair pc s1)
  show ?thesis
  proof (cases pc)
    case None
    then show ?thesis using Pair assms create_pc_none by (auto simp: CreatePeerConnection_def)
  next
    case (Some n)
    note c = create_pc_ok [OF assms(1) Pair [unfolded Some]]
    let ?s2 = "s1\<lparr>im_peer_connection := Some n\<rparr>"
    have ok2: "streamer_ok ?s2" by (rule set_default_ok [OF c(1-3)])
    obtain ok3 s3 where m: "CreateMediaTracks pl env ks a ?s2 = (ok3, s3)" by fastforce
    obtain ok4 s4 where t: "AddVideoSendTransceiver lib a n s3 = (ok4, s4)" by fastforce
    have "quiet_step ?s2 s3" by (rule quiet_CreateMediaTracks [OF m])
    moreover have "quiet_step s3 s4" by (rule quiet_AddVideoSendTransceiver [OF t])
    moreover have "s' = s3 \<or> s' = s4 \<or> s' = MaybeStartOutboundStatsLoop env ks s4"
      using assms(2) Pair Some m t by (auto simp: CreatePeerConnection_def Let_def split: if_splits)
    ultimately have "quiet_step ?s2 s'" by (auto intro: quiet_step_trans)
    then show ?thesis using ok2 by (rule quiet_ok)
  qed
qed

lemma Initialize_ok:
  assumes "streamer_ok s" and "Initialize lib pl env ks a s = (ok, s')"
  shows "streamer_ok s'"
proof -
  let ?s1 = "push_event_add (PeRecreateFactory (push_media_options pl s)) s"
  have "streamer_ok ?s1" "streamer_ok (?s1\<lparr>im_factory := False\<rparr>)" "streamer_ok (?s1\<lparr>im_factory := True\<rparr>)"
    by (rule quiet_ok [OF _ assms(1)], simp)+
  then show ?thesis using assms CreatePeerConnection_ok
    by (auto simp: Initialize_def Let_def split: if_splits)
qed

lemma CreateOffer_ok:
  assumes "streamer_ok s"
  shows "streamer_ok (CreateOffer a s)"
  using assms add_offer_ok [of s _ "[]"]
  by (auto simp: CreateOffer_def streamer_ok_def owners_ok_def observer_of_def split: option.split)

lemma push_Start_ok:
  assumes "streamer_ok s"
  shows "streamer_ok (snd (push_Start lib pl env ks a s))"
proof (cases "im_is_streaming s")
  case False
  obtain ok s1 where i: "Initialize lib pl env ks a s = (ok, s1)" by fastforce
  have s1: "streamer_ok s1" by (rule Initialize_ok [OF assms i])
  have "streamer_ok (x\<lparr>im_is_streaming := True\<rparr>)" if "streamer_ok x" for x
    by (rule quiet_ok [OF _ that]) simp
  then show ?thesis using False i s1 CreateOffer_ok [OF s1, of a] by (simp add: push_Start_def Let_def)
qed (use assms in \<open>simp add: push_Start_def\<close>)

lemma Ensure_ok:
  assumes "streamer_ok s" and "im_peer_connection s \<noteq> None"
    and "EnsurePeerConnectionForPeer lib env ks a peer s = (ok, s')"
  shows "streamer_ok s'"
proof (cases "peer = [] \<or> map_of (im_peer_connections s) peer \<noteq> None")
  case True
  then have "s' = s" using assms(3) by (auto simp: EnsurePeerConnectionForPeer_def split: if_splits)
  then show ?thesis using assms(1) by simp
next
  case False
  show ?thesis
  proof (cases "CreatePcWithObserver a (ExtraPeerObserver peer) s")
    case (Pair pc s1)
    show ?thesis
    proof (cases pc)
      case None
      then show ?thesis using Pair False assms create_pc_none by (auto simp: EnsurePeerConnectionForPeer_def)
    next
      case (Some n)
      note c = create_pc_ok [OF assms(1) Pair [unfolded Some]]
      obtain added s2 where t: "AddVideoSendTransceiver lib a n s1 = (added, s2)" by fastforce
      note q = quiet_AddVideoSendTransceiver [OF t]
      let ?s3 = "s2\<lparr>im_peer_connections := AList.update peer n (im_peer_connections s2),
                    im_extra_peer_observers := AList.update peer n (im_extra_peer_observers s2)\<rparr>"
      have s2: "streamer_ok s2" by (rule quiet_ok [OF q c(1)])
      have fields: "im_peer_connections s2 = im_peer_connections s" "im_peer_connection s2 = im_peer_connection s"
        using q c(6,7) by (simp_all add: quiet_step_def same_connections_def)
      have "streamer_ok ?s3"
        by (rule add_peer_ok [OF s2]) (use False assms(2) fields c(2,3) quiet_logs [OF q] in auto)
      then have "streamer_ok (MaybeStartOutboundStatsLoop env ks ?s3)" by (rule quiet_ok [rotated]) simp
      then show ?thesis using assms(3) Pair Some False t c(1) s2 fields
        by (auto simp: EnsurePeerConnectionForPeer_def Let_def split: if_splits)
    qed
  qed
qed

lemma CreateOfferForPeer_ok:
  assumes "streamer_ok s"
  shows "streamer_ok (CreateOfferForPeer lib env ks a peer s)"
proof (cases "peer = []")
  case True
  then show ?thesis using CreateOffer_ok [OF assms] by (simp add: CreateOfferForPeer_def)
next
  case False
  obtain ok s1 where e: "EnsurePeerConnectionForPeer lib env ks a peer s = (ok, s1)" by fastforce
  show ?thesis
  proof (cases "im_peer_connection s = None")
    case n: False
    have s1: "streamer_ok s1" by (rule Ensure_ok [OF assms n e])
    have "streamer_ok (CreateOfferOnConnection peer pc s1)" if "map_of (im_peer_connections s1) peer = Some pc" for pc
      by (rule add_offer_ok [OF s1])
        (use s1 False map_of_SomeD [OF that] in \<open>auto simp: streamer_ok_def owners_ok_def observer_of_def\<close>)
    then show ?thesis using assms False n e s1
      by (auto simp: CreateOfferForPeer_def Let_def split: option.split)
  qed (use assms False in \<open>simp add: CreateOfferForPeer_def\<close>)
qed

lemma DoLoopbackExchange_ok:
  assumes "streamer_ok s"
  shows "streamer_ok (DoLoopbackExchange lib env ks a type sdp s)"
proof (cases "fst (ReadBool env ''RFLOW_SKIP_LOOPBACK_RECV'' ks)")
  case False
  let ?s0 = "s\<lparr>im_loopback_observer := Some new_LoopbackPcObserver\<rparr>"
  have s0: "streamer_ok ?s0" by (rule quiet_ok [OF _ assms]) simp
  obtain pc s1 where c: "CreatePcWithObserver a LoopbackObserver ?s0 = (pc, s1)" by fastforce
  let ?s2 = "s1\<lparr>im_receiver := pc\<rparr>"
  have "streamer_ok s1 \<and> (\<forall>n. pc = Some n \<longrightarrow> (n, LoopbackObserver) \<in> set (created_log s1) \<and> n \<notin> set (closed_log s1))"
  proof (cases pc)
    case None
    then show ?thesis using c s0 create_pc_none by auto
  next
    case (Some n)
    then show ?thesis using create_pc_ok [OF s0, of a LoopbackObserver n s1] c by simp
  qed
  then have s2: "streamer_ok ?s2" by (intro set_receiver_ok) auto
  have "quiet_step ?s2 (DoLoopbackExchange lib env ks a type sdp s)"
    using False c by (auto simp: DoLoopbackExchange_def Let_def split: option.split)
  then show ?thesis using s2 by (rule quiet_ok)
qed (use assms in \<open>simp add: DoLoopbackExchange_def\<close>)

lemma remove_nth_subset: "set (remove_nth i xs) \<subseteq> set xs"
  by (auto simp: remove_nth_def dest: in_set_takeD in_set_dropD)

lemma drop_pending_ok:
  assumes "streamer_ok s" and "set os \<subseteq> set (im_pending_offers s)" and "set ls \<subseteq> set (im_pending_locals s)"
  shows "streamer_ok (s\<lparr>im_pending_offers := os, im_pending_locals := ls\<rparr>)"
proof -
  have "offers_ok (s\<lparr>im_pending_offers := os, im_pending_locals := ls\<rparr>)"
    by (rule offers_ok_mono [of s]) (use assms in \<open>auto simp: streamer_ok_def\<close>)
  then show ?thesis using assms(1) by (simp add: streamer_ok_def owners_ok_def owned_connections_def)
qed

lemma on_offer_created_ok:
  assumes "streamer_ok s"
  shows "streamer_ok (on_offer_created i desc s)"
proof (cases "i < length (im_pending_offers s)")
  case True
  obtain p n where pn: "im_pending_offers s ! i = (p, n)" by fastforce
  let ?s1 = "s\<lparr>im_pending_offers := remove_nth i (im_pending_offers s)\<rparr>"
  have s1: "streamer_ok ?s1"
    using drop_pending_ok [OF assms remove_nth_subset subset_refl, of i] by simp
  have cr: "(n, observer_of p) \<in> set (created_log s)"
    using assms nth_mem [OF True] pn by (auto simp: streamer_ok_def offers_ok_def)
  have "streamer_ok (push_event_add (PeSetLocal n t d) (?s1\<lparr>im_pending_locals := im_pending_locals ?s1 @ [(p, n, t, d)]\<rparr>))"
    for t d
  proof -
    let ?s2 = "push_event_add (PeSetLocal n t d) ?s1"
    have "streamer_ok ?s2" by (rule quiet_ok [OF _ s1]) simp
    moreover have "(n, observer_of p) \<in> set (created_log ?s2)" using cr by (simp add: created_log_add)
    moreover have "PeSetLocal n t d \<in> set (im_events ?s2)" by (simp add: push_event_add_def)
    ultimately have "streamer_ok (?s2\<lparr>im_pending_locals := im_pending_locals ?s2 @ [(p, n, t, d)]\<rparr>)"
      by (auto simp: streamer_ok_def owners_ok_def offers_ok_def owned_connections_def)
    moreover have "push_event_add e (x\<lparr>im_pending_locals := ls\<rparr>) = (push_event_add e x)\<lparr>im_pending_locals := ls\<rparr>"
      and "im_pending_locals (push_event_add e x) = im_pending_locals x" for e x ls
      by (cases x, simp add: push_event_add_def)+
    ultimately show ?thesis by simp
  qed
  then show ?thesis using True pn s1 by (auto simp: on_offer_created_def Let_def split: option.split)
qed (use assms in \<open>simp add: on_offer_created_def\<close>)

lemma on_local_description_set_ok:
  assumes "streamer_ok s"
  shows "streamer_ok (on_local_description_set lib env ks a i ok s)"
proof (cases "i < length (im_pending_locals s)")
  case True
  obtain p n t d where l: "im_pending_locals s ! i = (p, n, t, d)" by (metis prod.exhaust)
  let ?s1 = "s\<lparr>im_pending_locals := remove_nth i (im_pending_locals s)\<rparr>"
  have s1: "streamer_ok ?s1"
    using drop_pending_ok [OF assms subset_refl remove_nth_subset, of i] by simp
  have cr: "(n, observer_of p) \<in> set (created_log s)" "PeSetLocal n t d \<in> set (im_events s)"
    using assms nth_mem [OF True] l by (auto simp: streamer_ok_def offers_ok_def)
  have "streamer_ok (push_event_add (PeSdp p t d) ?s1)"
  proof -
    let ?s2 = "push_event_add (PeSdp p t d) ?s1"
    have logs: "created_log ?s2 = created_log s" "closed_log ?s2 = closed_log s" "owned_connections ?s2 = owned_connections ?s1"
      unfolding created_log_add closed_log_add
      by (simp_all add: created_of_def closed_of_def opt_list_def owned_connections_def push_event_add_def)
    have "offers_ok ?s1" using s1 by (simp add: streamer_ok_def)
    then have "offers_ok ?s2"
      using cr logs unfolding offers_ok_def by (auto simp: push_event_add_def)
    then show ?thesis using s1 logs unfolding streamer_ok_def owners_ok_def
      by (simp add: push_event_add_def)
  qed
  then show ?thesis using True l s1 DoLoopbackExchange_ok [OF s1]
    by (auto simp: on_local_description_set_def Let_def)
qed (use assms in \<open>simp add: on_local_description_set_def\<close>)

text \<open>Observers are unique, so the connections held are all different.\<close>

lemma created_unique:
  assumes "streamer_ok s" and "(n, o1) \<in> set (created_log s)" and "(n, o2) \<in> set (created_log s)"
  shows "o1 = o2"
proof -
  have "distinct (map fst (created_log s))" using assms(1) by (simp add: streamer_ok_def)
  then show ?thesis using assms(2,3) by (metis eq_key_imp_eq_value)
qed

lemma owners_peer:
  "owners_ok s \<Longrightarrow> (p, n) \<in> set (im_peer_connections s) \<Longrightarrow> (n, ExtraPeerObserver p) \<in> set (created_log s)"
  by (auto simp: owners_ok_def)

lemma distinct_owned:
  assumes "streamer_ok s"
  shows "distinct (owned_connections s)"
proof -
  note u = created_unique [OF assms]
  have own: "owners_ok s" and dk: "distinct (keys (im_peer_connections s))" using assms by (auto simp: streamer_ok_def)
  have inj: "p = q" if "(p, n) \<in> set (im_peer_connections s)" "(q, n) \<in> set (im_peer_connections s)" for p q n
    using u [OF owners_peer [OF own that(1)] owners_peer [OF own that(2)]] by simp
  have "distinct (map snd (im_peer_connections s))"
    unfolding distinct_map
  proof
    show "distinct (im_peer_connections s)" using dk by (simp add: distinct_map)
    show "inj_on snd (set (im_peer_connections s))" using inj by (fastforce intro: inj_onI)
  qed
  moreover have "n \<notin> set (map snd (im_peer_connections s))" if "im_receiver s = Some n \<or> im_peer_connection s = Some n" for n
  proof
    assume "n \<in> set (map snd (im_peer_connections s))"
    then obtain p where "(p, n) \<in> set (im_peer_connections s)" by auto
    then have "(n, ExtraPeerObserver p) \<in> set (created_log s)" by (rule owners_peer [OF own])
    from u [OF _ this] that own show False by (auto simp: owners_ok_def)
  qed
  moreover have "im_receiver s = Some n \<Longrightarrow> im_peer_connection s \<noteq> Some n" for n
    using own u [of n LoopbackObserver DefaultObserver] by (auto simp: owners_ok_def)
  ultimately show ?thesis by (auto simp: owned_connections_def opt_list_def split: option.splits)
qed

lemma created_bound:
  assumes "streamer_ok s" and "(n, obs) \<in> set (created_log s)"
  shows "n < im_pc_count s"
proof -
  have "set (map fst (created_log s)) = {0..<im_pc_count s}" using assms(1) by (simp add: streamer_ok_def del: set_map)
  then show ?thesis using assms(2) by force
qed

lemma owned_created:
  assumes "streamer_ok s" and "n \<in> set (owned_connections s)"
  shows "n < im_pc_count s"
proof -
  have o: "owners_ok s" using assms(1) by (simp add: streamer_ok_def)
  consider "im_receiver s = Some n" | "im_peer_connection s = Some n" | p where "(p, n) \<in> set (im_peer_connections s)"
    using assms(2) by (auto simp: owned_connections_def opt_list_def split: option.splits)
  then have "\<exists>obs. (n, obs) \<in> set (created_log s)"
    using o owners_peer [OF o] by cases (auto simp: owners_ok_def)
  then show ?thesis using created_bound [OF assms(1)] by blast
qed

lemma delete_split:
  assumes "distinct (keys m)" and "map_of m k = Some v"
  shows "set (AList.delete k m) = set m - {(k, v)}" and "AList.delete k m = filter (\<lambda>kv. fst kv \<noteq> k) m"
proof -
  show f: "AList.delete k m = filter (\<lambda>kv. fst kv \<noteq> k) m" by (induction m) auto
  show "set (AList.delete k m) = set m - {(k, v)}"
    unfolding f using eq_key_imp_eq_value [OF assms(1)] map_of_SomeD [OF assms(2)] by auto
qed

lemma ClosePeerForSubscriber_ok:
  assumes "streamer_ok s"
  shows "streamer_ok (ClosePeerForSubscriber peer s)"
proof (cases "peer = [] \<or> map_of (im_peer_connections s) peer = None")
  case False
  then obtain n where n: "map_of (im_peer_connections s) peer = Some n" by auto
  have dk: "distinct (keys (im_peer_connections s))" using assms by (simp add: streamer_ok_def)
  let ?m = "AList.delete peer (im_peer_connections s)"
  let ?s1 = "s\<lparr>im_peer_connections := ?m, im_extra_peer_observers := AList.delete peer (im_extra_peer_observers s)\<rparr>"
  let ?s2 = "push_event_add (PeClosePc n) ?s1"
  note d = delete_split [OF dk n]
  have logs: "created_log ?s2 = created_log s" "closed_log ?s2 = closed_log s @ [n]"
    unfolding created_log_add closed_log_add by (simp_all add: created_of_def closed_of_def opt_list_def)
  have mem: "(peer, n) \<in> set (im_peer_connections s)" using n by (rule map_of_SomeD)
  then have o: "n \<in> set (owned_connections s)" by (force simp: owned_connections_def)
  have "distinct (owned_connections s)" by (rule distinct_owned [OF assms])
  moreover have "map snd ?m = filter (\<lambda>x. x \<noteq> n) (map snd (im_peer_connections s))"
  proof -
    have "fst kv \<noteq> peer \<longleftrightarrow> snd kv \<noteq> n" if "kv \<in> set (im_peer_connections s)" for kv
    proof -
      have "inj_on snd (set (im_peer_connections s))"
        using \<open>distinct (owned_connections s)\<close> by (simp add: owned_connections_def distinct_map)
      then show ?thesis using that mem dk by (metis eq_key_imp_eq_value fst_conv inj_onD prod.collapse snd_conv)
    qed
    then show ?thesis unfolding d(2) by (simp add: filter_map comp_def cong: filter_cong)
  qed
  ultimately have o2: "set (owned_connections ?s2) \<subseteq> set (owned_connections s) - {n}"
    using imageI [OF mem, of snd] by (auto simp: owned_connections_def push_event_add_def opt_list_def split: option.splits)
  have "n < im_pc_count s" by (rule owned_created [OF assms o])
  moreover have "n \<notin> set (closed_log s)" using assms o by (auto simp: streamer_ok_def)
  moreover have "offers_ok ?s2"
    by (rule offers_ok_mono [of s]) (use assms logs in \<open>auto simp: streamer_ok_def push_event_add_def\<close>)
  moreover have "owners_ok ?s2"
    using assms logs d(1) by (auto simp: streamer_ok_def owners_ok_def push_event_add_def)
  ultimately have "streamer_ok ?s2"
    using assms logs o2 d(1) unfolding streamer_ok_def by (auto simp: push_event_add_def)
  then show ?thesis using False n by (simp add: ClosePeerForSubscriber_def)
qed (use assms in \<open>auto simp: ClosePeerForSubscriber_def\<close>)

lemma closed_log_Shutdown: "closed_log (Shutdown s) = closed_log s @ owned_connections s"
proof -
  have a: "List.map_filter closed_of (close_opt x) = opt_list x" for x
    by (simp add: close_opt_def opt_list_def map_filter_def closed_of_def split: option.split)
  have b: "List.map_filter closed_of (map (\<lambda>kv. PeClosePc (snd kv)) m) = map snd m" for m :: "(string \<times> nat) list"
    by (induction m) (simp_all add: map_filter_def closed_of_def)
  have c: "List.map_filter f (xs @ ys) = List.map_filter f xs @ List.map_filter f ys"
    for f :: "push_event \<Rightarrow> nat option" and xs ys by (simp add: map_filter_def)
  show ?thesis
    by (simp add: closed_log_def owned_connections_def Shutdown_def Let_def StopPushHealthLoop_def StopOutboundStatsLoop_def a b c)
      (simp add: map_filter_def closed_of_def)
qed

lemma created_log_Shutdown: "created_log (Shutdown s) = created_log s"
proof -
  have "List.map_filter created_of (close_opt x) = []" for x
    by (simp add: close_opt_def map_filter_def created_of_def split: option.split)
  moreover have "List.map_filter created_of (map (\<lambda>kv. PeClosePc (snd kv)) m) = []" for m :: "(string \<times> nat) list"
    by (induction m) (simp_all add: map_filter_def created_of_def)
  moreover have "List.map_filter f (xs @ ys) = List.map_filter f xs @ List.map_filter f ys"
    for f :: "push_event \<Rightarrow> (nat \<times> pc_observer) option" and xs ys by (simp add: map_filter_def)
  ultimately show ?thesis
    by (simp add: created_log_def Shutdown_def Let_def StopPushHealthLoop_def StopOutboundStatsLoop_def)
      (simp add: map_filter_def created_of_def)
qed

lemma owned_Shutdown: "owned_connections (Shutdown s) = []"
  by (simp add: owned_connections_def Shutdown_def Let_def opt_list_def)

lemma Shutdown_ok:
  assumes "streamer_ok s"
  shows "streamer_ok (Shutdown s)"
proof -
  have f: "im_pc_count (Shutdown s) = im_pc_count s" "im_peer_connections (Shutdown s) = []"
    "im_extra_peer_observers (Shutdown s) = []" "im_receiver (Shutdown s) = None" "im_peer_connection (Shutdown s) = None"
    "im_pending_offers (Shutdown s) = im_pending_offers s" "im_pending_locals (Shutdown s) = im_pending_locals s"
    by (simp_all add: Shutdown_def Let_def StopPushHealthLoop_def StopOutboundStatsLoop_def)
  have ev: "\<exists>es. im_events (Shutdown s) = im_events s @ es \<and> (\<forall>p t d. PeSdp p t d \<notin> set es)"
    by (auto simp: Shutdown_def Let_def StopPushHealthLoop_def StopOutboundStatsLoop_def close_opt_def split: option.splits)
  have "offers_ok (Shutdown s)"
    by (rule offers_ok_mono [of s]) (use assms f ev created_log_Shutdown [of s] in \<open>auto simp: streamer_ok_def\<close>)
  moreover have "distinct (closed_log (Shutdown s))" "set (closed_log (Shutdown s)) \<subseteq> {..<im_pc_count s}"
    using assms distinct_owned [OF assms] owned_created [OF assms] by (auto simp: closed_log_Shutdown streamer_ok_def)
  ultimately show ?thesis
    using assms by (simp add: streamer_ok_def owners_ok_def f created_log_Shutdown owned_Shutdown)
qed

lemma push_Stop_ok: "streamer_ok s \<Longrightarrow> streamer_ok (push_Stop s)"
  using Shutdown_ok [OF quiet_ok [of s "s\<lparr>im_is_streaming := False\<rparr>"]] by (simp add: push_Stop_def)

lemmas quiet_steps = quiet_ticks quiet_remote quiet_receiver quiet_notifications

lemma push_step_ok: "streamer_ok s \<Longrightarrow> streamer_ok (push_step lib pl i s)"
proof (cases i)
  case (InSetCallbacks b1 b2 b3)
  then have "quiet_step s (push_step lib pl i s)" by (simp add: push_step_def Let_def quiet_setters)
  then show "streamer_ok s \<Longrightarrow> ?thesis" by (rule quiet_ok)
next
  case (InLocalCandidate a obs cand)
  then have "quiet_step s (push_step lib pl i s)" by (cases obs) (simp_all add: push_step_def quiet_notifications)
  then show "streamer_ok s \<Longrightarrow> ?thesis" by (rule quiet_ok)
qed (simp_all add: push_step_def push_Start_ok push_Stop_ok CreateOfferForPeer_ok ClosePeerForSubscriber_ok
    on_offer_created_ok on_local_description_set_ok quiet_ok [OF quiet_ticks(1)] quiet_ok [OF quiet_ticks(2)]
    quiet_ok [OF quiet_ticks(3)] quiet_ok [OF quiet_ticks(4)] quiet_ok [OF quiet_remote(1)] quiet_ok [OF quiet_remote(3)]
    quiet_ok [OF quiet_receiver(1)] quiet_ok [OF quiet_receiver(2)] quiet_ok [OF quiet_receiver(3)]
    quiet_ok [OF quiet_notifications(1)] quiet_ok [OF quiet_notifications(5)] quiet_ok [OF quiet_notifications(6)])

lemma new_PushStreamer_ok: "streamer_ok (new_PushStreamer common backend rk)"
  by (simp add: streamer_ok_def owners_ok_def offers_ok_def owned_connections_def new_PushStreamer_def created_log_def closed_log_def
      opt_list_def map_filter_def)

lemma push_reachable_ok: "push_reachable lib pl s \<Longrightarrow> streamer_ok s"
  by (induction rule: push_reachable.induct) (simp_all add: new_PushStreamer_ok push_step_ok)

section \<open>Properties\<close>

lemma count_list_distinct: "distinct xs \<Longrightarrow> count_list xs x = (if x \<in> set xs then 1 else 0)"
  by (induction xs) auto

lemma created_log_event:
  "(n, obs) \<in> set (created_log s) \<longleftrightarrow> (\<exists>cfg. PeCreatePc n obs cfg \<in> set (im_events s))"
proof -
  have "(n, obs) \<in> set (List.map_filter created_of es) \<longleftrightarrow> (\<exists>cfg. PeCreatePc n obs cfg \<in> set es)" for es
    by (induction es) (auto simp: map_filter_def created_of_def split: push_event.splits)
  then show ?thesis by (simp add: created_log_def)
qed

text \<open>
  C24: Every offer reaches the peer it was made for. Whatever happens to the streamer - subscribers
  joining and leaving, callbacks arriving late and in any order, restarts, failures of WebRTC - an
  offer handed to the owner for a peer is the local description of a connection that was created with
  that peer's observer (the default connection for the empty peer), and of no other peer's; so its
  candidates and states are reported for that peer as well.
\<close>

theorem push_offer_routing:
  assumes "push_reachable lib pl s" and "PeSdp peer type sdp \<in> set (im_events s)"
  shows "\<exists>n cfg. PeCreatePc n (observer_of peer) cfg \<in> set (im_events s) \<and> PeSetLocal n type sdp \<in> set (im_events s) \<and>
           (\<forall>obs cfg'. PeCreatePc n obs cfg' \<in> set (im_events s) \<longrightarrow> obs = observer_of peer)"
proof -
  have ok: "streamer_ok s" by (rule push_reachable_ok [OF assms(1)])
  then have "offers_ok s" by (simp add: streamer_ok_def)
  then obtain n where "(n, observer_of peer) \<in> set (created_log s)" "PeSetLocal n type sdp \<in> set (im_events s)"
    using assms(2) unfolding offers_ok_def by blast
  then show ?thesis using created_unique [OF ok] unfolding created_log_event by blast
qed

text \<open>
  C25: A subscriber's answer and candidates are applied to the connection that was created for that
  subscriber and to nothing else: in every reachable state the subscribers have different open
  connections, each with its own observer. For a peer without a connection they are applied to the
  default connection, when there is one.
\<close>

theorem push_remote_routing:
  assumes "push_reachable lib pl s" and "peer \<noteq> []" and "an_signaling_thread a"
    and "rl_sdp_type lib type" and "rl_parse_sdp lib type sdp" and "rl_parse_ice lib mid idx cand"
  shows "case map_of (im_peer_connections s) peer of
           Some n \<Rightarrow> SetRemoteDescriptionForPeer lib a peer type sdp s = push_event_add (PeSetRemote n type sdp) s \<and>
                     AddRemoteIceCandidateForPeer lib a peer mid idx cand s = push_event_add (PeAddIce n mid idx cand) s \<and>
                     (\<exists>cfg. PeCreatePc n (ExtraPeerObserver peer) cfg \<in> set (im_events s)) \<and>
                     PeClosePc n \<notin> set (im_events s) \<and> im_peer_connection s \<noteq> Some n \<and>
                     (\<forall>q. q \<noteq> peer \<longrightarrow> map_of (im_peer_connections s) q \<noteq> Some n)
         | None \<Rightarrow> SetRemoteDescriptionForPeer lib a peer type sdp s =
                     (case im_peer_connection s of None \<Rightarrow> s | Some d \<Rightarrow> push_event_add (PeSetRemote d type sdp) s) \<and>
                   AddRemoteIceCandidateForPeer lib a peer mid idx cand s =
                     (case im_peer_connection s of None \<Rightarrow> s | Some d \<Rightarrow> push_event_add (PeAddIce d mid idx cand) s)"
proof (cases "map_of (im_peer_connections s) peer")
  case None
  then show ?thesis using assms(2-6)
    by (auto simp: SetRemoteDescriptionForPeer_def AddRemoteIceCandidateForPeer_def target_connection_def add_candidate_def
        split: option.split)
next
  case (Some n)
  have ok: "streamer_ok s" by (rule push_reachable_ok [OF assms(1)])
  have mem: "(peer, n) \<in> set (im_peer_connections s)" using Some by (rule map_of_SomeD)
  then have own: "n \<in> set (owned_connections s)" by (force simp: owned_connections_def)
  have o: "owners_ok s" using ok by (simp add: streamer_ok_def)
  note c = owners_peer [OF o mem]
  have "n \<notin> set (closed_log s)" using ok own by (auto simp: streamer_ok_def)
  then have "PeClosePc n \<notin> set (im_events s)" by (force simp: closed_log_def map_filter_def closed_of_def)
  moreover have "im_peer_connection s \<noteq> Some n" using created_unique [OF ok c] o by (auto simp: owners_ok_def)
  moreover have "map_of (im_peer_connections s) q \<noteq> Some n" if "q \<noteq> peer" for q
    using that created_unique [OF ok c] owners_peer [OF o map_of_SomeD] by fastforce
  moreover have "\<exists>cfg. PeCreatePc n (ExtraPeerObserver peer) cfg \<in> set (im_events s)"
    using c by (simp add: created_log_event)
  ultimately show ?thesis using Some assms(2-6)
    by (simp add: SetRemoteDescriptionForPeer_def AddRemoteIceCandidateForPeer_def target_connection_def add_candidate_def)
qed


text \<open>
  The rates a connection is given are usable whatever the configuration holds: not negative, and
  the minimum, the start and the maximum in order; for rates that fit in 32 bits and are in order they
  are exactly the configured ones. The frame rate limit is positive.
\<close>

theorem push_bitrates_ordered:
  "let b = call_bitrates cfg in
     0 \<le> br_min_bitrate_bps b \<and> br_min_bitrate_bps b \<le> br_start_bitrate_bps b \<and>
     br_start_bitrate_bps b \<le> br_max_bitrate_bps b \<and> int32_range (br_max_bitrate_bps b) \<and>
     0 < VideoEncodingMaxFps cfg \<and>
     (if 0 \<le> ps_min_bitrate_kbps cfg \<and> ps_min_bitrate_kbps cfg \<le> ps_target_bitrate_kbps cfg \<and>
         ps_target_bitrate_kbps cfg \<le> ps_max_bitrate_kbps cfg \<and> ps_max_bitrate_kbps cfg \<le> 2147483
      then b = \<lparr> br_min_bitrate_bps = 1000 * ps_min_bitrate_kbps cfg,
                 br_start_bitrate_bps = 1000 * ps_target_bitrate_kbps cfg,
                 br_max_bitrate_bps = 1000 * ps_max_bitrate_kbps cfg \<rparr>
      else True)"
proof -
  have r: "int32_range (kbps_to_bps k)" for k by (simp add: kbps_to_bps_def to_int32_range)
  have e: "kbps_to_bps k = 1000 * k" if "0 \<le> k" "k \<le> 2147483" for k
    using that by (simp add: kbps_to_bps_def int32_range_def)
  show ?thesis
    using r [of "ps_min_bitrate_kbps cfg"] r [of "ps_target_bitrate_kbps cfg"] r [of "ps_max_bitrate_kbps cfg"]
    by (auto simp: call_bitrates_def Let_def VideoEncodingMaxFps_def e int32_range_def)
qed

lemma run_inputs_reachable:
  "run_push_inputs lib pl is s = Some s' \<Longrightarrow> push_reachable lib pl s \<Longrightarrow> push_reachable lib pl s'"
  by (induction lib pl "is" s rule: run_push_inputs.induct) (auto intro: push_reachable.step split: if_splits)

lemma demo_run:
  assumes "run_push_inputs demo_lib demo_platform demo_inputs demo_streamer = Some s"
  shows "push_reachable demo_lib demo_platform s"
  by (rule run_inputs_reachable [OF assms]) (simp add: demo_streamer_def push_reachable.create)

lemma demo_run_result:
  "map_option (\<lambda>s. (im_peer_connection s, im_peer_connections s, im_is_streaming s, owned_connections s, closed_log s))
     (run_push_inputs demo_lib demo_platform demo_inputs demo_streamer)
     = Some (Some 0, [(''s1'', 1), (''s2'', 2)], True, [0, 1, 2], [])"
  by code_simp

lemma demo_run_events:
  "map_option (\<lambda>s. filter (\<lambda>e. case e of PeSdp _ _ _ \<Rightarrow> True | _ \<Rightarrow> False) (im_events s))
     (run_push_inputs demo_lib demo_platform demo_inputs demo_streamer)
     = Some [PeSdp ''s1'' ''offer'' ''sdp-one'', PeSdp ''s2'' ''offer'' ''sdp-two'']"
  by code_simp

theorem push_offer_routing_witness:
  "\<exists>(s :: Impl) n cfg. PeCreatePc n (ExtraPeerObserver ''s2'') cfg \<in> set (im_events s) \<and>
     PeSetLocal n ''offer'' ''sdp-two'' \<in> set (im_events s)"
proof -
  obtain s where s: "run_push_inputs demo_lib demo_platform demo_inputs demo_streamer = Some s"
    and ev: "filter (\<lambda>e. case e of PeSdp _ _ _ \<Rightarrow> True | _ \<Rightarrow> False) (im_events s)
               = [PeSdp ''s1'' ''offer'' ''sdp-one'', PeSdp ''s2'' ''offer'' ''sdp-two'']"
    using demo_run_events by auto
  have "PeSdp ''s2'' ''offer'' ''sdp-two'' \<in> set (im_events s)"
    using arg_cong [OF ev, of set] by auto
  from push_offer_routing [OF demo_run [OF s] this]
  obtain n cfg where "PeCreatePc n (ExtraPeerObserver ''s2'') cfg \<in> set (im_events s)"
      "PeSetLocal n ''offer'' ''sdp-two'' \<in> set (im_events s)"
    by (auto simp: observer_of_def)
  then show ?thesis by blast
qed

lemma demo_state:
  obtains s where "push_reachable demo_lib demo_platform s" "im_peer_connections s = [(''s1'', 1), (''s2'', 2)]"
    "im_peer_connection s = Some 0" "im_is_streaming s" "owned_connections s = [0, 1, 2]" "closed_log s = []"
proof -
  obtain s where s: "run_push_inputs demo_lib demo_platform demo_inputs demo_streamer = Some s"
    and "im_peer_connections s = [(''s1'', 1), (''s2'', 2)]" "im_peer_connection s = Some 0" "im_is_streaming s"
    "owned_connections s = [0, 1, 2]" "closed_log s = []"
    using demo_run_result by auto
  then show thesis using that demo_run [OF s] by simp
qed

theorem push_remote_routing_witness:
  "\<exists>s. im_peer_connections s = [(''s1'', 1), (''s2'', 2)] \<and>
     SetRemoteDescriptionForPeer demo_lib demo_push_answers ''s2'' ''answer'' ''v=0'' s
       = push_event_add (PeSetRemote 2 ''answer'' ''v=0'') s \<and>
     SetRemoteDescriptionForPeer demo_lib demo_push_answers ''gone'' ''answer'' ''v=0'' s
       = push_event_add (PeSetRemote 0 ''answer'' ''v=0'') s"
proof -
  obtain s where s: "push_reachable demo_lib demo_platform s" "im_peer_connections s = [(''s1'', 1), (''s2'', 2)]"
    "im_peer_connection s = Some 0" by (rule demo_state)
  have h: "an_signaling_thread demo_push_answers" "rl_sdp_type demo_lib ''answer''"
    "rl_parse_sdp demo_lib ''answer'' ''v=0''" "rl_parse_ice demo_lib ''0'' 0 ''c''"
    by (simp_all add: demo_push_answers_def demo_lib_def)
  show ?thesis
    using push_remote_routing [OF s(1) _ h, of "''s2''"] push_remote_routing [OF s(1) _ h, of "''gone''"] s(2,3) by auto
qed


section \<open>The capture gate ends\<close>

lemma gate_loop_polls:
  assumes "\<forall>j. i \<le> j \<longrightarrow> j < k \<longrightarrow> clock j < deadline" and "\<not> clock k < deadline" and "i \<le> k"
  shows "gate_loop clock frames deadline need i = Some (gate_polls need (map frames [i..<k]))"
  using assms
proof (induction "k - i" arbitrary: i)
  case 0
  then have "i = k" by simp
  then show ?case using 0 by (subst gate_loop.simps) simp
next
  case (Suc m)
  then have lt: "i < k" by simp
  have "gate_loop clock frames deadline need (Suc i) = Some (gate_polls need (map frames [Suc i..<k]))"
    using Suc lt by (intro Suc.hyps(1)) auto
  moreover have "[i..<k] = i # [Suc i..<k]" using lt by (rule upt_conv_Cons)
  moreover have "clock i < deadline" using Suc.prems lt by blast
  ultimately show ?case by (subst gate_loop.simps) simp
qed

lemma clock_advances:
  assumes "\<forall>i. clock i + 40 \<le> clock (Suc i)"
  shows "clock 0 + 40 * int k \<le> clock k"
proof (induction k)
  case (Suc k)
  then show ?case using spec [OF assms, of k] by (simp add: algebra_simps)
qed simp

text \<open>
  C27: The wait for the first captured frames always ends. When every poll sleeps its 40 ms, the loop
  returns after at most 25 polls for each second of the configured wait (at least one second), and its
  result is the verdict on the frame counts those polls read: success exactly when one of them reached
  the required number.
\<close>

theorem capture_gate_terminates:
  assumes "\<forall>i. clock i + 40 \<le> clock (Suc i)" and "t0 \<le> clock 0"
  shows "\<exists>k. gate_loop clock frames (t0 + gate_max_wait_ms cfg) need 0 = Some (gate_polls need (map frames [0..<k])) \<and>
             int k \<le> 25 * max 1 (ps_capture_gate_max_wait_sec cfg) \<and>
             (gate_polls need (map frames [0..<k]) = (\<exists>i<k. need \<le> frames i))"
proof -
  let ?d = "t0 + gate_max_wait_ms cfg"
  have adv: "clock 0 + 40 * int k \<le> clock k" for k by (rule clock_advances [OF assms(1)])
  have "\<not> clock (nat (gate_max_wait_ms cfg)) < ?d" using adv [of "nat (gate_max_wait_ms cfg)"] assms(2)
    by (auto simp: gate_max_wait_ms_def Let_def)
  note stop = this
  define k where "k = (LEAST k. \<not> clock k < ?d)"
  have k: "\<not> clock k < ?d" "\<forall>j<k. clock j < ?d"
    unfolding k_def using LeastI [of "\<lambda>k. \<not> clock k < ?d", OF stop] not_less_Least by blast+
  have "int k \<le> 25 * max 1 (ps_capture_gate_max_wait_sec cfg)"
  proof (cases k)
    case (Suc j)
    then have "clock j < ?d" using k(2) by simp
    then have "40 * int j < gate_max_wait_ms cfg" using adv [of j] assms(2) by linarith
    then show ?thesis using Suc by (simp add: gate_max_wait_ms_def Let_def max_def split: if_splits)
  qed simp
  moreover have "gate_loop clock frames ?d need 0 = Some (gate_polls need (map frames [0..<k]))"
    by (rule gate_loop_polls) (use k in auto)
  moreover have "gate_polls need xs = (\<exists>i < length xs. need \<le> xs ! i)" for xs
    by (induction need xs rule: gate_polls.induct) (auto simp: less_Suc_eq_0_disj)
  ultimately show ?thesis by (intro exI [of _ k]) auto
qed

theorem capture_gate_terminates_witness:
  "\<exists>k. gate_loop (\<lambda>i. 40 * int i) (\<lambda>i. i) (0 + gate_max_wait_ms push_common_init) 7 0
         = Some (gate_polls 7 (map (\<lambda>i. i) [0..<k])) \<and> int k \<le> 500"
  using capture_gate_terminates [of "\<lambda>i. 40 * int i" 0 "\<lambda>i. i" push_common_init 7] by (auto simp: push_common_init_def)

section \<open>What the loops and the frame counter leave behind\<close>

text \<open>
  Stopping does not cancel a tick that waits for its interval: the task stays in the thread pool and
  runs against the streamer later, even though its owner destroys the streamer right after the stop.
\<close>

theorem tick_outlives_stop:
  assumes "push_reachable lib pl s" and "im_is_streaming s" and "tl_delayed (im_outbound_stats s) = Suc k"
  shows "push_enabled InStatsDelayed (push_Stop s) \<and> tl_delayed (im_outbound_stats (push_Stop s)) = Suc k"
  using assms
  by (simp add: push_Stop_def Shutdown_def Let_def StopPushHealthLoop_def StopOutboundStatsLoop_def loop_stop_def
      push_enabled_def)

text \<open>
  A loop that is stopped and started again within its interval runs twice: the old delayed task finds
  the stop flag cleared and schedules itself next to the new one.
\<close>

theorem restarted_loop_runs_twice:
  assumes "interval > 0" and "tl_delayed l = Suc 0" and "tl_posted l = 0"
  shows "let l' = loop_maybe_start interval (loop_stop l) in
           tl_posted (loop_schedule (l'\<lparr>tl_delayed := tl_delayed l' - 1\<rparr>)) = 2"
  using assms by (simp add: loop_maybe_start_def loop_stop_def loop_schedule_def)

text \<open>
  A frame callback that is set before the start is never called: the counter exists already when the
  source is created, so it is not registered with it, and no frame is counted.
\<close>

theorem early_frame_callback_lost:
  assumes "CreateMediaTracks pl env ks a (SetOnFrame (new_PushStreamer common backend rk)) = (True, s)"
  shows "im_frame_counter s = Some 0 \<and> \<not> im_counter_attached s \<and> source_OnFrame s = s"
  using assms
  by (auto simp: CreateMediaTracks_def CreateMediaTracksExternal_def SetOnFrame_def new_PushStreamer_def Let_def
      attach_frame_counter_def push_event_add_def MaybeStartPushHealthLoop_def source_OnFrame_def
      split: if_splits option.splits)

text \<open>The loopback sink is registered with its current track only, so none delivers to it after the teardown.\<close>

definition loopback_ok :: "LoopbackPcObserver \<Rightarrow> bool" where
  "loopback_ok o1 \<longleftrightarrow> lo_registered o1 = opt_list (lo_decoded_track o1) \<and> (lo_decoded_track o1 \<noteq> None \<longrightarrow> lo_decoded_sink o1 \<noteq> None)"

theorem loopback_sink_single:
  "loopback_ok new_LoopbackPcObserver \<and>
   (loopback_ok o1 \<longrightarrow> loopback_ok (AttachSink track o1) \<and> loopback_ok (decoded_OnFrame o1) \<and>
      lo_registered (Teardown o1) = [] \<and> GetDecodedCount (Teardown o1) = 0)"
  by (auto simp: loopback_ok_def new_LoopbackPcObserver_def AttachSink_def Teardown_def decoded_OnFrame_def
      GetDecodedCount_def Let_def opt_list_def split: option.split prod.split)

end
