(* ===== verification/External_Source.thy ===== *)
theory External_Source
  imports RF_Prelude
begin

text \<open>
  The video source of a publisher whose application pushes the frames
  (\<^verbatim>\<open>src/service/impl/media/external_push_video_track_source.cpp\<close>).

  A frame buffer is a list of bytes; the planes handed on are offsets into it. WebRTC's buffer
  allocation and the conversion of libyuv are arguments. The frames broadcast are appended to the
  state.
\<close>

section \<open>State\<close>

record ExternalFrame =
  ef_y :: "u8 list"
  ef_u :: "u8 list"
  ef_v :: "u8 list"
  ef_width :: int
  ef_height :: int
  ef_timestamp_us :: int

record ExternalPushVideoTrackSource =
  es_last_ts_us :: int
  es_pushed :: u32
  es_frames :: "ExternalFrame list"

definition new_ExternalPushVideoTrackSource :: ExternalPushVideoTrackSource where
  "new_ExternalPushVideoTrackSource = \<lparr> es_last_ts_us = 0, es_pushed = 0, es_frames = [] \<rparr>"

text \<open>\<open>now\<close> is the monotonic clock in microseconds.\<close>

definition ResolveTimestampUs :: "int \<Rightarrow> int \<Rightarrow> ExternalPushVideoTrackSource \<Rightarrow> int \<times> ExternalPushVideoTrackSource" where
  "ResolveTimestampUs now provided_us s =
     (if provided_us > 0 then (provided_us, s\<lparr>es_last_ts_us := provided_us\<rparr>)
      else let lst = es_last_ts_us s; picked = (if lst > 0 \<and> now \<le> lst then lst + 1 else now)
           in (picked, s\<lparr>es_last_ts_us := picked\<rparr>))"

text \<open>The rows of a plane that starts at an offset of the buffer.\<close>

definition frame_plane :: "u8 list \<Rightarrow> nat \<Rightarrow> nat \<Rightarrow> nat \<Rightarrow> nat \<Rightarrow> u8 list" where
  "frame_plane buf base stride w h = concat (map (\<lambda>r. take w (drop (base + r * stride) buf)) [0..<h])"

text \<open>The offsets that copying such a plane reads.\<close>

definition plane_reads :: "nat \<Rightarrow> nat \<Rightarrow> nat \<Rightarrow> nat \<Rightarrow> nat set" where
  "plane_reads base stride w h = {base + r * stride + c |r c. r < h \<and> c < w}"

definition broadcast_frame :: "int \<Rightarrow> int \<Rightarrow> ExternalFrame \<Rightarrow> ExternalPushVideoTrackSource \<Rightarrow> ExternalPushVideoTrackSource" where
  "broadcast_frame now timestamp_us f s =
     (let (ts, s1) = ResolveTimestampUs now timestamp_us s
      in s1\<lparr>es_frames := es_frames s1 @ [f\<lparr>ef_timestamp_us := ts\<rparr>], es_pushed := es_pushed s1 + 1\<rparr>)"

section \<open>I420\<close>

text \<open>
  The planes are offsets into the pushed buffer (None a null pointer); \<open>copied\<close> tells whether
  \<^verbatim>\<open>I420Buffer::Copy\<close> returns a buffer. The chroma planes of a frame are half its size, rounded up.
\<close>

definition PushI420 ::
  "int \<Rightarrow> bool \<Rightarrow> u8 list \<Rightarrow> nat option \<Rightarrow> int \<Rightarrow> nat option \<Rightarrow> int \<Rightarrow> nat option \<Rightarrow> int \<Rightarrow> int \<Rightarrow> int \<Rightarrow> int
     \<Rightarrow> ExternalPushVideoTrackSource \<Rightarrow> bool \<times> ExternalPushVideoTrackSource" where
  "PushI420 now copied buf data_y stride_y data_u stride_u data_v stride_v width height timestamp_us s =
     (case (data_y, data_u, data_v) of
        (Some y, Some u, Some v) \<Rightarrow>
          if width \<le> 0 \<or> height \<le> 0 then (False, s)
          else if \<not> copied then (False, s)
          else let cw = nat ((width + 1) div 2); ch = nat ((height + 1) div 2)
               in (True, broadcast_frame now timestamp_us
                     \<lparr> ef_y = frame_plane buf y (nat stride_y) (nat width) (nat height),
                       ef_u = frame_plane buf u (nat stride_u) cw ch, ef_v = frame_plane buf v (nat stride_v) cw ch,
                       ef_width = width, ef_height = height, ef_timestamp_us = 0 \<rparr> s)
      | _ \<Rightarrow> (False, s))"

text \<open>The sizes are computed in 32 bits: \<^verbatim>\<open>uint32_t\<close> products, \<^verbatim>\<open>int\<close> sums.\<close>

definition i420_y_size :: "int \<Rightarrow> int \<Rightarrow> u32" where
  "i420_y_size width height = word_of_int width * word_of_int height"

definition half_up :: "int \<Rightarrow> u32" where
  "half_up n = word_of_int (to_int32 (n + 1) div 2)"

definition PushI420Contiguous ::
  "int \<Rightarrow> bool \<Rightarrow> u8 list option \<Rightarrow> u32 \<Rightarrow> int \<Rightarrow> int \<Rightarrow> int \<Rightarrow> ExternalPushVideoTrackSource
     \<Rightarrow> bool \<times> ExternalPushVideoTrackSource" where
  "PushI420Contiguous now copied buf bytes_size width height timestamp_us s =
     (case buf of None \<Rightarrow> (False, s)
      | Some bytes \<Rightarrow>
          if width \<le> 0 \<or> height \<le> 0 then (False, s)
          else let y_size = i420_y_size width height; uv_w = half_up width; uv_h = half_up height; uv_size = uv_w * uv_h
               in if bytes_size < y_size + 2 * uv_size then (False, s)
                  else PushI420 now copied bytes (Some 0) width (Some (unat y_size)) (sint uv_w)
                         (Some (unat y_size + unat uv_size)) (sint uv_w) width height timestamp_us s)"

section \<open>NV12\<close>

text \<open>\<open>convert\<close> is libyuv's NV12 to I420 conversion of the buffer, None when it reports an error.\<close>

definition PushNv12 ::
  "int \<Rightarrow> bool \<Rightarrow> (nat \<Rightarrow> int \<Rightarrow> nat \<Rightarrow> int \<Rightarrow> int \<Rightarrow> int \<Rightarrow> (u8 list \<times> u8 list \<times> u8 list) option) \<Rightarrow> nat option \<Rightarrow> int \<Rightarrow> nat option \<Rightarrow> int
     \<Rightarrow> int \<Rightarrow> int \<Rightarrow> int \<Rightarrow> ExternalPushVideoTrackSource \<Rightarrow> bool \<times> ExternalPushVideoTrackSource" where
  "PushNv12 now created convert data_y stride_y data_uv stride_uv width height timestamp_us s =
     (case (data_y, data_uv) of
        (Some y, Some uv) \<Rightarrow>
          if width \<le> 0 \<or> height \<le> 0 then (False, s)
          else if \<not> created then (False, s)
          else (case convert y stride_y uv stride_uv width height of
                  None \<Rightarrow> (False, s)
                | Some (py, pu, pv) \<Rightarrow>
                    (True, broadcast_frame now timestamp_us
                       \<lparr> ef_y = py, ef_u = pu, ef_v = pv, ef_width = width, ef_height = height, ef_timestamp_us = 0 \<rparr> s))
      | _ \<Rightarrow> (False, s))"

definition PushNv12Contiguous ::
  "int \<Rightarrow> bool \<Rightarrow> (nat \<Rightarrow> int \<Rightarrow> nat \<Rightarrow> int \<Rightarrow> int \<Rightarrow> int \<Rightarrow> (u8 list \<times> u8 list \<times> u8 list) option) \<Rightarrow> u8 list option \<Rightarrow> u32 \<Rightarrow> int \<Rightarrow> int
     \<Rightarrow> int \<Rightarrow> ExternalPushVideoTrackSource \<Rightarrow> bool \<times> ExternalPushVideoTrackSource" where
  "PushNv12Contiguous now created convert buf bytes_size width height timestamp_us s =
     (case buf of None \<Rightarrow> (False, s)
      | Some bytes \<Rightarrow>
          if width \<le> 0 \<or> height \<le> 0 then (False, s)
          else let y_size = i420_y_size width height; uv_size = word_of_int width * half_up height
               in if bytes_size < y_size + uv_size then (False, s)
                  else PushNv12 now created convert (Some 0) width (Some (unat y_size)) width width height timestamp_us s)"

text \<open>The offsets of the pushed buffer the copy of an accepted frame reads.\<close>

definition i420_reads :: "int \<Rightarrow> int \<Rightarrow> nat set" where
  "i420_reads width height =
     (let y = unat (i420_y_size width height); uv = unat (half_up width * half_up height);
          sw = nat (sint (half_up width)); cw = nat ((width + 1) div 2); ch = nat ((height + 1) div 2)
      in plane_reads 0 (nat width) (nat width) (nat height) \<union> plane_reads y sw cw ch \<union> plane_reads (y + uv) sw cw ch)"

text \<open>
  An NV12 chroma row holds one pair of bytes for every two columns, rounded up; the conversion is told
  that rows are \<open>width\<close> bytes apart.
\<close>

definition nv12_uv_reads :: "int \<Rightarrow> int \<Rightarrow> nat set" where
  "nv12_uv_reads width height =
     plane_reads (unat (i420_y_size width height)) (nat width) (2 * nat ((width + 1) div 2)) (nat ((height + 1) div 2))"

definition i420_total :: "int \<Rightarrow> int \<Rightarrow> int" where
  "i420_total width height = width * height + 2 * (((width + 1) div 2) * ((height + 1) div 2))"

section \<open>Properties\<close>

lemma plane_contiguous: "frame_plane buf base w w h = take (w * h) (drop base buf)"
proof (induction h)
  case (Suc h)
  have "frame_plane buf base w w (Suc h) = frame_plane buf base w w h @ take w (drop (base + h * w) buf)"
    by (simp add: frame_plane_def)
  also have "\<dots> = take (w * h) (drop base buf) @ take w (drop (w * h) (drop base buf))"
    using Suc by (simp add: add.commute mult.commute)
  also have "\<dots> = take (w * h + w) (drop base buf)" by (simp add: take_add)
  finally show ?case by (simp add: add.commute)
qed (simp add: frame_plane_def)

lemma three_takes: "take (a + (b + c)) xs = take a xs @ take b (drop a xs) @ take c (drop (a + b) xs)"
  by (simp add: take_add add.commute)

lemma half_up_small:
  assumes "0 < n" and "n < 2 ^ 31 - 1"
  shows "uint (half_up n) = (n + 1) div 2" and "sint (half_up n) = (n + 1) div 2"
proof -
  have r: "to_int32 (n + 1) = n + 1" using assms by (simp add: int32_range_def)
  have b: "0 \<le> (n + 1) div 2" "(n + 1) div 2 < 2 ^ 31" using assms by auto
  show "uint (half_up n) = (n + 1) div 2"
    using b unfolding half_up_def r uint_word_of_int by simp
  show "sint (half_up n) = (n + 1) div 2"
    unfolding half_up_def r using to_int32_id [of "(n + 1) div 2", unfolded to_int32_def] b
    by (simp add: int32_range_def)
qed

lemma plane_reads_bound: "x \<in> plane_reads base w w h \<Longrightarrow> x < base + w * h"
proof -
  assume "x \<in> plane_reads base w w h"
  then obtain r c where x: "x = base + r * w + c" "r < h" "c < w" by (auto simp: plane_reads_def)
  have "r * w + c < (r + 1) * w" using x by simp
  also have "\<dots> \<le> h * w" using x by (intro mult_le_mono1) simp
  finally show ?thesis using x by (simp add: mult.commute)
qed

lemma uint_mult_small:
  fixes x y :: u32
  assumes "uint x = a" and "uint y = b" and "a * b < 2 ^ 32"
  shows "uint (x * y) = a * b"
proof -
  have "0 \<le> a * b" using assms(1,2) by auto
  then show ?thesis using assms by (simp add: uint_word_ariths)
qed

text \<open>The 32-bit sizes are the real ones when the frame fits in 4 GiB.\<close>

lemma i420_sizes:
  assumes "0 < width" "0 < height" "width < 2 ^ 31 - 1" "height < 2 ^ 31 - 1" "i420_total width height < 2 ^ 32"
  shows "uint (i420_y_size width height) = width * height"
    and "uint (half_up width * half_up height) = ((width + 1) div 2) * ((height + 1) div 2)"
    and "uint (i420_y_size width height + 2 * (half_up width * half_up height)) = i420_total width height"
proof -
  let ?c = "((width + 1) div 2) * ((height + 1) div 2)"
  have c0: "0 \<le> ?c" using assms by simp
  have p0: "0 \<le> width * height" using assms by simp
  have wh: "0 \<le> width * height" "width * height < 2 ^ 32" "2 * ?c < 2 ^ 32"
    using p0 c0 assms(5) unfolding i420_total_def by linarith+
  have uw: "uint (word_of_int width :: u32) = width" "uint (word_of_int height :: u32) = height"
    using assms by (simp_all add: uint_word_of_int)
  show y: "uint (i420_y_size width height) = width * height"
    unfolding i420_y_size_def by (rule uint_mult_small [OF uw wh(2)])
  have h: "uint (half_up width) = (width + 1) div 2" "uint (half_up height) = (height + 1) div 2"
    using half_up_small(1) assms by simp_all
  show uv: "uint (half_up width * half_up height) = ?c"
    by (rule uint_mult_small [OF h]) (use wh(3) c0 in linarith)
  have "uint (2 * (half_up width * half_up height)) = 2 * ?c"
    by (rule uint_mult_small [OF _ uv wh(3)]) simp
  then show "uint (i420_y_size width height + 2 * (half_up width * half_up height)) = i420_total width height"
    using assms(5) y wh c0 by (simp add: uint_word_ariths i420_total_def)
qed

text \<open>
  C29: A frame of a size the 32-bit arithmetic can hold is taken exactly when the buffer is large
  enough; then the planes handed on are the buffer's bytes in order, none invented and none read
  outside it, the frame counter advances by one, and otherwise nothing changes.
\<close>

theorem external_i420_exact:
  assumes "0 < width" and "0 < height" and "width < 2 ^ 31 - 1" and "height < 2 ^ 31 - 1"
    and "i420_total width height < 2 ^ 32"
  shows "case PushI420Contiguous now True (Some bytes) bytes_size width height ts s of
           (ok, s') \<Rightarrow> ok = (i420_total width height \<le> uint bytes_size) \<and>
             (if ok then es_pushed s' = es_pushed s + 1 \<and>
                (\<exists>f. es_frames s' = es_frames s @ [f] \<and> ef_width f = width \<and> ef_height f = height \<and>
                     ef_y f @ ef_u f @ ef_v f = take (nat (i420_total width height)) bytes) \<and>
                i420_reads width height \<subseteq> {..<unat bytes_size}
              else s' = s)"
proof -
  note z = i420_sizes [OF assms]
  let ?c = "((width + 1) div 2) * ((height + 1) div 2)"
  let ?w = "nat width" and ?h = "nat height" and ?cw = "nat ((width + 1) div 2)" and ?ch = "nat ((height + 1) div 2)"
  have nat_sizes: "unat (i420_y_size width height) = ?w * ?h" "unat (half_up width * half_up height) = ?cw * ?ch"
    using z assms by (simp_all add: unat_eq_nat_uint nat_mult_distrib)
  have total: "nat (i420_total width height) = ?w * ?h + (?cw * ?ch + ?cw * ?ch)"
    using assms by (simp add: i420_total_def nat_add_distrib nat_mult_distrib)
  have sw: "sint (half_up width) = (width + 1) div 2" using half_up_small(2) assms by simp
  have acc: "bytes_size < i420_y_size width height + 2 * (half_up width * half_up height)
               \<longleftrightarrow> \<not> i420_total width height \<le> uint bytes_size"
    using z(3) by (simp add: word_less_def not_le)
  have reads: "i420_reads width height \<subseteq> {..<unat bytes_size}" if "i420_total width height \<le> uint bytes_size"
  proof -
    have "?w * ?h + (?cw * ?ch + ?cw * ?ch) \<le> unat bytes_size"
      using that total by (metis nat_mono unat_eq_nat_uint)
    moreover have "x < ?w * ?h + (?cw * ?ch + ?cw * ?ch)" if "x \<in> i420_reads width height" for x
      using that plane_reads_bound [of x 0 ?w ?h] plane_reads_bound [of x "?w * ?h" ?cw ?ch]
        plane_reads_bound [of x "?w * ?h + ?cw * ?ch" ?cw ?ch]
      unfolding i420_reads_def Let_def nat_sizes sw by (elim UnE) linarith+
    ultimately show ?thesis by (meson lessThan_iff less_le_trans subsetI)
  qed
  have planes: "frame_plane bytes 0 ?w ?w ?h @ frame_plane bytes (?w * ?h) ?cw ?cw ?ch @ frame_plane bytes (?w * ?h + ?cw * ?ch) ?cw ?cw ?ch
                  = take (nat (i420_total width height)) bytes"
    unfolding total three_takes plane_contiguous by simp
  have eq: "PushI420Contiguous now True (Some bytes) bytes_size width height ts s =
      (if \<not> i420_total width height \<le> uint bytes_size then (False, s)
       else (True, broadcast_frame now ts
              \<lparr> ef_y = frame_plane bytes 0 ?w ?w ?h, ef_u = frame_plane bytes (?w * ?h) ?cw ?cw ?ch,
                ef_v = frame_plane bytes (?w * ?h + ?cw * ?ch) ?cw ?cw ?ch, ef_width = width, ef_height = height,
                ef_timestamp_us = 0 \<rparr> s))"
    using assms(1,2) unfolding PushI420Contiguous_def PushI420_def Let_def acc nat_sizes sw by simp
  show ?thesis
    unfolding eq using reads planes
    by (simp add: broadcast_frame_def ResolveTimestampUs_def Let_def)
qed

theorem external_i420_exact_witness:
  "fst (PushI420Contiguous 5 True (Some [1, 2, 3, 4, 5, 6]) 6 2 2 0 new_ExternalPushVideoTrackSource) \<and>
   \<not> fst (PushI420Contiguous 5 True (Some [1, 2, 3, 4, 5]) 5 2 2 0 new_ExternalPushVideoTrackSource)"
  using external_i420_exact [where width = 2 and height = 2 and now = 5 and bytes = "[1, 2, 3, 4, 5, 6]" and bytes_size = 6
      and ts = 0 and s = new_ExternalPushVideoTrackSource]
    external_i420_exact [where width = 2 and height = 2 and now = 5 and bytes = "[1, 2, 3, 4, 5]" and bytes_size = 5
      and ts = 0 and s = new_ExternalPushVideoTrackSource]
  by (simp add: i420_total_def split: prod.splits)

text \<open>
  The size check is done modulo 2^32: for a frame of 131072 by 131072 pixels the required size wraps to
  0, a buffer of a single byte is accepted and the copy reads far outside it.
\<close>

theorem external_size_check_wraps:
  "i420_y_size 131072 131072 + 2 * (half_up 131072 * half_up 131072) = 0 \<and>
   fst (PushI420Contiguous now True (Some [0]) 1 131072 131072 ts s) \<and>
   131071 \<in> i420_reads 131072 131072"
proof -
  have w: "i420_y_size 131072 131072 = 0" "half_up 131072 * half_up 131072 = 0"
    by (simp_all add: i420_y_size_def half_up_def int32_range_def)
  have "131071 \<in> plane_reads 0 (nat 131072) (nat 131072) (nat 131072)"
    unfolding plane_reads_def by (rule CollectI, rule exI [of _ 0], rule exI [of _ 131071]) simp
  then have "131071 \<in> i420_reads 131072 131072" unfolding i420_reads_def Let_def by blast
  then show ?thesis using w by (simp add: PushI420Contiguous_def PushI420_def Let_def)
qed

text \<open>
  The NV12 check takes a chroma row for \<open>width\<close> bytes. For an odd width a row has \<open>width + 1\<close>, so the
  conversion of a buffer of exactly the accepted size reads one byte past its end.
\<close>

theorem nv12_odd_width_overread:
  "i420_y_size 3 2 + word_of_int 3 * half_up 2 = 9 \<and> 9 \<in> nv12_uv_reads 3 2"
proof -
  have y: "i420_y_size 3 2 = 6" "half_up 2 = 1" by (simp_all add: i420_y_size_def half_up_def int32_range_def)
  have "9 \<in> plane_reads 6 3 4 1"
    unfolding plane_reads_def by (rule CollectI, rule exI [of _ 0], rule exI [of _ 3]) simp
  then show ?thesis using y by (simp add: nv12_uv_reads_def)
qed

text \<open>
  Generated timestamps never repeat and never go back: a frame pushed without a timestamp gets one
  above that of the frame before it.
\<close>

theorem generated_timestamps_increase:
  assumes "ResolveTimestampUs now provided s = (t1, s1)" and "ResolveTimestampUs now' 0 s1 = (t2, s2)" and "0 < t1"
  shows "t1 < t2 \<and> es_last_ts_us s2 = t2"
  using assms by (auto simp: ResolveTimestampUs_def Let_def split: if_splits)

end
