(* ===== verification/Congestion.thy ===== *)
theory Congestion
  imports RF_Prelude
begin

text \<open>
  The congestion policies of \<^verbatim>\<open>src/core/rtc/congestion\<close>: an abstract policy that turns network and
  encoder feedback into a target bitrate, its two implementations, and their factory. The arithmetic is
  on 64-bit integers, with division towards zero.
\<close>

section \<open>Feedback and decisions\<close>

record NetworkFeedback =
  nf_rtt_ms :: int
  nf_packet_loss_ppm :: int
  nf_estimated_bandwidth_bps :: int

record EncodeFeedback =
  ec_frame_size_bytes :: int
  ec_encode_time_ms :: int

record CongestionDecision =
  cd_target_bitrate_bps :: int
  cd_pacing_bitrate_bps :: int
  cd_request_keyframe :: bool

definition to_int64 :: "int \<Rightarrow> int" where
  "to_int64 v = sint (word_of_int v :: u64)"

text \<open>\<^verbatim>\<open>x * num / den\<close> on \<^verbatim>\<open>int64_t\<close>.\<close>

definition scaled :: "int \<Rightarrow> int \<Rightarrow> int \<Rightarrow> int" where
  "scaled x num den = (let p = to_int64 (x * num) in if p < 0 then - ((- p) div den) else p div den)"

definition clamp :: "int \<Rightarrow> int \<Rightarrow> int \<Rightarrow> int" where
  "clamp lo hi x = (if x < lo then lo else if hi < x then hi else x)"

section \<open>The balanced policy\<close>

record BalancedCongestionPolicy =
  bal_target_bps :: int
  bal_last_frame_size_bytes :: int

definition new_BalancedCongestionPolicy :: "int \<Rightarrow> BalancedCongestionPolicy" where
  "new_BalancedCongestionPolicy start_bps = \<lparr> bal_target_bps = max 100000 start_bps, bal_last_frame_size_bytes = 0 \<rparr>"

definition bal_OnNetworkFeedback :: "NetworkFeedback \<Rightarrow> BalancedCongestionPolicy \<Rightarrow> BalancedCongestionPolicy" where
  "bal_OnNetworkFeedback f p =
     (let t0 = bal_target_bps p;
          t1 = (if nf_estimated_bandwidth_bps f > 0 then max 100000 (scaled (nf_estimated_bandwidth_bps f) 9 10) else t0);
          t2 = (if nf_packet_loss_ppm f > 120000 then scaled t1 8 10 else t1);
          t3 = (if nf_rtt_ms f > 250 then scaled t2 9 10 else t2)
      in p\<lparr>bal_target_bps := clamp 100000 50000000 t3\<rparr>)"

definition bal_OnEncodeFeedback :: "EncodeFeedback \<Rightarrow> BalancedCongestionPolicy \<Rightarrow> BalancedCongestionPolicy" where
  "bal_OnEncodeFeedback f p =
     (let p1 = (if ec_encode_time_ms f > 35 then p\<lparr>bal_target_bps := scaled (bal_target_bps p) 95 100\<rparr> else p)
      in p1\<lparr>bal_last_frame_size_bytes := ec_frame_size_bytes f\<rparr>)"

definition bal_CurrentDecision :: "BalancedCongestionPolicy \<Rightarrow> CongestionDecision" where
  "bal_CurrentDecision p = \<lparr> cd_target_bitrate_bps = bal_target_bps p,
     cd_pacing_bitrate_bps = scaled (bal_target_bps p) 11 10, cd_request_keyframe = False \<rparr>"

section \<open>The ultra low latency policy\<close>

record UltraLowLatencyPolicy =
  ull_target_bps :: int

definition new_UltraLowLatencyPolicy :: "int \<Rightarrow> UltraLowLatencyPolicy" where
  "new_UltraLowLatencyPolicy start_bps = \<lparr> ull_target_bps = max 120000 start_bps \<rparr>"

definition ull_OnNetworkFeedback :: "NetworkFeedback \<Rightarrow> UltraLowLatencyPolicy \<Rightarrow> UltraLowLatencyPolicy" where
  "ull_OnNetworkFeedback f p =
     (let t0 = ull_target_bps p;
          t1 = (if nf_estimated_bandwidth_bps f > 0 then max 120000 (scaled (nf_estimated_bandwidth_bps f) 8 10) else t0);
          t2 = (if nf_packet_loss_ppm f > 80000 \<or> nf_rtt_ms f > 180 then scaled t1 85 100 else t1)
      in p\<lparr>ull_target_bps := clamp 120000 50000000 t2\<rparr>)"

definition ull_OnEncodeFeedback :: "EncodeFeedback \<Rightarrow> UltraLowLatencyPolicy \<Rightarrow> UltraLowLatencyPolicy" where
  "ull_OnEncodeFeedback f p =
     (if ec_encode_time_ms f > 20 then p\<lparr>ull_target_bps := scaled (ull_target_bps p) 92 100\<rparr> else p)"

definition ull_CurrentDecision :: "UltraLowLatencyPolicy \<Rightarrow> CongestionDecision" where
  "ull_CurrentDecision p = \<lparr> cd_target_bitrate_bps = ull_target_bps p, cd_pacing_bitrate_bps = ull_target_bps p,
     cd_request_keyframe = False \<rparr>"

section \<open>The factory\<close>

text \<open>A policy object behind the abstract interface.\<close>

datatype CongestionPolicy = Balanced BalancedCongestionPolicy | UltraLowLatency UltraLowLatencyPolicy

definition CreateCongestionPolicy :: "string \<Rightarrow> int \<Rightarrow> CongestionPolicy" where
  "CreateCongestionPolicy policy_name start_bitrate_bps =
     (if policy_name = ''ultra_low_latency'' then UltraLowLatency (new_UltraLowLatencyPolicy start_bitrate_bps)
      else Balanced (new_BalancedCongestionPolicy start_bitrate_bps))"

datatype feedback = Network NetworkFeedback | Encode EncodeFeedback

definition policy_feedback :: "feedback \<Rightarrow> CongestionPolicy \<Rightarrow> CongestionPolicy" where
  "policy_feedback f p =
     (case (p, f) of
        (Balanced b, Network n) \<Rightarrow> Balanced (bal_OnNetworkFeedback n b)
      | (Balanced b, Encode e) \<Rightarrow> Balanced (bal_OnEncodeFeedback e b)
      | (UltraLowLatency u, Network n) \<Rightarrow> UltraLowLatency (ull_OnNetworkFeedback n u)
      | (UltraLowLatency u, Encode e) \<Rightarrow> UltraLowLatency (ull_OnEncodeFeedback e u))"

definition CurrentDecision :: "CongestionPolicy \<Rightarrow> CongestionDecision" where
  "CurrentDecision p = (case p of Balanced b \<Rightarrow> bal_CurrentDecision b | UltraLowLatency u \<Rightarrow> ull_CurrentDecision u)"

definition policy_floor :: "string \<Rightarrow> int" where
  "policy_floor policy_name = (if policy_name = ''ultra_low_latency'' then 120000 else 100000)"

section \<open>The interface\<close>

text \<open>
  What the sender relies on: network feedback leaves the target between a floor and a ceiling, and
  encoder feedback never raises it.
\<close>

locale congestion_policy =
  fixes target :: "'p \<Rightarrow> int"
    and network :: "NetworkFeedback \<Rightarrow> 'p \<Rightarrow> 'p"
    and encode :: "EncodeFeedback \<Rightarrow> 'p \<Rightarrow> 'p"
    and lo hi :: int
  assumes floor_pos: "0 < lo" and floor_ceiling: "lo \<le> hi"
    and network_bounds: "lo \<le> target (network f p) \<and> target (network f p) \<le> hi"
    and encode_lowers: "0 \<le> target p \<Longrightarrow> target p \<le> 2 ^ 56 \<Longrightarrow> 0 \<le> target (encode e p) \<and> target (encode e p) \<le> target p"
begin

definition react :: "feedback \<Rightarrow> 'p \<Rightarrow> 'p" where
  "react f p = (case f of Network n \<Rightarrow> network n p | Encode e \<Rightarrow> encode e p)"

lemma react_bounds:
  assumes "0 \<le> target p" and "target p \<le> cap" and "hi \<le> cap" and "cap \<le> 2 ^ 56"
  shows "0 \<le> target (react f p) \<and> target (react f p) \<le> cap"
proof (cases f)
  case (Network n)
  then show ?thesis using network_bounds [of n p] floor_pos assms(3) by (simp add: react_def)
next
  case (Encode e)
  then show ?thesis using encode_lowers [of p e] assms by (simp add: react_def)
qed

lemma run_bounds:
  assumes "0 \<le> target p" and "target p \<le> cap" and "hi \<le> cap" and "cap \<le> 2 ^ 56"
  shows "0 \<le> target (fold react fs p) \<and> target (fold react fs p) \<le> cap"
  using assms
proof (induction fs arbitrary: p)
  case (Cons f fs)
  then show ?case using react_bounds [of p cap f] by simp
qed simp

lemma network_last:
  "lo \<le> target (fold react (fs @ [Network n]) p) \<and> target (fold react (fs @ [Network n]) p) \<le> hi"
  using network_bounds by (simp add: react_def)

end

lemma clamp_bounds: "lo \<le> hi \<Longrightarrow> lo \<le> clamp lo hi x \<and> clamp lo hi x \<le> hi"
  by (simp add: clamp_def)

lemma to_int64_id:
  assumes "- (2 ^ 63) \<le> v" and "v < 2 ^ 63"
  shows "to_int64 v = v"
proof -
  have "signed_take_bit 63 v = v" using assms by (simp add: signed_take_bit_int_eq_self)
  then show ?thesis by (simp add: to_int64_def sint_sbintrunc')
qed

lemma scaled_exact:
  assumes "0 \<le> x" and "x \<le> 2 ^ 56" and "0 \<le> num" and "num < 128"
  shows "scaled x num den = x * num div den"
proof -
  have "x * num \<le> 2 ^ 56 * 127" using assms by (intro mult_mono) auto
  moreover have n: "0 \<le> x * num" using assms by simp
  ultimately have "to_int64 (x * num) = x * num" by (intro to_int64_id) simp_all
  then show ?thesis using n by (simp add: scaled_def Let_def)
qed

lemma scaled_lowers:
  assumes "0 \<le> x" and "x \<le> 2 ^ 56" and "0 \<le> num" and "num < den" and "den \<le> 128"
  shows "0 \<le> scaled x num den \<and> scaled x num den \<le> x"
proof -
  have "x * num div den \<le> x * den div den" using assms by (intro zdiv_mono1 mult_left_mono) auto
  then show ?thesis using assms scaled_exact [of x num den] by (simp add: pos_imp_zdiv_nonneg_iff)
qed

interpretation bal: congestion_policy bal_target_bps bal_OnNetworkFeedback bal_OnEncodeFeedback 100000 50000000
proof unfold_locales
  fix f :: NetworkFeedback and p
  show "100000 \<le> bal_target_bps (bal_OnNetworkFeedback f p) \<and> bal_target_bps (bal_OnNetworkFeedback f p) \<le> 50000000"
    by (simp add: bal_OnNetworkFeedback_def Let_def clamp_bounds)
next
  fix e :: EncodeFeedback and p :: BalancedCongestionPolicy
  assume "0 \<le> bal_target_bps p" "bal_target_bps p \<le> 2 ^ 56"
  then show "0 \<le> bal_target_bps (bal_OnEncodeFeedback e p) \<and> bal_target_bps (bal_OnEncodeFeedback e p) \<le> bal_target_bps p"
    using scaled_lowers [of "bal_target_bps p" 95 100] by (simp add: bal_OnEncodeFeedback_def Let_def)
qed simp_all

interpretation ull: congestion_policy ull_target_bps ull_OnNetworkFeedback ull_OnEncodeFeedback 120000 50000000
proof unfold_locales
  fix f :: NetworkFeedback and p
  show "120000 \<le> ull_target_bps (ull_OnNetworkFeedback f p) \<and> ull_target_bps (ull_OnNetworkFeedback f p) \<le> 50000000"
    by (simp add: ull_OnNetworkFeedback_def Let_def clamp_bounds)
next
  fix e :: EncodeFeedback and p :: UltraLowLatencyPolicy
  assume "0 \<le> ull_target_bps p" "ull_target_bps p \<le> 2 ^ 56"
  then show "0 \<le> ull_target_bps (ull_OnEncodeFeedback e p) \<and> ull_target_bps (ull_OnEncodeFeedback e p) \<le> ull_target_bps p"
    using scaled_lowers [of "ull_target_bps p" 92 100] by (simp add: ull_OnEncodeFeedback_def Let_def)
qed simp_all

section \<open>Properties\<close>

lemma fold_Balanced: "fold policy_feedback fs (Balanced b) = Balanced (fold bal.react fs b)"
  by (induction fs arbitrary: b) (simp_all add: policy_feedback_def bal.react_def split: feedback.split)

lemma fold_UltraLowLatency: "fold policy_feedback fs (UltraLowLatency u) = UltraLowLatency (fold ull.react fs u)"
  by (induction fs arbitrary: u) (simp_all add: policy_feedback_def ull.react_def split: feedback.split)

text \<open>
  Under any sequence of feedback, either policy keeps its target bitrate non-negative and below
  the larger of 50 Mbit/s and its start value, and right after a network report the target lies
  between the policy's floor and 50 Mbit/s, whatever the report says.
\<close>

theorem congestion_target_bounds:
  assumes "start \<le> 2 ^ 56"
  shows "let d = CurrentDecision (fold policy_feedback fs (CreateCongestionPolicy name start));
             d' = CurrentDecision (fold policy_feedback (fs @ [Network n]) (CreateCongestionPolicy name start)) in
           0 \<le> cd_target_bitrate_bps d \<and> cd_target_bitrate_bps d \<le> max 50000000 start \<and>
           policy_floor name \<le> cd_target_bitrate_bps d' \<and> cd_target_bitrate_bps d' \<le> 50000000 \<and>
           \<not> cd_request_keyframe d"
proof (cases "name = ''ultra_low_latency''")
  case True
  have b: "0 \<le> ull_target_bps (new_UltraLowLatencyPolicy start)"
    "ull_target_bps (new_UltraLowLatencyPolicy start) \<le> max 50000000 start" "max 50000000 start \<le> 2 ^ 56"
    using assms by (auto simp: new_UltraLowLatencyPolicy_def)
  show ?thesis
    using True ull.run_bounds [OF b(1,2) _ b(3), of fs] ull.network_last [of fs n "new_UltraLowLatencyPolicy start"]
    by (simp add: CreateCongestionPolicy_def CurrentDecision_def fold_UltraLowLatency ull_CurrentDecision_def
        policy_floor_def Let_def del: fold_append)
next
  case False
  have b: "0 \<le> bal_target_bps (new_BalancedCongestionPolicy start)"
    "bal_target_bps (new_BalancedCongestionPolicy start) \<le> max 50000000 start" "max 50000000 start \<le> 2 ^ 56"
    using assms by (auto simp: new_BalancedCongestionPolicy_def)
  show ?thesis
    using False bal.run_bounds [OF b(1,2) _ b(3), of fs] bal.network_last [of fs n "new_BalancedCongestionPolicy start"]
    by (simp add: CreateCongestionPolicy_def CurrentDecision_def fold_Balanced bal_CurrentDecision_def
        policy_floor_def Let_def del: fold_append)
qed

theorem congestion_target_bounds_witness:
  "let d = CurrentDecision (fold policy_feedback [Encode \<lparr> ec_frame_size_bytes = 0, ec_encode_time_ms = 50 \<rparr>]
             (CreateCongestionPolicy ''balanced'' 1000000)) in
     0 \<le> cd_target_bitrate_bps d \<and> cd_target_bitrate_bps d \<le> max 50000000 1000000"
  using congestion_target_bounds [where start = 1000000 and name = "''balanced''"
      and fs = "[Encode \<lparr> ec_frame_size_bytes = 0, ec_encode_time_ms = 50 \<rparr>]" and n = "\<lparr> nf_rtt_ms = 0, nf_packet_loss_ppm = 0, nf_estimated_bandwidth_bps = 0 \<rparr>"]
  by (simp add: Let_def)

text \<open>
  The floor holds for network reports only: slow encoding alone lowers the target below it, down to 0.
\<close>

lemma slow_encoding_lowers:
  assumes "0 < bal_target_bps p" and "bal_target_bps p \<le> 2 ^ 56" and "ec_encode_time_ms e > 35"
  shows "0 \<le> bal_target_bps (bal_OnEncodeFeedback e p) \<and> bal_target_bps (bal_OnEncodeFeedback e p) < bal_target_bps p"
proof -
  have "bal_target_bps p * 95 div 100 < bal_target_bps p" using assms(1) by linarith
  then show ?thesis using assms scaled_exact [of "bal_target_bps p" 95 100]
    by (simp add: bal_OnEncodeFeedback_def Let_def pos_imp_zdiv_nonneg_iff)
qed

theorem slow_encoding_starves:
  assumes "0 \<le> bal_target_bps p" and "bal_target_bps p \<le> 2 ^ 56" and "ec_encode_time_ms e > 35"
  shows "\<exists>k. bal_target_bps ((bal_OnEncodeFeedback e ^^ k) p) = 0"
  using assms
proof (induction "nat (bal_target_bps p)" arbitrary: p rule: less_induct)
  case less
  show ?case
  proof (cases "bal_target_bps p = 0")
    case True
    then show ?thesis by (intro exI [of _ 0]) simp
  next
    case False
    let ?q = "bal_OnEncodeFeedback e p"
    have q: "0 \<le> bal_target_bps ?q" "bal_target_bps ?q < bal_target_bps p"
      using slow_encoding_lowers [of p e] less.prems False by auto
    then obtain k where "bal_target_bps ((bal_OnEncodeFeedback e ^^ k) ?q) = 0"
      using less.hyps [of ?q] less.prems by auto
    then show ?thesis by (intro exI [of _ "Suc k"]) (simp add: funpow_swap1)
  qed
qed

end
