(* ===== verification/Decoder_Recovery.thy ===== *)
theory Decoder_Recovery
  imports Runtime_Knobs Service_Publisher
begin

text \<open>
  The wrapper that resets a stuck software decoder
  (\<^verbatim>\<open>src/core/rtc/shims/builtin_video_decoder_recovery.cpp\<close>).

  The wrapped decoder is a parameter: what it answers to each call is an argument, and every call and
  every frame it delivers is appended to \<open>rv_events\<close>. A frame it delivers passes through the counting
  callback, within a \<^verbatim>\<open>Decode\<close> call or later.
\<close>

section \<open>Policy\<close>

record BuiltinDecoderRecoveryPolicy =
  rp_enabled :: bool
  rp_stall_frames_without_output :: int
  rp_proactive_reset_after_frames :: int

definition RecoveryPolicyForFormat :: "env \<Rightarrow> KnobState \<Rightarrow> string \<Rightarrow> BuiltinDecoderRecoveryPolicy" where
  "RecoveryPolicyForFormat env ks codec_mime =
     \<lparr> rp_enabled = fst (ReadBool env ''RFLOW_BUILTIN_DECODE_RECOVERY'' ks),
       rp_stall_frames_without_output = fst (ReadInt env ''RFLOW_BUILTIN_DECODE_STALL_FRAMES'' ks),
       rp_proactive_reset_after_frames =
         (if LowerCopy codec_mime = ''h264'' then fst (ReadInt env ''RFLOW_H264_DECODE_RESET_FRAME_COUNT'' ks) else 0) \<rparr>"

definition ShouldWrapCodec :: "string \<Rightarrow> BuiltinDecoderRecoveryPolicy \<Rightarrow> bool" where
  "ShouldWrapCodec codec_mime policy =
     (if \<not> rp_enabled policy then False
      else if LowerCopy codec_mime = ''h264'' then True
      else rp_stall_frames_without_output policy > 0)"

section \<open>State\<close>

definition WEBRTC_VIDEO_CODEC_OK :: int where "WEBRTC_VIDEO_CODEC_OK = 0"
definition WEBRTC_VIDEO_CODEC_NO_OUTPUT :: int where "WEBRTC_VIDEO_CODEC_NO_OUTPUT = 1"
definition WEBRTC_VIDEO_CODEC_UNINITIALIZED :: int where "WEBRTC_VIDEO_CODEC_UNINITIALIZED = - 7"

datatype decoder_event =
    DeConfigure bool
  | DeRelease
  | DeRegister
  | DeDecode bool
  | DeOutput

text \<open>A frame is described by whether it is a key frame. The count of attempts is the source's \<^verbatim>\<open>int\<close>.\<close>

record RecoveringVideoDecoder =
  rv_inner :: bool
  rv_policy :: BuiltinDecoderRecoveryPolicy
  rv_codec_label :: string
  rv_configured :: bool
  rv_user_callback :: bool
  rv_decode_attempts_without_output :: int
  rv_total_decoded_frames :: u64
  rv_recovery_count :: u32
  rv_events :: "decoder_event list"

definition new_RecoveringVideoDecoder :: "bool \<Rightarrow> BuiltinDecoderRecoveryPolicy \<Rightarrow> string \<Rightarrow> RecoveringVideoDecoder" where
  "new_RecoveringVideoDecoder inner policy label =
     \<lparr> rv_inner = inner, rv_policy = policy, rv_codec_label = label, rv_configured = False, rv_user_callback = False,
       rv_decode_attempts_without_output = 0, rv_total_decoded_frames = 0, rv_recovery_count = 0, rv_events = [] \<rparr>"

text \<open>The factory's \<^verbatim>\<open>Create\<close>: None is null, Inl the plain decoder, Inr the wrapped one.\<close>

definition recovering_Create ::
  "env \<Rightarrow> KnobState \<Rightarrow> 'inner option \<Rightarrow> string \<Rightarrow> ('inner + RecoveringVideoDecoder) option" where
  "recovering_Create env ks inner format_name =
     (case inner of None \<Rightarrow> None
      | Some d \<Rightarrow> let policy = RecoveryPolicyForFormat env ks format_name
                  in if \<not> ShouldWrapCodec format_name policy then Some (Inl d)
                     else Some (Inr (new_RecoveringVideoDecoder True policy format_name)))"

definition dec_event :: "decoder_event \<Rightarrow> RecoveringVideoDecoder \<Rightarrow> RecoveringVideoDecoder" where
  "dec_event e d = d\<lparr>rv_events := rv_events d @ [e]\<rparr>"

section \<open>Operations\<close>

text \<open>In \<open>Configure\<close> the argument is what the inner decoder answers.\<close>

definition Configure :: "bool \<Rightarrow> RecoveringVideoDecoder \<Rightarrow> bool \<times> RecoveringVideoDecoder" where
  "Configure ok d =
     (if \<not> rv_inner d then (False, d\<lparr>rv_configured := False\<rparr>)
      else (ok, dec_event (DeConfigure ok) (d\<lparr>rv_configured := ok\<rparr>)))"

definition Release :: "int \<Rightarrow> RecoveringVideoDecoder \<Rightarrow> int \<times> RecoveringVideoDecoder" where
  "Release ret d =
     (let d1 = d\<lparr>rv_configured := False, rv_decode_attempts_without_output := 0\<rparr>
      in if rv_inner d then (ret, dec_event DeRelease d1) else (WEBRTC_VIDEO_CODEC_OK, d1))"

definition RegisterDecodeCompleteCallback :: "int \<Rightarrow> bool \<Rightarrow> RecoveringVideoDecoder \<Rightarrow> int \<times> RecoveringVideoDecoder" where
  "RegisterDecodeCompleteCallback ret callback d =
     (let d1 = d\<lparr>rv_user_callback := callback\<rparr>
      in if rv_inner d then (ret, dec_event DeRegister d1) else (WEBRTC_VIDEO_CODEC_UNINITIALIZED, d1))"

definition OnDecodedOutput :: "RecoveringVideoDecoder \<Rightarrow> RecoveringVideoDecoder" where
  "OnDecodedOutput d =
     dec_event DeOutput (d\<lparr>rv_decode_attempts_without_output := 0, rv_total_decoded_frames := rv_total_decoded_frames d + 1\<rparr>)"

definition TryRecover :: "bool \<Rightarrow> RecoveringVideoDecoder \<Rightarrow> bool \<times> RecoveringVideoDecoder" where
  "TryRecover reconfigured d =
     (if \<not> rv_inner d \<or> \<not> rv_configured d then (False, d)
      else let d1 = dec_event DeRelease (d\<lparr>rv_recovery_count := rv_recovery_count d + 1\<rparr>);
               d2 = dec_event (DeConfigure reconfigured) d1
           in if \<not> reconfigured then (False, d2\<lparr>rv_configured := False\<rparr>)
              else let d3 = d2\<lparr>rv_decode_attempts_without_output := 0, rv_total_decoded_frames := 0\<rparr>
                   in (True, if rv_user_callback d3 then dec_event DeRegister d3 else d3))"

definition MaybeProactiveReset :: "bool \<Rightarrow> bool \<Rightarrow> RecoveringVideoDecoder \<Rightarrow> RecoveringVideoDecoder" where
  "MaybeProactiveReset reconfigured key d =
     (if \<not> rp_enabled (rv_policy d) \<or> \<not> rv_configured d \<or> rp_proactive_reset_after_frames (rv_policy d) \<le> 0 then d
      else if rv_total_decoded_frames d < word_of_int (rp_proactive_reset_after_frames (rv_policy d)) then d
      else if \<not> key then d
      else snd (TryRecover reconfigured d))"

text \<open>
  One call of the inner \<^verbatim>\<open>Decode\<close> with the increment after it: the inner decoder returns a code and
  delivers a number of frames before it returns.
\<close>

definition inner_Decode :: "bool \<Rightarrow> int \<times> nat \<Rightarrow> RecoveringVideoDecoder \<Rightarrow> int \<times> RecoveringVideoDecoder" where
  "inner_Decode key answer d =
     (let d1 = (OnDecodedOutput ^^ snd answer) (dec_event (DeDecode key) d)
      in (fst answer, d1\<lparr>rv_decode_attempts_without_output := rv_decode_attempts_without_output d1 + 1\<rparr>))"

text \<open>What the inner decoder answers during one \<^verbatim>\<open>Decode\<close>: three reconfigurations and three decodes at most.\<close>

record decode_answers =
  da_proactive :: bool
  da_first :: "int \<times> nat"
  da_error :: bool
  da_second :: "int \<times> nat"
  da_stall :: bool
  da_third :: "int \<times> nat"

definition retry_after_error ::
  "decode_answers \<Rightarrow> bool \<Rightarrow> int \<Rightarrow> RecoveringVideoDecoder \<Rightarrow> int \<times> RecoveringVideoDecoder" where
  "retry_after_error a key ret d =
     (if ret \<noteq> WEBRTC_VIDEO_CODEC_OK \<and> ret \<noteq> WEBRTC_VIDEO_CODEC_NO_OUTPUT
      then (let (ok, dr) = TryRecover (da_error a) d in if ok then inner_Decode key (da_second a) dr else (ret, dr))
      else (ret, d))"

definition reset_when_stalled ::
  "decode_answers \<Rightarrow> bool \<Rightarrow> int \<Rightarrow> RecoveringVideoDecoder \<Rightarrow> int \<times> RecoveringVideoDecoder" where
  "reset_when_stalled a key ret d =
     (if rp_enabled (rv_policy d) \<and> rv_decode_attempts_without_output d \<ge> rp_stall_frames_without_output (rv_policy d)
      then (let (ok, dr) = TryRecover (da_stall a) d
            in if ok then (WEBRTC_VIDEO_CODEC_OK, snd (inner_Decode key (da_third a) dr)) else (ret, dr))
      else (ret, d))"

definition Decode :: "decode_answers \<Rightarrow> bool \<Rightarrow> RecoveringVideoDecoder \<Rightarrow> int \<times> RecoveringVideoDecoder" where
  "Decode a key d =
     (if \<not> rv_inner d then (WEBRTC_VIDEO_CODEC_UNINITIALIZED, d)
      else let (ret1, d1) = inner_Decode key (da_first a) (MaybeProactiveReset (da_proactive a) key d);
               (ret2, d2) = retry_after_error a key ret1 d1
           in reset_when_stalled a key ret2 d2)"

definition decoder_implementation_name :: "string option \<Rightarrow> RecoveringVideoDecoder \<Rightarrow> string" where
  "decoder_implementation_name inner_name d =
     (let name = (if rv_inner d then case_option [] id inner_name else [])
      in (if name = [] then rv_codec_label d else name) @ ''+recovery'')"

section \<open>Runs\<close>

datatype decoder_input = InDecode decode_answers bool | InOutput

definition decoder_step :: "decoder_input \<Rightarrow> RecoveringVideoDecoder \<Rightarrow> RecoveringVideoDecoder" where
  "decoder_step i d = (case i of InDecode a key \<Rightarrow> snd (Decode a key d) | InOutput \<Rightarrow> OnDecodedOutput d)"

text \<open>How many frames the inner decoder was given since it last delivered one or was last reset.\<close>

fun silent_decodes :: "nat \<Rightarrow> decoder_event list \<Rightarrow> nat" where
  "silent_decodes n [] = n"
| "silent_decodes n (e # es) =
     silent_decodes (case e of DeDecode _ \<Rightarrow> Suc n | DeOutput \<Rightarrow> 0 | DeConfigure ok \<Rightarrow> (if ok then 0 else n) | _ \<Rightarrow> n) es"

definition resets_succeed :: "decoder_input \<Rightarrow> bool" where
  "resets_succeed i = (case i of InDecode a _ \<Rightarrow> da_proactive a \<and> da_error a \<and> da_stall a | InOutput \<Rightarrow> True)"

text \<open>A decoder in use, whose counter has not reached the limit.\<close>

definition decoder_ok :: "RecoveringVideoDecoder \<Rightarrow> bool" where
  "decoder_ok d \<longleftrightarrow> rv_inner d \<and> rv_configured d \<and>
     int (silent_decodes 0 (rv_events d)) \<le> rv_decode_attempts_without_output d \<and>
     rv_decode_attempts_without_output d < rp_stall_frames_without_output (rv_policy d)"

section \<open>Properties\<close>

lemma stall_frames_range:
  "5 \<le> fst (ReadInt env ''RFLOW_BUILTIN_DECODE_STALL_FRAMES'' ks)"
proof -
  have "map_option (\<lambda>s. (ks_default_int s, ks_min_int s, ks_max_int s)) (FindSpec ''RFLOW_BUILTIN_DECODE_STALL_FRAMES'')
          = Some (45, 5, 600)"
    by code_simp
  then obtain s where s: "FindSpec ''RFLOW_BUILTIN_DECODE_STALL_FRAMES'' = Some s" "ks_default_int s = 45"
      "ks_min_int s = 5" "ks_max_int s = 600" by auto
  show ?thesis
    using s ParseLong_range [of 5 600 "fst (ResolveEnv env s)" 45] ParseLong_int32 [OF s(1), of "fst (ResolveEnv env s)"]
    by (auto simp: ReadInt_def split_beta)
qed

lemma silent_decodes_append: "silent_decodes n (es @ es') = silent_decodes (silent_decodes n es) es'"
  by (induction es arbitrary: n) auto

text \<open>The part of the invariant that holds between the steps of one call.\<close>

definition decoder_live :: "RecoveringVideoDecoder \<Rightarrow> bool" where
  "decoder_live d \<longleftrightarrow> rv_inner d \<and> rv_configured d \<and>
     int (silent_decodes 0 (rv_events d)) \<le> rv_decode_attempts_without_output d"

lemma dec_event_simps [simp]:
  "rv_inner (dec_event e d) = rv_inner d" "rv_configured (dec_event e d) = rv_configured d"
  "rv_policy (dec_event e d) = rv_policy d" "rv_user_callback (dec_event e d) = rv_user_callback d"
  "rv_decode_attempts_without_output (dec_event e d) = rv_decode_attempts_without_output d"
  "rv_events (dec_event e d) = rv_events d @ [e]"
  by (simp_all add: dec_event_def)

lemma OnDecodedOutput_live:
  "rv_inner (OnDecodedOutput d) = rv_inner d" "rv_configured (OnDecodedOutput d) = rv_configured d"
  "rv_policy (OnDecodedOutput d) = rv_policy d"
  "rv_decode_attempts_without_output (OnDecodedOutput d) = 0"
  "silent_decodes 0 (rv_events (OnDecodedOutput d)) = 0"
  by (simp_all add: OnDecodedOutput_def silent_decodes_append)

lemma outputs_live:
  "rv_inner ((OnDecodedOutput ^^ n) d) = rv_inner d \<and> rv_configured ((OnDecodedOutput ^^ n) d) = rv_configured d \<and>
   rv_policy ((OnDecodedOutput ^^ n) d) = rv_policy d"
  by (induction n) (simp_all add: OnDecodedOutput_live)

lemma inner_Decode_live:
  assumes "decoder_live d"
  shows "decoder_live (snd (inner_Decode key ans d)) \<and> rv_policy (snd (inner_Decode key ans d)) = rv_policy d \<and>
         rv_decode_attempts_without_output (snd (inner_Decode key ans d)) \<le> rv_decode_attempts_without_output d + 1"
proof (cases "snd ans")
  case 0
  then show ?thesis using assms by (simp add: inner_Decode_def decoder_live_def silent_decodes_append)
next
  case (Suc n)
  then show ?thesis
    using assms outputs_live [of n "dec_event (DeDecode key) d"]
    by (simp add: inner_Decode_def decoder_live_def OnDecodedOutput_live)
qed

lemma TryRecover_live:
  assumes "decoder_live d"
  shows "fst (TryRecover True d) \<and> decoder_live (snd (TryRecover True d)) \<and>
         rv_policy (snd (TryRecover True d)) = rv_policy d \<and>
         rv_decode_attempts_without_output (snd (TryRecover True d)) = 0"
  using assms by (simp add: TryRecover_def decoder_live_def Let_def silent_decodes_append)

lemma MaybeProactiveReset_live:
  assumes "decoder_live d"
  shows "decoder_live (MaybeProactiveReset True key d) \<and> rv_policy (MaybeProactiveReset True key d) = rv_policy d \<and>
         rv_decode_attempts_without_output (MaybeProactiveReset True key d) \<le> rv_decode_attempts_without_output d"
  using assms TryRecover_live [OF assms] by (auto simp: MaybeProactiveReset_def decoder_live_def)

lemma OnDecodedOutput_ok: "decoder_ok d \<Longrightarrow> decoder_ok (OnDecodedOutput d)"
  by (simp add: decoder_ok_def OnDecodedOutput_live)

lemma Decode_ok:
  assumes "decoder_ok d" and "rp_enabled (rv_policy d)" and "2 \<le> rp_stall_frames_without_output (rv_policy d)"
    and "da_proactive a" and "da_error a" and "da_stall a"
  shows "decoder_ok (snd (Decode a key d)) \<and> rv_policy (snd (Decode a key d)) = rv_policy d"
proof -
  let ?d0 = "MaybeProactiveReset True key d"
  have live: "decoder_live d" using assms(1) by (simp add: decoder_ok_def decoder_live_def)
  note p = MaybeProactiveReset_live [OF live, of key]
  obtain r1 d1 where d1: "inner_Decode key (da_first a) ?d0 = (r1, d1)" by fastforce
  have l1: "decoder_live d1" "rv_policy d1 = rv_policy d" using inner_Decode_live [of ?d0 key "da_first a"] p d1 by auto
  obtain r2 d2 where d2: "retry_after_error a key r1 d1 = (r2, d2)" by fastforce
  have l2: "decoder_live d2" "rv_policy d2 = rv_policy d"
    using d2 l1 assms(5) TryRecover_live [OF l1(1)] inner_Decode_live [of "snd (TryRecover True d1)" key "da_second a"]
    by (auto simp: retry_after_error_def Let_def split: if_splits prod.splits)
  have D: "Decode a key d = reset_when_stalled a key r2 d2"
    using assms(1,4) d1 d2 by (simp add: Decode_def decoder_ok_def)
  show ?thesis
  proof (cases "rv_decode_attempts_without_output d2 \<ge> rp_stall_frames_without_output (rv_policy d)")
    case True
    note t = TryRecover_live [OF l2(1)]
    note i = inner_Decode_live [of "snd (TryRecover True d2)" key "da_third a"]
    have "Decode a key d = (WEBRTC_VIDEO_CODEC_OK, snd (inner_Decode key (da_third a) (snd (TryRecover True d2))))"
      using D True t l2(2) assms(2,6) by (simp add: reset_when_stalled_def split_beta Let_def)
    then show ?thesis using t i l2(2) assms(3) by (simp add: decoder_ok_def decoder_live_def)
  next
    case False
    then show ?thesis using D l2 by (simp add: decoder_ok_def decoder_live_def reset_when_stalled_def)
  qed
qed

text \<open>
  C30: A stuck decoder does not stay stuck. For the limits the environment allows (at least five frames)
  and as long as the inner decoder can be configured again, after any sequence of frames to decode and
  frames delivered - errors, silence and key frames in any order - the inner decoder has been given
  fewer frames than the configured limit since it last delivered one or was last reset.
\<close>

theorem decoder_stall_bounded:
  assumes "decoder_ok d" and "rv_policy d = RecoveryPolicyForFormat env ks mime" and "rp_enabled (rv_policy d)"
    and "list_all resets_succeed inputs"
  shows "int (silent_decodes 0 (rv_events (fold decoder_step inputs d)))
           < fst (ReadInt env ''RFLOW_BUILTIN_DECODE_STALL_FRAMES'' ks) \<and>
         rv_configured (fold decoder_step inputs d)"
proof -
  have "5 \<le> fst (ReadInt env ''RFLOW_BUILTIN_DECODE_STALL_FRAMES'' ks)"
    by (rule stall_frames_range)
  then have two: "2 \<le> rp_stall_frames_without_output (rv_policy d)"
    using assms(2) by (simp add: RecoveryPolicyForFormat_def)
  have "decoder_ok (fold decoder_step inputs d) \<and> rv_policy (fold decoder_step inputs d) = rv_policy d"
    using assms(1,3,4) two
  proof (induction inputs arbitrary: d)
    case (Cons i inps)
    have "decoder_ok (decoder_step i d) \<and> rv_policy (decoder_step i d) = rv_policy d"
    proof (cases i)
      case (InDecode a key)
      then show ?thesis using Cons.prems Decode_ok [of d a key] by (simp add: decoder_step_def resets_succeed_def)
    qed (use Cons.prems in \<open>simp add: decoder_step_def OnDecodedOutput_ok OnDecodedOutput_live\<close>)
    then show ?case using Cons.IH [of "decoder_step i d"] Cons.prems by simp
  qed simp
  then show ?thesis using assms(2) by (auto simp: decoder_ok_def RecoveryPolicyForFormat_def)
qed

definition silent_answers :: decode_answers where
  "silent_answers = \<lparr> da_proactive = True, da_first = (1, 0), da_error = True, da_second = (1, 0), da_stall = True,
     da_third = (1, 0) \<rparr>"

definition demo_decoder :: RecoveringVideoDecoder where
  "demo_decoder = snd (Configure True
     (new_RecoveringVideoDecoder True (RecoveryPolicyForFormat (\<lambda>_. None) no_warnings ''H264'') ''H264''))"

theorem decoder_stall_bounded_witness:
  "int (silent_decodes 0 (rv_events (fold decoder_step (replicate 100 (InDecode silent_answers False)) demo_decoder)))
     < fst (ReadInt (\<lambda>_. None) ''RFLOW_BUILTIN_DECODE_STALL_FRAMES'' no_warnings)"
proof -
  have e: "rp_enabled (rv_policy demo_decoder)" by code_simp
  have p: "rv_policy demo_decoder = RecoveryPolicyForFormat (\<lambda>_. None) no_warnings ''H264''"
    by (simp add: demo_decoder_def Configure_def new_RecoveringVideoDecoder_def)
  have ok: "decoder_ok demo_decoder"
    using stall_frames_range [of "\<lambda>_. None" no_warnings]
    by (simp add: decoder_ok_def demo_decoder_def Configure_def new_RecoveringVideoDecoder_def RecoveryPolicyForFormat_def)
  have "list_all resets_succeed (replicate 100 (InDecode silent_answers False))"
    by (simp add: list_all_iff resets_succeed_def silent_answers_def)
  from decoder_stall_bounded [OF ok p e this] show ?thesis by simp
qed

text \<open>
  A reset that fails is not tried again: once the inner decoder refuses its configuration the wrapper
  only passes frames on, and nothing but a new \<^verbatim>\<open>Configure\<close> of its owner brings the recovery back.
\<close>

lemma recovery_needs_configuration: "\<not> rv_configured d \<Longrightarrow> TryRecover r d = (False, d)"
  by (simp add: TryRecover_def)

theorem failed_reset_is_final:
  assumes "\<not> rv_configured d" and "rv_inner d"
  shows "\<not> rv_configured (fold decoder_step inputs d) \<and>
         rv_recovery_count (fold decoder_step inputs d) = rv_recovery_count d"
  using assms
proof (induction inputs arbitrary: d)
  case (Cons i inps)
  have o: "rv_recovery_count ((OnDecodedOutput ^^ n) d') = rv_recovery_count d'" for n d'
    by (induction n) (simp_all add: OnDecodedOutput_def dec_event_def)
  have "\<not> rv_configured (decoder_step i d) \<and> rv_inner (decoder_step i d) \<and>
        rv_recovery_count (decoder_step i d) = rv_recovery_count d"
  proof (cases i)
    case (InDecode a key)
    let ?d1 = "snd (inner_Decode key (da_first a) d)"
    have d1: "\<not> rv_configured ?d1" "rv_inner ?d1" "rv_recovery_count ?d1 = rv_recovery_count d"
      using Cons.prems outputs_live [of "snd (da_first a)" "dec_event (DeDecode key) d"]
        o [of "snd (da_first a)" "dec_event (DeDecode key) d"]
      by (simp_all add: inner_Decode_def dec_event_def Let_def)
    have "snd (Decode a key d) = ?d1"
      using Cons.prems d1(1)
      by (simp add: Decode_def MaybeProactiveReset_def retry_after_error_def reset_when_stalled_def
          recovery_needs_configuration split_beta Let_def)
    then show ?thesis using InDecode d1 by (simp add: decoder_step_def)
  qed (use Cons.prems in \<open>simp add: decoder_step_def OnDecodedOutput_def dec_event_def\<close>)
  then show ?case using Cons.IH [of "decoder_step i d"] by simp
qed simp

text \<open>A reset without an error and before a stall happens only at a key frame.\<close>

theorem proactive_reset_at_key_frame:
  assumes "fst (da_first a) = WEBRTC_VIDEO_CODEC_OK" and "snd (da_first a) > 0"
    and "2 \<le> rp_stall_frames_without_output (rv_policy d)" and "\<not> key"
  shows "rv_recovery_count (snd (Decode a key d)) = rv_recovery_count d"
proof -
  have o: "rv_recovery_count ((OnDecodedOutput ^^ n) d') = rv_recovery_count d'" for n d'
    by (induction n) (simp_all add: OnDecodedOutput_def dec_event_def)
  obtain n where n: "snd (da_first a) = Suc n" using assms(2) gr0_implies_Suc by blast
  have "rv_policy ((OnDecodedOutput ^^ n) (dec_event (DeDecode key) d)) = rv_policy d"
    using outputs_live [of n "dec_event (DeDecode key) d"] by simp
  then show ?thesis
    using assms n o [of n "dec_event (DeDecode key) d"]
    by (simp add: Decode_def MaybeProactiveReset_def retry_after_error_def reset_when_stalled_def inner_Decode_def
        OnDecodedOutput_live Let_def) (simp add: OnDecodedOutput_def dec_event_def)
qed

end
