(* ===== verification/Rtc_Stats.thy ===== *)
theory Rtc_Stats
  imports Complex_Main Client_Sdk Service_Sdk Push_Streamer
begin

text \<open>
  Statistics of a stream: the sums over a WebRTC report
  (\<^verbatim>\<open>src/core/rtc/outbound_video_stats_aggregation.cpp\<close>, \<^verbatim>\<open>inbound_video_stats_aggregation.cpp\<close>,
  \<^verbatim>\<open>ice_nominated_pair_rtt.cpp\<close>), the blocking request for one (\<^verbatim>\<open>rtc_sync_stats.cpp\<close>), and what the two
  libraries make of it (\<^verbatim>\<open>PushStreamer::CollectStats\<close>, \<^verbatim>\<open>RtcStreamSession::CollectStats\<close> and
  \<^verbatim>\<open>OnWatchdogStats\<close>).

  A report is the list of its rows of each kind, with the fields the code reads. A \<^verbatim>\<open>double\<close> is a rational
  number, without the rounding of floating point; a conversion to an unsigned integer truncates.
\<close>

section \<open>Reports\<close>

record RTCOutboundRtpStreamStats =
  os_id :: string
  os_ssrc :: "u32 option"
  os_kind :: "string option"
  os_bytes_sent :: "u64 option"
  os_packets_sent :: "u64 option"
  os_retransmitted_packets_sent :: "u64 option"
  os_frames_encoded :: "u32 option"
  os_key_frames_encoded :: "u32 option"
  os_frame_width :: "u32 option"
  os_frame_height :: "u32 option"
  os_frames_per_second :: "rat option"
  os_quality_limitation_reason :: "string option"
  os_quality_limitation_resolution_changes :: "u32 option"

record RTCRemoteInboundRtpStreamStats =
  ri_kind :: "string option"
  ri_packets_lost :: "int option"
  ri_round_trip_time :: "rat option"

record RTCIceCandidatePairStats =
  cp_nominated :: "bool option"
  cp_current_round_trip_time :: "rat option"
  cp_total_round_trip_time :: "rat option"
  cp_responses_received :: "u64 option"
  cp_available_outgoing_bitrate :: "rat option"
  cp_available_incoming_bitrate :: "rat option"

record RTCInboundRtpStreamStats =
  is_kind :: "string option"
  is_codec_id :: "string option"
  is_bytes_received :: "u64 option"
  is_packets_received :: "u32 option"
  is_packets_lost :: "int option"
  is_frames_decoded :: "u32 option"
  is_frames_dropped :: "u32 option"
  is_frames_per_second :: "rat option"
  is_jitter :: "rat option"
  is_freeze_count :: "u32 option"
  is_jitter_buffer_delay :: "rat option"
  is_jitter_buffer_emitted_count :: "u64 option"
  is_fec_packets_received :: "u64 option"
  is_nack_count :: "u32 option"
  is_pli_count :: "u32 option"
  is_fir_count :: "u32 option"
  is_frame_width :: "u32 option"
  is_frame_height :: "u32 option"
  is_total_decode_time :: "rat option"
  is_total_processing_delay :: "rat option"
  is_total_assembly_time :: "rat option"
  is_decoder_implementation :: "string option"

record RTCCodecStats =
  cs_id :: string
  cs_mime_type :: "string option"
  cs_sdp_fmtp_line :: "string option"
  cs_payload_type :: "u32 option"

record RTCStatsReport =
  rr_outbound :: "RTCOutboundRtpStreamStats list"
  rr_remote_inbound :: "RTCRemoteInboundRtpStreamStats list"
  rr_pairs :: "RTCIceCandidatePairStats list"
  rr_inbound :: "RTCInboundRtpStreamStats list"
  rr_codecs :: "RTCCodecStats list"

text \<open>\<^verbatim>\<open>static_cast<uint32_t>\<close> of a double, and of a double plus one half.\<close>

definition trunc_u32 :: "rat \<Rightarrow> u32" where
  "trunc_u32 x = word_of_int (if 0 \<le> x then \<lfloor>x\<rfloor> else \<lceil>x\<rceil>)"

definition round_u32 :: "rat \<Rightarrow> u32" where
  "round_u32 x = trunc_u32 (x + 1 / 2)"

text \<open>\<^verbatim>\<open>if (v) x += *v\<close> and \<^verbatim>\<open>if (v) x = std::max(x, *v)\<close>.\<close>

definition add_opt :: "'a::plus option \<Rightarrow> 'a \<Rightarrow> 'a" where
  "add_opt v x = (case v of None \<Rightarrow> x | Some y \<Rightarrow> x + y)"

definition max_opt :: "'a::linorder option \<Rightarrow> 'a \<Rightarrow> 'a" where
  "max_opt v x = (case v of None \<Rightarrow> x | Some y \<Rightarrow> max x y)"

definition positive_lost :: "int option \<Rightarrow> u32 option" where
  "positive_lost v = (case v of Some n \<Rightarrow> if n > 0 then Some (word_of_int n) else None | None \<Rightarrow> None)"

section \<open>Outbound sums\<close>

record OutboundPublisherVideoAggregation =
  oa_out_bytes :: u64
  oa_out_pkts :: u64
  oa_lost_pkts :: u32
  oa_fps :: u32
  oa_bitrate_kbps :: u32
  oa_rtt_ms :: u32

definition outbound_init :: OutboundPublisherVideoAggregation where
  "outbound_init = \<lparr> oa_out_bytes = 0, oa_out_pkts = 0, oa_lost_pkts = 0, oa_fps = 0, oa_bitrate_kbps = 0, oa_rtt_ms = 0 \<rparr>"

definition outbound_row :: "OutboundPublisherVideoAggregation \<Rightarrow> RTCOutboundRtpStreamStats \<Rightarrow> OutboundPublisherVideoAggregation" where
  "outbound_row out s =
     (if os_kind s \<noteq> Some ''video'' then out
      else out\<lparr>oa_out_bytes := add_opt (os_bytes_sent s) (oa_out_bytes out),
               oa_out_pkts := add_opt (os_packets_sent s) (oa_out_pkts out),
               oa_fps := max_opt (map_option round_u32 (os_frames_per_second s)) (oa_fps out)\<rparr>)"

definition remote_inbound_row :: "OutboundPublisherVideoAggregation \<Rightarrow> RTCRemoteInboundRtpStreamStats \<Rightarrow> OutboundPublisherVideoAggregation" where
  "remote_inbound_row out s =
     (if ri_kind s \<noteq> Some ''video'' then out
      else out\<lparr>oa_lost_pkts := add_opt (positive_lost (ri_packets_lost s)) (oa_lost_pkts out),
               oa_rtt_ms := max_opt (map_option (\<lambda>t. round_u32 (t * 1000)) (ri_round_trip_time s)) (oa_rtt_ms out)\<rparr>)"

definition outbound_pair_row :: "OutboundPublisherVideoAggregation \<Rightarrow> RTCIceCandidatePairStats \<Rightarrow> OutboundPublisherVideoAggregation" where
  "outbound_pair_row out p =
     out\<lparr>oa_rtt_ms := max_opt (map_option (\<lambda>t. round_u32 (t * 1000)) (cp_current_round_trip_time p)) (oa_rtt_ms out),
         oa_bitrate_kbps := max_opt (map_option (\<lambda>b. round_u32 (b / 1000)) (cp_available_outgoing_bitrate p)) (oa_bitrate_kbps out)\<rparr>"

definition AccumulateOutboundPublisherVideoFromReport ::
  "RTCStatsReport option \<Rightarrow> OutboundPublisherVideoAggregation \<Rightarrow> OutboundPublisherVideoAggregation" where
  "AccumulateOutboundPublisherVideoFromReport report out =
     (case report of None \<Rightarrow> out
      | Some r \<Rightarrow> foldl outbound_pair_row
                   (foldl remote_inbound_row (foldl outbound_row out (rr_outbound r)) (rr_remote_inbound r)) (rr_pairs r))"

section \<open>Inbound sums\<close>

record InboundVideoRtpAggregation =
  ia_bytes_received :: u64
  ia_packets_received :: u64
  ia_lost_pkts_positive_sum :: u32
  ia_packets_lost_signed :: int
  ia_frames_decoded :: u64
  ia_frames_dropped_sum :: u64
  ia_frames_dropped_max :: u64
  ia_fps_uint :: u32
  ia_fps_double :: rat
  ia_jitter_ms_max :: u32
  ia_jitter_seconds_max :: rat
  ia_freeze_count_max :: u32
  ia_jitter_buffer_delay_seconds :: rat
  ia_jitter_buffer_emitted_count :: u64
  ia_fec_packets_received :: u64
  ia_nack_count_max :: u32
  ia_pli_count_max :: u32
  ia_fir_count_max :: u32
  ia_frame_width :: u32
  ia_frame_height :: u32
  ia_total_decode_time_s :: rat
  ia_total_processing_delay_s :: rat
  ia_total_assembly_time_s :: rat
  ia_decoder_implementation :: string
  ia_codec_id :: string
  ia_have_video :: bool

definition inbound_init :: InboundVideoRtpAggregation where
  "inbound_init = \<lparr> ia_bytes_received = 0, ia_packets_received = 0, ia_lost_pkts_positive_sum = 0, ia_packets_lost_signed = 0,
     ia_frames_decoded = 0, ia_frames_dropped_sum = 0, ia_frames_dropped_max = 0, ia_fps_uint = 0, ia_fps_double = 0,
     ia_jitter_ms_max = 0, ia_jitter_seconds_max = 0, ia_freeze_count_max = 0, ia_jitter_buffer_delay_seconds = 0,
     ia_jitter_buffer_emitted_count = 0, ia_fec_packets_received = 0, ia_nack_count_max = 0, ia_pli_count_max = 0,
     ia_fir_count_max = 0, ia_frame_width = 0, ia_frame_height = 0, ia_total_decode_time_s = 0,
     ia_total_processing_delay_s = 0, ia_total_assembly_time_s = 0, ia_decoder_implementation = [], ia_codec_id = [],
     ia_have_video = False \<rparr>"

definition first_text :: "string option \<Rightarrow> string \<Rightarrow> string" where
  "first_text v x = (case v of Some t \<Rightarrow> if x = [] then t else x | None \<Rightarrow> x)"

definition dropped_frames :: "RTCInboundRtpStreamStats \<Rightarrow> u64" where
  "dropped_frames s = (case is_frames_dropped s of Some n \<Rightarrow> ucast n | None \<Rightarrow> 0)"

definition inbound_row :: "InboundVideoRtpAggregation \<Rightarrow> RTCInboundRtpStreamStats \<Rightarrow> InboundVideoRtpAggregation" where
  "inbound_row out s =
     (if is_kind s \<noteq> Some ''video'' then out
      else \<lparr> ia_bytes_received = add_opt (is_bytes_received s) (ia_bytes_received out),
        ia_packets_received = add_opt (map_option ucast (is_packets_received s)) (ia_packets_received out),
        ia_lost_pkts_positive_sum = add_opt (positive_lost (is_packets_lost s)) (ia_lost_pkts_positive_sum out),
        ia_packets_lost_signed = add_opt (is_packets_lost s) (ia_packets_lost_signed out),
        ia_frames_decoded = add_opt (map_option ucast (is_frames_decoded s)) (ia_frames_decoded out),
        ia_frames_dropped_sum = ia_frames_dropped_sum out + dropped_frames s,
        ia_frames_dropped_max = max (ia_frames_dropped_max out) (dropped_frames s),
        ia_fps_uint = max_opt (map_option round_u32 (is_frames_per_second s)) (ia_fps_uint out),
        ia_fps_double = max_opt (is_frames_per_second s) (ia_fps_double out),
        ia_jitter_ms_max = max_opt (map_option (\<lambda>t. round_u32 (t * 1000)) (is_jitter s)) (ia_jitter_ms_max out),
        ia_jitter_seconds_max = max_opt (is_jitter s) (ia_jitter_seconds_max out),
        ia_freeze_count_max = max_opt (is_freeze_count s) (ia_freeze_count_max out),
        ia_jitter_buffer_delay_seconds = add_opt (is_jitter_buffer_delay s) (ia_jitter_buffer_delay_seconds out),
        ia_jitter_buffer_emitted_count = add_opt (is_jitter_buffer_emitted_count s) (ia_jitter_buffer_emitted_count out),
        ia_fec_packets_received = add_opt (is_fec_packets_received s) (ia_fec_packets_received out),
        ia_nack_count_max = max_opt (is_nack_count s) (ia_nack_count_max out),
        ia_pli_count_max = max_opt (is_pli_count s) (ia_pli_count_max out),
        ia_fir_count_max = max_opt (is_fir_count s) (ia_fir_count_max out),
        ia_frame_width = max_opt (is_frame_width s) (ia_frame_width out),
        ia_frame_height = max_opt (is_frame_height s) (ia_frame_height out),
        ia_total_decode_time_s = add_opt (is_total_decode_time s) (ia_total_decode_time_s out),
        ia_total_processing_delay_s = add_opt (is_total_processing_delay s) (ia_total_processing_delay_s out),
        ia_total_assembly_time_s = add_opt (is_total_assembly_time s) (ia_total_assembly_time_s out),
        ia_decoder_implementation = first_text (is_decoder_implementation s) (ia_decoder_implementation out),
        ia_codec_id = first_text (is_codec_id s) (ia_codec_id out),
        ia_have_video = True \<rparr>)"

definition AccumulateInboundVideoRtpFromReport ::
  "RTCStatsReport option \<Rightarrow> InboundVideoRtpAggregation \<Rightarrow> InboundVideoRtpAggregation" where
  "AccumulateInboundVideoRtpFromReport report out =
     (case report of None \<Rightarrow> out | Some r \<Rightarrow> foldl inbound_row out (rr_inbound r))"

definition incoming_pair_row :: "u32 \<times> u32 \<Rightarrow> RTCIceCandidatePairStats \<Rightarrow> u32 \<times> u32" where
  "incoming_pair_row acc p =
     (max_opt (map_option (\<lambda>t. round_u32 (t * 1000)) (cp_current_round_trip_time p)) (fst acc),
      max_opt (map_option (\<lambda>b. round_u32 (b / 1000)) (cp_available_incoming_bitrate p)) (snd acc))"

definition AccumulateIncomingIcePairMetricsFromReport :: "RTCStatsReport option \<Rightarrow> u32 \<times> u32 \<Rightarrow> u32 \<times> u32" where
  "AccumulateIncomingIcePairMetricsFromReport report acc =
     (case report of None \<Rightarrow> acc | Some r \<Rightarrow> foldl incoming_pair_row acc (rr_pairs r))"

section \<open>Round trip time of the nominated pair\<close>

record IceNominatedRttAggregation =
  nr_current_round_trip_time_s :: rat
  nr_total_round_trip_time_s :: rat
  nr_responses_received :: u64

definition nominated_init :: IceNominatedRttAggregation where
  "nominated_init = \<lparr> nr_current_round_trip_time_s = 0, nr_total_round_trip_time_s = 0, nr_responses_received = 0 \<rparr>"

definition set_opt :: "'a option \<Rightarrow> 'a \<Rightarrow> 'a" where
  "set_opt v x = (case v of None \<Rightarrow> x | Some y \<Rightarrow> y)"

definition pair_nominated :: "RTCIceCandidatePairStats \<Rightarrow> bool" where
  "pair_nominated p \<longleftrightarrow> cp_nominated p = Some True"

definition read_pair :: "RTCIceCandidatePairStats \<Rightarrow> IceNominatedRttAggregation \<Rightarrow> IceNominatedRttAggregation" where
  "read_pair p out =
     \<lparr> nr_current_round_trip_time_s = set_opt (cp_current_round_trip_time p) (nr_current_round_trip_time_s out),
       nr_total_round_trip_time_s = set_opt (cp_total_round_trip_time p) (nr_total_round_trip_time_s out),
       nr_responses_received = set_opt (cp_responses_received p) (nr_responses_received out) \<rparr>"

definition nominated_row :: "bool \<times> IceNominatedRttAggregation \<Rightarrow> RTCIceCandidatePairStats \<Rightarrow> bool \<times> IceNominatedRttAggregation" where
  "nominated_row acc p =
     (if fst acc \<and> \<not> pair_nominated p then acc else (True, read_pair p (snd acc)))"

definition AccumulateNominatedIcePairRttFromReport ::
  "RTCStatsReport option \<Rightarrow> IceNominatedRttAggregation \<Rightarrow> IceNominatedRttAggregation" where
  "AccumulateNominatedIcePairRttFromReport report out =
     (case report of None \<Rightarrow> out | Some r \<Rightarrow> snd (foldl nominated_row (False, out) (rr_pairs r)))"

section \<open>The blocking request\<close>

text \<open>
  The calling thread keeps the mutex, the flag, the consumer and what it fills on its stack until the
  call returns. WebRTC's thread runs the observer in two steps: it feeds the report to the consumer, then
  sets the flag. \<open>ss_stray\<close> counts the steps that touch the stack frame after it is gone.
\<close>

datatype sync_event = ObserverConsumes "RTCStatsReport option" | ObserverDone | WaiterWakes | TimeIsUp

record 'a SyncStats =
  ss_alive :: bool
  ss_done :: bool
  ss_returned :: "bool option"
  ss_value :: 'a
  ss_stray :: nat

definition sync_begin :: "'a \<Rightarrow> 'a SyncStats" where
  "sync_begin v = \<lparr> ss_alive = True, ss_done = False, ss_returned = None, ss_value = v, ss_stray = 0 \<rparr>"

definition sync_return :: "'a SyncStats \<Rightarrow> 'a SyncStats" where
  "sync_return s = s\<lparr>ss_alive := False, ss_returned := Some (ss_done s)\<rparr>"

fun sync_step :: "(RTCStatsReport option \<Rightarrow> 'a \<Rightarrow> 'a) \<Rightarrow> sync_event \<Rightarrow> 'a SyncStats \<Rightarrow> 'a SyncStats" where
  "sync_step consumer (ObserverConsumes r) s =
     (if ss_alive s then s\<lparr>ss_value := consumer r (ss_value s)\<rparr> else s\<lparr>ss_stray := ss_stray s + 1\<rparr>)"
| "sync_step consumer ObserverDone s = (if ss_alive s then s\<lparr>ss_done := True\<rparr> else s\<lparr>ss_stray := ss_stray s + 1\<rparr>)"
| "sync_step consumer WaiterWakes s = (if ss_alive s \<and> ss_done s then sync_return s else s)"
| "sync_step consumer TimeIsUp s = (if ss_alive s then sync_return s else s)"

text \<open>The call: whether it succeeded and what the consumer has made of the report by then.\<close>

definition SyncGetPeerConnectionStats ::
  "(RTCStatsReport option \<Rightarrow> 'a \<Rightarrow> 'a) \<Rightarrow> sync_event list \<Rightarrow> 'a \<Rightarrow> 'a SyncStats" where
  "SyncGetPeerConnectionStats consumer events v = fold (sync_step consumer) events (sync_begin v)"

definition sync_ok :: "'a SyncStats \<Rightarrow> bool" where
  "sync_ok s \<longleftrightarrow> ss_returned s = Some True"

definition SyncGetPeerConnectionStatsTimeout :: "env \<Rightarrow> KnobState \<Rightarrow> int" where
  "SyncGetPeerConnectionStatsTimeout env ks = fst (ReadInt env ''RFLOW_SYNC_GETSTATS_TIMEOUT_MS'' ks)"

section \<open>Statistics of a publisher\<close>

text \<open>\<open>events\<close> is what happens between WebRTC and the waiting thread.\<close>

definition push_CollectStats :: "sync_event list \<Rightarrow> Impl \<Rightarrow> librflow_stream_stats_s \<Rightarrow> librflow_stream_stats_s option" where
  "push_CollectStats events im ms =
     (case fst (SelectStatsPeerConnection im) of None \<Rightarrow> None
      | Some _ \<Rightarrow>
          let r = SyncGetPeerConnectionStats AccumulateOutboundPublisherVideoFromReport events outbound_init; agg = ss_value r
          in if \<not> sync_ok r then None
             else Some (ms\<lparr>ms_out_bound_bytes := oa_out_bytes agg, ms_out_bound_pkts := oa_out_pkts agg,
                           ms_lost_pkts := oa_lost_pkts agg,
                           ms_fps := (if oa_fps agg > 0 then oa_fps agg else ms_fps ms),
                           ms_bitrate_kbps := oa_bitrate_kbps agg, ms_rtt_ms := oa_rtt_ms agg\<rparr>))"

section \<open>Statistics of a pulling session\<close>

record BitrateState =
  bs_prev_stats_bytes_received :: u64
  bs_prev_stats_collect_mono_ms :: int
  bs_last_bitrate_kbps :: u32

definition bitrate_init :: BitrateState where
  "bitrate_init = \<lparr> bs_prev_stats_bytes_received = 0, bs_prev_stats_collect_mono_ms = 0, bs_last_bitrate_kbps = 0 \<rparr>"

definition measured_kbps :: "int \<Rightarrow> u64 \<Rightarrow> u32 \<Rightarrow> BitrateState \<Rightarrow> u32" where
  "measured_kbps now bytes available_incoming_kbps st =
     (let prev_bytes = bs_prev_stats_bytes_received st; prev_ms = bs_prev_stats_collect_mono_ms st
      in if prev_ms > 0 \<and> now > prev_ms \<and> bytes \<ge> prev_bytes
         then ucast (((bytes - prev_bytes) * 8) div (word_of_int (now - prev_ms) :: u64))
         else if available_incoming_kbps > 0 then available_incoming_kbps else 0)"

definition update_bitrate :: "int \<Rightarrow> u64 \<Rightarrow> u32 \<Rightarrow> BitrateState \<Rightarrow> u32 \<times> BitrateState" where
  "update_bitrate now bytes available_incoming_kbps st =
     (let kbps = measured_kbps now bytes available_incoming_kbps st
      in (kbps, \<lparr> bs_prev_stats_bytes_received = bytes, bs_prev_stats_collect_mono_ms = now, bs_last_bitrate_kbps = kbps \<rparr>))"

definition pull_consumer ::
  "RTCStatsReport option \<Rightarrow> InboundVideoRtpAggregation \<times> u32 \<times> u32 \<Rightarrow> InboundVideoRtpAggregation \<times> u32 \<times> u32" where
  "pull_consumer report acc =
     (AccumulateInboundVideoRtpFromReport report (fst acc), AccumulateIncomingIcePairMetricsFromReport report (snd acc))"

definition buffer_delay_ms :: "InboundVideoRtpAggregation \<Rightarrow> u32" where
  "buffer_delay_ms agg =
     (if ia_jitter_buffer_emitted_count agg > 0
      then round_u32 (ia_jitter_buffer_delay_seconds agg * 1000 / of_nat (unat (ia_jitter_buffer_emitted_count agg)))
      else 0)"

text \<open>\<open>has_pc\<close> tells whether the session has a peer connection, \<open>jitter_min\<close> is the delay it configured.\<close>

definition pull_CollectStats ::
  "int \<Rightarrow> bool \<Rightarrow> rat \<Rightarrow> sync_event list \<Rightarrow> BitrateState \<Rightarrow> librflow_stream_stats_s
     \<Rightarrow> bool \<times> librflow_stream_stats_s \<times> BitrateState" where
  "pull_CollectStats now has_pc jitter_min events st ms =
     (if \<not> has_pc then (False, ms, st)
      else let r = SyncGetPeerConnectionStats pull_consumer events (inbound_init, 0, 0);
               (agg, rtt_ms, available_incoming_kbps) = ss_value r
           in if \<not> sync_ok r then (False, ms, st)
              else let (kbps, st') = update_bitrate now (ia_bytes_received agg) available_incoming_kbps st
                   in (True, ms\<lparr>ms_in_bound_bytes := ia_bytes_received agg, ms_in_bound_pkts := ia_packets_received agg,
                        ms_lost_pkts := ia_lost_pkts_positive_sum agg, ms_fps := ia_fps_uint agg,
                        ms_jitter_ms := ia_jitter_ms_max agg, ms_freeze_count := ia_freeze_count_max agg,
                        ms_decode_fail_count := ucast (min (ia_frames_dropped_max agg) 4294967295),
                        ms_rtt_ms := rtt_ms, ms_jitter_buffer_delay_ms := buffer_delay_ms agg,
                        ms_jitter_min_delay_ms := round_u32 (jitter_min * 1000), ms_bitrate_kbps := kbps\<rparr>, st'))"

section \<open>The watchdog's report\<close>

text \<open>What the watchdog remembers for its log lines, and what it logs.\<close>

record PipelineBaseline =
  pl_stats_log_baseline_done :: bool
  pl_prev_frames_dropped :: u64
  pl_prev_total_decode_time_s :: rat
  pl_prev_total_processing_delay_s :: rat
  pl_prev_total_assembly_time_s :: rat
  pl_last_codec_fmtp :: string
  pl_last_codec_mime :: string
  pl_last_codec_payload_type :: u32

record PipelineLog =
  lg_cur_rtt_ms :: rat
  lg_avg_rtt_ms :: rat
  lg_d_decoded :: u64
  lg_d_dropped :: u64
  lg_avg_decode_ms :: rat
  lg_avg_processing_ms :: rat
  lg_avg_assembly_ms :: rat
  lg_jb_delay_ms :: rat
  lg_bytes_kb :: u64
  lg_loss_pct :: rat
  lg_jitter_ms :: rat
  lg_decoder :: string
  lg_codec_label :: string
  lg_codec_line :: "(string \<times> u32 \<times> string) option"

definition u64_rat :: "u64 \<Rightarrow> rat" where
  "u64_rat w = of_int (uint w)"

definition per_frame_ms :: "rat \<Rightarrow> u64 \<Rightarrow> rat" where
  "per_frame_ms seconds n = (if n > 0 then seconds * 1000 / u64_rat n else 0)"

definition since_rat :: "bool \<Rightarrow> rat \<Rightarrow> rat \<Rightarrow> rat" where
  "since_rat known now prev = (if known \<and> prev \<le> now then now - prev else 0)"

definition since_u64 :: "bool \<Rightarrow> u64 \<Rightarrow> u64 \<Rightarrow> u64" where
  "since_u64 known now prev = (if known \<and> prev \<le> now then now - prev else 0)"

definition loss_percent :: "u64 \<Rightarrow> int \<Rightarrow> rat" where
  "loss_percent packets_received lost =
     (let pos_lost = (if lost > 0 then word_of_int lost else 0); total_for_loss = packets_received + pos_lost
      in if total_for_loss > 0 then u64_rat pos_lost * 100 / u64_rat total_for_loss else 0)"

text \<open>The codec row that the inbound row names: its mime type, its parameters and its payload type.\<close>

definition report_codec :: "RTCStatsReport \<Rightarrow> string \<Rightarrow> string \<times> string \<times> u32 option" where
  "report_codec r codec_id =
     (if codec_id = [] then ([], [], None)
      else case find (\<lambda>c. cs_id c = codec_id) (rr_codecs r) of None \<Rightarrow> ([], [], None)
        | Some c \<Rightarrow> (set_opt (cs_mime_type c) [], set_opt (cs_sdp_fmtp_line c) [], cs_payload_type c))"

definition codec_label_of :: "string \<Rightarrow> u32 option \<Rightarrow> string" where
  "codec_label_of mime pt =
     (if mime = [] then ''unknown'' else case pt of Some n \<Rightarrow> mime @ '' pt='' @ to_string (uint n) | None \<Rightarrow> mime)"

definition pipeline_log ::
  "RTCStatsReport \<Rightarrow> InboundVideoRtpAggregation \<Rightarrow> u64 \<Rightarrow> PipelineBaseline \<Rightarrow> PipelineLog \<times> PipelineBaseline" where
  "pipeline_log r agg prev_frames_decoded st =
     (let rtt = AccumulateNominatedIcePairRttFromReport (Some r) nominated_init;
          cur = nr_current_round_trip_time_s rtt * 1000; known = pl_stats_log_baseline_done st;
          d_decoded = since_u64 known (ia_frames_decoded agg) prev_frames_decoded;
          (mime, fmtp, pt) = report_codec r (ia_codec_id agg); pt_num = set_opt pt 0;
          changed = (mime \<noteq> pl_last_codec_mime st \<or> fmtp \<noteq> pl_last_codec_fmtp st \<or> pt_num \<noteq> pl_last_codec_payload_type st)
      in (\<lparr> lg_cur_rtt_ms = cur,
            lg_avg_rtt_ms = (if nr_responses_received rtt > 0
                             then nr_total_round_trip_time_s rtt / u64_rat (nr_responses_received rtt) * 1000 else cur),
            lg_d_decoded = d_decoded,
            lg_d_dropped = since_u64 known (ia_frames_dropped_sum agg) (pl_prev_frames_dropped st),
            lg_avg_decode_ms = per_frame_ms (since_rat known (ia_total_decode_time_s agg) (pl_prev_total_decode_time_s st)) d_decoded,
            lg_avg_processing_ms =
              per_frame_ms (since_rat known (ia_total_processing_delay_s agg) (pl_prev_total_processing_delay_s st)) d_decoded,
            lg_avg_assembly_ms =
              per_frame_ms (since_rat known (ia_total_assembly_time_s agg) (pl_prev_total_assembly_time_s st)) d_decoded,
            lg_jb_delay_ms = per_frame_ms (ia_jitter_buffer_delay_seconds agg) (ia_jitter_buffer_emitted_count agg),
            lg_bytes_kb = ia_bytes_received agg div 1024,
            lg_loss_pct = loss_percent (ia_packets_received agg) (ia_packets_lost_signed agg),
            lg_jitter_ms = ia_jitter_seconds_max agg * 1000,
            lg_decoder = (if ia_decoder_implementation agg = [] then ''unknown'' else ia_decoder_implementation agg),
            lg_codec_label = codec_label_of mime pt,
            lg_codec_line = (if changed \<and> (mime \<noteq> [] \<or> fmtp \<noteq> [])
                             then Some (if mime = [] then ''unknown'' else mime, pt_num, fmtp) else None) \<rparr>,
          \<lparr> pl_stats_log_baseline_done = True, pl_prev_frames_dropped = ia_frames_dropped_sum agg,
            pl_prev_total_decode_time_s = ia_total_decode_time_s agg,
            pl_prev_total_processing_delay_s = ia_total_processing_delay_s agg,
            pl_prev_total_assembly_time_s = ia_total_assembly_time_s agg,
            pl_last_codec_fmtp = fmtp, pl_last_codec_mime = mime, pl_last_codec_payload_type = pt_num \<rparr>))"

text \<open>
  The whole report handler: a kick of the jitter buffer, the log lines when timing logs are on, and the
  counters. \<open>live\<close> tells that the session has a connection and is not closed.
\<close>

definition watchdog_report ::
  "int \<Rightarrow> bool \<Rightarrow> bool \<Rightarrow> RTCStatsReport option \<Rightarrow> Watchdog \<times> PipelineBaseline
     \<Rightarrow> bool \<times> PipelineLog option \<times> Watchdog \<times> PipelineBaseline" where
  "watchdog_report now live timing report st =
     (case report of None \<Rightarrow> (False, None, st)
      | Some r \<Rightarrow>
          let agg = AccumulateInboundVideoRtpFromReport report inbound_init
          in if \<not> live \<or> \<not> ia_have_video agg then (False, None, st)
             else let (kick, wd) = OnWatchdogStats now (ia_frames_decoded agg) (ia_packets_received agg) (fst st)
                  in if timing
                     then (let (lg, pl) = pipeline_log r agg (wd_prev_frames_decoded (fst st)) (snd st) in (kick, Some lg, wd, pl))
                     else (kick, None, wd, snd st))"

section \<open>Sums and maxima\<close>

definition values_of :: "('r \<Rightarrow> 'v option) \<Rightarrow> 'r list \<Rightarrow> 'v list" where
  "values_of f rows = List.map_filter f rows"

definition total :: "('r \<Rightarrow> 'v::comm_monoid_add option) \<Rightarrow> 'r list \<Rightarrow> 'v" where
  "total f rows = sum_list (values_of f rows)"

definition greatest :: "('r \<Rightarrow> 'v::{linorder,zero} option) \<Rightarrow> 'r list \<Rightarrow> 'v" where
  "greatest f rows = Max (insert 0 (set (values_of f rows)))"

lemma values_of_simps [simp]:
  "values_of f [] = []"
  "values_of f (r # rs) = (case f r of None \<Rightarrow> values_of f rs | Some v \<Rightarrow> v # values_of f rs)"
  by (simp_all add: values_of_def map_filter_simps split: option.split)

lemma fold_total: "foldl (\<lambda>x r. add_opt (f r) x) a rs = a + total f rs"
  by (induction rs arbitrary: a) (auto simp: total_def add_opt_def add.assoc split: option.split)

lemma Max_insert_max:
  assumes "finite S"
  shows "Max (insert (max a b) S) = Max (insert a (insert b S))"
  using assms by (cases "S = {}") (auto simp: max.assoc)

lemma Max_insert_Max:
  assumes "finite S" and "finite T"
  shows "Max (insert (Max (insert a S)) T) = max (Max (insert a S)) (Max (insert a T))"
proof -
  have *: "Max (insert a S) = max a (Max (insert a S))" using assms by (simp add: max_def)
  have "Max (insert (Max (insert a S)) T) = Max (insert (max (Max (insert a S)) a) T)"
    using * by (simp add: max.commute)
  also have "\<dots> = Max (insert (Max (insert a S)) (insert a T))" by (rule Max_insert_max [OF assms(2)])
  also have "\<dots> = max (Max (insert a S)) (Max (insert a T))" using assms by simp
  finally show ?thesis .
qed

lemma fold_greatest: "foldl (\<lambda>x r. max_opt (f r) x) a rs = Max (insert a (set (values_of f rs)))"
proof (induction rs arbitrary: a)
  case (Cons r rs)
  then show ?case by (cases "f r") (simp_all add: max_opt_def Max_insert_max)
qed simp

text \<open>A field into which every row of interest puts its value is the sum or the maximum of these values.\<close>

lemma rows_fold:
  assumes "\<And>out r. fld (row out r) = (if P r then g (fld out) r else fld out)"
  shows "fld (foldl row out rs) = foldl g (fld out) (filter P rs)"
  using assms by (induction rs arbitrary: out) simp_all

lemma rows_total:
  assumes "\<And>out r. fld (row out r) = (if P r then add_opt (f r) (fld out) else fld out)"
  shows "fld (foldl row out rs) = fld out + total f (filter P rs)"
  using rows_fold [where fld = fld and row = row and P = P and g = "\<lambda>x r. add_opt (f r) x", OF assms]
  by (simp add: fold_total)

lemma rows_greatest:
  assumes "\<And>out r. fld (row out r) = (if P r then max_opt (f r) (fld out) else fld out)"
  shows "fld (foldl row out rs) = Max (insert (fld out) (set (values_of f (filter P rs))))"
  using rows_fold [where fld = fld and row = row and P = P and g = "\<lambda>x r. max_opt (f r) x", OF assms]
  by (simp add: fold_greatest)

lemma rows_keep:
  assumes "\<And>out r. fld (row out r) = fld out"
  shows "fld (foldl row out rs) = fld out"
  using assms by (induction rs arbitrary: out) simp_all

section \<open>What the sums are\<close>

definition video_out :: "RTCStatsReport \<Rightarrow> RTCOutboundRtpStreamStats list" where
  "video_out r = filter (\<lambda>s. os_kind s = Some ''video'') (rr_outbound r)"

definition video_remote :: "RTCStatsReport \<Rightarrow> RTCRemoteInboundRtpStreamStats list" where
  "video_remote r = filter (\<lambda>s. ri_kind s = Some ''video'') (rr_remote_inbound r)"

definition video_in :: "RTCStatsReport \<Rightarrow> RTCInboundRtpStreamStats list" where
  "video_in r = filter (\<lambda>s. is_kind s = Some ''video'') (rr_inbound r)"

definition rtt_ms_of :: "('r \<Rightarrow> rat option) \<Rightarrow> 'r \<Rightarrow> u32 option" where
  "rtt_ms_of f r = map_option (\<lambda>t. round_u32 (t * 1000)) (f r)"

text \<open>The fields of the outbound sums, row kind by row kind.\<close>

lemma outbound_rows [simp]:
  "oa_out_bytes (foldl outbound_row out (rr_outbound r)) = oa_out_bytes out + total os_bytes_sent (video_out r)"
  "oa_out_pkts (foldl outbound_row out (rr_outbound r)) = oa_out_pkts out + total os_packets_sent (video_out r)"
  "oa_fps (foldl outbound_row out (rr_outbound r)) =
     Max (insert (oa_fps out) (set (values_of (\<lambda>s. map_option round_u32 (os_frames_per_second s)) (video_out r))))"
  "oa_lost_pkts (foldl outbound_row out (rr_outbound r)) = oa_lost_pkts out"
  "oa_bitrate_kbps (foldl outbound_row out (rr_outbound r)) = oa_bitrate_kbps out"
  "oa_rtt_ms (foldl outbound_row out (rr_outbound r)) = oa_rtt_ms out"
  unfolding video_out_def
  by ((rule rows_total, simp add: outbound_row_def; fail) | (rule rows_greatest, simp add: outbound_row_def; fail) | (rule rows_keep, simp add: outbound_row_def; fail))+

lemma remote_inbound_rows [simp]:
  "oa_lost_pkts (foldl remote_inbound_row out (rr_remote_inbound r)) =
     oa_lost_pkts out + total (\<lambda>s. positive_lost (ri_packets_lost s)) (video_remote r)"
  "oa_rtt_ms (foldl remote_inbound_row out (rr_remote_inbound r)) =
     Max (insert (oa_rtt_ms out) (set (values_of (rtt_ms_of ri_round_trip_time) (video_remote r))))"
  "oa_out_bytes (foldl remote_inbound_row out (rr_remote_inbound r)) = oa_out_bytes out"
  "oa_out_pkts (foldl remote_inbound_row out (rr_remote_inbound r)) = oa_out_pkts out"
  "oa_fps (foldl remote_inbound_row out (rr_remote_inbound r)) = oa_fps out"
  "oa_bitrate_kbps (foldl remote_inbound_row out (rr_remote_inbound r)) = oa_bitrate_kbps out"
  unfolding video_remote_def
  by ((rule rows_total, simp add: remote_inbound_row_def rtt_ms_of_def; fail) | (rule rows_greatest, simp add: remote_inbound_row_def rtt_ms_of_def; fail) | (rule rows_keep, simp add: remote_inbound_row_def rtt_ms_of_def; fail))+

lemma outbound_pair_rows [simp]:
  "oa_rtt_ms (foldl outbound_pair_row out ps) = Max (insert (oa_rtt_ms out) (set (values_of (rtt_ms_of cp_current_round_trip_time) ps)))"
  "oa_bitrate_kbps (foldl outbound_pair_row out ps) =
     Max (insert (oa_bitrate_kbps out) (set (values_of (\<lambda>p. map_option (\<lambda>b. round_u32 (b / 1000)) (cp_available_outgoing_bitrate p)) ps)))"
  "oa_out_bytes (foldl outbound_pair_row out ps) = oa_out_bytes out"
  "oa_out_pkts (foldl outbound_pair_row out ps) = oa_out_pkts out"
  "oa_fps (foldl outbound_pair_row out ps) = oa_fps out"
  "oa_lost_pkts (foldl outbound_pair_row out ps) = oa_lost_pkts out"
  using rows_greatest [where fld = oa_rtt_ms and row = outbound_pair_row and P = "\<lambda>_. True"]
    rows_greatest [where fld = oa_bitrate_kbps and row = outbound_pair_row and P = "\<lambda>_. True"]
    rows_keep [where fld = oa_out_bytes and row = outbound_pair_row]
    rows_keep [where fld = oa_out_pkts and row = outbound_pair_row]
    rows_keep [where fld = oa_fps and row = outbound_pair_row]
    rows_keep [where fld = oa_lost_pkts and row = outbound_pair_row]
  by (simp_all add: outbound_pair_row_def rtt_ms_of_def [abs_def])

text \<open>
  C37: The statistics of a publisher are those of its report: the bytes and packets sent and the packets
  lost are the sums over the video rows, the frame rate, the round trip time and the available bitrate the
  largest of the values any row gives, 0 when there is none. The order of the rows does not matter.
\<close>

theorem outbound_sums_exact:
  "AccumulateOutboundPublisherVideoFromReport (Some r) outbound_init =
     \<lparr> oa_out_bytes = total os_bytes_sent (video_out r),
       oa_out_pkts = total os_packets_sent (video_out r),
       oa_lost_pkts = total (\<lambda>s. positive_lost (ri_packets_lost s)) (video_remote r),
       oa_fps = greatest (\<lambda>s. map_option round_u32 (os_frames_per_second s)) (video_out r),
       oa_bitrate_kbps = greatest (\<lambda>p. map_option (\<lambda>b. round_u32 (b / 1000)) (cp_available_outgoing_bitrate p)) (rr_pairs r),
       oa_rtt_ms = max (greatest (rtt_ms_of ri_round_trip_time) (video_remote r))
                       (greatest (rtt_ms_of cp_current_round_trip_time) (rr_pairs r)) \<rparr>"
  by (rule OutboundPublisherVideoAggregation.equality)
    (simp_all add: AccumulateOutboundPublisherVideoFromReport_def outbound_init_def greatest_def Max_insert_Max)

lemma inbound_rows [simp]:
  "ia_bytes_received (foldl inbound_row out (rr_inbound r)) = ia_bytes_received out + total is_bytes_received (video_in r)"
  "ia_packets_received (foldl inbound_row out (rr_inbound r)) =
     ia_packets_received out + total (\<lambda>s. map_option ucast (is_packets_received s)) (video_in r)"
  "ia_lost_pkts_positive_sum (foldl inbound_row out (rr_inbound r)) =
     ia_lost_pkts_positive_sum out + total (\<lambda>s. positive_lost (is_packets_lost s)) (video_in r)"
  "ia_packets_lost_signed (foldl inbound_row out (rr_inbound r)) = ia_packets_lost_signed out + total is_packets_lost (video_in r)"
  "ia_frames_decoded (foldl inbound_row out (rr_inbound r)) =
     ia_frames_decoded out + total (\<lambda>s. map_option ucast (is_frames_decoded s)) (video_in r)"
  "ia_fps_uint (foldl inbound_row out (rr_inbound r)) =
     Max (insert (ia_fps_uint out) (set (values_of (\<lambda>s. map_option round_u32 (is_frames_per_second s)) (video_in r))))"
  "ia_jitter_ms_max (foldl inbound_row out (rr_inbound r)) =
     Max (insert (ia_jitter_ms_max out) (set (values_of (rtt_ms_of is_jitter) (video_in r))))"
  "ia_freeze_count_max (foldl inbound_row out (rr_inbound r)) =
     Max (insert (ia_freeze_count_max out) (set (values_of is_freeze_count (video_in r))))"
  "ia_jitter_buffer_delay_seconds (foldl inbound_row out (rr_inbound r)) =
     ia_jitter_buffer_delay_seconds out + total is_jitter_buffer_delay (video_in r)"
  "ia_jitter_buffer_emitted_count (foldl inbound_row out (rr_inbound r)) =
     ia_jitter_buffer_emitted_count out + total is_jitter_buffer_emitted_count (video_in r)"
  unfolding video_in_def
  by ((rule rows_total, simp add: inbound_row_def; fail)
     | (rule rows_greatest, simp add: inbound_row_def rtt_ms_of_def; fail))+

text \<open>A row without the field counts as no dropped frame.\<close>

lemma inbound_dropped [simp]:
  "ia_frames_dropped_sum (foldl inbound_row out (rr_inbound r)) =
     ia_frames_dropped_sum out + total (\<lambda>s. Some (dropped_frames s)) (video_in r)"
  "ia_frames_dropped_max (foldl inbound_row out (rr_inbound r)) =
     Max (insert (ia_frames_dropped_max out) (set (values_of (\<lambda>s. Some (dropped_frames s)) (video_in r))))"
  unfolding video_in_def
  by ((rule rows_total, simp add: inbound_row_def add_opt_def; fail)
     | (rule rows_greatest, simp add: inbound_row_def max_opt_def; fail))+

lemma inbound_have_video [simp]:
  "ia_have_video (foldl inbound_row out (rr_inbound r)) \<longleftrightarrow> ia_have_video out \<or> video_in r \<noteq> []"
proof -
  have "ia_have_video (foldl inbound_row out rs) \<longleftrightarrow> ia_have_video out \<or> filter (\<lambda>s. is_kind s = Some ''video'') rs \<noteq> []" for rs
    by (induction rs arbitrary: out) (simp_all add: inbound_row_def)
  then show ?thesis by (simp add: video_in_def)
qed

lemma incoming_pairs [simp]:
  "fst (foldl incoming_pair_row acc ps) = Max (insert (fst acc) (set (values_of (rtt_ms_of cp_current_round_trip_time) ps)))"
  "snd (foldl incoming_pair_row acc ps) =
     Max (insert (snd acc) (set (values_of (\<lambda>p. map_option (\<lambda>b. round_u32 (b / 1000)) (cp_available_incoming_bitrate p)) ps)))"
  using rows_greatest [where fld = fst and row = incoming_pair_row and P = "\<lambda>_. True"]
    rows_greatest [where fld = snd and row = incoming_pair_row and P = "\<lambda>_. True"]
  by (simp_all add: incoming_pair_row_def rtt_ms_of_def [abs_def])

section \<open>The blocking request returns what was consumed\<close>

definition observer_event :: "sync_event \<Rightarrow> bool" where
  "observer_event e \<longleftrightarrow> (case e of ObserverConsumes _ \<Rightarrow> True | ObserverDone \<Rightarrow> True | _ \<Rightarrow> False)"

text \<open>WebRTC delivers one report, or none within the time that is looked at.\<close>

definition one_report :: "RTCStatsReport option \<Rightarrow> sync_event list \<Rightarrow> bool" where
  "one_report r events \<longleftrightarrow> prefix (filter observer_event events) [ObserverConsumes r, ObserverDone]"

definition sync_inv :: "(RTCStatsReport option \<Rightarrow> 'a \<Rightarrow> 'a) \<Rightarrow> RTCStatsReport option \<Rightarrow> 'a \<Rightarrow> sync_event list \<Rightarrow> 'a SyncStats \<Rightarrow> bool" where
  "sync_inv consumer r v seen s \<longleftrightarrow>
     (if ss_alive s then ss_returned s = None \<and> ss_stray s = 0 \<and> ss_done s = (seen = [ObserverConsumes r, ObserverDone]) \<and>
                         ss_value s = (if seen = [] then v else consumer r v)
      else ss_returned s \<noteq> None \<and>
           (ss_returned s = Some True \<longrightarrow> seen = [ObserverConsumes r, ObserverDone] \<and> ss_value s = consumer r v \<and> ss_stray s = 0))"

lemma observer_event_simps [simp]:
  "observer_event (ObserverConsumes r)" "observer_event ObserverDone"
  "\<not> observer_event WaiterWakes" "\<not> observer_event TimeIsUp"
  by (simp_all add: observer_event_def)

lemma prefix_pair: "prefix xs [a, b] \<longleftrightarrow> xs = [] \<or> xs = [a] \<or> xs = [a, b]"
  by (auto simp: prefix_Cons)

lemma sync_run_inv:
  assumes "one_report r events"
  shows "sync_inv consumer r v (filter observer_event events) (SyncGetPeerConnectionStats consumer events v)"
  using assms
proof (induction events rule: rev_induct)
  case Nil
  then show ?case by (simp add: SyncGetPeerConnectionStats_def sync_inv_def sync_begin_def)
next
  case (snoc e events)
  let ?seen = "filter observer_event events"
  let ?s = "SyncGetPeerConnectionStats consumer events v"
  have "one_report r events" using snoc.prems by (auto simp: one_report_def dest: append_prefixD)
  then have inv: "sync_inv consumer r v ?seen ?s" and seen: "?seen = [] \<or> ?seen = [ObserverConsumes r] \<or> ?seen = [ObserverConsumes r, ObserverDone]"
    using snoc.IH by (simp_all add: one_report_def prefix_pair)
  have step: "SyncGetPeerConnectionStats consumer (events @ [e]) v = sync_step consumer e ?s"
    by (simp add: SyncGetPeerConnectionStats_def)
  have next_seen: "prefix (?seen @ (if observer_event e then [e] else [])) [ObserverConsumes r, ObserverDone]"
    using snoc.prems by (simp add: one_report_def split: if_splits)
  show ?case
    unfolding step using inv seen next_seen
    by (cases e) (auto simp: sync_inv_def sync_return_def prefix_pair)
qed

lemma sync_returned_stays:
  assumes "\<not> ss_alive s" and "ss_returned s \<noteq> None"
  shows "ss_returned (fold (sync_step consumer) events s) = ss_returned s \<and> \<not> ss_alive (fold (sync_step consumer) events s)"
  using assms
proof (induction events arbitrary: s)
  case (Cons e events)
  then show ?case by (cases e) auto
qed simp

lemma sync_alive_or_returned: "ss_alive (SyncGetPeerConnectionStats consumer events v) \<or> ss_returned (SyncGetPeerConnectionStats consumer events v) \<noteq> None"
proof (induction events rule: rev_induct)
  case (snoc e events)
  then show ?case
    by (cases e) (auto simp: SyncGetPeerConnectionStats_def sync_return_def)
qed (simp add: SyncGetPeerConnectionStats_def sync_begin_def)

lemma sync_time_is_up:
  assumes "TimeIsUp \<in> set events"
  shows "ss_returned (SyncGetPeerConnectionStats consumer events v) \<noteq> None"
proof -
  obtain a b where split: "events = a @ TimeIsUp # b" using assms by (auto simp: in_set_conv_decomp)
  let ?s = "SyncGetPeerConnectionStats consumer a v"
  have "\<not> ss_alive (sync_step consumer TimeIsUp ?s) \<and> ss_returned (sync_step consumer TimeIsUp ?s) \<noteq> None"
    using sync_alive_or_returned [of consumer a v] by (auto simp: sync_return_def)
  then show ?thesis
    using sync_returned_stays [of "sync_step consumer TimeIsUp ?s" consumer b]
    unfolding split by (simp add: SyncGetPeerConnectionStats_def)
qed


text \<open>A report that arrives after the time is up is written into a stack frame that no longer exists.\<close>

theorem late_report_is_stray:
  "ss_returned (SyncGetPeerConnectionStats consumer [TimeIsUp, ObserverConsumes r, ObserverDone] v) = Some False \<and>
   ss_stray (SyncGetPeerConnectionStats consumer [TimeIsUp, ObserverConsumes r, ObserverDone] v) = 2"
  by (simp add: SyncGetPeerConnectionStats_def sync_begin_def sync_return_def)

section \<open>Measured bitrates\<close>

text \<open>The rates a session reports at a sequence of collections (time, bytes received, bandwidth estimate).\<close>

fun collected_rates :: "(int \<times> u64 \<times> u32) list \<Rightarrow> BitrateState \<Rightarrow> u32 list" where
  "collected_rates [] st = []"
| "collected_rates ((now, bytes, avail) # rest) st =
     (let (kbps, st') = update_bitrate now bytes avail st in kbps # collected_rates rest st')"

text \<open>Time goes on, the byte counter does not fall, and the rates fit in 32 bits.\<close>

fun steady :: "int \<Rightarrow> u64 \<Rightarrow> (int \<times> u64 \<times> u32) list \<Rightarrow> bool" where
  "steady t b [] \<longleftrightarrow> 0 < t"
| "steady t b ((now, bytes, avail) # rest) \<longleftrightarrow>
     0 < t \<and> t < now \<and> now < 2 ^ 63 \<and> b \<le> bytes \<and> 8 * (uint bytes - uint b) < 2 ^ 64 \<and>
     8 * (uint bytes - uint b) < 2 ^ 32 * (now - t) \<and> steady now bytes rest"

fun accounted :: "int \<Rightarrow> u32 list \<Rightarrow> (int \<times> u64 \<times> u32) list \<Rightarrow> int" where
  "accounted t (k # ks) ((now, bytes, avail) # rest) = uint k * (now - t) + accounted now ks rest"
| "accounted t _ _ = 0"

lemma int_div_less:
  assumes "0 < d" and "x < c * d"
  shows "x div d < (c :: int)"
proof (rule ccontr)
  assume "\<not> x div d < c"
  then have "c * d \<le> x div d * d" using assms(1) by (intro mult_right_mono) auto
  moreover have "x div d * d \<le> x" using div_mult_mod_eq [of x d] pos_mod_sign [OF assms(1), of x] by linarith
  ultimately show False using assms(2) by linarith
qed

lemma rate_of_step:
  assumes "0 < t" "t < now" "now < 2 ^ 63" "b \<le> bytes" "8 * (uint bytes - uint b) < 2 ^ 64"
    and "8 * (uint bytes - uint b) < 2 ^ 32 * (now - t)"
    and "bs_prev_stats_bytes_received st = b" "bs_prev_stats_collect_mono_ms st = t"
  shows "uint (measured_kbps now bytes avail st) = 8 * (uint bytes - uint b) div (now - t)"
proof -
  have diff: "uint (bytes - b) = uint bytes - uint b" using assms(4) by (simp add: uint_sub_lem word_le_def)
  have prod: "uint ((bytes - b) * 8) = 8 * (uint bytes - uint b)"
  proof -
    have "uint (bytes - b) * uint (8 :: u64) < 2 ^ LENGTH(64)" using assms(5) diff by simp
    then have "uint ((bytes - b) * 8) = uint (bytes - b) * uint (8 :: u64)" by (simp only: uint_mult_lem)
    then show ?thesis using diff by simp
  qed
  have dt: "uint (word_of_int (now - t) :: u64) = now - t"
    using assms(1-3) by (simp add: uint_word_of_int_eq take_bit_int_eq_self del: of_int_diff)
  have le: "8 * (uint bytes - uint b) div (now - t) < 2 ^ 32"
    by (rule int_div_less) (use assms(2,6) in simp_all)
  have "0 \<le> 8 * (uint bytes - uint b) div (now - t)"
    using assms(2,4) by (simp add: word_le_def pos_imp_zdiv_nonneg_iff)
  then show ?thesis
    using assms(1,2,4,7,8) le prod dt
    by (simp add: measured_kbps_def Let_def unsigned_ucast_eq uint_div take_bit_int_eq_self del: left_diff_distrib_numeral of_int_diff)
qed

text \<open>
  The bitrates a pulling session reports account for the bytes it received: over any sequence of
  collections, each reported rate times its interval adds up to the bits received, less than one bit per
  millisecond too few.
\<close>

theorem bitrates_account_for_bytes:
  assumes "steady t b samples" and "bs_prev_stats_bytes_received st = b" and "bs_prev_stats_collect_mono_ms st = t"
  shows "let t' = last (t # map fst samples); bits = 8 * (uint (last (b # map (fst \<circ> snd) samples)) - uint b);
             a = accounted t (collected_rates samples st) samples
         in a \<le> bits \<and> bits \<le> a + (t' - t)"
  using assms
proof (induction samples arbitrary: t b st)
  case Nil
  then show ?case by simp
next
  case (Cons x rest)
  obtain now bytes avail where x: "x = (now, bytes, avail)" by (cases x)
  let ?k = "measured_kbps now bytes avail st"
  let ?st = "\<lparr> bs_prev_stats_bytes_received = bytes, bs_prev_stats_collect_mono_ms = now, bs_last_bitrate_kbps = ?k \<rparr>"
  have k: "uint ?k = 8 * (uint bytes - uint b) div (now - t)"
    by (rule rate_of_step) (use Cons.prems in \<open>auto simp: x\<close>)
  have d: "0 < now - t" using Cons.prems(1) by (simp add: x)
  have step: "uint ?k * (now - t) \<le> 8 * (uint bytes - uint b)" "8 * (uint bytes - uint b) \<le> uint ?k * (now - t) + (now - t)"
    using div_mult_mod_eq [of "8 * (uint bytes - uint b)" "now - t"]
      pos_mod_sign [OF d, of "8 * (uint bytes - uint b)"] pos_mod_bound [OF d, of "8 * (uint bytes - uint b)"]
    unfolding k by linarith+
  have rest: "let t' = last (now # map fst rest); bits = 8 * (uint (last (bytes # map (fst \<circ> snd) rest)) - uint bytes);
                  a = accounted now (collected_rates rest ?st) rest in a \<le> bits \<and> bits \<le> a + (t' - now)"
    by (rule Cons.IH) (use Cons.prems(1) in \<open>simp_all add: x\<close>)
  have eqs: "accounted t (collected_rates (x # rest) st) (x # rest) = uint ?k * (now - t) + accounted now (collected_rates rest ?st) rest"
    "last (t # map fst (x # rest)) = last (now # map fst rest)"
    "last (b # map (fst \<circ> snd) (x # rest)) = last (bytes # map (fst \<circ> snd) rest)"
    by (simp_all add: x update_bitrate_def Let_def)
  show ?case
    unfolding eqs Let_def
    using conjunct1 [OF rest [unfolded Let_def]] conjunct2 [OF rest [unfolded Let_def]] step
    by (intro conjI; smt (verit))
qed

theorem bitrates_account_for_bytes_witness:
  "let samples = [(2000, 125000, 0), (3000, 376000, 0)]; st = bitrate_init\<lparr>bs_prev_stats_collect_mono_ms := 1000\<rparr>;
       t' = last (1000 # map fst samples); bits = 8 * (uint (last ((0 :: u64) # map (fst \<circ> snd) samples)) - uint (0 :: u64));
       a = accounted 1000 (collected_rates samples st) samples
   in a = 3008000 \<and> a \<le> bits \<and> bits \<le> a + (t' - 1000)"
  using bitrates_account_for_bytes [of 1000 0 "[(2000, 125000, 0), (3000, 376000, 0)]" "bitrate_init\<lparr>bs_prev_stats_collect_mono_ms := 1000\<rparr>"]
  by (simp add: bitrate_init_def update_bitrate_def measured_kbps_def)


section \<open>The statistics an application sees\<close>

text \<open>
  What a publishing application reads is what WebRTC reported: for a running stream whose streamer has
  a connection, the call succeeds; when the report arrives in time the bytes, packets and losses are the
  sums over the video rows of the report, otherwise they are 0 and the frame rate is the number of pushed
  frames per second of the stream's life. Who wins the race between report and time-out decides nothing else.
\<close>

theorem svc_stats_from_report:
  assumes "FindStream h w = Some sh" and "st_magic sh = svc_kMagicStream" and "st_impl sh = Some pub"
    and "fst (SelectStatsPeerConnection im) \<noteq> None" and "one_report (Some r) events"
  shows "\<exists>ms. librflow_svc_stream_get_stats now True (push_CollectStats events im) stale (Some h) (Some old) w = (RFLOW_OK, Some (Some ms)) \<and>
           (if sync_ok (SyncGetPeerConnectionStats AccumulateOutboundPublisherVideoFromReport events outbound_init)
            then ms_out_bound_bytes ms = total os_bytes_sent (video_out r) \<and>
                 ms_out_bound_pkts ms = total os_packets_sent (video_out r) \<and>
                 ms_lost_pkts ms = total (\<lambda>s. positive_lost (ri_packets_lost s)) (video_remote r)
            else ms_out_bound_bytes ms = 0 \<and> ms_out_bound_pkts ms = 0 \<and> ms_lost_pkts ms = 0 \<and>
                 ms_fps ms = ucast ((pb_video_frames_pushed pub * 1000) div (ucast (max 1 (ms_duration_ms ms)) :: u64)))"
proof -
  obtain pc where pc: "fst (SelectStatsPeerConnection im) = Some pc" using assms(4) by auto
  let ?s = "SyncGetPeerConnectionStats AccumulateOutboundPublisherVideoFromReport events outbound_init"
  have v: "sync_ok ?s \<Longrightarrow> ss_value ?s = AccumulateOutboundPublisherVideoFromReport (Some r) outbound_init"
    using sync_run_inv [OF assms(5), of AccumulateOutboundPublisherVideoFromReport outbound_init]
    by (auto simp: sync_inv_def sync_ok_def split: if_splits)
  have sums: "oa_out_bytes (AccumulateOutboundPublisherVideoFromReport (Some r) outbound_init) = total os_bytes_sent (video_out r)"
    "oa_out_pkts (AccumulateOutboundPublisherVideoFromReport (Some r) outbound_init) = total os_packets_sent (video_out r)"
    "oa_lost_pkts (AccumulateOutboundPublisherVideoFromReport (Some r) outbound_init) = total (\<lambda>s. positive_lost (ri_packets_lost s)) (video_remote r)"
    by (simp_all add: AccumulateOutboundPublisherVideoFromReport_def outbound_init_def)
  show ?thesis
    using assms(1-3) pc v sums
    by (simp add: librflow_svc_stream_get_stats_def magic_at_def AllocStreamStats_def push_CollectStats_def Let_def
        FillStreamStatsBase_def ApplyStreamStatsFpsFallbackFromFrameCount_def split: option.split)
qed

definition demo_report :: RTCStatsReport where
  "demo_report = \<lparr> rr_outbound = [\<lparr> os_id = ''OT1'', os_ssrc = Some 7, os_kind = Some ''video'', os_bytes_sent = Some 1500,
       os_packets_sent = Some 3, os_retransmitted_packets_sent = None, os_frames_encoded = Some 2, os_key_frames_encoded = Some 1,
       os_frame_width = Some 640, os_frame_height = Some 480, os_frames_per_second = Some (59 / 2),
       os_quality_limitation_reason = None, os_quality_limitation_resolution_changes = None \<rparr>],
     rr_remote_inbound = [\<lparr> ri_kind = Some ''video'', ri_packets_lost = Some 2, ri_round_trip_time = Some (3 / 100) \<rparr>],
     rr_pairs = [], rr_inbound = [], rr_codecs = [] \<rparr>"

theorem svc_stats_from_report_witness:
  "\<exists>(im :: Impl) ms. librflow_svc_stream_get_stats 9 True (push_CollectStats [ObserverConsumes (Some demo_report), ObserverDone, WaiterWakes] im)
      0 (Some 1) (Some None) demo_started = (RFLOW_OK, Some (Some ms)) \<and>
     ms_out_bound_bytes ms = 1500 \<and> ms_out_bound_pkts ms = 3 \<and> ms_lost_pkts ms = 2"
proof -
  let ?ev = "[ObserverConsumes (Some demo_report), ObserverDone, WaiterWakes]"
  obtain sh pub where sh: "FindStream 1 demo_started = Some sh" "st_impl sh = Some pub" "st_magic sh = svc_kMagicStream"
    using demo_started_found sdk_reachable_ok [OF demo_reachable(2)] svc_ok_found stream_ok_def by blast
  obtain im where "push_reachable demo_lib demo_platform im" and "im_peer_connections im = [(''s1'', 1), (''s2'', 2)]"
    and im: "im_peer_connection im = Some 0" and "im_is_streaming im" "owned_connections im = [0, 1, 2]" "closed_log im = []"
    by (rule demo_state)
  then have sel: "fst (SelectStatsPeerConnection im) \<noteq> None" by (simp add: SelectStatsPeerConnection_def split: list.split prod.split)
  have one: "one_report (Some demo_report) ?ev" by (simp add: one_report_def)
  have ok: "sync_ok (SyncGetPeerConnectionStats AccumulateOutboundPublisherVideoFromReport ?ev outbound_init)"
    by (simp add: sync_ok_def SyncGetPeerConnectionStats_def sync_begin_def sync_return_def)
  show ?thesis
    using svc_stats_from_report [OF sh(1,3,2) sel one, of 9 0 None] ok
    by (auto simp: demo_report_def video_out_def video_remote_def total_def positive_lost_def)
qed

section \<open>The log of a pulling session is well formed\<close>

lemma u64_rat_nonneg [simp]: "0 \<le> u64_rat w"
  unfolding u64_rat_def of_int_0_le_iff by (rule uint_ge_0)

lemma u64_rat_le_iff [simp]: "u64_rat v \<le> u64_rat w \<longleftrightarrow> v \<le> w"
  unfolding u64_rat_def of_int_le_iff by (simp add: word_le_def)

lemma u64_rat_pos [simp]: "0 < u64_rat w \<longleftrightarrow> 0 < w"
  unfolding u64_rat_def of_int_0_less_iff by (simp add: word_less_def)

lemma per_frame_ms_nonneg: "0 \<le> seconds \<Longrightarrow> 0 \<le> per_frame_ms seconds n"
  by (simp add: per_frame_ms_def)

lemma since_rat_nonneg: "0 \<le> since_rat known now prev"
  by (simp add: since_rat_def)

lemma loss_percent_range:
  assumes "uint packets + max 0 lost < 2 ^ 64"
  shows "0 \<le> loss_percent packets lost \<and> loss_percent packets lost \<le> 100"
proof -
  let ?p = "if lost > 0 then word_of_int lost else (0 :: u64)"
  have "lost < 2 ^ 64" using assms uint_ge_0 [of packets] by linarith
  then have u: "uint ?p = max 0 lost" by (simp add: uint_word_of_int_eq take_bit_int_eq_self)
  have "uint packets + uint ?p < 2 ^ LENGTH(64)" unfolding u using assms by simp
  then have "uint (packets + ?p) = uint packets + uint ?p" by (rule iffD1 [OF uint_add_lem])
  then have "?p \<le> packets + ?p" using uint_ge_0 [of packets] by (simp only: word_le_def)
  then have "u64_rat ?p \<le> u64_rat (packets + ?p)" by (simp only: u64_rat_le_iff)
  then show ?thesis
    unfolding loss_percent_def Let_def by (simp add: divide_le_eq del: u64_rat_le_iff)
qed

text \<open>
  The averages the watchdog logs are never negative, and the loss is a percentage, whatever the counters of
  two consecutive reports do.
\<close>

theorem pipeline_log_sane:
  assumes "uint (ia_packets_received agg) + max 0 (ia_packets_lost_signed agg) < 2 ^ 64"
  shows "0 \<le> lg_avg_decode_ms (fst (pipeline_log r agg prev st)) \<and> 0 \<le> lg_avg_processing_ms (fst (pipeline_log r agg prev st)) \<and>
         0 \<le> lg_avg_assembly_ms (fst (pipeline_log r agg prev st)) \<and>
         0 \<le> lg_loss_pct (fst (pipeline_log r agg prev st)) \<and> lg_loss_pct (fst (pipeline_log r agg prev st)) \<le> 100"
  using loss_percent_range [OF assms]
  by (simp add: pipeline_log_def Let_def per_frame_ms_nonneg since_rat_nonneg split: prod.split)

text \<open>The round trip time is that of the last nominated pair that has one.\<close>

theorem nominated_pair_wins:
  assumes "rr_pairs r = before @ p # after" and "pair_nominated p" and "cp_current_round_trip_time p = Some t"
    and "\<forall>q \<in> set after. \<not> pair_nominated q"
  shows "nr_current_round_trip_time_s (AccumulateNominatedIcePairRttFromReport (Some r) out) = t"
proof -
  have "foldl nominated_row (True, x) after = (True, x)" for x
    using assms(4) by (induction after) (simp_all add: nominated_row_def)
  then show ?thesis
    using assms(1-3) by (simp add: AccumulateNominatedIcePairRttFromReport_def nominated_row_def read_pair_def set_opt_def)
qed

end
