(* ===== verification/Pipeline_Health.thy ===== *)
theory Pipeline_Health
  imports Rtc_Stats
begin

text \<open>
  Loss and health of the publishing pipeline: the process-wide counters
  (\<^verbatim>\<open>src/core/rtc/push_pipeline_drop_stats.cpp\<close>), the periodic health line
  (\<^verbatim>\<open>push_pipeline_health.cpp\<close>) and the log of frames WebRTC did not encode (\<^verbatim>\<open>MaybeLogWebRtcSendDropStats\<close>
  and \<^verbatim>\<open>PrintOutboundVideoStats\<close> of \<^verbatim>\<open>push_streamer_internals.cpp\<close>). What is logged is a record or a
  string; the static variables of the functions are records that are passed along.
\<close>

section \<open>Counters\<close>

record PushPipelineDropStats =
  ds_v4l2_capture_total :: u64
  ds_dispatched_total :: u64
  ds_rga_scale_ok_total :: u64
  ds_rga_scale_fail_total :: u64
  ds_zc_fallback_total :: u64

definition drop_stats_init :: PushPipelineDropStats where
  "drop_stats_init = \<lparr> ds_v4l2_capture_total = 0, ds_dispatched_total = 0, ds_rga_scale_ok_total = 0,
     ds_rga_scale_fail_total = 0, ds_zc_fallback_total = 0 \<rparr>"

definition OnV4l2FrameCaptured :: "u64 \<Rightarrow> PushPipelineDropStats \<Rightarrow> PushPipelineDropStats" where
  "OnV4l2FrameCaptured cnt s = (if cnt = 0 then s else s\<lparr>ds_v4l2_capture_total := ds_v4l2_capture_total s + cnt\<rparr>)"

definition OnFrameDispatched :: "u64 \<Rightarrow> PushPipelineDropStats \<Rightarrow> PushPipelineDropStats" where
  "OnFrameDispatched cnt s = (if cnt = 0 then s else s\<lparr>ds_dispatched_total := ds_dispatched_total s + cnt\<rparr>)"

definition OnRgaScaleOk :: "u64 \<Rightarrow> PushPipelineDropStats \<Rightarrow> PushPipelineDropStats" where
  "OnRgaScaleOk cnt s = (if cnt = 0 then s else s\<lparr>ds_rga_scale_ok_total := ds_rga_scale_ok_total s + cnt\<rparr>)"

definition OnRgaScaleFail :: "u64 \<Rightarrow> PushPipelineDropStats \<Rightarrow> PushPipelineDropStats" where
  "OnRgaScaleFail cnt s = (if cnt = 0 then s else s\<lparr>ds_rga_scale_fail_total := ds_rga_scale_fail_total s + cnt\<rparr>)"

definition OnZcFallback :: "u64 \<Rightarrow> PushPipelineDropStats \<Rightarrow> PushPipelineDropStats" where
  "OnZcFallback cnt s = (if cnt = 0 then s else s\<lparr>ds_zc_fallback_total := ds_zc_fallback_total s + cnt\<rparr>)"

definition show_u64 :: "u64 \<Rightarrow> string" where
  "show_u64 w = to_string (uint w)"

text \<open>The line is built in a buffer of 640 bytes. None is a null pointer, and no line.\<close>

definition LogDrop :: "string option \<Rightarrow> u64 \<Rightarrow> u64 \<Rightarrow> string option \<Rightarrow> PushPipelineDropStats \<Rightarrow> string option" where
  "LogDrop md drop_delta drop_module_total detail s =
     (case md of None \<Rightarrow> None
      | Some m \<Rightarrow>
          if drop_delta = 0 then None
          else Some (take 639 (''[PushDrop] module='' @ m @ '' | capture_total='' @ show_u64 (ds_v4l2_capture_total s)
                 @ '' | webrtc_in_total='' @ show_u64 (ds_dispatched_total s) @ '' | drop_now='' @ show_u64 drop_delta
                 @ '' | drop_module_total='' @ show_u64 drop_module_total
                 @ (case detail of Some (c # cs) \<Rightarrow> '' | '' @ c # cs | _ \<Rightarrow> []))))"

section \<open>What a report says about sending\<close>

record OutboundVideoFields =
  of_frames_encoded :: u32
  of_frame_w :: u32
  of_frame_h :: u32
  of_enc_fps :: u32
  of_ql_reason :: string
  of_rtt_ms :: u32
  of_bitrate_kbps :: u32
  of_rtp_lost_pkts :: u64

definition outbound_fields_init :: OutboundVideoFields where
  "outbound_fields_init = \<lparr> of_frames_encoded = 0, of_frame_w = 0, of_frame_h = 0, of_enc_fps = 0, of_ql_reason = ''none'',
     of_rtt_ms = 0, of_bitrate_kbps = 0, of_rtp_lost_pkts = 0 \<rparr>"

definition fields_out_row :: "OutboundVideoFields \<Rightarrow> RTCOutboundRtpStreamStats \<Rightarrow> OutboundVideoFields" where
  "fields_out_row f s =
     (if os_kind s \<noteq> Some ''video'' then f
      else f\<lparr>of_frames_encoded := max_opt (os_frames_encoded s) (of_frames_encoded f),
             of_frame_w := max_opt (os_frame_width s) (of_frame_w f),
             of_frame_h := max_opt (os_frame_height s) (of_frame_h f),
             of_enc_fps := max_opt (map_option round_u32 (os_frames_per_second s)) (of_enc_fps f),
             of_ql_reason := set_opt (os_quality_limitation_reason s) (of_ql_reason f)\<rparr>)"

definition fields_remote_row :: "OutboundVideoFields \<Rightarrow> RTCRemoteInboundRtpStreamStats \<Rightarrow> OutboundVideoFields" where
  "fields_remote_row f s =
     (if ri_kind s \<noteq> Some ''video'' then f
      else f\<lparr>of_rtt_ms := max_opt (map_option (\<lambda>t. round_u32 (t * 1000)) (ri_round_trip_time s)) (of_rtt_ms f),
             of_rtp_lost_pkts := (case ri_packets_lost s of
                 Some n \<Rightarrow> if n > 0 then of_rtp_lost_pkts f + word_of_int n else of_rtp_lost_pkts f
               | None \<Rightarrow> of_rtp_lost_pkts f)\<rparr>)"

definition fields_pair_row :: "OutboundVideoFields \<Rightarrow> RTCIceCandidatePairStats \<Rightarrow> OutboundVideoFields" where
  "fields_pair_row f p =
     f\<lparr>of_rtt_ms := max_opt (map_option (\<lambda>t. round_u32 (t * 1000)) (cp_current_round_trip_time p)) (of_rtt_ms f),
       of_bitrate_kbps := max_opt (map_option (\<lambda>b. round_u32 (b / 1000)) (cp_available_outgoing_bitrate p)) (of_bitrate_kbps f)\<rparr>"

definition ExtractOutboundVideoFields :: "RTCStatsReport option \<Rightarrow> OutboundVideoFields" where
  "ExtractOutboundVideoFields report =
     (case report of None \<Rightarrow> outbound_fields_init
      | Some r \<Rightarrow> foldl fields_pair_row
                   (foldl fields_remote_row (foldl fields_out_row outbound_fields_init (rr_outbound r)) (rr_remote_inbound r))
                   (rr_pairs r))"

section \<open>The window since the last health line\<close>

record CapturePipelineHealthInput =
  hi_mjpeg_queue_depth :: nat
  hi_mjpeg_stale_drops :: u64
  hi_mjpeg_queue_full_drops :: u64
  hi_mjpeg_latest_only_drops :: u64
  hi_empty_payload_drops :: u64
  hi_convert_fail_drops :: u64
  hi_nv12_pool_busy :: u64

record HealthBaseline =
  hb_capture :: u64
  hb_dispatched :: u64
  hb_mjpeg_stale :: u64
  hb_mjpeg_qfull :: u64
  hb_mjpeg_latest :: u64
  hb_empty_payload :: u64
  hb_convert_fail :: u64
  hb_nv12_pool_busy :: u64
  hb_rga_scale_ok :: u64
  hb_rga_scale_fail :: u64
  hb_zc_fallback :: u64
  hb_rtp_lost_pkts :: u64
  hb_frames_encoded :: u32
  hb_initialized :: bool

definition health_baseline_init :: HealthBaseline where
  "health_baseline_init = \<lparr> hb_capture = 0, hb_dispatched = 0, hb_mjpeg_stale = 0, hb_mjpeg_qfull = 0, hb_mjpeg_latest = 0,
     hb_empty_payload = 0, hb_convert_fail = 0, hb_nv12_pool_busy = 0, hb_rga_scale_ok = 0, hb_rga_scale_fail = 0,
     hb_zc_fallback = 0, hb_rtp_lost_pkts = 0, hb_frames_encoded = 0, hb_initialized = False \<rparr>"

definition delta_from :: "'w::len word \<Rightarrow> 'w word \<Rightarrow> 'w word" where
  "delta_from now prev = (if now \<ge> prev then now - prev else 0)"

record HealthWindow =
  hw_gap :: u64
  hw_cap_delta :: u64
  hw_disp_delta :: u64
  hw_gap_delta :: int
  hw_stale_delta :: u64
  hw_qfull_delta :: u64
  hw_latest_delta :: u64
  hw_empty_delta :: u64
  hw_convert_delta :: u64
  hw_nv12_busy_delta :: u64
  hw_rga_ok_delta :: u64
  hw_rga_fail_delta :: u64
  hw_zc_fallback_delta :: u64
  hw_rtp_lost_delta :: u64
  hw_enc_delta :: u32

definition health_window ::
  "CapturePipelineHealthInput \<Rightarrow> PushPipelineDropStats \<Rightarrow> OutboundVideoFields \<Rightarrow> HealthBaseline \<Rightarrow> HealthWindow" where
  "health_window cam ds f prev =
     (let gap = delta_from (ds_v4l2_capture_total ds) (ds_dispatched_total ds);
          known = hb_initialized prev; d = (\<lambda>now old. if known then delta_from now old else (0 :: u64))
      in \<lparr> hw_gap = gap,
           hw_cap_delta = d (ds_v4l2_capture_total ds) (hb_capture prev),
           hw_disp_delta = d (ds_dispatched_total ds) (hb_dispatched prev),
           hw_gap_delta = (if known then sint gap - sint (delta_from (hb_capture prev) (hb_dispatched prev)) else 0),
           hw_stale_delta = d (hi_mjpeg_stale_drops cam) (hb_mjpeg_stale prev),
           hw_qfull_delta = d (hi_mjpeg_queue_full_drops cam) (hb_mjpeg_qfull prev),
           hw_latest_delta = d (hi_mjpeg_latest_only_drops cam) (hb_mjpeg_latest prev),
           hw_empty_delta = d (hi_empty_payload_drops cam) (hb_empty_payload prev),
           hw_convert_delta = d (hi_convert_fail_drops cam) (hb_convert_fail prev),
           hw_nv12_busy_delta = d (hi_nv12_pool_busy cam) (hb_nv12_pool_busy prev),
           hw_rga_ok_delta = d (ds_rga_scale_ok_total ds) (hb_rga_scale_ok prev),
           hw_rga_fail_delta = d (ds_rga_scale_fail_total ds) (hb_rga_scale_fail prev),
           hw_zc_fallback_delta = d (ds_zc_fallback_total ds) (hb_zc_fallback prev),
           hw_rtp_lost_delta = d (of_rtp_lost_pkts f) (hb_rtp_lost_pkts prev),
           hw_enc_delta = (if known then delta_from (of_frames_encoded f) (hb_frames_encoded prev) else 0) \<rparr>)"

definition health_baseline_next ::
  "CapturePipelineHealthInput \<Rightarrow> PushPipelineDropStats \<Rightarrow> OutboundVideoFields \<Rightarrow> HealthBaseline" where
  "health_baseline_next cam ds f =
     \<lparr> hb_capture = ds_v4l2_capture_total ds, hb_dispatched = ds_dispatched_total ds,
       hb_mjpeg_stale = hi_mjpeg_stale_drops cam, hb_mjpeg_qfull = hi_mjpeg_queue_full_drops cam,
       hb_mjpeg_latest = hi_mjpeg_latest_only_drops cam, hb_empty_payload = hi_empty_payload_drops cam,
       hb_convert_fail = hi_convert_fail_drops cam, hb_nv12_pool_busy = hi_nv12_pool_busy cam,
       hb_rga_scale_ok = ds_rga_scale_ok_total ds, hb_rga_scale_fail = ds_rga_scale_fail_total ds,
       hb_zc_fallback = ds_zc_fallback_total ds, hb_rtp_lost_pkts = of_rtp_lost_pkts f,
       hb_frames_encoded = of_frames_encoded f, hb_initialized = True \<rparr>"

section \<open>The health line\<close>

definition FpsFromDelta :: "u64 \<Rightarrow> int \<Rightarrow> u32" where
  "FpsFromDelta delta interval_sec =
     (if interval_sec \<le> 0 then 0
      else let i = (word_of_int interval_sec :: u64) in ucast ((delta + i div 2) div i))"

definition QlReasonLabel :: "string \<Rightarrow> string" where
  "QlReasonLabel ql = (if ql = [] \<or> ql = ''none'' then ''none'' else ql)"

text \<open>
  \<^verbatim>\<open>snprintf\<close> into the rest of a buffer of \<open>cap\<close> bytes that holds a terminated text.
\<close>

definition AppendDropPart :: "nat \<Rightarrow> string \<Rightarrow> string \<times> u64 \<Rightarrow> string" where
  "AppendDropPart cap buf part =
     (if cap = 0 \<or> snd part = 0 then buf
      else if length buf \<ge> cap - 1 then buf
      else take (cap - 1) (buf @ (if buf \<noteq> [] then '', '' else []) @ fst part @ show_u64 (snd part)))"

definition drop_parts :: "HealthWindow \<Rightarrow> (string \<times> u64) list" where
  "drop_parts w =
     [(''stale'', hw_stale_delta w), (''queue_full'', hw_qfull_delta w), (''latest_only'', hw_latest_delta w),
      (''empty_payload'', hw_empty_delta w), (''convert_fail'', hw_convert_delta w), (''nv12_pool_busy'', hw_nv12_busy_delta w)]"

definition FormatWindowDrops :: "nat \<Rightarrow> (string \<times> u64) list \<Rightarrow> string" where
  "FormatWindowDrops cap parts =
     (let buf = foldl (AppendDropPart cap) [] parts in if buf = [] then take (cap - 1) ''none'' else buf)"

definition BacklogTrend :: "int \<Rightarrow> string" where
  "BacklogTrend gap_delta = (if gap_delta > 0 then ''rising'' else if gap_delta < 0 then ''falling'' else ''stable'')"

definition HealthStatus :: "bool \<Rightarrow> bool \<Rightarrow> bool \<Rightarrow> string" where
  "HealthStatus has_drop backlog_growing ql_active =
     (if has_drop \<and> backlog_growing then ''DROPS+BACKLOG'' else if has_drop then ''DROPS''
      else if backlog_growing then ''BACKLOG'' else if ql_active then ''THROTTLED'' else ''OK'')"

definition has_drop :: "HealthWindow \<Rightarrow> bool" where
  "has_drop w \<longleftrightarrow> hw_stale_delta w > 0 \<or> hw_qfull_delta w > 0 \<or> hw_latest_delta w > 0 \<or> hw_empty_delta w > 0
     \<or> hw_convert_delta w > 0 \<or> hw_nv12_busy_delta w > 0"

definition encode_pressure :: "HealthWindow \<Rightarrow> bool" where
  "encode_pressure w \<longleftrightarrow> hw_rga_fail_delta w > 0 \<or> hw_zc_fallback_delta w > 0"

definition backlog_growing :: "HealthWindow \<Rightarrow> bool" where
  "backlog_growing w \<longleftrightarrow> hw_gap_delta w > 0 \<or> hw_disp_delta w + 2 < hw_cap_delta w"

definition ql_active :: "OutboundVideoFields \<Rightarrow> bool" where
  "ql_active f \<longleftrightarrow> of_ql_reason f \<noteq> [] \<and> of_ql_reason f \<noteq> ''none''"

record HealthReport =
  hr_status :: string
  hr_capture :: u64
  hr_cap_fps :: u32
  hr_dispatched :: u64
  hr_disp_fps :: u32
  hr_trend :: string
  hr_mjpeg_qdepth :: nat
  hr_drops :: string
  hr_resolution :: "(u32 \<times> u32) option"
  hr_ql_reason :: string
  hr_window :: HealthWindow
  hr_fields :: OutboundVideoFields

definition LogPushPipelineHealth ::
  "env \<Rightarrow> KnobState \<Rightarrow> int \<Rightarrow> CapturePipelineHealthInput \<Rightarrow> RTCStatsReport option \<Rightarrow> PushPipelineDropStats \<Rightarrow> HealthBaseline
     \<Rightarrow> HealthReport option \<times> HealthBaseline" where
  "LogPushPipelineHealth env ks interval_sec cam report ds prev =
     (if interval_sec \<le> 0 then (None, prev)
      else let f = ExtractOutboundVideoFields report; w = health_window cam ds f prev; nxt = health_baseline_next cam ds f;
               only_anomaly = (fst (ReadInt env ''RFLOW_PUSH_HEALTH_ONLY_ANOMALY'' ks) \<noteq> 0)
           in if \<not> hb_initialized prev then (None, nxt)
              else if only_anomaly \<and> \<not> has_drop w \<and> \<not> backlog_growing w \<and> \<not> ql_active f \<and> \<not> encode_pressure w
                      \<and> \<not> hw_rtp_lost_delta w > 0 then (None, nxt)
              else (Some \<lparr> hr_status = HealthStatus (has_drop w) (backlog_growing w) (ql_active f),
                      hr_capture = ds_v4l2_capture_total ds, hr_cap_fps = FpsFromDelta (hw_cap_delta w) interval_sec,
                      hr_dispatched = ds_dispatched_total ds, hr_disp_fps = FpsFromDelta (hw_disp_delta w) interval_sec,
                      hr_trend = BacklogTrend (hw_gap_delta w), hr_mjpeg_qdepth = hi_mjpeg_queue_depth cam,
                      hr_drops = FormatWindowDrops 192 (drop_parts w),
                      hr_resolution = (if of_frame_w f > 0 \<and> of_frame_h f > 0 then Some (of_frame_w f, of_frame_h f) else None),
                      hr_ql_reason = QlReasonLabel (of_ql_reason f), hr_window = w, hr_fields = f \<rparr>, nxt))"

section \<open>Frames that were not encoded\<close>

record SendDropState =
  sd_prev_dispatched :: u64
  sd_prev_encoded :: u64
  sd_webrtc_drop_total :: u64

definition send_drop_init :: SendDropState where
  "send_drop_init = \<lparr> sd_prev_dispatched = 0, sd_prev_encoded = 0, sd_webrtc_drop_total = 0 \<rparr>"

record SendFields =
  sf_frames_encoded :: u32
  sf_ql_reason :: string
  sf_frame_w :: u32
  sf_frame_h :: u32

definition send_row :: "SendFields \<Rightarrow> RTCOutboundRtpStreamStats \<Rightarrow> SendFields" where
  "send_row f s =
     (if os_kind s \<noteq> Some ''video'' then f
      else \<lparr> sf_frames_encoded = max_opt (os_frames_encoded s) (sf_frames_encoded f),
             sf_ql_reason = set_opt (os_quality_limitation_reason s) (sf_ql_reason f),
             sf_frame_w = set_opt (os_frame_width s) (sf_frame_w f), sf_frame_h = set_opt (os_frame_height s) (sf_frame_h f) \<rparr>)"

definition send_fields :: "RTCStatsReport \<Rightarrow> SendFields" where
  "send_fields r = foldl send_row \<lparr> sf_frames_encoded = 0, sf_ql_reason = ''none'', sf_frame_w = 0, sf_frame_h = 0 \<rparr> (rr_outbound r)"

text \<open>The detail text is cut at 159 characters.\<close>

definition send_detail :: "u64 \<Rightarrow> u64 \<Rightarrow> SendFields \<Rightarrow> string" where
  "send_detail delta_dispatched delta_encoded f =
     take 159 (''window_webrtc_in='' @ show_u64 delta_dispatched @ '' window_encoded='' @ show_u64 delta_encoded
       @ '' | frames_encoded_total='' @ to_string (uint (sf_frames_encoded f)) @ '' | ql_reason='' @ sf_ql_reason f
       @ '' | frame='' @ to_string (uint (sf_frame_w f)) @ ''x'' @ to_string (uint (sf_frame_h f)))"

definition MaybeLogWebRtcSendDropStats ::
  "RTCStatsReport option \<Rightarrow> PushPipelineDropStats \<Rightarrow> SendDropState \<Rightarrow> string option \<times> SendDropState" where
  "MaybeLogWebRtcSendDropStats report ds st =
     (case report of None \<Rightarrow> (None, st)
      | Some r \<Rightarrow>
          let f = send_fields r; encoded = (ucast (sf_frames_encoded f) :: u64); dispatched = ds_dispatched_total ds;
              st1 = st\<lparr>sd_prev_dispatched := dispatched, sd_prev_encoded := encoded\<rparr>
          in if sd_prev_dispatched st = 0 \<and> sd_prev_encoded st = 0 then (None, st1)
             else let delta_dispatched = delta_from dispatched (sd_prev_dispatched st);
                      delta_encoded = delta_from encoded (sd_prev_encoded st)
                  in if delta_dispatched \<le> delta_encoded then (None, st1)
                     else let delta = delta_dispatched - delta_encoded; drops = sd_webrtc_drop_total st + delta
                          in (LogDrop (Some ''WebRTC/Send'') delta drops (Some (send_detail delta_dispatched delta_encoded f)) ds,
                              st1\<lparr>sd_webrtc_drop_total := drops\<rparr>))"

text \<open>The lines \<^verbatim>\<open>PrintOutboundVideoStats\<close> writes, one for each video row.\<close>

definition opt_field :: "string \<Rightarrow> string option \<Rightarrow> string" where
  "opt_field name v = (case v of None \<Rightarrow> [] | Some t \<Rightarrow> '' '' @ name @ ''='' @ t)"

definition outbound_line :: "string \<Rightarrow> RTCOutboundRtpStreamStats \<Rightarrow> string" where
  "outbound_line pc_tag s =
     ''pc='' @ pc_tag @ '' id='' @ os_id s
     @ opt_field ''ssrc'' (map_option (to_string \<circ> uint) (os_ssrc s))
     @ opt_field ''frames_encoded'' (map_option (to_string \<circ> uint) (os_frames_encoded s))
     @ opt_field ''key_frames_encoded'' (map_option (to_string \<circ> uint) (os_key_frames_encoded s))
     @ opt_field ''packets_sent'' (map_option show_u64 (os_packets_sent s))
     @ opt_field ''bytes_sent'' (map_option show_u64 (os_bytes_sent s))
     @ opt_field ''retrans_pkts'' (map_option show_u64 (os_retransmitted_packets_sent s))
     @ opt_field ''frame_w'' (map_option (to_string \<circ> uint) (os_frame_width s))
     @ opt_field ''frame_h'' (map_option (to_string \<circ> uint) (os_frame_height s))
     @ opt_field ''ql_reason'' (os_quality_limitation_reason s)
     @ opt_field ''ql_res_changes'' (map_option (to_string \<circ> uint) (os_quality_limitation_resolution_changes s))"

definition PrintOutboundVideoStats :: "string \<Rightarrow> RTCStatsReport option \<Rightarrow> string list" where
  "PrintOutboundVideoStats pc_tag report =
     (case report of None \<Rightarrow> [] | Some r \<Rightarrow> map (outbound_line pc_tag) (filter (\<lambda>s. os_kind s = Some ''video'') (rr_outbound r)))"

section \<open>The list of drops is complete\<close>

definition shown_part :: "string \<times> u64 \<Rightarrow> string" where
  "shown_part p = fst p @ show_u64 (snd p)"

fun comma_join :: "string list \<Rightarrow> string" where
  "comma_join [] = []"
| "comma_join [x] = x"
| "comma_join (x # y # zs) = x @ '', '' @ comma_join (y # zs)"

definition listed :: "(string \<times> u64) list \<Rightarrow> string" where
  "listed ps = comma_join (map shown_part ps)"

lemma comma_join_snoc: "xs \<noteq> [] \<Longrightarrow> comma_join (xs @ [x]) = comma_join xs @ '', '' @ x"
  by (induction xs rule: comma_join.induct) simp_all

lemma listed_snoc: "listed (ps @ [p]) = (if ps = [] then [] else listed ps @ '', '') @ shown_part p"
  by (simp add: listed_def comma_join_snoc)

lemma listed_simps [simp]: "listed [] = []" "listed [p] = shown_part p"
  by (simp_all add: listed_def)

lemma AppendDropPart_zero [simp]: "snd p = 0 \<Longrightarrow> AppendDropPart cap buf p = buf"
  by (simp add: AppendDropPart_def)

lemma length_show_nat: "0 < k \<Longrightarrow> n < 10 ^ k \<Longrightarrow> length (show_nat n) \<le> k"
proof (induction n arbitrary: k rule: show_nat.induct)
  case (1 n)
  show ?case
  proof (cases "n < 10")
    case True
    then show ?thesis using 1 by (subst show_nat.simps) simp
  next
    case False
    then obtain j where j: "k = Suc j" "0 < j" using 1 by (cases k; cases "k - 1") auto
    then have "n div 10 < 10 ^ j" using 1 by (simp add: div_less_iff_less_mult mult.commute)
    then have "length (show_nat (n div 10)) \<le> j" using 1 j False by blast
    then show ?thesis using False j by (subst show_nat.simps) simp
  qed
qed

lemma length_show_u64: "uint w < 10 ^ 19 \<Longrightarrow> length (show_u64 w) \<le> 19"
  using length_show_nat [of 19 "unat w"] nat_less_iff [OF uint_ge_0, of w "10 ^ 19"]
  by (simp add: show_u64_def to_string_def)

lemma show_nat_ne [simp]: "show_u64 w \<noteq> []"
  by (simp add: show_u64_def to_string_nonempty)

lemma length_listed:
  assumes "\<forall>p \<in> set ps. uint (snd p) < 10 ^ 19" and "ps \<noteq> []"
  shows "length (listed ps) + 2 \<le> (\<Sum>p\<leftarrow>ps. length (fst p) + 21)"
  using assms
proof (induction ps rule: rev_induct)
  case (snoc p ps)
  have "length (shown_part p) \<le> length (fst p) + 19"
    using length_show_u64 [of "snd p"] snoc.prems by (simp add: shown_part_def)
  then show ?case using snoc by (cases "ps = []") (auto simp: listed_snoc)
qed simp

lemma listed_eq_Nil [simp]: "listed ps = [] \<longleftrightarrow> ps = []"
proof (cases ps rule: rev_cases)
  case (snoc qs q)
  have "shown_part q \<noteq> []" by (simp add: shown_part_def)
  then show ?thesis by (simp add: snoc listed_snoc)
qed (simp add: listed_def)

lemma append_parts:
  assumes "\<forall>p \<in> set parts. uint (snd p) < 10 ^ 19" and "(\<Sum>p\<leftarrow>parts. length (fst p) + 21) \<le> cap + 1" and "0 < cap"
  shows "foldl (AppendDropPart cap) [] parts = listed (filter (\<lambda>p. snd p \<noteq> 0) parts)"
  using assms
proof (induction parts rule: rev_induct)
  case (snoc p parts)
  let ?ps = "filter (\<lambda>p. snd p \<noteq> 0) parts"
  have IH: "foldl (AppendDropPart cap) [] parts = listed ?ps" using snoc by simp
  show ?case
  proof (cases "snd p = 0")
    case True
    then show ?thesis using IH by simp
  next
    case False
    have sub: "(\<Sum>q\<leftarrow>?ps. length (fst q) + 21) \<le> (\<Sum>q\<leftarrow>parts. length (fst q) + 21)" by (induction parts) auto
    have "length (listed (?ps @ [p])) + 2 \<le> (\<Sum>q\<leftarrow>?ps @ [p]. length (fst q) + 21)"
      by (rule length_listed) (use snoc.prems in auto)
    then have len: "length (listed (?ps @ [p])) \<le> cap - 1" using sub snoc.prems by simp
    have ne: "shown_part p \<noteq> []" by (simp add: shown_part_def)
    have joined: "listed ?ps @ (if listed ?ps \<noteq> [] then '', '' else []) @ fst p @ show_u64 (snd p) = listed (?ps @ [p])"
      by (cases "?ps = []") (simp_all add: listed_snoc shown_part_def)
    have short: "length (listed ?ps) < cap - 1"
    proof -
      have "length (listed ?ps) < length (listed (?ps @ [p]))" using ne by (cases "?ps = []") (simp_all add: listed_snoc)
      then show ?thesis using len by linarith
    qed
    have "AppendDropPart cap (listed ?ps) p = take (cap - 1) (listed (?ps @ [p]))"
      using False short snoc.prems(3) joined by (simp add: AppendDropPart_def)
    then show ?thesis using IH False len by simp
  qed
qed (simp add: listed_def)

text \<open>
  The list of drops in a health line is complete: with counters below 10 to the 19 the 192 bytes of the
  buffer are enough, every non-zero drop counter of the window appears with its value, in order, and the text
  is ''none'' exactly when there is none.
\<close>

theorem window_drops_complete:
  assumes "\<forall>p \<in> set (drop_parts w). uint (snd p) < 10 ^ 19"
  shows "FormatWindowDrops 192 (drop_parts w) =
           (if has_drop w then listed (filter (\<lambda>p. snd p \<noteq> 0) (drop_parts w)) else ''none'')"
proof -
  have "foldl (AppendDropPart 192) [] (drop_parts w) = listed (filter (\<lambda>p. snd p \<noteq> 0) (drop_parts w))"
    by (rule append_parts) (use assms in \<open>simp_all add: drop_parts_def\<close>)
  moreover have "filter (\<lambda>p. snd p \<noteq> 0) (drop_parts w) = [] \<longleftrightarrow> \<not> has_drop w"
    by (simp add: drop_parts_def has_drop_def word_gt_0)
  ultimately show ?thesis by (simp add: FormatWindowDrops_def)
qed

section \<open>The windows account for the counters\<close>

fun health_run ::
  "env \<Rightarrow> KnobState \<Rightarrow> int \<Rightarrow> (CapturePipelineHealthInput \<times> RTCStatsReport option \<times> PushPipelineDropStats) list
     \<Rightarrow> HealthBaseline \<Rightarrow> HealthReport option list" where
  "health_run env ks i [] prev = []"
| "health_run env ks i ((cam, report, ds) # rest) prev =
     (let (r, nxt) = LogPushPipelineHealth env ks i cam report ds prev in r # health_run env ks i rest nxt)"

definition window_sum :: "(HealthWindow \<Rightarrow> u64) \<Rightarrow> HealthReport option list \<Rightarrow> int" where
  "window_sum sel rs = (\<Sum>r\<leftarrow>rs. case r of Some h \<Rightarrow> uint (sel (hr_window h)) | None \<Rightarrow> 0)"

lemma delta_from_exact: "prev \<le> now \<Longrightarrow> uint (delta_from now prev) = uint now - uint prev"
  by (simp add: delta_from_def uint_sub_lem word_le_def)

lemma health_step:
  assumes "0 < i" and "fst (ReadInt env ''RFLOW_PUSH_HEALTH_ONLY_ANOMALY'' ks) = 0" and "hb_initialized prev"
  shows "\<exists>h. LogPushPipelineHealth env ks i cam report ds prev
               = (Some h, health_baseline_next cam ds (ExtractOutboundVideoFields report)) \<and>
             hr_window h = health_window cam ds (ExtractOutboundVideoFields report) prev"
  using assms by (simp add: LogPushPipelineHealth_def Let_def)

text \<open>
  C39: Nothing is lost between two health lines. When every line is logged and the counters do not fall, each
  call reports, and the frames captured and dispatched in the windows add up to what the counters gained since
  the baseline, whatever the intervals are.
\<close>

theorem health_windows_account:
  assumes "0 < i" and "fst (ReadInt env ''RFLOW_PUSH_HEALTH_ONLY_ANOMALY'' ks) = 0" and "hb_initialized prev"
    and "sorted (hb_capture prev # map (ds_v4l2_capture_total \<circ> snd \<circ> snd) calls)"
    and "sorted (hb_dispatched prev # map (ds_dispatched_total \<circ> snd \<circ> snd) calls)"
  shows "let rs = health_run env ks i calls prev in
           None \<notin> set rs \<and> length rs = length calls \<and>
           window_sum hw_cap_delta rs =
             uint (last (hb_capture prev # map (ds_v4l2_capture_total \<circ> snd \<circ> snd) calls)) - uint (hb_capture prev) \<and>
           window_sum hw_disp_delta rs =
             uint (last (hb_dispatched prev # map (ds_dispatched_total \<circ> snd \<circ> snd) calls)) - uint (hb_dispatched prev)"
  using assms(3-5)
proof (induction calls arbitrary: prev)
  case Nil
  then show ?case by (simp add: window_sum_def)
next
  case (Cons c calls)
  obtain cam report ds where c: "c = (cam, report, ds)" by (cases c)
  let ?next = "health_baseline_next cam ds (ExtractOutboundVideoFields report)"
  obtain h where h: "LogPushPipelineHealth env ks i cam report ds prev = (Some h, ?next)"
    "hr_window h = health_window cam ds (ExtractOutboundVideoFields report) prev"
    using health_step [OF assms(1,2) Cons.prems(1)] by blast
  have w: "uint (hw_cap_delta (hr_window h)) = uint (ds_v4l2_capture_total ds) - uint (hb_capture prev)"
    "uint (hw_disp_delta (hr_window h)) = uint (ds_dispatched_total ds) - uint (hb_dispatched prev)"
    using Cons.prems by (simp_all add: h(2) health_window_def Let_def c delta_from_exact)
  have n: "hb_capture ?next = ds_v4l2_capture_total ds" "hb_dispatched ?next = ds_dispatched_total ds" "hb_initialized ?next"
    by (simp_all add: health_baseline_next_def)
  have IH: "let rs = health_run env ks i calls ?next in
           None \<notin> set rs \<and> length rs = length calls \<and>
           window_sum hw_cap_delta rs =
             uint (last (hb_capture ?next # map (ds_v4l2_capture_total \<circ> snd \<circ> snd) calls)) - uint (hb_capture ?next) \<and>
           window_sum hw_disp_delta rs =
             uint (last (hb_dispatched ?next # map (ds_dispatched_total \<circ> snd \<circ> snd) calls)) - uint (hb_dispatched ?next)"
    by (rule Cons.IH) (use Cons.prems in \<open>simp_all add: n c\<close>)
  have lasts: "last (hb_capture prev # map (ds_v4l2_capture_total \<circ> snd \<circ> snd) (c # calls)) =
      last (hb_capture ?next # map (ds_v4l2_capture_total \<circ> snd \<circ> snd) calls)"
    "last (hb_dispatched prev # map (ds_dispatched_total \<circ> snd \<circ> snd) (c # calls)) =
      last (hb_dispatched ?next # map (ds_dispatched_total \<circ> snd \<circ> snd) calls)"
    by (simp_all add: c n)
  have run: "health_run env ks i (c # calls) prev = Some h # health_run env ks i calls ?next" by (simp add: c h(1))
  show ?case unfolding lasts run using w IH by (simp add: Let_def n(1,2) window_sum_def)
qed

lemma anomaly_switch_spec:
  obtains s where "FindSpec ''RFLOW_PUSH_HEALTH_ONLY_ANOMALY'' = Some s" "ks_name s = ''RFLOW_PUSH_HEALTH_ONLY_ANOMALY''"
    "ks_default_int s = 0" "ks_alias s = None"
proof -
  have "map_option (\<lambda>s. (ks_name s, ks_default_int s, ks_alias s)) (FindSpec ''RFLOW_PUSH_HEALTH_ONLY_ANOMALY'')
          = Some (''RFLOW_PUSH_HEALTH_ONLY_ANOMALY'', 0, None)"
    by code_simp
  then show thesis using that by auto
qed

lemma anomaly_switch_unset: "fst (ReadInt (\<lambda>_. None) ''RFLOW_PUSH_HEALTH_ONLY_ANOMALY'' ks) = 0"
proof -
  obtain s where "FindSpec ''RFLOW_PUSH_HEALTH_ONLY_ANOMALY'' = Some s" "ks_name s = ''RFLOW_PUSH_HEALTH_ONLY_ANOMALY''"
    "ks_default_int s = 0" "ks_alias s = None" by (rule anomaly_switch_spec)
  then show ?thesis by (simp add: ReadInt_def ResolveEnv_def nonempty_env_def ParseLong_def Let_def)
qed

definition demo_camera_health :: CapturePipelineHealthInput where
  "demo_camera_health = \<lparr> hi_mjpeg_queue_depth = 0, hi_mjpeg_stale_drops = 0, hi_mjpeg_queue_full_drops = 0,
     hi_mjpeg_latest_only_drops = 0, hi_empty_payload_drops = 0, hi_convert_fail_drops = 0, hi_nv12_pool_busy = 0 \<rparr>"

theorem health_windows_account_witness:
  "let calls = [(demo_camera_health, None, drop_stats_init\<lparr>ds_v4l2_capture_total := 10, ds_dispatched_total := 9\<rparr>),
                (demo_camera_health, None, drop_stats_init\<lparr>ds_v4l2_capture_total := 25, ds_dispatched_total := 20\<rparr>)];
       rs = health_run (\<lambda>_. None) \<lparr>g_alias_warned = {}, knob_warnings = []\<rparr> 5 calls (health_baseline_init\<lparr>hb_initialized := True\<rparr>)
   in length rs = 2 \<and> None \<notin> set rs \<and> window_sum hw_cap_delta rs = 25 \<and> window_sum hw_disp_delta rs = 20"
  using health_windows_account [of 5 "\<lambda>_. None" "\<lparr>g_alias_warned = {}, knob_warnings = []\<rparr>" "health_baseline_init\<lparr>hb_initialized := True\<rparr>"
      "[(demo_camera_health, None, drop_stats_init\<lparr>ds_v4l2_capture_total := 10, ds_dispatched_total := 9\<rparr>),
        (demo_camera_health, None, drop_stats_init\<lparr>ds_v4l2_capture_total := 25, ds_dispatched_total := 20\<rparr>)]"]
    anomaly_switch_unset
  by (simp add: health_baseline_init_def Let_def del: health_run.simps)

section \<open>Two surprises\<close>

text \<open>The switch for anomalies only is declared as a boolean and read as a number, so a word does not set it.\<close>

theorem anomaly_switch_needs_number:
  assumes "env ''RFLOW_PUSH_HEALTH_ONLY_ANOMALY'' = Some ''true''"
  shows "fst (ReadInt env ''RFLOW_PUSH_HEALTH_ONLY_ANOMALY'' ks) = 0"
proof -
  obtain s where s: "FindSpec ''RFLOW_PUSH_HEALTH_ONLY_ANOMALY'' = Some s" "ks_name s = ''RFLOW_PUSH_HEALTH_ONLY_ANOMALY''"
    "ks_default_int s = 0" "ks_alias s = None" by (rule anomaly_switch_spec)
  have "strtol10 ''true'' = (0, ''true'')" by code_simp
  then show ?thesis
    using assms s by (simp add: ReadInt_def ResolveEnv_def nonempty_env_def ParseLong_def clamp_parsed_def Let_def split: prod.split)
qed

text \<open>
  When the reports switch to a connection that has encoded fewer frames (another subscriber became the first),
  every frame dispatched in the window is logged as dropped.
\<close>

theorem connection_switch_counts_as_drops:
  assumes "ucast (sf_frames_encoded (send_fields r)) < sd_prev_encoded st" and "sd_prev_dispatched st < ds_dispatched_total ds"
  shows "sd_webrtc_drop_total (snd (MaybeLogWebRtcSendDropStats (Some r) ds st))
           = sd_webrtc_drop_total st + (ds_dispatched_total ds - sd_prev_dispatched st)"
proof -
  have ne: "sd_prev_encoded st \<noteq> 0" using assms(1) by auto
  have e: "delta_from (ucast (sf_frames_encoded (send_fields r))) (sd_prev_encoded st) = 0"
    using assms(1) by (auto simp: delta_from_def)
  have d: "delta_from (ds_dispatched_total ds) (sd_prev_dispatched st) = ds_dispatched_total ds - sd_prev_dispatched st"
    using assms(2) by (auto simp: delta_from_def)
  have "ds_dispatched_total ds - sd_prev_dispatched st \<noteq> 0" using assms(2) by auto
  then show ?thesis
    unfolding MaybeLogWebRtcSendDropStats_def by (simp add: Let_def ne e d)
qed

end
