(* ===== verification/Camera_Capture.thy ===== *)
theory Camera_Capture
  imports Runtime_Knobs Pipeline_Health
begin

text \<open>
  The capture pipeline of \<^verbatim>\<open>src/service/impl/media/camera_video_track_source.cpp\<close>: the options, the queue
  of compressed frames between the capture thread and the decoder thread, the buffers that travel between the
  kernel, the two threads and the queue, and the pool of decoded frames.

  The kernel is a parameter: which buffer \<^verbatim>\<open>VIDIOC_DQBUF\<close> hands out and whether \<^verbatim>\<open>VIDIOC_QBUF\<close> succeeds are
  arguments, and the buffers the kernel owns are a list of the state. The capture thread is one step from
  the dequeue to the end of its critical section and one step for the buffers it returns afterwards; the
  decoder thread is one step for its critical section and one for the rest.
\<close>

section \<open>Options\<close>

record V4l2MjpegPipelineOptions =
  po_mjpeg_queue_latest_only :: bool
  po_mjpeg_queue_max :: int
  po_nv12_pool_slots :: int
  po_v4l2_buffer_count :: int
  po_v4l2_poll_timeout_ms :: int
  po_mjpeg_decode_inline :: bool
  po_mjpeg_v4l2_ext_dma :: bool
  po_mjpeg_rga_to_mpp :: bool

definition default_pipeline_options :: V4l2MjpegPipelineOptions where
  "default_pipeline_options = \<lparr> po_mjpeg_queue_latest_only = False, po_mjpeg_queue_max = 8, po_nv12_pool_slots = 6,
     po_v4l2_buffer_count = 2, po_v4l2_poll_timeout_ms = 50, po_mjpeg_decode_inline = False,
     po_mjpeg_v4l2_ext_dma = True, po_mjpeg_rga_to_mpp = False \<rparr>"

record CaptureOptions =
  co_mjpeg_queue_latest_only :: bool
  co_mjpeg_queue_max :: nat
  co_nv12_pool_slots :: int
  co_v4l2_buffer_count :: int
  co_v4l2_poll_timeout_ms :: int
  co_mjpeg_decode_inline :: bool
  co_v4l2_ext_dma_config :: bool
  co_mjpeg_rga_config :: bool

definition clamp_between :: "int \<Rightarrow> int \<Rightarrow> int \<Rightarrow> int" where
  "clamp_between lo hi v = (let v1 = (if v < lo then lo else v) in if v1 > hi then hi else v1)"

definition inline_override :: "env \<Rightarrow> bool \<Rightarrow> bool" where
  "inline_override env b =
     (case env ''RFLOW_MJPEG_DECODE_INLINE'' of
        Some (c # _) \<Rightarrow>
          let b1 = (if c \<in> set ''1yYtT'' then True else b) in if c \<in> set ''0nNfF'' then False else b1
      | _ \<Rightarrow> b)"

definition ApplyMjpegPipelineOptions :: "env \<Rightarrow> V4l2MjpegPipelineOptions option \<Rightarrow> CaptureOptions" where
  "ApplyMjpegPipelineOptions env p =
     (let opts = (case p of Some x \<Rightarrow> x | None \<Rightarrow> default_pipeline_options);
          nbuf = clamp_between 2 32 (po_v4l2_buffer_count opts);
          qmax = nat (clamp_between 1 32 (po_mjpeg_queue_max opts));
          qcap = nat (max 1 (nbuf - 1))
      in \<lparr> co_mjpeg_queue_latest_only = po_mjpeg_queue_latest_only opts,
           co_mjpeg_queue_max = (if qmax > qcap then qcap else qmax),
           co_nv12_pool_slots = clamp_between 4 16 (po_nv12_pool_slots opts),
           co_v4l2_buffer_count = nbuf,
           co_v4l2_poll_timeout_ms = clamp_between 1 2000 (po_v4l2_poll_timeout_ms opts),
           co_mjpeg_decode_inline = inline_override env (po_mjpeg_decode_inline opts),
           co_v4l2_ext_dma_config = po_mjpeg_v4l2_ext_dma opts, co_mjpeg_rga_config = po_mjpeg_rga_to_mpp opts \<rparr>)"

text \<open>The zero-copy policy (\<^verbatim>\<open>zero_copy_pipeline_policy.cpp\<close>); \<open>have_rga\<close> is the build option.\<close>

record MjpegZeroCopyPolicy =
  zc_prefer_native_zero_copy_to_enc :: bool
  zc_use_v4l2_ext_dmabuf :: bool
  zc_use_rga_to_mpp :: bool

definition ResolveBoolEnv :: "env \<Rightarrow> string \<Rightarrow> bool \<Rightarrow> bool" where
  "ResolveBoolEnv env name default_value = (case env name of Some (c # _) \<Rightarrow> c \<noteq> CHR ''0'' | _ \<Rightarrow> default_value)"

definition EvaluateMjpegZeroCopyPolicy :: "env \<Rightarrow> bool \<Rightarrow> bool \<Rightarrow> bool \<Rightarrow> MjpegZeroCopyPolicy" where
  "EvaluateMjpegZeroCopyPolicy env have_rga ext_dma_default rga_default =
     \<lparr> zc_prefer_native_zero_copy_to_enc = ResolveBoolEnv env ''RFLOW_MJPEG_ZERO_COPY_TO_ENC'' True,
       zc_use_v4l2_ext_dmabuf = ResolveBoolEnv env ''RFLOW_MJPEG_V4L2_EXT_DMA'' ext_dma_default,
       zc_use_rga_to_mpp = (have_rga \<and> rga_default) \<rparr>"

section \<open>The pool of decoded frames\<close>

text \<open>
  One flag per slot of the pool; \<open>np_generation\<close> counts how often the pool was built and is not part of the code.
  A lease is the slot and the generation it was taken from; the release of a lease only knows the slot.
\<close>

record Nv12Pool =
  np_slot_in_use :: "bool list"
  np_w :: int
  np_h :: int
  np_ring_next :: nat
  np_busy_count :: u64
  np_generation :: nat

definition nv12_pool_init :: Nv12Pool where
  "nv12_pool_init = \<lparr> np_slot_in_use = [], np_w = 0, np_h = 0, np_ring_next = 0, np_busy_count = 0, np_generation = 0 \<rparr>"

definition EnsureNv12Pool :: "bool \<Rightarrow> int \<Rightarrow> int \<Rightarrow> int \<Rightarrow> Nv12Pool \<Rightarrow> Nv12Pool" where
  "EnsureNv12Pool alloc slots w h p =
     (if w \<le> 0 \<or> h \<le> 0 \<or> slots < 4 then p
      else if length (np_slot_in_use p) = nat slots \<and> np_w p = w \<and> np_h p = h then p
      else if \<not> alloc then p\<lparr>np_slot_in_use := [], np_w := 0, np_h := 0\<rparr>
      else p\<lparr>np_slot_in_use := replicate (nat slots) False, np_w := w, np_h := h, np_ring_next := 0,
             np_generation := np_generation p + 1\<rparr>)"

definition ReleaseNv12PoolSlot :: "nat \<Rightarrow> Nv12Pool \<Rightarrow> Nv12Pool" where
  "ReleaseNv12PoolSlot i p =
     (if i < length (np_slot_in_use p) then p\<lparr>np_slot_in_use := (np_slot_in_use p)[i := False]\<rparr> else p)"

definition free_slot :: "Nv12Pool \<Rightarrow> nat option" where
  "free_slot p =
     (let n = length (np_slot_in_use p)
      in find (\<lambda>i. \<not> np_slot_in_use p ! i) (map (\<lambda>tried. (np_ring_next p + tried) mod n) [0..<n]))"

definition AcquireNv12PoolBuffer :: "bool \<Rightarrow> int \<Rightarrow> int \<Rightarrow> int \<Rightarrow> Nv12Pool \<Rightarrow> nat option \<times> Nv12Pool" where
  "AcquireNv12PoolBuffer alloc slots w h p0 =
     (let p = EnsureNv12Pool alloc slots w h p0
      in if np_slot_in_use p = [] then (None, p)
         else case free_slot p of
             Some i \<Rightarrow> (Some i, p\<lparr>np_slot_in_use := (np_slot_in_use p)[i := True], np_ring_next := i + 1\<rparr>)
           | None \<Rightarrow> (None, p\<lparr>np_busy_count := np_busy_count p + 1\<rparr>))"

section \<open>State\<close>

text \<open>
  A pending frame. \<open>pb_seq\<close> is its position in the order of capture; the code does not store it.
\<close>

record MjpegPendingBuf =
  pb_index :: nat
  pb_bytesused :: nat
  pb_dq_time_us :: int
  pb_v4l2_timestamp_us :: int
  pb_poll_wait_us :: int
  pb_dqbuf_ioctl_us :: int
  pb_enqueue_time_us :: int
  pb_seq :: nat

datatype pixel_format = PIX_MJPEG | PIX_YUYV | PIX_OTHER nat

text \<open>
  \<open>cv_driver\<close>, \<open>cv_returning\<close>, \<open>cv_job\<close> and \<open>cv_leaked\<close> say who holds a buffer besides the queue: the kernel,
  the capture thread after its critical section, the decoder thread, and nobody after a failed \<^verbatim>\<open>QBUF\<close>.
  \<open>cv_delivered\<close> lists the frames handed on, by position, and \<open>cv_skipped\<close> counts the frames discarded by a stop.
  \<open>cv_leases\<close> are the slots of the pool that frames handed on still use.
\<close>

record CaptureState =
  cv_opts :: CaptureOptions
  cv_pixfmt :: pixel_format
  cv_requested_fps :: int
  cv_run :: bool
  cv_decode_worker_exit :: bool
  cv_queue :: "MjpegPendingBuf list"
  cv_driver :: "nat list"
  cv_returning :: "nat list"
  cv_job :: "(MjpegPendingBuf \<times> bool) option"
  cv_leaked :: "nat list"
  cv_delivered :: "nat list"
  cv_skipped :: nat
  cv_pool :: Nv12Pool
  cv_leases :: "nat list"
  cv_has_mpp :: bool
  cv_cap_w :: int
  cv_cap_h :: int
  cv_captured_frames :: u32
  cv_drop_stats :: PushPipelineDropStats
  cv_next_seq :: nat
  cv_v4l2_capture_count :: u64
  cv_empty_capture_drop_count :: u64
  cv_mjpeg_stale_drop_count :: u64
  cv_mjpeg_queue_full_drop_count :: u64
  cv_mjpeg_latest_only_drop_count :: u64
  cv_convert_fail_drop_count :: u64

text \<open>The state when both threads start: the kernel owns every buffer.\<close>

definition capture_begin :: "CaptureOptions \<Rightarrow> pixel_format \<Rightarrow> bool \<Rightarrow> int \<Rightarrow> int \<Rightarrow> int \<Rightarrow> nat \<Rightarrow> CaptureState" where
  "capture_begin opts pf mpp w h fps nbuf =
     \<lparr> cv_opts = opts, cv_pixfmt = pf, cv_requested_fps = fps, cv_run = True, cv_decode_worker_exit = False,
       cv_queue = [], cv_driver = [0..<nbuf], cv_returning = [], cv_job = None, cv_leaked = [], cv_delivered = [],
       cv_skipped = 0, cv_pool = nv12_pool_init, cv_leases = [], cv_has_mpp = mpp, cv_cap_w = w, cv_cap_h = h,
       cv_captured_frames = 0, cv_drop_stats = drop_stats_init,
       cv_next_seq = 0, cv_v4l2_capture_count = 0, cv_empty_capture_drop_count = 0, cv_mjpeg_stale_drop_count = 0,
       cv_mjpeg_queue_full_drop_count = 0, cv_mjpeg_latest_only_drop_count = 0, cv_convert_fail_drop_count = 0 \<rparr>"

definition QBufV4l2Index :: "bool \<Rightarrow> nat \<Rightarrow> CaptureState \<Rightarrow> CaptureState" where
  "QBufV4l2Index ok i s = (if ok then s\<lparr>cv_driver := cv_driver s @ [i]\<rparr> else s\<lparr>cv_leaked := cv_leaked s @ [i]\<rparr>)"

definition DecodeQueueStaleDropBudgetUs :: "env \<Rightarrow> int \<Rightarrow> int" where
  "DecodeQueueStaleDropBudgetUs env requested_fps = MjpegDecodeQueueMaxWaitMsForFps env requested_fps * 1000"

section \<open>Decoding a frame\<close>

text \<open>What the decoders answer for one frame: the native path, the pool's allocation, and the three other conversions.\<close>

record process_answers =
  pr_native :: bool
  pr_pool_alloc :: bool
  pr_pool_decode :: bool
  pr_alloc_decode :: bool
  pr_convert :: bool

text \<open>\<^verbatim>\<open>CameraVideoTrackSource::OnFrame\<close> up to the adaptation: the counters.\<close>

definition camera_OnFrame :: "nat \<Rightarrow> CaptureState \<Rightarrow> CaptureState" where
  "camera_OnFrame n s =
     s\<lparr>cv_captured_frames := cv_captured_frames s + 1, cv_drop_stats := OnFrameDispatched 1 (cv_drop_stats s),
       cv_delivered := cv_delivered s @ [n]\<rparr>"

definition convert_to_i420 :: "process_answers \<Rightarrow> nat \<Rightarrow> CaptureState \<Rightarrow> CaptureState" where
  "convert_to_i420 a n s =
     (if pr_convert a then camera_OnFrame n s
      else s\<lparr>cv_convert_fail_drop_count := cv_convert_fail_drop_count s + 1\<rparr>)"

definition decode_to_nv12 :: "process_answers \<Rightarrow> nat \<Rightarrow> CaptureState \<Rightarrow> CaptureState" where
  "decode_to_nv12 a n s =
     (let (slot, pool) = AcquireNv12PoolBuffer (pr_pool_alloc a) (co_nv12_pool_slots (cv_opts s)) (cv_cap_w s) (cv_cap_h s) (cv_pool s);
          otherwise = (\<lambda>s. if pr_alloc_decode a then camera_OnFrame n s else convert_to_i420 a n s)
      in case slot of
           None \<Rightarrow> otherwise (s\<lparr>cv_pool := pool\<rparr>)
         | Some i \<Rightarrow>
             if pr_pool_decode a then camera_OnFrame n (s\<lparr>cv_pool := pool, cv_leases := cv_leases s @ [i]\<rparr>)
             else otherwise (s\<lparr>cv_pool := ReleaseNv12PoolSlot i pool\<rparr>))"

definition ProcessV4l2CapturedFrame :: "env \<Rightarrow> process_answers \<Rightarrow> nat \<Rightarrow> nat \<Rightarrow> CaptureState \<Rightarrow> CaptureState" where
  "ProcessV4l2CapturedFrame env a bytesused n s =
     (if bytesused = 0 then s\<lparr>cv_skipped := cv_skipped s + 1\<rparr>
      else if cv_has_mpp s \<and> cv_pixfmt s = PIX_MJPEG
      then (if ResolveBoolEnv env ''RFLOW_MJPEG_ZERO_COPY_TO_ENC'' True \<and> pr_native a then camera_OnFrame n s
            else decode_to_nv12 a n s)
      else convert_to_i420 a n s)"

section \<open>The capture thread\<close>

text \<open>The frames at the front that waited longer than the budget, and the rest.\<close>

definition split_stale :: "int \<Rightarrow> int \<Rightarrow> MjpegPendingBuf list \<Rightarrow> MjpegPendingBuf list \<times> MjpegPendingBuf list" where
  "split_stale budget now q =
     (if budget > 0 then (takeWhile (\<lambda>b. \<not> now - pb_enqueue_time_us b \<le> budget) q,
                          dropWhile (\<lambda>b. \<not> now - pb_enqueue_time_us b \<le> budget) q)
      else ([], q))"

fun drop_full :: "nat \<Rightarrow> MjpegPendingBuf list \<Rightarrow> MjpegPendingBuf list \<times> MjpegPendingBuf list" where
  "drop_full m [] = ([], [])"
| "drop_full m (b # q) = (if length (b # q) \<ge> m then map_prod ((#) b) id (drop_full m q) else ([], b # q))"

text \<open>
  The critical section: the dropped frames, the queue without the new frame, and the three counts. With
  \<^verbatim>\<open>mjpeg_queue_latest_only\<close> the code swaps the list of dropped frames, which already holds the stale ones, with
  the queue.
\<close>

definition make_room ::
  "bool \<Rightarrow> nat \<Rightarrow> int \<Rightarrow> int \<Rightarrow> MjpegPendingBuf list
     \<Rightarrow> MjpegPendingBuf list \<times> MjpegPendingBuf list \<times> nat \<times> nat \<times> nat" where
  "make_room latest_only queue_max budget now q =
     (let (stale, rest) = split_stale budget now q
      in if latest_only then (rest, stale, length stale, 0, length rest)
         else let (over, kept) = drop_full queue_max rest in (stale @ over, kept, length stale, length over, 0))"

record dq_answer =
  dq_index :: nat
  dq_bytesused :: nat
  dq_mapped :: bool
  dq_time_us :: int
  dq_v4l2_timestamp_us :: int
  dq_poll_wait_us :: int
  dq_ioctl_us :: int
  dq_lock_time_us :: int
  dq_push_time_us :: int
  dq_requeued :: bool
  dq_process :: process_answers

definition count_captured :: "CaptureState \<Rightarrow> CaptureState" where
  "count_captured s = s\<lparr>cv_v4l2_capture_count := cv_v4l2_capture_count s + 1, cv_next_seq := cv_next_seq s + 1,
     cv_drop_stats := OnV4l2FrameCaptured 1 (cv_drop_stats s)\<rparr>"

definition enqueue_frame :: "env \<Rightarrow> dq_answer \<Rightarrow> CaptureState \<Rightarrow> CaptureState" where
  "enqueue_frame env a s =
     (let (dropped, kept, stale_n, full_n, latest_n) =
            make_room (co_mjpeg_queue_latest_only (cv_opts s)) (co_mjpeg_queue_max (cv_opts s))
              (DecodeQueueStaleDropBudgetUs env (cv_requested_fps s)) (dq_lock_time_us a) (cv_queue s);
          b = \<lparr> pb_index = dq_index a, pb_bytesused = dq_bytesused a, pb_dq_time_us = dq_time_us a,
                pb_v4l2_timestamp_us = dq_v4l2_timestamp_us a, pb_poll_wait_us = dq_poll_wait_us a,
                pb_dqbuf_ioctl_us = dq_ioctl_us a, pb_enqueue_time_us = dq_push_time_us a, pb_seq = cv_next_seq s - 1 \<rparr>
      in s\<lparr>cv_queue := kept @ [b], cv_returning := cv_returning s @ map pb_index dropped,
           cv_mjpeg_stale_drop_count := cv_mjpeg_stale_drop_count s + of_nat stale_n,
           cv_mjpeg_queue_full_drop_count := cv_mjpeg_queue_full_drop_count s + of_nat full_n,
           cv_mjpeg_latest_only_drop_count := cv_mjpeg_latest_only_drop_count s + of_nat latest_n\<rparr>)"

text \<open>
  One successful round of \<^verbatim>\<open>DirectCaptureThreadMain\<close>. The buffer of a frame decoded in this thread goes straight back.
\<close>

definition process_here :: "env \<Rightarrow> dq_answer \<Rightarrow> CaptureState \<Rightarrow> CaptureState" where
  "process_here env a s =
     QBufV4l2Index (dq_requeued a) (dq_index a) (ProcessV4l2CapturedFrame env (dq_process a) (dq_bytesused a) (cv_next_seq s - 1) s)"

definition DirectCaptureThreadMain_round :: "env \<Rightarrow> dq_answer \<Rightarrow> CaptureState \<Rightarrow> CaptureState" where
  "DirectCaptureThreadMain_round env a s0 =
     (let s = s0\<lparr>cv_driver := remove1 (dq_index a) (cv_driver s0)\<rparr>
      in if \<not> dq_mapped a then QBufV4l2Index (dq_requeued a) (dq_index a) s
         else if cv_pixfmt s = PIX_MJPEG then
           (if dq_bytesused a = 0
            then QBufV4l2Index (dq_requeued a) (dq_index a)
                   ((count_captured s)\<lparr>cv_empty_capture_drop_count := cv_empty_capture_drop_count s + 1\<rparr>)
            else if co_mjpeg_decode_inline (cv_opts s) then process_here env a (count_captured s)
            else enqueue_frame env a (count_captured s))
         else process_here env a (count_captured s))"

text \<open>The buffers of the dropped frames go back to the kernel after the lock is released.\<close>

definition return_dropped :: "bool \<Rightarrow> CaptureState \<Rightarrow> CaptureState" where
  "return_dropped ok s =
     (case cv_returning s of [] \<Rightarrow> s | i # rest \<Rightarrow> QBufV4l2Index ok i (s\<lparr>cv_returning := rest\<rparr>))"

section \<open>The decoder thread\<close>

definition DecodeWorker_take :: "CaptureState \<Rightarrow> CaptureState" where
  "DecodeWorker_take s =
     (case cv_queue s of [] \<Rightarrow> s | b # q \<Rightarrow> s\<lparr>cv_queue := q, cv_job := Some (b, cv_decode_worker_exit s)\<rparr>)"

definition DecodeWorker_finish :: "env \<Rightarrow> process_answers \<Rightarrow> bool \<Rightarrow> CaptureState \<Rightarrow> CaptureState" where
  "DecodeWorker_finish env a ok s =
     (case cv_job s of None \<Rightarrow> s
      | Some (b, skip) \<Rightarrow>
          QBufV4l2Index ok (pb_index b)
            (let s1 = s\<lparr>cv_job := None\<rparr>
             in if skip then s1\<lparr>cv_skipped := cv_skipped s1 + 1\<rparr>
                else ProcessV4l2CapturedFrame env a (pb_bytesused b) (pb_seq b) s1))"

section \<open>Stopping\<close>

text \<open>\<^verbatim>\<open>StopDirectV4l2\<close>: the capture thread is told to end and joined, then the decoder thread, then the queue is emptied.\<close>

definition stop_capture :: "CaptureState \<Rightarrow> CaptureState" where
  "stop_capture s = s\<lparr>cv_run := False\<rparr>"

definition stop_worker :: "CaptureState \<Rightarrow> CaptureState" where
  "stop_worker s = s\<lparr>cv_decode_worker_exit := True\<rparr>"

definition return_leftover :: "bool \<Rightarrow> CaptureState \<Rightarrow> CaptureState" where
  "return_leftover ok s = fold (\<lambda>b. QBufV4l2Index ok (pb_index b)) (cv_queue s)
     (s\<lparr>cv_queue := [], cv_skipped := cv_skipped s + length (cv_queue s)\<rparr>)"

text \<open>
  The steps. A thread makes the next step of its own only when its last one is complete; the capture thread ends
  when \<open>cv_run\<close> is false and the decoder thread when the queue is empty and its exit flag is set.
\<close>

inductive capture_step :: "env \<Rightarrow> CaptureState \<Rightarrow> CaptureState \<Rightarrow> bool" for env :: env where
  capture: "cv_run s \<Longrightarrow> cv_returning s = [] \<Longrightarrow> dq_index a \<in> set (cv_driver s) \<Longrightarrow>
     capture_step env s (DirectCaptureThreadMain_round env a s)"
| give_back: "cv_returning s \<noteq> [] \<Longrightarrow> capture_step env s (return_dropped ok s)"
| take_job: "cv_job s = None \<Longrightarrow> cv_queue s \<noteq> [] \<Longrightarrow> capture_step env s (DecodeWorker_take s)"
| finish_job: "cv_job s \<noteq> None \<Longrightarrow> capture_step env s (DecodeWorker_finish env a ok s)"
| release_frame: "i \<in> set (cv_leases s) \<Longrightarrow>
     capture_step env s (s\<lparr>cv_pool := ReleaseNv12PoolSlot i (cv_pool s), cv_leases := remove1 i (cv_leases s)\<rparr>)"
| stop: "capture_step env s (stop_capture s)"
| exit_worker: "\<not> cv_run s \<Longrightarrow> cv_returning s = [] \<Longrightarrow> capture_step env s (stop_worker s)"
| leftover: "\<not> cv_run s \<Longrightarrow> cv_decode_worker_exit s \<Longrightarrow> cv_job s = None \<Longrightarrow> capture_step env s (return_leftover ok s)"

inductive capture_reachable :: "env \<Rightarrow> CaptureState \<Rightarrow> CaptureState \<Rightarrow> bool" for env :: env and s0 :: CaptureState where
  begin_capture: "capture_reachable env s0 s0"
| next_capture: "capture_reachable env s0 s \<Longrightarrow> capture_step env s s' \<Longrightarrow> capture_reachable env s0 s'"

section \<open>Making room in the queue\<close>

lemma split_stale_append: "fst (split_stale budget now q) @ snd (split_stale budget now q) = q"
  by (simp add: split_stale_def)

lemma drop_full_append: "fst (drop_full m q) @ snd (drop_full m q) = q"
  by (induction m q rule: drop_full.induct) auto

lemma drop_full_short: "0 < m \<Longrightarrow> length (snd (drop_full m q)) < m"
  by (induction m q rule: drop_full.induct) auto

text \<open>Every frame is either kept, in its order, or dropped.\<close>

lemma make_room_parts:
  assumes "make_room latest queue_max budget now q = (dropped, kept, stale_n, full_n, latest_n)"
  shows "mset dropped + mset kept = mset q" and "subseq kept q"
    and "\<not> latest \<Longrightarrow> stale_n + full_n + latest_n = length dropped"
    and "\<not> latest \<Longrightarrow> 0 < queue_max \<Longrightarrow> length kept < queue_max"
proof -
  obtain stale rest where s: "split_stale budget now q = (stale, rest)" by (cases "split_stale budget now q")
  obtain over kept' where d: "drop_full queue_max rest = (over, kept')" by (cases "drop_full queue_max rest")
  have q: "q = stale @ rest" using split_stale_append [of budget now q] by (simp add: s)
  have r: "rest = over @ kept'" using drop_full_append [of queue_max rest] by (simp add: d)
  have c: "if latest then dropped = rest \<and> kept = stale
           else dropped = stale @ over \<and> kept = kept' \<and> stale_n = length stale \<and> full_n = length over \<and> latest_n = 0"
    using assms by (auto simp: make_room_def s d split: if_splits)
  show "mset dropped + mset kept = mset q" using c q r by (auto split: if_splits)
  have "subseq stale (stale @ rest)" "subseq kept' (stale @ over @ kept')"
    by (auto intro: prefix_imp_subseq suffix_imp_subseq simp: suffix_def)
  then show "subseq kept q" using c q r by (auto split: if_splits)
  show "\<not> latest \<Longrightarrow> stale_n + full_n + latest_n = length dropped" using c by auto
  show "\<not> latest \<Longrightarrow> 0 < queue_max \<Longrightarrow> length kept < queue_max"
    using c drop_full_short [of queue_max rest] d by auto
qed

section \<open>What decoding leaves alone\<close>

lemma camera_OnFrame_simps [simp]:
  "cv_driver (camera_OnFrame n s) = cv_driver s" "cv_queue (camera_OnFrame n s) = cv_queue s"
  "cv_returning (camera_OnFrame n s) = cv_returning s" "cv_job (camera_OnFrame n s) = cv_job s"
  "cv_leaked (camera_OnFrame n s) = cv_leaked s" "cv_opts (camera_OnFrame n s) = cv_opts s"
  "cv_pixfmt (camera_OnFrame n s) = cv_pixfmt s" "cv_next_seq (camera_OnFrame n s) = cv_next_seq s"
  "cv_v4l2_capture_count (camera_OnFrame n s) = cv_v4l2_capture_count s"
  by (simp_all add: camera_OnFrame_def)

lemma process_keeps [simp]:
  "cv_driver (ProcessV4l2CapturedFrame env a k n s) = cv_driver s" "cv_queue (ProcessV4l2CapturedFrame env a k n s) = cv_queue s"
  "cv_returning (ProcessV4l2CapturedFrame env a k n s) = cv_returning s" "cv_job (ProcessV4l2CapturedFrame env a k n s) = cv_job s"
  "cv_leaked (ProcessV4l2CapturedFrame env a k n s) = cv_leaked s" "cv_opts (ProcessV4l2CapturedFrame env a k n s) = cv_opts s"
  "cv_pixfmt (ProcessV4l2CapturedFrame env a k n s) = cv_pixfmt s" "cv_next_seq (ProcessV4l2CapturedFrame env a k n s) = cv_next_seq s"
  "cv_v4l2_capture_count (ProcessV4l2CapturedFrame env a k n s) = cv_v4l2_capture_count s"
  by (simp_all add: ProcessV4l2CapturedFrame_def decode_to_nv12_def convert_to_i420_def Let_def split: option.split prod.split)

text \<open>A frame that is decoded is delivered, counted as a failure, or has no content.\<close>

definition frame_outcomes :: "CaptureState \<Rightarrow> u64" where
  "frame_outcomes s = of_nat (length (cv_delivered s)) + cv_convert_fail_drop_count s + of_nat (cv_skipped s)
     + cv_empty_capture_drop_count s + cv_mjpeg_stale_drop_count s + cv_mjpeg_queue_full_drop_count s
     + cv_mjpeg_latest_only_drop_count s"

lemma process_counts: "frame_outcomes (ProcessV4l2CapturedFrame env a k n s) = frame_outcomes s + 1"
  by (simp add: frame_outcomes_def ProcessV4l2CapturedFrame_def decode_to_nv12_def convert_to_i420_def camera_OnFrame_def Let_def
      split: option.split prod.split)

lemma process_delivers:
  "cv_delivered (ProcessV4l2CapturedFrame env a k n s) = cv_delivered s \<or>
   cv_delivered (ProcessV4l2CapturedFrame env a k n s) = cv_delivered s @ [n]"
  by (simp add: ProcessV4l2CapturedFrame_def decode_to_nv12_def convert_to_i420_def camera_OnFrame_def Let_def
      split: option.split prod.split)

lemma QBuf_simps [simp]:
  "cv_queue (QBufV4l2Index ok i s) = cv_queue s" "cv_returning (QBufV4l2Index ok i s) = cv_returning s"
  "cv_job (QBufV4l2Index ok i s) = cv_job s" "cv_opts (QBufV4l2Index ok i s) = cv_opts s"
  "cv_pixfmt (QBufV4l2Index ok i s) = cv_pixfmt s" "cv_next_seq (QBufV4l2Index ok i s) = cv_next_seq s"
  "cv_delivered (QBufV4l2Index ok i s) = cv_delivered s" "frame_outcomes (QBufV4l2Index ok i s) = frame_outcomes s"
  "cv_v4l2_capture_count (QBufV4l2Index ok i s) = cv_v4l2_capture_count s"
  by (simp_all add: QBufV4l2Index_def frame_outcomes_def)

lemma count_captured_simps [simp]:
  "cv_driver (count_captured s) = cv_driver s" "cv_queue (count_captured s) = cv_queue s"
  "cv_returning (count_captured s) = cv_returning s" "cv_job (count_captured s) = cv_job s"
  "cv_leaked (count_captured s) = cv_leaked s" "cv_opts (count_captured s) = cv_opts s"
  "cv_pixfmt (count_captured s) = cv_pixfmt s" "cv_delivered (count_captured s) = cv_delivered s"
  "cv_next_seq (count_captured s) = cv_next_seq s + 1" "frame_outcomes (count_captured s) = frame_outcomes s"
  "cv_v4l2_capture_count (count_captured s) = cv_v4l2_capture_count s + 1"
  by (simp_all add: count_captured_def frame_outcomes_def)

section \<open>Every buffer has one holder\<close>

definition job_list :: "CaptureState \<Rightarrow> MjpegPendingBuf list" where
  "job_list s = (case cv_job s of None \<Rightarrow> [] | Some (b, _) \<Rightarrow> [b])"

definition holders :: "CaptureState \<Rightarrow> nat multiset" where
  "holders s = mset (cv_driver s) + mset (cv_returning s) + image_mset pb_index (mset (job_list s @ cv_queue s)) + mset (cv_leaked s)"

lemma holders_QBuf: "holders (QBufV4l2Index ok i s) = add_mset i (holders s)"
  by (simp add: holders_def QBufV4l2Index_def job_list_def)

lemma holders_process [simp]: "holders (ProcessV4l2CapturedFrame env a k n s) = holders s"
  by (simp add: holders_def job_list_def)

lemma holders_count [simp]: "holders (count_captured s) = holders s"
  by (simp add: holders_def job_list_def)

lemma holders_enqueue: "holders (enqueue_frame env a s) = add_mset (dq_index a) (holders s)"
proof -
  obtain dropped kept sn fn ln where m:
    "make_room (co_mjpeg_queue_latest_only (cv_opts s)) (co_mjpeg_queue_max (cv_opts s))
       (DecodeQueueStaleDropBudgetUs env (cv_requested_fps s)) (dq_lock_time_us a) (cv_queue s) = (dropped, kept, sn, fn, ln)"
    by (metis prod_cases5)
  have "image_mset pb_index (mset dropped) + image_mset pb_index (mset kept) = image_mset pb_index (mset (cv_queue s))"
    using make_room_parts(1) [OF m] by (metis image_mset_union)
  then show ?thesis
    by (simp add: enqueue_frame_def m holders_def job_list_def ac_simps flip: mset_map)
qed

lemma holders_round:
  assumes "dq_index a \<in> set (cv_driver s)"
  shows "holders (DirectCaptureThreadMain_round env a s) = holders s"
proof -
  let ?s = "s\<lparr>cv_driver := remove1 (dq_index a) (cv_driver s)\<rparr>"
  have h: "add_mset (dq_index a) (holders ?s) = holders s"
  proof -
    have "add_mset (dq_index a) (mset (remove1 (dq_index a) (cv_driver s))) = mset (cv_driver s)" using assms by simp
    then show ?thesis by (simp add: holders_def job_list_def flip: add_mset_add_single)
  qed
  have e: "holders (t\<lparr>cv_empty_capture_drop_count := x\<rparr>) = holders t" for t x by (simp add: holders_def job_list_def)
  show ?thesis
    using h by (simp add: DirectCaptureThreadMain_round_def process_here_def holders_QBuf holders_enqueue e Let_def)
qed

lemma holders_fold: "holders (fold (\<lambda>b. QBufV4l2Index ok (pb_index b)) q s) = image_mset pb_index (mset q) + holders s"
  by (induction q arbitrary: s) (simp_all add: holders_QBuf)

lemma holders_step:
  assumes "capture_step env s s'"
  shows "holders s' = holders s"
  using assms
proof cases
  case (capture a)
  then show ?thesis by (simp add: holders_round)
next
  case (give_back ok)
  then obtain i rest where r: "cv_returning s = i # rest" by (cases "cv_returning s") auto
  have "holders s = add_mset i (holders (s\<lparr>cv_returning := rest\<rparr>))" by (simp add: holders_def job_list_def r)
  then show ?thesis using give_back by (simp add: return_dropped_def r holders_QBuf)
next
  case take_job
  then show ?thesis by (cases "cv_queue s") (simp_all add: DecodeWorker_take_def holders_def job_list_def)
next
  case (finish_job a ok)
  then obtain b skip where j: "cv_job s = Some (b, skip)" by auto
  have "holders s = add_mset (pb_index b) (holders (s\<lparr>cv_job := None\<rparr>))"
    "holders (t\<lparr>cv_skipped := x\<rparr>) = holders t" for t x by (simp_all add: holders_def job_list_def j)
  then show ?thesis using finish_job by (simp add: DecodeWorker_finish_def j holders_QBuf Let_def)
next
  case (release_frame i)
  then show ?thesis by (simp add: holders_def job_list_def)
next
  case stop
  then show ?thesis by (simp add: stop_capture_def holders_def job_list_def)
next
  case exit_worker
  then show ?thesis by (simp add: stop_worker_def holders_def job_list_def)
next
  case (leftover ok)
  then show ?thesis by (simp add: return_leftover_def holders_fold) (simp add: holders_def job_list_def)
qed

text \<open>
  C31: No buffer of the camera is lost or used twice. In every state the two threads can reach, each buffer has
  exactly one holder: the kernel, the queue, the decoder thread, the capture thread on its way back to the kernel,
  or nobody after the kernel refused it; so nobody decodes a buffer that the camera is writing.
\<close>

theorem capture_buffers_conserved:
  assumes "capture_reachable env (capture_begin opts pf mpp w h fps nbuf) s"
  shows "holders s = mset [0..<nbuf]"
  using assms
proof induction
  case begin_capture
  show ?case by (simp add: capture_begin_def holders_def job_list_def)
next
  case (next_capture s s')
  then show ?case by (simp add: holders_step)
qed

section \<open>Order and accounting of the frames\<close>

definition decodes_here :: "CaptureState \<Rightarrow> bool" where
  "decodes_here s \<longleftrightarrow> cv_pixfmt s \<noteq> PIX_MJPEG \<or> co_mjpeg_decode_inline (cv_opts s)"

definition in_flight :: "CaptureState \<Rightarrow> nat list" where
  "in_flight s = map pb_seq (job_list s @ cv_queue s)"

definition frame_order_ok :: "CaptureState \<Rightarrow> bool" where
  "frame_order_ok s \<longleftrightarrow>
     sorted_wrt (<) (cv_delivered s @ in_flight s) \<and> (\<forall>n \<in> set (cv_delivered s @ in_flight s). n < cv_next_seq s) \<and>
     (decodes_here s \<longrightarrow> in_flight s = [])"

definition frame_count_ok :: "CaptureState \<Rightarrow> bool" where
  "frame_count_ok s \<longleftrightarrow>
     (\<not> co_mjpeg_queue_latest_only (cv_opts s) \<longrightarrow>
        cv_v4l2_capture_count s = frame_outcomes s + of_nat (length (in_flight s)) \<and>
        (0 < co_mjpeg_queue_max (cv_opts s) \<longrightarrow> length (cv_queue s) \<le> co_mjpeg_queue_max (cv_opts s)))"

lemma in_flight_simps [simp]:
  "in_flight (QBufV4l2Index ok i s) = in_flight s" "decodes_here (QBufV4l2Index ok i s) = decodes_here s"
  "in_flight (ProcessV4l2CapturedFrame env a k n s) = in_flight s" "decodes_here (ProcessV4l2CapturedFrame env a k n s) = decodes_here s"
  "in_flight (count_captured s) = in_flight s" "decodes_here (count_captured s) = decodes_here s"
  by (simp_all add: in_flight_def job_list_def decodes_here_def)

lemma in_flight_upd [simp]:
  "in_flight (s\<lparr>cv_driver := d\<rparr>) = in_flight s" "in_flight (s\<lparr>cv_empty_capture_drop_count := e\<rparr>) = in_flight s"
  "in_flight (s\<lparr>cv_returning := rs\<rparr>) = in_flight s" "in_flight (s\<lparr>cv_skipped := k\<rparr>) = in_flight s"
  "decodes_here (s\<lparr>cv_driver := d\<rparr>) = decodes_here s" "decodes_here (s\<lparr>cv_empty_capture_drop_count := e\<rparr>) = decodes_here s"
  "decodes_here (s\<lparr>cv_returning := rs\<rparr>) = decodes_here s" "decodes_here (s\<lparr>cv_skipped := k\<rparr>) = decodes_here s"
  "decodes_here (s\<lparr>cv_job := j\<rparr>) = decodes_here s"
  "frame_outcomes (s\<lparr>cv_driver := d\<rparr>) = frame_outcomes s" "frame_outcomes (s\<lparr>cv_returning := rs\<rparr>) = frame_outcomes s"
  "frame_outcomes (s\<lparr>cv_job := j\<rparr>) = frame_outcomes s"
  "frame_outcomes (s\<lparr>cv_skipped := cv_skipped s + k\<rparr>) = frame_outcomes s + of_nat k"
  by (simp_all add: in_flight_def job_list_def decodes_here_def frame_outcomes_def)

lemma subseq_subset: "subseq xs ys \<Longrightarrow> set xs \<subseteq> set ys"
  by (induction rule: list_emb.induct) auto

lemma subseq_sorted: "subseq xs ys \<Longrightarrow> sorted_wrt R ys \<Longrightarrow> sorted_wrt R xs"
  by (induction rule: list_emb.induct) (auto dest: subseq_subset)

text \<open>Frames that leave the queue or are delivered in turn keep the order.\<close>

lemma order_mono:
  assumes "frame_order_ok s" and "subseq (cv_delivered t @ in_flight t) (cv_delivered s @ in_flight s)"
    and "cv_next_seq s \<le> cv_next_seq t" and "decodes_here t = decodes_here s" and "in_flight s = [] \<Longrightarrow> in_flight t = []"
  shows "frame_order_ok t"
proof -
  have "set (cv_delivered t @ in_flight t) \<subseteq> set (cv_delivered s @ in_flight s)"
    using assms(2) by (rule subseq_subset)
  moreover have "sorted_wrt (<) (cv_delivered t @ in_flight t)"
    using assms(1) by (intro subseq_sorted [OF assms(2)]) (simp add: frame_order_ok_def)
  ultimately show ?thesis using assms unfolding frame_order_ok_def by (meson less_le_trans subsetD)
qed

lemma order_new:
  assumes "frame_order_ok s" and "cv_delivered t @ in_flight t = xs @ [cv_next_seq s]"
    and "subseq xs (cv_delivered s @ in_flight s)" and "cv_next_seq t = cv_next_seq s + 1" and "decodes_here t \<Longrightarrow> in_flight t = []"
  shows "frame_order_ok t"
proof -
  have "\<forall>n \<in> set xs. n < cv_next_seq s" using assms(1) subseq_subset [OF assms(3)] by (auto simp: frame_order_ok_def)
  moreover have "sorted_wrt (<) xs" using assms(1) by (intro subseq_sorted [OF assms(3)]) (simp add: frame_order_ok_def)
  ultimately show ?thesis
    using assms(4,5) unfolding frame_order_ok_def assms(2) by (auto simp: sorted_wrt_append)
qed

lemma order_round:
  assumes ok: "frame_order_ok s" and "dq_index a \<in> set (cv_driver s)"
  shows "frame_order_ok (DirectCaptureThreadMain_round env a s)"
proof -
  let ?s = "s\<lparr>cv_driver := remove1 (dq_index a) (cv_driver s)\<rparr>"
  let ?c = "count_captured ?s"
  have same: "frame_order_ok (QBufV4l2Index q i ?s)" "frame_order_ok (QBufV4l2Index q i (?c\<lparr>cv_empty_capture_drop_count := e\<rparr>))" for q i e
    using ok by (auto intro!: order_mono [OF ok])
  have here: "frame_order_ok (process_here env a ?c)" if "decodes_here s"
  proof -
    let ?p = "ProcessV4l2CapturedFrame env (dq_process a) (dq_bytesused a) (cv_next_seq s) ?c"
    have e: "in_flight s = []" using ok that by (simp add: frame_order_ok_def)
    have p: "process_here env a ?c = QBufV4l2Index (dq_requeued a) (dq_index a) ?p" by (simp add: process_here_def)
    consider "cv_delivered ?p = cv_delivered s" | "cv_delivered ?p = cv_delivered s @ [cv_next_seq s]"
      using process_delivers [of env "dq_process a" "dq_bytesused a" "cv_next_seq s" ?c] by auto
    then show ?thesis
    proof cases
      case 1
      then show ?thesis unfolding p using e by (intro order_mono [OF ok]) simp_all
    next
      case 2
      then show ?thesis unfolding p using e by (intro order_new [OF ok, where xs = "cv_delivered s"]) simp_all
    qed
  qed
  have queued: "frame_order_ok (enqueue_frame env a ?c)" if "\<not> decodes_here s"
  proof -
    obtain dropped kept sn fn ln where m:
      "make_room (co_mjpeg_queue_latest_only (cv_opts s)) (co_mjpeg_queue_max (cv_opts s))
         (DecodeQueueStaleDropBudgetUs env (cv_requested_fps ?c)) (dq_lock_time_us a) (cv_queue s) = (dropped, kept, sn, fn, ln)"
      by (metis prod_cases5)
    let ?xs = "cv_delivered s @ map pb_seq (job_list s @ kept)"
    have "subseq (map pb_seq kept) (map pb_seq (cv_queue s))" using make_room_parts(2) [OF m] by (rule subseq_map)
    then have sub: "subseq ?xs (cv_delivered s @ in_flight s)" by (simp add: in_flight_def subseq_append')
    show ?thesis
      using m that by (intro order_new [OF ok _ sub]) (simp_all add: enqueue_frame_def in_flight_def job_list_def decodes_here_def)
  qed
  show ?thesis
    unfolding DirectCaptureThreadMain_round_def Let_def
    using same here queued by (auto simp: decodes_here_def)
qed

lemma fold_QBuf_keeps [simp]:
  "cv_queue (fold (\<lambda>b. QBufV4l2Index ok (pb_index b)) q s) = cv_queue s"
  "cv_delivered (fold (\<lambda>b. QBufV4l2Index ok (pb_index b)) q s) = cv_delivered s"
  "cv_next_seq (fold (\<lambda>b. QBufV4l2Index ok (pb_index b)) q s) = cv_next_seq s"
  "cv_opts (fold (\<lambda>b. QBufV4l2Index ok (pb_index b)) q s) = cv_opts s"
  "cv_pixfmt (fold (\<lambda>b. QBufV4l2Index ok (pb_index b)) q s) = cv_pixfmt s"
  "cv_v4l2_capture_count (fold (\<lambda>b. QBufV4l2Index ok (pb_index b)) q s) = cv_v4l2_capture_count s"
  "in_flight (fold (\<lambda>b. QBufV4l2Index ok (pb_index b)) q s) = in_flight s"
  "decodes_here (fold (\<lambda>b. QBufV4l2Index ok (pb_index b)) q s) = decodes_here s"
  "frame_outcomes (fold (\<lambda>b. QBufV4l2Index ok (pb_index b)) q s) = frame_outcomes s"
  by (induction q arbitrary: s) simp_all

lemma order_step:
  assumes "capture_step env s s'" and ok: "frame_order_ok s"
  shows "frame_order_ok s'"
  using assms(1)
proof cases
  case (capture a)
  then show ?thesis using order_round [OF ok] by simp
next
  case (give_back ok')
  then show ?thesis
    by (intro order_mono [OF ok]) (simp_all add: return_dropped_def split: list.split)
next
  case take_job
  then show ?thesis
    by (intro order_mono [OF ok]) (auto simp: DecodeWorker_take_def in_flight_def job_list_def decodes_here_def split: list.split)
next
  case (finish_job a ok')
  then obtain b skip where j: "cv_job s = Some (b, skip)" by auto
  let ?s = "s\<lparr>cv_job := None\<rparr>"
  have fl: "in_flight s = pb_seq b # in_flight ?s" by (simp add: in_flight_def job_list_def j)
  have "subseq (cv_delivered (ProcessV4l2CapturedFrame env a k (pb_seq b) ?s) @ in_flight ?s) (cv_delivered s @ in_flight s)" for k
    using process_delivers [of env a k "pb_seq b" ?s] by (auto simp: fl subseq_append')
  moreover have "subseq (cv_delivered s @ in_flight ?s) (cv_delivered s @ in_flight s)" by (simp add: fl subseq_append' list_emb_Cons)
  ultimately show ?thesis
    using finish_job(1) by (intro order_mono [OF ok]) (simp_all add: DecodeWorker_finish_def j Let_def fl)
next
  case (release_frame i)
  then show ?thesis by (intro order_mono [OF ok]) (simp_all add: in_flight_def job_list_def decodes_here_def)
next
  case stop
  then show ?thesis by (intro order_mono [OF ok]) (simp_all add: stop_capture_def in_flight_def job_list_def decodes_here_def)
next
  case exit_worker
  then show ?thesis by (intro order_mono [OF ok]) (simp_all add: stop_worker_def in_flight_def job_list_def decodes_here_def)
next
  case (leftover ok')
  then have "in_flight (s\<lparr>cv_queue := [], cv_skipped := k\<rparr>) = []" for k by (simp add: in_flight_def job_list_def)
  then show ?thesis using leftover(1)
    by (intro order_mono [OF ok]) (auto simp: return_leftover_def decodes_here_def intro: prefix_imp_subseq)
qed

lemma count_round:
  assumes ok: "frame_count_ok s"
  shows "frame_count_ok (DirectCaptureThreadMain_round env a s)"
proof -
  let ?s = "s\<lparr>cv_driver := remove1 (dq_index a) (cv_driver s)\<rparr>"
  let ?c = "count_captured ?s"
  have empty: "frame_outcomes (?c\<lparr>cv_empty_capture_drop_count := cv_empty_capture_drop_count s + 1\<rparr>) = frame_outcomes s + 1"
    by (simp add: frame_outcomes_def count_captured_def)
  have queued: "frame_count_ok (enqueue_frame env a ?c)"
  proof -
    obtain dropped kept sn fn ln where m:
      "make_room (co_mjpeg_queue_latest_only (cv_opts s)) (co_mjpeg_queue_max (cv_opts s))
         (DecodeQueueStaleDropBudgetUs env (cv_requested_fps ?c)) (dq_lock_time_us a) (cv_queue s) = (dropped, kept, sn, fn, ln)"
      by (metis prod_cases5)
    have len: "length dropped + length kept = length (cv_queue s)"
      using make_room_parts(1) [OF m] by (metis size_mset size_union)
    have outc: "frame_outcomes (enqueue_frame env a ?c) = frame_outcomes s + of_nat (sn + fn + ln)"
      using m by (simp add: enqueue_frame_def frame_outcomes_def count_captured_def)
    have fl: "length (in_flight (enqueue_frame env a ?c)) = length (job_list s) + length kept + 1"
      using m by (simp add: enqueue_frame_def in_flight_def job_list_def)
    show ?thesis
      unfolding frame_count_ok_def
    proof (intro impI conjI)
      assume "\<not> co_mjpeg_queue_latest_only (cv_opts (enqueue_frame env a ?c))"
      then have l: "\<not> co_mjpeg_queue_latest_only (cv_opts s)" using m by (simp add: enqueue_frame_def)
      have old: "cv_v4l2_capture_count s = frame_outcomes s + of_nat (length (job_list s) + length (cv_queue s))"
        using ok l by (simp add: frame_count_ok_def in_flight_def)
      show "cv_v4l2_capture_count (enqueue_frame env a ?c)
          = frame_outcomes (enqueue_frame env a ?c) + of_nat (length (in_flight (enqueue_frame env a ?c)))"
      proof -
        have c: "cv_v4l2_capture_count (enqueue_frame env a ?c) = cv_v4l2_capture_count s + 1" using m by (simp add: enqueue_frame_def)
        have n: "sn + fn + ln + (length (job_list s) + length kept + 1) = length (job_list s) + length (cv_queue s) + 1"
          using make_room_parts(3) [OF m l] len by simp
        have "frame_outcomes s + of_nat (sn + fn + ln) + of_nat (length (job_list s) + length kept + 1)
            = frame_outcomes s + of_nat (length (job_list s) + length (cv_queue s) + 1)"
          by (subst n [symmetric]) (simp only: of_nat_add add.assoc)
        then show ?thesis unfolding c outc fl unfolding old by (simp add: add.assoc)
      qed
      assume "0 < co_mjpeg_queue_max (cv_opts (enqueue_frame env a ?c))"
      then show "length (cv_queue (enqueue_frame env a ?c)) \<le> co_mjpeg_queue_max (cv_opts (enqueue_frame env a ?c))"
        using m make_room_parts(4) [OF m l] by (simp add: enqueue_frame_def)
    qed
  qed
  show ?thesis
    using ok queued empty
    by (simp add: DirectCaptureThreadMain_round_def Let_def process_here_def frame_count_ok_def process_counts)
qed

lemma count_step:
  assumes "capture_step env s s'" and ok: "frame_count_ok s"
  shows "frame_count_ok s'"
  using assms(1)
proof cases
  case (capture a)
  then show ?thesis using count_round [OF ok] by simp
next
  case (give_back ok')
  then show ?thesis using ok by (simp add: return_dropped_def frame_count_ok_def split: list.split)
next
  case take_job
  then obtain b q where "cv_queue s = b # q" "cv_job s = None" by (cases "cv_queue s") auto
  then show ?thesis
    using ok take_job(1)
    by (auto simp: DecodeWorker_take_def frame_count_ok_def in_flight_def job_list_def frame_outcomes_def dest: Suc_leD)
next
  case (finish_job a ok')
  then obtain b skip where j: "cv_job s = Some (b, skip)" by auto
  let ?s = "s\<lparr>cv_job := None\<rparr>"
  have fl: "in_flight s = pb_seq b # in_flight ?s" by (simp add: in_flight_def job_list_def j)
  have sk: "frame_outcomes (?s\<lparr>cv_skipped := Suc (cv_skipped s)\<rparr>) = frame_outcomes s + 1" by (simp add: frame_outcomes_def)
  show ?thesis
    using ok finish_job(1) sk by (simp add: DecodeWorker_finish_def j Let_def frame_count_ok_def fl process_counts)
next
  case (release_frame i)
  then show ?thesis using ok by (simp add: frame_count_ok_def in_flight_def job_list_def frame_outcomes_def)
next
  case stop
  then show ?thesis using ok by (simp add: stop_capture_def frame_count_ok_def in_flight_def job_list_def frame_outcomes_def)
next
  case exit_worker
  then show ?thesis using ok by (simp add: stop_worker_def frame_count_ok_def in_flight_def job_list_def frame_outcomes_def)
next
  case (leftover ok')
  let ?k = "length (cv_queue s)"
  let ?t = "s\<lparr>cv_queue := [], cv_skipped := cv_skipped s + ?k\<rparr>"
  have "frame_outcomes ?t = frame_outcomes s + of_nat ?k" "in_flight ?t = []" "length (in_flight s) = ?k"
    using leftover by (simp_all add: frame_outcomes_def in_flight_def job_list_def)
  then show ?thesis using ok leftover(1) by (simp add: return_leftover_def frame_count_ok_def)
qed

lemma capture_frames_ok:
  assumes "capture_reachable env (capture_begin opts pf mpp w h fps nbuf) s"
  shows "frame_order_ok s \<and> frame_count_ok s \<and> cv_opts s = opts"
  using assms
proof induction
  case begin_capture
  show ?case
    by (simp add: capture_begin_def frame_order_ok_def frame_count_ok_def in_flight_def job_list_def frame_outcomes_def)
next
  case (next_capture s s')
  then have "cv_opts s' = cv_opts s"
    by (auto elim!: capture_step.cases simp: DirectCaptureThreadMain_round_def process_here_def enqueue_frame_def return_dropped_def
        DecodeWorker_take_def DecodeWorker_finish_def stop_capture_def stop_worker_def return_leftover_def Let_def
        split: list.split prod.split option.split)
  then show ?case using next_capture order_step count_step by blast
qed

lemma clamp_between_range: "lo \<le> hi \<Longrightarrow> lo \<le> clamp_between lo hi v \<and> clamp_between lo hi v \<le> hi"
  by (simp add: clamp_between_def Let_def)

lemma options_range:
  "0 < co_mjpeg_queue_max (ApplyMjpegPipelineOptions env p) \<and>
   int (co_mjpeg_queue_max (ApplyMjpegPipelineOptions env p)) < co_v4l2_buffer_count (ApplyMjpegPipelineOptions env p) \<and>
   2 \<le> co_v4l2_buffer_count (ApplyMjpegPipelineOptions env p) \<and> co_v4l2_buffer_count (ApplyMjpegPipelineOptions env p) \<le> 32 \<and>
   4 \<le> co_nv12_pool_slots (ApplyMjpegPipelineOptions env p)"
proof -
  let ?o = "case p of Some x \<Rightarrow> x | None \<Rightarrow> default_pipeline_options"
  have "2 \<le> clamp_between 2 32 (po_v4l2_buffer_count ?o)" "clamp_between 2 32 (po_v4l2_buffer_count ?o) \<le> 32"
    "1 \<le> clamp_between 1 32 (po_mjpeg_queue_max ?o)" "4 \<le> clamp_between 4 16 (po_nv12_pool_slots ?o)"
    using clamp_between_range [of 2 32] clamp_between_range [of 1 32] clamp_between_range [of 4 16] by simp_all
  then show ?thesis by (simp add: ApplyMjpegPipelineOptions_def Let_def max_def) linarith?
qed


section \<open>Slots of the pool\<close>

definition pool_ok :: "CaptureState \<Rightarrow> bool" where
  "pool_ok s \<longleftrightarrow>
     distinct (cv_leases s) \<and>
     (\<forall>i. i \<in> set (cv_leases s) \<longleftrightarrow> i < length (np_slot_in_use (cv_pool s)) \<and> np_slot_in_use (cv_pool s) ! i) \<and>
     (np_slot_in_use (cv_pool s) \<noteq> [] \<longrightarrow>
        length (np_slot_in_use (cv_pool s)) = nat (co_nv12_pool_slots (cv_opts s)) \<and>
        np_w (cv_pool s) = cv_cap_w s \<and> np_h (cv_pool s) = cv_cap_h s)"

text \<open>The search goes once around the ring, so it finds a free slot wherever it starts.\<close>

lemma ring_covers: "(\<lambda>tried. (k + tried) mod n) ` {0..<n} = {0..<n}" for k n :: nat
proof (cases "n = 0")
  case False
  have "i \<in> (\<lambda>tried. (k + tried) mod n) ` {0..<n}" if "i < n" for i
  proof
    let ?t = "(i + (n - k mod n)) mod n"
    have km: "k mod n \<le> n" using False by simp
    have "(k + ?t) mod n = (k mod n + (i + (n - k mod n))) mod n" by (simp add: mod_simps)
    also have "k mod n + (i + (n - k mod n)) = i + n" using km by simp
    finally show "i = (k + ?t) mod n" using that by simp
    show "?t \<in> {0..<n}" using False by simp
  qed
  then show ?thesis using False by auto
qed simp

lemma free_slot_Some:
  assumes "free_slot p = Some i"
  shows "i < length (np_slot_in_use p) \<and> \<not> np_slot_in_use p ! i"
proof -
  let ?n = "length (np_slot_in_use p)"
  obtain j where j: "j < ?n" and "i = (np_ring_next p + j) mod ?n" "\<not> np_slot_in_use p ! i"
    using assms by (auto simp: free_slot_def Let_def find_Some_iff)
  then show ?thesis by (metis mod_less_divisor not_less_zero gr0I)
qed

lemma free_slot_None: "free_slot p = None \<longleftrightarrow> (\<forall>i < length (np_slot_in_use p). np_slot_in_use p ! i)"
proof -
  let ?n = "length (np_slot_in_use p)"
  have "free_slot p = None \<longleftrightarrow> (\<forall>i \<in> (\<lambda>tried. (np_ring_next p + tried) mod ?n) ` {0..<?n}. np_slot_in_use p ! i)"
    by (auto simp: free_slot_def Let_def find_None_iff)
  then show ?thesis unfolding ring_covers by auto
qed

lemma pool_okI:
  assumes "pool_ok s" and "cv_pool t = cv_pool s" and "cv_leases t = cv_leases s" and "cv_opts t = cv_opts s"
    and "cv_cap_w t = cv_cap_w s" and "cv_cap_h t = cv_cap_h s"
  shows "pool_ok t"
  using assms by (simp add: pool_ok_def)

text \<open>The pool is built once and matches the capture size from then on.\<close>

lemma pool_Ensure:
  assumes "pool_ok s"
  shows "pool_ok (s\<lparr>cv_pool := EnsureNv12Pool alloc (co_nv12_pool_slots (cv_opts s)) (cv_cap_w s) (cv_cap_h s) (cv_pool s)\<rparr>)"
proof (cases "np_slot_in_use (cv_pool s) = []")
  case True
  then have "\<forall>i. i \<notin> set (cv_leases s)" using assms by (simp add: pool_ok_def)
  then have "cv_leases s = []" by (metis last_in_set)
  then show ?thesis using True by (auto simp: pool_ok_def EnsureNv12Pool_def)
next
  case False
  then have "EnsureNv12Pool alloc (co_nv12_pool_slots (cv_opts s)) (cv_cap_w s) (cv_cap_h s) (cv_pool s) = cv_pool s"
    using assms by (simp add: pool_ok_def EnsureNv12Pool_def)
  then show ?thesis using assms by simp
qed

lemma pool_acquire:
  assumes ok: "pool_ok s"
    and a: "AcquireNv12PoolBuffer alloc (co_nv12_pool_slots (cv_opts s)) (cv_cap_w s) (cv_cap_h s) (cv_pool s) = (slot, p)"
  shows "case slot of
      None \<Rightarrow> pool_ok (s\<lparr>cv_pool := p\<rparr>)
    | Some i \<Rightarrow> i \<notin> set (cv_leases s) \<and> pool_ok (s\<lparr>cv_pool := p, cv_leases := cv_leases s @ [i]\<rparr>) \<and>
                pool_ok (s\<lparr>cv_pool := ReleaseNv12PoolSlot i p\<rparr>)"
proof -
  let ?p = "EnsureNv12Pool alloc (co_nv12_pool_slots (cv_opts s)) (cv_cap_w s) (cv_cap_h s) (cv_pool s)"
  have e: "pool_ok (s\<lparr>cv_pool := ?p\<rparr>)" using ok by (rule pool_Ensure)
  show ?thesis
  proof (cases "free_slot ?p")
    case None
    then have "slot = None" and p: "p = ?p \<or> p = ?p\<lparr>np_busy_count := np_busy_count ?p + 1\<rparr>"
      using a by (auto simp: AcquireNv12PoolBuffer_def Let_def split: if_splits)
    moreover have "pool_ok (s\<lparr>cv_pool := p\<rparr>)" using e p by (elim disjE) (simp_all add: pool_ok_def)
    ultimately show ?thesis by simp
  next
    case (Some i)
    have i: "i < length (np_slot_in_use ?p)" "\<not> np_slot_in_use ?p ! i" using free_slot_Some [OF Some] by simp_all
    then have "np_slot_in_use ?p \<noteq> []" by auto
    then have r: "slot = Some i" "p = ?p\<lparr>np_slot_in_use := (np_slot_in_use ?p)[i := True], np_ring_next := i + 1\<rparr>"
      using a by (simp_all add: AcquireNv12PoolBuffer_def Let_def Some)
    have undo: "(np_slot_in_use ?p)[i := False] = np_slot_in_use ?p" using i by (simp add: list_update_same_conv)
    show ?thesis
      using e i unfolding r by (auto simp: pool_ok_def ReleaseNv12PoolSlot_def nth_list_update undo)
  qed
qed

lemma pool_OnFrame: "pool_ok s \<Longrightarrow> pool_ok (camera_OnFrame n s)"
  by (erule pool_okI) (simp_all add: camera_OnFrame_def)

lemma pool_process:
  assumes ok: "pool_ok s"
  shows "pool_ok (ProcessV4l2CapturedFrame env a k n s)"
proof -
  have conv: "pool_ok (convert_to_i420 a n t)" if "pool_ok t" for t
    using pool_OnFrame [OF that] pool_okI [OF that] by (simp add: convert_to_i420_def)
  obtain slot p where
    acq: "AcquireNv12PoolBuffer (pr_pool_alloc a) (co_nv12_pool_slots (cv_opts s)) (cv_cap_w s) (cv_cap_h s) (cv_pool s) = (slot, p)"
    by (cases "AcquireNv12PoolBuffer (pr_pool_alloc a) (co_nv12_pool_slots (cv_opts s)) (cv_cap_w s) (cv_cap_h s) (cv_pool s)")
  have "pool_ok (decode_to_nv12 a n s)"
    using pool_acquire [OF ok acq] conv
    by (auto simp: decode_to_nv12_def acq intro: pool_OnFrame split: option.splits)
  then show ?thesis
    using conv [OF ok] pool_OnFrame [OF ok] pool_okI [OF ok] by (simp add: ProcessV4l2CapturedFrame_def)
qed

lemma pool_QBuf: "pool_ok s \<Longrightarrow> pool_ok (QBufV4l2Index ok i s)"
  by (erule pool_okI) (simp_all add: QBufV4l2Index_def)

lemma pool_round:
  assumes ok: "pool_ok s"
  shows "pool_ok (DirectCaptureThreadMain_round env a s)"
proof -
  let ?s = "s\<lparr>cv_driver := remove1 (dq_index a) (cv_driver s)\<rparr>"
  have 1: "pool_ok ?s" "pool_ok (count_captured ?s)" "pool_ok ((count_captured ?s)\<lparr>cv_empty_capture_drop_count := e\<rparr>)" for e
    by (rule pool_okI [OF ok]; simp add: count_captured_def)+
  have "pool_ok (enqueue_frame env a (count_captured ?s))"
    by (rule pool_okI [OF 1(2)]) (simp_all add: enqueue_frame_def split: prod.split)
  then show ?thesis
    using 1 by (simp add: DirectCaptureThreadMain_round_def process_here_def pool_QBuf pool_process Let_def)
qed

lemma pool_step:
  assumes "capture_step env s s'" and ok: "pool_ok s"
  shows "pool_ok s'"
  using assms(1)
proof cases
  case (capture a)
  then show ?thesis using pool_round [OF ok] by simp
next
  case (give_back ok')
  have "pool_ok (s\<lparr>cv_returning := r\<rparr>)" for r by (rule pool_okI [OF ok]) simp_all
  then show ?thesis using ok give_back(1) by (simp add: return_dropped_def pool_QBuf split: list.split)
next
  case take_job
  then show ?thesis by (intro pool_okI [OF ok]) (simp_all add: DecodeWorker_take_def split: list.split)
next
  case (finish_job a ok')
  then obtain b skip where j: "cv_job s = Some (b, skip)" by auto
  have "pool_ok (s\<lparr>cv_job := None\<rparr>)" "pool_ok (s\<lparr>cv_job := None, cv_skipped := k\<rparr>)" for k
    by (rule pool_okI [OF ok]; simp)+
  then show ?thesis using finish_job(1) by (simp add: DecodeWorker_finish_def j Let_def pool_QBuf pool_process)
next
  case (release_frame i)
  then have "i < length (np_slot_in_use (cv_pool s))" using ok by (simp add: pool_ok_def)
  then show ?thesis
    using ok release_frame by (auto simp: pool_ok_def ReleaseNv12PoolSlot_def nth_list_update set_remove1_eq)
next
  case stop
  then show ?thesis by (intro pool_okI [OF ok]) (simp_all add: stop_capture_def)
next
  case exit_worker
  then show ?thesis by (intro pool_okI [OF ok]) (simp_all add: stop_worker_def)
next
  case (leftover ok')
  have "pool_ok (fold (\<lambda>b. QBufV4l2Index ok' (pb_index b)) q t)" if "pool_ok t" for q t
    using that by (induction q arbitrary: t) (simp_all add: pool_QBuf)
  moreover have "pool_ok (s\<lparr>cv_queue := [], cv_skipped := k\<rparr>)" for k by (rule pool_okI [OF ok]) simp_all
  ultimately show ?thesis unfolding leftover(1) return_leftover_def by blast
qed


section \<open>Runs\<close>

datatype capture_input = ICapture dq_answer | IGiveBack bool | ITake | IFinish process_answers bool | IStop | IExit

definition capture_apply :: "env \<Rightarrow> capture_input \<Rightarrow> CaptureState \<Rightarrow> CaptureState option" where
  "capture_apply env i s =
     (case i of
        ICapture a \<Rightarrow> if cv_run s \<and> cv_returning s = [] \<and> dq_index a \<in> set (cv_driver s)
                      then Some (DirectCaptureThreadMain_round env a s) else None
      | IGiveBack ok \<Rightarrow> if cv_returning s \<noteq> [] then Some (return_dropped ok s) else None
      | ITake \<Rightarrow> if cv_job s = None \<and> cv_queue s \<noteq> [] then Some (DecodeWorker_take s) else None
      | IFinish a ok \<Rightarrow> if cv_job s \<noteq> None then Some (DecodeWorker_finish env a ok s) else None
      | IStop \<Rightarrow> Some (stop_capture s)
      | IExit \<Rightarrow> if \<not> cv_run s \<and> cv_returning s = [] then Some (stop_worker s) else None)"

fun capture_run :: "env \<Rightarrow> capture_input list \<Rightarrow> CaptureState \<Rightarrow> CaptureState option" where
  "capture_run env [] s = Some s"
| "capture_run env (i # is) s = (case capture_apply env i s of None \<Rightarrow> None | Some s' \<Rightarrow> capture_run env is s')"

lemma capture_apply_step: "capture_apply env i s = Some s' \<Longrightarrow> capture_step env s s'"
  by (auto simp: capture_apply_def intro: capture_step.intros split: capture_input.splits if_splits)

lemma capture_run_reachable:
  "capture_reachable env s0 s \<Longrightarrow> capture_run env is s = Some s' \<Longrightarrow> capture_reachable env s0 s'"
proof (induction "is" arbitrary: s)
  case Nil
  then show ?case by simp
next
  case (Cons i "is")
  then obtain t where t: "capture_apply env i s = Some t" "capture_run env is t = Some s'" by (auto split: option.splits)
  have "capture_reachable env s0 t" using Cons.prems(1) capture_apply_step [OF t(1)] by (rule next_capture)
  then show ?case using t(2) by (rule Cons.IH)
qed

definition demo_dq :: "nat \<Rightarrow> int \<Rightarrow> dq_answer" where
  "demo_dq i t = \<lparr> dq_index = i, dq_bytesused = 9, dq_mapped = True, dq_time_us = t, dq_v4l2_timestamp_us = t, dq_poll_wait_us = 0,
     dq_ioctl_us = 0, dq_lock_time_us = t, dq_push_time_us = t, dq_requeued = True,
     dq_process = \<lparr> pr_native = False, pr_pool_alloc = True, pr_pool_decode = True, pr_alloc_decode = True, pr_convert = True \<rparr> \<rparr>"

definition demo_capture :: "V4l2MjpegPipelineOptions \<Rightarrow> nat \<Rightarrow> CaptureState" where
  "demo_capture p n = capture_begin (ApplyMjpegPipelineOptions (\<lambda>_. None) (Some p)) PIX_MJPEG True 640 480 30 n"

definition capture_after :: "V4l2MjpegPipelineOptions \<Rightarrow> nat \<Rightarrow> capture_input list \<Rightarrow> CaptureState" where
  "capture_after p n is = the (capture_run (\<lambda>_. None) is (demo_capture p n))"

lemma capture_after_reachable:
  assumes "capture_run (\<lambda>_. None) is (demo_capture p n) \<noteq> None"
  shows "capture_reachable (\<lambda>_. None) (demo_capture p n) (capture_after p n is)"
  using assms by (auto simp: capture_after_def intro: capture_run_reachable [OF begin_capture])

definition demo_pr :: process_answers where
  "demo_pr = \<lparr> pr_native = False, pr_pool_alloc = True, pr_pool_decode = True, pr_alloc_decode = True, pr_convert = True \<rparr>"

definition demo_capture_inputs :: "capture_input list" where
  "demo_capture_inputs = [ICapture (demo_dq 0 0), ITake, ICapture (demo_dq 1 10), IFinish demo_pr True, ICapture (demo_dq 2 20), ITake]"

definition demo_options :: V4l2MjpegPipelineOptions where
  "demo_options = default_pipeline_options\<lparr>po_v4l2_buffer_count := 4\<rparr>"

lemma demo_capture_runs: "capture_run (\<lambda>_. None) demo_capture_inputs (demo_capture demo_options 4) \<noteq> None"
  by code_simp

lemma demo_capture_result:
  "cv_delivered (capture_after demo_options 4 demo_capture_inputs) = [0] \<and> in_flight (capture_after demo_options 4 demo_capture_inputs) = [1, 2] \<and>
   cv_driver (capture_after demo_options 4 demo_capture_inputs) = [3, 0]"
  by code_simp

theorem capture_buffers_conserved_witness:
  "holders (capture_after demo_options 4 demo_capture_inputs) = mset [0..<4] \<and> cv_driver (capture_after demo_options 4 demo_capture_inputs) = [3, 0]"
  using capture_buffers_conserved [OF capture_after_reachable [OF demo_capture_runs, unfolded demo_capture_def]] demo_capture_result by blast



section \<open>Corners of the code\<close>

text \<open>
  With \<^verbatim>\<open>mjpeg_queue_latest_only\<close> the stale frames, already on the list of dropped ones, are swapped back into the
  queue and the fresh ones go: the queue then holds the stale frames and the new one, although the stale ones were
  counted as dropped.
\<close>

theorem latest_only_keeps_stale:
  assumes "co_mjpeg_queue_latest_only (cv_opts s)" and "cv_returning s = []"
    and "split_stale (DecodeQueueStaleDropBudgetUs env (cv_requested_fps s)) (dq_lock_time_us a) (cv_queue s) = (stale, rest)"
  shows "map pb_index (cv_queue (enqueue_frame env a s)) = map pb_index stale @ [dq_index a] \<and>
         cv_returning (enqueue_frame env a s) = map pb_index rest \<and>
         cv_mjpeg_stale_drop_count (enqueue_frame env a s) = cv_mjpeg_stale_drop_count s + of_nat (length stale)"
  using assms by (simp add: enqueue_frame_def make_room_def)

text \<open>
  With the default of two buffers the queue is cut to one frame so that the kernel keeps a buffer, but the decoder
  thread holds another one: with one frame queued and one being decoded the kernel has none.
\<close>

theorem driver_can_starve:
  "cv_driver (capture_after default_pipeline_options 2 [ICapture (demo_dq 0 0), ITake, ICapture (demo_dq 1 10)]) = [] \<and>
   co_mjpeg_queue_max (cv_opts (demo_capture default_pipeline_options 2)) = 1"
  by code_simp

text \<open>
  A slot is released by its number alone. After the pool was rebuilt, the release of a frame of the old pool frees
  the slot of the same number, although a frame of the new pool uses it, and the next frame is decoded into it.
\<close>

theorem late_release_frees_new_slot:
  assumes "AcquireNv12PoolBuffer True 4 w h nv12_pool_init = (slot, p)" and "0 < w" and "0 < h"
  shows "slot = Some 0 \<and> \<not> np_slot_in_use (ReleaseNv12PoolSlot 0 p) ! 0"
  using assms by (auto simp: AcquireNv12PoolBuffer_def EnsureNv12Pool_def nv12_pool_init_def free_slot_def ReleaseNv12PoolSlot_def
      Let_def upt_rec)

end
