(* ===== verification/Camera_Setup.thy ===== *)
theory Camera_Setup
  imports Camera_Devices Camera_Capture
begin

text \<open>
  Opening and closing the camera: \<^verbatim>\<open>Start\<close>, \<^verbatim>\<open>Stop\<close>, \<^verbatim>\<open>StartDirectV4l2\<close>, \<^verbatim>\<open>StopDirectV4l2\<close> and the adaptation
  of the frames to what the sinks want, of \<^verbatim>\<open>src/service/impl/media/camera_video_track_source.cpp\<close>.

  The kernel's driver, the MPP library and WebRTC's capture module are a record of functions on a state of their
  own, an argument of every operation. \<open>cm_held\<close> is the ledger of what the process holds: it changes only where the
  code opens, maps, exports or allocates and where it gives back. \<open>cm_queued\<close> lists the buffers the kernel accepted.
  The build with MPP is modelled; \<open>have_rga\<close> is the other build option.
\<close>

section \<open>The driver\<close>

record v4l2_pix =
  px_width :: u32
  px_height :: u32
  px_pixelformat :: pixel_format
  px_sizeimage :: nat

datatype open_result = OPENED | OPEN_EBUSY | OPEN_ERRNO
datatype sfmt_result = FMT_SET v4l2_pix | FMT_EBUSY | FMT_ERRNO
datatype v4l2_memory = MEMORY_MMAP | MEMORY_DMABUF

text \<open>A frame interval the driver reports: numerator and denominator of the time per frame.\<close>

datatype frmival = DISCRETE u32 u32 | STEPWISE u32 u32 | FRMIVAL_OTHER

record video_capability =
  vc_max_fps :: int

text \<open>
  \<open>op_timeperframe\<close> is \<^verbatim>\<open>VIDIOC_G_PARM\<close> on a device with \<^verbatim>\<open>V4L2_CAP_TIMEPERFRAME\<close>; \<open>op_intervals\<close> lists what
  \<^verbatim>\<open>VIDIOC_ENUM_FRAMEINTERVALS\<close> answers before it fails; \<open>op_buffer_get\<close> is \<^verbatim>\<open>mpp_buffer_get\<close> with the pointer
  (whether it is not null), the descriptor and the size of the buffer.
\<close>

record 'd camera_ops =
  op_open :: "string \<Rightarrow> 'd \<Rightarrow> open_result \<times> 'd"
  op_querycap :: "'d \<Rightarrow> bool option"
  op_g_fmt :: "'d \<Rightarrow> v4l2_pix option"
  op_s_fmt :: "v4l2_pix \<Rightarrow> 'd \<Rightarrow> sfmt_result \<times> 'd"
  op_intervals :: "pixel_format \<Rightarrow> int \<Rightarrow> int \<Rightarrow> frmival list"
  op_timeperframe :: "'d \<Rightarrow> (u32 \<times> u32) option"
  op_s_parm :: "u32 \<times> u32 \<Rightarrow> 'd \<Rightarrow> 'd"
  op_reqbufs :: "v4l2_memory \<Rightarrow> nat \<Rightarrow> 'd \<Rightarrow> nat option \<times> 'd"
  op_querybuf :: "nat \<Rightarrow> 'd \<Rightarrow> nat option"
  op_mmap :: "nat \<Rightarrow> 'd \<Rightarrow> bool"
  op_qbuf :: "v4l2_memory \<Rightarrow> nat \<Rightarrow> 'd \<Rightarrow> bool \<times> 'd"
  op_expbuf :: "nat \<Rightarrow> 'd \<Rightarrow> int option"
  op_streamon :: "'d \<Rightarrow> bool \<times> 'd"
  op_streamoff :: "'d \<Rightarrow> 'd"
  op_close :: "'d \<Rightarrow> 'd"
  op_dec_init :: "'d \<Rightarrow> bool \<times> 'd"
  op_buffer_get :: "nat \<Rightarrow> 'd \<Rightarrow> (bool \<times> int \<times> nat) option \<times> 'd"
  op_device_info :: bool
  op_vcm_create :: "string \<Rightarrow> bool"
  op_best_match :: "string \<Rightarrow> video_capability option"
  op_capability0 :: "string \<Rightarrow> video_capability option"
  op_start_capture :: "video_capability \<Rightarrow> bool"

datatype resource = RDevice | RMapping nat | RInput nat | RExport int

record 'd camera =
  cm_direct_fd :: bool
  cm_cap_w :: int
  cm_cap_h :: int
  cm_pixfmt :: pixel_format
  cm_mmap :: "bool list"
  cm_mmap_len :: "nat list"
  cm_expbuf_fd :: "int list"
  cm_dmabuf_capture :: bool
  cm_input_buffers :: "bool list"
  cm_mjpeg_mpp :: bool
  cm_run :: bool
  cm_decode_thread :: bool
  cm_direct_thread :: bool
  cm_negotiated_fps :: int
  cm_requested_fps :: int
  cm_prefer_mpp :: bool
  cm_opts :: CaptureOptions
  cm_vcm :: bool
  cm_device_info :: bool
  cm_dec_out_pool :: int
  cm_drv :: 'd
  cm_held :: "resource multiset"
  cm_queued :: "nat list"

definition camera_init :: "'d \<Rightarrow> 'd camera" where
  "camera_init d = \<lparr> cm_direct_fd = False, cm_cap_w = 0, cm_cap_h = 0, cm_pixfmt = PIX_OTHER 0, cm_mmap = [], cm_mmap_len = [],
     cm_expbuf_fd = [], cm_dmabuf_capture = False, cm_input_buffers = [], cm_mjpeg_mpp = False, cm_run = False,
     cm_decode_thread = False, cm_direct_thread = False, cm_negotiated_fps = 0, cm_requested_fps = 30, cm_prefer_mpp = False,
     cm_opts = ApplyMjpegPipelineOptions (\<lambda>_. None) None, cm_vcm = False, cm_device_info = False, cm_dec_out_pool = 0,
     cm_drv = d, cm_held = {#}, cm_queued = [] \<rparr>"

section \<open>Stopping\<close>

definition mapped :: "'d camera \<Rightarrow> nat list" where
  "mapped c = filter (\<lambda>i. cm_mmap c ! i \<and> 0 < cm_mmap_len c ! i) [0..<length (cm_mmap c)]"

definition allocated :: "'d camera \<Rightarrow> nat list" where
  "allocated c = filter (\<lambda>i. cm_input_buffers c ! i) [0..<length (cm_input_buffers c)]"

definition exported :: "'d camera \<Rightarrow> int multiset" where
  "exported c = filter_mset (\<lambda>fd. 0 \<le> fd) (mset (cm_expbuf_fd c))"

definition camera_close :: "'d camera_ops \<Rightarrow> 'd camera \<Rightarrow> 'd camera" where
  "camera_close ops c =
     (if cm_direct_fd c then c\<lparr>cm_direct_fd := False, cm_drv := op_close ops (cm_drv c), cm_held := cm_held c - {#RDevice#}, cm_queued := []\<rparr>
      else c)"

definition release_buffers :: "'d camera \<Rightarrow> 'd camera" where
  "release_buffers c =
     (if cm_dmabuf_capture c
      then if cm_mjpeg_mpp c then c\<lparr>cm_held := cm_held c - image_mset RInput (mset (allocated c))\<rparr> else c
      else c\<lparr>cm_held := cm_held c - image_mset RMapping (mset (mapped c)) - image_mset RExport (exported c)\<rparr>)"

definition StopDirectV4l2 :: "'d camera_ops \<Rightarrow> 'd camera \<Rightarrow> 'd camera" where
  "StopDirectV4l2 ops c0 =
     (let c1 = c0\<lparr>cm_run := False, cm_direct_thread := False, cm_decode_thread := False\<rparr>;
          c2 = (if cm_direct_fd c1 then c1\<lparr>cm_drv := op_streamoff ops (cm_drv c1), cm_queued := []\<rparr> else c1);
          c3 = (release_buffers c2)\<lparr>cm_expbuf_fd := [], cm_mmap := [], cm_mmap_len := [], cm_input_buffers := [],
                  cm_dmabuf_capture := False, cm_mjpeg_mpp := False\<rparr>;
          c4 = camera_close ops c3
      in c4\<lparr>cm_cap_w := 0, cm_cap_h := 0, cm_pixfmt := PIX_OTHER 0\<rparr>)"

definition camera_Stop :: "'d camera_ops \<Rightarrow> 'd camera \<Rightarrow> 'd camera" where
  "camera_Stop ops c = (StopDirectV4l2 ops (c\<lparr>cm_negotiated_fps := 0\<rparr>))\<lparr>cm_vcm := False, cm_device_info := False\<rparr>"

definition GetNegotiatedCaptureSize :: "'d camera \<Rightarrow> (int \<times> int) option" where
  "GetNegotiatedCaptureSize c = (if 0 < cm_cap_w c \<and> 0 < cm_cap_h c then Some (cm_cap_w c, cm_cap_h c) else None)"

definition GetNegotiatedCaptureFramerate :: "'d camera \<Rightarrow> int option" where
  "GetNegotiatedCaptureFramerate c = (if cm_negotiated_fps c \<le> 0 then None else Some (cm_negotiated_fps c))"

section \<open>Choosing the format\<close>

definition IntervalRatioAtLeastFps :: "u32 \<Rightarrow> u32 \<Rightarrow> int \<Rightarrow> bool" where
  "IntervalRatioAtLeastFps num den min_fps =
     (if num = 0 \<or> min_fps \<le> 0 then False else uint den \<ge> min_fps * uint num)"

fun intervals_reach :: "int \<Rightarrow> frmival list \<Rightarrow> bool" where
  "intervals_reach min_fps [] = False"
| "intervals_reach min_fps (DISCRETE n d # is) = (if IntervalRatioAtLeastFps n d min_fps then True else intervals_reach min_fps is)"
| "intervals_reach min_fps (STEPWISE n d # is) = IntervalRatioAtLeastFps n d min_fps"
| "intervals_reach min_fps (FRMIVAL_OTHER # is) = False"

definition PixelFormatSupportsMinCaptureFps :: "'d camera_ops \<Rightarrow> 'd camera \<Rightarrow> pixel_format \<Rightarrow> int \<Rightarrow> int \<Rightarrow> int \<Rightarrow> bool" where
  "PixelFormatSupportsMinCaptureFps ops c pf w h min_fps =
     (if \<not> cm_direct_fd c \<or> w \<le> 0 \<or> h \<le> 0 \<or> min_fps \<le> 0 then False else intervals_reach min_fps (op_intervals ops pf w h))"

definition take_format :: "v4l2_pix \<Rightarrow> 'd camera \<Rightarrow> 'd camera" where
  "take_format q c = c\<lparr>cm_cap_w := sint (px_width q), cm_cap_h := sint (px_height q), cm_pixfmt := px_pixelformat q\<rparr>"

fun sfmt_attempts :: "'d camera_ops \<Rightarrow> nat \<Rightarrow> v4l2_pix \<Rightarrow> 'd camera \<Rightarrow> bool \<times> 'd camera" where
  "sfmt_attempts ops 0 p c = (False, c)"
| "sfmt_attempts ops (Suc n) p c =
     (case op_s_fmt ops p (cm_drv c) of
        (FMT_SET q, d) \<Rightarrow>
          let c1 = take_format q (c\<lparr>cm_drv := d\<rparr>) in (0 < cm_cap_w c1 \<and> 0 < cm_cap_h c1, c1)
      | (FMT_ERRNO, d) \<Rightarrow> (False, c\<lparr>cm_drv := d\<rparr>)
      | (FMT_EBUSY, d) \<Rightarrow> sfmt_attempts ops n p (c\<lparr>cm_drv := d\<rparr>))"

definition try_sfmt :: "'d camera_ops \<Rightarrow> pixel_format \<Rightarrow> int \<Rightarrow> int \<Rightarrow> 'd camera \<Rightarrow> bool \<times> 'd camera" where
  "try_sfmt ops pf w h =
     sfmt_attempts ops 12 \<lparr> px_width = word_of_int w, px_height = word_of_int h, px_pixelformat = pf, px_sizeimage = 0 \<rparr>"

definition try_sfmt_keep_size :: "'d camera_ops \<Rightarrow> pixel_format \<Rightarrow> 'd camera \<Rightarrow> bool \<times> 'd camera" where
  "try_sfmt_keep_size ops pf c =
     (case op_g_fmt ops (cm_drv c) of
        None \<Rightarrow> (False, c)
      | Some p \<Rightarrow> sfmt_attempts ops 12 (p\<lparr>px_pixelformat := pf, px_sizeimage := 0\<rparr>) c)"

definition try_sfmt_exact :: "'d camera_ops \<Rightarrow> pixel_format \<Rightarrow> int \<Rightarrow> int \<Rightarrow> 'd camera \<Rightarrow> bool \<times> 'd camera" where
  "try_sfmt_exact ops pf w h c =
     (case try_sfmt ops pf w h c of (ok, c1) \<Rightarrow> (ok \<and> cm_cap_w c1 = w \<and> cm_cap_h c1 = h, c1))"

definition or_else :: "('c \<Rightarrow> bool \<times> 'c) \<Rightarrow> ('c \<Rightarrow> bool \<times> 'c) \<Rightarrow> 'c \<Rightarrow> bool \<times> 'c" where
  "or_else f g c = (case f c of (True, c1) \<Rightarrow> (True, c1) | (False, c1) \<Rightarrow> g c1)"

definition by_preference :: "bool \<Rightarrow> (pixel_format \<Rightarrow> 'c \<Rightarrow> bool \<times> 'c) \<Rightarrow> 'c \<Rightarrow> bool \<times> 'c" where
  "by_preference mjpeg_first f = (if mjpeg_first then or_else (f PIX_MJPEG) (f PIX_YUYV) else or_else (f PIX_YUYV) (f PIX_MJPEG))"

text \<open>The device already has the size asked for: use its format or change only the pixel format.\<close>

definition reuse_size :: "'d camera_ops \<Rightarrow> bool \<Rightarrow> int \<Rightarrow> int \<Rightarrow> 'd camera \<Rightarrow> bool \<times> 'd camera" where
  "reuse_size ops mjpeg_first w h c =
     (case op_g_fmt ops (cm_drv c) of
        None \<Rightarrow> (False, c)
      | Some g \<Rightarrow>
          if sint (px_width g) = w \<and> sint (px_height g) = h then
            if px_pixelformat g = PIX_MJPEG \<or> px_pixelformat g = PIX_YUYV
            then (True, c\<lparr>cm_cap_w := w, cm_cap_h := h, cm_pixfmt := px_pixelformat g\<rparr>)
            else (case by_preference mjpeg_first (try_sfmt_keep_size ops) c of
                    (ok, c1) \<Rightarrow> (ok \<and> \<not> (cm_cap_w c1 \<noteq> w \<or> cm_cap_h c1 \<noteq> h), c1))
          else (False, c))"

definition accept_gfmt_if_usable :: "'d camera_ops \<Rightarrow> 'd camera \<Rightarrow> bool \<times> 'd camera" where
  "accept_gfmt_if_usable ops c =
     (case op_g_fmt ops (cm_drv c) of
        None \<Rightarrow> (False, c)
      | Some g \<Rightarrow>
          if px_pixelformat g \<noteq> PIX_MJPEG \<and> px_pixelformat g \<noteq> PIX_YUYV then (False, c)
          else if px_width g < 160 \<or> px_height g < 120 then (False, c)
          else (True, take_format g c))"

definition accept_exact :: "'d camera_ops \<Rightarrow> int \<Rightarrow> int \<Rightarrow> 'd camera \<Rightarrow> bool \<times> 'd camera" where
  "accept_exact ops w h c = (case accept_gfmt_if_usable ops c of (ok, c1) \<Rightarrow> (ok \<and> cm_cap_w c1 = w \<and> cm_cap_h c1 = h, c1))"

definition positive_fps :: "int \<Rightarrow> int" where
  "positive_fps fps = (if fps > 0 then fps else 30)"

definition choose_format :: "'d camera_ops \<Rightarrow> int \<Rightarrow> int \<Rightarrow> int \<Rightarrow> 'd camera \<Rightarrow> bool \<times> 'd camera" where
  "choose_format ops w h fps c =
     (let mjpeg_first = (\<not> PixelFormatSupportsMinCaptureFps ops c PIX_YUYV w h (max 30 (positive_fps fps)))
      in or_else (by_preference mjpeg_first (\<lambda>pf. try_sfmt_exact ops pf w h))
           (or_else (reuse_size ops mjpeg_first w h) (accept_exact ops w h)) c)"

section \<open>Buffers\<close>

definition camera_QBuf :: "'d camera_ops \<Rightarrow> nat \<Rightarrow> 'd camera \<Rightarrow> bool \<times> 'd camera" where
  "camera_QBuf ops i c =
     (if \<not> cm_direct_fd c then (False, c)
      else if cm_dmabuf_capture c \<and>
              (i \<ge> length (cm_expbuf_fd c) \<or> cm_expbuf_fd c ! i < 0 \<or> i \<ge> length (cm_mmap_len c)) then (False, c)
      else case op_qbuf ops (if cm_dmabuf_capture c then MEMORY_DMABUF else MEMORY_MMAP) i (cm_drv c) of
             (False, d) \<Rightarrow> (False, c\<lparr>cm_drv := d\<rparr>)
           | (True, d) \<Rightarrow> (True, c\<lparr>cm_drv := d, cm_queued := cm_queued c @ [i]\<rparr>))"

definition AllocateInputDmabuf :: "'d camera_ops \<Rightarrow> nat \<Rightarrow> 'd \<Rightarrow> (int \<times> nat) option \<times> 'd" where
  "AllocateInputDmabuf ops nbytes d =
     (if nbytes = 0 then (None, d)
      else case op_buffer_get ops nbytes d of
             (None, d1) \<Rightarrow> (None, d1)
           | (Some (ptr, fd, capacity), d1) \<Rightarrow> (if \<not> ptr \<or> fd < 0 \<or> capacity < nbytes then None else Some (fd, capacity), d1))"

fun dmabuf_fill :: "'d camera_ops \<Rightarrow> nat \<Rightarrow> nat list \<Rightarrow> 'd camera \<Rightarrow> bool \<times> 'd camera" where
  "dmabuf_fill ops capacity [] c = (True, c)"
| "dmabuf_fill ops capacity (i # is) c =
     (case AllocateInputDmabuf ops capacity (cm_drv c) of
        (None, d) \<Rightarrow> (False, c\<lparr>cm_drv := d\<rparr>)
      | (Some (fd, len), d) \<Rightarrow>
          (case camera_QBuf ops i (c\<lparr>cm_drv := d, cm_mmap := (cm_mmap c)[i := True], cm_mmap_len := (cm_mmap_len c)[i := len],
                   cm_expbuf_fd := (cm_expbuf_fd c)[i := fd], cm_input_buffers := (cm_input_buffers c)[i := True],
                   cm_held := add_mset (RInput i) (cm_held c)\<rparr>) of
             (False, c1) \<Rightarrow> (False, c1)
           | (True, c1) \<Rightarrow> dmabuf_fill ops capacity is c1))"

definition input_capacity :: "'d camera_ops \<Rightarrow> 'd camera \<Rightarrow> nat" where
  "input_capacity ops c =
     (let base = nat (cm_cap_w c) * nat (cm_cap_h c) * 2
      in case op_g_fmt ops (cm_drv c) of
           Some g \<Rightarrow> if px_sizeimage g > 0 then max base (px_sizeimage g) else base
         | None \<Rightarrow> base)"

definition dmabuf_undo :: "'d camera_ops \<Rightarrow> 'd camera \<Rightarrow> 'd camera" where
  "dmabuf_undo ops c =
     c\<lparr>cm_drv := snd (op_reqbufs ops MEMORY_DMABUF 0 (cm_drv c)), cm_queued := [],
       cm_held := cm_held c - image_mset RInput (mset (allocated c)),
       cm_input_buffers := [], cm_mmap := [], cm_mmap_len := [], cm_expbuf_fd := [], cm_dmabuf_capture := False\<rparr>"

definition dmabuf_buffers :: "'d camera_ops \<Rightarrow> 'd camera \<Rightarrow> 'd camera" where
  "dmabuf_buffers ops c =
     (case op_reqbufs ops MEMORY_DMABUF (nat (co_v4l2_buffer_count (cm_opts c))) (cm_drv c) of
        (Some n, d) \<Rightarrow>
          if n \<ge> 2 then
            (case dmabuf_fill ops (input_capacity ops c) [0..<n]
                    (c\<lparr>cm_drv := d, cm_mmap := replicate n False, cm_mmap_len := replicate n 0, cm_expbuf_fd := replicate n (- 1),
                       cm_input_buffers := replicate n False, cm_dmabuf_capture := True\<rparr>) of
               (True, c1) \<Rightarrow> c1
             | (False, c1) \<Rightarrow> dmabuf_undo ops c1)
          else dmabuf_undo ops (c\<lparr>cm_drv := d\<rparr>)
      | (None, d) \<Rightarrow> dmabuf_undo ops (c\<lparr>cm_drv := d\<rparr>))"

fun mmap_fill :: "'d camera_ops \<Rightarrow> nat list \<Rightarrow> 'd camera \<Rightarrow> bool \<times> 'd camera" where
  "mmap_fill ops [] c = (True, c)"
| "mmap_fill ops (i # is) c =
     (case op_querybuf ops i (cm_drv c) of
        None \<Rightarrow> (False, c)
      | Some len \<Rightarrow>
          if len = 0 \<or> \<not> op_mmap ops i (cm_drv c) then (False, c)
          else let c1 = c\<lparr>cm_mmap := (cm_mmap c)[i := True], cm_mmap_len := (cm_mmap_len c)[i := len],
                          cm_held := add_mset (RMapping i) (cm_held c)\<rparr>
               in case op_qbuf ops MEMORY_MMAP i (cm_drv c1) of
                    (False, d) \<Rightarrow> (False, c1\<lparr>cm_drv := d\<rparr>)
                  | (True, d) \<Rightarrow> mmap_fill ops is (c1\<lparr>cm_drv := d, cm_queued := cm_queued c1 @ [i]\<rparr>))"

definition expbuf_one :: "'d camera_ops \<Rightarrow> nat \<Rightarrow> 'd camera \<Rightarrow> 'd camera" where
  "expbuf_one ops i c =
     (case op_expbuf ops i (cm_drv c) of
        Some fd \<Rightarrow> if 0 \<le> fd then c\<lparr>cm_expbuf_fd := (cm_expbuf_fd c)[i := fd], cm_held := add_mset (RExport fd) (cm_held c)\<rparr> else c
      | None \<Rightarrow> c)"

definition mmap_buffers :: "'d camera_ops \<Rightarrow> bool \<Rightarrow> 'd camera \<Rightarrow> bool \<times> 'd camera" where
  "mmap_buffers ops use_rga c =
     (case op_reqbufs ops MEMORY_MMAP (nat (co_v4l2_buffer_count (cm_opts c))) (cm_drv c) of
        (Some n, d) \<Rightarrow>
          if n < 2 then (False, StopDirectV4l2 ops (c\<lparr>cm_drv := d\<rparr>))
          else (case mmap_fill ops [0..<n]
                       (c\<lparr>cm_drv := d, cm_mmap := replicate n False, cm_mmap_len := replicate n 0, cm_expbuf_fd := replicate n (- 1)\<rparr>) of
                  (False, c1) \<Rightarrow> (False, StopDirectV4l2 ops c1)
                | (True, c1) \<Rightarrow> (True, if use_rga then fold (expbuf_one ops) [0..<n] c1 else c1))
      | (None, d) \<Rightarrow> (False, StopDirectV4l2 ops (c\<lparr>cm_drv := d\<rparr>)))"

definition make_decoder :: "'d camera_ops \<Rightarrow> 'd camera \<Rightarrow> 'd camera" where
  "make_decoder ops c =
     (case op_dec_init ops (cm_drv c) of (ok, d) \<Rightarrow> c\<lparr>cm_drv := d, cm_mjpeg_mpp := ok\<rparr>)"

definition setup_buffers :: "'d camera_ops \<Rightarrow> env \<Rightarrow> bool \<Rightarrow> 'd camera \<Rightarrow> bool \<times> 'd camera" where
  "setup_buffers ops env have_rga c =
     (let zc = EvaluateMjpegZeroCopyPolicy env have_rga (co_v4l2_ext_dma_config (cm_opts c)) (co_mjpeg_rga_config (cm_opts c));
          c1 = (if cm_prefer_mpp c \<and> cm_pixfmt c = PIX_MJPEG \<and> zc_use_v4l2_ext_dmabuf zc
                then let c0 = make_decoder ops c in if cm_mjpeg_mpp c0 then dmabuf_buffers ops c0 else c0
                else c)
      in if cm_dmabuf_capture c1 then (True, c1) else mmap_buffers ops (zc_use_rga_to_mpp zc) c1)"

section \<open>Starting\<close>

fun open_attempts :: "'d camera_ops \<Rightarrow> string \<Rightarrow> nat \<Rightarrow> 'd camera \<Rightarrow> bool \<times> 'd camera" where
  "open_attempts ops dev 0 c = (False, c)"
| "open_attempts ops dev (Suc n) c =
     (case op_open ops dev (cm_drv c) of
        (OPENED, d) \<Rightarrow> (True, c\<lparr>cm_direct_fd := True, cm_drv := d, cm_held := add_mset RDevice (cm_held c)\<rparr>)
      | (OPEN_ERRNO, d) \<Rightarrow> (False, c\<lparr>cm_drv := d\<rparr>)
      | (OPEN_EBUSY, d) \<Rightarrow> open_attempts ops dev n (c\<lparr>cm_drv := d\<rparr>))"

definition request_fps :: "'d camera_ops \<Rightarrow> int \<Rightarrow> 'd camera \<Rightarrow> 'd camera" where
  "request_fps ops fps c =
     (case op_timeperframe ops (cm_drv c) of
        None \<Rightarrow> c
      | Some _ \<Rightarrow> c\<lparr>cm_drv := op_s_parm ops (1, word_of_int (positive_fps fps)) (cm_drv c)\<rparr>)"

definition actual_fps :: "'d camera_ops \<Rightarrow> int \<Rightarrow> 'd \<Rightarrow> int" where
  "actual_fps ops fps d =
     (case op_timeperframe ops d of
        None \<Rightarrow> positive_fps fps
      | Some (num, den) \<Rightarrow>
          if 0 < num \<and> 0 < den then
            let calc = sint (word_of_int ((uint den + uint num div 2) div uint num) :: u32)
            in if calc \<ge> 1 \<and> calc \<le> 480 then calc else positive_fps fps
          else positive_fps fps)"

definition start_threads :: "'d camera_ops \<Rightarrow> env \<Rightarrow> 'd camera \<Rightarrow> 'd camera" where
  "start_threads ops env c0 =
     (let c = c0\<lparr>cm_run := True\<rparr>;
          c1 = (if cm_prefer_mpp c \<and> cm_pixfmt c = PIX_MJPEG
                then let c2 = (if cm_mjpeg_mpp c then c else make_decoder ops c)
                     in if cm_mjpeg_mpp c2
                        then c2\<lparr>cm_dec_out_pool := co_v4l2_buffer_count (cm_opts c2) + int (co_mjpeg_queue_max (cm_opts c2))
                                  + ReadEnvIntInRange env ''RFLOW_MJPEG_DEC_OUT_POOL_SLACK'' 2 0 8\<rparr>
                        else c2
                else c)
      in c1\<lparr>cm_decode_thread := (cm_pixfmt c1 = PIX_MJPEG \<and> \<not> co_mjpeg_decode_inline (cm_opts c1)), cm_direct_thread := True\<rparr>)"

definition stream_on :: "'d camera_ops \<Rightarrow> env \<Rightarrow> int \<Rightarrow> 'd camera \<Rightarrow> bool \<times> 'd camera" where
  "stream_on ops env fps c =
     (case op_streamon ops (cm_drv c) of
        (False, d) \<Rightarrow> (False, StopDirectV4l2 ops (c\<lparr>cm_drv := d\<rparr>))
      | (True, d) \<Rightarrow> (True, start_threads ops env (c\<lparr>cm_drv := d, cm_negotiated_fps := actual_fps ops fps d\<rparr>)))"

definition StartDirectV4l2 :: "'d camera_ops \<Rightarrow> env \<Rightarrow> bool \<Rightarrow> string \<Rightarrow> int \<Rightarrow> int \<Rightarrow> int \<Rightarrow> 'd camera \<Rightarrow> bool \<times> 'd camera" where
  "StartDirectV4l2 ops env have_rga dev w h fps c0 =
     (case open_attempts ops dev 20 (StopDirectV4l2 ops c0) of
        (False, c1) \<Rightarrow> (False, c1)
      | (True, c1) \<Rightarrow>
          if op_querycap ops (cm_drv c1) \<noteq> Some True then (False, camera_close ops c1)
          else case choose_format ops w h fps c1 of
                 (False, c2) \<Rightarrow> (False, camera_close ops c2)
               | (True, c2) \<Rightarrow>
                   (case setup_buffers ops env have_rga (request_fps ops fps c2) of
                      (False, c3) \<Rightarrow> (False, c3)
                    | (True, c3) \<Rightarrow> stream_on ops env fps c3))"

definition start_vcm :: "'d camera_ops \<Rightarrow> string \<Rightarrow> int \<Rightarrow> 'd camera \<Rightarrow> bool \<times> 'd camera" where
  "start_vcm ops dev fps c =
     (if \<not> op_device_info ops then (False, c\<lparr>cm_device_info := False\<rparr>)
      else let c1 = c\<lparr>cm_device_info := True\<rparr>
           in if \<not> op_vcm_create ops dev then (False, c1\<lparr>cm_vcm := False\<rparr>)
              else let used = (case op_best_match ops dev of
                                 Some u \<Rightarrow> u
                               | None \<Rightarrow> (case op_capability0 ops dev of Some u \<Rightarrow> u | None \<Rightarrow> \<lparr> vc_max_fps = fps \<rparr>))
                   in if \<not> op_start_capture ops used then (False, c1\<lparr>cm_vcm := False\<rparr>)
                      else (True, c1\<lparr>cm_vcm := True,
                              cm_negotiated_fps := (if vc_max_fps used > 0 then vc_max_fps used else positive_fps fps)\<rparr>))"

definition camera_Start ::
  "'d camera_ops \<Rightarrow> env \<Rightarrow> bool \<Rightarrow> string \<Rightarrow> int \<Rightarrow> int \<Rightarrow> int \<Rightarrow> bool \<Rightarrow> V4l2MjpegPipelineOptions option \<Rightarrow> 'd camera \<Rightarrow> bool \<times> 'd camera" where
  "camera_Start ops env have_rga dev w h fps prefer_mpp p c0 =
     (let c = (camera_Stop ops c0)\<lparr>cm_requested_fps := positive_fps fps, cm_prefer_mpp := prefer_mpp,
                                   cm_opts := ApplyMjpegPipelineOptions env p\<rparr>
      in if dev = [] then (False, c)
         else if take 10 dev = kPrefix then StartDirectV4l2 ops env have_rga dev w h fps c
         else start_vcm ops dev fps c)"

text \<open>The state in which the threads of a started camera begin.\<close>

definition capture_of :: "'d camera \<Rightarrow> CaptureState" where
  "capture_of c = capture_begin (cm_opts c) (cm_pixfmt c) (cm_mjpeg_mpp c) (cm_cap_w c) (cm_cap_h c) (cm_requested_fps c)
     (length (cm_mmap c))"

section \<open>Adapting frames to the sinks\<close>

text \<open>
  \<^verbatim>\<open>ApplySinkAdaptation\<close> and the two scalings. WebRTC's \<^verbatim>\<open>AdaptFrame\<close> and \<^verbatim>\<open>CropAndScale\<close> are arguments. The floating-point
  guess of \<^verbatim>\<open>ClampAdaptOutputToMinPixels\<close> is computed exactly: the height is the integer root of the pixels over the
  aspect ratio and the width follows from it.
\<close>

function isqrt :: "nat \<Rightarrow> nat" where
  "isqrt n = (if n = 0 then 0 else let r = 2 * isqrt (n div 4) in if (r + 1) * (r + 1) \<le> n then r + 1 else r)"
  by auto
termination by (relation "measure id") auto

declare isqrt.simps [simp del]

definition AlignDown16 :: "int \<Rightarrow> int" where
  "AlignDown16 v = max 16 (v div 16 * 16)"

definition AdaptMinPixelsFloor :: "env \<Rightarrow> int" where
  "AdaptMinPixelsFloor env = ReadEnvIntInRange env ''RFLOW_ADAPT_MIN_PIXELS'' (640 * 360) (320 * 180) (1280 * 720)"

function grow_to_floor :: "int \<Rightarrow> int \<Rightarrow> int \<Rightarrow> int \<times> int" where
  "grow_to_floor min_pixels w h =
     (if w > 16 \<and> h > 16 \<and> w * h < min_pixels
      then if w \<le> h then grow_to_floor min_pixels (w + 16) h else grow_to_floor min_pixels w (h + 16)
      else (w, h))"
  by auto
termination
  by (relation "measure (\<lambda>(m, w, h). nat (m - w * h))") (auto simp: algebra_simps)

declare grow_to_floor.simps [simp del]

definition ClampAdaptOutputToMinPixels :: "env \<Rightarrow> int \<Rightarrow> int \<Rightarrow> int \<times> int \<Rightarrow> int \<times> int" where
  "ClampAdaptOutputToMinPixels env crop_w crop_h out =
     (if crop_w \<le> 0 \<or> crop_h \<le> 0 then out
      else let min_pixels = AdaptMinPixelsFloor env
           in if fst out * snd out \<ge> min_pixels then out
              else let h = int (isqrt (nat (min_pixels * crop_h div crop_w)));
                       w = h * crop_w div crop_h
                   in grow_to_floor min_pixels (AlignDown16 w) (AlignDown16 h))"

record adapt_answer =
  ad_out :: "int \<times> int"
  ad_crop :: "int \<times> int"
  ad_crop_at :: "int \<times> int"

text \<open>The size of the frame that is passed on, or none when the frame is dropped.\<close>

definition ApplySinkAdaptation :: "env \<Rightarrow> adapt_answer option \<Rightarrow> bool \<Rightarrow> int \<times> int \<Rightarrow> (int \<times> int) option" where
  "ApplySinkAdaptation env answer scaled frame =
     (case answer of
        None \<Rightarrow> None
      | Some a \<Rightarrow>
          let out = ClampAdaptOutputToMinPixels env (fst (ad_crop a)) (snd (ad_crop a)) (ad_out a)
          in if out = frame \<and> ad_crop a = frame \<and> ad_crop_at a = (0, 0) then Some frame
             else if \<not> scaled then None else Some out)"

text \<open>The frame counter is an unsigned of 32 bits that only counts while the scaling is switched on.\<close>

definition MaybeForceDebugCaptureScale :: "env \<Rightarrow> bool \<Rightarrow> u32 \<Rightarrow> int \<times> int \<Rightarrow> (int \<times> int) \<times> u32" where
  "MaybeForceDebugCaptureScale env scaled capture_n frame =
     (let dst_w = ReadEnvIntInRange env ''RFLOW_DEBUG_FORCE_CAPTURE_SCALE_W'' 0 0 4096;
          dst_h = ReadEnvIntInRange env ''RFLOW_DEBUG_FORCE_CAPTURE_SCALE_H'' 0 0 4096;
          after_n = (word_of_int (ReadEnvIntInRange env ''RFLOW_DEBUG_FORCE_CAPTURE_SCALE_AFTER_N'' 0 0 1000000) :: u32)
      in if dst_w < 2 \<or> dst_h < 2 then (frame, capture_n)
         else let n = capture_n + 1
              in if after_n > 0 \<and> n \<le> after_n then (frame, n)
                 else if frame = (dst_w, dst_h) then (frame, n)
                 else if \<not> scaled then (frame, n) else ((dst_w, dst_h), n))"

definition OnFrame_dispatch :: "env \<Rightarrow> adapt_answer option \<Rightarrow> bool \<Rightarrow> bool \<Rightarrow> u32 \<Rightarrow> int \<times> int \<Rightarrow> (int \<times> int) option \<times> u32" where
  "OnFrame_dispatch env answer scaled debug_scaled capture_n frame =
     (case ApplySinkAdaptation env answer scaled frame of
        None \<Rightarrow> (None, capture_n)
      | Some out \<Rightarrow> (case MaybeForceDebugCaptureScale env debug_scaled capture_n out of (out', n) \<Rightarrow> (Some out', n)))"

section \<open>What the camera reports\<close>

record PipelineHealthSnapshot = CapturePipelineHealthInput +
  hs_v4l2_capture :: u64
  hs_dispatched :: u64

definition GetPipelineHealthSnapshot :: "CaptureState \<Rightarrow> PipelineHealthSnapshot" where
  "GetPipelineHealthSnapshot s =
     \<lparr> hi_mjpeg_queue_depth = length (cv_queue s), hi_mjpeg_stale_drops = cv_mjpeg_stale_drop_count s,
       hi_mjpeg_queue_full_drops = cv_mjpeg_queue_full_drop_count s, hi_mjpeg_latest_only_drops = cv_mjpeg_latest_only_drop_count s,
       hi_empty_payload_drops = cv_empty_capture_drop_count s, hi_convert_fail_drops = cv_convert_fail_drop_count s,
       hi_nv12_pool_busy = np_busy_count (cv_pool s), hs_v4l2_capture = cv_v4l2_capture_count s,
       hs_dispatched = ucast (cv_captured_frames s) \<rparr>"

text \<open>The detail is built in a buffer of 192 bytes.\<close>

definition MaybeLogMjpegQueueDropStats :: "nat \<Rightarrow> u64 \<Rightarrow> u64 \<Rightarrow> u64 \<Rightarrow> CaptureState \<Rightarrow> string option" where
  "MaybeLogMjpegQueueDropStats queue_depth stale_delta queue_full_delta latest_only_delta s =
     (let drop_delta = stale_delta + queue_full_delta + latest_only_delta
      in if drop_delta = 0 then None
         else let stale = cv_mjpeg_stale_drop_count s; queue_full = cv_mjpeg_queue_full_drop_count s;
                  latest_only = cv_mjpeg_latest_only_drop_count s;
                  detail = take 191 (''qdepth='' @ to_string (int queue_depth) @ '' | totals[stale='' @ show_u64 stale
                    @ '' queue_full='' @ show_u64 queue_full @ '' latest_only='' @ show_u64 latest_only
                    @ ''] | window[stale='' @ show_u64 stale_delta @ '' queue_full='' @ show_u64 queue_full_delta
                    @ '' latest_only='' @ show_u64 latest_only_delta @ '']'')
              in LogDrop (Some ''Capture/MJPEG_QUEUE'') drop_delta (stale + queue_full + latest_only) (Some detail) (cv_drop_stats s))"

section \<open>What each phase changes\<close>

text \<open>Choosing a format changes the format fields and the driver; filling buffers changes the buffer fields.\<close>

definition fmt_frame :: "'d camera \<Rightarrow> 'd camera \<Rightarrow> bool" where
  "fmt_frame c c' \<longleftrightarrow> c' = c\<lparr>cm_drv := cm_drv c', cm_cap_w := cm_cap_w c', cm_cap_h := cm_cap_h c', cm_pixfmt := cm_pixfmt c'\<rparr>"

lemma fmt_frame_refl: "fmt_frame c c" and fmt_frame_drv: "fmt_frame c (c\<lparr>cm_drv := d\<rparr>)"
  and fmt_frame_take: "fmt_frame c (take_format q (c\<lparr>cm_drv := d\<rparr>))" and fmt_frame_take': "fmt_frame c (take_format q c)"
  and fmt_frame_set: "fmt_frame c (c\<lparr>cm_cap_w := w, cm_cap_h := h, cm_pixfmt := pf\<rparr>)"
  by (simp_all add: fmt_frame_def take_format_def)

lemma fmt_frame_trans: "fmt_frame a b \<Longrightarrow> fmt_frame b c \<Longrightarrow> fmt_frame a c"
  unfolding fmt_frame_def by (cases a; cases b; cases c) simp

lemma sfmt_frame: "sfmt_attempts ops n p c = (ok, c') \<Longrightarrow> fmt_frame c c'"
proof (induction ops n p c rule: sfmt_attempts.induct)
  case (2 ops n p c)
  then show ?case
    by (auto simp: Let_def split: prod.splits sfmt_result.splits intro: fmt_frame_take fmt_frame_drv fmt_frame_trans [OF fmt_frame_drv])
qed (simp add: fmt_frame_refl)

lemma or_else_elim:
  assumes "or_else f g c = (ok, c')"
  obtains "ok" "f c = (True, c')" | c1 where "f c = (False, c1)" "g c1 = (ok, c')"
  using assms by (auto simp: or_else_def split: prod.splits bool.splits)

lemma or_else_frame:
  assumes "or_else f g c = (ok, c')" and "\<And>c ok c'. f c = (ok, c') \<Longrightarrow> fmt_frame c c'"
    and "\<And>c ok c'. g c = (ok, c') \<Longrightarrow> fmt_frame c c'"
  shows "fmt_frame c c'"
  using assms(1) by (rule or_else_elim) (use assms(2,3) fmt_frame_trans in blast)+

lemma preference_frame:
  assumes "by_preference first f c = (ok, c')" and "\<And>pf c ok c'. f pf c = (ok, c') \<Longrightarrow> fmt_frame c c'"
  shows "fmt_frame c c'"
  using assms by (auto simp: by_preference_def split: if_splits elim: or_else_frame)

lemma keep_size_frame: "try_sfmt_keep_size ops pf c = (ok, c') \<Longrightarrow> fmt_frame c c'"
  by (auto simp: try_sfmt_keep_size_def split: option.splits intro: fmt_frame_refl sfmt_frame)

lemma exact_frame: "try_sfmt_exact ops pf w h c = (ok, c') \<Longrightarrow> fmt_frame c c'"
  by (auto simp: try_sfmt_exact_def try_sfmt_def split: prod.splits dest: sfmt_frame)

lemma reuse_frame: "reuse_size ops first w h c = (ok, c') \<Longrightarrow> fmt_frame c c'"
  by (auto simp: reuse_size_def split: option.splits if_splits prod.splits intro: fmt_frame_refl fmt_frame_set
      elim!: preference_frame keep_size_frame)

lemma accept_frame: "accept_exact ops w h c = (ok, c') \<Longrightarrow> fmt_frame c c'"
  by (auto simp: accept_exact_def accept_gfmt_if_usable_def split: option.splits if_splits prod.splits
      intro: fmt_frame_refl fmt_frame_take')

lemma choose_frame:
  assumes "choose_format ops w h fps c = (ok, c')"
  shows "fmt_frame c c'"
  using assms unfolding choose_format_def Let_def
  by (elim or_else_frame preference_frame exact_frame reuse_frame accept_frame)

text \<open>Whatever path the choice takes, it succeeds only with the size that was asked for.\<close>

lemma exact_size: "try_sfmt_exact ops pf w h c = (True, c') \<Longrightarrow> cm_cap_w c' = w \<and> cm_cap_h c' = h"
  by (auto simp: try_sfmt_exact_def split: prod.splits)

lemma preference_size:
  assumes "by_preference first (\<lambda>pf. try_sfmt_exact ops pf w h) c = (True, c')"
  shows "cm_cap_w c' = w \<and> cm_cap_h c' = h"
  using assms by (auto simp: by_preference_def split: if_splits elim!: or_else_elim dest: exact_size)

lemma choose_size:
  assumes "choose_format ops w h fps c = (True, c')"
  shows "cm_cap_w c' = w \<and> cm_cap_h c' = h"
  using assms unfolding choose_format_def Let_def
  by (elim or_else_elim)
     (auto dest: preference_size simp: reuse_size_def accept_exact_def split: option.splits if_splits prod.splits)

section \<open>The ledger\<close>

definition camera_resources :: "'d camera \<Rightarrow> resource multiset" where
  "camera_resources c =
     (if cm_direct_fd c then {#RDevice#} else {#}) +
     (if cm_dmabuf_capture c then image_mset RInput (mset (allocated c))
      else image_mset RMapping (mset (mapped c)) + image_mset RExport (exported c))"

definition camera_ok :: "'d camera \<Rightarrow> bool" where
  "camera_ok c \<longleftrightarrow>
     cm_held c = camera_resources c \<and> (cm_dmabuf_capture c \<longrightarrow> cm_mjpeg_mpp c) \<and> length (cm_mmap_len c) = length (cm_mmap c) \<and>
     (cm_run c \<longrightarrow> cm_direct_fd c) \<and> (\<not> cm_direct_fd c \<longrightarrow> cm_queued c = [])"

text \<open>Nothing is held and nothing is running.\<close>

definition camera_idle :: "'d camera \<Rightarrow> bool" where
  "camera_idle c \<longleftrightarrow>
     cm_held c = {#} \<and> \<not> cm_direct_fd c \<and> \<not> cm_run c \<and> \<not> cm_direct_thread c \<and> \<not> cm_decode_thread c \<and> cm_mmap c = [] \<and>
     cm_mmap_len c = [] \<and> cm_expbuf_fd c = [] \<and> cm_input_buffers c = [] \<and> \<not> cm_dmabuf_capture c \<and> cm_queued c = []"

lemma idle_ok: "camera_idle c \<Longrightarrow> camera_ok c"
  by (simp add: camera_idle_def camera_ok_def camera_resources_def mapped_def exported_def)

lemma StopDirectV4l2_idle:
  assumes "camera_ok c"
  shows "camera_idle (StopDirectV4l2 ops c)"
  using assms
  by (simp add: camera_ok_def camera_resources_def camera_idle_def StopDirectV4l2_def release_buffers_def camera_close_def Let_def
      mapped_def allocated_def exported_def)

lemma filter_gain:
  assumes "i < n" and "\<not> P i" and "Q i" and "\<And>j. j < n \<Longrightarrow> j \<noteq> i \<Longrightarrow> Q j = P j"
  shows "mset (filter Q [0..<n]) = add_mset i (mset (filter P [0..<n]))"
proof -
  have m: "mset (filter R [0..<n]) = mset_set {j. j < n \<and> R j}" for R
    by (subst mset_set_set [symmetric]) (auto intro: arg_cong [where f = mset_set])
  have "{j. j < n \<and> Q j} = insert i {j. j < n \<and> P j}" using assms by blast
  then show ?thesis unfolding m using assms(2) by simp
qed

definition buf_frame :: "'d camera \<Rightarrow> 'd camera \<Rightarrow> bool" where
  "buf_frame c c' \<longleftrightarrow>
     c' = c\<lparr>cm_drv := cm_drv c', cm_mmap := cm_mmap c', cm_mmap_len := cm_mmap_len c', cm_expbuf_fd := cm_expbuf_fd c',
            cm_input_buffers := cm_input_buffers c', cm_held := cm_held c', cm_queued := cm_queued c'\<rparr>"

lemma buf_frame_refl: "buf_frame c c"
  by (simp add: buf_frame_def)

lemma buf_frame_trans: "buf_frame a b \<Longrightarrow> buf_frame b c \<Longrightarrow> buf_frame a c"
  unfolding buf_frame_def by (cases a; cases b; cases c) simp

lemma buf_frame_same:
  assumes "buf_frame c c'"
  shows "cm_direct_fd c' = cm_direct_fd c" and "cm_dmabuf_capture c' = cm_dmabuf_capture c" and "cm_mjpeg_mpp c' = cm_mjpeg_mpp c"
    and "cm_run c' = cm_run c" and "cm_opts c' = cm_opts c" and "cm_cap_w c' = cm_cap_w c" and "cm_cap_h c' = cm_cap_h c"
    and "cm_direct_thread c' = cm_direct_thread c" and "cm_decode_thread c' = cm_decode_thread c"
  by (subst assms [unfolded buf_frame_def], simp)+

text \<open>
  A filling loop over the buffers \<open>is\<close>, none of them filled before: the ledger stays balanced, and when the loop ends
  well every buffer is mapped and was accepted by the kernel, in order.
\<close>

definition filled :: "nat list \<Rightarrow> bool \<Rightarrow> 'd camera \<Rightarrow> 'd camera \<Rightarrow> bool" where
  "filled is ok c c' \<longleftrightarrow>
     buf_frame c c' \<and> camera_ok c' \<and> length (cm_mmap c') = length (cm_mmap c) \<and>
     (\<forall>j. j < length (cm_mmap c) \<longrightarrow> cm_mmap c ! j \<longrightarrow> cm_mmap c' ! j) \<and>
     (ok \<longrightarrow> cm_queued c' = cm_queued c @ is \<and> (\<forall>i \<in> set is. cm_mmap c' ! i))"

lemma filled_Nil: "camera_ok c \<Longrightarrow> filled [] ok c c"
  by (simp add: filled_def buf_frame_refl)

lemma filled_Cons:
  assumes "filled is ok c1 c'" and "buf_frame c c1" and "i < length (cm_mmap c)" and "cm_mmap c1 = (cm_mmap c)[i := True]"
    and "cm_queued c1 = cm_queued c @ [i]"
  shows "filled (i # is) ok c c'"
  using assms buf_frame_trans [OF assms(2)] by (auto simp: filled_def nth_list_update)

lemma update_True: "j < length xs \<Longrightarrow> xs ! j \<Longrightarrow> xs[i := True] ! j"
  by (cases "i = j") simp_all

lemma filled_stop:
  assumes "camera_ok c'" and "buf_frame c c'" and "cm_mmap c' = cm_mmap c \<or> cm_mmap c' = (cm_mmap c)[i := True]"
  shows "filled is False c c'"
  using assms by (auto simp: filled_def update_True)

lemma mmap_fill_filled:
  assumes "mmap_fill ops is c = (ok, c')" and "camera_ok c" and "\<not> cm_dmabuf_capture c" and "distinct is"
    and "\<And>i. i \<in> set is \<Longrightarrow> i < length (cm_mmap c) \<and> \<not> cm_mmap c ! i" and "cm_direct_fd c"
  shows "filled is ok c c'"
  using assms
proof (induction "is" arbitrary: c)
  case Nil
  then show ?case by (simp add: filled_Nil)
next
  case 2: (Cons i "is")
  have i: "i < length (cm_mmap c)" "\<not> cm_mmap c ! i" using 2(6) by simp_all
  show ?case
  proof (cases "\<exists>len > 0. op_querybuf ops i (cm_drv c) = Some len \<and> op_mmap ops i (cm_drv c)")
    case False
    then have "ok = False \<and> c' = c" using 2(2) by (auto split: option.splits if_splits)
    then show ?thesis using filled_stop [of c c] 2(3) by (simp add: buf_frame_refl)
  next
    case True
    then obtain len where len: "0 < len" "op_querybuf ops i (cm_drv c) = Some len" "op_mmap ops i (cm_drv c)" by blast
    let ?c = "c\<lparr>cm_mmap := (cm_mmap c)[i := True], cm_mmap_len := (cm_mmap_len c)[i := len],
                cm_held := add_mset (RMapping i) (cm_held c)\<rparr>"
    have l: "length (cm_mmap_len c) = length (cm_mmap c)" using 2(3) by (simp add: camera_ok_def)
    have "mset (mapped ?c) = add_mset i (mset (mapped c))"
      using i len(1) l filter_gain [of i "length (cm_mmap c)" "\<lambda>j. cm_mmap c ! j \<and> 0 < cm_mmap_len c ! j"
          "\<lambda>j. (cm_mmap c)[i := True] ! j \<and> 0 < (cm_mmap_len c)[i := len] ! j"]
      by (simp add: mapped_def)
    then have ok1: "camera_ok (?c\<lparr>cm_drv := d, cm_queued := q\<rparr>)" for d q
      using 2(3,4,7) by (simp add: camera_ok_def camera_resources_def mapped_def exported_def)
    obtain b d where q: "op_qbuf ops MEMORY_MMAP i (cm_drv c) = (b, d)" by (cases "op_qbuf ops MEMORY_MMAP i (cm_drv c)")
    show ?thesis
    proof (cases b)
      case False
      then have r: "ok = False" "c' = ?c\<lparr>cm_drv := d\<rparr>" using 2(2) len q by (simp_all add: Let_def)
      have "camera_ok (?c\<lparr>cm_drv := d\<rparr>)" using ok1 [where d = d and q = "cm_queued c"] by simp
      then show ?thesis unfolding r by (rule filled_stop [where i = i]) (simp_all add: buf_frame_def)
    next
      case True
      let ?n = "?c\<lparr>cm_drv := d, cm_queued := cm_queued ?c @ [i]\<rparr>"
      have rest: "mmap_fill ops is ?n = (ok, c')" using 2(2) len q True by (simp add: Let_def)
      have "filled is ok ?n c'"
        using ok1 2(4,5,6,7) by (intro 2(1) [OF rest]) (auto simp: nth_list_update)
      then show ?thesis by (rule filled_Cons) (use i(1) in \<open>simp_all add: buf_frame_def\<close>)
    qed
  qed
qed

lemma camera_QBuf_result:
  assumes "camera_QBuf ops i c = (b, c1)"
  shows "\<exists>e. c1 = c\<lparr>cm_drv := e, cm_queued := (if b then cm_queued c @ [i] else cm_queued c)\<rparr>"
proof -
  have same: "\<exists>e. c = c\<lparr>cm_drv := e, cm_queued := cm_queued c\<rparr>" by (rule exI [of _ "cm_drv c"]) simp
  show ?thesis
  proof (cases "\<not> cm_direct_fd c \<or> cm_dmabuf_capture c \<and> (i \<ge> length (cm_expbuf_fd c) \<or> cm_expbuf_fd c ! i < 0 \<or> i \<ge> length (cm_mmap_len c))")
    case True
    then have "camera_QBuf ops i c = (False, c)" unfolding camera_QBuf_def by (cases "cm_direct_fd c") simp_all
    then show ?thesis using assms same by simp
  next
    case False
    obtain b' d where q: "op_qbuf ops (if cm_dmabuf_capture c then MEMORY_DMABUF else MEMORY_MMAP) i (cm_drv c) = (b', d)"
      by (meson surj_pair)
    have "camera_QBuf ops i c = (b', c\<lparr>cm_drv := d, cm_queued := (if b' then cm_queued c @ [i] else cm_queued c)\<rparr>)"
      using False q unfolding camera_QBuf_def by (cases b') auto
    then show ?thesis using assms by auto
  qed
qed

lemma dmabuf_fill_filled:
  assumes "dmabuf_fill ops cap is c = (ok, c')" and "camera_ok c" and "cm_dmabuf_capture c" and "distinct is"
    and "length (cm_input_buffers c) = length (cm_mmap c)" and "length (cm_expbuf_fd c) = length (cm_mmap c)"
    and "\<And>i. i \<in> set is \<Longrightarrow> i < length (cm_mmap c) \<and> \<not> cm_input_buffers c ! i" and "cm_direct_fd c"
  shows "filled is ok c c'"
  using assms
proof (induction "is" arbitrary: c)
  case Nil
  then show ?case by (simp add: filled_Nil)
next
  case 2: (Cons i "is")
  have i: "i < length (cm_mmap c)" "\<not> cm_input_buffers c ! i" using 2(8) by simp_all
  show ?case
  proof (cases "fst (AllocateInputDmabuf ops cap (cm_drv c))")
    case None
    then obtain d where r: "ok = False" "c' = c\<lparr>cm_drv := d\<rparr>" using 2(2) by (auto split: prod.splits)
    have "camera_ok (c\<lparr>cm_drv := d\<rparr>)" using 2(3) by (simp add: camera_ok_def camera_resources_def allocated_def mapped_def exported_def)
    then show ?thesis unfolding r by (rule filled_stop) (simp_all add: buf_frame_def)
  next
    case (Some r)
    then obtain fd len d where a: "AllocateInputDmabuf ops cap (cm_drv c) = (Some (fd, len), d)" by (metis prod.collapse)
    let ?c = "c\<lparr>cm_drv := d, cm_mmap := (cm_mmap c)[i := True], cm_mmap_len := (cm_mmap_len c)[i := len],
                cm_expbuf_fd := (cm_expbuf_fd c)[i := fd], cm_input_buffers := (cm_input_buffers c)[i := True],
                cm_held := add_mset (RInput i) (cm_held c)\<rparr>"
    have "mset (allocated ?c) = add_mset i (mset (allocated c))"
      using i 2(6) filter_gain [of i "length (cm_mmap c)" "\<lambda>j. cm_input_buffers c ! j" "\<lambda>j. (cm_input_buffers c)[i := True] ! j"]
      by (simp add: allocated_def)
    then have ok1: "camera_ok (?c\<lparr>cm_drv := e, cm_queued := q\<rparr>)" for e q
      using 2(3,4,9) by (simp add: camera_ok_def camera_resources_def allocated_def)
    obtain b c1 where q: "camera_QBuf ops i ?c = (b, c1)" by (cases "camera_QBuf ops i ?c")
    obtain e where "c1 = ?c\<lparr>cm_drv := e, cm_queued := (if b then cm_queued ?c @ [i] else cm_queued ?c)\<rparr>"
      using camera_QBuf_result [OF q] by blast
    then have c1: "c1 = ?c\<lparr>cm_drv := e, cm_queued := (if b then cm_queued c @ [i] else cm_queued c)\<rparr>" by (cases b) simp_all
    have okc: "camera_ok c1" and fr: "buf_frame c c1" unfolding c1 using ok1 by (simp_all add: buf_frame_def)
    show ?thesis
    proof (cases b)
      case False
      then have r: "ok = False" "c' = c1" using 2(2) a q by simp_all
      show ?thesis unfolding r using okc fr by (rule filled_stop [where i = i]) (simp add: c1)
    next
      case True
      have rest: "dmabuf_fill ops cap is c1 = (ok, c')" using 2(2) a q True by simp
      have "filled is ok c1 c'"
        using okc 2(4-9) by (intro 2(1) [OF rest]) (auto simp: c1 nth_list_update)
      then show ?thesis using fr i(1) by (rule filled_Cons) (simp_all add: c1 True)
    qed
  qed
qed

section \<open>Starting, phase by phase\<close>

text \<open>An opened device without buffers, and one whose buffers are all mapped and queued.\<close>

definition opened :: "'d camera \<Rightarrow> bool" where
  "opened c \<longleftrightarrow>
     camera_ok c \<and> cm_direct_fd c \<and> \<not> cm_run c \<and> \<not> cm_dmabuf_capture c \<and> cm_mmap c = [] \<and> cm_mmap_len c = [] \<and>
     cm_expbuf_fd c = [] \<and> cm_input_buffers c = [] \<and> cm_queued c = [] \<and> \<not> cm_direct_thread c \<and> \<not> cm_decode_thread c"

definition buffers_ready :: "'d camera \<Rightarrow> bool" where
  "buffers_ready c \<longleftrightarrow>
     camera_ok c \<and> cm_direct_fd c \<and> 2 \<le> length (cm_mmap c) \<and> list_all id (cm_mmap c) \<and> cm_queued c = [0..<length (cm_mmap c)]"

definition keeps :: "'d camera \<Rightarrow> 'd camera \<Rightarrow> bool" where
  "keeps c c' \<longleftrightarrow>
     cm_cap_w c' = cm_cap_w c \<and> cm_cap_h c' = cm_cap_h c \<and> cm_pixfmt c' = cm_pixfmt c \<and> cm_opts c' = cm_opts c \<and>
     cm_requested_fps c' = cm_requested_fps c \<and> cm_prefer_mpp c' = cm_prefer_mpp c"

lemma keeps_trans: "keeps a b \<Longrightarrow> keeps b c \<Longrightarrow> keeps a c"
  by (simp add: keeps_def)

lemma buf_frame_keeps: "buf_frame c c' \<Longrightarrow> keeps c c'"
  unfolding buf_frame_def keeps_def by (cases c; cases c') simp

lemma opened_fmt:
  assumes "opened c" and "fmt_frame c c'"
  shows "opened c'"
  using assms(1) by (subst assms(2) [unfolded fmt_frame_def])
    (simp add: opened_def camera_ok_def camera_resources_def mapped_def exported_def)

lemma opened_upd:
  "opened c \<Longrightarrow> opened (c\<lparr>cm_drv := d\<rparr>)" "opened c \<Longrightarrow> opened (request_fps ops fps c)" "opened c \<Longrightarrow> opened (make_decoder ops c)"
  by (simp_all add: opened_def camera_ok_def camera_resources_def mapped_def exported_def request_fps_def make_decoder_def
      split: option.split prod.split)

lemma opened_close: "opened c \<Longrightarrow> camera_idle (camera_close ops c)"
  by (simp add: opened_def camera_ok_def camera_resources_def camera_idle_def camera_close_def mapped_def exported_def)

lemma filled_all:
  assumes "filled [0..<n] True c c'" and "length (cm_mmap c) = n" and "cm_queued c = []" and "2 \<le> n" and "cm_direct_fd c"
  shows "buffers_ready c'"
  using assms buf_frame_same(1) [of c c'] by (auto simp: filled_def buffers_ready_def list_all_length)

lemma dmabuf_undo_opened:
  assumes "camera_ok c" and "cm_direct_fd c" and "\<not> cm_run c" and "\<not> cm_direct_thread c" and "\<not> cm_decode_thread c"
    and "cm_dmabuf_capture c \<or> opened c"
  shows "opened (dmabuf_undo ops c)"
  using assms
  by (auto simp: opened_def camera_ok_def camera_resources_def dmabuf_undo_def mapped_def allocated_def exported_def)

lemma dmabuf_buffers_result:
  assumes o: "opened c" and mpp: "cm_mjpeg_mpp c"
  shows "keeps c (dmabuf_buffers ops c) \<and>
    (if cm_dmabuf_capture (dmabuf_buffers ops c) then buffers_ready (dmabuf_buffers ops c) \<and> \<not> cm_run (dmabuf_buffers ops c)
     else opened (dmabuf_buffers ops c))"
proof -
  have undo: "keeps c (dmabuf_undo ops (c\<lparr>cm_drv := d\<rparr>)) \<and> opened (dmabuf_undo ops (c\<lparr>cm_drv := d\<rparr>)) \<and>
      \<not> cm_dmabuf_capture (dmabuf_undo ops (c\<lparr>cm_drv := d\<rparr>))" for d
    using opened_upd(1) [OF o, of d] dmabuf_undo_opened [of "c\<lparr>cm_drv := d\<rparr>" ops]
    by (simp add: opened_def) (simp add: keeps_def dmabuf_undo_def)
  obtain r d where q: "op_reqbufs ops MEMORY_DMABUF (nat (co_v4l2_buffer_count (cm_opts c))) (cm_drv c) = (r, d)"
    by (meson surj_pair)
  show ?thesis
  proof (cases "\<exists>n \<ge> 2. r = Some n")
    case False
    then have "dmabuf_buffers ops c = dmabuf_undo ops (c\<lparr>cm_drv := d\<rparr>)"
      by (auto simp: dmabuf_buffers_def q split: option.split)
    then show ?thesis using undo by simp
  next
    case True
    then obtain n where n: "2 \<le> n" "r = Some n" by blast
    let ?c = "c\<lparr>cm_drv := d, cm_mmap := replicate n False, cm_mmap_len := replicate n 0, cm_expbuf_fd := replicate n (- 1),
                cm_input_buffers := replicate n False, cm_dmabuf_capture := True\<rparr>"
    obtain ok c1 where f: "dmabuf_fill ops (input_capacity ops c) [0..<n] ?c = (ok, c1)" by (meson surj_pair)
    have "camera_ok ?c"
      using o mpp by (simp add: opened_def camera_ok_def camera_resources_def allocated_def mapped_def exported_def cong: filter_cong)
    then have fl: "filled [0..<n] ok ?c c1" using o by (intro dmabuf_fill_filled [OF f]) (simp_all add: opened_def)
    then have fr: "buf_frame ?c c1" by (simp add: filled_def)
    note same = buf_frame_same [OF fr]
    have k: "keeps c c1" using buf_frame_keeps [OF fr] by (simp add: keeps_def)
    have r: "dmabuf_buffers ops c = (if ok then c1 else dmabuf_undo ops c1)"
      using n f by (simp add: dmabuf_buffers_def q)
    show ?thesis
    proof (cases ok)
      case True
      have "buffers_ready c1" using fl n(1) o True by (intro filled_all [of n ?c c1]) (simp_all add: opened_def)
      then show ?thesis using k r True same o by (simp add: opened_def)
    next
      case False
      have "opened (dmabuf_undo ops c1)"
        using fl same o by (intro dmabuf_undo_opened) (simp_all add: filled_def opened_def)
      moreover have "keeps c (dmabuf_undo ops c1)" "\<not> cm_dmabuf_capture (dmabuf_undo ops c1)"
        using k by (simp_all add: keeps_def dmabuf_undo_def)
      ultimately show ?thesis using r False by simp
    qed
  qed
qed

text \<open>Exporting a buffer whose descriptor slot is still empty adds the descriptor to the ledger.\<close>

lemma expbuf_one_result:
  assumes "i < length (cm_expbuf_fd c)" and "cm_expbuf_fd c ! i = - 1" and "camera_ok c" and "\<not> cm_dmabuf_capture c"
  shows "camera_ok (expbuf_one ops i c)"
proof -
  have "exported (c\<lparr>cm_expbuf_fd := (cm_expbuf_fd c)[i := fd], cm_held := x\<rparr>) = add_mset fd (exported c)" if "0 \<le> fd" for fd x
    using assms(1,2) that by (simp add: exported_def mset_update)
  then show ?thesis
    using assms by (auto simp: expbuf_one_def camera_ok_def camera_resources_def mapped_def split: option.split)
qed

lemma expbuf_one_keeps:
  "buf_frame c (expbuf_one ops i c)" "cm_mmap (expbuf_one ops i c) = cm_mmap c" "cm_queued (expbuf_one ops i c) = cm_queued c"
  "length (cm_expbuf_fd (expbuf_one ops i c)) = length (cm_expbuf_fd c)"
  "j \<noteq> i \<Longrightarrow> cm_expbuf_fd (expbuf_one ops i c) ! j = cm_expbuf_fd c ! j"
  by (simp_all add: expbuf_one_def buf_frame_def split: option.split)

lemma expbuf_fold:
  assumes "distinct is" and "\<And>i. i \<in> set is \<Longrightarrow> i < length (cm_expbuf_fd c) \<and> cm_expbuf_fd c ! i = - 1"
    and "camera_ok c" and "\<not> cm_dmabuf_capture c"
  shows "camera_ok (fold (expbuf_one ops) is c) \<and> buf_frame c (fold (expbuf_one ops) is c) \<and>
         cm_mmap (fold (expbuf_one ops) is c) = cm_mmap c \<and> cm_queued (fold (expbuf_one ops) is c) = cm_queued c"
  using assms
proof (induction "is" arbitrary: c)
  case Nil
  then show ?case by (simp add: buf_frame_refl)
next
  case (Cons i "is")
  let ?c = "expbuf_one ops i c"
  have fr: "buf_frame c ?c" by (rule expbuf_one_keeps)
  have "camera_ok ?c" using Cons.prems by (intro expbuf_one_result) simp_all
  moreover have "\<not> cm_dmabuf_capture ?c" using buf_frame_same(2) [OF fr] Cons.prems(4) by simp
  moreover have "j < length (cm_expbuf_fd ?c) \<and> cm_expbuf_fd ?c ! j = - 1" if "j \<in> set is" for j
    using that Cons.prems(1) Cons.prems(2) [of j] expbuf_one_keeps(4) [of ops i c] expbuf_one_keeps(5) [of j i ops c] by (metis distinct.simps(2) list.set_intros(2))
  ultimately show ?case
    using Cons.IH [of ?c] Cons.prems(1) buf_frame_trans [OF fr] by (simp add: expbuf_one_keeps(2,3))
qed

lemma mmap_fill_expbuf: "mmap_fill ops is c = (ok, c') \<Longrightarrow> cm_expbuf_fd c' = cm_expbuf_fd c"
  by (induction "is" arbitrary: c) (auto simp: Let_def split: option.splits if_splits prod.splits bool.splits)

lemma mmap_buffers_result:
  assumes o: "opened c" and m: "mmap_buffers ops use_rga c = (ok, c')"
  shows "if ok then keeps c c' \<and> buffers_ready c' \<and> \<not> cm_run c' else camera_idle c'"
proof -
  have stop: "camera_idle (StopDirectV4l2 ops (c\<lparr>cm_drv := d\<rparr>))" for d
    using opened_upd(1) [OF o] by (intro StopDirectV4l2_idle) (simp add: opened_def)
  obtain r d where q: "op_reqbufs ops MEMORY_MMAP (nat (co_v4l2_buffer_count (cm_opts c))) (cm_drv c) = (r, d)"
    by (meson surj_pair)
  show ?thesis
  proof (cases "\<exists>n \<ge> 2. r = Some n")
    case False
    then have "ok = False \<and> c' = StopDirectV4l2 ops (c\<lparr>cm_drv := d\<rparr>)"
      using m by (cases r) (force simp: mmap_buffers_def q not_less split: if_splits)+
    then show ?thesis using stop by simp
  next
    case True
    then obtain n where n: "2 \<le> n" "r = Some n" by blast
    let ?c = "c\<lparr>cm_drv := d, cm_mmap := replicate n False, cm_mmap_len := replicate n 0, cm_expbuf_fd := replicate n (- 1)\<rparr>"
    obtain b c1 where f: "mmap_fill ops [0..<n] ?c = (b, c1)" by (meson surj_pair)
    have "camera_ok ?c"
      using o by (simp add: opened_def camera_ok_def camera_resources_def mapped_def exported_def cong: filter_cong)
    then have fl: "filled [0..<n] b ?c c1" using o by (intro mmap_fill_filled [OF f]) (simp_all add: opened_def)
    then have fr: "buf_frame ?c c1" and ok1: "camera_ok c1" by (simp_all add: filled_def)
    note same = buf_frame_same [OF fr]
    show ?thesis
    proof (cases b)
      case False
      then have "ok = False" "c' = StopDirectV4l2 ops c1" using m n f by (simp_all add: mmap_buffers_def q)
      then show ?thesis using ok1 StopDirectV4l2_idle by simp
    next
      case True
      have ready: "buffers_ready c1" using fl n(1) o True by (intro filled_all [of n ?c c1]) (simp_all add: opened_def)
      have k: "keeps c c1" using buf_frame_keeps [OF fr] by (simp add: keeps_def)
      have c': "ok" "c' = (if use_rga then fold (expbuf_one ops) [0..<n] c1 else c1)"
        using m n f True by (simp_all add: mmap_buffers_def q)
      let ?e = "fold (expbuf_one ops) [0..<n] c1"
      have e: "camera_ok ?e \<and> buf_frame c1 ?e \<and> cm_mmap ?e = cm_mmap c1 \<and> cm_queued ?e = cm_queued c1"
        using ok1 same(2) o mmap_fill_expbuf [OF f] by (intro expbuf_fold) (simp_all add: opened_def)
      then have "keeps c ?e" "buffers_ready ?e" "\<not> cm_run ?e"
        using ready buf_frame_same [of c1 ?e] same o keeps_trans [OF k buf_frame_keeps] by (simp_all add: buffers_ready_def opened_def)
      then show ?thesis using c' k ready same o by (simp add: opened_def)
    qed
  qed
qed

lemma setup_buffers_result:
  assumes o: "opened c" and s: "setup_buffers ops env have_rga c = (ok, c')"
  shows "if ok then keeps c c' \<and> buffers_ready c' \<and> \<not> cm_run c' else camera_idle c'"
proof -
  let ?zc = "EvaluateMjpegZeroCopyPolicy env have_rga (co_v4l2_ext_dma_config (cm_opts c)) (co_mjpeg_rga_config (cm_opts c))"
  let ?c0 = "make_decoder ops c"
  have o0: "opened ?c0" using o by (rule opened_upd)
  have k0: "keeps c ?c0" by (simp add: keeps_def make_decoder_def split: prod.split)
  define c1 where "c1 = (if cm_prefer_mpp c \<and> cm_pixfmt c = PIX_MJPEG \<and> zc_use_v4l2_ext_dmabuf ?zc
                then if cm_mjpeg_mpp ?c0 then dmabuf_buffers ops ?c0 else ?c0 else c)"
  have c1: "keeps c c1" "if cm_dmabuf_capture c1 then buffers_ready c1 \<and> \<not> cm_run c1 else opened c1"
  proof -
    have n: "\<not> cm_dmabuf_capture c" "\<not> cm_dmabuf_capture ?c0" using o o0 by (simp_all add: opened_def)
    have "keeps c c" by (simp add: keeps_def)
    then show "keeps c c1" using k0 dmabuf_buffers_result [OF o0] keeps_trans [OF k0] by (simp add: c1_def)
    show "if cm_dmabuf_capture c1 then buffers_ready c1 \<and> \<not> cm_run c1 else opened c1"
      using o o0 n dmabuf_buffers_result [OF o0] by (simp add: c1_def)
  qed
  have "setup_buffers ops env have_rga c = (if cm_dmabuf_capture c1 then (True, c1) else mmap_buffers ops (zc_use_rga_to_mpp ?zc) c1)"
    unfolding setup_buffers_def c1_def Let_def by simp
  then have r: "(if cm_dmabuf_capture c1 then (True, c1) else mmap_buffers ops (zc_use_rga_to_mpp ?zc) c1) = (ok, c')" using s by simp
  show ?thesis
  proof (cases "cm_dmabuf_capture c1")
    case True
    then show ?thesis using r c1 by simp
  next
    case False
    then have "if ok then keeps c1 c' \<and> buffers_ready c' \<and> \<not> cm_run c' else camera_idle c'"
      using r c1(2) by (intro mmap_buffers_result) simp_all
    then show ?thesis using keeps_trans [OF c1(1)] by (simp split: if_splits)
  qed
qed

lemma open_attempts_result:
  assumes "open_attempts ops dev n c = (ok, c')" and "camera_idle c"
  shows "keeps c c' \<and> (if ok then opened c' else camera_idle c')"
  using assms
proof (induction n arbitrary: c)
  case 0
  then show ?case by (simp add: keeps_def)
next
  case (Suc n)
  obtain r d where q: "op_open ops dev (cm_drv c) = (r, d)" by (meson surj_pair)
  have idle: "camera_idle (c\<lparr>cm_drv := d\<rparr>)" using Suc.prems(2) by (simp add: camera_idle_def)
  have k: "keeps c (c\<lparr>cm_drv := d\<rparr>)" by (simp add: keeps_def)
  show ?case
  proof (cases r)
    case OPENED
    then show ?thesis
      using Suc.prems q
      by (auto simp: keeps_def camera_idle_def opened_def camera_ok_def camera_resources_def mapped_def exported_def)
  next
    case OPEN_EBUSY
    then show ?thesis using Suc.prems(1) q Suc.IH [OF _ idle] keeps_trans [OF k] by simp
  next
    case OPEN_ERRNO
    then show ?thesis using Suc.prems(1) q idle k by auto
  qed
qed

lemma actual_fps_positive: "1 \<le> actual_fps ops fps d"
  by (simp add: actual_fps_def positive_fps_def Let_def split: option.split prod.split)

lemma make_decoder_frame: "buffers_ready c \<Longrightarrow> \<not> cm_dmabuf_capture c \<Longrightarrow> buffers_ready (make_decoder ops c)"
  by (auto simp: make_decoder_def buffers_ready_def camera_ok_def camera_resources_def mapped_def exported_def split: prod.split)

lemma start_threads_result:
  assumes "buffers_ready c"
  shows "buffers_ready (start_threads ops env c) \<and> keeps c (start_threads ops env c) \<and> cm_run (start_threads ops env c) \<and>
    cm_negotiated_fps (start_threads ops env c) = cm_negotiated_fps c \<and> cm_direct_thread (start_threads ops env c) \<and>
    (cm_decode_thread (start_threads ops env c) \<longleftrightarrow> cm_pixfmt c = PIX_MJPEG \<and> \<not> co_mjpeg_decode_inline (cm_opts c))"
proof -
  have ready: "buffers_ready (c\<lparr>cm_run := True\<rparr>)"
    using assms by (auto simp: buffers_ready_def camera_ok_def camera_resources_def mapped_def allocated_def exported_def)
  have mpp: "\<not> cm_mjpeg_mpp c \<Longrightarrow> \<not> cm_dmabuf_capture c" using assms by (auto simp: buffers_ready_def camera_ok_def)
  have upd: "buffers_ready (t\<lparr>cm_decode_thread := a, cm_direct_thread := b\<rparr>) = buffers_ready t"
    "buffers_ready (t\<lparr>cm_dec_out_pool := p\<rparr>) = buffers_ready t" for t :: "'a camera" and a b p
    by (simp_all add: buffers_ready_def camera_ok_def camera_resources_def mapped_def allocated_def exported_def)
  have "buffers_ready (make_decoder ops (c\<lparr>cm_run := True\<rparr>))" if "\<not> cm_mjpeg_mpp c"
    using mpp [OF that] by (intro make_decoder_frame ready) simp
  then have "buffers_ready (start_threads ops env c)"
    using ready by (simp add: start_threads_def Let_def upd)
  then show ?thesis by (simp add: start_threads_def Let_def keeps_def make_decoder_def split: prod.split)
qed

text \<open>What a started camera looks like, for the size and rate asked for.\<close>

definition camera_started :: "int \<Rightarrow> int \<Rightarrow> 'd camera \<Rightarrow> bool" where
  "camera_started w h c \<longleftrightarrow>
     buffers_ready c \<and> cm_cap_w c = w \<and> cm_cap_h c = h \<and> cm_run c \<and> cm_direct_thread c \<and>
     (cm_decode_thread c \<longleftrightarrow> cm_pixfmt c = PIX_MJPEG \<and> \<not> co_mjpeg_decode_inline (cm_opts c)) \<and> 1 \<le> cm_negotiated_fps c"

lemma stream_on_result:
  assumes "buffers_ready c" and "stream_on ops env fps c = (ok, c')"
  shows "if ok then keeps c c' \<and> camera_started (cm_cap_w c) (cm_cap_h c) c' else camera_idle c'"
proof -
  obtain b d where q: "op_streamon ops (cm_drv c) = (b, d)" by (meson surj_pair)
  have upd: "buffers_ready (c\<lparr>cm_drv := d, cm_negotiated_fps := f\<rparr>)" "camera_ok (c\<lparr>cm_drv := d\<rparr>)" for f
    using assms(1) by (simp_all add: buffers_ready_def camera_ok_def camera_resources_def mapped_def allocated_def exported_def)
  show ?thesis
  proof (cases b)
    case True
    let ?c = "c\<lparr>cm_drv := d, cm_negotiated_fps := actual_fps ops fps d\<rparr>"
    have "ok" "c' = start_threads ops env ?c" using assms(2) q True by (simp_all add: stream_on_def)
    then show ?thesis
      using start_threads_result [OF upd(1) [of "actual_fps ops fps d"], of ops env] actual_fps_positive [of ops fps d]
      by (simp add: camera_started_def keeps_def)
  next
    case False
    then show ?thesis using assms(2) q StopDirectV4l2_idle [OF upd(2)] by (auto simp: stream_on_def)
  qed
qed

lemma StartDirectV4l2_result:
  assumes "camera_ok c" and s: "StartDirectV4l2 ops env have_rga dev w h fps c = (ok, c')"
  shows "if ok then camera_started w h c' \<and> cm_opts c' = cm_opts c \<and> cm_requested_fps c' = cm_requested_fps c else camera_idle c'"
proof -
  obtain b1 c1 where 1: "open_attempts ops dev 20 (StopDirectV4l2 ops c) = (b1, c1)" by (meson surj_pair)
  obtain b2 c2 where 2: "choose_format ops w h fps c1 = (b2, c2)" by (meson surj_pair)
  obtain b3 c3 where 3: "setup_buffers ops env have_rga (request_fps ops fps c2) = (b3, c3)" by (meson surj_pair)
  have open1: "keeps (StopDirectV4l2 ops c) c1 \<and> (if b1 then opened c1 else camera_idle c1)"
    using 1 StopDirectV4l2_idle [OF assms(1)] by (rule open_attempts_result)
  have k0: "cm_opts (StopDirectV4l2 ops c) = cm_opts c" "cm_requested_fps (StopDirectV4l2 ops c) = cm_requested_fps c"
    by (simp_all add: StopDirectV4l2_def release_buffers_def camera_close_def Let_def)
  consider "\<not> b1" | "b1" "op_querycap ops (cm_drv c1) \<noteq> Some True" | "b1" "op_querycap ops (cm_drv c1) = Some True" "\<not> b2"
    | "b1" "op_querycap ops (cm_drv c1) = Some True" "b2" by blast
  then show ?thesis
  proof cases
    case 1
    then show ?thesis using s \<open>open_attempts _ _ _ _ = _\<close> open1 by (auto simp: StartDirectV4l2_def)
  next
    case 2
    then show ?thesis using s \<open>open_attempts _ _ _ _ = _\<close> open1 opened_close by (auto simp: StartDirectV4l2_def)
  next
    case 3
    have "camera_idle (camera_close ops c2)" using opened_fmt [OF _ choose_frame [OF 2]] open1 3(1) opened_close by simp
    then show ?thesis using s \<open>open_attempts _ _ _ _ = _\<close> 2 3 by (auto simp: StartDirectV4l2_def)
  next
    case 4
    have o2: "opened (request_fps ops fps c2)" using opened_fmt [OF _ choose_frame [OF 2]] open1 4(1) opened_upd(2) by simp
    have k2: "keeps c2 (request_fps ops fps c2)" by (simp add: keeps_def request_fps_def split: option.split)
    have k1: "cm_opts c2 = cm_opts c1 \<and> cm_requested_fps c2 = cm_requested_fps c1"
      by (subst (1 2) choose_frame [OF 2, unfolded fmt_frame_def]) simp
    have size: "cm_cap_w c2 = w \<and> cm_cap_h c2 = h" using 2 4(3) choose_size by simp
    have r: "(if b3 then stream_on ops env fps c3 else (False, c3)) = (ok, c')"
      using s \<open>open_attempts _ _ _ _ = _\<close> 2 3 4 by (cases b3) (simp_all add: StartDirectV4l2_def)
    have b: "if b3 then keeps (request_fps ops fps c2) c3 \<and> buffers_ready c3 \<and> \<not> cm_run c3 else camera_idle c3"
      using o2 3 by (rule setup_buffers_result)
    show ?thesis
    proof (cases b3)
      case True
      have k3: "keeps c2 c3" using b True keeps_trans [OF k2] by simp
      have "if ok then keeps c3 c' \<and> camera_started (cm_cap_w c3) (cm_cap_h c3) c' else camera_idle c'"
        using b r True by (intro stream_on_result) simp_all
      then show ?thesis using k3 k1 k0 open1 size by (auto simp: keeps_def split: if_splits)
    next
      case False
      then show ?thesis using b r by auto
    qed
  qed
qed

section \<open>Whole sessions\<close>

datatype camera_cmd = CmdStart string int int int bool "V4l2MjpegPipelineOptions option" | CmdStop

definition camera_exec :: "'d camera_ops \<Rightarrow> env \<Rightarrow> bool \<Rightarrow> camera_cmd \<Rightarrow> 'd camera \<Rightarrow> 'd camera" where
  "camera_exec ops env have_rga cmd c =
     (case cmd of
        CmdStart dev w h fps mpp_wanted p \<Rightarrow> snd (camera_Start ops env have_rga dev w h fps mpp_wanted p c)
      | CmdStop \<Rightarrow> camera_Stop ops c)"

lemma idle_upd:
  "camera_idle c \<Longrightarrow> camera_idle (c\<lparr>cm_requested_fps := f, cm_prefer_mpp := b, cm_opts := x\<rparr>)"
  "camera_idle c \<Longrightarrow> camera_idle (c\<lparr>cm_vcm := v, cm_device_info := di\<rparr>)"
  by (simp_all add: camera_idle_def)

lemma camera_Stop_idle: "camera_ok c \<Longrightarrow> camera_idle (camera_Stop ops c)"
  unfolding camera_Stop_def
  by (intro idle_upd StopDirectV4l2_idle) (simp add: camera_ok_def camera_resources_def mapped_def allocated_def exported_def)

lemma start_vcm_idle: "camera_idle c \<Longrightarrow> start_vcm ops dev fps c = (ok, c') \<Longrightarrow> camera_idle c'"
  by (auto simp: start_vcm_def camera_idle_def Let_def split: if_splits)

lemma camera_Start_result:
  assumes "camera_ok c" and s: "camera_Start ops env have_rga dev w h fps mpp_wanted p c = (ok, c')"
  shows "if take 10 dev = kPrefix \<and> ok
         then camera_started w h c' \<and> cm_opts c' = ApplyMjpegPipelineOptions env p \<and> cm_requested_fps c' = positive_fps fps
         else camera_idle c'"
proof -
  let ?c = "(camera_Stop ops c)\<lparr>cm_requested_fps := positive_fps fps, cm_prefer_mpp := mpp_wanted,
              cm_opts := ApplyMjpegPipelineOptions env p\<rparr>"
  have idle: "camera_idle ?c" using camera_Stop_idle [OF assms(1)] by (rule idle_upd)
  consider "dev = []" | "dev \<noteq> []" "take 10 dev = kPrefix" | "dev \<noteq> []" "take 10 dev \<noteq> kPrefix" by blast
  then show ?thesis
  proof cases
    case 1
    then show ?thesis using s idle by (auto simp: camera_Start_def Let_def kPrefix_def)
  next
    case 2
    then have "StartDirectV4l2 ops env have_rga dev w h fps ?c = (ok, c')" using s by (simp add: camera_Start_def Let_def)
    from StartDirectV4l2_result [OF idle_ok [OF idle] this] show ?thesis using 2 by (simp split: if_splits)
  next
    case 3
    then show ?thesis using s start_vcm_idle [OF idle] by (simp add: camera_Start_def Let_def)
  qed
qed

lemma camera_exec_ok:
  assumes "camera_ok c"
  shows "camera_ok (camera_exec ops env have_rga cmd c) \<and>
         (if cm_run (camera_exec ops env have_rga cmd c) then True else camera_idle (camera_exec ops env have_rga cmd c))"
proof (cases cmd)
  case (CmdStart dev w h fps mpp_wanted p)
  obtain ok c' where s: "camera_Start ops env have_rga dev w h fps mpp_wanted p c = (ok, c')" by (meson surj_pair)
  have "camera_started w h c' \<or> camera_idle c'" using camera_Start_result [OF assms s] by (auto split: if_splits)
  then show ?thesis
    using idle_ok [of c'] by (auto simp: CmdStart camera_exec_def s camera_started_def buffers_ready_def)
next
  case CmdStop
  then show ?thesis using camera_Stop_idle [OF assms] idle_ok [OF camera_Stop_idle [OF assms]] by (simp add: camera_exec_def)
qed

definition camera_session :: "'d camera_ops \<Rightarrow> env \<Rightarrow> bool \<Rightarrow> camera_cmd list \<Rightarrow> 'd \<Rightarrow> 'd camera" where
  "camera_session ops env have_rga cmds d = fold (camera_exec ops env have_rga) cmds (camera_init d)"

lemma camera_session_ok:
  "camera_ok (camera_session ops env have_rga cmds d) \<and>
   (cm_run (camera_session ops env have_rga cmds d) \<or> camera_idle (camera_session ops env have_rga cmds d))"
proof -
  have "camera_ok c \<and> (cm_run c \<or> camera_idle c) \<Longrightarrow>
      camera_ok (fold (camera_exec ops env have_rga) cmds c) \<and>
      (cm_run (fold (camera_exec ops env have_rga) cmds c) \<or> camera_idle (fold (camera_exec ops env have_rga) cmds c))" for c
  proof (induction cmds arbitrary: c)
    case (Cons a cmds)
    then show ?case using camera_exec_ok [of c ops env have_rga a] by (auto split: if_splits)
  qed simp
  moreover have "camera_idle (camera_init d)" by (simp add: camera_init_def camera_idle_def)
  ultimately show ?thesis unfolding camera_session_def using idle_ok by blast
qed

text \<open>
  C34: The camera's resources are balanced. After any sequence of starts and stops, with any driver, hardware decoder,
  environment and failures at any point, what the process holds (the open device, the mapped buffers, the buffers of
  the decoder, the exported descriptors) is exactly what the camera's fields record; and a camera that does not run,
  because it was stopped or because a start failed half-way, holds nothing.
\<close>

theorem camera_resources_balanced:
  "cm_held (camera_session ops env have_rga cmds d) = camera_resources (camera_session ops env have_rga cmds d) \<and>
   (if cm_run (camera_session ops env have_rga cmds d) then cm_direct_fd (camera_session ops env have_rga cmds d)
    else cm_held (camera_session ops env have_rga cmds d) = {#} \<and> \<not> cm_direct_fd (camera_session ops env have_rga cmds d))"
  using camera_session_ok [of ops env have_rga cmds d] by (auto simp: camera_ok_def camera_idle_def)


text \<open>A driver for the examples: it sets the format \<open>q\<close> whatever is asked for, or the size asked for.\<close>

definition demo_ops :: "(v4l2_pix \<Rightarrow> v4l2_pix) \<Rightarrow> v4l2_pix option \<Rightarrow> nat \<Rightarrow> unit camera_ops" where
  "demo_ops fmt g granted =
     \<lparr> op_open = (\<lambda>_ d. (OPENED, d)), op_querycap = (\<lambda>_. Some True), op_g_fmt = (\<lambda>_. g), op_s_fmt = (\<lambda>p d. (FMT_SET (fmt p), d)),
       op_intervals = (\<lambda>_ _ _. []), op_timeperframe = (\<lambda>_. Some (1, 30)), op_s_parm = (\<lambda>_ d. d),
       op_reqbufs = (\<lambda>m n d. (if m = MEMORY_MMAP then Some (min n granted) else None, d)), op_querybuf = (\<lambda>_ _. Some 4096),
       op_mmap = (\<lambda>_ _. True), op_qbuf = (\<lambda>_ _ d. (True, d)), op_expbuf = (\<lambda>_ _. None), op_streamon = (\<lambda>d. (True, d)),
       op_streamoff = (\<lambda>d. d), op_close = (\<lambda>d. d), op_dec_init = (\<lambda>d. (True, d)), op_buffer_get = (\<lambda>_ d. (None, d)),
       op_device_info = True, op_vcm_create = (\<lambda>_. True), op_best_match = (\<lambda>_. None), op_capability0 = (\<lambda>_. None),
       op_start_capture = (\<lambda>_. True) \<rparr>"

definition demo_start :: "(v4l2_pix \<Rightarrow> v4l2_pix) \<Rightarrow> v4l2_pix option \<Rightarrow> nat \<Rightarrow> V4l2MjpegPipelineOptions \<Rightarrow> bool \<times> unit camera" where
  "demo_start fmt g granted p =
     camera_Start (demo_ops fmt g granted) (\<lambda>_. None) False ''/dev/video0'' 640 480 30 True (Some p)
       (camera_session (demo_ops fmt g granted) (\<lambda>_. None) False [] ())"


section \<open>The floor of the adaptation\<close>

lemma isqrt_root: "isqrt n * isqrt n \<le> n \<and> n < (isqrt n + 1) * (isqrt n + 1)"
proof (induction n rule: isqrt.induct)
  case (1 n)
  show ?case
  proof (cases "n = 0")
    case True
    then show ?thesis by (simp add: isqrt.simps)
  next
    case False
    define r where "r = isqrt (n div 4)"
    have "r * r \<le> n div 4" "n div 4 < (r + 1) * (r + 1)" using 1 False unfolding r_def by simp_all
    then have lo: "4 * (r * r) \<le> n" and hi: "n < 4 * ((r + 1) * (r + 1))" by linarith+
    show ?thesis
      using lo hi False by (subst (1 2 3 4) isqrt.simps) (simp add: r_def [symmetric] Let_def algebra_simps)
  qed
qed

lemma grow_floor:
  "grow_to_floor m w h = (w', h') \<Longrightarrow> 16 \<le> w \<Longrightarrow> 16 \<le> h \<Longrightarrow> 16 dvd w \<Longrightarrow> 16 dvd h \<Longrightarrow>
   w \<le> w' \<and> h \<le> h' \<and> 16 dvd w' \<and> 16 dvd h' \<and> (m \<le> w' * h' \<or> w' = 16 \<or> h' = 16)"
proof (induction m w h rule: grow_to_floor.induct)
  case (1 m w h)
  show ?case
  proof (cases "w > 16 \<and> h > 16 \<and> w * h < m")
    case True
    then show ?thesis using 1 by (cases "w \<le> h") (auto simp: grow_to_floor.simps [of m w h])
  next
    case False
    then show ?thesis using 1(3-7) by (auto simp: grow_to_floor.simps [of m w h])
  qed
qed

lemma AlignDown16_props: "16 \<le> AlignDown16 v \<and> 16 dvd AlignDown16 v"
  by (auto simp: AlignDown16_def max_def)

text \<open>
  Adaptation never sends frames below the floor. A frame that is passed on after the adaptation to the sinks, with
  a valid crop, has at least the configured number of pixels, or one side of 16; and the search for such a
  size ends for every input.
\<close>

theorem adaptation_keeps_floor:
  assumes "ApplySinkAdaptation env (Some a) scaled frame = Some out" and "0 < fst (ad_crop a)" and "0 < snd (ad_crop a)"
  shows "AdaptMinPixelsFloor env \<le> fst out * snd out \<or> fst out = 16 \<or> snd out = 16"
proof -
  let ?m = "AdaptMinPixelsFloor env"
  let ?o = "ClampAdaptOutputToMinPixels env (fst (ad_crop a)) (snd (ad_crop a)) (ad_out a)"
  have out: "out = ?o" using assms(1) by (auto simp: ApplySinkAdaptation_def Let_def split: if_splits)
  show ?thesis
  proof (cases "?m \<le> fst (ad_out a) * snd (ad_out a)")
    case True
    then show ?thesis unfolding out using assms(2,3) by (simp add: ClampAdaptOutputToMinPixels_def Let_def)
  next
    case False
    obtain w h where g: "?o = grow_to_floor ?m (AlignDown16 w) (AlignDown16 h)"
      using False assms(2,3) by (auto simp: ClampAdaptOutputToMinPixels_def Let_def)
    then show ?thesis
      unfolding out
      using grow_floor [OF prod.collapse [symmetric], where m = ?m and w = "AlignDown16 w" and h = "AlignDown16 h"] AlignDown16_props
      by auto
  qed
qed

lemma default_floor_guess:
  "AdaptMinPixelsFloor (\<lambda>_. None) = 230400" "isqrt 129600 = 360" "grow_to_floor 230400 640 352 = (640, 368)"
  by (code_simp, simp add: isqrt.simps, simp add: grow_to_floor.simps)

theorem adaptation_keeps_floor_witness:
  "ApplySinkAdaptation (\<lambda>_. None) (Some \<lparr> ad_out = (480, 270), ad_crop = (1280, 720), ad_crop_at = (0, 0) \<rparr>) True (1280, 720) = Some (640, 368) \<and>
   AdaptMinPixelsFloor (\<lambda>_. None) \<le> 640 * 368"
proof -
  let ?a = "\<lparr> ad_out = (480, 270), ad_crop = (1280, 720), ad_crop_at = (0, 0) \<rparr> :: adapt_answer"
  have a: "ApplySinkAdaptation (\<lambda>_. None) (Some ?a) True (1280, 720) = Some (640, 368)"
    by (simp add: ApplySinkAdaptation_def ClampAdaptOutputToMinPixels_def Let_def default_floor_guess AlignDown16_def)
  show ?thesis using a adaptation_keeps_floor [OF a] by simp
qed

text \<open>A camera with fewer pixels than the floor: its frames are enlarged and stretched although no sink asked for it.\<close>

theorem small_capture_enlarged:
  "ApplySinkAdaptation (\<lambda>_. None) (Some \<lparr> ad_out = (320, 180), ad_crop = (320, 180), ad_crop_at = (0, 0) \<rparr>) True (320, 180) = Some (640, 368)"
  by (simp add: ApplySinkAdaptation_def ClampAdaptOutputToMinPixels_def Let_def default_floor_guess AlignDown16_def)

text \<open>The snapshot accounts for the frames of a camera that keeps more than the latest frame.\<close>

theorem snapshot_accounts:
  assumes "capture_reachable env (capture_begin opts pf mpp w h fps nbuf) s" and "\<not> co_mjpeg_queue_latest_only opts"
  shows "hs_v4l2_capture (GetPipelineHealthSnapshot s) =
           of_nat (length (cv_delivered s)) + of_nat (cv_skipped s) + of_nat (length (job_list s))
           + of_nat (hi_mjpeg_queue_depth (GetPipelineHealthSnapshot s)) + hi_mjpeg_stale_drops (GetPipelineHealthSnapshot s)
           + hi_mjpeg_queue_full_drops (GetPipelineHealthSnapshot s) + hi_mjpeg_latest_only_drops (GetPipelineHealthSnapshot s)
           + hi_empty_payload_drops (GetPipelineHealthSnapshot s) + hi_convert_fail_drops (GetPipelineHealthSnapshot s)"
  using capture_frames_ok [OF assms(1)] assms(2)
  by (simp add: frame_count_ok_def frame_outcomes_def in_flight_def GetPipelineHealthSnapshot_def ac_simps)

section \<open>Corners of the code\<close>

text \<open>
  A start that fails because the device has another size leaves that size in the fields: the camera is closed, yet it
  reports a negotiated size.
\<close>

definition full_hd :: v4l2_pix where
  "full_hd = \<lparr> px_width = 1920, px_height = 1080, px_pixelformat = PIX_MJPEG, px_sizeimage = 0 \<rparr>"

theorem failed_start_reports_size:
  "case demo_start (\<lambda>_. full_hd) (Some full_hd) 8 demo_options of
     (ok, c) \<Rightarrow> \<not> ok \<and> \<not> cm_direct_fd c \<and> GetNegotiatedCaptureSize c = Some (1920, 1080)"
  by code_simp

text \<open>
  The size is compared with the request, the pixel format is not: a driver may answer with another one, the
  start succeeds and the frames are converted as if they were YUYV.
\<close>

theorem substituted_format_accepted:
  "case demo_start (\<lambda>p. p\<lparr>px_pixelformat := PIX_OTHER 7\<rparr>) None 8 demo_options of
     (ok, c) \<Rightarrow> ok \<and> cm_pixfmt c = PIX_OTHER 7"
  by code_simp

text \<open>
  The bound on the queue is computed from the number of buffers asked for. When the kernel grants fewer, the queue
  alone can hold all of them.
\<close>

theorem granted_fewer_buffers:
  "case demo_start id None 2 (demo_options\<lparr>po_v4l2_buffer_count := 8\<rparr>) of
     (ok, c) \<Rightarrow> ok \<and> length (cm_mmap c) = 2 \<and> co_mjpeg_queue_max (cm_opts c) = 7"
  by code_simp

end
