(* ===== verification/Pull_Subscriber.thy ===== *)
theory Pull_Subscriber
  imports Complex_Main Push_Streamer
begin

text \<open>
  The second pulling client, \<^verbatim>\<open>src/service/impl/media/pull_subscriber.cpp\<close> with its video sink and internals.

  WebRTC's answers are arguments: whether an object could be created, and how an asynchronous operation ends. An
  operation WebRTC owes a callback for is in \<open>pi_pending\<close>; its outcome is a step of its own, which may come late.
  \<open>pi_events\<close> lists the calls of the code to WebRTC, to the signaling client and to the owner's callbacks.
  \<open>pi_broken\<close> is set where the code would use a null connection. Diagnostic lines are left out, except those the
  timing information of a frame is taken apart for. Pictures are taken to be small enough for \<open>4 * w * h\<close> to be an
  \<^verbatim>\<open>int\<close>, which the code assumes.
\<close>

section \<open>State\<close>

datatype PullConnectionState = Pull_New | Pull_Connecting | Pull_Connected | Pull_Disconnected | Pull_Failed | Pull_Closed

record PullSubscriberConfig =
  pc_jitter_buffer_min_delay_ms :: int
  pc_skip_sink_argb_conversion :: bool
  pc_use_rockchip_mpp_h264_decode :: bool

record RxPathStats =
  rx_t_construct_us :: int
  rx_t_initialize_begin_us :: int
  rx_t_initialize_done_us :: int
  rx_t_set_remote_begin_us :: int
  rx_t_set_remote_ok_us :: int
  rx_t_answer_sent_us :: int
  rx_t_connected_us :: int
  rx_t_first_frame_us :: int
  rx_last_frame_us :: int
  rx_last_trace_id :: u16
  rx_attach_calls :: u64
  rx_attach_dedup :: u64
  rx_attach_effective :: u64
  rx_remote_ice_calls :: u64
  rx_remote_ice_parse_fail :: u64
  rx_remote_ice_added :: u64
  rx_pc_state_changes :: u64
  rx_frames_sink_total :: u64
  rx_error_reports :: u64

definition rx_stats_init :: RxPathStats where
  "rx_stats_init = \<lparr> rx_t_construct_us = 0, rx_t_initialize_begin_us = 0, rx_t_initialize_done_us = 0, rx_t_set_remote_begin_us = 0,
     rx_t_set_remote_ok_us = 0, rx_t_answer_sent_us = 0, rx_t_connected_us = 0, rx_t_first_frame_us = 0, rx_last_frame_us = 0,
     rx_last_trace_id = 0, rx_attach_calls = 0, rx_attach_dedup = 0, rx_attach_effective = 0, rx_remote_ice_calls = 0,
     rx_remote_ice_parse_fail = 0, rx_remote_ice_added = 0, rx_pc_state_changes = 0, rx_frames_sink_total = 0, rx_error_reports = 0 \<rparr>"

text \<open>The sink: the callback it was given, and the size and capacity of its pixel buffer.\<close>

record VideoSink =
  sk_on_frame :: bool
  sk_skip_argb_conversion :: bool
  sk_argb_size :: nat
  sk_argb_capacity :: nat

datatype pull_sub_event =
    PuSslInit | PuSslCleanup
  | PuCreatePc nat RTCConfiguration | PuClosePc nat | PuAddTransceiver nat
  | PuSetRemote nat string string | PuCodecPreferences nat "RtpCodecCapability list" | PuCreateAnswer nat
  | PuSetLocal nat string | PuSendAnswer bool string | PuSendIce bool string int string | PuAddIce nat string int string
  | PuAddSink nat | PuRemoveSink nat | PuJitterDelay nat rat | PuGetStats nat "nat option"
  | PuSignalStart | PuSignalStop | PuState PullConnectionState | PuError string
  | PuFrame "nat option" int int int u16 int

datatype pull_pending = PdRemoteSet nat | PdAnswer nat | PdLocalSet nat string

record PullSubscriber =
  pu_is_playing :: bool
  pu_on_video_frame :: bool
  pu_on_connection_state :: bool
  pu_on_error :: bool
  pi_on_connection_state :: bool
  pi_on_error :: bool
  pi_signaling :: bool
  pi_recv_config :: PullSubscriberConfig
  pi_owned_signaling_thread :: bool
  pi_factory :: bool
  pi_peer_connection :: "nat option"
  pi_video_track :: "nat option"
  pi_video_rtp_receiver :: "nat option"
  pi_video_sink :: "VideoSink option"
  pi_stats :: RxPathStats
  pi_argb_frames :: u32
  pi_next_pc :: nat
  pi_pending :: "pull_pending list"
  pi_broken :: bool
  pi_events :: "pull_sub_event list"

definition new_PullSubscriber :: "PullSubscriberConfig \<Rightarrow> int \<Rightarrow> PullSubscriber" where
  "new_PullSubscriber cfg now = \<lparr> pu_is_playing = False, pu_on_video_frame = False, pu_on_connection_state = False,
     pu_on_error = False, pi_on_connection_state = False, pi_on_error = False, pi_signaling = False, pi_recv_config = cfg,
     pi_owned_signaling_thread = False, pi_factory = False, pi_peer_connection = None, pi_video_track = None,
     pi_video_rtp_receiver = None, pi_video_sink = None, pi_stats = rx_stats_init\<lparr>rx_t_construct_us := now\<rparr>, pi_argb_frames = 0,
     pi_next_pc = 0, pi_pending = [], pi_broken = False, pi_events = [] \<rparr>"

definition pu_emit :: "pull_sub_event \<Rightarrow> PullSubscriber \<Rightarrow> PullSubscriber" where
  "pu_emit e s = s\<lparr>pi_events := pi_events s @ [e]\<rparr>"

definition rx_stat :: "(RxPathStats \<Rightarrow> RxPathStats) \<Rightarrow> PullSubscriber \<Rightarrow> PullSubscriber" where
  "rx_stat f s = s\<lparr>pi_stats := f (pi_stats s)\<rparr>"

definition ReportPathError :: "string \<Rightarrow> PullSubscriber \<Rightarrow> PullSubscriber" where
  "ReportPathError msg s0 =
     (let s = rx_stat (\<lambda>t. t\<lparr>rx_error_reports := rx_error_reports t + 1\<rparr>) s0
      in if pi_on_error s then pu_emit (PuError msg) s else s)"

section \<open>Play and Stop\<close>

record play_answers =
  py_ssl :: bool
  py_factory :: bool
  py_pc :: bool
  py_transceiver :: bool
  py_signal :: bool
  py_begin_us :: int
  py_done_us :: int

definition MakeRtcConfig :: RTCConfiguration where
  "MakeRtcConfig = BuildRtcConfiguration ice_config_init True True"

definition pull_CreatePeerConnection :: "play_answers \<Rightarrow> PullSubscriber \<Rightarrow> bool \<times> PullSubscriber" where
  "pull_CreatePeerConnection a s =
     (if \<not> py_pc a then (False, s)
      else let n = pi_next_pc s;
               s1 = pu_emit (PuCreatePc n MakeRtcConfig) (s\<lparr>pi_peer_connection := Some n, pi_next_pc := Suc n\<rparr>)
           in if \<not> py_transceiver a then (False, s1) else (True, pu_emit (PuAddTransceiver n) s1))"

definition pull_Initialize :: "play_answers \<Rightarrow> PullSubscriber \<Rightarrow> bool \<times> PullSubscriber" where
  "pull_Initialize a s0 =
     (let s = rx_stat (\<lambda>t. t\<lparr>rx_t_initialize_begin_us := py_begin_us a\<rparr>) s0
      in if \<not> py_ssl a then (False, s)
         else let s1 = (pu_emit PuSslInit s)\<lparr>pi_owned_signaling_thread := True\<rparr>
              in if \<not> py_factory a then (False, pu_emit PuSslCleanup s1)
                 else pull_CreatePeerConnection a
                        (rx_stat (\<lambda>t. t\<lparr>rx_t_initialize_done_us := py_done_us a\<rparr>) (s1\<lparr>pi_factory := True\<rparr>)))"

definition pull_Shutdown :: "PullSubscriber \<Rightarrow> PullSubscriber" where
  "pull_Shutdown s =
     (let s1 = (case (pi_video_sink s, pi_video_track s) of (Some _, Some t) \<Rightarrow> pu_emit (PuRemoveSink t) s | _ \<Rightarrow> s);
          s2 = s1\<lparr>pi_video_sink := None, pi_video_track := None, pi_video_rtp_receiver := None\<rparr>;
          s3 = (case pi_peer_connection s2 of None \<Rightarrow> s2 | Some p \<Rightarrow> (pu_emit (PuClosePc p) s2)\<lparr>pi_peer_connection := None\<rparr>)
      in pu_emit PuSslCleanup (s3\<lparr>pi_factory := False, pi_owned_signaling_thread := False\<rparr>))"

definition pull_signal_stop :: "PullSubscriber \<Rightarrow> PullSubscriber" where
  "pull_signal_stop s = pu_emit PuSignalStop (s\<lparr>pi_signaling := False\<rparr>)"

text \<open>What a failed \<^verbatim>\<open>Play\<close> does before it returns.\<close>

definition give_up :: "string \<Rightarrow> PullSubscriber \<Rightarrow> PullSubscriber" where
  "give_up msg s0 =
     (let s = pull_Shutdown (pull_signal_stop s0) in if pu_on_error s then pu_emit (PuError msg) s else s)"

definition pull_Play :: "play_answers \<Rightarrow> PullSubscriber \<Rightarrow> PullSubscriber" where
  "pull_Play a s =
     (if pu_is_playing s then s
      else let s1 = s\<lparr>pi_on_connection_state := pu_on_connection_state s, pi_on_error := pu_on_error s,
                  pi_video_sink := Some \<lparr> sk_on_frame = pu_on_video_frame s,
                    sk_skip_argb_conversion = pc_skip_sink_argb_conversion (pi_recv_config s), sk_argb_size = 0, sk_argb_capacity = 0 \<rparr>\<rparr>
           in case pull_Initialize a s1 of
                (False, s2) \<Rightarrow> give_up ''RTC init failed'' s2
              | (True, s2) \<Rightarrow>
                  if \<not> py_signal a then give_up ''Signaling failed. Run: ./build/bin/signaling_server'' s2
                  else pu_emit PuSignalStart (s2\<lparr>pi_signaling := True, pu_is_playing := True\<rparr>))"

definition pull_Stop :: "PullSubscriber \<Rightarrow> PullSubscriber" where
  "pull_Stop s = (if \<not> pu_is_playing s then s else (pull_Shutdown (pull_signal_stop s))\<lparr>pu_is_playing := False\<rparr>)"

section \<open>Negotiation\<close>

definition pull_SetRemoteDescription ::
  "rtc_lib \<Rightarrow> bool \<Rightarrow> int \<Rightarrow> string \<Rightarrow> string \<Rightarrow> PullSubscriber \<Rightarrow> PullSubscriber" where
  "pull_SetRemoteDescription lib thread now type sdp s =
     (case pi_peer_connection s of None \<Rightarrow> s
      | Some p \<Rightarrow>
          if \<not> thread then ReportPathError ''SetRemoteDescription: no signaling thread'' s
          else let s1 = rx_stat (\<lambda>t. t\<lparr>rx_t_set_remote_begin_us := now\<rparr>) s
               in if \<not> rl_sdp_type lib type then ReportPathError ''bad SDP type'' s1
                  else if \<not> rl_parse_sdp lib type sdp then ReportPathError ''parse remote SDP failed'' s1
                  else pu_emit (PuSetRemote p type sdp) (s1\<lparr>pi_pending := pi_pending s1 @ [PdRemoteSet p]\<rparr>))"

definition subscriber_preferences :: VideoCodecPreferenceConfig where
  "subscriber_preferences = default_preference_config\<lparr>vp_role := kSubscriber, vp_video_codec := ''h264'',
     vp_prefer_baseline_h264_first := True, vp_include_all_h264_variants := True, vp_include_all_rtx := True\<rparr>"

definition pull_CreateAnswer ::
  "rtc_lib \<Rightarrow> RtpCodecCapability list \<Rightarrow> transceiver list \<Rightarrow> PullSubscriber \<Rightarrow> PullSubscriber" where
  "pull_CreateAnswer lib caps trs s =
     (case pi_peer_connection s of
        None \<Rightarrow> s\<lparr>pi_broken := True\<rparr>
      | Some p \<Rightarrow>
          let preferred = BuildVideoCodecPreferences (rl_codecs lib) caps subscriber_preferences;
              s1 = (if pi_factory s \<and> preferred \<noteq> [] \<and>
                       fst (SetVideoCodecPreferencesOnPeerConnection (Some trs) VIDEO preferred)
                    then pu_emit (PuCodecPreferences p preferred) s else s)
          in pu_emit (PuCreateAnswer p) (s1\<lparr>pi_pending := pi_pending s1 @ [PdAnswer p]\<rparr>))"

text \<open>How a pending operation ends: an error, success, or a description (none, or one without text).\<close>

datatype pull_outcome = OutFailed string | OutOk | OutDescription "string option option"

definition on_remote_set ::
  "rtc_lib \<Rightarrow> RtpCodecCapability list \<Rightarrow> transceiver list \<Rightarrow> int \<Rightarrow> pull_outcome \<Rightarrow> PullSubscriber \<Rightarrow> PullSubscriber" where
  "on_remote_set lib caps trs now r s =
     (case r of
        OutFailed m \<Rightarrow> ReportPathError (''SetRemoteDescription: '' @ m) s
      | _ \<Rightarrow> pull_CreateAnswer lib caps trs (rx_stat (\<lambda>t. t\<lparr>rx_t_set_remote_ok_us := now\<rparr>) s))"

definition on_answer_created :: "pull_outcome \<Rightarrow> PullSubscriber \<Rightarrow> PullSubscriber" where
  "on_answer_created r s =
     (case r of
        OutFailed m \<Rightarrow> ReportPathError (''CreateAnswer: '' @ m) s
      | OutDescription (Some (Some sdp)) \<Rightarrow>
          (case pi_peer_connection s of
             None \<Rightarrow> s\<lparr>pi_broken := True\<rparr>
           | Some p \<Rightarrow> pu_emit (PuSetLocal p sdp) (s\<lparr>pi_pending := pi_pending s @ [PdLocalSet p sdp]\<rparr>))
      | _ \<Rightarrow> s)"

definition on_local_set :: "int \<Rightarrow> string \<Rightarrow> pull_outcome \<Rightarrow> PullSubscriber \<Rightarrow> PullSubscriber" where
  "on_local_set now sdp r s =
     (case r of
        OutFailed m \<Rightarrow> ReportPathError (''SetLocalDescription: '' @ m) s
      | _ \<Rightarrow> rx_stat (\<lambda>t. t\<lparr>rx_t_answer_sent_us := now\<rparr>) (pu_emit (PuSendAnswer (pi_signaling s) sdp) s))"

definition finish_pending ::
  "rtc_lib \<Rightarrow> RtpCodecCapability list \<Rightarrow> transceiver list \<Rightarrow> int \<Rightarrow> nat \<Rightarrow> pull_outcome \<Rightarrow> PullSubscriber \<Rightarrow> PullSubscriber" where
  "finish_pending lib caps trs now k r s0 =
     (let s = s0\<lparr>pi_pending := take k (pi_pending s0) @ drop (Suc k) (pi_pending s0)\<rparr>
      in case pi_pending s0 ! k of
           PdRemoteSet _ \<Rightarrow> on_remote_set lib caps trs now r s
         | PdAnswer _ \<Rightarrow> on_answer_created r s
         | PdLocalSet _ sdp \<Rightarrow> on_local_set now sdp r s)"

definition pull_AddRemoteIceCandidate ::
  "rtc_lib \<Rightarrow> bool \<Rightarrow> string \<Rightarrow> int \<Rightarrow> string \<Rightarrow> PullSubscriber \<Rightarrow> PullSubscriber" where
  "pull_AddRemoteIceCandidate lib thread mid idx cand s =
     (case pi_peer_connection s of None \<Rightarrow> s
      | Some p \<Rightarrow>
          if \<not> thread then s
          else let s1 = rx_stat (\<lambda>t. t\<lparr>rx_remote_ice_calls := rx_remote_ice_calls t + 1\<rparr>) s
               in if \<not> rl_parse_ice lib mid idx cand
                  then rx_stat (\<lambda>t. t\<lparr>rx_remote_ice_parse_fail := rx_remote_ice_parse_fail t + 1\<rparr>) s1
                  else rx_stat (\<lambda>t. t\<lparr>rx_remote_ice_added := rx_remote_ice_added t + 1\<rparr>) (pu_emit (PuAddIce p mid idx cand) s1))"

section \<open>Callbacks of the connection\<close>

record rtp_receiver =
  rv_id :: nat
  rv_track :: "(nat \<times> string) option"

definition AttachVideo :: "rtp_receiver option \<Rightarrow> PullSubscriber \<Rightarrow> PullSubscriber" where
  "AttachVideo r s =
     (case (r, pi_video_sink s) of
        (Some r, Some _) \<Rightarrow>
          (case rv_track r of
             None \<Rightarrow> s
           | Some (vt, kind) \<Rightarrow>
               if kind \<noteq> ''video'' then s
               else
                 let delay = pc_jitter_buffer_min_delay_ms (pi_recv_config s);
                     s1 = (if delay \<ge> 0 then pu_emit (PuJitterDelay (rv_id r) (of_int delay / 1000)) s else s);
                     s2 = rx_stat (\<lambda>t. t\<lparr>rx_attach_calls := rx_attach_calls t + 1\<rparr>) s1;
                     same_track = (pi_video_track s = Some vt);
                     same_receiver = (pi_video_rtp_receiver s = Some (rv_id r))
                 in if same_track \<and> same_receiver
                    then rx_stat (\<lambda>t. t\<lparr>rx_attach_dedup := rx_attach_dedup t + 1\<rparr>) s2
                    else
                      let s3 = (case pi_video_track s of Some old \<Rightarrow> if \<not> same_track then pu_emit (PuRemoveSink old) s2 else s2 | None \<Rightarrow> s2);
                          s4 = s3\<lparr>pi_video_track := Some vt, pi_video_rtp_receiver := Some (rv_id r)\<rparr>
                      in if \<not> same_track
                         then pu_emit (PuAddSink vt) (rx_stat (\<lambda>t. t\<lparr>rx_attach_effective := rx_attach_effective t + 1\<rparr>) s4)
                         else s4)
      | _ \<Rightarrow> s)"

text \<open>A local candidate: its mid, its line and its text, if it has one.\<close>

definition pull_OnIceCandidate :: "(string \<times> int \<times> string option) option \<Rightarrow> PullSubscriber \<Rightarrow> PullSubscriber" where
  "pull_OnIceCandidate c s =
     (case c of Some (mid, idx, Some sdp) \<Rightarrow> pu_emit (PuSendIce (pi_signaling s) mid idx sdp) s | _ \<Rightarrow> s)"

definition pull_state_of :: "PeerConnectionState \<Rightarrow> PullConnectionState" where
  "pull_state_of st =
     (case st of rtc_kConnecting \<Rightarrow> Pull_Connecting | rtc_kConnected \<Rightarrow> Pull_Connected | rtc_kDisconnected \<Rightarrow> Pull_Disconnected
      | rtc_kFailed \<Rightarrow> Pull_Failed | rtc_kClosed \<Rightarrow> Pull_Closed | rtc_kNew \<Rightarrow> Pull_New)"

definition pull_OnConnectionChange :: "PeerConnectionState \<Rightarrow> int \<Rightarrow> PullSubscriber \<Rightarrow> PullSubscriber" where
  "pull_OnConnectionChange st now s =
     (if \<not> pi_on_connection_state s then s
      else let cs = pull_state_of st
           in pu_emit (PuState cs)
                (rx_stat (\<lambda>t. let t1 = t\<lparr>rx_pc_state_changes := rx_pc_state_changes t + 1\<rparr>
                              in if cs = Pull_Connected \<and> rx_t_connected_us t1 \<le> 0 then t1\<lparr>rx_t_connected_us := now\<rparr> else t1) s))"

definition pull_RequestInboundVideoStatsLog :: "bool \<Rightarrow> PullSubscriber \<Rightarrow> PullSubscriber" where
  "pull_RequestInboundVideoStatsLog thread s =
     (case pi_peer_connection s of
        Some p \<Rightarrow> if thread then pu_emit (PuGetStats p (pi_video_rtp_receiver s)) s else s
      | None \<Rightarrow> s)"

section \<open>Frames\<close>

text \<open>
  A decoded frame: whether it has a buffer and whether that converts to I420, its size and id, the time, and the
  capacity the vector gets when it has to grow.
\<close>

record sink_frame =
  sf_buffer :: bool
  sf_i420 :: bool
  sf_w :: int
  sf_h :: int
  sf_id :: u16
  sf_now_us :: int
  sf_grown_capacity :: nat

definition OnSinkFrame :: "u16 \<Rightarrow> int \<Rightarrow> int \<Rightarrow> PullSubscriber \<Rightarrow> PullSubscriber" where
  "OnSinkFrame trace_id t_callback_done_us now s =
     (let now_us = (if t_callback_done_us > 0 then t_callback_done_us else now)
      in rx_stat (\<lambda>t. t\<lparr>rx_frames_sink_total := rx_frames_sink_total t + 1, rx_last_frame_us := now_us, rx_last_trace_id := trace_id,
                      rx_t_first_frame_us := (if rx_t_first_frame_us t \<le> 0 then now_us else rx_t_first_frame_us t)\<rparr>) s)"

definition MaybeShrinkArgbBuffer :: "int \<Rightarrow> int \<Rightarrow> u32 \<Rightarrow> VideoSink \<Rightarrow> VideoSink" where
  "MaybeShrinkArgbBuffer w h frame_index k =
     (if frame_index = 0 \<or> frame_index mod 300 \<noteq> 0 \<or> w \<le> 0 \<or> h \<le> 0 then k
      else let expected = nat w * nat h * 4
           in if expected = 0 \<or> sk_argb_capacity k \<le> expected * 4 \<or> sk_argb_size k \<noteq> expected then k
              else k\<lparr>sk_argb_capacity := sk_argb_size k\<rparr>)"

definition argb_resize :: "nat \<Rightarrow> nat \<Rightarrow> VideoSink \<Rightarrow> VideoSink" where
  "argb_resize grown n k = k\<lparr>sk_argb_size := n, sk_argb_capacity := (if n \<le> sk_argb_capacity k then sk_argb_capacity k else grown)\<rparr>"

definition VideoSink_OnFrame :: "env \<Rightarrow> KnobState \<Rightarrow> sink_frame \<Rightarrow> VideoSink \<Rightarrow> PullSubscriber \<Rightarrow> PullSubscriber" where
  "VideoSink_OnFrame env ks f k s =
     (let t_done = (if fst (ReadBool env ''RFLOW_E2E_LATENCY_TRACE'' ks) then sf_now_us f else 0); w = sf_w f; h = sf_h f
      in if \<not> sk_on_frame k then s
         else if \<not> sf_buffer f then s
         else if w \<le> 0 \<or> h \<le> 0 then s
         else if sk_skip_argb_conversion k
         then OnSinkFrame (sf_id f) t_done (sf_now_us f) (pu_emit (PuFrame None w h 0 (sf_id f) t_done) s)
         else if \<not> sf_i420 f then s
         else let stride = w * 4; k1 = argb_resize (sf_grown_capacity f) (nat (stride * h)) k; n = pi_argb_frames s + 1;
                  s1 = pu_emit (PuFrame (Some (sk_argb_size k1)) w h stride (sf_id f) t_done) (s\<lparr>pi_argb_frames := n\<rparr>)
              in OnSinkFrame (sf_id f) t_done (sf_now_us f) (s1\<lparr>pi_video_sink := Some (MaybeShrinkArgbBuffer w h n k1)\<rparr>))"

section \<open>Steps\<close>

datatype pull_sub_input =
    SiCallbacks bool bool bool
  | SiPlay play_answers
  | SiStop
  | SiOffer bool int string string
  | SiIce bool string int string
  | SiSignalError string
  | SiPending nat pull_outcome int
  | SiTrack "rtp_receiver option"
  | SiIceCandidate "(string \<times> int \<times> string option) option"
  | SiConnectionChange PeerConnectionState int
  | SiFrame sink_frame
  | SiStats bool

text \<open>
  What can happen: the signaling client calls its delegate only while it runs, WebRTC calls back for connections it
  has made, a frame reaches a sink that is attached to a track, and an operation ends once.
\<close>

definition pull_sub_enabled :: "pull_sub_input \<Rightarrow> PullSubscriber \<Rightarrow> bool" where
  "pull_sub_enabled i s \<longleftrightarrow>
     \<not> pi_broken s \<and>
     (case i of
        SiOffer _ _ _ _ \<Rightarrow> pi_signaling s
      | SiIce _ _ _ _ \<Rightarrow> pi_signaling s
      | SiPending k _ _ \<Rightarrow> k < length (pi_pending s)
      | SiTrack _ \<Rightarrow> 0 < pi_next_pc s
      | SiIceCandidate _ \<Rightarrow> 0 < pi_next_pc s
      | SiConnectionChange _ _ \<Rightarrow> 0 < pi_next_pc s
      | SiFrame _ \<Rightarrow> pi_video_track s \<noteq> None
      | _ \<Rightarrow> True)"

record pull_world =
  pw_lib :: rtc_lib
  pw_env :: env
  pw_knobs :: KnobState
  pw_caps :: "RtpCodecCapability list"
  pw_transceivers :: "transceiver list"

definition pull_sub_step :: "pull_world \<Rightarrow> pull_sub_input \<Rightarrow> PullSubscriber \<Rightarrow> PullSubscriber" where
  "pull_sub_step w i s =
     (case i of
        SiCallbacks f c e \<Rightarrow> s\<lparr>pu_on_video_frame := f, pu_on_connection_state := c, pu_on_error := e\<rparr>
      | SiPlay a \<Rightarrow> pull_Play a s
      | SiStop \<Rightarrow> pull_Stop s
      | SiOffer thread now type sdp \<Rightarrow> pull_SetRemoteDescription (pw_lib w) thread now type sdp s
      | SiIce thread mid idx cand \<Rightarrow> pull_AddRemoteIceCandidate (pw_lib w) thread mid idx cand s
      | SiSignalError m \<Rightarrow> if pu_on_error s then pu_emit (PuError m) s else s
      | SiPending k r now \<Rightarrow> finish_pending (pw_lib w) (pw_caps w) (pw_transceivers w) now k r s
      | SiTrack r \<Rightarrow> AttachVideo r s
      | SiIceCandidate c \<Rightarrow> pull_OnIceCandidate c s
      | SiConnectionChange st now \<Rightarrow> pull_OnConnectionChange st now s
      | SiFrame f \<Rightarrow> (case pi_video_sink s of Some k \<Rightarrow> VideoSink_OnFrame (pw_env w) (pw_knobs w) f k s | None \<Rightarrow> s)
      | SiStats thread \<Rightarrow> pull_RequestInboundVideoStatsLog thread s)"

inductive pull_sub_reachable :: "pull_world \<Rightarrow> PullSubscriber \<Rightarrow> bool" for w :: pull_world where
  create_sub: "pull_sub_reachable w (new_PullSubscriber cfg now)"
| step_sub: "pull_sub_reachable w s \<Longrightarrow> pull_sub_enabled i s \<Longrightarrow> pull_sub_reachable w (pull_sub_step w i s)"

fun pull_sub_run :: "pull_world \<Rightarrow> pull_sub_input list \<Rightarrow> PullSubscriber \<Rightarrow> PullSubscriber option" where
  "pull_sub_run w [] s = Some s"
| "pull_sub_run w (i # is) s = (if pull_sub_enabled i s then pull_sub_run w is (pull_sub_step w i s) else None)"

lemma pull_sub_run_reachable: "pull_sub_reachable w s \<Longrightarrow> pull_sub_run w is s = Some s' \<Longrightarrow> pull_sub_reachable w s'"
  by (induction "is" arbitrary: s) (auto split: if_splits intro: step_sub)

section \<open>Timing information of a frame\<close>

text \<open>The text WebRTC makes of a timing frame: fifteen numbers separated by commas, taken apart for the log.\<close>

function SplitCommaFields :: "string \<Rightarrow> string list" where
  "SplitCommaFields s =
     (case find_char (CHR '','') s of None \<Rightarrow> [s] | Some i \<Rightarrow> take i s # SplitCommaFields (drop (Suc i) s))"
  by auto
termination by (relation "measure length") (auto dest: find_char_SomeD)

declare SplitCommaFields.simps [simp del]

text \<open>\<^verbatim>\<open>strtoll\<close> with a check of \<^verbatim>\<open>errno\<close> and of the end of the text.\<close>

definition ParseInt64Strict :: "string \<Rightarrow> int option" where
  "ParseInt64Strict s =
     (if s = [] then None
      else let (neg, d) = strip_sign (dropWhile isspace s)
           in if d = [] \<or> \<not> isdigit (hd d) then None
              else let v = int (digits_value 0 d); w = (if neg then - v else v)
                   in if w < LONG_MIN \<or> LONG_MAX < w then None
                      else if dropWhile isdigit d \<noteq> [] then None else Some w)"

text \<open>The differences the log shows, by name; none when a number cannot be read.\<close>

definition timing_deltas :: "string list \<Rightarrow> (string \<times> int) list option" where
  "timing_deltas parts =
     (if length parts \<noteq> 15 then None
      else case map ParseInt64Strict [parts ! 1, parts ! 2, parts ! 3, parts ! 8, parts ! 9, parts ! 10, parts ! 11] of
             [Some cap, Some enc_s, Some enc_f, Some recv_s, Some recv_f, Some dec_s, Some dec_f] \<Rightarrow>
               Some ([(''first_RTP-decode_start'', dec_s - recv_s), (''last_RTP-decode_start'', dec_s - recv_f),
                      (''decode_start-decode_finish'', dec_f - dec_s), (''RTP_last-first'', recv_f - recv_s)]
                     @ (if cap \<ge> 0 then [(''capture-decode_start'', dec_s - cap)] else [])
                     @ [(''encode_start-capture'', enc_s - cap), (''encode_finish-encode_start'', enc_f - enc_s)])
           | _ \<Rightarrow> None)"

datatype timing_log = RawTiming string nat | LabeledTiming "string list" "(string \<times> int) list option"

definition PrintGoogTimingFrameInfoLabeled :: "string \<Rightarrow> timing_log" where
  "PrintGoogTimingFrameInfoLabeled raw =
     (let parts = SplitCommaFields raw
      in if length parts \<noteq> 15 then RawTiming raw (length parts) else LabeledTiming parts (timing_deltas parts))"

section \<open>What the log says\<close>

definition created_pcs :: "pull_sub_event list \<Rightarrow> nat list" where
  "created_pcs es = concat (map (\<lambda>e. case e of PuCreatePc n _ \<Rightarrow> [n] | _ \<Rightarrow> []) es)"

definition closed_pcs :: "pull_sub_event list \<Rightarrow> nat list" where
  "closed_pcs es = concat (map (\<lambda>e. case e of PuClosePc n \<Rightarrow> [n] | _ \<Rightarrow> []) es)"

definition added_sinks :: "pull_sub_event list \<Rightarrow> nat list" where
  "added_sinks es = concat (map (\<lambda>e. case e of PuAddSink t \<Rightarrow> [t] | _ \<Rightarrow> []) es)"

definition removed_sinks :: "pull_sub_event list \<Rightarrow> nat list" where
  "removed_sinks es = concat (map (\<lambda>e. case e of PuRemoveSink t \<Rightarrow> [t] | _ \<Rightarrow> []) es)"

definition frames_shown :: "pull_sub_event list \<Rightarrow> nat" where
  "frames_shown es = length (filter (\<lambda>e. case e of PuFrame _ _ _ _ _ _ \<Rightarrow> True | _ \<Rightarrow> False) es)"

lemma log_append [simp]:
  "created_pcs (xs @ ys) = created_pcs xs @ created_pcs ys" "closed_pcs (xs @ ys) = closed_pcs xs @ closed_pcs ys"
  "added_sinks (xs @ ys) = added_sinks xs @ added_sinks ys" "removed_sinks (xs @ ys) = removed_sinks xs @ removed_sinks ys"
  "frames_shown (xs @ ys) = frames_shown xs + frames_shown ys"
  by (simp_all add: created_pcs_def closed_pcs_def added_sinks_def removed_sinks_def frames_shown_def)

lemma log_Nil [simp]:
  "created_pcs [] = []" "closed_pcs [] = []" "added_sinks [] = []" "removed_sinks [] = []" "frames_shown [] = 0"
  by (simp_all add: created_pcs_def closed_pcs_def added_sinks_def removed_sinks_def frames_shown_def)

lemma log_Cons [simp]:
  "created_pcs (e # es) = (case e of PuCreatePc n _ \<Rightarrow> [n] | _ \<Rightarrow> []) @ created_pcs es"
  "closed_pcs (e # es) = (case e of PuClosePc n \<Rightarrow> [n] | _ \<Rightarrow> []) @ closed_pcs es"
  "added_sinks (e # es) = (case e of PuAddSink t \<Rightarrow> [t] | _ \<Rightarrow> []) @ added_sinks es"
  "removed_sinks (e # es) = (case e of PuRemoveSink t \<Rightarrow> [t] | _ \<Rightarrow> []) @ removed_sinks es"
  "frames_shown (e # es) = (case e of PuFrame _ _ _ _ _ _ \<Rightarrow> 1 | _ \<Rightarrow> 0) + frames_shown es"
  by (simp_all add: created_pcs_def closed_pcs_def added_sinks_def removed_sinks_def frames_shown_def split: pull_sub_event.split)

definition the_one :: "'a option \<Rightarrow> 'a multiset" where
  "the_one x = (case x of None \<Rightarrow> {#} | Some a \<Rightarrow> {#a#})"

lemma the_one_simps [simp]: "the_one None = {#}" "the_one (Some a) = {#a#}"
  by (simp_all add: the_one_def)

text \<open>What every operation keeps, and what holds between two operations.\<close>

definition sub_core :: "PullSubscriber \<Rightarrow> bool" where
  "sub_core s \<longleftrightarrow>
     created_pcs (pi_events s) = [0..<pi_next_pc s] \<and>
     mset [0..<pi_next_pc s] = mset (closed_pcs (pi_events s)) + the_one (pi_peer_connection s) \<and>
     mset (added_sinks (pi_events s)) = mset (removed_sinks (pi_events s)) + the_one (pi_video_track s) \<and>
     (pi_video_track s \<noteq> None \<longrightarrow> pi_video_sink s \<noteq> None) \<and>
     rx_frames_sink_total (pi_stats s) = of_nat (frames_shown (pi_events s)) \<and>
     rx_attach_effective (pi_stats s) = of_nat (length (added_sinks (pi_events s))) \<and>
     rx_remote_ice_calls (pi_stats s) = rx_remote_ice_parse_fail (pi_stats s) + rx_remote_ice_added (pi_stats s)"

definition sub_phase :: "PullSubscriber \<Rightarrow> bool" where
  "sub_phase s \<longleftrightarrow>
     (if pu_is_playing s then pi_peer_connection s \<noteq> None \<and> pi_factory s \<and> pi_signaling s \<and> pi_video_sink s \<noteq> None
      else pi_peer_connection s = None \<and> \<not> pi_factory s \<and> \<not> pi_signaling s \<and> pi_video_sink s = None \<and> pi_video_track s = None)"

definition sub_ok :: "PullSubscriber \<Rightarrow> bool" where
  "sub_ok s \<longleftrightarrow> sub_core s \<and> sub_phase s"

text \<open>An event that neither opens nor closes, attaches nor shows anything, and statistics outside the balance.\<close>

definition plain_event :: "pull_sub_event \<Rightarrow> bool" where
  "plain_event e \<longleftrightarrow>
     (case e of PuCreatePc _ _ \<Rightarrow> False | PuClosePc _ \<Rightarrow> False | PuAddSink _ \<Rightarrow> False | PuRemoveSink _ \<Rightarrow> False
      | PuFrame _ _ _ _ _ _ \<Rightarrow> False | _ \<Rightarrow> True)"

lemma plain_logs:
  "plain_event e \<Longrightarrow> created_pcs [e] = [] \<and> closed_pcs [e] = [] \<and> added_sinks [e] = [] \<and> removed_sinks [e] = [] \<and> frames_shown [e] = 0"
  by (auto simp: plain_event_def split: pull_sub_event.splits)

lemma sub_ok_emit: "plain_event e \<Longrightarrow> sub_core (pu_emit e s) = sub_core s \<and> sub_ok (pu_emit e s) = sub_ok s"
  using plain_logs [of e] by (simp add: sub_ok_def sub_core_def sub_phase_def pu_emit_def del: log_Cons)

lemma plain_events [simp]:
  "plain_event PuSslInit" "plain_event PuSslCleanup" "plain_event (PuAddTransceiver n)" "plain_event (PuSetRemote n t d)"
  "plain_event (PuCodecPreferences n cs)" "plain_event (PuCreateAnswer n)" "plain_event (PuSetLocal n d)"
  "plain_event (PuSendAnswer b d)" "plain_event (PuSendIce b m i c)" "plain_event (PuAddIce n m i c)"
  "plain_event (PuJitterDelay n ms)" "plain_event (PuGetStats n rv)" "plain_event PuSignalStart" "plain_event PuSignalStop"
  "plain_event (PuState st)" "plain_event (PuError m)"
  by (simp_all add: plain_event_def)

lemma sub_ok_stat:
  assumes "\<And>t. rx_frames_sink_total (f t) = rx_frames_sink_total t \<and> rx_attach_effective (f t) = rx_attach_effective t \<and>
      rx_remote_ice_calls (f t) = rx_remote_ice_calls t \<and> rx_remote_ice_parse_fail (f t) = rx_remote_ice_parse_fail t \<and>
      rx_remote_ice_added (f t) = rx_remote_ice_added t"
  shows "sub_core (rx_stat f s) = sub_core s \<and> sub_ok (rx_stat f s) = sub_ok s"
  using assms by (simp add: sub_ok_def sub_core_def sub_phase_def rx_stat_def)

lemma sub_ok_upd:
  "sub_ok (s\<lparr>pi_pending := p\<rparr>) = sub_ok s" "sub_ok (s\<lparr>pi_broken := b\<rparr>) = sub_ok s"
  "sub_ok (s\<lparr>pu_on_video_frame := f, pu_on_connection_state := c, pu_on_error := e\<rparr>) = sub_ok s"
  by (simp_all add: sub_ok_def sub_core_def sub_phase_def)

lemmas sub_ok_simps = sub_ok_emit [THEN conjunct2] sub_ok_stat [THEN conjunct2] sub_ok_upd

lemma ReportPathError_ok: "sub_ok (ReportPathError m s) = sub_ok s"
  by (simp add: ReportPathError_def Let_def sub_ok_simps)

lemma Shutdown_core:
  assumes "sub_core s"
  shows "sub_core (pull_Shutdown s) \<and> pi_peer_connection (pull_Shutdown s) = None \<and> \<not> pi_factory (pull_Shutdown s) \<and>
    pi_video_sink (pull_Shutdown s) = None \<and> pi_video_track (pull_Shutdown s) = None \<and>
    pi_signaling (pull_Shutdown s) = pi_signaling s \<and> pu_is_playing (pull_Shutdown s) = pu_is_playing s"
  using assms
  by (cases "pi_video_sink s"; cases "pi_video_track s"; cases "pi_peer_connection s")
     (simp_all add: pull_Shutdown_def sub_core_def pu_emit_def Let_def)

lemma signal_stop_core: "sub_core (pull_signal_stop s) = sub_core s"
  by (simp add: pull_signal_stop_def sub_core_def pu_emit_def)

lemma give_up_ok:
  assumes "sub_core s" and "\<not> pu_is_playing s"
  shows "sub_ok (give_up msg s)"
proof -
  let ?t = "pull_Shutdown (pull_signal_stop s)"
  have "sub_core (pull_signal_stop s)" using assms(1) by (simp add: signal_stop_core)
  moreover have "\<not> pi_signaling (pull_signal_stop s)" "\<not> pu_is_playing (pull_signal_stop s)"
    using assms(2) by (simp_all add: pull_signal_stop_def pu_emit_def)
  ultimately have "sub_ok ?t" using Shutdown_core [of "pull_signal_stop s"] by (simp add: sub_ok_def sub_phase_def)
  then show ?thesis by (simp add: give_up_def Let_def sub_ok_simps)
qed

lemma sub_core_upd:
  "sub_core (s\<lparr>pu_is_playing := b\<rparr>) = sub_core s" "sub_core (s\<lparr>pi_factory := b\<rparr>) = sub_core s"
  "sub_core (s\<lparr>pi_signaling := b\<rparr>) = sub_core s" "sub_core (s\<lparr>pi_owned_signaling_thread := b\<rparr>) = sub_core s"
  by (simp_all add: sub_core_def)

lemmas sub_core_simps = sub_ok_emit [THEN conjunct1] sub_ok_stat [THEN conjunct1] sub_core_upd

lemma create_core:
  assumes "sub_core s" and "pi_peer_connection s = None"
  shows "sub_core (pu_emit (PuCreatePc (pi_next_pc s) cfg) (s\<lparr>pi_peer_connection := Some (pi_next_pc s), pi_next_pc := Suc (pi_next_pc s)\<rparr>))"
  using assms by (simp add: sub_core_def pu_emit_def atLeast0_lessThan_Suc)

lemma pu_emit_simps [simp]:
  "pi_peer_connection (pu_emit e s) = pi_peer_connection s" "pi_factory (pu_emit e s) = pi_factory s"
  "pi_video_sink (pu_emit e s) = pi_video_sink s" "pi_video_track (pu_emit e s) = pi_video_track s"
  "pu_is_playing (pu_emit e s) = pu_is_playing s" "pi_signaling (pu_emit e s) = pi_signaling s"
  "pi_next_pc (pu_emit e s) = pi_next_pc s"
  "pi_peer_connection (rx_stat g s) = pi_peer_connection s" "pi_factory (rx_stat g s) = pi_factory s"
  "pi_video_sink (rx_stat g s) = pi_video_sink s" "pi_video_track (rx_stat g s) = pi_video_track s"
  "pu_is_playing (rx_stat g s) = pu_is_playing s" "pi_signaling (rx_stat g s) = pi_signaling s"
  "pi_next_pc (rx_stat g s) = pi_next_pc s"
  by (simp_all add: pu_emit_def rx_stat_def)

lemma CreatePeerConnection_core:
  assumes "sub_core s" and "pi_peer_connection s = None" and "pull_CreatePeerConnection a s = (ok, s')"
  shows "sub_core s' \<and> pu_is_playing s' = pu_is_playing s \<and> pi_video_sink s' = pi_video_sink s \<and>
    pi_factory s' = pi_factory s \<and> (ok \<longrightarrow> pi_peer_connection s' \<noteq> None)"
  using assms create_core [OF assms(1,2)]
  by (auto simp: pull_CreatePeerConnection_def Let_def sub_core_simps split: if_splits)

lemma Initialize_core:
  assumes "sub_core s" and "pi_peer_connection s = None" and "pull_Initialize a s = (ok, s')"
  shows "sub_core s' \<and> pu_is_playing s' = pu_is_playing s \<and> pi_video_sink s' = pi_video_sink s \<and>
    (ok \<longrightarrow> pi_peer_connection s' \<noteq> None \<and> pi_factory s')"
proof -
  let ?s = "rx_stat (\<lambda>t. t\<lparr>rx_t_initialize_begin_us := py_begin_us a\<rparr>) s"
  let ?s1 = "(pu_emit PuSslInit ?s)\<lparr>pi_owned_signaling_thread := True\<rparr>"
  let ?s2 = "rx_stat (\<lambda>t. t\<lparr>rx_t_initialize_done_us := py_done_us a\<rparr>) (?s1\<lparr>pi_factory := True\<rparr>)"
  have c: "sub_core ?s" "sub_core (pu_emit PuSslCleanup ?s1)" "sub_core ?s2" using assms(1) by (simp_all add: sub_core_simps)
  have pc: "pi_peer_connection ?s2 = None" using assms(2) by simp
  consider "\<not> py_ssl a" | "py_ssl a" "\<not> py_factory a" | "py_ssl a" "py_factory a" by blast
  then show ?thesis
  proof cases
    case 3
    then have "pull_CreatePeerConnection a ?s2 = (ok, s')" using assms(3) by (simp add: pull_Initialize_def Let_def)
    then show ?thesis using CreatePeerConnection_core [OF c(3) pc] by simp
  qed (use assms(3) c in \<open>auto simp: pull_Initialize_def Let_def\<close>)
qed

lemma Play_ok:
  assumes "sub_ok s"
  shows "sub_ok (pull_Play a s)"
proof (cases "pu_is_playing s")
  case True
  then show ?thesis using assms by (simp add: pull_Play_def)
next
  case False
  let ?k = "\<lparr> sk_on_frame = pu_on_video_frame s, sk_skip_argb_conversion = pc_skip_sink_argb_conversion (pi_recv_config s),
              sk_argb_size = 0, sk_argb_capacity = 0 \<rparr> :: VideoSink"
  let ?s = "s\<lparr>pi_on_connection_state := pu_on_connection_state s, pi_on_error := pu_on_error s, pi_video_sink := Some ?k\<rparr>"
  obtain ok t where i: "pull_Initialize a ?s = (ok, t)" by (meson surj_pair)
  have start: "sub_core ?s" "pi_peer_connection ?s = None"
    using assms False by (simp_all add: sub_ok_def sub_phase_def sub_core_def)
  note t = Initialize_core [OF start i]
  have np: "\<not> pu_is_playing t" using t False by simp
  have "sub_ok (pu_emit PuSignalStart (t\<lparr>pi_signaling := True, pu_is_playing := True\<rparr>))" if ok
  proof -
    have "sub_ok (t\<lparr>pi_signaling := True, pu_is_playing := True\<rparr>)"
      using t that by (auto simp: sub_ok_def sub_core_def sub_phase_def)
    then show ?thesis by (simp add: sub_ok_simps)
  qed
  then show ?thesis
    using False i give_up_ok [OF _ np] t by (cases ok) (simp_all add: pull_Play_def)
qed

lemma sub_Stop_ok:
  assumes "sub_ok s"
  shows "sub_ok (pull_Stop s)"
proof (cases "pu_is_playing s")
  case True
  have c: "sub_core (pull_signal_stop s)" using assms by (simp add: signal_stop_core sub_ok_def)
  have "\<not> pi_signaling (pull_signal_stop s)" by (simp add: pull_signal_stop_def pu_emit_def)
  then have "sub_core ((pull_Shutdown (pull_signal_stop s))\<lparr>pu_is_playing := False\<rparr>)"
    "sub_phase ((pull_Shutdown (pull_signal_stop s))\<lparr>pu_is_playing := False\<rparr>)"
    using Shutdown_core [OF c] by (simp_all add: sub_core_upd sub_phase_def)
  then show ?thesis using True by (simp add: pull_Stop_def sub_ok_def)
qed (use assms in \<open>simp add: pull_Stop_def\<close>)

lemma SetRemote_ok: "sub_ok (pull_SetRemoteDescription lib thread now type sdp s) = sub_ok s"
  by (simp add: pull_SetRemoteDescription_def ReportPathError_ok sub_ok_simps Let_def split: option.split)

lemma CreateAnswer_ok: "sub_ok (pull_CreateAnswer lib caps trs s) = sub_ok s"
  by (simp add: pull_CreateAnswer_def sub_ok_simps Let_def split: option.split)

lemma finish_pending_ok: "sub_ok (finish_pending lib caps trs now k r s) = sub_ok s"
  by (simp add: finish_pending_def on_remote_set_def on_answer_created_def on_local_set_def ReportPathError_ok CreateAnswer_ok
      sub_ok_simps Let_def split: option.split pull_pending.split pull_outcome.split)

lemma emit_phase: "sub_phase (pu_emit e s) = sub_phase s" "sub_phase (rx_stat f s) = sub_phase s"
  by (simp_all add: sub_phase_def pu_emit_def rx_stat_def)

lemma AddIce_ok:
  assumes "sub_ok s"
  shows "sub_ok (pull_AddRemoteIceCandidate lib thread mid idx cand s)"
proof -
  have "sub_core (pull_AddRemoteIceCandidate lib thread mid idx cand s)"
    using assms by (auto simp: pull_AddRemoteIceCandidate_def sub_ok_def sub_core_def rx_stat_def pu_emit_def Let_def split: option.split)
  moreover have "sub_phase (pull_AddRemoteIceCandidate lib thread mid idx cand s) = sub_phase s"
    by (simp add: pull_AddRemoteIceCandidate_def emit_phase Let_def split: option.split)
  ultimately show ?thesis using assms by (simp add: sub_ok_def)
qed

lemma OnConnectionChange_ok: "sub_ok (pull_OnConnectionChange st now s) = sub_ok s"
  by (simp add: pull_OnConnectionChange_def sub_ok_simps Let_def)

lemma AttachVideo_ok:
  assumes "sub_ok s"
  shows "sub_ok (AttachVideo r s)"
proof (cases "\<exists>v vt k. r = Some v \<and> rv_track v = Some (vt, ''video'') \<and> pi_video_sink s = Some k")
  case False
  then have "AttachVideo r s = s"
    by (auto simp: AttachVideo_def split: option.splits)
  then show ?thesis using assms by simp
next
  case True
  then obtain v vt k where v: "r = Some v" "rv_track v = Some (vt, ''video'')" "pi_video_sink s = Some k" by blast
  have play: "pu_is_playing s" using assms v(3) by (auto simp: sub_ok_def sub_phase_def split: if_splits)
  define s2 where "s2 = rx_stat (\<lambda>t. t\<lparr>rx_attach_calls := rx_attach_calls t + 1\<rparr>)
    (if pc_jitter_buffer_min_delay_ms (pi_recv_config s) \<ge> 0
     then pu_emit (PuJitterDelay (rv_id v) (of_int (pc_jitter_buffer_min_delay_ms (pi_recv_config s)) / 1000)) s else s)"
  have ok2: "sub_ok s2" using assms by (simp add: s2_def sub_ok_simps)
  have same: "pi_video_track s2 = pi_video_track s" "pi_video_sink s2 = pi_video_sink s" "pu_is_playing s2"
    using play by (simp_all add: s2_def rx_stat_def pu_emit_def)
  show ?thesis
    using ok2 same v by (cases "pi_video_track s")
      (simp_all add: AttachVideo_def s2_def [symmetric] Let_def sub_ok_simps, simp_all add: sub_ok_def sub_core_def sub_phase_def rx_stat_def pu_emit_def)
qed

lemma OnFrame_core:
  assumes "sub_core s" and "pi_video_sink s = Some k"
  shows "sub_core (VideoSink_OnFrame env ks f k s)"
  using assms
  by (auto simp: VideoSink_OnFrame_def OnSinkFrame_def sub_core_def rx_stat_def pu_emit_def Let_def)

lemma OnFrame_phase:
  assumes "pi_video_sink s = Some k"
  shows "sub_phase (VideoSink_OnFrame env ks f k s) = sub_phase s"
  using assms by (simp add: VideoSink_OnFrame_def OnSinkFrame_def emit_phase Let_def) (simp add: sub_phase_def pu_emit_def)

lemma OnFrame_ok:
  assumes "sub_ok s" and "pi_video_sink s = Some k"
  shows "sub_ok (VideoSink_OnFrame env ks f k s)"
  using assms OnFrame_core OnFrame_phase by (simp add: sub_ok_def)

lemma pull_sub_step_ok: "sub_ok s \<Longrightarrow> sub_ok (pull_sub_step w i s)"
  by (cases i)
     (auto simp: pull_sub_step_def pull_OnIceCandidate_def pull_RequestInboundVideoStatsLog_def sub_ok_simps Play_ok sub_Stop_ok
       SetRemote_ok finish_pending_ok AddIce_ok OnConnectionChange_ok AttachVideo_ok OnFrame_ok split: option.split)


text \<open>A run: a first session with a picture, stopped after a change of track, and a second one.\<close>

definition demo_pull_world :: pull_world where
  "demo_pull_world = \<lparr> pw_lib = demo_lib, pw_env = push_demo_env, pw_knobs = no_warnings, pw_caps = [], pw_transceivers = [] \<rparr>"

definition demo_play :: play_answers where
  "demo_play = \<lparr> py_ssl = True, py_factory = True, py_pc = True, py_transceiver = True, py_signal = True,
     py_begin_us = 10, py_done_us = 20 \<rparr>"

definition demo_pull_config :: PullSubscriberConfig where
  "demo_pull_config = \<lparr> pc_jitter_buffer_min_delay_ms = 0, pc_skip_sink_argb_conversion = False,
     pc_use_rockchip_mpp_h264_decode = False \<rparr>"

definition demo_sink_frame :: sink_frame where
  "demo_sink_frame = \<lparr> sf_buffer = True, sf_i420 = True, sf_w = 4, sf_h = 2, sf_id = 7, sf_now_us = 600, sf_grown_capacity = 32 \<rparr>"

definition demo_sub_inputs :: "pull_sub_input list" where
  "demo_sub_inputs =
     [SiCallbacks True True True, SiPlay demo_play, SiOffer True 100 ''offer'' ''v=0'', SiPending 0 OutOk 200,
      SiPending 0 (OutDescription (Some (Some ''v=1''))) 0, SiPending 0 OutOk 300, SiIce True ''0'' 0 ''cand'', SiIce True ''0'' 0 [],
      SiTrack (Some \<lparr>rv_id = 1, rv_track = Some (5, ''video'')\<rparr>), SiConnectionChange rtc_kConnected 500, SiFrame demo_sink_frame,
      SiTrack (Some \<lparr>rv_id = 1, rv_track = Some (5, ''video'')\<rparr>), SiTrack (Some \<lparr>rv_id = 2, rv_track = Some (6, ''video'')\<rparr>),
      SiStop, SiPlay demo_play]"

definition demo_subscriber :: PullSubscriber where
  "demo_subscriber = new_PullSubscriber demo_pull_config 5"

lemma demo_pull_runs: "pull_sub_run demo_pull_world demo_sub_inputs demo_subscriber \<noteq> None"
  by code_simp

lemma demo_pull_result:
  "pull_sub_run demo_pull_world demo_sub_inputs demo_subscriber =
     Some (the (pull_sub_run demo_pull_world demo_sub_inputs demo_subscriber))"
  using demo_pull_runs by simp

lemma demo_subscriber_reachable: "pull_sub_reachable w demo_subscriber"
  unfolding demo_subscriber_def by (rule create_sub)


section \<open>Corners\<close>

text \<open>
  A description that is applied after the client was stopped: the callback makes an answer on a connection that is
  gone (\<^verbatim>\<open>CreateAnswer\<close> tests the pointer for the codec preferences, and then uses it without a test).
\<close>

theorem late_remote_set_breaks:
  "\<exists>s. pull_sub_run demo_pull_world
         [SiPlay demo_play, SiOffer True 100 ''offer'' ''v=0'', SiStop, SiPending 0 OutOk 200] demo_subscriber = Some s \<and> pi_broken s"
proof -
  have "map_option pi_broken (pull_sub_run demo_pull_world
         [SiPlay demo_play, SiOffer True 100 ''offer'' ''v=0'', SiStop, SiPending 0 OutOk 200] demo_subscriber) = Some True"
    by code_simp
  then show ?thesis by (simp add: map_option_eq_Some del: pull_sub_run.simps)
qed

definition remote_sets :: "nat \<Rightarrow> pull_sub_event list \<Rightarrow> pull_sub_event list" where
  "remote_sets n es = filter (\<lambda>e. case e of PuSetRemote p _ _ \<Rightarrow> p = n | _ \<Rightarrow> False) es"

text \<open>Applied after the client plays again, it makes an answer on the new connection, which was given no offer.\<close>

theorem late_remote_set_answers_new_session:
  "\<exists>s. pull_sub_run demo_pull_world
         [SiPlay demo_play, SiOffer True 100 ''offer'' ''v=0'', SiStop, SiPlay demo_play, SiPending 0 OutOk 200] demo_subscriber = Some s \<and>
       pi_pending s = [PdAnswer 1] \<and> remote_sets 1 (pi_events s) = []"
proof -
  have "map_option (\<lambda>s. (pi_pending s, remote_sets 1 (pi_events s)))
      (pull_sub_run demo_pull_world
         [SiPlay demo_play, SiOffer True 100 ''offer'' ''v=0'', SiStop, SiPlay demo_play, SiPending 0 OutOk 200] demo_subscriber) =
      Some ([PdAnswer 1], [])"
    by code_simp
  then show ?thesis by (simp add: map_option_eq_Some del: pull_sub_run.simps)
qed

text \<open>A second session keeps the times of the first connection and the first frame of the object.\<close>

theorem replay_keeps_times:
  assumes "pu_is_playing s" and "py_ssl a" and "py_factory a" and "py_pc a" and "py_transceiver a" and "py_signal a"
  shows "pu_is_playing (pull_Play a (pull_Stop s)) \<and>
         rx_t_connected_us (pi_stats (pull_Play a (pull_Stop s))) = rx_t_connected_us (pi_stats s) \<and>
         rx_t_first_frame_us (pi_stats (pull_Play a (pull_Stop s))) = rx_t_first_frame_us (pi_stats s)"
  using assms
  by (simp add: pull_Stop_def pull_Play_def pull_Initialize_def pull_CreatePeerConnection_def pull_Shutdown_def
      pull_signal_stop_def pu_emit_def rx_stat_def Let_def split: option.split)

text \<open>How often the SSL library is set up and cleaned up: a start that fails early cleans it up once more than it set it up.\<close>

definition ssl_balance :: "pull_sub_event list \<Rightarrow> int" where
  "ssl_balance es = int (length (filter (\<lambda>e. e = PuSslInit) es)) - int (length (filter (\<lambda>e. e = PuSslCleanup) es))"

lemma ssl_balance_append [simp]: "ssl_balance (xs @ ys) = ssl_balance xs + ssl_balance ys"
  by (simp add: ssl_balance_def)

lemma ssl_balance_simps [simp]:
  "ssl_balance [] = 0" "ssl_balance (e # es) = (if e = PuSslInit then 1 else if e = PuSslCleanup then - 1 else 0) + ssl_balance es"
  by (auto simp: ssl_balance_def)

theorem play_ssl_balance:
  assumes "\<not> pu_is_playing s"
  shows "ssl_balance (pi_events (pull_Play a s)) = ssl_balance (pi_events s) +
           (if py_ssl a \<and> py_factory a then if py_pc a \<and> py_transceiver a \<and> py_signal a then 1 else 0 else - 1)"
  using assms
  by (simp add: pull_Play_def pull_Initialize_def pull_CreatePeerConnection_def pull_Shutdown_def give_up_def
      pull_signal_stop_def pu_emit_def rx_stat_def Let_def split: option.split)

text \<open>Without a callback for the state of the connection, its changes are neither counted nor timed.\<close>

theorem state_changes_need_callback:
  "pi_on_connection_state s \<or> pull_OnConnectionChange st now s = s"
  by (simp add: pull_OnConnectionChange_def)

section \<open>Reading the timing information\<close>

fun join_fields :: "string list \<Rightarrow> string" where
  "join_fields [] = []"
| "join_fields [x] = x"
| "join_fields (x # xs) = x @ CHR '','' # join_fields xs"

lemma SplitCommaFields_join:
  assumes "xs \<noteq> []" and "\<forall>x \<in> set xs. CHR '','' \<notin> set x"
  shows "SplitCommaFields (join_fields xs) = xs"
  using assms
proof (induction xs rule: join_fields.induct)
  case (2 x)
  then show ?case by (simp add: SplitCommaFields.simps [of x])
next
  case (3 x y ys)
  have "SplitCommaFields (x @ CHR '','' # join_fields (y # ys)) = x # SplitCommaFields (join_fields (y # ys))"
    using 3 by (subst SplitCommaFields.simps) (simp add: find_char_first)
  then show ?case using 3 by simp
qed simp

lemma SplitCommaFields_joined: "join_fields (SplitCommaFields s) = s"
proof (induction s rule: SplitCommaFields.induct)
  case (1 s)
  show ?case
  proof (cases "find_char (CHR '','') s")
    case None
    then show ?thesis by (simp add: SplitCommaFields.simps [of s])
  next
    case (Some i)
    have ne: "SplitCommaFields t \<noteq> []" for t by (subst SplitCommaFields.simps) (simp split: option.split)
    have "s = take i s @ CHR '','' # drop (Suc i) s"
      using find_char_SomeD [OF Some] id_take_nth_drop by metis
    moreover have "join_fields (take i s # SplitCommaFields (drop (Suc i) s)) = take i s @ CHR '','' # drop (Suc i) s"
      using 1 [OF Some] ne [of "drop (Suc i) s"] by (cases "SplitCommaFields (drop (Suc i) s)") auto
    ultimately show ?thesis using Some by (simp add: SplitCommaFields.simps [of s])
  qed
qed

lemma ParseInt64Strict_to_string:
  assumes "LONG_MIN \<le> i" and "i \<le> LONG_MAX"
  shows "ParseInt64Strict (to_string i) = Some i"
proof (cases "i < 0")
  case True
  have [simp]: "\<not> isspace (CHR ''-'')" by (simp add: isspace_def)
  show ?thesis
    using True assms dropWhile_show_nat [of "[]" "nat (- i)"]
    by (simp add: ParseInt64Strict_def to_string_def strip_sign_def digits_value_show_nat Let_def)
next
  case False
  then show ?thesis
    using assms dropWhile_show_nat [of "[]" "nat i"] show_nat_no_space [of "nat i" "[]"] strip_sign_show_nat [of "nat i" "[]"]
    by (simp add: ParseInt64Strict_def to_string_def digits_value_show_nat Let_def)
qed

lemma to_string_no_comma: "CHR '','' \<notin> set (to_string i)"
  using show_nat_digits [of "nat i"] show_nat_digits [of "nat (- i)"] digit_not_special [of "CHR '',''"]
  by (auto simp: to_string_def)

text \<open>
  The log shows the times that were sent. Of the text WebRTC makes of a timing frame, fifteen 64-bit numbers separated
  by commas, exactly those numbers are read, and the delays shown are their differences: the one since the capture only
  where the capture time is not negative.
\<close>

theorem timing_info_roundtrip:
  assumes "length ts = 15" and "\<forall>t \<in> set ts. LONG_MIN \<le> t \<and> t \<le> LONG_MAX"
  shows "PrintGoogTimingFrameInfoLabeled (join_fields (map to_string ts)) =
           LabeledTiming (map to_string ts)
             (Some ([(''first_RTP-decode_start'', ts ! 10 - ts ! 8), (''last_RTP-decode_start'', ts ! 10 - ts ! 9),
                     (''decode_start-decode_finish'', ts ! 11 - ts ! 10), (''RTP_last-first'', ts ! 9 - ts ! 8)]
                    @ (if ts ! 1 \<ge> 0 then [(''capture-decode_start'', ts ! 10 - ts ! 1)] else [])
                    @ [(''encode_start-capture'', ts ! 2 - ts ! 1), (''encode_finish-encode_start'', ts ! 3 - ts ! 2)]))"
proof -
  have "SplitCommaFields (join_fields (map to_string ts)) = map to_string ts"
    using assms(1) to_string_no_comma by (intro SplitCommaFields_join) auto
  moreover have "ParseInt64Strict (to_string (ts ! k)) = Some (ts ! k)" if "k < 15" for k
    using that assms by (intro ParseInt64Strict_to_string) auto
  ultimately show ?thesis
    using assms(1) by (simp add: PrintGoogTimingFrameInfoLabeled_def timing_deltas_def)
qed

end
