(* ===== verification/Spec2Isabelle.thy ===== *)
theory Spec2Isabelle
  imports Signal_Server Signal_Session Thread_Pool Offer_Pump Runtime_Knobs Media_Objects Service_Sdk Client_Sdk
    Push_Streamer External_Source Congestion Decoder_Recovery Camera_Setup Pull_Subscriber
begin

text \<open>
  \<^bold>\<open>A verification development of LibRoboFlow.\<close>

  LibRoboFlow streams video between robots and viewers over WebRTC. A publishing library
  (\<^verbatim>\<open>librflow_svc\<close>, \<^verbatim>\<open>src/service\<close>) and a pulling library (\<^verbatim>\<open>librflow_client\<close>, \<^verbatim>\<open>src/client\<close>)
  share a common layer (\<^verbatim>\<open>src/common\<close>: the C interface, configuration, logging, frames) and a
  core (\<^verbatim>\<open>src/core\<close>: signaling, threads, knobs, WebRTC glue). Both find each other through a
  relay server (\<^verbatim>\<open>src/core/signal/server.cpp\<close>) to which they speak one JSON object per line over
  TCP: a publisher registers under a stream name, a subscriber asks for that name, the relay
  announces the subscriber to the publisher, and from then on it passes offers, answers and ICE
  candidates between the two.

  \<^bold>\<open>Theories\<close>, in the order in which they build on each other, with the code each one models:

  \<^item> \<^verbatim>\<open>RF_Prelude\<close>: characters, decimal printing and parsing as the C library does it, substring
    search, association lists for \<^verbatim>\<open>std::unordered_map\<close>, conversion to 32 bits.
  \<^item> \<^verbatim>\<open>Signal_Protocol\<close>: \<^verbatim>\<open>src/core/signal/protocol.cpp\<close>. Messages, the line builders and the
    tolerant parser, endpoint addresses.
  \<^item> \<^verbatim>\<open>Signal_Framing\<close>: lines on a byte stream: \<^verbatim>\<open>src/core/net/posix_io.cpp\<close>, the read buffer of
    server and sessions, the send loop of \<^verbatim>\<open>session_transport.cpp\<close>. The locale \<open>line_codec\<close> is what
    framing needs of a message format; the wire protocol interprets it.
  \<^item> \<^verbatim>\<open>Signal_Server\<close>: the relay: tables, sharded queues, registration, routing, disconnection, as
    a step relation.
  \<^item> \<^verbatim>\<open>Signal_Session\<close>: \<^verbatim>\<open>tcp_session.cpp\<close>, \<^verbatim>\<open>session_transport.cpp\<close> and
    \<^verbatim>\<open>shared_signaling_io_manager.h\<close>: dialling, registration, sending, the shared reader.
  \<^item> \<^verbatim>\<open>Thread_Pool\<close>: \<^verbatim>\<open>src/core/thread/thread_pool.cpp\<close>. \<^verbatim>\<open>Offer_Pump\<close>:
    \<^verbatim>\<open>src/service/impl/subscriber_offer_pump.cpp\<close>. One step per critical section.
  \<^item> \<^verbatim>\<open>Abi_Objects\<close>, \<^verbatim>\<open>Service_Params\<close>, \<^verbatim>\<open>Client_Params\<close>: \<^verbatim>\<open>src/common/abi\<close>,
    \<^verbatim>\<open>src/service/api_stream_objects.cpp\<close>, \<^verbatim>\<open>src/client/api_handles.cpp\<close> and
    \<^verbatim>\<open>api_stream_objects.cpp\<close>: handles with magic numbers, flagged fields, strings copied into the
    caller's buffers. The locale \<open>flagged_object\<close> is the contract of a parameter object.
  \<^item> \<^verbatim>\<open>Runtime_Knobs\<close>, \<^verbatim>\<open>Sdk_Config\<close>: \<^verbatim>\<open>src/core/runtime/runtime_knobs.cpp\<close>, the capture presets, the
    configuration objects, logger, last error, ICE servers and interface filter.
  \<^item> \<^verbatim>\<open>Media_Objects\<close>: \<^verbatim>\<open>src/common/media\<close>. Reference-counted frames and statistics; the locale
    \<open>counted\<close> is the contract of retain and release.
  \<^item> \<^verbatim>\<open>Codec_Backends\<close>: \<^verbatim>\<open>video_codec_preferences.cpp\<close>, \<^verbatim>\<open>push_h264_profile.cpp\<close>,
    \<^verbatim>\<open>hw/backend_registry.cpp\<close>, \<^verbatim>\<open>peer_connection_factory.cpp\<close> and \<^verbatim>\<open>peer_connection_factory_deps.cpp\<close>. The
    locale \<open>backend_store\<close> is the contract of the registry. \<^verbatim>\<open>Camera_Devices\<close>: \<^verbatim>\<open>camera_utils.cpp\<close> and the
    choice of the capture device.
  \<^item> \<^verbatim>\<open>Push_Streamer\<close>: \<^verbatim>\<open>push_streamer.cpp\<close> with its internals and observers, as a step relation: one
    connection per subscriber, offers, answers and candidates, the callbacks WebRTC owes, start and
    stop. \<^verbatim>\<open>External_Source\<close>: \<^verbatim>\<open>external_push_video_track_source.cpp\<close>.
  \<^item> \<^verbatim>\<open>Congestion\<close>: \<^verbatim>\<open>src/core/rtc/congestion\<close>; the locale \<open>congestion_policy\<close> is the interface both
    policies implement. \<^verbatim>\<open>Decoder_Recovery\<close>: \<^verbatim>\<open>shims/builtin_video_decoder_recovery.cpp\<close>.
  \<^item> \<^verbatim>\<open>Rtc_Stats\<close>: the sums over a WebRTC report (\<^verbatim>\<open>outbound_\<close> and
    \<^verbatim>\<open>inbound_video_stats_aggregation.cpp\<close>, \<^verbatim>\<open>ice_nominated_pair_rtt.cpp\<close>), the blocking request
    \<^verbatim>\<open>rtc_sync_stats.cpp\<close> as a sequence of events of two threads, and \<^verbatim>\<open>CollectStats\<close> of both libraries with
    the lines of the watchdog. \<^verbatim>\<open>Pipeline_Health\<close>: \<^verbatim>\<open>push_pipeline_health.cpp\<close>,
    \<^verbatim>\<open>push_pipeline_drop_stats.cpp\<close> and what the streamer prints about a report. A report is a record of
    rows and an argument; a \<^verbatim>\<open>double\<close> is a rational number.
  \<^item> \<^verbatim>\<open>Camera_Capture\<close>: \<^verbatim>\<open>camera_video_track_source.cpp\<close> from a running device on: the capture and the
    decoder thread as a step relation over the queue, the owners of the buffers and the pool of decoded frames.
    \<^verbatim>\<open>Camera_Setup\<close>: \<^verbatim>\<open>Start\<close> and \<^verbatim>\<open>Stop\<close> with every ioctl that may fail, the choice of the format and
    the adaptation to the sinks; the driver is a record of functions, the resources held are a ledger, and a
    successful start yields the state \<open>capture_begin\<close> in which the threads of \<^verbatim>\<open>Camera_Capture\<close> begin.
  \<^item> \<^verbatim>\<open>Pull_Subscriber\<close>: \<^verbatim>\<open>pull_subscriber.cpp\<close>, its video sink and its internals, the pulling client of
    the examples: what it calls is a log, a late callback of WebRTC a step.
  \<^item> \<^verbatim>\<open>Service_Publisher\<close>, \<^verbatim>\<open>Service_Sdk\<close>: \<^verbatim>\<open>stream_startup_policy.cpp\<close>, \<^verbatim>\<open>publisher.cpp\<close>,
    \<^verbatim>\<open>signaling_client.cpp\<close>; \<^verbatim>\<open>api_handles.cpp\<close>, \<^verbatim>\<open>lifecycle.cpp\<close>, \<^verbatim>\<open>stream.cpp\<close>, \<^verbatim>\<open>state_ops.cpp\<close>. A public
    function is one step on the state of the process.
  \<^item> \<^verbatim>\<open>Client_Session\<close>, \<^verbatim>\<open>Client_Sdk\<close>: \<^verbatim>\<open>rtc_stream_session.cpp\<close> with \<^verbatim>\<open>pending_ice_buffer.h\<close>, and
    \<^verbatim>\<open>lifecycle.cpp\<close>, \<^verbatim>\<open>infrastructure.cpp\<close>, \<^verbatim>\<open>stream.cpp\<close>, \<^verbatim>\<open>state_ops.cpp\<close>,
    \<^verbatim>\<open>rtc_stream_manager.cpp\<close> of the client.
  \<^item> this theory: what spans the components.

  \<^bold>\<open>Conventions.\<close> A structure is a record whose fields carry a prefix, an enumeration a datatype
  with the code's constructors and, where a caller can pass any number, one for the rest. A
  machine integer keeps its width: \<^verbatim>\<open>u8\<close>, \<^verbatim>\<open>u32\<close> and \<^verbatim>\<open>u64\<close> are words; \<^verbatim>\<open>int\<close> is an integer with \<open>to_int32\<close>
  where it can leave its range. A pointer to an object is an option, and an
  object shared between threads lies in a heap. Error codes are results; what a call does to
  the outside (callbacks, bytes written, descriptors closed, calls into WebRTC) is appended to a
  log. Definitions keep the names of the code, with a prefix where two functions share one.

  What the code cannot decide is an argument: the answers of the operating system (how many
  bytes \<^verbatim>\<open>send\<close> took, whether \<^verbatim>\<open>connect\<close> succeeded), the environment, the clock, memory
  allocation, the word found behind a dangling handle, and what WebRTC answers. None of these
  carries a hypothesis unless a theorem states it.

  \<^bold>\<open>What is shown.\<close> Wire protocol and framing: every message survives building, chunking and
  parsing, and a send is exact about what it put on the wire. Relay: its tables agree in every
  reachable state, its queues and buffers stay within their limits, lines travel only between
  the peers of a stream, registration and disconnection do exactly what they announce.
  Sessions: reader and sessions agree, stopping a session silences it. Pool and pump: tasks are
  neither lost nor doubled, one dispatch is in flight at a time, stopping drains. C interface:
  objects refine partial maps, strings never leave the caller's buffer. Configuration: bounds
  of everything read from the environment, and when it takes effect. Media objects: exact
  reference counts and packed payloads. Codecs: the preference list is a stable sort,
  a decoder factory is always found, a peer connection factory never outlives its threads.
  Streamer: offers, answers and candidates of a subscriber stay with the connection created for
  it, stopping closes every connection once, the capture gate ends, bitrates are ordered; a
  pushed frame is the caller's bytes; a stuck decoder is reset within its limit. Statistics: the sums are
  those of the report, a report is consumed once and in time, the health windows add up. Camera: every buffer
  has one owner, frames are neither reordered nor miscounted, pool slots are exclusive, a failed start
  gives everything back, a successful one delivers the size asked for. The second pulling client closes
  what it opens. Both SDKs: an invariant over any sequence of calls,
  the life of a stream with its callbacks, the outcome of every error path. Pulling session:
  candidates reach their connection in order and not too early, closing silences, keyframe
  requests keep their distance. At the end, \<open>rendezvous\<close> composes both SDKs, sessions, protocol and
  relay: a started publisher and an opened puller of the same device and index meet.

  \<^bold>\<open>Bounds and fuel.\<close> No definition runs on fuel. Loops over input are structural or have a
  measure; a loop that waits for the system consumes the list of its answers, and its result
  is None when the list ends before the loop does, so that statements about a result also say
  that there is one. Word sizes are those of the code.

  \<^bold>\<open>Not modelled.\<close> WebRTC itself (\<^verbatim>\<open>include/webrtc\<close> holds third-party headers), the kernel's V4L2 driver, and
  the hardware codecs for Rockchip and Android: they consist of calls into libraries whose code is
  not in the repository. The factories that wrap the hardware codecs and the diagnostic lines
  that only print are not modelled. Thread interleavings are modelled where the code relies on them
  (relay workers, reader, pool, pump); a public function of an SDK is one step, and the places
  where the code releases a lock in the middle of one are treated by separate lemmas
  (\<open>connect_race\<close>, \<open>candidate_stranded\<close>). Time-outs appear as answers.
\<close>

section \<open>Publisher and subscriber meet\<close>

lemma message_shape [simp]: "message_ints_ok (default_message\<lparr>m_type := t, m_from := p\<rparr>)"
  by (simp add: message_ints_ok_def default_message_def default_registration_def)

text \<open>The notice the relay writes is read by the publisher's signaling client as a join.\<close>

lemma join_notice_read:
  "\<exists>m. ParseMessage (json_event ''subscriber_join'' (peer_name r n)) (Some old) = (True, Some m)
     \<and> OnSignalMessage m = Some (OnSubscriberJoin (peer_name r n))"
proof -
  let ?m = "default_message\<lparr>m_type := kSubscriberJoin, m_from := peer_name r n\<rparr>"
  have "json_event ''subscriber_join'' (peer_name r n) = BuildMessageLine ?m"
    using json_event_message [of "peer_name r n" kSubscriberJoin] by simp
  then have "ParseMessage (json_event ''subscriber_join'' (peer_name r n)) (Some old) = (True, Some (wire_message ?m))"
    by (simp add: ParseMessage_BuildMessageLine)
  moreover have "OnSignalMessage (wire_message ?m) = Some (OnSubscriberJoin (peer_name r n))"
    by (simp add: OnSignalMessage_def wire_message_def)
  ultimately show ?thesis by blast
qed


text \<open>Publisher and puller ask the relay for the same room.\<close>

lemma publisher_room:
  "requested_stream (sc_registration (MakeSessionConfig url ''publisher'' (stream_name s idx))) = stream_name s idx"
  "reg_role (sc_registration (MakeSessionConfig url ''publisher'' (stream_name s idx))) = RolePublisher"
  "reg_stream_index (sc_registration (MakeSessionConfig url ''publisher'' (stream_name s idx))) = - 1"
  by (simp_all add: MakeSessionConfig_def requested_stream_def wire_registration_def default_registration_def
      stream_name_def PeerRoleFromString_def)

lemma puller_room:
  assumes "0 \<le> rs_index q" and "rs_device_id q = ci_device_id (sv_connect_info s)" and "rs_device_id q \<noteq> []"
  shows "requested_stream (NormalizeSubscriberRegistration (sc_registration (pull_session_config q))) = stream_name s (rs_index q)"
    and "reg_role (NormalizeSubscriberRegistration (sc_registration (pull_session_config q))) = RoleSubscriber"
    and "reg_stream_index (NormalizeSubscriberRegistration (sc_registration (pull_session_config q))) = rs_index q"
  using assms
  by (simp_all add: pull_session_config_def requested_stream_def wire_registration_def default_registration_def
      stream_name_def NormalizeSubscriberRegistration_def Let_def)

text \<open>
  C40: Publisher and subscriber meet at the relay. Take a started stream of a reachable publishing
  SDK and an open stream of a reachable pulling SDK with the same device id and the same,
  non-negative, index. When both register at a relay in a consistent state, publisher first,
  both are accepted into the same room, and the relay then sends the subscriber its welcome and
  the publisher one line.
  The publisher reads that line as the join of exactly this subscriber and queues an offer for
  it.
\<close>

theorem rendezvous:
  assumes "sdk_reachable w" and "FindStream h w = Some sh" and "st_started sh"
    and "st_impl sh = Some pub" and "pb_signaling pub = Some c"
    and "kst_index ksh = st_stream_idx sh" and "0 \<le> kst_index ksh" and "int32_range (kst_index ksh)"
    and "kci_device_id (cl_connect_info (k_state k)) = ci_device_id (sv_connect_info (w_state w))"
    and "server_ok s" and "info_of s pfd = None" and "0 \<le> pfd" and "pfd \<in> open_fds s" and "uint (g_peer_seq s) < 2 ^ 64 - 1"
    and "0 \<le> sfd" and "cli_reachable k" and "FindStreamByHandle g k = Some ksh" and "kst_impl ksh = Some (sid, q)"
    and "HandleInitialRegister pfd (BuildRegisterLine (NormalizeSubscriberRegistration (sc_registration (sgc_session c)))) s = (r1, s1)"
    and "HandleInitialRegister sfd
           (BuildRegisterLine (NormalizeSubscriberRegistration (sc_registration (the (rs_signaling q))))) s1 = (r2, s2)"
  shows "r1 \<and> r2 \<and> (let pid = peer_name ''subscriber'' (uint (g_peer_seq s1)); room = stream_name (w_state w) (st_stream_idx sh)
     in (\<exists>p. pub_of s2 room = Some (pfd, p)) \<and> sub_of s2 room pid = Some sfd
      \<and> (\<exists>line m. sv_log s2 = sv_log s1 @ [Sent sfd (json_welcome pid), Sent pfd line]
           \<and> ParseMessage line (Some default_message) = (True, Some m)
           \<and> OnSignalMessage m = Some (OnSubscriberJoin pid)
           \<and> QueueOffer pid \<in> set (publisher_on_signal pub (OnSubscriberJoin pid))))"
proof -
  let ?room = "stream_name (w_state w) (st_stream_idx sh)" and ?pid = "peer_name ''subscriber'' (uint (g_peer_seq s1))"
  note ok = sdk_reachable_ok [OF assms(1)]
  note so = svc_ok_found [OF ok assms(2)]
  have c: "sgc_session c = MakeSessionConfig (signal_url (w_state w)) ''publisher'' ?room"
    using so(1) assms(3-5) by (simp add: stream_ok_def pub_ok_def publisher_registers)
  note kok = cli_reachable_ok [OF assms(16)]
  note ks = cli_ok_found [OF kok assms(17)]
  have q0: "rs_index q = kst_index ksh" "rs_signaling q = Some (pull_session_config q)"
    "rs_device_id q = ci_device_id (sv_connect_info (w_state w))"
    using ks kok assms(9,18) by (auto simp: cstream_ok_def cli_ok_def Let_def)
  have dev: "rs_device_id q \<noteq> []" using ok so(2) q0(3) by (simp add: svc_ok_def Let_def)
  let ?req = "sc_registration (MakeSessionConfig (signal_url (w_state w)) ''publisher'' ?room)"
  have nr: "NormalizeSubscriberRegistration ?req = ?req"
    by (simp add: NormalizeSubscriberRegistration_def publisher_room)
  have r1: "r1" and s1: "s1 = register_publisher pfd ?room s"
    using assms(19) HandleInitialRegister_line [of ?req pfd s] by (auto simp: c nr publisher_room int32_range_def)
  have ok1: "server_ok s1" using HandleInitialRegister_ok [OF assms(10-14,19)] by simp
  have pub1: "pub_of s1 ?room = Some (pfd, peer_name ''publisher'' (uint (g_peer_seq s)))"
    unfolding s1 by (rule register_publisher_pub)
  have "0 \<le> rs_index q" using q0(1) assms(7) by simp
  note q = puller_room [OF this q0(3) dev]
  have r2: "r2" and s2: "s2 = register_subscriber sfd ?room s1"
    using assms(20) HandleInitialRegister_line [of "NormalizeSubscriberRegistration (sc_registration (pull_session_config q))" sfd s1]
      q q0(1,2) assms(6,8) by auto
  note v = register_subscriber_views [OF ok1 assms(15), of ?room, folded s2]
  obtain m where m: "ParseMessage (json_event ''subscriber_join'' ?pid) (Some default_message) = (True, Some m)"
    "OnSignalMessage m = Some (OnSubscriberJoin ?pid)" using join_notice_read by blast
  have "QueueOffer ?pid \<in> set (publisher_on_signal pub (OnSubscriberJoin ?pid))"
    by (simp add: publisher_on_signal_def)
  with m r1 r2 v pub1 show ?thesis by (simp add: Let_def)
qed


definition demo_lobby :: Server where
  "demo_lobby = (demo_relay 0 demo_answer)\<lparr>open_fds := {5, 6, 9}\<rparr>"

lemma demo_lobby_facts: "server_ok demo_lobby" "info_of demo_lobby 9 = None" "9 \<in> open_fds demo_lobby"
  "uint (g_peer_seq demo_lobby) < 2 ^ 64 - 1"
proof -
  have v: "info_of demo_lobby = info_of (demo_relay 0 demo_answer)" "pub_of demo_lobby = pub_of (demo_relay 0 demo_answer)"
    "sub_of demo_lobby = sub_of (demo_relay 0 demo_answer)" "client_of demo_lobby = client_of (demo_relay 0 demo_answer)"
    by (simp_all add: demo_lobby_def info_of_def pub_of_def sub_of_def stream_subs_def client_of_def fun_eq_iff)
  have sub: "open_fds (demo_relay 0 demo_answer) \<subseteq> open_fds demo_lobby" by (auto simp: demo_lobby_def demo_relay_def)
  have "ids_ok I F x \<Longrightarrow> F \<subseteq> G \<Longrightarrow> ids_ok I G x" for I F G x
    unfolding ids_ok_def by blast
  from this [OF _ sub] show "server_ok demo_lobby"
    using demo_relay_ok [of 0 demo_answer] v unfolding server_ok_def subs_ok_def
    by (simp add: demo_lobby_def)
  show "info_of demo_lobby 9 = None" unfolding v by (simp add: info_of_def demo_relay_def)
  show "9 \<in> open_fds demo_lobby" "uint (g_peer_seq demo_lobby) < 2 ^ 64 - 1"
    by (simp_all add: demo_lobby_def demo_relay_def)
qed

theorem rendezvous_witness:
  "\<exists>(c :: SignalingClient) (q :: RtcStreamSession) s1 s2 line m. HandleInitialRegister 9
        (BuildRegisterLine (NormalizeSubscriberRegistration (sc_registration (sgc_session c)))) demo_lobby = (True, s1)
     \<and> HandleInitialRegister 10
        (BuildRegisterLine (NormalizeSubscriberRegistration (sc_registration (the (rs_signaling q))))) s1 = (True, s2)
     \<and> sv_log s2 = sv_log s1 @ [Sent 10 (json_welcome (peer_name ''subscriber'' (uint (g_peer_seq s1)))), Sent 9 line]
     \<and> ParseMessage line (Some default_message) = (True, Some m)
     \<and> OnSignalMessage m = Some (OnSubscriberJoin (peer_name ''subscriber'' (uint (g_peer_seq s1))))"
proof -
  obtain sh pub where sh: "FindStream 1 demo_started = Some sh" "st_started sh" "st_impl sh = Some pub" "st_stream_idx sh = 3"
    using demo_started_found by blast
  have "stream_ok (w_state demo_started) sh" by (rule svc_ok_found [OF sdk_reachable_ok [OF demo_reachable(2)] sh(1)])
  then obtain c where c: "pb_signaling pub = Some c" using sh by (auto simp: stream_ok_def pub_ok_def)
  obtain ksh where k: "FindStreamByHandle 1 demo_kopen = Some ksh" "kst_index ksh = 3" using demo_kopen_found(1) by blast
  obtain sid q where q: "kst_impl ksh = Some (sid, q)"
    using cstream_ok_impl [OF cli_ok_found(1) [OF cli_reachable_ok [OF demo_kreachable(2)] k(1)]] by metis
  have i: "kst_index ksh = st_stream_idx sh" "0 \<le> kst_index ksh" "int32_range (kst_index ksh)"
    by (simp_all add: k(2) sh(4) int32_range_def)
  have "sv_connect_info (w_state (snd (librflow_svc_start_stream now e a b st hd x))) = sv_connect_info (w_state x)" for now e a b st hd x
    by (simp add: librflow_svc_start_stream_def Let_def split: option.split prod.split)
  then have dp: "ci_device_id (sv_connect_info (w_state demo_started)) = ''robot7''"
    by (simp add: demo_started_def demo_created_eq demo_connected_views demo_info_def)
  have "kci_device_id (cl_connect_info (k_state demo_kopen)) = ''robot7''" by code_simp
  then have d: "kci_device_id (cl_connect_info (k_state demo_kopen)) = ci_device_id (sv_connect_info (w_state demo_started))"
    using dp by simp
  obtain r1 s1 where h1: "HandleInitialRegister 9
      (BuildRegisterLine (NormalizeSubscriberRegistration (sc_registration (sgc_session c)))) demo_lobby = (r1, s1)" by fastforce
  obtain r2 s2 where h2: "HandleInitialRegister 10
      (BuildRegisterLine (NormalizeSubscriberRegistration (sc_registration (the (rs_signaling q))))) s1 = (r2, s2)" by fastforce
  note z = rendezvous [OF demo_reachable(2) sh(1-3) c i d demo_lobby_facts(1,2) _ demo_lobby_facts(3,4) _ demo_kreachable(2) k(1) q h1 h2]
  let ?pid = "peer_name ''subscriber'' (uint (g_peer_seq s1))"
  from z obtain line m where "r1" "r2" and lm: "sv_log s2 = sv_log s1 @ [Sent 10 (json_welcome ?pid), Sent 9 line]"
    "ParseMessage line (Some default_message) = (True, Some m)" "OnSignalMessage m = Some (OnSubscriberJoin ?pid)"
    unfolding Let_def by auto
  with h1 h2 have "HandleInitialRegister 9
        (BuildRegisterLine (NormalizeSubscriberRegistration (sc_registration (sgc_session c)))) demo_lobby = (True, s1)"
    "HandleInitialRegister 10
        (BuildRegisterLine (NormalizeSubscriberRegistration (sc_registration (the (rs_signaling q))))) s1 = (True, s2)"
    by simp_all
  with lm show ?thesis by blast
qed

end
